(* ===== verification/Cool_Prelude.thy ===== *)
theory Cool_Prelude
  imports Main "HOL-Library.Word" "HOL-Library.Char_ord"
begin

text \<open>
  Shared vocabulary of the development: the error monad on sums (a Rust
  \<open>Result\<close> with its \<open>?\<close> operator), decimal printing and parsing
  (\<open>format!\<close> and \<open>str::parse\<close>), the ASCII string operations the
  crates use on byte strings, and a few facts on lists. A Rust \<open>String\<close> is
  its UTF-8 byte sequence: a HOL \<open>string\<close>, so that \<open>len()\<close> is
  \<open>length\<close>.
\<close>

named_theorems res_simps \<open>inversion of error-monad computations that returned\<close>

section \<open>Results\<close>

type_synonym ('e, 'a) result = "'e + 'a"

fun ebind :: "('e, 'a) result \<Rightarrow> ('a \<Rightarrow> ('e, 'b) result) \<Rightarrow> ('e, 'b) result" where
  "ebind (Inl e) f = Inl e"
| "ebind (Inr x) f = f x"

definition ensure :: "bool \<Rightarrow> 'e \<Rightarrow> ('e, unit) result" where
  "ensure b e = (if b then Inr () else Inl e)"

definition ok_or :: "'e \<Rightarrow> 'a option \<Rightarrow> ('e, 'a) result" where
  "ok_or e x = (case x of None \<Rightarrow> Inl e | Some v \<Rightarrow> Inr v)"

fun efold :: "('a \<Rightarrow> 's \<Rightarrow> ('e, 's) result) \<Rightarrow> 'a list \<Rightarrow> 's \<Rightarrow> ('e, 's) result" where
  "efold f [] s = Inr s"
| "efold f (x # xs) s = ebind (f x s) (efold f xs)"

lemma ebind_Inr_iff [res_simps]: "ebind m f = Inr y \<longleftrightarrow> (\<exists>x. m = Inr x \<and> f x = Inr y)"
  by (cases m) auto

lemma ebind_Inl_iff: "ebind m f = Inl e \<longleftrightarrow> m = Inl e \<or> (\<exists>x. m = Inr x \<and> f x = Inl e)"
  by (cases m) auto

lemma ensure_Inr_iff [res_simps]: "ensure b e = Inr u \<longleftrightarrow> b"
  by (simp add: ensure_def)

lemma ensure_Inl_iff: "ensure b e = Inl e' \<longleftrightarrow> \<not> b \<and> e' = e"
  by (auto simp: ensure_def)

lemma ensure_simps [simp]: "ensure True e = Inr ()" "ensure False e = Inl e"
  by (simp_all add: ensure_def)

lemma ok_or_Inr_iff [res_simps]: "ok_or e x = Inr v \<longleftrightarrow> x = Some v"
  by (simp add: ok_or_def split: option.splits)

lemma ok_or_simps [simp]: "ok_or e None = Inl e" "ok_or e (Some v) = Inr v"
  by (simp_all add: ok_or_def)

lemma ebind_assoc: "ebind (ebind m f) g = ebind m (\<lambda>x. ebind (f x) g)"
  by (cases m) auto

lemma ebind_cong [fundef_cong]:
  "m = m' \<Longrightarrow> (\<And>x. m' = Inr x \<Longrightarrow> f x = f' x) \<Longrightarrow> ebind m f = ebind m' f'"
  by (cases m') auto

lemma efold_Cons_Inr [res_simps]:
  "efold f (x # xs) s = Inr t \<longleftrightarrow> (\<exists>u. f x s = Inr u \<and> efold f xs u = Inr t)"
  by (simp add: ebind_Inr_iff)

lemma efold_append:
  "efold f (xs @ ys) s = ebind (efold f xs s) (efold f ys)"
proof (induction xs arbitrary: s)
  case (Cons x xs)
  then show ?case by (cases "f x s") simp_all
qed simp

text \<open>An invariant that every step of a fold keeps holds for the result of the fold.\<close>

lemma efold_invariant:
  assumes "efold f xs s = Inr t" "P s"
    and "\<And>x s t. x \<in> set xs \<Longrightarrow> P s \<Longrightarrow> f x s = Inr t \<Longrightarrow> P t"
  shows "P t"
  using assms
proof (induction xs arbitrary: s)
  case Nil
  then show ?case by simp
next
  case (Cons x xs)
  from Cons.prems(1) obtain u where u: "f x s = Inr u" "efold f xs u = Inr t"
    by (auto simp: ebind_Inr_iff)
  with Cons.prems have "P u" by auto
  with u(2) Cons.prems(3) show ?case by (auto intro: Cons.IH)
qed

section \<open>Integers of the code\<close>

abbreviation i64_max :: nat where "i64_max \<equiv> 9223372036854775807"
abbreviation u64_max :: nat where "u64_max \<equiv> 18446744073709551615"

lemma shifted_mod:
  fixes u :: int
  assumes "0 \<le> u" "u < 2 ^ 64"
  shows "(u + 2 ^ 63) mod 2 ^ 64 - 2 ^ 63 = (if u < 2 ^ 63 then u else u - 2 ^ 64)"
proof (cases "u < 2 ^ 63")
  case True
  with assms show ?thesis by simp
next
  case False
  with assms have "(u + 2 ^ 63 - 2 ^ 64) mod 2 ^ 64 = u + 2 ^ 63 - 2 ^ 64" by simp
  moreover have "(u + 2 ^ 63 - 2 ^ 64) mod 2 ^ 64 = (u + 2 ^ 63) mod 2 ^ 64"
    by (rule minus_mod_self2)
  ultimately show ?thesis using False by simp
qed

lemma sint_u64: "sint (w :: 64 word) = (if uint w < 2 ^ 63 then uint w else uint w - 2 ^ 64)"
  using shifted_mod [of "uint w"] uint_lt2p [of w]
  by (simp add: sint_uint signed_take_bit_eq_take_bit_shift take_bit_eq_mod)

section \<open>Decimal numbers\<close>

definition digit_char :: "nat \<Rightarrow> char" where
  "digit_char d = char_of (48 + d)"

definition is_digit :: "char \<Rightarrow> bool" where
  "is_digit c \<longleftrightarrow> 48 \<le> (of_char c :: nat) \<and> (of_char c :: nat) \<le> 57"

definition digit_val :: "char \<Rightarrow> nat" where
  "digit_val c = of_char c - 48"

fun dec :: "nat \<Rightarrow> string" where
  "dec n = (if n < 10 then [digit_char n] else dec (n div 10) @ [digit_char (n mod 10)])"

declare dec.simps [simp del]

fun digits_value :: "nat \<Rightarrow> string \<Rightarrow> nat option" where
  "digits_value acc [] = Some acc"
| "digits_value acc (c # cs) =
     (if is_digit c then digits_value (10 * acc + digit_val c) cs else None)"

text \<open>
  \<open>str::parse\<close> at an unsigned type with greatest value \<open>m\<close>: an optional
  \<open>+\<close>, then at least one digit, and the value must fit.
\<close>

definition parse_unsigned :: "nat \<Rightarrow> string \<Rightarrow> nat option" where
  "parse_unsigned m s =
     (let t = (case s of c # r \<Rightarrow> if c = CHR ''+'' then r else s | [] \<Rightarrow> s)
      in if t = [] then None
         else case digits_value 0 t of
                None \<Rightarrow> None
              | Some v \<Rightarrow> if v \<le> m then Some v else None)"

text \<open>\<open>str::parse::<i64>\<close>: an optional sign, digits, and the value must fit in 64 bits.\<close>

definition parse_i64 :: "string \<Rightarrow> int option" where
  "parse_i64 s =
     (case s of
        [] \<Rightarrow> None
      | c # r \<Rightarrow>
          if c = CHR ''-''
          then (if r = [] then None
                else case digits_value 0 r of
                       None \<Rightarrow> None
                     | Some v \<Rightarrow> if v \<le> i64_max + 1 then Some (- int v) else None)
          else map_option int (parse_unsigned i64_max s))"

lemma of_char_digit_char: "d < 10 \<Longrightarrow> (of_char (digit_char d) :: nat) = 48 + d"
  by (simp add: digit_char_def)

lemma is_digit_digit_char [simp]: "d < 10 \<Longrightarrow> is_digit (digit_char d)"
  by (simp add: is_digit_def of_char_digit_char)

lemma digit_val_digit_char [simp]: "d < 10 \<Longrightarrow> digit_val (digit_char d) = d"
  by (simp add: digit_val_def of_char_digit_char)

lemma digits_value_append:
  "digits_value a (xs @ ys) =
     (case digits_value a xs of None \<Rightarrow> None | Some b \<Rightarrow> digits_value b ys)"
  by (induction xs arbitrary: a) auto

lemma digits_value_dec: "digits_value 0 (dec n) = Some n"
proof (induction n rule: dec.induct)
  case (1 n)
  show ?case
  proof (cases "n < 10")
    case True
    then show ?thesis by (simp add: dec.simps [of n])
  next
    case False
    with "1.IH" show ?thesis
      by (simp add: dec.simps [of n] digits_value_append)
  qed
qed

lemma dec_not_Nil [simp]: "dec n \<noteq> []"
  by (subst dec.simps) simp

lemma dec_all_digits: "c \<in> set (dec n) \<Longrightarrow> is_digit c"
proof (induction n rule: dec.induct)
  case (1 n)
  then show ?case
    by (cases "n < 10") (auto simp: dec.simps [of n])
qed

lemma hd_dec_is_digit: "is_digit (hd (dec n))"
  by (rule dec_all_digits) (rule hd_in_set, simp)

lemma plus_not_digit [simp]: "\<not> is_digit (CHR ''+'')"
  by (simp add: is_digit_def)

lemma minus_not_digit [simp]: "\<not> is_digit (CHR ''-'')"
  by (simp add: is_digit_def)

lemma parse_unsigned_dec: "n \<le> m \<Longrightarrow> parse_unsigned m (dec n) = Some n"
proof -
  assume le: "n \<le> m"
  obtain c r where cr: "dec n = c # r" by (cases "dec n") auto
  with hd_dec_is_digit [of n] have "is_digit c" by simp
  then have "c \<noteq> CHR ''+''" by auto
  with cr le digits_value_dec [of n] show ?thesis
    by (simp add: parse_unsigned_def)
qed

lemma parse_unsigned_le: "parse_unsigned m s = Some v \<Longrightarrow> v \<le> m"
  by (auto simp: parse_unsigned_def Let_def split: option.splits if_splits)

lemma dec_inject [simp]: "dec m = dec n \<longleftrightarrow> m = n"
  by (metis digits_value_dec option.inject)

section \<open>ASCII strings\<close>

definition ascii_lower :: "char \<Rightarrow> char" where
  "ascii_lower c =
     (let n = (of_char c :: nat) in if 65 \<le> n \<and> n \<le> 90 then char_of (n + 32) else c)"

definition ascii_upper :: "char \<Rightarrow> char" where
  "ascii_upper c =
     (let n = (of_char c :: nat) in if 97 \<le> n \<and> n \<le> 122 then char_of (n - 32) else c)"

definition to_lower :: "string \<Rightarrow> string" where "to_lower = map ascii_lower"
definition to_upper :: "string \<Rightarrow> string" where "to_upper = map ascii_upper"

definition starts_with :: "string \<Rightarrow> string \<Rightarrow> bool" where
  "starts_with p s \<longleftrightarrow> take (length p) s = p"

definition ends_with :: "string \<Rightarrow> string \<Rightarrow> bool" where
  "ends_with p s \<longleftrightarrow> starts_with (rev p) (rev s)"

definition strip_prefix :: "string \<Rightarrow> string \<Rightarrow> string option" where
  "strip_prefix p s = (if starts_with p s then Some (drop (length p) s) else None)"

definition trim_end_of :: "char \<Rightarrow> string \<Rightarrow> string" where
  "trim_end_of c s = rev (dropWhile (\<lambda>x. x = c) (rev s))"

definition trim_start_of :: "char \<Rightarrow> string \<Rightarrow> string" where
  "trim_start_of c s = dropWhile (\<lambda>x. x = c) s"

text \<open>The bytes \<open>trim\<close> and \<open>split_whitespace\<close> remove from an ASCII string.\<close>

definition is_space :: "char \<Rightarrow> bool" where
  "is_space c \<longleftrightarrow> (of_char c :: nat) = 32 \<or> (9 \<le> (of_char c :: nat) \<and> (of_char c :: nat) \<le> 13)"

definition trim :: "string \<Rightarrow> string" where
  "trim s = rev (dropWhile is_space (rev (dropWhile is_space s)))"

text \<open>\<open>str::split(c)\<close>: always at least one piece.\<close>

fun split_on :: "char \<Rightarrow> string \<Rightarrow> string list" where
  "split_on c [] = [[]]"
| "split_on c (x # xs) =
     (if x = c then [] # split_on c xs
      else case split_on c xs of [] \<Rightarrow> [[x]] | y # ys \<Rightarrow> (x # y) # ys)"

text \<open>\<open>str::split_once(c)\<close>: cut at the first occurrence.\<close>

fun split_once :: "char \<Rightarrow> string \<Rightarrow> (string \<times> string) option" where
  "split_once c [] = None"
| "split_once c (x # xs) =
     (if x = c then Some ([], xs)
      else map_option (\<lambda>(a, b). (x # a, b)) (split_once c xs))"

definition split_spaces :: "string \<Rightarrow> string list" where
  "split_spaces s = filter (\<lambda>t. t \<noteq> []) (split_on (CHR '' '')
     (map (\<lambda>c. if is_space c then CHR '' '' else c) s))"

fun contains_char :: "char \<Rightarrow> string \<Rightarrow> bool" where
  "contains_char c [] = False"
| "contains_char c (x # xs) = (x = c \<or> contains_char c xs)"

lemma contains_char_iff [simp]: "contains_char c s \<longleftrightarrow> c \<in> set s"
  by (induction s) auto

lemma starts_with_append [simp]: "starts_with p (p @ s)"
  by (simp add: starts_with_def)

lemma starts_with_iff: "starts_with p s \<longleftrightarrow> (\<exists>r. s = p @ r)"
  unfolding starts_with_def by (metis append_eq_conv_conj append_take_drop_id)

lemma ends_with_iff: "ends_with p s \<longleftrightarrow> (\<exists>r. s = r @ p)"
  unfolding ends_with_def starts_with_iff by (metis rev_append rev_rev_ident)

lemma strip_prefix_append [simp]: "strip_prefix p (p @ s) = Some s"
  by (simp add: strip_prefix_def)

lemma strip_prefix_Some: "strip_prefix p s = Some r \<longleftrightarrow> s = p @ r"
  by (auto simp: strip_prefix_def starts_with_iff)

lemma split_on_not_Nil [simp]: "split_on c s \<noteq> []"
  by (induction s) (auto split: list.splits)

section \<open>Lists\<close>

lemma map_filter_cong_id:
  "(\<And>x. x \<in> set xs \<Longrightarrow> P x \<Longrightarrow> f x = x) \<Longrightarrow> map f (filter P xs) = filter P xs"
  by (induction xs) auto

lemma sorted_wrt_snoc:
  "sorted_wrt r (xs @ [x]) \<longleftrightarrow> sorted_wrt r xs \<and> (\<forall>y \<in> set xs. r y x)"
  by (simp add: sorted_wrt_append)

lemma find_Some_in: "find P xs = Some x \<Longrightarrow> x \<in> set xs \<and> P x"
  by (induction xs) (auto split: if_splits)

lemma find_None_all: "find P xs = None \<longleftrightarrow> (\<forall>x \<in> set xs. \<not> P x)"
  by (induction xs) auto

lemma find_distinct:
  "distinct (map f xs) \<Longrightarrow> x \<in> set xs \<Longrightarrow> find (\<lambda>y. f y = f x) xs = Some x"
  by (induction xs) (auto simp: rev_image_eqI)

lemma find_distinct_eq:
  "distinct (map f xs) \<Longrightarrow> x \<in> set xs \<Longrightarrow> f x = k \<Longrightarrow> find (\<lambda>y. f y = k) xs = Some x"
  using find_distinct [of f xs x] by simp

end
