(* ===== verification/Policy_Rules.thy ===== *)
theory Policy_Rules
  imports Cool_Prelude
begin

text \<open>
  Tool-call policy rules (\<open>crates/cool-security/src/rules.rs\<close>) and the
  decision type of \<open>crates/cool-security/src/lib.rs\<close>: the three
  decisions in their \<open>Ord\<close> order, rule matching with its first-match and
  tie rule, and \<open>RuleState\<close>, the mutable rule sets of one server. Globs come
  from the crate \<open>globset\<close>, which is not part of the repository:
  \<open>glob p\<close> is the parameter for \<open>Glob::new(p)\<close>, \<open>None\<close> when the
  pattern is rejected and otherwise its matcher. The mutexes make every operation
  atomic, so an operation is a function on the state.
\<close>

section \<open>Decisions\<close>

datatype decision = Allow | Ask | Deny

primrec decision_rank :: "decision \<Rightarrow> nat" where
  "decision_rank Allow = 0"
| "decision_rank Ask = 1"
| "decision_rank Deny = 2"

instantiation decision :: linorder
begin

definition less_eq_decision :: "decision \<Rightarrow> decision \<Rightarrow> bool" where
  "less_eq_decision a b \<longleftrightarrow> decision_rank a \<le> decision_rank b"

definition less_decision :: "decision \<Rightarrow> decision \<Rightarrow> bool" where
  "less_decision a b \<longleftrightarrow> decision_rank a < decision_rank b"

instance
proof
  fix x y z :: decision
  show "x < y \<longleftrightarrow> x \<le> y \<and> \<not> y \<le> x"
    by (auto simp: less_eq_decision_def less_decision_def)
  show "x \<le> x" by (simp add: less_eq_decision_def)
  show "x \<le> y \<Longrightarrow> y \<le> z \<Longrightarrow> x \<le> z" by (simp add: less_eq_decision_def)
  show "x \<le> y \<Longrightarrow> y \<le> x \<Longrightarrow> x = y"
    by (cases x; cases y) (simp_all add: less_eq_decision_def)
  show "x \<le> y \<or> y \<le> x" by (auto simp: less_eq_decision_def)
qed

end

lemma decision_le_simps [simp]:
  "Allow \<le> d" "d \<le> Deny" "\<not> Ask \<le> Allow" "\<not> Deny \<le> Ask" "\<not> Deny \<le> Allow"
  "Allow < Ask" "Ask < Deny" "Allow < Deny" "\<not> d < Allow" "\<not> Deny < d"
  by (cases d; simp add: less_eq_decision_def less_decision_def)+

lemma Deny_le_iff [simp]: "Deny \<le> d \<longleftrightarrow> d = Deny"
  by (cases d) (simp_all add: less_eq_decision_def)

lemma le_Allow_iff [simp]: "d \<le> Allow \<longleftrightarrow> d = Allow"
  by (cases d) (simp_all add: less_eq_decision_def)

definition stricter :: "decision \<Rightarrow> decision \<Rightarrow> decision" where
  "stricter a b = max a b"

definition decision_name :: "decision \<Rightarrow> string" where
  "decision_name d = (case d of Allow \<Rightarrow> ''allow'' | Ask \<Rightarrow> ''ask'' | Deny \<Rightarrow> ''deny'')"

section \<open>Rules\<close>

datatype rule_scope = SessionScope | ProjectScope | UserScope

definition rule_scope_name :: "rule_scope \<Rightarrow> string" where
  "rule_scope_name s =
     (case s of SessionScope \<Rightarrow> ''session'' | ProjectScope \<Rightarrow> ''project'' | UserScope \<Rightarrow> ''user'')"

definition rule_scope_parse :: "string \<Rightarrow> rule_scope option" where
  "rule_scope_parse v =
     (if v = ''session'' then Some SessionScope
      else if v = ''project'' then Some ProjectScope
      else if v = ''user'' then Some UserScope
      else None)"

datatype rule_pattern_kind = CommandKind | PathGlobKind | DomainKind | AnyKind

definition pattern_kind_name :: "rule_pattern_kind \<Rightarrow> string" where
  "pattern_kind_name k =
     (case k of CommandKind \<Rightarrow> ''command'' | PathGlobKind \<Rightarrow> ''path_glob''
      | DomainKind \<Rightarrow> ''domain'' | AnyKind \<Rightarrow> ''any'')"

definition pattern_kind_parse :: "string \<Rightarrow> rule_pattern_kind option" where
  "pattern_kind_parse v =
     (if v = ''command'' then Some CommandKind
      else if v = ''path_glob'' then Some PathGlobKind
      else if v = ''domain'' then Some DomainKind
      else if v = ''any'' then Some AnyKind
      else None)"

datatype rule_subject =
    CommandSubject string
  | PathSubject string
  | DomainSubject string
  | NoSubject

record policy_rule =
  pr_tool :: string
  pr_kind :: rule_pattern_kind
  pr_pattern :: string
  pr_decision :: decision
  pr_scope :: rule_scope
  pr_note :: "string option"
  pr_id :: "string option"

definition new_policy_rule :: "string \<Rightarrow> rule_pattern_kind \<Rightarrow> string \<Rightarrow> decision \<Rightarrow> policy_rule" where
  "new_policy_rule tool kind pattern d =
     \<lparr>pr_tool = tool, pr_kind = kind, pr_pattern = pattern, pr_decision = d,
      pr_scope = SessionScope, pr_note = None, pr_id = None\<rparr>"

type_synonym globber = "string \<Rightarrow> (string \<Rightarrow> bool) option"

definition glob_match :: "globber \<Rightarrow> string \<Rightarrow> string \<Rightarrow> bool" where
  "glob_match glob pattern subject =
     (case glob pattern of Some m \<Rightarrow> m subject | None \<Rightarrow> False)"

definition path_glob_match :: "globber \<Rightarrow> string \<Rightarrow> string \<Rightarrow> bool" where
  "path_glob_match glob pattern path =
     (case strip_prefix ''!'' pattern of
        Some inner \<Rightarrow> \<not> glob_match glob inner path
      | None \<Rightarrow> glob_match glob pattern path)"

definition domain_match :: "globber \<Rightarrow> string \<Rightarrow> string \<Rightarrow> bool" where
  "domain_match glob pattern host =
     (let host = to_lower (trim_end_of (CHR ''.'') host);
          pattern = to_lower (trim_end_of (CHR ''.'') pattern)
      in if contains_char (CHR ''*'') pattern then glob_match glob pattern host
         else host = pattern \<or> ends_with (''.'' @ pattern) host)"

definition matches_tool :: "policy_rule \<Rightarrow> string \<Rightarrow> bool" where
  "matches_tool r tool \<longleftrightarrow> pr_tool r = ''*'' \<or> pr_tool r = tool"

definition rule_matches :: "globber \<Rightarrow> policy_rule \<Rightarrow> string \<Rightarrow> rule_subject \<Rightarrow> bool" where
  "rule_matches glob r tool subject =
     (if \<not> matches_tool r tool then False
      else case pr_kind r of
        AnyKind \<Rightarrow> True
      | CommandKind \<Rightarrow>
          (case subject of CommandSubject line \<Rightarrow> glob_match glob (pr_pattern r) line | _ \<Rightarrow> False)
      | PathGlobKind \<Rightarrow>
          (case subject of PathSubject path \<Rightarrow> path_glob_match glob (pr_pattern r) path | _ \<Rightarrow> False)
      | DomainKind \<Rightarrow>
          (case subject of DomainSubject host \<Rightarrow> domain_match glob (pr_pattern r) host | _ \<Rightarrow> False))"

definition same_signature :: "policy_rule \<Rightarrow> policy_rule \<Rightarrow> bool" where
  "same_signature a b \<longleftrightarrow>
     pr_tool a = pr_tool b \<and> pr_kind a = pr_kind b \<and> pr_pattern a = pr_pattern b \<and>
     pr_decision a = pr_decision b"

text \<open>The description ends in an arrow, U+2192, three bytes in UTF-8.\<close>

definition describe_rule :: "policy_rule \<Rightarrow> string" where
  "describe_rule r =
     (let arrow = [CHR 0xE2, CHR 0x86, CHR 0x92];
          d = decision_name (pr_decision r)
      in if pr_pattern r = []
         then pr_tool r @ '' '' @ pattern_kind_name (pr_kind r) @ '' '' @ arrow @ '' '' @ d
         else pr_tool r @ '' '' @ pattern_kind_name (pr_kind r) @ '' '' @ [CHR 0x22] @ pr_pattern r @
              [CHR 0x22] @ '' '' @ arrow @ '' '' @ d)"

text \<open>One turn of the loop of \<open>match_rules\<close>, and the loop.\<close>

definition match_step ::
    "globber \<Rightarrow> string \<Rightarrow> rule_subject \<Rightarrow> policy_rule option \<Rightarrow> policy_rule \<Rightarrow> policy_rule option" where
  "match_step glob tool subject matched rule =
     (if \<not> rule_matches glob rule tool subject then matched
      else case matched of
        None \<Rightarrow> Some rule
      | Some current \<Rightarrow>
          if pr_tool rule = pr_tool current \<and> pr_kind rule = pr_kind current \<and>
             pr_pattern rule = pr_pattern current \<and> pr_decision current < pr_decision rule
          then Some rule else matched)"

definition match_rules ::
    "globber \<Rightarrow> policy_rule list \<Rightarrow> string \<Rightarrow> rule_subject \<Rightarrow> policy_rule option" where
  "match_rules glob rules tool subject = foldl (match_step glob tool subject) None rules"

section \<open>What a match returns\<close>

text \<open>The triple that identifies a rule's pattern: tool, kind, pattern.\<close>

definition rule_key :: "policy_rule \<Rightarrow> string \<times> rule_pattern_kind \<times> string" where
  "rule_key r = (pr_tool r, pr_kind r, pr_pattern r)"

lemma rule_matches_key:
  "rule_key r = rule_key r' \<Longrightarrow> rule_matches glob r tool s = rule_matches glob r' tool s"
  by (auto simp: rule_key_def rule_matches_def matches_tool_def
      split: rule_pattern_kind.splits rule_subject.splits)

lemma match_step_Some:
  "\<exists>r'. match_step glob tool s (Some r) x = Some r' \<and> rule_key r' = rule_key r \<and>
        pr_decision r \<le> pr_decision r' \<and> (r' = r \<or> r' = x)"
  by (auto simp: match_step_def rule_key_def)

lemma match_foldl_Some:
  "\<exists>r'. foldl (match_step glob tool s) (Some r) xs = Some r' \<and> rule_key r' = rule_key r \<and>
        pr_decision r \<le> pr_decision r' \<and> r' \<in> insert r (set xs) \<and>
        (\<forall>x \<in> set xs. rule_key x = rule_key r \<and> rule_matches glob x tool s \<longrightarrow>
            pr_decision x \<le> pr_decision r')"
proof (induction xs arbitrary: r)
  case Nil
  then show ?case by simp
next
  case (Cons x xs)
  obtain r1 where r1: "match_step glob tool s (Some r) x = Some r1" "rule_key r1 = rule_key r"
    "pr_decision r \<le> pr_decision r1" "r1 = r \<or> r1 = x"
    using match_step_Some by blast
  have x: "rule_key x = rule_key r \<Longrightarrow> rule_matches glob x tool s \<Longrightarrow> pr_decision x \<le> pr_decision r1"
    using r1(1) by (auto simp: match_step_def rule_key_def split: if_splits)
  from Cons.IH [of r1] obtain r2 where r2:
    "foldl (match_step glob tool s) (Some r1) xs = Some r2" "rule_key r2 = rule_key r1"
    "pr_decision r1 \<le> pr_decision r2" "r2 \<in> insert r1 (set xs)"
    "\<forall>y \<in> set xs. rule_key y = rule_key r1 \<and> rule_matches glob y tool s \<longrightarrow>
        pr_decision y \<le> pr_decision r2"
    by blast
  have "pr_decision r \<le> pr_decision r2" using r1(3) r2(3) by order
  moreover have "\<forall>y \<in> set (x # xs). rule_key y = rule_key r \<and> rule_matches glob y tool s \<longrightarrow>
      pr_decision y \<le> pr_decision r2"
    using r2(3,5) r1(2) x by (auto intro: order_trans)
  ultimately show ?case using r1 r2(1,2,4) by (intro exI [of _ r2]) auto
qed

lemma match_foldl_None_skip:
  "(\<And>x. x \<in> set xs \<Longrightarrow> \<not> rule_matches glob x tool s) \<Longrightarrow>
   foldl (match_step glob tool s) m xs = m"
  by (induction xs arbitrary: m) (auto simp: match_step_def)

text \<open>
  The contract of \<open>match_rules\<close>: nothing when no rule matches; otherwise, with
  \<open>r\<close> the first matching rule, a matching rule with the key of \<open>r\<close> whose
  decision is the strictest among the matching rules with that key.
\<close>

lemma match_rules_None_iff:
  "match_rules glob rules tool s = None \<longleftrightarrow> (\<forall>r \<in> set rules. \<not> rule_matches glob r tool s)"
proof
  assume none: "match_rules glob rules tool s = None"
  show "\<forall>r \<in> set rules. \<not> rule_matches glob r tool s"
  proof (rule ccontr)
    assume "\<not> ?thesis"
    then have "\<exists>r \<in> set rules. rule_matches glob r tool s" by simp
    then obtain xs r ys where split: "rules = xs @ r # ys" "rule_matches glob r tool s"
      "\<forall>x \<in> set xs. \<not> rule_matches glob x tool s"
      using split_list_first_prop [of rules "\<lambda>r. rule_matches glob r tool s"] by blast
    then have "match_rules glob rules tool s = foldl (match_step glob tool s) (Some r) ys"
      by (simp add: match_rules_def match_foldl_None_skip match_step_def)
    with match_foldl_Some [of glob tool s r ys] none show False by auto
  qed
next
  assume "\<forall>r \<in> set rules. \<not> rule_matches glob r tool s"
  then show "match_rules glob rules tool s = None"
    by (simp add: match_rules_def match_foldl_None_skip)
qed

lemma match_rules_first:
  assumes "rules = xs @ r # ys" "rule_matches glob r tool s"
    and "\<forall>x \<in> set xs. \<not> rule_matches glob x tool s"
  shows "\<exists>r'. match_rules glob rules tool s = Some r' \<and> rule_key r' = rule_key r \<and>
    r' \<in> set rules \<and> rule_matches glob r' tool s \<and>
    (\<forall>x \<in> set rules. rule_key x = rule_key r \<longrightarrow> pr_decision x \<le> pr_decision r')"
proof -
  have eq: "match_rules glob rules tool s = foldl (match_step glob tool s) (Some r) ys"
    using assms by (simp add: match_rules_def match_foldl_None_skip match_step_def)
  obtain r' where r': "foldl (match_step glob tool s) (Some r) ys = Some r'"
    "rule_key r' = rule_key r" "pr_decision r \<le> pr_decision r'" "r' \<in> insert r (set ys)"
    "\<forall>y \<in> set ys. rule_key y = rule_key r \<and> rule_matches glob y tool s \<longrightarrow>
        pr_decision y \<le> pr_decision r'"
    using match_foldl_Some by blast
  have key: "rule_key x = rule_key r \<Longrightarrow> rule_matches glob x tool s" for x
    using assms(2) rule_matches_key by blast
  have "\<forall>x \<in> set rules. rule_key x = rule_key r \<longrightarrow> pr_decision x \<le> pr_decision r'"
    using assms(1,3) r'(3,5) key by auto
  with r' eq key [OF r'(2)] assms(1) show ?thesis by auto
qed

text \<open>Appending rules never replaces a match by a weaker one, nor by one with another key.\<close>

lemma match_rules_append:
  "match_rules glob (xs @ ys) tool s =
     (case match_rules glob xs tool s of
        None \<Rightarrow> match_rules glob ys tool s
      | Some r \<Rightarrow> foldl (match_step glob tool s) (Some r) ys)"
  by (simp add: match_rules_def split: option.splits)

lemma match_rules_append_stricter:
  assumes "match_rules glob xs tool s = Some r"
  obtains r' where "match_rules glob (xs @ ys) tool s = Some r'" "rule_key r' = rule_key r"
    "pr_decision r \<le> pr_decision r'"
  using match_foldl_Some [of glob tool s r ys] assms by (auto simp: match_rules_append)

lemma match_rules_in:
  assumes "match_rules glob rules tool s = Some r"
  shows "r \<in> set rules \<and> rule_matches glob r tool s"
proof -
  from assms have "\<exists>r \<in> set rules. rule_matches glob r tool s"
    using match_rules_None_iff [of glob rules tool s] by auto
  then obtain xs x ys where "rules = xs @ x # ys" "rule_matches glob x tool s"
    "\<forall>y \<in> set xs. \<not> rule_matches glob y tool s"
    using split_list_first_prop [of rules "\<lambda>r. rule_matches glob r tool s"] by blast
  with match_rules_first [OF this] assms show ?thesis by auto
qed

lemma scope_parse_name [simp]: "rule_scope_parse (rule_scope_name s) = Some s"
  by (cases s) (simp_all add: rule_scope_parse_def rule_scope_name_def)

lemma kind_parse_name [simp]: "pattern_kind_parse (pattern_kind_name k) = Some k"
  by (cases k) (simp_all add: pattern_kind_parse_def pattern_kind_name_def)

section \<open>Properties\<close>

text \<open>
  Property C40. What \<open>match_rules\<close> answers: nothing exactly when no rule matches the
  call, and otherwise a matching rule of the list with the tool, kind and pattern of the first
  match and, among the rules with that tool, kind and pattern, a strictest decision.
\<close>

theorem match_rules_contract:
  "case match_rules glob rules tool s of
     None \<Rightarrow> \<forall>r \<in> set rules. \<not> rule_matches glob r tool s
   | Some r' \<Rightarrow> \<exists>xs r ys. rules = xs @ r # ys \<and> (\<forall>x \<in> set xs. \<not> rule_matches glob x tool s) \<and>
       rule_matches glob r tool s \<and> r' \<in> set rules \<and> rule_matches glob r' tool s \<and>
       rule_key r' = rule_key r \<and> (\<forall>x \<in> set rules. rule_key x = rule_key r \<longrightarrow> pr_decision x \<le> pr_decision r')"
proof (cases "match_rules glob rules tool s")
  case None
  then have "\<forall>r \<in> set rules. \<not> rule_matches glob r tool s" by (rule match_rules_None_iff [THEN iffD1])
  with None show ?thesis by (simp only: option.case)
next
  case (Some r')
  then have "\<exists>r \<in> set rules. rule_matches glob r tool s"
    using match_rules_None_iff [of glob rules tool s] by auto
  then obtain xs r ys where split: "rules = xs @ r # ys" "rule_matches glob r tool s"
    "\<forall>x \<in> set xs. \<not> rule_matches glob x tool s"
    using split_list_first_prop [of rules "\<lambda>r. rule_matches glob r tool s"] by blast
  from match_rules_first [OF this] Some have
    "rule_key r' = rule_key r \<and> r' \<in> set rules \<and> rule_matches glob r' tool s \<and>
     (\<forall>x \<in> set rules. rule_key x = rule_key r \<longrightarrow> pr_decision x \<le> pr_decision r')"
    by auto
  with Some split show ?thesis by (simp only: option.case) blast
qed

definition shell_rules :: "policy_rule list" where
  "shell_rules = [new_policy_rule ''read'' AnyKind [] Allow, new_policy_rule ''shell'' AnyKind [] Ask,
     new_policy_rule ''*'' AnyKind [] Allow, new_policy_rule ''shell'' AnyKind [] Deny]"

theorem match_rules_contract_witness:
  "match_rules (\<lambda>_. None) shell_rules ''shell'' NoSubject = Some (new_policy_rule ''shell'' AnyKind [] Deny) \<and>
   (\<exists>xs r ys. shell_rules = xs @ r # ys \<and>
      rule_key (new_policy_rule ''shell'' AnyKind [] Deny) = rule_key r)"
proof -
  have m: "match_rules (\<lambda>_. None) shell_rules ''shell'' NoSubject =
      Some (new_policy_rule ''shell'' AnyKind [] Deny)" by code_simp
  with match_rules_contract [where glob = "\<lambda>_. None" and rules = shell_rules and tool = "''shell''" and s = NoSubject] show ?thesis
    by (simp only: option.case) blast
qed

end
