(* ===== verification/Rule_State.thy ===== *)
theory Rule_State
  imports Policy_Rules
begin

text \<open>
  \<open>RuleState\<close> of \<open>crates/cool-security/src/rules.rs\<close>: the project
  rules, the per-run session rule sets with their id counters, and the pending rules
  hidden until their approval commits. The locale \<open>rule_set\<close> is the interface
  the approval handlers rely on (add with deduplication, delete by id); both rule sets
  interpret it.
\<close>

section \<open>State and operations\<close>

type_synonym session_rule_set = "policy_rule list \<times> nat"

record rule_state =
  rs_project :: "policy_rule list"
  rs_sessions :: "string \<Rightarrow> session_rule_set option"
  rs_pending :: "policy_rule list"

definition default_rule_state :: rule_state where
  "default_rule_state = \<lparr>rs_project = [], rs_sessions = (\<lambda>_. None), rs_pending = []\<rparr>"

definition hide_pending :: "policy_rule \<Rightarrow> rule_state \<Rightarrow> rule_state" where
  "hide_pending rule st = st\<lparr>rs_pending := rs_pending st @ [rule]\<rparr>"

definition promote_pending :: "policy_rule \<Rightarrow> rule_state \<Rightarrow> rule_state" where
  "promote_pending rule st =
     st\<lparr>rs_pending := filter (\<lambda>p. \<not> same_signature p rule) (rs_pending st)\<rparr>"

definition is_pending :: "policy_rule \<Rightarrow> rule_state \<Rightarrow> bool" where
  "is_pending rule st \<longleftrightarrow> (\<exists>p \<in> set (rs_pending st). same_signature p rule)"

definition set_project_rules :: "policy_rule list \<Rightarrow> rule_state \<Rightarrow> rule_state" where
  "set_project_rules rules st = st\<lparr>rs_project := rules\<rparr>"

text \<open>The number in an id \<open>"{scope}:N"\<close>, when there is one.\<close>

definition rule_suffix :: "string \<Rightarrow> policy_rule \<Rightarrow> nat option" where
  "rule_suffix scope r =
     (case pr_id r of
        None \<Rightarrow> None
      | Some i \<Rightarrow>
          (case strip_prefix (scope @ '':'') i of
             None \<Rightarrow> None
           | Some t \<Rightarrow> parse_unsigned u64_max t))"

text \<open>
  \<open>suffix + 1\<close> is a \<open>u64\<close> addition: it wraps in a release build.
  \<open>foldr max ns 0\<close> is \<open>max().unwrap_or(0)\<close>.
\<close>

definition next_number :: "policy_rule list \<Rightarrow> string \<Rightarrow> nat" where
  "next_number rules scope =
     foldr max (map (\<lambda>n. (n + 1) mod 2 ^ 64) (List.map_filter (rule_suffix scope) rules)) 0"

definition next_id :: "policy_rule list \<Rightarrow> string \<Rightarrow> string" where
  "next_id rules scope = scope @ '':'' @ dec (next_number rules scope)"

definition add_project_rule :: "policy_rule \<Rightarrow> rule_state \<Rightarrow> policy_rule \<times> rule_state" where
  "add_project_rule rule st =
     (case find (\<lambda>e. same_signature e rule) (rs_project st) of
        Some existing \<Rightarrow> (existing, st)
      | None \<Rightarrow>
          let rule' = rule\<lparr>pr_scope := ProjectScope,
                           pr_id := Some (next_id (rs_project st) ''project'')\<rparr>
          in (rule', st\<lparr>rs_project := rs_project st @ [rule']\<rparr>))"

text \<open>\<open>position\<close> and \<open>remove\<close>: drop the first rule with the id.\<close>

fun remove_id :: "string \<Rightarrow> policy_rule list \<Rightarrow> policy_rule list option" where
  "remove_id i [] = None"
| "remove_id i (r # rs) = (if pr_id r = Some i then Some rs else map_option (Cons r) (remove_id i rs))"

definition delete_project_rule :: "string \<Rightarrow> rule_state \<Rightarrow> bool \<times> rule_state" where
  "delete_project_rule i st =
     (case remove_id i (rs_project st) of
        None \<Rightarrow> (False, st)
      | Some rs \<Rightarrow> (True, st\<lparr>rs_project := rs\<rparr>))"

definition session_entry :: "string \<Rightarrow> rule_state \<Rightarrow> session_rule_set" where
  "session_entry run st = (case rs_sessions st run of None \<Rightarrow> ([], 0) | Some e \<Rightarrow> e)"

text \<open>The live set, created on first use.\<close>

definition session_rules :: "string \<Rightarrow> rule_state \<Rightarrow> policy_rule list \<times> rule_state" where
  "session_rules run st =
     (let e = session_entry run st
      in (fst e, st\<lparr>rs_sessions := (rs_sessions st)(run := Some e)\<rparr>))"

definition add_session_rule ::
    "string \<Rightarrow> policy_rule \<Rightarrow> rule_state \<Rightarrow> policy_rule \<times> rule_state" where
  "add_session_rule run rule st =
     (let (rules, counter) = session_entry run st
      in case find (\<lambda>e. same_signature e rule) rules of
           Some existing \<Rightarrow>
             (existing, st\<lparr>rs_sessions := (rs_sessions st)(run := Some (rules, counter))\<rparr>)
         | None \<Rightarrow>
             let rule' = rule\<lparr>pr_scope := SessionScope, pr_id := Some (''session:'' @ dec counter)\<rparr>
             in (rule', st\<lparr>rs_sessions :=
                   (rs_sessions st)(run := Some (rules @ [rule'], counter + 1))\<rparr>))"

definition delete_session_rule :: "string \<Rightarrow> string \<Rightarrow> rule_state \<Rightarrow> bool \<times> rule_state" where
  "delete_session_rule run i st =
     (case rs_sessions st run of
        None \<Rightarrow> (False, st)
      | Some (rules, counter) \<Rightarrow>
          (case remove_id i rules of
             None \<Rightarrow> (False, st)
           | Some rs \<Rightarrow> (True, st\<lparr>rs_sessions := (rs_sessions st)(run := Some (rs, counter))\<rparr>)))"

definition remove_session :: "string \<Rightarrow> rule_state \<Rightarrow> rule_state" where
  "remove_session run st = st\<lparr>rs_sessions := (rs_sessions st)(run := None)\<rparr>"

section \<open>Facts on signatures and ids\<close>

lemma same_signature_refl [simp]: "same_signature r r"
  by (simp add: same_signature_def)

lemma same_signature_sym: "same_signature a b \<longleftrightarrow> same_signature b a"
  by (auto simp: same_signature_def)

lemma same_signature_trans: "same_signature a b \<Longrightarrow> same_signature b c \<Longrightarrow> same_signature a c"
  by (simp add: same_signature_def)

lemma same_signature_update [simp]:
  "same_signature (r\<lparr>pr_scope := s, pr_id := i\<rparr>) r"
  "same_signature r (r\<lparr>pr_scope := s, pr_id := i\<rparr>)"
  by (simp_all add: same_signature_def)

lemma remove_id_Some:
  "remove_id i rs = Some rs' \<Longrightarrow>
   \<exists>xs r ys. rs = xs @ r # ys \<and> pr_id r = Some i \<and> Some i \<notin> pr_id ` set xs \<and> rs' = xs @ ys"
proof (induction rs arbitrary: rs')
  case Nil
  then show ?case by simp
next
  case (Cons r rs)
  show ?case
  proof (cases "pr_id r = Some i")
    case True
    with Cons.prems show ?thesis by (intro exI [of _ "[]"]) auto
  next
    case False
    with Cons.prems obtain rs1 where rs1: "remove_id i rs = Some rs1" "rs' = r # rs1" by auto
    from Cons.IH [OF rs1(1)] obtain xs q ys where
      "rs = xs @ q # ys" "pr_id q = Some i" "Some i \<notin> pr_id ` set xs" "rs1 = xs @ ys" by blast
    with False rs1(2) show ?thesis by (intro exI [of _ "r # xs"]) auto
  qed
qed

lemma remove_id_None: "remove_id i rs = None \<longleftrightarrow> Some i \<notin> pr_id ` set rs"
  by (induction rs) auto

lemma remove_id_snoc:
  "pr_id r = Some i \<Longrightarrow> Some i \<notin> pr_id ` set rs \<Longrightarrow> remove_id i (rs @ [r]) = Some rs"
  by (induction rs) auto

lemma foldr_max_ge: "x \<in> set xs \<Longrightarrow> x \<le> foldr max xs (0::nat)"
  by (induction xs) auto

lemma foldr_max_less: "(\<And>x. x \<in> set xs \<Longrightarrow> x \<le> b) \<Longrightarrow> foldr max xs (0::nat) \<le> b"
  by (induction xs) auto

lemma next_number_le: "next_number rules scope \<le> u64_max"
  unfolding next_number_def by (rule foldr_max_less) auto

lemma next_number_greater:
  assumes "r \<in> set rules" "rule_suffix scope r = Some n" "n < u64_max"
  shows "n < next_number rules scope"
proof -
  have "n \<in> set (List.map_filter (rule_suffix scope) rules)"
    using assms(1,2) by (force simp: List.map_filter_def image_iff)
  then have "(n + 1) mod 2 ^ 64 \<le> next_number rules scope"
    unfolding next_number_def by (intro foldr_max_ge) auto
  with assms(3) show ?thesis by simp
qed

lemma rule_suffix_next_id:
  "pr_id r = Some (next_id rules scope) \<Longrightarrow> rule_suffix scope r = Some (next_number rules scope)"
  using parse_unsigned_dec [OF next_number_le, of rules scope] strip_prefix_append [of "scope @ '':''"]
  by (simp add: rule_suffix_def next_id_def)

lemma next_id_fresh:
  assumes "\<forall>r \<in> set rules. rule_suffix scope r \<noteq> Some u64_max"
  shows "Some (next_id rules scope) \<notin> pr_id ` set rules"
proof
  assume "Some (next_id rules scope) \<in> pr_id ` set rules"
  then obtain r where r: "r \<in> set rules" "pr_id r = Some (next_id rules scope)" by auto
  from rule_suffix_next_id [OF r(2)] have s: "rule_suffix scope r = Some (next_number rules scope)" .
  with assms r(1) next_number_le [of rules scope] have "next_number rules scope < u64_max"
    by (metis le_neq_implies_less)
  from next_number_greater [OF r(1) s this] show False by simp
qed

section \<open>The interface of a rule set\<close>

locale rule_set =
  fixes add :: "policy_rule \<Rightarrow> 's \<Rightarrow> policy_rule \<times> 's"
    and delete :: "string \<Rightarrow> 's \<Rightarrow> bool \<times> 's"
    and rules_of :: "'s \<Rightarrow> policy_rule list"
    and ok :: "'s \<Rightarrow> bool"
  assumes add_known:
      "find (\<lambda>e. same_signature e r) (rules_of s) = Some e \<Longrightarrow>
       fst (add r s) = e \<and> rules_of (snd (add r s)) = rules_of s"
    and add_new:
      "ok s \<Longrightarrow> find (\<lambda>e. same_signature e r) (rules_of s) = None \<Longrightarrow>
       \<exists>i. pr_id (fst (add r s)) = Some i \<and> Some i \<notin> pr_id ` set (rules_of s) \<and>
           same_signature (fst (add r s)) r \<and>
           rules_of (snd (add r s)) = rules_of s @ [fst (add r s)]"
    and delete_known:
      "remove_id i (rules_of s) = Some rs \<Longrightarrow>
       fst (delete i s) \<and> rules_of (snd (delete i s)) = rs"
    and delete_unknown:
      "remove_id i (rules_of s) = None \<Longrightarrow> \<not> fst (delete i s) \<and> rules_of (snd (delete i s)) = rules_of s"
begin

definition well_kept :: "'s \<Rightarrow> bool" where
  "well_kept s \<longleftrightarrow> distinct (map pr_id (rules_of s)) \<and>
     (\<forall>a \<in> set (rules_of s). \<forall>b \<in> set (rules_of s). same_signature a b \<longrightarrow> a = b)"

lemma add_cases:
  assumes "ok s"
  obtains (known) e where "e \<in> set (rules_of s)" "same_signature e r" "fst (add r s) = e"
      "rules_of (snd (add r s)) = rules_of s"
    | (fresh) i where "\<forall>e \<in> set (rules_of s). \<not> same_signature e r"
      "pr_id (fst (add r s)) = Some i" "Some i \<notin> pr_id ` set (rules_of s)"
      "same_signature (fst (add r s)) r" "rules_of (snd (add r s)) = rules_of s @ [fst (add r s)]"
proof (cases "find (\<lambda>e. same_signature e r) (rules_of s)")
  case None
  then show ?thesis
    using fresh add_new [OF assms None] by (auto simp: find_None_iff)
next
  case (Some e)
  then show ?thesis using known [of e] add_known [OF Some] find_Some_in [OF Some] by auto
qed

lemma add_well_kept: "ok s \<Longrightarrow> well_kept s \<Longrightarrow> well_kept (snd (add r s))"
proof (erule add_cases [of _ r])
  fix e assume "well_kept s" "rules_of (snd (add r s)) = rules_of s"
  then show "well_kept (snd (add r s))" by (simp add: well_kept_def)
next
  fix i
  assume wk: "well_kept s" and new: "\<forall>e \<in> set (rules_of s). \<not> same_signature e r"
    and i: "pr_id (fst (add r s)) = Some i" "Some i \<notin> pr_id ` set (rules_of s)"
    and sig: "same_signature (fst (add r s)) r"
    and rs: "rules_of (snd (add r s)) = rules_of s @ [fst (add r s)]"
  have "\<not> same_signature e (fst (add r s))" "\<not> same_signature (fst (add r s)) e"
    if "e \<in> set (rules_of s)" for e
    using new that sig same_signature_trans same_signature_sym by blast+
  with wk i rs show "well_kept (snd (add r s))" by (auto simp: well_kept_def)
qed

lemma delete_well_kept: "well_kept s \<Longrightarrow> well_kept (snd (delete i s))"
proof (cases "remove_id i (rules_of s)")
  case None
  then show "well_kept s \<Longrightarrow> ?thesis" using delete_unknown by (simp add: well_kept_def)
next
  case (Some rs)
  from remove_id_Some [OF this] obtain xs r ys where "rules_of s = xs @ r # ys" "rs = xs @ ys" by blast
  with delete_known [OF Some] show "well_kept s \<Longrightarrow> ?thesis" by (auto simp: well_kept_def)
qed

lemma delete_keeps_others:
  assumes "well_kept s" "r \<in> set (rules_of s)" "pr_id r \<noteq> Some i"
  shows "r \<in> set (rules_of (snd (delete i s)))"
proof (cases "remove_id i (rules_of s)")
  case None
  with assms delete_unknown show ?thesis by simp
next
  case (Some rs)
  from remove_id_Some [OF this] obtain xs q ys where
    "rules_of s = xs @ q # ys" "pr_id q = Some i" "rs = xs @ ys" by blast
  with delete_known [OF Some] assms show ?thesis by auto
qed

lemma add_then_delete:
  assumes "ok s" "\<forall>e \<in> set (rules_of s). \<not> same_signature e r"
  shows "rules_of (snd (delete (the (pr_id (fst (add r s)))) (snd (add r s)))) = rules_of s"
  using assms(1)
proof (rule add_cases [of _ r])
  fix e assume "e \<in> set (rules_of s)" "same_signature e r"
  with assms(2) show ?thesis by blast
next
  fix i
  assume "pr_id (fst (add r s)) = Some i" "Some i \<notin> pr_id ` set (rules_of s)"
    "rules_of (snd (add r s)) = rules_of s @ [fst (add r s)]"
  then show ?thesis using delete_known [of i "snd (add r s)"] remove_id_snoc by simp
qed

end

section \<open>Both rule sets provide the interface\<close>

definition project_ok :: "rule_state \<Rightarrow> bool" where
  "project_ok st \<longleftrightarrow> (\<forall>r \<in> set (rs_project st). rule_suffix ''project'' r \<noteq> Some u64_max)"

interpretation project: rule_set add_project_rule delete_project_rule rs_project project_ok
proof unfold_locales
  fix r and s :: rule_state and e
  assume "find (\<lambda>e. same_signature e r) (rs_project s) = Some e"
  then show "fst (add_project_rule r s) = e \<and> rs_project (snd (add_project_rule r s)) = rs_project s"
    by (simp add: add_project_rule_def)
next
  fix s :: rule_state and r
  assume "project_ok s" "find (\<lambda>e. same_signature e r) (rs_project s) = None"
  then show "\<exists>i. pr_id (fst (add_project_rule r s)) = Some i \<and> Some i \<notin> pr_id ` set (rs_project s) \<and>
      same_signature (fst (add_project_rule r s)) r \<and>
      rs_project (snd (add_project_rule r s)) = rs_project s @ [fst (add_project_rule r s)]"
    using next_id_fresh [of "rs_project s" "''project''"]
    by (simp add: add_project_rule_def project_ok_def Let_def)
qed (simp_all add: delete_project_rule_def)

text \<open>Every id of a session set was issued by its counter.\<close>

definition session_ok :: "string \<Rightarrow> rule_state \<Rightarrow> bool" where
  "session_ok run st \<longleftrightarrow>
     (\<forall>r \<in> set (fst (session_entry run st)).
        \<exists>k < snd (session_entry run st). pr_id r = Some (''session:'' @ dec k))"

lemma session_entry_update [simp]:
  "session_entry run (st\<lparr>rs_sessions := (rs_sessions st)(run := Some e)\<rparr>) = e"
  by (simp add: session_entry_def)

interpretation session: rule_set "add_session_rule run" "delete_session_rule run"
  "\<lambda>st. fst (session_entry run st)" "session_ok run" for run
proof unfold_locales
  fix r and s :: rule_state and e
  assume "find (\<lambda>e. same_signature e r) (fst (session_entry run s)) = Some e"
  then show "fst (add_session_rule run r s) = e \<and>
      fst (session_entry run (snd (add_session_rule run r s))) = fst (session_entry run s)"
    by (cases "session_entry run s") (simp add: add_session_rule_def)
next
  fix s :: rule_state and r
  assume "session_ok run s" "find (\<lambda>e. same_signature e r) (fst (session_entry run s)) = None"
  then show "\<exists>i. pr_id (fst (add_session_rule run r s)) = Some i \<and>
      Some i \<notin> pr_id ` set (fst (session_entry run s)) \<and>
      same_signature (fst (add_session_rule run r s)) r \<and>
      fst (session_entry run (snd (add_session_rule run r s))) =
        fst (session_entry run s) @ [fst (add_session_rule run r s)]"
    by (cases "session_entry run s") (force simp: add_session_rule_def session_ok_def Let_def)
qed (auto simp: delete_session_rule_def session_entry_def split: option.splits)

lemma session_ok_add: "session_ok run st \<Longrightarrow> session_ok run (snd (add_session_rule run r st))"
  by (cases "session_entry run st")
     (fastforce simp: add_session_rule_def session_ok_def Let_def less_Suc_eq split: option.splits)

lemma session_ok_delete: "session_ok run st \<Longrightarrow> session_ok run (snd (delete_session_rule run i st))"
  by (auto simp: delete_session_rule_def session_ok_def session_entry_def
      split: option.splits dest!: remove_id_Some)

lemma session_ok_default: "session_ok run default_rule_state"
  by (simp add: session_ok_def session_entry_def default_rule_state_def)

section \<open>Properties\<close>

text \<open>The invariant of a rule set: ids are distinct and no two rules say the same.\<close>

definition rules_well_kept :: "policy_rule list \<Rightarrow> bool" where
  "rules_well_kept rules \<longleftrightarrow> distinct (map pr_id rules) \<and>
     (\<forall>a \<in> set rules. \<forall>b \<in> set rules. same_signature a b \<longrightarrow> a = b)"

lemma project_well_kept_eq: "project.well_kept st = rules_well_kept (rs_project st)"
  by (simp add: project.well_kept_def rules_well_kept_def)

lemma session_well_kept_eq: "session.well_kept run st = rules_well_kept (fst (session_entry run st))"
  by (simp add: session.well_kept_def rules_well_kept_def)

text \<open>
  Adding and deleting project rules keep ids distinct and rules free of
  duplicates, as long as no id has the greatest 64-bit number; deleting an id drops no rule
  with another id.
\<close>

theorem project_rules_stay_well_kept:
  assumes "project_ok st" "rules_well_kept (rs_project st)"
  shows "rules_well_kept (rs_project (snd (add_project_rule r st))) \<and>
    rules_well_kept (rs_project (snd (delete_project_rule i st))) \<and>
    (\<forall>q \<in> set (rs_project st). pr_id q \<noteq> Some i \<longrightarrow> q \<in> set (rs_project (snd (delete_project_rule i st))))"
proof -
  have wk: "project.well_kept st" using assms(2) by (simp add: project_well_kept_eq)
  show ?thesis
    using project.add_well_kept [OF assms(1) wk] project.delete_well_kept [OF wk]
      project.delete_keeps_others [OF wk]
    by (simp add: project_well_kept_eq)
qed

definition two_rules :: rule_state where
  "two_rules = snd (add_project_rule (new_policy_rule ''git'' AnyKind [] Ask)
     (snd (add_project_rule (new_policy_rule ''shell'' AnyKind [] Deny) default_rule_state)))"

lemma dec_0_1: "dec 0 = ''0''" "dec (Suc 0) = ''1''"
  by (simp_all add: dec.simps [of 0] dec.simps [of "Suc 0"] digit_char_def char_of_def bit_0)

lemmas rule_evals = new_policy_rule_def next_id_def next_number_def List.map_filter_def rule_suffix_def
  strip_prefix_def starts_with_def parse_unsigned_def is_digit_def digit_val_def dec_0_1

lemma two_rules_eval:
  "rs_project two_rules =
     [(new_policy_rule ''shell'' AnyKind [] Deny)\<lparr>pr_scope := ProjectScope, pr_id := Some ''project:0''\<rparr>,
      (new_policy_rule ''git'' AnyKind [] Ask)\<lparr>pr_scope := ProjectScope, pr_id := Some ''project:1''\<rparr>]"
  by (simp add: two_rules_def add_project_rule_def default_rule_state_def same_signature_def Let_def rule_evals)

theorem project_rules_stay_well_kept_witness:
  "project_ok two_rules \<and> rules_well_kept (rs_project two_rules) \<and>
   rules_well_kept (rs_project (snd (add_project_rule (new_policy_rule ''web'' AnyKind [] Allow) two_rules)))"
proof -
  have a: "project_ok two_rules" by (simp add: project_ok_def two_rules_eval rule_evals)
  have b: "rules_well_kept (rs_project two_rules)"
    by (simp add: rules_well_kept_def two_rules_eval rule_evals same_signature_def)
  from a b project_rules_stay_well_kept [OF a b] show ?thesis by blast
qed

text \<open>
  A session's rules get ids from its counter: every operation on the session
  keeps them distinct and below the counter, so an id is never issued twice while the session
  lives, and deleting the rule just added restores the set.
\<close>

theorem session_rules_stay_well_kept:
  assumes "session_ok run st" "rules_well_kept (fst (session_entry run st))"
  shows "session_ok run (snd (add_session_rule run r st)) \<and> session_ok run (snd (delete_session_rule run i st)) \<and>
    rules_well_kept (fst (session_entry run (snd (add_session_rule run r st)))) \<and>
    rules_well_kept (fst (session_entry run (snd (delete_session_rule run i st)))) \<and>
    ((\<forall>e \<in> set (fst (session_entry run st)). \<not> same_signature e r) \<longrightarrow>
      fst (session_entry run (snd (delete_session_rule run
        (the (pr_id (fst (add_session_rule run r st)))) (snd (add_session_rule run r st))))) =
      fst (session_entry run st))"
proof -
  have wk: "session.well_kept run st" using assms(2) by (simp add: session_well_kept_eq)
  show ?thesis
    using session.add_well_kept [OF assms(1) wk, of r] session.delete_well_kept [OF wk, of i]
      session_ok_add [OF assms(1), of r] session_ok_delete [OF assms(1), of i]
      session.add_then_delete [OF assms(1), of r]
    by (simp add: session_well_kept_eq)
qed

theorem session_rules_stay_well_kept_witness:
  "session_ok ''run'' default_rule_state \<and> rules_well_kept (fst (session_entry ''run'' default_rule_state)) \<and>
   session_ok ''run'' (snd (add_session_rule ''run'' (new_policy_rule ''web'' AnyKind [] Allow) default_rule_state))"
proof -
  have "rules_well_kept (fst (session_entry ''run'' default_rule_state))"
    by (simp add: rules_well_kept_def session_entry_def default_rule_state_def)
  with session_rules_stay_well_kept [OF session_ok_default this] session_ok_default show ?thesis by blast
qed

text \<open>
  Project ids are reused: the next number is one above the greatest id still in
  the set, so deleting the newest rule and adding another gives the new rule the deleted
  rule's id, although the documentation of the counter says a qualified id is never reused.
\<close>

theorem project_id_reused_after_delete:
  "pr_id (fst (add_project_rule (new_policy_rule ''git'' AnyKind [] Ask)
     (snd (add_project_rule (new_policy_rule ''shell'' AnyKind [] Deny) default_rule_state)))) = Some ''project:1'' \<and>
   pr_id (fst (add_project_rule (new_policy_rule ''web'' AnyKind [] Allow)
     (snd (delete_project_rule ''project:1'' two_rules)))) = Some ''project:1''"
  by (simp add: two_rules_eval [unfolded two_rules_def] two_rules_def add_project_rule_def
      delete_project_rule_def default_rule_state_def same_signature_def Let_def rule_evals)

end
