(* ===== verification/Ordered_Maps.thy ===== *)
theory Ordered_Maps
  imports Cool_Prelude "HOL-Library.List_Lexorder"
begin

text \<open>
  \<open>BTreeMap\<close>: the list of its entries in ascending key order. The locale
  \<open>finite_map\<close> is what clients of a map rely on (what a lookup returns after an
  insert or a removal, and that both keep the representation); \<open>bt_insert\<close> and
  \<open>bt_remove\<close> provide it.
\<close>

locale finite_map =
  fixes put :: "'k \<Rightarrow> 'v \<Rightarrow> 'm \<Rightarrow> 'm" and del :: "'k \<Rightarrow> 'm \<Rightarrow> 'm" and get :: "'m \<Rightarrow> 'k \<Rightarrow> 'v option"
    and ok :: "'m \<Rightarrow> bool"
  assumes get_put: "ok m \<Longrightarrow> get (put k v m) j = (if j = k then Some v else get m j)"
    and get_del: "ok m \<Longrightarrow> get (del k m) j = (if j = k then None else get m j)"
    and ok_put: "ok m \<Longrightarrow> ok (put k v m)"
    and ok_del: "ok m \<Longrightarrow> ok (del k m)"
begin

lemma ok_put_all: "ok m \<Longrightarrow> ok (foldl (\<lambda>m (k, v). put k v m) m kvs)"
  by (induction kvs arbitrary: m) (auto intro: ok_put)

lemma get_put_all:
  "ok m \<Longrightarrow> get (foldl (\<lambda>m (k, v). put k v m) m kvs) j = (get m ++ map_of (rev kvs)) j"
proof (induction kvs arbitrary: m)
  case Nil
  then show ?case by simp
next
  case (Cons p kvs)
  obtain k v where p: "p = (k, v)" by (cases p)
  from Cons.IH [OF ok_put [OF Cons.prems, of k v]] Cons.prems show ?case
    by (auto simp: p get_put map_add_def split: option.splits)
qed

end

fun bt_insert :: "'k::linorder \<Rightarrow> 'v \<Rightarrow> ('k \<times> 'v) list \<Rightarrow> ('k \<times> 'v) list" where
  "bt_insert k v [] = [(k, v)]"
| "bt_insert k v ((j, w) # m) =
     (if k < j then (k, v) # (j, w) # m
      else if k = j then (k, v) # m
      else (j, w) # bt_insert k v m)"

definition bt_remove :: "'k \<Rightarrow> ('k \<times> 'v) list \<Rightarrow> ('k \<times> 'v) list" where
  "bt_remove k m = filter (\<lambda>(j, _). j \<noteq> k) m"

definition bt_ok :: "('k::linorder \<times> 'v) list \<Rightarrow> bool" where
  "bt_ok m \<longleftrightarrow> sorted_wrt (<) (map fst m)"

lemma set_bt_insert_keys: "set (map fst (bt_insert k v m)) = insert k (set (map fst m))"
  by (induction k v m rule: bt_insert.induct) auto

lemma bt_ok_insert: "bt_ok m \<Longrightarrow> bt_ok (bt_insert k v m)"
proof (induction k v m rule: bt_insert.induct)
  case (2 k v j w m)
  have "\<forall>x \<in> set (map fst (bt_insert k v m)). j < x" if "j < k"
    using 2(2) that unfolding set_bt_insert_keys by (auto simp: bt_ok_def)
  with 2 show ?case by (fastforce simp: bt_ok_def)
qed (simp add: bt_ok_def)

lemma map_of_bt_insert: "bt_ok m \<Longrightarrow> map_of (bt_insert k v m) j = (if j = k then Some v else map_of m j)"
proof (induction k v m rule: bt_insert.induct)
  case (2 k v i w m)
  then show ?case by (auto simp: bt_ok_def)
qed simp

lemma map_of_bt_remove: "map_of (bt_remove k m) j = (if j = k then None else map_of m j)"
  by (induction m) (auto simp: bt_remove_def)

lemma bt_ok_remove: "bt_ok m \<Longrightarrow> bt_ok (bt_remove k m)"
proof -
  have "sorted_wrt (<) (map fst m) \<Longrightarrow> sorted_wrt (<) (map fst (filter P m))" for P
    by (induction m) auto
  then show "bt_ok m \<Longrightarrow> bt_ok (bt_remove k m)" by (simp add: bt_ok_def bt_remove_def)
qed

lemma bt_ok_Nil [simp]: "bt_ok []"
  by (simp add: bt_ok_def)

lemma bt_ok_distinct: "bt_ok m \<Longrightarrow> distinct (map fst m)"
  unfolding bt_ok_def using strict_sorted_iff by blast

lemma bt_in_iff: "bt_ok m \<Longrightarrow> (k, v) \<in> set m \<longleftrightarrow> map_of m k = Some v"
  using bt_ok_distinct by (metis map_of_eq_Some_iff)

interpretation btree: finite_map bt_insert bt_remove map_of bt_ok
  by unfold_locales (auto simp: map_of_bt_insert map_of_bt_remove intro: bt_ok_insert bt_ok_remove)

end
