(* ===== verification/Json_Values.thy ===== *)
theory Json_Values
  imports Ordered_Maps "HOL-Library.Monad_Syntax"
begin

text \<open>
  \<open>serde_json::Value\<close>, the masking of \<open>crates/cool-security/src/lib.rs\<close>
  (\<open>mask_json\<close>, \<open>sensitive_json_key\<close>), and the field readers that the
  derived \<open>Serialize\<close> and \<open>Deserialize\<close> instances of the wire types are
  made of. An object is the list of its entries (a \<open>BTreeMap\<close>, keys ascending). The
  regular expressions of \<open>mask_secrets\<close> are interpreted by the crate \<open>regex\<close>, so
  \<open>mask_secrets\<close> is a parameter \<open>ms\<close> on strings. An \<open>f64\<close> is its
  IEEE bit pattern. Only the object form of a struct is read (serde also accepts an array of
  the fields in order, which nothing in the repository writes).
\<close>

datatype json_number =
    PosInt "64 word"
  | NegInt "64 word"
  | Float "64 word"

datatype json =
    JNull
  | JBool bool
  | JNumber json_number
  | JString string
  | JArray "json list"
  | JObject "(string \<times> json) list"

type_synonym json_map = "(string \<times> json) list"

section \<open>Masking\<close>

definition sensitive_suffixes :: "string list" where
  "sensitive_suffixes = [''_api_key'', ''_password'', ''_secret'', ''_token'']"

definition sensitive_names :: "string list" where
  "sensitive_names = [''authorization'', ''api_key'', ''apikey'', ''access_token'', ''refresh_token'',
     ''password'', ''passwd'', ''secret'', ''token'']"

definition sensitive_json_key :: "string \<Rightarrow> bool" where
  "sensitive_json_key name =
     (let normalized = map (\<lambda>c. if c = CHR ''-'' then CHR ''_'' else c) (to_lower name)
      in normalized \<in> set sensitive_names \<or>
         list_ex (\<lambda>suffix. ends_with suffix normalized) sensitive_suffixes)"

definition redacted :: string where "redacted = ''[REDACTED]''"

fun mask_json :: "(string \<Rightarrow> string) \<Rightarrow> json \<Rightarrow> json" where
  "mask_json ms (JString text) = JString (ms text)"
| "mask_json ms (JArray vals) = JArray (map (mask_json ms) vals)"
| "mask_json ms (JObject vals) =
     JObject (map (\<lambda>(name, value).
       (name, if sensitive_json_key name \<and> value \<noteq> JNull then JString redacted
              else mask_json ms value)) vals)"
| "mask_json ms JNull = JNull"
| "mask_json ms (JBool b) = JBool b"
| "mask_json ms (JNumber n) = JNumber n"

definition mask_map :: "(string \<Rightarrow> string) \<Rightarrow> json_map \<Rightarrow> json_map" where
  "mask_map ms vals = map (\<lambda>(name, value).
     (name, if sensitive_json_key name \<and> value \<noteq> JNull then JString redacted
            else mask_json ms value)) vals"

lemma mask_json_object [simp]: "mask_json ms (JObject vals) = JObject (mask_map ms vals)"
  by (simp add: mask_map_def)

declare mask_json.simps(3) [simp del]

text \<open>Below a sensitive key there is only a null or the replacement text.\<close>

fun keys_guarded :: "json \<Rightarrow> bool" where
  "keys_guarded (JArray vals) = list_all keys_guarded vals"
| "keys_guarded (JObject vals) =
     list_all (\<lambda>(name, value).
       (sensitive_json_key name \<longrightarrow> value = JNull \<or> value = JString redacted) \<and> keys_guarded value) vals"
| "keys_guarded JNull = True"
| "keys_guarded (JBool b) = True"
| "keys_guarded (JNumber n) = True"
| "keys_guarded (JString s) = True"

text \<open>The strings a document carries, keys aside.\<close>

fun json_strings :: "json \<Rightarrow> string list" where
  "json_strings (JString s) = [s]"
| "json_strings (JArray vals) = concat (map json_strings vals)"
| "json_strings (JObject vals) = concat (map (\<lambda>(name, value). json_strings value) vals)"
| "json_strings JNull = []"
| "json_strings (JBool b) = []"
| "json_strings (JNumber n) = []"

lemma mask_json_eq_JNull [simp]: "mask_json ms j = JNull \<longleftrightarrow> j = JNull"
  by (cases j) auto

lemma keys_guarded_mask: "keys_guarded (mask_json ms j)"
  by (induction ms j rule: mask_json.induct) (auto simp: list_all_iff mask_map_def split: if_splits)

lemma json_strings_mask: "s \<in> set (json_strings (mask_json ms j)) \<Longrightarrow> s = redacted \<or> s \<in> range ms"
  by (induction ms j rule: mask_json.induct) (auto simp: mask_map_def split: if_splits)

lemma mask_json_idem:
  assumes "\<And>t. ms (ms t) = ms t"
  shows "mask_json ms (mask_json ms j) = mask_json ms j"
proof (induction j)
  case (JArray js)
  then show ?case by (simp add: comp_def)
next
  case (JObject entries)
  have "mask_map ms (mask_map ms entries) = mask_map ms entries"
    using JObject by (auto simp: mask_map_def)
  then show ?case by simp
qed (simp_all add: assms)

lemma map_of_mask_map:
  "map_of (mask_map ms vals) k =
     map_option (\<lambda>v. if sensitive_json_key k \<and> v \<noteq> JNull then JString redacted else mask_json ms v)
       (map_of vals k)"
proof (induction vals)
  case (Cons p vals)
  then show ?case by (cases p) (simp add: mask_map_def)
qed (simp add: mask_map_def)

lemma map_of_mask_map_plain:
  "\<not> sensitive_json_key k \<Longrightarrow> map_of (mask_map ms vals) k = map_option (mask_json ms) (map_of vals k)"
  by (simp add: map_of_mask_map)

lemma mask_map_keys [simp]: "map fst (mask_map ms vals) = map fst vals"
  by (simp add: mask_map_def comp_def case_prod_beta)

section \<open>Writing values\<close>

definition opt_json :: "('a \<Rightarrow> json) \<Rightarrow> 'a option \<Rightarrow> json" where
  "opt_json f x = (case x of None \<Rightarrow> JNull | Some v \<Rightarrow> f v)"

definition u64_json :: "64 word \<Rightarrow> json" where "u64_json w = JNumber (PosInt w)"
definition u32_json :: "32 word \<Rightarrow> json" where "u32_json w = JNumber (PosInt (ucast w))"

text \<open>A negative \<open>i64\<close> is stored as such, any other as a \<open>u64\<close>.\<close>

definition i64_json :: "64 word \<Rightarrow> json" where
  "i64_json w = JNumber (if sint w < 0 then NegInt w else PosInt w)"

text \<open>An \<open>f64\<close> that is infinite or not a number (exponent bits all ones) is written as null.\<close>

definition f64_finite :: "64 word \<Rightarrow> bool" where
  "f64_finite w \<longleftrightarrow> (unat w div 2 ^ 52) mod 2048 \<noteq> 2047"

definition f64_json :: "64 word \<Rightarrow> json" where
  "f64_json w = (if f64_finite w then JNumber (Float w) else JNull)"

section \<open>Reading values\<close>

definition d_string :: "json \<Rightarrow> string option" where
  "d_string j = (case j of JString s \<Rightarrow> Some s | _ \<Rightarrow> None)"

definition d_bool :: "json \<Rightarrow> bool option" where
  "d_bool j = (case j of JBool b \<Rightarrow> Some b | _ \<Rightarrow> None)"

definition d_u64 :: "json \<Rightarrow> 64 word option" where
  "d_u64 j = (case j of JNumber (PosInt w) \<Rightarrow> Some w | _ \<Rightarrow> None)"

definition d_u32 :: "json \<Rightarrow> 32 word option" where
  "d_u32 j = (case j of
     JNumber (PosInt w) \<Rightarrow> (if uint w < 2 ^ 32 then Some (ucast w) else None) | _ \<Rightarrow> None)"

definition d_i64 :: "json \<Rightarrow> 64 word option" where
  "d_i64 j = (case j of
     JNumber (PosInt w) \<Rightarrow> (if uint w < 2 ^ 63 then Some w else None)
   | JNumber (NegInt w) \<Rightarrow> Some w
   | _ \<Rightarrow> None)"

text \<open>
  An integer read as an \<open>f64\<close> is converted as by \<open>as f64\<close>: exactly up to 53 bits,
  else to the nearest representable value, ties to even. The carry of the rounding into the
  exponent gives the right bit pattern.
\<close>

fun bit_length :: "nat \<Rightarrow> nat" where
  "bit_length n = (if n = 0 then 0 else Suc (bit_length (n div 2)))"

declare bit_length.simps [simp del]

definition f64_of_nat :: "nat \<Rightarrow> nat" where
  "f64_of_nat n =
     (if n = 0 then 0
      else let e = bit_length n - 1 in
        if e \<le> 52 then (e + 1023) * 2 ^ 52 + (n * 2 ^ (52 - e) - 2 ^ 52)
        else let q = n div 2 ^ (e - 52); r = n mod 2 ^ (e - 52); half = 2 ^ (e - 53);
                 m = (if half < r \<or> (r = half \<and> odd q) then q + 1 else q)
             in (e + 1023) * 2 ^ 52 + (m - 2 ^ 52))"

definition d_f64 :: "json \<Rightarrow> 64 word option" where
  "d_f64 j = (case j of
     JNumber (Float w) \<Rightarrow> Some w
   | JNumber (PosInt w) \<Rightarrow> Some (of_nat (f64_of_nat (unat w)))
   | JNumber (NegInt w) \<Rightarrow> Some (of_nat (2 ^ 63 + f64_of_nat (nat (- sint w))))
   | _ \<Rightarrow> None)"

definition d_opt :: "(json \<Rightarrow> 'a option) \<Rightarrow> json \<Rightarrow> 'a option option" where
  "d_opt d j = (if j = JNull then Some None else map_option Some (d j))"

fun d_all :: "(json \<Rightarrow> 'a option) \<Rightarrow> json list \<Rightarrow> 'a list option" where
  "d_all d [] = Some []"
| "d_all d (j # js) = do { x \<leftarrow> d j; xs \<leftarrow> d_all d js; Some (x # xs) }"

definition d_list :: "(json \<Rightarrow> 'a option) \<Rightarrow> json \<Rightarrow> 'a list option" where
  "d_list d j = (case j of JArray js \<Rightarrow> d_all d js | _ \<Rightarrow> None)"

definition d_map :: "json \<Rightarrow> json_map option" where
  "d_map j = (case j of JObject obj \<Rightarrow> Some obj | _ \<Rightarrow> None)"

text \<open>
  \<open>deny_unknown_fields\<close>: an object with no field outside the list. A required field
  must be there; an absent \<open>Option\<close> field reads as \<open>None\<close>, a field with
  \<open>serde(default)\<close> as its default.
\<close>

definition d_struct :: "string list \<Rightarrow> json \<Rightarrow> json_map option" where
  "d_struct fields j = (case j of
     JObject obj \<Rightarrow> if list_all (\<lambda>(k, _). k \<in> set fields) obj then Some obj else None
   | _ \<Rightarrow> None)"

definition req :: "(json \<Rightarrow> 'a option) \<Rightarrow> string \<Rightarrow> json_map \<Rightarrow> 'a option" where
  "req d k obj = Option.bind (map_of obj k) d"

definition opt :: "(json \<Rightarrow> 'a option) \<Rightarrow> string \<Rightarrow> json_map \<Rightarrow> 'a option option" where
  "opt d k obj = (case map_of obj k of None \<Rightarrow> Some None | Some j \<Rightarrow> d_opt d j)"

definition dflt :: "'a \<Rightarrow> (json \<Rightarrow> 'a option) \<Rightarrow> string \<Rightarrow> json_map \<Rightarrow> 'a option" where
  "dflt x d k obj = (case map_of obj k of None \<Rightarrow> Some x | Some j \<Rightarrow> d j)"

section \<open>Round trips of the readers\<close>

named_theorems codec \<open>reading back what was written\<close>

lemma d_string_JString [codec]: "d_string (JString s) = Some s"
  by (simp add: d_string_def)

lemma d_bool_JBool [codec]: "d_bool (JBool b) = Some b"
  by (simp add: d_bool_def)

lemma d_u64_json [codec]: "d_u64 (u64_json w) = Some w"
  by (simp add: d_u64_def u64_json_def)

lemma uint_ucast_32_64: "uint (ucast (w :: 32 word) :: 64 word) = uint w"
proof -
  have "uint w < 2 ^ 32" using uint_lt2p [of w] by simp
  then show ?thesis by (simp add: unsigned_ucast_eq take_bit_int_eq_self_iff)
qed

lemma d_u32_json [codec]: "d_u32 (u32_json w) = Some w"
  using uint_lt2p [of w]
  by (simp add: d_u32_def u32_json_def uint_ucast_32_64 ucast_up_ucast_id is_up_def)

lemma d_i64_json [codec]: "d_i64 (i64_json w) = Some w"
  using uint_lt2p [of w] by (simp add: d_i64_def i64_json_def sint_u64)

lemma d_f64_json [codec]: "f64_finite w \<Longrightarrow> d_f64 (f64_json w) = Some w"
  by (simp add: d_f64_def f64_json_def)

lemma d_opt_json: 
  "(\<And>v. x = Some v \<Longrightarrow> d (f v) = Some v \<and> f v \<noteq> JNull) \<Longrightarrow> d_opt d (opt_json f x) = Some x"
  by (cases x) (auto simp: d_opt_def opt_json_def)

lemma d_opt_basic [codec]:
  "d_opt d_string (opt_json JString s) = Some s"
  "d_opt d_u64 (opt_json u64_json u) = Some u"
  "d_opt d_i64 (opt_json i64_json i) = Some i"
  by (rule d_opt_json; simp add: codec u64_json_def [symmetric]; simp add: u64_json_def i64_json_def)+

lemma d_opt_f64 [codec]:
  "pred_option f64_finite x \<Longrightarrow> d_opt d_f64 (opt_json f64_json x) = Some x"
  by (rule d_opt_json) (simp add: codec f64_json_def d_f64_def)

lemma d_all_map: "(\<And>x. x \<in> set xs \<Longrightarrow> d (f x) = Some x) \<Longrightarrow> d_all d (map f xs) = Some xs"
  by (induction xs) auto

lemma d_list_map: "(\<And>x. x \<in> set xs \<Longrightarrow> d (f x) = Some x) \<Longrightarrow> d_list d (JArray (map f xs)) = Some xs"
  by (simp add: d_list_def d_all_map)

lemma d_map_JObject [codec]: "d_map (JObject m) = Some m"
  by (simp add: d_map_def)

section \<open>Properties\<close>

text \<open>
  A masked document is guarded: under every sensitive key, at any depth, there
  is a null or the replacement text, and every text left in it came out of
  \<open>mask_secrets\<close> or is the replacement. Keys and the shape of arrays stay.
\<close>

theorem mask_json_guards:
  "keys_guarded (mask_json ms j) \<and>
   set (json_strings (mask_json ms j)) \<subseteq> insert redacted (range ms) \<and>
   map fst (mask_map ms entries) = map fst entries"
  using keys_guarded_mask [of ms j] json_strings_mask [of _ ms j] mask_map_keys [of ms entries] by blast

definition star_out :: "string \<Rightarrow> string" where
  "star_out t = (if t = ''hunter2'' then ''***'' else t)"

end
