(* ===== verification/Protocol_Payloads.thy ===== *)
theory Protocol_Payloads
  imports Json_Values
begin

text \<open>
  The payload types of the canonical events, \<open>crates/cool-protocol/src/lib.rs\<close>, each
  with the writer and the strict reader that \<open>serde\<close> derives for it: camel-case field
  names, \<open>deny_unknown_fields\<close>, absent \<open>Option\<close> fields read as
  \<open>None\<close>, \<open>serde(default)\<close> fields as their default. Each pair is shown to
  round trip (collection \<open>codec\<close>).
\<close>

lemmas reading = d_struct_def req_def opt_def dflt_def

section \<open>Enumerations\<close>

datatype approval_outcome = Approved | Denied | TimedOut

definition approval_outcome_json :: "approval_outcome \<Rightarrow> json" where
  "approval_outcome_json d = JString (case d of
     Approved \<Rightarrow> ''approved'' | Denied \<Rightarrow> ''denied'' | TimedOut \<Rightarrow> ''timed_out'')"

definition d_approval_outcome :: "json \<Rightarrow> approval_outcome option" where
  "d_approval_outcome j = do {
     s \<leftarrow> d_string j;
     if s = ''approved'' then Some Approved
     else if s = ''denied'' then Some Denied
     else if s = ''timed_out'' then Some TimedOut
     else None }"

datatype plan_progress_status = PlanExecuting | PlanCompleted | PlanFailed

definition plan_progress_status_json :: "plan_progress_status \<Rightarrow> json" where
  "plan_progress_status_json d = JString (case d of
     PlanExecuting \<Rightarrow> ''executing'' | PlanCompleted \<Rightarrow> ''completed'' | PlanFailed \<Rightarrow> ''failed'')"

definition d_plan_progress_status :: "json \<Rightarrow> plan_progress_status option" where
  "d_plan_progress_status j = do {
     s \<leftarrow> d_string j;
     if s = ''executing'' then Some PlanExecuting
     else if s = ''completed'' then Some PlanCompleted
     else if s = ''failed'' then Some PlanFailed
     else None }"

section \<open>Payload records\<close>

record policy_rule_record =
  prr_id :: "string option"
  prr_tool :: string
  prr_kind :: string
  prr_pattern :: string
  prr_decision :: string
  prr_scope :: string
  prr_note :: "string option"

definition policy_rule_record_json :: "policy_rule_record \<Rightarrow> json" where
  "policy_rule_record_json r = JObject [
     (''id'', opt_json JString (prr_id r)),
     (''tool'', JString (prr_tool r)),
     (''kind'', JString (prr_kind r)),
     (''pattern'', JString (prr_pattern r)),
     (''decision'', JString (prr_decision r)),
     (''scope'', JString (prr_scope r)),
     (''note'', opt_json JString (prr_note r))]"

definition d_policy_rule_record :: "json \<Rightarrow> policy_rule_record option" where
  "d_policy_rule_record j = do {
     obj \<leftarrow> d_struct
       [''id'', ''tool'', ''kind'', ''pattern'', ''decision'', ''scope'', ''note''] j;
     ident \<leftarrow> opt d_string ''id'' obj;
     tool \<leftarrow> req d_string ''tool'' obj;
     kind \<leftarrow> req d_string ''kind'' obj;
     pattern \<leftarrow> dflt [] d_string ''pattern'' obj;
     decision \<leftarrow> req d_string ''decision'' obj;
     scope \<leftarrow> req d_string ''scope'' obj;
     note \<leftarrow> opt d_string ''note'' obj;
     Some \<lparr>prr_id = ident, prr_tool = tool, prr_kind = kind, prr_pattern = pattern,
       prr_decision = decision, prr_scope = scope, prr_note = note\<rparr> }"

record session_event =
  se_title :: "string option"
  se_project_key :: "string option"

definition session_event_json :: "session_event \<Rightarrow> json" where
  "session_event_json r = JObject [
     (''title'', opt_json JString (se_title r)),
     (''projectKey'', opt_json JString (se_project_key r))]"

definition d_session_event :: "json \<Rightarrow> session_event option" where
  "d_session_event j = do {
     obj \<leftarrow> d_struct
       [''title'', ''projectKey''] j;
     title \<leftarrow> opt d_string ''title'' obj;
     project_key \<leftarrow> opt d_string ''projectKey'' obj;
     Some \<lparr>se_title = title, se_project_key = project_key\<rparr> }"

record session_compacted =
  sc_retained_items :: "32 word"
  sc_summary_item_id :: "string option"
  sc_summary :: "string option"
  sc_compact_up_to_cursor :: "(64 word) option"

definition session_compacted_json :: "session_compacted \<Rightarrow> json" where
  "session_compacted_json r = JObject [
     (''retainedItems'', u32_json (sc_retained_items r)),
     (''summaryItemId'', opt_json JString (sc_summary_item_id r)),
     (''summary'', opt_json JString (sc_summary r)),
     (''compactUpToCursor'', opt_json u64_json (sc_compact_up_to_cursor r))]"

definition d_session_compacted :: "json \<Rightarrow> session_compacted option" where
  "d_session_compacted j = do {
     obj \<leftarrow> d_struct
       [''retainedItems'', ''summaryItemId'', ''summary'', ''compactUpToCursor''] j;
     retained_items \<leftarrow> req d_u32 ''retainedItems'' obj;
     summary_item_id \<leftarrow> opt d_string ''summaryItemId'' obj;
     summary \<leftarrow> opt d_string ''summary'' obj;
     compact_up_to_cursor \<leftarrow> opt d_u64 ''compactUpToCursor'' obj;
     Some \<lparr>sc_retained_items = retained_items, sc_summary_item_id = summary_item_id,
       sc_summary = summary, sc_compact_up_to_cursor = compact_up_to_cursor\<rparr> }"

record run_started =
  rs_model :: "string option"
  rs_mode :: "string option"

definition run_started_json :: "run_started \<Rightarrow> json" where
  "run_started_json r = JObject [
     (''model'', opt_json JString (rs_model r)),
     (''mode'', opt_json JString (rs_mode r))]"

definition d_run_started :: "json \<Rightarrow> run_started option" where
  "d_run_started j = do {
     obj \<leftarrow> d_struct
       [''model'', ''mode''] j;
     model \<leftarrow> opt d_string ''model'' obj;
     mode \<leftarrow> opt d_string ''mode'' obj;
     Some \<lparr>rs_model = model, rs_mode = mode\<rparr> }"

record run_terminal =
  rt_reason :: string
  rt_error_code :: "string option"

definition run_terminal_json :: "run_terminal \<Rightarrow> json" where
  "run_terminal_json r = JObject [
     (''reason'', JString (rt_reason r)),
     (''errorCode'', opt_json JString (rt_error_code r))]"

definition d_run_terminal :: "json \<Rightarrow> run_terminal option" where
  "d_run_terminal j = do {
     obj \<leftarrow> d_struct
       [''reason'', ''errorCode''] j;
     reason \<leftarrow> req d_string ''reason'' obj;
     error_code \<leftarrow> opt d_string ''errorCode'' obj;
     Some \<lparr>rt_reason = reason, rt_error_code = error_code\<rparr> }"

record run_rewound =
  rr_cursor :: "64 word"
  rr_reason :: "string option"

definition run_rewound_json :: "run_rewound \<Rightarrow> json" where
  "run_rewound_json r = JObject [
     (''cursor'', u64_json (rr_cursor r)),
     (''reason'', opt_json JString (rr_reason r))]"

definition d_run_rewound :: "json \<Rightarrow> run_rewound option" where
  "d_run_rewound j = do {
     obj \<leftarrow> d_struct
       [''cursor'', ''reason''] j;
     cursor \<leftarrow> req d_u64 ''cursor'' obj;
     reason \<leftarrow> opt d_string ''reason'' obj;
     Some \<lparr>rr_cursor = cursor, rr_reason = reason\<rparr> }"

record tool_requested =
  tr_call_id :: string
  tr_name :: string
  tr_arguments :: json_map

definition tool_requested_json :: "tool_requested \<Rightarrow> json" where
  "tool_requested_json r = JObject [
     (''callId'', JString (tr_call_id r)),
     (''name'', JString (tr_name r)),
     (''arguments'', JObject (tr_arguments r))]"

definition d_tool_requested :: "json \<Rightarrow> tool_requested option" where
  "d_tool_requested j = do {
     obj \<leftarrow> d_struct
       [''callId'', ''name'', ''arguments''] j;
     call_id \<leftarrow> req d_string ''callId'' obj;
     name \<leftarrow> req d_string ''name'' obj;
     arguments \<leftarrow> dflt [] d_map ''arguments'' obj;
     Some \<lparr>tr_call_id = call_id, tr_name = name, tr_arguments = arguments\<rparr> }"

record item_event =
  ie_role :: "string option"
  ie_content :: "string option"
  ie_tool_calls :: "tool_requested list"

definition item_event_json :: "item_event \<Rightarrow> json" where
  "item_event_json r = JObject [
     (''role'', opt_json JString (ie_role r)),
     (''content'', opt_json JString (ie_content r)),
     (''toolCalls'', JArray (map tool_requested_json (ie_tool_calls r)))]"

definition d_item_event :: "json \<Rightarrow> item_event option" where
  "d_item_event j = do {
     obj \<leftarrow> d_struct
       [''role'', ''content'', ''toolCalls''] j;
     role \<leftarrow> opt d_string ''role'' obj;
     content \<leftarrow> opt d_string ''content'' obj;
     tool_calls \<leftarrow> dflt [] (d_list d_tool_requested) ''toolCalls'' obj;
     Some \<lparr>ie_role = role, ie_content = content, ie_tool_calls = tool_calls\<rparr> }"

record text_delta =
  td_text :: string
  td_channel :: "string option"

definition text_delta_json :: "text_delta \<Rightarrow> json" where
  "text_delta_json r = JObject [
     (''text'', JString (td_text r)),
     (''channel'', opt_json JString (td_channel r))]"

definition d_text_delta :: "json \<Rightarrow> text_delta option" where
  "d_text_delta j = do {
     obj \<leftarrow> d_struct
       [''text'', ''channel''] j;
     text \<leftarrow> req d_string ''text'' obj;
     channel \<leftarrow> opt d_string ''channel'' obj;
     Some \<lparr>td_text = text, td_channel = channel\<rparr> }"

record tool_approval_required =
  ta_call_id :: string
  ta_name :: string
  ta_arguments :: json_map
  ta_reason :: string
  ta_approval_id :: string
  ta_revision :: "64 word"
  ta_breakpoint_type :: "string option"
  ta_result_preview :: "string option"
  ta_current_content :: "string option"
  ta_matched_rule :: "string option"
  ta_suggested_rule :: "policy_rule_record option"

definition tool_approval_required_json :: "tool_approval_required \<Rightarrow> json" where
  "tool_approval_required_json r = JObject [
     (''callId'', JString (ta_call_id r)),
     (''name'', JString (ta_name r)),
     (''arguments'', JObject (ta_arguments r)),
     (''reason'', JString (ta_reason r)),
     (''approvalId'', JString (ta_approval_id r)),
     (''revision'', u64_json (ta_revision r)),
     (''breakpointType'', opt_json JString (ta_breakpoint_type r)),
     (''resultPreview'', opt_json JString (ta_result_preview r)),
     (''currentContent'', opt_json JString (ta_current_content r)),
     (''matchedRule'', opt_json JString (ta_matched_rule r)),
     (''suggestedRule'', opt_json policy_rule_record_json (ta_suggested_rule r))]"

definition d_tool_approval_required :: "json \<Rightarrow> tool_approval_required option" where
  "d_tool_approval_required j = do {
     obj \<leftarrow> d_struct
       [''callId'', ''name'', ''arguments'', ''reason'', ''approvalId'', ''revision'',
         ''breakpointType'', ''resultPreview'', ''currentContent'', ''matchedRule'',
           ''suggestedRule''] j;
     call_id \<leftarrow> req d_string ''callId'' obj;
     name \<leftarrow> req d_string ''name'' obj;
     arguments \<leftarrow> dflt [] d_map ''arguments'' obj;
     reason \<leftarrow> req d_string ''reason'' obj;
     approval_id \<leftarrow> req d_string ''approvalId'' obj;
     revision \<leftarrow> req d_u64 ''revision'' obj;
     breakpoint_type \<leftarrow> opt d_string ''breakpointType'' obj;
     result_preview \<leftarrow> opt d_string ''resultPreview'' obj;
     current_content \<leftarrow> opt d_string ''currentContent'' obj;
     matched_rule \<leftarrow> opt d_string ''matchedRule'' obj;
     suggested_rule \<leftarrow> opt d_policy_rule_record ''suggestedRule'' obj;
     Some \<lparr>ta_call_id = call_id, ta_name = name, ta_arguments = arguments,
       ta_reason = reason, ta_approval_id = approval_id, ta_revision = revision,
         ta_breakpoint_type = breakpoint_type, ta_result_preview = result_preview,
           ta_current_content = current_content, ta_matched_rule = matched_rule,
             ta_suggested_rule = suggested_rule\<rparr> }"

record tool_approval_resolved =
  tv_call_id :: string
  tv_approval_id :: string
  tv_revision :: "64 word"
  tv_decision :: approval_outcome

definition tool_approval_resolved_json :: "tool_approval_resolved \<Rightarrow> json" where
  "tool_approval_resolved_json r = JObject [
     (''callId'', JString (tv_call_id r)),
     (''approvalId'', JString (tv_approval_id r)),
     (''revision'', u64_json (tv_revision r)),
     (''decision'', approval_outcome_json (tv_decision r))]"

definition d_tool_approval_resolved :: "json \<Rightarrow> tool_approval_resolved option" where
  "d_tool_approval_resolved j = do {
     obj \<leftarrow> d_struct
       [''callId'', ''approvalId'', ''revision'', ''decision''] j;
     call_id \<leftarrow> req d_string ''callId'' obj;
     approval_id \<leftarrow> req d_string ''approvalId'' obj;
     revision \<leftarrow> req d_u64 ''revision'' obj;
     decision \<leftarrow> req d_approval_outcome ''decision'' obj;
     Some \<lparr>tv_call_id = call_id, tv_approval_id = approval_id, tv_revision = revision,
       tv_decision = decision\<rparr> }"

record tool_lifecycle =
  tl_call_id :: string
  tl_name :: string

definition tool_lifecycle_json :: "tool_lifecycle \<Rightarrow> json" where
  "tool_lifecycle_json r = JObject [
     (''callId'', JString (tl_call_id r)),
     (''name'', JString (tl_name r))]"

definition d_tool_lifecycle :: "json \<Rightarrow> tool_lifecycle option" where
  "d_tool_lifecycle j = do {
     obj \<leftarrow> d_struct
       [''callId'', ''name''] j;
     call_id \<leftarrow> req d_string ''callId'' obj;
     name \<leftarrow> req d_string ''name'' obj;
     Some \<lparr>tl_call_id = call_id, tl_name = name\<rparr> }"

record tool_completed =
  tc_call_id :: string
  tc_name :: string
  tc_result :: json

definition tool_completed_json :: "tool_completed \<Rightarrow> json" where
  "tool_completed_json r = JObject [
     (''callId'', JString (tc_call_id r)),
     (''name'', JString (tc_name r)),
     (''result'', tc_result r)]"

definition d_tool_completed :: "json \<Rightarrow> tool_completed option" where
  "d_tool_completed j = do {
     obj \<leftarrow> d_struct
       [''callId'', ''name'', ''result''] j;
     call_id \<leftarrow> req d_string ''callId'' obj;
     name \<leftarrow> req d_string ''name'' obj;
     result \<leftarrow> req Some ''result'' obj;
     Some \<lparr>tc_call_id = call_id, tc_name = name, tc_result = result\<rparr> }"

record tool_failed =
  tf_call_id :: string
  tf_name :: string
  tf_error_code :: string
  tf_message :: "string option"

definition tool_failed_json :: "tool_failed \<Rightarrow> json" where
  "tool_failed_json r = JObject [
     (''callId'', JString (tf_call_id r)),
     (''name'', JString (tf_name r)),
     (''errorCode'', JString (tf_error_code r)),
     (''message'', opt_json JString (tf_message r))]"

definition d_tool_failed :: "json \<Rightarrow> tool_failed option" where
  "d_tool_failed j = do {
     obj \<leftarrow> d_struct
       [''callId'', ''name'', ''errorCode'', ''message''] j;
     call_id \<leftarrow> req d_string ''callId'' obj;
     name \<leftarrow> req d_string ''name'' obj;
     error_code \<leftarrow> req d_string ''errorCode'' obj;
     message \<leftarrow> opt d_string ''message'' obj;
     Some \<lparr>tf_call_id = call_id, tf_name = name, tf_error_code = error_code,
       tf_message = message\<rparr> }"

record plan_step =
  ps_plan_id :: string
  ps_position :: "32 word"
  ps_title :: string
  ps_status :: string
  ps_result_summary :: "string option"

definition plan_step_json :: "plan_step \<Rightarrow> json" where
  "plan_step_json r = JObject [
     (''planId'', JString (ps_plan_id r)),
     (''position'', u32_json (ps_position r)),
     (''title'', JString (ps_title r)),
     (''status'', JString (ps_status r)),
     (''resultSummary'', opt_json JString (ps_result_summary r))]"

definition d_plan_step :: "json \<Rightarrow> plan_step option" where
  "d_plan_step j = do {
     obj \<leftarrow> d_struct
       [''planId'', ''position'', ''title'', ''status'', ''resultSummary''] j;
     plan_id \<leftarrow> req d_string ''planId'' obj;
     position \<leftarrow> req d_u32 ''position'' obj;
     title \<leftarrow> req d_string ''title'' obj;
     status \<leftarrow> req d_string ''status'' obj;
     result_summary \<leftarrow> opt d_string ''resultSummary'' obj;
     Some \<lparr>ps_plan_id = plan_id, ps_position = position, ps_title = title,
       ps_status = status, ps_result_summary = result_summary\<rparr> }"

record plan_created =
  pc_plan_id :: string
  pc_title :: "string option"
  pc_total_steps :: "32 word"
  pc_steps :: "plan_step list"
  pc_store_plan_id :: "(64 word) option"

definition plan_created_json :: "plan_created \<Rightarrow> json" where
  "plan_created_json r = JObject [
     (''planId'', JString (pc_plan_id r)),
     (''title'', opt_json JString (pc_title r)),
     (''totalSteps'', u32_json (pc_total_steps r)),
     (''steps'', JArray (map plan_step_json (pc_steps r))),
     (''storePlanId'', opt_json i64_json (pc_store_plan_id r))]"

definition d_plan_created :: "json \<Rightarrow> plan_created option" where
  "d_plan_created j = do {
     obj \<leftarrow> d_struct
       [''planId'', ''title'', ''totalSteps'', ''steps'', ''storePlanId''] j;
     plan_id \<leftarrow> req d_string ''planId'' obj;
     title \<leftarrow> opt d_string ''title'' obj;
     total_steps \<leftarrow> req d_u32 ''totalSteps'' obj;
     steps \<leftarrow> dflt [] (d_list d_plan_step) ''steps'' obj;
     store_plan_id \<leftarrow> opt d_i64 ''storePlanId'' obj;
     Some \<lparr>pc_plan_id = plan_id, pc_title = title, pc_total_steps = total_steps,
       pc_steps = steps, pc_store_plan_id = store_plan_id\<rparr> }"

record plan_progress =
  pp_plan_id :: string
  pp_completed_steps :: "32 word"
  pp_total_steps :: "32 word"
  pp_message :: "string option"
  pp_status :: plan_progress_status

definition plan_progress_json :: "plan_progress \<Rightarrow> json" where
  "plan_progress_json r = JObject [
     (''planId'', JString (pp_plan_id r)),
     (''completedSteps'', u32_json (pp_completed_steps r)),
     (''totalSteps'', u32_json (pp_total_steps r)),
     (''message'', opt_json JString (pp_message r)),
     (''status'', plan_progress_status_json (pp_status r))]"

definition d_plan_progress :: "json \<Rightarrow> plan_progress option" where
  "d_plan_progress j = do {
     obj \<leftarrow> d_struct
       [''planId'', ''completedSteps'', ''totalSteps'', ''message'', ''status''] j;
     plan_id \<leftarrow> req d_string ''planId'' obj;
     completed_steps \<leftarrow> req d_u32 ''completedSteps'' obj;
     total_steps \<leftarrow> req d_u32 ''totalSteps'' obj;
     message \<leftarrow> opt d_string ''message'' obj;
     status \<leftarrow> req d_plan_progress_status ''status'' obj;
     Some \<lparr>pp_plan_id = plan_id, pp_completed_steps = completed_steps,
       pp_total_steps = total_steps, pp_message = message, pp_status = status\<rparr> }"

record artifact_created =
  ac_artifact_id :: string
  ac_kind :: string
  ac_name :: string
  ac_media_type :: "string option"

definition artifact_created_json :: "artifact_created \<Rightarrow> json" where
  "artifact_created_json r = JObject [
     (''artifactId'', JString (ac_artifact_id r)),
     (''kind'', JString (ac_kind r)),
     (''name'', JString (ac_name r)),
     (''mediaType'', opt_json JString (ac_media_type r))]"

definition d_artifact_created :: "json \<Rightarrow> artifact_created option" where
  "d_artifact_created j = do {
     obj \<leftarrow> d_struct
       [''artifactId'', ''kind'', ''name'', ''mediaType''] j;
     artifact_id \<leftarrow> req d_string ''artifactId'' obj;
     kind \<leftarrow> req d_string ''kind'' obj;
     name \<leftarrow> req d_string ''name'' obj;
     media_type \<leftarrow> opt d_string ''mediaType'' obj;
     Some \<lparr>ac_artifact_id = artifact_id, ac_kind = kind, ac_name = name,
       ac_media_type = media_type\<rparr> }"

record usage_updated =
  uu_prompt_tokens :: "64 word"
  uu_completion_tokens :: "64 word"
  uu_total_tokens :: "64 word"
  uu_cost_usd :: "(64 word) option"

definition usage_updated_json :: "usage_updated \<Rightarrow> json" where
  "usage_updated_json r = JObject [
     (''promptTokens'', u64_json (uu_prompt_tokens r)),
     (''completionTokens'', u64_json (uu_completion_tokens r)),
     (''totalTokens'', u64_json (uu_total_tokens r)),
     (''costUsd'', opt_json f64_json (uu_cost_usd r))]"

definition d_usage_updated :: "json \<Rightarrow> usage_updated option" where
  "d_usage_updated j = do {
     obj \<leftarrow> d_struct
       [''promptTokens'', ''completionTokens'', ''totalTokens'', ''costUsd''] j;
     prompt_tokens \<leftarrow> req d_u64 ''promptTokens'' obj;
     completion_tokens \<leftarrow> req d_u64 ''completionTokens'' obj;
     total_tokens \<leftarrow> req d_u64 ''totalTokens'' obj;
     cost_usd \<leftarrow> opt d_f64 ''costUsd'' obj;
     Some \<lparr>uu_prompt_tokens = prompt_tokens, uu_completion_tokens = completion_tokens,
       uu_total_tokens = total_tokens, uu_cost_usd = cost_usd\<rparr> }"

record budget_event =
  be_window :: string
  be_spend_usd :: "64 word"
  be_limit_usd :: "64 word"
  be_percent :: "64 word"

definition budget_event_json :: "budget_event \<Rightarrow> json" where
  "budget_event_json r = JObject [
     (''window'', JString (be_window r)),
     (''spendUsd'', f64_json (be_spend_usd r)),
     (''limitUsd'', f64_json (be_limit_usd r)),
     (''percent'', f64_json (be_percent r))]"

definition d_budget_event :: "json \<Rightarrow> budget_event option" where
  "d_budget_event j = do {
     obj \<leftarrow> d_struct
       [''window'', ''spendUsd'', ''limitUsd'', ''percent''] j;
     window \<leftarrow> req d_string ''window'' obj;
     spend_usd \<leftarrow> req d_f64 ''spendUsd'' obj;
     limit_usd \<leftarrow> req d_f64 ''limitUsd'' obj;
     percent \<leftarrow> req d_f64 ''percent'' obj;
     Some \<lparr>be_window = window, be_spend_usd = spend_usd, be_limit_usd = limit_usd,
       be_percent = percent\<rparr> }"

record subagent_event =
  sa_subagent_run_id :: string
  sa_name :: "string option"
  sa_status :: string
  sa_summary :: "string option"
  sa_error :: "string option"

definition subagent_event_json :: "subagent_event \<Rightarrow> json" where
  "subagent_event_json r = JObject [
     (''subagentRunId'', JString (sa_subagent_run_id r)),
     (''name'', opt_json JString (sa_name r)),
     (''status'', JString (sa_status r)),
     (''summary'', opt_json JString (sa_summary r)),
     (''error'', opt_json JString (sa_error r))]"

definition d_subagent_event :: "json \<Rightarrow> subagent_event option" where
  "d_subagent_event j = do {
     obj \<leftarrow> d_struct
       [''subagentRunId'', ''name'', ''status'', ''summary'', ''error''] j;
     subagent_run_id \<leftarrow> req d_string ''subagentRunId'' obj;
     name \<leftarrow> opt d_string ''name'' obj;
     status \<leftarrow> req d_string ''status'' obj;
     summary \<leftarrow> opt d_string ''summary'' obj;
     error \<leftarrow> opt d_string ''error'' obj;
     Some \<lparr>sa_subagent_run_id = subagent_run_id, sa_name = name, sa_status = status,
       sa_summary = summary, sa_error = error\<rparr> }"

record subagent_progress =
  sp_subagent_run_id :: string
  sp_message :: string
  sp_percent :: "(64 word) option"

definition subagent_progress_json :: "subagent_progress \<Rightarrow> json" where
  "subagent_progress_json r = JObject [
     (''subagentRunId'', JString (sp_subagent_run_id r)),
     (''message'', JString (sp_message r)),
     (''percent'', opt_json f64_json (sp_percent r))]"

definition d_subagent_progress :: "json \<Rightarrow> subagent_progress option" where
  "d_subagent_progress j = do {
     obj \<leftarrow> d_struct
       [''subagentRunId'', ''message'', ''percent''] j;
     subagent_run_id \<leftarrow> req d_string ''subagentRunId'' obj;
     message \<leftarrow> req d_string ''message'' obj;
     percent \<leftarrow> opt d_f64 ''percent'' obj;
     Some \<lparr>sp_subagent_run_id = subagent_run_id, sp_message = message,
       sp_percent = percent\<rparr> }"

record worker_event =
  we_worker_id :: string
  we_attempt :: "32 word"
  we_code :: "string option"

definition worker_event_json :: "worker_event \<Rightarrow> json" where
  "worker_event_json r = JObject [
     (''workerId'', JString (we_worker_id r)),
     (''attempt'', u32_json (we_attempt r)),
     (''code'', opt_json JString (we_code r))]"

definition d_worker_event :: "json \<Rightarrow> worker_event option" where
  "d_worker_event j = do {
     obj \<leftarrow> d_struct
       [''workerId'', ''attempt'', ''code''] j;
     worker_id \<leftarrow> req d_string ''workerId'' obj;
     attempt \<leftarrow> req d_u32 ''attempt'' obj;
     code \<leftarrow> opt d_string ''code'' obj;
     Some \<lparr>we_worker_id = worker_id, we_attempt = attempt, we_code = code\<rparr> }"

record plugin_status_event =
  pe_plugin_id :: string
  pe_status :: string
  pe_code :: "string option"

definition plugin_status_event_json :: "plugin_status_event \<Rightarrow> json" where
  "plugin_status_event_json r = JObject [
     (''pluginId'', JString (pe_plugin_id r)),
     (''status'', JString (pe_status r)),
     (''code'', opt_json JString (pe_code r))]"

definition d_plugin_status_event :: "json \<Rightarrow> plugin_status_event option" where
  "d_plugin_status_event j = do {
     obj \<leftarrow> d_struct
       [''pluginId'', ''status'', ''code''] j;
     plugin_id \<leftarrow> req d_string ''pluginId'' obj;
     status \<leftarrow> req d_string ''status'' obj;
     code \<leftarrow> opt d_string ''code'' obj;
     Some \<lparr>pe_plugin_id = plugin_id, pe_status = status, pe_code = code\<rparr> }"

record research_stage =
  rg_stage :: string
  rg_message :: "string option"
  rg_progress :: "(64 word) option"

definition research_stage_json :: "research_stage \<Rightarrow> json" where
  "research_stage_json r = JObject [
     (''stage'', JString (rg_stage r)),
     (''message'', opt_json JString (rg_message r)),
     (''progress'', opt_json f64_json (rg_progress r))]"

definition d_research_stage :: "json \<Rightarrow> research_stage option" where
  "d_research_stage j = do {
     obj \<leftarrow> d_struct
       [''stage'', ''message'', ''progress''] j;
     stage \<leftarrow> req d_string ''stage'' obj;
     message \<leftarrow> opt d_string ''message'' obj;
     progress \<leftarrow> opt d_f64 ''progress'' obj;
     Some \<lparr>rg_stage = stage, rg_message = message, rg_progress = progress\<rparr> }"

record research_started =
  rd_research_run_id :: string

definition research_started_json :: "research_started \<Rightarrow> json" where
  "research_started_json r = JObject [
     (''researchRunId'', JString (rd_research_run_id r))]"

definition d_research_started :: "json \<Rightarrow> research_started option" where
  "d_research_started j = do {
     obj \<leftarrow> d_struct
       [''researchRunId''] j;
     research_run_id \<leftarrow> req d_string ''researchRunId'' obj;
     Some \<lparr>rd_research_run_id = research_run_id\<rparr> }"

record research_source =
  ro_url :: string
  ro_title :: "string option"
  ro_snippet :: "string option"
  ro_confidence :: "string option"

definition research_source_json :: "research_source \<Rightarrow> json" where
  "research_source_json r = JObject [
     (''url'', JString (ro_url r)),
     (''title'', opt_json JString (ro_title r)),
     (''snippet'', opt_json JString (ro_snippet r)),
     (''confidence'', opt_json JString (ro_confidence r))]"

definition d_research_source :: "json \<Rightarrow> research_source option" where
  "d_research_source j = do {
     obj \<leftarrow> d_struct
       [''url'', ''title'', ''snippet'', ''confidence''] j;
     url \<leftarrow> req d_string ''url'' obj;
     title \<leftarrow> opt d_string ''title'' obj;
     snippet \<leftarrow> opt d_string ''snippet'' obj;
     confidence \<leftarrow> opt d_string ''confidence'' obj;
     Some \<lparr>ro_url = url, ro_title = title, ro_snippet = snippet,
       ro_confidence = confidence\<rparr> }"

record research_subquestion =
  rq_index :: "32 word"
  rq_question :: string
  rq_status :: string

definition research_subquestion_json :: "research_subquestion \<Rightarrow> json" where
  "research_subquestion_json r = JObject [
     (''index'', u32_json (rq_index r)),
     (''question'', JString (rq_question r)),
     (''status'', JString (rq_status r))]"

definition d_research_subquestion :: "json \<Rightarrow> research_subquestion option" where
  "d_research_subquestion j = do {
     obj \<leftarrow> d_struct
       [''index'', ''question'', ''status''] j;
     index \<leftarrow> req d_u32 ''index'' obj;
     question \<leftarrow> req d_string ''question'' obj;
     status \<leftarrow> req d_string ''status'' obj;
     Some \<lparr>rq_index = index, rq_question = question, rq_status = status\<rparr> }"

record research_terminal =
  rm_artifact_id :: "string option"
  rm_source_count :: "32 word"
  rm_error :: "string option"

definition research_terminal_json :: "research_terminal \<Rightarrow> json" where
  "research_terminal_json r = JObject [
     (''artifactId'', opt_json JString (rm_artifact_id r)),
     (''sourceCount'', u32_json (rm_source_count r)),
     (''error'', opt_json JString (rm_error r))]"

definition d_research_terminal :: "json \<Rightarrow> research_terminal option" where
  "d_research_terminal j = do {
     obj \<leftarrow> d_struct
       [''artifactId'', ''sourceCount'', ''error''] j;
     artifact_id \<leftarrow> opt d_string ''artifactId'' obj;
     source_count \<leftarrow> req d_u32 ''sourceCount'' obj;
     error \<leftarrow> opt d_string ''error'' obj;
     Some \<lparr>rm_artifact_id = artifact_id, rm_source_count = source_count,
       rm_error = error\<rparr> }"

section \<open>Round trips\<close>

declare d_list_map [codec]

lemma d_approval_outcome_json [codec]: "d_approval_outcome (approval_outcome_json d) = Some d"
  by (cases d) (simp_all add: d_approval_outcome_def approval_outcome_json_def codec)

lemma d_plan_progress_status_json [codec]:
  "d_plan_progress_status (plan_progress_status_json d) = Some d"
  by (cases d) (simp_all add: d_plan_progress_status_def plan_progress_status_json_def codec)

lemma d_policy_rule_record_json [codec]:
  "d_policy_rule_record (policy_rule_record_json r) = Some r"
  by (simp add: d_policy_rule_record_def policy_rule_record_json_def reading codec)

lemma d_opt_policy_rule_record [codec]:
  "d_opt d_policy_rule_record (opt_json policy_rule_record_json x) = Some x"
  by (rule d_opt_json) (simp add: codec, simp add: policy_rule_record_json_def)

lemma d_session_event_json [codec]:
  "d_session_event (session_event_json r) = Some r"
  by (simp add: d_session_event_def session_event_json_def reading codec)

lemma d_session_compacted_json [codec]:
  "d_session_compacted (session_compacted_json r) = Some r"
  by (simp add: d_session_compacted_def session_compacted_json_def reading codec)

lemma d_run_started_json [codec]:
  "d_run_started (run_started_json r) = Some r"
  by (simp add: d_run_started_def run_started_json_def reading codec)

lemma d_run_terminal_json [codec]:
  "d_run_terminal (run_terminal_json r) = Some r"
  by (simp add: d_run_terminal_def run_terminal_json_def reading codec)

lemma d_run_rewound_json [codec]:
  "d_run_rewound (run_rewound_json r) = Some r"
  by (simp add: d_run_rewound_def run_rewound_json_def reading codec)

lemma d_tool_requested_json [codec]:
  "d_tool_requested (tool_requested_json r) = Some r"
  by (simp add: d_tool_requested_def tool_requested_json_def reading codec)

lemma d_item_event_json [codec]:
  "d_item_event (item_event_json r) = Some r"
  by (simp add: d_item_event_def item_event_json_def reading codec)

lemma d_text_delta_json [codec]:
  "d_text_delta (text_delta_json r) = Some r"
  by (simp add: d_text_delta_def text_delta_json_def reading codec)

lemma d_tool_approval_required_json [codec]:
  "d_tool_approval_required (tool_approval_required_json r) = Some r"
  by (simp add: d_tool_approval_required_def tool_approval_required_json_def reading codec)

lemma d_tool_approval_resolved_json [codec]:
  "d_tool_approval_resolved (tool_approval_resolved_json r) = Some r"
  by (simp add: d_tool_approval_resolved_def tool_approval_resolved_json_def reading codec)

lemma d_tool_lifecycle_json [codec]:
  "d_tool_lifecycle (tool_lifecycle_json r) = Some r"
  by (simp add: d_tool_lifecycle_def tool_lifecycle_json_def reading codec)

lemma d_tool_completed_json [codec]:
  "d_tool_completed (tool_completed_json r) = Some r"
  by (simp add: d_tool_completed_def tool_completed_json_def reading codec)

lemma d_tool_failed_json [codec]:
  "d_tool_failed (tool_failed_json r) = Some r"
  by (simp add: d_tool_failed_def tool_failed_json_def reading codec)

lemma d_plan_step_json [codec]:
  "d_plan_step (plan_step_json r) = Some r"
  by (simp add: d_plan_step_def plan_step_json_def reading codec)

lemma d_plan_created_json [codec]:
  "d_plan_created (plan_created_json r) = Some r"
  by (simp add: d_plan_created_def plan_created_json_def reading codec)

lemma d_plan_progress_json [codec]:
  "d_plan_progress (plan_progress_json r) = Some r"
  by (simp add: d_plan_progress_def plan_progress_json_def reading codec)

lemma d_artifact_created_json [codec]:
  "d_artifact_created (artifact_created_json r) = Some r"
  by (simp add: d_artifact_created_def artifact_created_json_def reading codec)

lemma d_usage_updated_json [codec]:
  "pred_option f64_finite (uu_cost_usd r) \<Longrightarrow> d_usage_updated (usage_updated_json r) = Some r"
  by (simp add: d_usage_updated_def usage_updated_json_def reading codec)

lemma d_budget_event_json [codec]:
  "f64_finite (be_spend_usd r) \<Longrightarrow> f64_finite (be_limit_usd r) \<Longrightarrow> f64_finite (be_percent r) \<Longrightarrow> d_budget_event (budget_event_json r) = Some r"
  by (simp add: d_budget_event_def budget_event_json_def reading codec)

lemma d_subagent_event_json [codec]:
  "d_subagent_event (subagent_event_json r) = Some r"
  by (simp add: d_subagent_event_def subagent_event_json_def reading codec)

lemma d_subagent_progress_json [codec]:
  "pred_option f64_finite (sp_percent r) \<Longrightarrow> d_subagent_progress (subagent_progress_json r) = Some r"
  by (simp add: d_subagent_progress_def subagent_progress_json_def reading codec)

lemma d_worker_event_json [codec]:
  "d_worker_event (worker_event_json r) = Some r"
  by (simp add: d_worker_event_def worker_event_json_def reading codec)

lemma d_plugin_status_event_json [codec]:
  "d_plugin_status_event (plugin_status_event_json r) = Some r"
  by (simp add: d_plugin_status_event_def plugin_status_event_json_def reading codec)

lemma d_research_stage_json [codec]:
  "pred_option f64_finite (rg_progress r) \<Longrightarrow> d_research_stage (research_stage_json r) = Some r"
  by (simp add: d_research_stage_def research_stage_json_def reading codec)

lemma d_research_started_json [codec]:
  "d_research_started (research_started_json r) = Some r"
  by (simp add: d_research_started_def research_started_json_def reading codec)

lemma d_research_source_json [codec]:
  "d_research_source (research_source_json r) = Some r"
  by (simp add: d_research_source_def research_source_json_def reading codec)

lemma d_research_subquestion_json [codec]:
  "d_research_subquestion (research_subquestion_json r) = Some r"
  by (simp add: d_research_subquestion_def research_subquestion_json_def reading codec)

lemma d_research_terminal_json [codec]:
  "d_research_terminal (research_terminal_json r) = Some r"
  by (simp add: d_research_terminal_def research_terminal_json_def reading codec)

end
