(* ===== verification/Protocol_Events.thy ===== *)
theory Protocol_Events
  imports Protocol_Payloads
begin

text \<open>
  \<open>CanonicalEvent\<close> and \<open>EventEnvelope\<close> of
  \<open>crates/cool-protocol/src/lib.rs\<close>, adjacently tagged on the wire by
  \<open>kind\<close> and \<open>payload\<close>. The only schema version is 1, so the record
  of an envelope does not carry it: the writer emits it and the reader insists on it.
\<close>

section \<open>Canonical events\<close>

datatype canonical_event =
    SessionCreated session_event
  | SessionUpdated session_event
  | SessionCompacted session_compacted
  | RunStarted run_started
  | RunCompleted run_terminal
  | RunFailed run_terminal
  | RunCancelled run_terminal
  | RunRewound run_rewound
  | ItemStarted item_event
  | ItemUpdated item_event
  | ItemCompleted item_event
  | ContentDelta text_delta
  | ReasoningDelta text_delta
  | ToolRequested tool_requested
  | ToolApprovalRequired tool_approval_required
  | ToolApprovalResolved tool_approval_resolved
  | ToolStarted tool_lifecycle
  | ToolCompleted tool_completed
  | ToolFailed tool_failed
  | PlanCreated plan_created
  | PlanStepStarted plan_step
  | PlanStepCompleted plan_step
  | PlanProgress plan_progress
  | ArtifactCreated artifact_created
  | UsageUpdated usage_updated
  | BudgetWarning budget_event
  | BudgetExceeded budget_event
  | SubagentStarted subagent_event
  | SubagentProgress subagent_progress
  | SubagentCompleted subagent_event
  | SubagentFailed subagent_event
  | WorkerStarted worker_event
  | WorkerFailed worker_event
  | WorkerRestarted worker_event
  | PluginStatus plugin_status_event
  | ResearchStage research_stage
  | ResearchStarted research_started
  | ResearchSourceFound research_source
  | ResearchSubquestionStarted research_subquestion
  | ResearchSubquestionCompleted research_subquestion
  | ResearchCompleted research_terminal
  | ResearchFailed research_terminal
  | ResearchCancelled research_terminal

primrec event_tag :: "canonical_event \<Rightarrow> string" where
  "event_tag (SessionCreated p) = ''session.created''"
| "event_tag (SessionUpdated p) = ''session.updated''"
| "event_tag (SessionCompacted p) = ''session.compacted''"
| "event_tag (RunStarted p) = ''run.started''"
| "event_tag (RunCompleted p) = ''run.completed''"
| "event_tag (RunFailed p) = ''run.failed''"
| "event_tag (RunCancelled p) = ''run.cancelled''"
| "event_tag (RunRewound p) = ''run.rewound''"
| "event_tag (ItemStarted p) = ''item.started''"
| "event_tag (ItemUpdated p) = ''item.updated''"
| "event_tag (ItemCompleted p) = ''item.completed''"
| "event_tag (ContentDelta p) = ''content.delta''"
| "event_tag (ReasoningDelta p) = ''reasoning.delta''"
| "event_tag (ToolRequested p) = ''tool.requested''"
| "event_tag (ToolApprovalRequired p) = ''tool.approval_required''"
| "event_tag (ToolApprovalResolved p) = ''tool.approval_resolved''"
| "event_tag (ToolStarted p) = ''tool.started''"
| "event_tag (ToolCompleted p) = ''tool.completed''"
| "event_tag (ToolFailed p) = ''tool.failed''"
| "event_tag (PlanCreated p) = ''plan.created''"
| "event_tag (PlanStepStarted p) = ''plan.step_started''"
| "event_tag (PlanStepCompleted p) = ''plan.step_completed''"
| "event_tag (PlanProgress p) = ''plan.progress''"
| "event_tag (ArtifactCreated p) = ''artifact.created''"
| "event_tag (UsageUpdated p) = ''usage.updated''"
| "event_tag (BudgetWarning p) = ''budget.warning''"
| "event_tag (BudgetExceeded p) = ''budget.exceeded''"
| "event_tag (SubagentStarted p) = ''subagent.started''"
| "event_tag (SubagentProgress p) = ''subagent.progress''"
| "event_tag (SubagentCompleted p) = ''subagent.completed''"
| "event_tag (SubagentFailed p) = ''subagent.failed''"
| "event_tag (WorkerStarted p) = ''worker.started''"
| "event_tag (WorkerFailed p) = ''worker.failed''"
| "event_tag (WorkerRestarted p) = ''worker.restarted''"
| "event_tag (PluginStatus p) = ''plugin.status''"
| "event_tag (ResearchStage p) = ''research.stage''"
| "event_tag (ResearchStarted p) = ''research.started''"
| "event_tag (ResearchSourceFound p) = ''research.source_found''"
| "event_tag (ResearchSubquestionStarted p) = ''research.subquestion_started''"
| "event_tag (ResearchSubquestionCompleted p) = ''research.subquestion_completed''"
| "event_tag (ResearchCompleted p) = ''research.completed''"
| "event_tag (ResearchFailed p) = ''research.failed''"
| "event_tag (ResearchCancelled p) = ''research.cancelled''"

primrec payload_json :: "canonical_event \<Rightarrow> json" where
  "payload_json (SessionCreated p) = session_event_json p"
| "payload_json (SessionUpdated p) = session_event_json p"
| "payload_json (SessionCompacted p) = session_compacted_json p"
| "payload_json (RunStarted p) = run_started_json p"
| "payload_json (RunCompleted p) = run_terminal_json p"
| "payload_json (RunFailed p) = run_terminal_json p"
| "payload_json (RunCancelled p) = run_terminal_json p"
| "payload_json (RunRewound p) = run_rewound_json p"
| "payload_json (ItemStarted p) = item_event_json p"
| "payload_json (ItemUpdated p) = item_event_json p"
| "payload_json (ItemCompleted p) = item_event_json p"
| "payload_json (ContentDelta p) = text_delta_json p"
| "payload_json (ReasoningDelta p) = text_delta_json p"
| "payload_json (ToolRequested p) = tool_requested_json p"
| "payload_json (ToolApprovalRequired p) = tool_approval_required_json p"
| "payload_json (ToolApprovalResolved p) = tool_approval_resolved_json p"
| "payload_json (ToolStarted p) = tool_lifecycle_json p"
| "payload_json (ToolCompleted p) = tool_completed_json p"
| "payload_json (ToolFailed p) = tool_failed_json p"
| "payload_json (PlanCreated p) = plan_created_json p"
| "payload_json (PlanStepStarted p) = plan_step_json p"
| "payload_json (PlanStepCompleted p) = plan_step_json p"
| "payload_json (PlanProgress p) = plan_progress_json p"
| "payload_json (ArtifactCreated p) = artifact_created_json p"
| "payload_json (UsageUpdated p) = usage_updated_json p"
| "payload_json (BudgetWarning p) = budget_event_json p"
| "payload_json (BudgetExceeded p) = budget_event_json p"
| "payload_json (SubagentStarted p) = subagent_event_json p"
| "payload_json (SubagentProgress p) = subagent_progress_json p"
| "payload_json (SubagentCompleted p) = subagent_event_json p"
| "payload_json (SubagentFailed p) = subagent_event_json p"
| "payload_json (WorkerStarted p) = worker_event_json p"
| "payload_json (WorkerFailed p) = worker_event_json p"
| "payload_json (WorkerRestarted p) = worker_event_json p"
| "payload_json (PluginStatus p) = plugin_status_event_json p"
| "payload_json (ResearchStage p) = research_stage_json p"
| "payload_json (ResearchStarted p) = research_started_json p"
| "payload_json (ResearchSourceFound p) = research_source_json p"
| "payload_json (ResearchSubquestionStarted p) = research_subquestion_json p"
| "payload_json (ResearchSubquestionCompleted p) = research_subquestion_json p"
| "payload_json (ResearchCompleted p) = research_terminal_json p"
| "payload_json (ResearchFailed p) = research_terminal_json p"
| "payload_json (ResearchCancelled p) = research_terminal_json p"

definition event_json :: "canonical_event \<Rightarrow> json" where
  "event_json e = JObject [(''kind'', JString (event_tag e)), (''payload'', payload_json e)]"

definition d_tagged :: "string \<Rightarrow> json \<Rightarrow> canonical_event option" where
  "d_tagged tag j =
     (if tag = ''session.created'' then map_option SessionCreated (d_session_event j)
      else if tag = ''session.updated'' then map_option SessionUpdated (d_session_event j)
      else if tag = ''session.compacted'' then map_option SessionCompacted (d_session_compacted j)
      else if tag = ''run.started'' then map_option RunStarted (d_run_started j)
      else if tag = ''run.completed'' then map_option RunCompleted (d_run_terminal j)
      else if tag = ''run.failed'' then map_option RunFailed (d_run_terminal j)
      else if tag = ''run.cancelled'' then map_option RunCancelled (d_run_terminal j)
      else if tag = ''run.rewound'' then map_option RunRewound (d_run_rewound j)
      else if tag = ''item.started'' then map_option ItemStarted (d_item_event j)
      else if tag = ''item.updated'' then map_option ItemUpdated (d_item_event j)
      else if tag = ''item.completed'' then map_option ItemCompleted (d_item_event j)
      else if tag = ''content.delta'' then map_option ContentDelta (d_text_delta j)
      else if tag = ''reasoning.delta'' then map_option ReasoningDelta (d_text_delta j)
      else if tag = ''tool.requested'' then map_option ToolRequested (d_tool_requested j)
      else if tag = ''tool.approval_required'' then map_option ToolApprovalRequired (d_tool_approval_required j)
      else if tag = ''tool.approval_resolved'' then map_option ToolApprovalResolved (d_tool_approval_resolved j)
      else if tag = ''tool.started'' then map_option ToolStarted (d_tool_lifecycle j)
      else if tag = ''tool.completed'' then map_option ToolCompleted (d_tool_completed j)
      else if tag = ''tool.failed'' then map_option ToolFailed (d_tool_failed j)
      else if tag = ''plan.created'' then map_option PlanCreated (d_plan_created j)
      else if tag = ''plan.step_started'' then map_option PlanStepStarted (d_plan_step j)
      else if tag = ''plan.step_completed'' then map_option PlanStepCompleted (d_plan_step j)
      else if tag = ''plan.progress'' then map_option PlanProgress (d_plan_progress j)
      else if tag = ''artifact.created'' then map_option ArtifactCreated (d_artifact_created j)
      else if tag = ''usage.updated'' then map_option UsageUpdated (d_usage_updated j)
      else if tag = ''budget.warning'' then map_option BudgetWarning (d_budget_event j)
      else if tag = ''budget.exceeded'' then map_option BudgetExceeded (d_budget_event j)
      else if tag = ''subagent.started'' then map_option SubagentStarted (d_subagent_event j)
      else if tag = ''subagent.progress'' then map_option SubagentProgress (d_subagent_progress j)
      else if tag = ''subagent.completed'' then map_option SubagentCompleted (d_subagent_event j)
      else if tag = ''subagent.failed'' then map_option SubagentFailed (d_subagent_event j)
      else if tag = ''worker.started'' then map_option WorkerStarted (d_worker_event j)
      else if tag = ''worker.failed'' then map_option WorkerFailed (d_worker_event j)
      else if tag = ''worker.restarted'' then map_option WorkerRestarted (d_worker_event j)
      else if tag = ''plugin.status'' then map_option PluginStatus (d_plugin_status_event j)
      else if tag = ''research.stage'' then map_option ResearchStage (d_research_stage j)
      else if tag = ''research.started'' then map_option ResearchStarted (d_research_started j)
      else if tag = ''research.source_found'' then map_option ResearchSourceFound (d_research_source j)
      else if tag = ''research.subquestion_started'' then map_option ResearchSubquestionStarted (d_research_subquestion j)
      else if tag = ''research.subquestion_completed'' then map_option ResearchSubquestionCompleted (d_research_subquestion j)
      else if tag = ''research.completed'' then map_option ResearchCompleted (d_research_terminal j)
      else if tag = ''research.failed'' then map_option ResearchFailed (d_research_terminal j)
      else if tag = ''research.cancelled'' then map_option ResearchCancelled (d_research_terminal j)
      else None)"

definition d_event :: "json \<Rightarrow> canonical_event option" where
  "d_event j = do {
     obj \<leftarrow> d_struct [''kind'', ''payload''] j;
     tag \<leftarrow> req d_string ''kind'' obj;
     payload \<leftarrow> req Some ''payload'' obj;
     d_tagged tag payload }"

section \<open>Envelopes\<close>

datatype actor_kind = LocalUser | ServerUser | TelegramUser | System | Worker

definition actor_kind_json :: "actor_kind \<Rightarrow> json" where
  "actor_kind_json k = JString (case k of
     LocalUser \<Rightarrow> ''local_user'' | ServerUser \<Rightarrow> ''server_user''
   | TelegramUser \<Rightarrow> ''telegram_user'' | System \<Rightarrow> ''system'' | Worker \<Rightarrow> ''worker'')"

definition d_actor_kind :: "json \<Rightarrow> actor_kind option" where
  "d_actor_kind j = do {
     s \<leftarrow> d_string j;
     if s = ''local_user'' then Some LocalUser
     else if s = ''server_user'' then Some ServerUser
     else if s = ''telegram_user'' then Some TelegramUser
     else if s = ''system'' then Some System
     else if s = ''worker'' then Some Worker
     else None }"

record actor_ref =
  ar_id :: string
  ar_kind :: actor_kind

definition actor_ref_json :: "actor_ref \<Rightarrow> json" where
  "actor_ref_json a = JObject [(''id'', JString (ar_id a)), (''kind'', actor_kind_json (ar_kind a))]"

definition d_actor_ref :: "json \<Rightarrow> actor_ref option" where
  "d_actor_ref j = do {
     obj \<leftarrow> d_struct [''id'', ''kind''] j;
     ident \<leftarrow> req d_string ''id'' obj;
     kind \<leftarrow> req d_actor_kind ''kind'' obj;
     Some \<lparr>ar_id = ident, ar_kind = kind\<rparr> }"

text \<open>\<open>V1Version\<close>\<close>

definition version_json :: json where "version_json = u32_json 1"

definition d_version :: "json \<Rightarrow> unit option" where
  "d_version j = do { version \<leftarrow> d_u32 j; if version = 1 then Some () else None }"

record event_envelope =
  ee_event_id :: string
  ee_session_id :: string
  ee_run_id :: string
  ee_item_id :: "string option"
  ee_seq :: "64 word"
  ee_occurred_at :: string
  ee_actor :: actor_ref
  ee_source :: string
  ee_causation_id :: "string option"
  ee_correlation_id :: "string option"
  ee_event :: canonical_event
  ee_extensions :: json_map

definition envelope_json :: "event_envelope \<Rightarrow> json" where
  "envelope_json e = JObject ([
     (''eventId'', JString (ee_event_id e)),
     (''schemaVersion'', version_json),
     (''sessionId'', JString (ee_session_id e)),
     (''runId'', JString (ee_run_id e)),
     (''itemId'', opt_json JString (ee_item_id e)),
     (''seq'', u64_json (ee_seq e)),
     (''occurredAt'', JString (ee_occurred_at e)),
     (''actor'', actor_ref_json (ee_actor e)),
     (''source'', JString (ee_source e)),
     (''causationId'', opt_json JString (ee_causation_id e)),
     (''correlationId'', opt_json JString (ee_correlation_id e)),
     (''event'', event_json (ee_event e))] @
     (if ee_extensions e = [] then [] else [(''extensions'', JObject (ee_extensions e))]))"

definition d_envelope :: "json \<Rightarrow> event_envelope option" where
  "d_envelope j = do {
     obj \<leftarrow> d_struct [''eventId'', ''schemaVersion'', ''sessionId'', ''runId'', ''itemId'', ''seq'',
       ''occurredAt'', ''actor'', ''source'', ''causationId'', ''correlationId'', ''event'', ''extensions''] j;
     event_id \<leftarrow> req d_string ''eventId'' obj;
     version \<leftarrow> req d_version ''schemaVersion'' obj;
     session_id \<leftarrow> req d_string ''sessionId'' obj;
     run_id \<leftarrow> req d_string ''runId'' obj;
     item_id \<leftarrow> opt d_string ''itemId'' obj;
     seq \<leftarrow> req d_u64 ''seq'' obj;
     occurred_at \<leftarrow> req d_string ''occurredAt'' obj;
     actor \<leftarrow> req d_actor_ref ''actor'' obj;
     source \<leftarrow> req d_string ''source'' obj;
     causation_id \<leftarrow> opt d_string ''causationId'' obj;
     correlation_id \<leftarrow> opt d_string ''correlationId'' obj;
     event \<leftarrow> req d_event ''event'' obj;
     extensions \<leftarrow> dflt [] d_map ''extensions'' obj;
     Some \<lparr>ee_event_id = event_id, ee_session_id = session_id, ee_run_id = run_id,
       ee_item_id = item_id, ee_seq = seq, ee_occurred_at = occurred_at, ee_actor = actor,
       ee_source = source, ee_causation_id = causation_id, ee_correlation_id = correlation_id,
       ee_event = event, ee_extensions = extensions\<rparr> }"

section \<open>Round trips\<close>

text \<open>
  What the writer can represent: every \<open>f64\<close> of the payload is finite (serde_json
  writes any other as null).
\<close>

fun event_finite :: "canonical_event \<Rightarrow> bool" where
  "event_finite (UsageUpdated p) = pred_option f64_finite (uu_cost_usd p)"
| "event_finite (BudgetWarning p) =
     (f64_finite (be_spend_usd p) \<and> f64_finite (be_limit_usd p) \<and> f64_finite (be_percent p))"
| "event_finite (BudgetExceeded p) =
     (f64_finite (be_spend_usd p) \<and> f64_finite (be_limit_usd p) \<and> f64_finite (be_percent p))"
| "event_finite (SubagentProgress p) = pred_option f64_finite (sp_percent p)"
| "event_finite (ResearchStage p) = pred_option f64_finite (rg_progress p)"
| "event_finite _ = True"

lemma d_actor_kind_json [codec]: "d_actor_kind (actor_kind_json k) = Some k"
  by (cases k) (simp_all add: d_actor_kind_def actor_kind_json_def codec)

lemma d_actor_ref_json [codec]: "d_actor_ref (actor_ref_json a) = Some a"
  by (simp add: d_actor_ref_def actor_ref_json_def reading codec)

lemma d_version_json [codec]: "d_version version_json = Some ()"
  by (simp add: d_version_def version_json_def codec)

lemma d_tagged_event: "event_finite e \<Longrightarrow> d_tagged (event_tag e) (payload_json e) = Some e"
  by (cases e) (simp_all add: d_tagged_def codec)

lemma d_event_json [codec]: "event_finite e \<Longrightarrow> d_event (event_json e) = Some e"
  by (simp add: d_event_def event_json_def reading codec d_tagged_event)

lemma d_envelope_json [codec]:
  "event_finite (ee_event e) \<Longrightarrow> d_envelope (envelope_json e) = Some e"
  by (simp add: d_envelope_def envelope_json_def reading codec)

text \<open>
  Property C24. The writer and the strict reader of event envelopes are inverse: an envelope
  whose floats are finite reads back as itself, and two such envelopes with the same
  document are equal, so a document identifies its envelope.
\<close>

theorem envelope_round_trip:
  assumes "event_finite (ee_event e)" "event_finite (ee_event e')"
  shows "d_envelope (envelope_json e) = Some e \<and> (envelope_json e = envelope_json e' \<longrightarrow> e = e')"
proof -
  have e: "d_envelope (envelope_json e) = Some e" by (rule d_envelope_json) (rule assms)
  have e': "d_envelope (envelope_json e') = Some e'" by (rule d_envelope_json) (rule assms)
  have "e = e'" if "envelope_json e = envelope_json e'"
  proof -
    have "Some e = d_envelope (envelope_json e)" by (rule e [symmetric])
    also have "\<dots> = d_envelope (envelope_json e')" by (rule arg_cong [OF that])
    also have "\<dots> = Some e'" by (rule e')
    finally show ?thesis by (rule option.inject [THEN iffD1])
  qed
  with e show ?thesis by iprover
qed

definition sample_envelope :: event_envelope where
  "sample_envelope = \<lparr>ee_event_id = ''event-1'', ee_session_id = ''s'', ee_run_id = ''r'', ee_item_id = None,
     ee_seq = 1, ee_occurred_at = ''t'', ee_actor = \<lparr>ar_id = ''cool-core'', ar_kind = System\<rparr>,
     ee_source = ''test'', ee_causation_id = Some ''c'', ee_correlation_id = None,
     ee_event = RunStarted \<lparr>rs_model = None, rs_mode = Some ''fork''\<rparr>,
     ee_extensions = [(''k'', JBool True)]\<rparr>"

theorem envelope_round_trip_witness:
  "event_finite (ee_event sample_envelope) \<and>
   d_envelope (envelope_json sample_envelope) = Some sample_envelope"
proof -
  have "event_finite (ee_event sample_envelope)" by (simp add: sample_envelope_def)
  with envelope_round_trip [OF this this] show ?thesis by blast
qed

end
