(* ===== verification/Event_Masking.thy ===== *)
theory Event_Masking
  imports Protocol_Events
begin

text \<open>
  What \<open>mask_json\<close> does to the document of an envelope before it is read back
  (\<open>masked_envelope\<close> of \<open>crates/cool-state/src/lib.rs\<close>): it maps the
  texts of the payload and leaves numbers, tags and the shape alone, provided the patterns
  leave the fixed words of the wire format alone.
\<close>

named_theorems masking \<open>reading back what was written and masked\<close>

definition wire_words :: "string list" where
  "wire_words = [''approved'', ''denied'', ''timed_out'', ''executing'', ''completed'', ''failed'',
     ''local_user'', ''server_user'', ''telegram_user'', ''system'', ''worker'',
     ''session.created'', ''session.updated'', ''session.compacted'', ''run.started'',
     ''run.completed'', ''run.failed'', ''run.cancelled'', ''run.rewound'', ''item.started'',
     ''item.updated'', ''item.completed'', ''content.delta'', ''reasoning.delta'',
     ''tool.requested'', ''tool.approval_required'', ''tool.approval_resolved'',
     ''tool.started'', ''tool.completed'', ''tool.failed'', ''plan.created'',
     ''plan.step_started'', ''plan.step_completed'', ''plan.progress'', ''artifact.created'',
     ''usage.updated'', ''budget.warning'', ''budget.exceeded'', ''subagent.started'',
     ''subagent.progress'', ''subagent.completed'', ''subagent.failed'', ''worker.started'',
     ''worker.failed'', ''worker.restarted'', ''plugin.status'', ''research.stage'',
     ''research.started'', ''research.source_found'', ''research.subquestion_started'',
     ''research.subquestion_completed'', ''research.completed'', ''research.failed'',
     ''research.cancelled'']"

definition wire_fixed :: "(string \<Rightarrow> string) \<Rightarrow> bool" where
  "wire_fixed ms \<longleftrightarrow> (\<forall>w \<in> set wire_words. ms w = w)"

section \<open>The masked payloads\<close>

definition mask_policy_rule_record :: "(string \<Rightarrow> string) \<Rightarrow> policy_rule_record \<Rightarrow> policy_rule_record" where
  "mask_policy_rule_record ms r = r\<lparr>prr_id := map_option ms (prr_id r),
    prr_tool := ms (prr_tool r), prr_kind := ms (prr_kind r),
      prr_pattern := ms (prr_pattern r), prr_decision := ms (prr_decision r),
        prr_scope := ms (prr_scope r), prr_note := map_option ms (prr_note r)\<rparr>"

definition mask_session_event :: "(string \<Rightarrow> string) \<Rightarrow> session_event \<Rightarrow> session_event" where
  "mask_session_event ms r = r\<lparr>se_title := map_option ms (se_title r),
    se_project_key := map_option ms (se_project_key r)\<rparr>"

definition mask_session_compacted :: "(string \<Rightarrow> string) \<Rightarrow> session_compacted \<Rightarrow> session_compacted" where
  "mask_session_compacted ms r = r\<lparr>sc_summary_item_id := map_option ms (sc_summary_item_id r), sc_summary := map_option ms (sc_summary r)\<rparr>"

definition mask_run_started :: "(string \<Rightarrow> string) \<Rightarrow> run_started \<Rightarrow> run_started" where
  "mask_run_started ms r = r\<lparr>rs_model := map_option ms (rs_model r),
    rs_mode := map_option ms (rs_mode r)\<rparr>"

definition mask_run_terminal :: "(string \<Rightarrow> string) \<Rightarrow> run_terminal \<Rightarrow> run_terminal" where
  "mask_run_terminal ms r = r\<lparr>rt_reason := ms (rt_reason r),
    rt_error_code := map_option ms (rt_error_code r)\<rparr>"

definition mask_run_rewound :: "(string \<Rightarrow> string) \<Rightarrow> run_rewound \<Rightarrow> run_rewound" where
  "mask_run_rewound ms r = r\<lparr>rr_reason := map_option ms (rr_reason r)\<rparr>"

definition mask_tool_requested :: "(string \<Rightarrow> string) \<Rightarrow> tool_requested \<Rightarrow> tool_requested" where
  "mask_tool_requested ms r = r\<lparr>tr_call_id := ms (tr_call_id r),
    tr_name := ms (tr_name r), tr_arguments := mask_map ms (tr_arguments r)\<rparr>"

definition mask_item_event :: "(string \<Rightarrow> string) \<Rightarrow> item_event \<Rightarrow> item_event" where
  "mask_item_event ms r = r\<lparr>ie_role := map_option ms (ie_role r),
    ie_content := map_option ms (ie_content r),
      ie_tool_calls := map (mask_tool_requested ms) (ie_tool_calls r)\<rparr>"

definition mask_text_delta :: "(string \<Rightarrow> string) \<Rightarrow> text_delta \<Rightarrow> text_delta" where
  "mask_text_delta ms r = r\<lparr>td_text := ms (td_text r),
    td_channel := map_option ms (td_channel r)\<rparr>"

definition mask_tool_approval_required :: "(string \<Rightarrow> string) \<Rightarrow> tool_approval_required \<Rightarrow> tool_approval_required" where
  "mask_tool_approval_required ms r = r\<lparr>ta_call_id := ms (ta_call_id r),
    ta_name := ms (ta_name r), ta_arguments := mask_map ms (ta_arguments r),
      ta_reason := ms (ta_reason r), ta_approval_id := ms (ta_approval_id r),
        ta_breakpoint_type := map_option ms (ta_breakpoint_type r),
          ta_result_preview := map_option ms (ta_result_preview r),
            ta_current_content := map_option ms (ta_current_content r),
              ta_matched_rule := map_option ms (ta_matched_rule r),
                ta_suggested_rule := map_option (mask_policy_rule_record ms) (ta_suggested_rule r)\<rparr>"

definition mask_tool_approval_resolved :: "(string \<Rightarrow> string) \<Rightarrow> tool_approval_resolved \<Rightarrow> tool_approval_resolved" where
  "mask_tool_approval_resolved ms r = r\<lparr>tv_call_id := ms (tv_call_id r),
    tv_approval_id := ms (tv_approval_id r)\<rparr>"

definition mask_tool_lifecycle :: "(string \<Rightarrow> string) \<Rightarrow> tool_lifecycle \<Rightarrow> tool_lifecycle" where
  "mask_tool_lifecycle ms r = r\<lparr>tl_call_id := ms (tl_call_id r),
    tl_name := ms (tl_name r)\<rparr>"

definition mask_tool_completed :: "(string \<Rightarrow> string) \<Rightarrow> tool_completed \<Rightarrow> tool_completed" where
  "mask_tool_completed ms r = r\<lparr>tc_call_id := ms (tc_call_id r),
    tc_name := ms (tc_name r), tc_result := mask_json ms (tc_result r)\<rparr>"

definition mask_tool_failed :: "(string \<Rightarrow> string) \<Rightarrow> tool_failed \<Rightarrow> tool_failed" where
  "mask_tool_failed ms r = r\<lparr>tf_call_id := ms (tf_call_id r), tf_name := ms (tf_name r),
    tf_error_code := ms (tf_error_code r), tf_message := map_option ms (tf_message r)\<rparr>"

definition mask_plan_step :: "(string \<Rightarrow> string) \<Rightarrow> plan_step \<Rightarrow> plan_step" where
  "mask_plan_step ms r = r\<lparr>ps_plan_id := ms (ps_plan_id r), ps_title := ms (ps_title r),
    ps_status := ms (ps_status r),
      ps_result_summary := map_option ms (ps_result_summary r)\<rparr>"

definition mask_plan_created :: "(string \<Rightarrow> string) \<Rightarrow> plan_created \<Rightarrow> plan_created" where
  "mask_plan_created ms r = r\<lparr>pc_plan_id := ms (pc_plan_id r),
    pc_title := map_option ms (pc_title r),
      pc_steps := map (mask_plan_step ms) (pc_steps r)\<rparr>"

definition mask_plan_progress :: "(string \<Rightarrow> string) \<Rightarrow> plan_progress \<Rightarrow> plan_progress" where
  "mask_plan_progress ms r = r\<lparr>pp_plan_id := ms (pp_plan_id r),
    pp_message := map_option ms (pp_message r)\<rparr>"

definition mask_artifact_created :: "(string \<Rightarrow> string) \<Rightarrow> artifact_created \<Rightarrow> artifact_created" where
  "mask_artifact_created ms r = r\<lparr>ac_artifact_id := ms (ac_artifact_id r),
    ac_kind := ms (ac_kind r), ac_name := ms (ac_name r),
      ac_media_type := map_option ms (ac_media_type r)\<rparr>"

definition mask_usage_updated :: "(string \<Rightarrow> string) \<Rightarrow> usage_updated \<Rightarrow> usage_updated" where
  "mask_usage_updated ms r = r"

definition mask_budget_event :: "(string \<Rightarrow> string) \<Rightarrow> budget_event \<Rightarrow> budget_event" where
  "mask_budget_event ms r = r\<lparr>be_window := ms (be_window r)\<rparr>"

definition mask_subagent_event :: "(string \<Rightarrow> string) \<Rightarrow> subagent_event \<Rightarrow> subagent_event" where
  "mask_subagent_event ms r = r\<lparr>sa_subagent_run_id := ms (sa_subagent_run_id r),
    sa_name := map_option ms (sa_name r), sa_status := ms (sa_status r),
      sa_summary := map_option ms (sa_summary r),
        sa_error := map_option ms (sa_error r)\<rparr>"

definition mask_subagent_progress :: "(string \<Rightarrow> string) \<Rightarrow> subagent_progress \<Rightarrow> subagent_progress" where
  "mask_subagent_progress ms r = r\<lparr>sp_subagent_run_id := ms (sp_subagent_run_id r),
    sp_message := ms (sp_message r)\<rparr>"

definition mask_worker_event :: "(string \<Rightarrow> string) \<Rightarrow> worker_event \<Rightarrow> worker_event" where
  "mask_worker_event ms r = r\<lparr>we_worker_id := ms (we_worker_id r),
    we_code := map_option ms (we_code r)\<rparr>"

definition mask_plugin_status_event :: "(string \<Rightarrow> string) \<Rightarrow> plugin_status_event \<Rightarrow> plugin_status_event" where
  "mask_plugin_status_event ms r = r\<lparr>pe_plugin_id := ms (pe_plugin_id r),
    pe_status := ms (pe_status r), pe_code := map_option ms (pe_code r)\<rparr>"

definition mask_research_stage :: "(string \<Rightarrow> string) \<Rightarrow> research_stage \<Rightarrow> research_stage" where
  "mask_research_stage ms r = r\<lparr>rg_stage := ms (rg_stage r),
    rg_message := map_option ms (rg_message r)\<rparr>"

definition mask_research_started :: "(string \<Rightarrow> string) \<Rightarrow> research_started \<Rightarrow> research_started" where
  "mask_research_started ms r = r\<lparr>rd_research_run_id := ms (rd_research_run_id r)\<rparr>"

definition mask_research_source :: "(string \<Rightarrow> string) \<Rightarrow> research_source \<Rightarrow> research_source" where
  "mask_research_source ms r = r\<lparr>ro_url := ms (ro_url r),
    ro_title := map_option ms (ro_title r), ro_snippet := map_option ms (ro_snippet r),
      ro_confidence := map_option ms (ro_confidence r)\<rparr>"

definition mask_research_subquestion :: "(string \<Rightarrow> string) \<Rightarrow> research_subquestion \<Rightarrow> research_subquestion" where
  "mask_research_subquestion ms r = r\<lparr>rq_question := ms (rq_question r),
    rq_status := ms (rq_status r)\<rparr>"

definition mask_research_terminal :: "(string \<Rightarrow> string) \<Rightarrow> research_terminal \<Rightarrow> research_terminal" where
  "mask_research_terminal ms r = r\<lparr>rm_artifact_id := map_option ms (rm_artifact_id r),
    rm_error := map_option ms (rm_error r)\<rparr>"

section \<open>Masking commutes with reading\<close>

lemma plain_keys [masking]:
  "\<not> sensitive_json_key ''actor''"
  "\<not> sensitive_json_key ''approvalId''"
  "\<not> sensitive_json_key ''arguments''"
  "\<not> sensitive_json_key ''artifactId''"
  "\<not> sensitive_json_key ''attempt''"
  "\<not> sensitive_json_key ''breakpointType''"
  "\<not> sensitive_json_key ''callId''"
  "\<not> sensitive_json_key ''causationId''"
  "\<not> sensitive_json_key ''channel''"
  "\<not> sensitive_json_key ''checkpoint_ref''"
  "\<not> sensitive_json_key ''code''"
  "\<not> sensitive_json_key ''compactUpToCursor''"
  "\<not> sensitive_json_key ''completedSteps''"
  "\<not> sensitive_json_key ''completionTokens''"
  "\<not> sensitive_json_key ''confidence''"
  "\<not> sensitive_json_key ''content''"
  "\<not> sensitive_json_key ''correlationId''"
  "\<not> sensitive_json_key ''costUsd''"
  "\<not> sensitive_json_key ''currentContent''"
  "\<not> sensitive_json_key ''cursor''"
  "\<not> sensitive_json_key ''decision''"
  "\<not> sensitive_json_key ''error''"
  "\<not> sensitive_json_key ''errorCode''"
  "\<not> sensitive_json_key ''event''"
  "\<not> sensitive_json_key ''eventId''"
  "\<not> sensitive_json_key ''extensions''"
  "\<not> sensitive_json_key ''id''"
  "\<not> sensitive_json_key ''index''"
  "\<not> sensitive_json_key ''itemId''"
  "\<not> sensitive_json_key ''kind''"
  "\<not> sensitive_json_key ''limitUsd''"
  "\<not> sensitive_json_key ''matchedRule''"
  "\<not> sensitive_json_key ''mediaType''"
  "\<not> sensitive_json_key ''message''"
  "\<not> sensitive_json_key ''mode''"
  "\<not> sensitive_json_key ''model''"
  "\<not> sensitive_json_key ''name''"
  "\<not> sensitive_json_key ''note''"
  "\<not> sensitive_json_key ''occurredAt''"
  "\<not> sensitive_json_key ''pattern''"
  "\<not> sensitive_json_key ''payload''"
  "\<not> sensitive_json_key ''percent''"
  "\<not> sensitive_json_key ''planId''"
  "\<not> sensitive_json_key ''pluginId''"
  "\<not> sensitive_json_key ''position''"
  "\<not> sensitive_json_key ''progress''"
  "\<not> sensitive_json_key ''projectKey''"
  "\<not> sensitive_json_key ''promptTokens''"
  "\<not> sensitive_json_key ''question''"
  "\<not> sensitive_json_key ''reason''"
  "\<not> sensitive_json_key ''researchRunId''"
  "\<not> sensitive_json_key ''result''"
  "\<not> sensitive_json_key ''resultPreview''"
  "\<not> sensitive_json_key ''resultSummary''"
  "\<not> sensitive_json_key ''retainedItems''"
  "\<not> sensitive_json_key ''revision''"
  "\<not> sensitive_json_key ''rewound''"
  "\<not> sensitive_json_key ''role''"
  "\<not> sensitive_json_key ''runId''"
  "\<not> sensitive_json_key ''schemaVersion''"
  "\<not> sensitive_json_key ''scope''"
  "\<not> sensitive_json_key ''seq''"
  "\<not> sensitive_json_key ''sessionId''"
  "\<not> sensitive_json_key ''snippet''"
  "\<not> sensitive_json_key ''source''"
  "\<not> sensitive_json_key ''sourceCount''"
  "\<not> sensitive_json_key ''spendUsd''"
  "\<not> sensitive_json_key ''stage''"
  "\<not> sensitive_json_key ''status''"
  "\<not> sensitive_json_key ''steps''"
  "\<not> sensitive_json_key ''storePlanId''"
  "\<not> sensitive_json_key ''subagentRunId''"
  "\<not> sensitive_json_key ''suggestedRule''"
  "\<not> sensitive_json_key ''summary''"
  "\<not> sensitive_json_key ''summaryItemId''"
  "\<not> sensitive_json_key ''text''"
  "\<not> sensitive_json_key ''title''"
  "\<not> sensitive_json_key ''tool''"
  "\<not> sensitive_json_key ''toolCalls''"
  "\<not> sensitive_json_key ''totalSteps''"
  "\<not> sensitive_json_key ''totalTokens''"
  "\<not> sensitive_json_key ''url''"
  "\<not> sensitive_json_key ''window''"
  "\<not> sensitive_json_key ''workerId''"
  by code_simp+

lemma mask_map_simps [masking]:
  "mask_map ms [] = []"
  "mask_map ms ((k, v) # m) =
     (k, if sensitive_json_key k \<and> v \<noteq> JNull then JString redacted else mask_json ms v) # mask_map ms m"
  by (simp_all add: mask_map_def)

lemma mask_scalars [masking]:
  "mask_json ms (u64_json w) = u64_json w" "mask_json ms (u32_json v) = u32_json v"
  "mask_json ms (i64_json w) = i64_json w" "mask_json ms (f64_json w) = f64_json w"
  "mask_json ms (opt_json u64_json x) = opt_json u64_json x"
  "mask_json ms (opt_json i64_json x) = opt_json i64_json x"
  "mask_json ms (opt_json f64_json x) = opt_json f64_json x"
  "mask_json ms (opt_json JString s) = opt_json JString (map_option ms s)"
  by (cases x; cases s; simp add: u64_json_def u32_json_def i64_json_def f64_json_def opt_json_def)+

lemma wire_fixedD: "wire_fixed ms \<Longrightarrow> w \<in> set wire_words \<Longrightarrow> ms w = w"
  by (simp add: wire_fixed_def)

lemma mask_approval_outcome [masking]:
  "wire_fixed ms \<Longrightarrow> mask_json ms (approval_outcome_json d) = approval_outcome_json d"
  by (cases d) (simp_all add: approval_outcome_json_def, simp_all add: wire_fixedD wire_words_def)

lemma mask_plan_progress_status [masking]:
  "wire_fixed ms \<Longrightarrow> mask_json ms (plan_progress_status_json d) = plan_progress_status_json d"
  by (cases d) (simp_all add: plan_progress_status_json_def, simp_all add: wire_fixedD wire_words_def)

lemma mask_actor_kind [masking]:
  "wire_fixed ms \<Longrightarrow> mask_json ms (actor_kind_json k) = actor_kind_json k"
  by (cases k) (simp_all add: actor_kind_json_def, simp_all add: wire_fixedD wire_words_def)

lemma event_tag_wire_word: "event_tag e \<in> set wire_words"
  by (cases e) (simp_all add: wire_words_def)

lemma mask_event_tag [masking]: "wire_fixed ms \<Longrightarrow> ms (event_tag e) = event_tag e"
  by (erule wire_fixedD) (rule event_tag_wire_word)

declare codec [masking]

lemma d_all_map_option: "(\<And>x. d (f x) = Some (g x)) \<Longrightarrow> d_all d (map f xs) = Some (map g xs)"
  by (induction xs) simp_all

lemma d_mask_policy_rule_record [masking]:
  "d_policy_rule_record (mask_json ms (policy_rule_record_json r)) = Some (mask_policy_rule_record ms r)"
  by (simp add: d_policy_rule_record_def policy_rule_record_json_def mask_policy_rule_record_def reading masking)

lemma d_mask_opt_policy_rule_record [masking]:
  "d_opt d_policy_rule_record (mask_json ms (opt_json policy_rule_record_json x)) =
     Some (map_option (mask_policy_rule_record ms) x)"
proof (cases x)
  case (Some r)
  have "policy_rule_record_json r \<noteq> JNull" by (simp add: policy_rule_record_json_def)
  with Some show ?thesis by (simp add: opt_json_def d_opt_def d_mask_policy_rule_record)
qed (simp add: opt_json_def d_opt_def)

lemma d_mask_session_event [masking]:
  "d_session_event (mask_json ms (session_event_json r)) = Some (mask_session_event ms r)"
  by (simp add: d_session_event_def session_event_json_def mask_session_event_def reading masking)

lemma d_mask_session_compacted [masking]:
  "d_session_compacted (mask_json ms (session_compacted_json r)) = Some (mask_session_compacted ms r)"
  by (simp add: d_session_compacted_def session_compacted_json_def mask_session_compacted_def reading masking)

lemma d_mask_run_started [masking]:
  "d_run_started (mask_json ms (run_started_json r)) = Some (mask_run_started ms r)"
  by (simp add: d_run_started_def run_started_json_def mask_run_started_def reading masking)

lemma d_mask_run_terminal [masking]:
  "d_run_terminal (mask_json ms (run_terminal_json r)) = Some (mask_run_terminal ms r)"
  by (simp add: d_run_terminal_def run_terminal_json_def mask_run_terminal_def reading masking)

lemma d_mask_run_rewound [masking]:
  "d_run_rewound (mask_json ms (run_rewound_json r)) = Some (mask_run_rewound ms r)"
  by (simp add: d_run_rewound_def run_rewound_json_def mask_run_rewound_def reading masking)

lemma d_mask_tool_requested [masking]:
  "d_tool_requested (mask_json ms (tool_requested_json r)) = Some (mask_tool_requested ms r)"
  by (simp add: d_tool_requested_def tool_requested_json_def mask_tool_requested_def reading masking)

lemma d_mask_tool_requested_list [masking]:
  "d_list d_tool_requested (JArray (map (mask_json ms \<circ> tool_requested_json) xs)) = Some (map (mask_tool_requested ms) xs)"
  by (simp add: d_list_def d_all_map_option d_mask_tool_requested)

lemma d_mask_item_event [masking]:
  "d_item_event (mask_json ms (item_event_json r)) = Some (mask_item_event ms r)"
  by (simp add: d_item_event_def item_event_json_def mask_item_event_def reading masking)

lemma d_mask_text_delta [masking]:
  "d_text_delta (mask_json ms (text_delta_json r)) = Some (mask_text_delta ms r)"
  by (simp add: d_text_delta_def text_delta_json_def mask_text_delta_def reading masking)

lemma d_mask_tool_approval_required [masking]:
  "d_tool_approval_required (mask_json ms (tool_approval_required_json r)) = Some (mask_tool_approval_required ms r)"
  by (simp add: d_tool_approval_required_def tool_approval_required_json_def mask_tool_approval_required_def reading masking)

lemma d_mask_tool_approval_resolved [masking]:
  "wire_fixed ms \<Longrightarrow> d_tool_approval_resolved (mask_json ms (tool_approval_resolved_json r)) = Some (mask_tool_approval_resolved ms r)"
  by (simp add: d_tool_approval_resolved_def tool_approval_resolved_json_def mask_tool_approval_resolved_def reading masking)

lemma d_mask_tool_lifecycle [masking]:
  "d_tool_lifecycle (mask_json ms (tool_lifecycle_json r)) = Some (mask_tool_lifecycle ms r)"
  by (simp add: d_tool_lifecycle_def tool_lifecycle_json_def mask_tool_lifecycle_def reading masking)

lemma d_mask_tool_completed [masking]:
  "d_tool_completed (mask_json ms (tool_completed_json r)) = Some (mask_tool_completed ms r)"
  by (simp add: d_tool_completed_def tool_completed_json_def mask_tool_completed_def reading masking)

lemma d_mask_tool_failed [masking]:
  "d_tool_failed (mask_json ms (tool_failed_json r)) = Some (mask_tool_failed ms r)"
  by (simp add: d_tool_failed_def tool_failed_json_def mask_tool_failed_def reading masking)

lemma d_mask_plan_step [masking]:
  "d_plan_step (mask_json ms (plan_step_json r)) = Some (mask_plan_step ms r)"
  by (simp add: d_plan_step_def plan_step_json_def mask_plan_step_def reading masking)

lemma d_mask_plan_step_list [masking]:
  "d_list d_plan_step (JArray (map (mask_json ms \<circ> plan_step_json) xs)) = Some (map (mask_plan_step ms) xs)"
  by (simp add: d_list_def d_all_map_option d_mask_plan_step)

lemma d_mask_plan_created [masking]:
  "d_plan_created (mask_json ms (plan_created_json r)) = Some (mask_plan_created ms r)"
  by (simp add: d_plan_created_def plan_created_json_def mask_plan_created_def reading masking)

lemma d_mask_plan_progress [masking]:
  "wire_fixed ms \<Longrightarrow> d_plan_progress (mask_json ms (plan_progress_json r)) = Some (mask_plan_progress ms r)"
  by (simp add: d_plan_progress_def plan_progress_json_def mask_plan_progress_def reading masking)

lemma d_mask_artifact_created [masking]:
  "d_artifact_created (mask_json ms (artifact_created_json r)) = Some (mask_artifact_created ms r)"
  by (simp add: d_artifact_created_def artifact_created_json_def mask_artifact_created_def reading masking)

lemma d_mask_usage_updated [masking]:
  "pred_option f64_finite (uu_cost_usd r) \<Longrightarrow> d_usage_updated (mask_json ms (usage_updated_json r)) = Some (mask_usage_updated ms r)"
  by (simp add: d_usage_updated_def usage_updated_json_def mask_usage_updated_def reading masking)

lemma d_mask_budget_event [masking]:
  "f64_finite (be_spend_usd r) \<Longrightarrow> f64_finite (be_limit_usd r) \<Longrightarrow> f64_finite (be_percent r) \<Longrightarrow> d_budget_event (mask_json ms (budget_event_json r)) = Some (mask_budget_event ms r)"
  by (simp add: d_budget_event_def budget_event_json_def mask_budget_event_def reading masking)

lemma d_mask_subagent_event [masking]:
  "d_subagent_event (mask_json ms (subagent_event_json r)) = Some (mask_subagent_event ms r)"
  by (simp add: d_subagent_event_def subagent_event_json_def mask_subagent_event_def reading masking)

lemma d_mask_subagent_progress [masking]:
  "pred_option f64_finite (sp_percent r) \<Longrightarrow> d_subagent_progress (mask_json ms (subagent_progress_json r)) = Some (mask_subagent_progress ms r)"
  by (simp add: d_subagent_progress_def subagent_progress_json_def mask_subagent_progress_def reading masking)

lemma d_mask_worker_event [masking]:
  "d_worker_event (mask_json ms (worker_event_json r)) = Some (mask_worker_event ms r)"
  by (simp add: d_worker_event_def worker_event_json_def mask_worker_event_def reading masking)

lemma d_mask_plugin_status_event [masking]:
  "d_plugin_status_event (mask_json ms (plugin_status_event_json r)) = Some (mask_plugin_status_event ms r)"
  by (simp add: d_plugin_status_event_def plugin_status_event_json_def mask_plugin_status_event_def reading masking)

lemma d_mask_research_stage [masking]:
  "pred_option f64_finite (rg_progress r) \<Longrightarrow> d_research_stage (mask_json ms (research_stage_json r)) = Some (mask_research_stage ms r)"
  by (simp add: d_research_stage_def research_stage_json_def mask_research_stage_def reading masking)

lemma d_mask_research_started [masking]:
  "d_research_started (mask_json ms (research_started_json r)) = Some (mask_research_started ms r)"
  by (simp add: d_research_started_def research_started_json_def mask_research_started_def reading masking)

lemma d_mask_research_source [masking]:
  "d_research_source (mask_json ms (research_source_json r)) = Some (mask_research_source ms r)"
  by (simp add: d_research_source_def research_source_json_def mask_research_source_def reading masking)

lemma d_mask_research_subquestion [masking]:
  "d_research_subquestion (mask_json ms (research_subquestion_json r)) = Some (mask_research_subquestion ms r)"
  by (simp add: d_research_subquestion_def research_subquestion_json_def mask_research_subquestion_def reading masking)

lemma d_mask_research_terminal [masking]:
  "d_research_terminal (mask_json ms (research_terminal_json r)) = Some (mask_research_terminal ms r)"
  by (simp add: d_research_terminal_def research_terminal_json_def mask_research_terminal_def reading masking)


section \<open>Masked envelopes\<close>

primrec mask_event :: "(string \<Rightarrow> string) \<Rightarrow> canonical_event \<Rightarrow> canonical_event" where
  "mask_event ms (SessionCreated p) = SessionCreated (mask_session_event ms p)"
| "mask_event ms (SessionUpdated p) = SessionUpdated (mask_session_event ms p)"
| "mask_event ms (SessionCompacted p) = SessionCompacted (mask_session_compacted ms p)"
| "mask_event ms (RunStarted p) = RunStarted (mask_run_started ms p)"
| "mask_event ms (RunCompleted p) = RunCompleted (mask_run_terminal ms p)"
| "mask_event ms (RunFailed p) = RunFailed (mask_run_terminal ms p)"
| "mask_event ms (RunCancelled p) = RunCancelled (mask_run_terminal ms p)"
| "mask_event ms (RunRewound p) = RunRewound (mask_run_rewound ms p)"
| "mask_event ms (ItemStarted p) = ItemStarted (mask_item_event ms p)"
| "mask_event ms (ItemUpdated p) = ItemUpdated (mask_item_event ms p)"
| "mask_event ms (ItemCompleted p) = ItemCompleted (mask_item_event ms p)"
| "mask_event ms (ContentDelta p) = ContentDelta (mask_text_delta ms p)"
| "mask_event ms (ReasoningDelta p) = ReasoningDelta (mask_text_delta ms p)"
| "mask_event ms (ToolRequested p) = ToolRequested (mask_tool_requested ms p)"
| "mask_event ms (ToolApprovalRequired p) = ToolApprovalRequired (mask_tool_approval_required ms p)"
| "mask_event ms (ToolApprovalResolved p) = ToolApprovalResolved (mask_tool_approval_resolved ms p)"
| "mask_event ms (ToolStarted p) = ToolStarted (mask_tool_lifecycle ms p)"
| "mask_event ms (ToolCompleted p) = ToolCompleted (mask_tool_completed ms p)"
| "mask_event ms (ToolFailed p) = ToolFailed (mask_tool_failed ms p)"
| "mask_event ms (PlanCreated p) = PlanCreated (mask_plan_created ms p)"
| "mask_event ms (PlanStepStarted p) = PlanStepStarted (mask_plan_step ms p)"
| "mask_event ms (PlanStepCompleted p) = PlanStepCompleted (mask_plan_step ms p)"
| "mask_event ms (PlanProgress p) = PlanProgress (mask_plan_progress ms p)"
| "mask_event ms (ArtifactCreated p) = ArtifactCreated (mask_artifact_created ms p)"
| "mask_event ms (UsageUpdated p) = UsageUpdated (mask_usage_updated ms p)"
| "mask_event ms (BudgetWarning p) = BudgetWarning (mask_budget_event ms p)"
| "mask_event ms (BudgetExceeded p) = BudgetExceeded (mask_budget_event ms p)"
| "mask_event ms (SubagentStarted p) = SubagentStarted (mask_subagent_event ms p)"
| "mask_event ms (SubagentProgress p) = SubagentProgress (mask_subagent_progress ms p)"
| "mask_event ms (SubagentCompleted p) = SubagentCompleted (mask_subagent_event ms p)"
| "mask_event ms (SubagentFailed p) = SubagentFailed (mask_subagent_event ms p)"
| "mask_event ms (WorkerStarted p) = WorkerStarted (mask_worker_event ms p)"
| "mask_event ms (WorkerFailed p) = WorkerFailed (mask_worker_event ms p)"
| "mask_event ms (WorkerRestarted p) = WorkerRestarted (mask_worker_event ms p)"
| "mask_event ms (PluginStatus p) = PluginStatus (mask_plugin_status_event ms p)"
| "mask_event ms (ResearchStage p) = ResearchStage (mask_research_stage ms p)"
| "mask_event ms (ResearchStarted p) = ResearchStarted (mask_research_started ms p)"
| "mask_event ms (ResearchSourceFound p) = ResearchSourceFound (mask_research_source ms p)"
| "mask_event ms (ResearchSubquestionStarted p) = ResearchSubquestionStarted (mask_research_subquestion ms p)"
| "mask_event ms (ResearchSubquestionCompleted p) = ResearchSubquestionCompleted (mask_research_subquestion ms p)"
| "mask_event ms (ResearchCompleted p) = ResearchCompleted (mask_research_terminal ms p)"
| "mask_event ms (ResearchFailed p) = ResearchFailed (mask_research_terminal ms p)"
| "mask_event ms (ResearchCancelled p) = ResearchCancelled (mask_research_terminal ms p)"

definition mask_actor :: "(string \<Rightarrow> string) \<Rightarrow> actor_ref \<Rightarrow> actor_ref" where
  "mask_actor ms a = a\<lparr>ar_id := ms (ar_id a)\<rparr>"

definition mask_envelope :: "(string \<Rightarrow> string) \<Rightarrow> event_envelope \<Rightarrow> event_envelope" where
  "mask_envelope ms e = e\<lparr>ee_event_id := ms (ee_event_id e), ee_session_id := ms (ee_session_id e),
     ee_run_id := ms (ee_run_id e), ee_item_id := map_option ms (ee_item_id e),
     ee_occurred_at := ms (ee_occurred_at e), ee_actor := mask_actor ms (ee_actor e),
     ee_source := ms (ee_source e), ee_causation_id := map_option ms (ee_causation_id e),
     ee_correlation_id := map_option ms (ee_correlation_id e),
     ee_event := mask_event ms (ee_event e), ee_extensions := mask_map ms (ee_extensions e)\<rparr>"

lemma mask_event_tag_eq [simp]: "event_tag (mask_event ms e) = event_tag e"
  by (cases e) simp_all

lemma d_mask_actor [masking]:
  "wire_fixed ms \<Longrightarrow> d_actor_ref (mask_json ms (actor_ref_json a)) = Some (mask_actor ms a)"
  by (simp add: d_actor_ref_def actor_ref_json_def mask_actor_def reading masking)

lemma d_mask_tagged [masking]:
  "wire_fixed ms \<Longrightarrow> event_finite e \<Longrightarrow>
   d_tagged (event_tag e) (mask_json ms (payload_json e)) = Some (mask_event ms e)"
  by (cases e) (simp_all add: d_tagged_def masking)

lemma d_mask_event [masking]:
  "wire_fixed ms \<Longrightarrow> event_finite e \<Longrightarrow>
   d_event (mask_json ms (event_json e)) = Some (mask_event ms e)"
  by (simp add: d_event_def event_json_def reading masking)

lemma mask_version [masking]: "mask_json ms version_json = version_json"
  by (simp add: version_json_def masking)

lemma d_mask_envelope:
  "wire_fixed ms \<Longrightarrow> event_finite (ee_event e) \<Longrightarrow>
   d_envelope (mask_json ms (envelope_json e)) = Some (mask_envelope ms e)"
  by (cases "ee_extensions e = []")
     (simp_all add: d_envelope_def envelope_json_def mask_envelope_def reading masking)

section \<open>Properties\<close>


lemma wire_fixed_star_out: "wire_fixed star_out"
  by (simp add: wire_fixed_def wire_words_def star_out_def)


end
