(* ===== verification/Capability_Policy.thy ===== *)
theory Capability_Policy
  imports Policy_Rules
begin

text \<open>
  \<open>CapabilityPolicy\<close> of \<open>crates/cool-security/src/lib.rs\<close>, the plugin
  narrowing of \<open>crates/cool-extensions/src/lib.rs\<close>, and the gate of
  \<open>execute_tool_batch\<close> (\<open>crates/cool-agent/src/loop_runtime.rs\<close>) that
  decides whether a tool call runs, asks or is denied. The locale \<open>narrowing\<close> is
  the contract callers of \<open>narrow_with\<close> rely on.
\<close>

section \<open>Capabilities\<close>

datatype capability = Read | Write | Execute | Network | Git | SendExternal

primrec capability_rank :: "capability \<Rightarrow> nat" where
  "capability_rank Read = 0"
| "capability_rank Write = 1"
| "capability_rank Execute = 2"
| "capability_rank Network = 3"
| "capability_rank Git = 4"
| "capability_rank SendExternal = 5"

lemma capability_rank_inject: "capability_rank a = capability_rank b \<longleftrightarrow> a = b"
  by (cases a; cases b) simp_all

instantiation capability :: linorder
begin

definition less_eq_capability :: "capability \<Rightarrow> capability \<Rightarrow> bool" where
  "less_eq_capability a b \<longleftrightarrow> capability_rank a \<le> capability_rank b"

definition less_capability :: "capability \<Rightarrow> capability \<Rightarrow> bool" where
  "less_capability a b \<longleftrightarrow> capability_rank a < capability_rank b"

instance
  by standard
     (auto simp: less_eq_capability_def less_capability_def capability_rank_inject [symmetric])

end

definition all_capabilities :: "capability list" where
  "all_capabilities = [Read, Write, Execute, Network, Git, SendExternal]"

lemma in_all_capabilities [simp]: "k \<in> set all_capabilities"
  by (cases k) (simp_all add: all_capabilities_def)

section \<open>Policies\<close>

record capability_policy =
  cp_wildcard :: "decision option"
  cp_decisions :: "capability \<Rightarrow> decision option"
  cp_rules :: "policy_rule list"

definition new_policy :: "decision option \<Rightarrow> capability_policy" where
  "new_policy w = \<lparr>cp_wildcard = w, cp_decisions = (\<lambda>_. None), cp_rules = []\<rparr>"

definition extend_rules :: "policy_rule list \<Rightarrow> capability_policy \<Rightarrow> capability_policy" where
  "extend_rules rules p = p\<lparr>cp_rules := cp_rules p @ rules\<rparr>"

definition policy_match_rule ::
    "globber \<Rightarrow> capability_policy \<Rightarrow> string \<Rightarrow> rule_subject \<Rightarrow> policy_rule option" where
  "policy_match_rule glob p tool subject = match_rules glob (cp_rules p) tool subject"

definition policy_set :: "capability \<Rightarrow> decision \<Rightarrow> capability_policy \<Rightarrow> capability_policy" where
  "policy_set k d p = p\<lparr>cp_decisions := (cp_decisions p)(k := Some d)\<rparr>"

definition unwrap_or :: "'a \<Rightarrow> 'a option \<Rightarrow> 'a" where
  "unwrap_or d x = (case x of None \<Rightarrow> d | Some v \<Rightarrow> v)"

definition or_else :: "'a option \<Rightarrow> 'a option \<Rightarrow> 'a option" where
  "or_else a b = (case a of None \<Rightarrow> b | Some v \<Rightarrow> Some v)"

definition resolve :: "capability_policy \<Rightarrow> capability \<Rightarrow> decision" where
  "resolve p k = unwrap_or Allow (or_else (cp_decisions p k) (cp_wildcard p))"

record policy_decision =
  pd_required :: "capability list"
  pd_effective :: decision

text \<open>A \<open>BTreeSet\<close> is its ascending list of distinct elements.\<close>

definition btree_set :: "'a::linorder list \<Rightarrow> 'a list" where
  "btree_set xs = sort (remdups xs)"

definition evaluate :: "capability_policy \<Rightarrow> capability list \<Rightarrow> decision \<Rightarrow> policy_decision" where
  "evaluate p required tool_decision =
     (let req = btree_set required;
          effective = foldl (\<lambda>current k. stricter current (resolve p k)) tool_decision req
      in \<lparr>pd_required = req, pd_effective = effective\<rparr>)"

text \<open>The floor below which no child rule may go: the loop of \<open>narrow_with\<close>.\<close>

definition policy_floor :: "capability_policy \<Rightarrow> decision" where
  "policy_floor p =
     foldl (\<lambda>floor k. max floor (resolve p k)) (unwrap_or Allow (cp_wildcard p)) all_capabilities"

definition clamp_rule :: "decision \<Rightarrow> policy_rule \<Rightarrow> policy_rule" where
  "clamp_rule floor r = r\<lparr>pr_decision := stricter (pr_decision r) floor\<rparr>"

definition narrow_with :: "capability_policy \<Rightarrow> capability_policy \<Rightarrow> capability_policy" where
  "narrow_with p child =
     (let w = stricter (unwrap_or Allow (cp_wildcard p)) (unwrap_or Allow (cp_wildcard child));
          result = foldl (\<lambda>acc k. policy_set k (stricter (resolve p k) (resolve child k)) acc)
                     (new_policy (Some w)) all_capabilities
      in result\<lparr>cp_rules := cp_rules p @ map (clamp_rule (policy_floor p)) (cp_rules child)\<rparr>)"

definition apply_overrides :: "capability_policy \<Rightarrow> capability_policy \<Rightarrow> capability_policy" where
  "apply_overrides p overlay =
     \<lparr>cp_wildcard = or_else (cp_wildcard overlay) (cp_wildcard p),
      cp_decisions = cp_decisions p ++ cp_decisions overlay,
      cp_rules = cp_rules p @ cp_rules overlay\<rparr>"

text \<open>\<open>crates/cool-extensions/src/lib.rs\<close>\<close>

definition capability_of_name :: "string \<Rightarrow> capability option" where
  "capability_of_name name =
     (if name = ''read'' then Some Read
      else if name = ''write'' then Some Write
      else if name = ''execute'' then Some Execute
      else if name = ''network'' then Some Network
      else if name = ''git'' then Some Git
      else if name = ''send_external'' then Some SendExternal
      else None)"

definition narrowed_plugin_policy ::
    "capability_policy \<Rightarrow> capability list \<Rightarrow> capability_policy \<Rightarrow> capability_policy" where
  "narrowed_plugin_policy core declared requested =
     narrow_with
       (narrow_with core
          (foldl (\<lambda>d k. policy_set k Allow d) (new_policy (Some Deny)) declared))
       requested"

section \<open>The gate of a tool call\<close>

text \<open>
  \<open>execute_tool_batch\<close> looks for a rule in the session set, then in the live
  project and user source, then in the policy; a capability denial is the outer bound.
\<close>

definition find_rule ::
    "globber \<Rightarrow> policy_rule list option \<Rightarrow> policy_rule list option \<Rightarrow> capability_policy \<Rightarrow>
     string \<Rightarrow> rule_subject \<Rightarrow> policy_rule option" where
  "find_rule glob session source policy tool subject =
     or_else
       (or_else
          (case session of None \<Rightarrow> None | Some rules \<Rightarrow> match_rules glob rules tool subject)
          (case source of None \<Rightarrow> None | Some rules \<Rightarrow> match_rules glob rules tool subject))
       (policy_match_rule glob policy tool subject)"

definition gate_decision :: "decision \<Rightarrow> policy_rule option \<Rightarrow> decision" where
  "gate_decision capability matched =
     (if capability = Deny then Deny
      else case matched of Some rule \<Rightarrow> pr_decision rule | None \<Rightarrow> capability)"

definition tool_gate ::
    "globber \<Rightarrow> policy_rule list option \<Rightarrow> policy_rule list option \<Rightarrow> capability_policy \<Rightarrow>
     capability list \<Rightarrow> decision \<Rightarrow> string \<Rightarrow> rule_subject \<Rightarrow> decision" where
  "tool_gate glob session source policy caps tool_decision tool subject =
     gate_decision (pd_effective (evaluate policy caps tool_decision))
       (find_rule glob session source policy tool subject)"

section \<open>Facts\<close>

lemma stricter_simps [simp]:
  "stricter Allow d = d" "stricter d Allow = d" "stricter Deny d = Deny" "stricter d Deny = Deny"
  "stricter d d = d"
  by (auto simp: stricter_def max_def)

lemma le_stricter [simp]: "a \<le> stricter a b" "b \<le> stricter a b"
  by (simp_all add: stricter_def)

lemma stricter_le_iff [simp]: "stricter a b \<le> c \<longleftrightarrow> a \<le> c \<and> b \<le> c"
  by (simp add: stricter_def)

lemma stricter_mono: "a \<le> a' \<Longrightarrow> b \<le> b' \<Longrightarrow> stricter a b \<le> stricter a' b'"
  by (auto simp: stricter_def max_def)

lemma set_btree_set [simp]: "set (btree_set xs) = set xs"
  by (simp add: btree_set_def)

lemma foldl_stricter_le_iff:
  "foldl (\<lambda>cur k. stricter cur (f k)) d ks \<le> b \<longleftrightarrow> d \<le> b \<and> (\<forall>k \<in> set ks. f k \<le> b)"
  by (induction ks arbitrary: d) auto

lemma foldl_stricter_cases:
  "foldl (\<lambda>cur k. stricter cur (f k)) d ks = d \<or>
   (\<exists>k \<in> set ks. foldl (\<lambda>cur k. stricter cur (f k)) d ks = f k)"
proof (induction ks arbitrary: d)
  case (Cons k ks)
  have "stricter d (f k) = d \<or> stricter d (f k) = f k" by (auto simp: stricter_def max_def)
  with Cons [of "stricter d (f k)"] show ?case by auto
qed simp

lemma effective_le_iff:
  "pd_effective (evaluate p ks d) \<le> b \<longleftrightarrow> d \<le> b \<and> (\<forall>k \<in> set ks. resolve p k \<le> b)"
  by (simp add: evaluate_def Let_def foldl_stricter_le_iff)

lemma effective_ge: "d \<le> pd_effective (evaluate p ks d)"
  "k \<in> set ks \<Longrightarrow> resolve p k \<le> pd_effective (evaluate p ks d)"
  using effective_le_iff [of p ks d "pd_effective (evaluate p ks d)"] by auto

lemma floor_eq: "policy_floor p = foldl (\<lambda>cur k. stricter cur (resolve p k))
    (unwrap_or Allow (cp_wildcard p)) all_capabilities"
  by (simp add: policy_floor_def stricter_def)

lemma resolve_le_floor: "resolve p k \<le> policy_floor p"
  using foldl_stricter_le_iff [of "resolve p" "unwrap_or Allow (cp_wildcard p)" all_capabilities
      "policy_floor p"]
  by (simp add: floor_eq [symmetric])

lemma resolve_decided: "cp_decisions q k = Some d \<Longrightarrow> resolve q k = d"
  by (simp add: resolve_def or_else_def unwrap_or_def)

lemma narrow_with_decisions:
  "cp_decisions (narrow_with p c) k = Some (stricter (resolve p k) (resolve c k))"
  by (cases k) (simp_all add: narrow_with_def Let_def all_capabilities_def policy_set_def new_policy_def)

lemma resolve_narrow_with:
  "resolve (narrow_with p c) k = stricter (resolve p k) (resolve c k)"
  by (rule resolve_decided) (rule narrow_with_decisions)

lemma rules_narrow_with:
  "cp_rules (narrow_with p c) = cp_rules p @ map (clamp_rule (policy_floor p)) (cp_rules c)"
  by (simp add: narrow_with_def Let_def)

lemma effective_narrow_with:
  "pd_effective (evaluate p ks d) \<le> pd_effective (evaluate (narrow_with p c) ks d)"
  using effective_ge(1) [of d "narrow_with p c" ks] effective_ge(2) [of _ ks "narrow_with p c" d]
  by (auto simp: effective_le_iff [of p] resolve_narrow_with)

text \<open>The strictest of the tool's default and its capabilities, whatever the order.\<close>

lemma effective_eq_Max:
  "pd_effective (evaluate p ks d) = Max (insert d (resolve p ` set ks))"
proof (rule Max_eqI [symmetric])
  show "finite (insert d (resolve p ` set ks))" by simp
  show "y \<le> pd_effective (evaluate p ks d)" if "y \<in> insert d (resolve p ` set ks)" for y
    using that effective_ge by auto
  show "pd_effective (evaluate p ks d) \<in> insert d (resolve p ` set ks)"
    using foldl_stricter_cases [of "resolve p" d "btree_set ks"]
    by (auto simp: evaluate_def Let_def)
qed

section \<open>The contract of narrowing\<close>

locale narrowing =
  fixes narrow :: "'p \<Rightarrow> 'p \<Rightarrow> 'p" and value_of :: "'p \<Rightarrow> 'k \<Rightarrow> 'd::linorder"
  assumes narrow_left: "value_of p k \<le> value_of (narrow p c) k"
    and narrow_right: "value_of c k \<le> value_of (narrow p c) k"
    and narrow_exact: "value_of (narrow p c) k \<in> {value_of p k, value_of c k}"
begin

lemma narrow_eq_max: "value_of (narrow p c) k = max (value_of p k) (value_of c k)"
  using narrow_left [of p k c] narrow_right [of c k p] narrow_exact [of p c k] by (auto simp: max_def)

lemma narrow_chain_ge: "value_of p k \<le> value_of (foldl narrow p cs) k"
proof (induction cs arbitrary: p)
  case (Cons c cs)
  have "value_of p k \<le> value_of (narrow p c) k" by (rule narrow_left)
  also have "\<dots> \<le> value_of (foldl narrow (narrow p c) cs) k" by (rule Cons)
  finally show ?case by simp
qed simp

lemma narrow_chain_member: "c \<in> set cs \<Longrightarrow> value_of c k \<le> value_of (foldl narrow p cs) k"
proof (induction cs arbitrary: p)
  case (Cons x cs)
  show ?case
  proof (cases "c = x")
    case True
    have "value_of c k \<le> value_of (narrow p c) k" by (rule narrow_right)
    also have "\<dots> \<le> value_of (foldl narrow (narrow p c) cs) k" by (rule narrow_chain_ge)
    finally show ?thesis using True by simp
  next
    case False
    with Cons show ?thesis by simp
  qed
qed simp

lemma narrow_chain_least:
  "value_of p k \<le> b \<Longrightarrow> (\<And>c. c \<in> set cs \<Longrightarrow> value_of c k \<le> b) \<Longrightarrow> value_of (foldl narrow p cs) k \<le> b"
  by (induction cs arbitrary: p) (auto simp: narrow_eq_max)

end

interpretation capability_narrowing: narrowing narrow_with resolve
  by unfold_locales (auto simp: resolve_narrow_with stricter_def max_def)

section \<open>The gate under narrowing\<close>

lemma clamp_rule_key [simp]: "rule_key (clamp_rule f r) = rule_key r"
  by (simp add: clamp_rule_def rule_key_def)

lemma clamp_rule_ge: "f \<le> pr_decision (clamp_rule f r)"
  by (simp add: clamp_rule_def)

text \<open>
  A rule of the narrowed policy answers at least as strictly as the parent's rule, and
  where the parent has no rule, at least as strictly as every capability of the parent.
\<close>

lemma narrow_rule_cases:
  assumes "policy_match_rule glob (narrow_with p c) tool s = Some r"
  shows "(\<exists>r0. policy_match_rule glob p tool s = Some r0 \<and> pr_decision r0 \<le> pr_decision r) \<or>
    (policy_match_rule glob p tool s = None \<and> policy_floor p \<le> pr_decision r)"
proof (cases "match_rules glob (cp_rules p) tool s")
  case None
  with assms have "match_rules glob (map (clamp_rule (policy_floor p)) (cp_rules c)) tool s = Some r"
    by (simp add: policy_match_rule_def rules_narrow_with match_rules_append)
  from match_rules_in [OF this] have "policy_floor p \<le> pr_decision r"
    using clamp_rule_ge by auto
  with None show ?thesis by (simp add: policy_match_rule_def)
next
  case (Some r0)
  from match_rules_append_stricter [OF this, of "map (clamp_rule (policy_floor p)) (cp_rules c)"]
  obtain r1 where "match_rules glob (cp_rules (narrow_with p c)) tool s = Some r1"
    "pr_decision r0 \<le> pr_decision r1"
    by (auto simp: rules_narrow_with)
  with assms Some show ?thesis by (simp add: policy_match_rule_def)
qed

lemma narrow_rule_exists:
  assumes "policy_match_rule glob p tool s = Some r"
  obtains r' where "policy_match_rule glob (narrow_with p c) tool s = Some r'"
    "pr_decision r \<le> pr_decision r'"
  using match_rules_append_stricter
    [of glob "cp_rules p" tool s r "map (clamp_rule (policy_floor p)) (cp_rules c)"] assms
  by (auto simp: policy_match_rule_def rules_narrow_with)

lemma gate_decision_mono:
  assumes "cap \<le> cap'"
    and "case m of Some r \<Rightarrow> (\<exists>r'. m' = Some r' \<and> pr_decision r \<le> pr_decision r')
                 | None \<Rightarrow> (case m' of None \<Rightarrow> True | Some r' \<Rightarrow> cap \<le> pr_decision r')"
  shows "gate_decision cap m \<le> gate_decision cap' m'"
  using assms by (auto simp: gate_decision_def split: option.splits)

lemma effective_le_floor:
  "d \<le> policy_floor p \<Longrightarrow> pd_effective (evaluate p ks d) \<le> policy_floor p"
  by (simp add: effective_le_iff resolve_le_floor)

section \<open>Properties\<close>

text \<open>
  Property C18. Narrowing never widens: whatever the session and live rules, the tool and
  its capabilities, a call that the parent policy asks for or denies is at least as
  strictly gated under the narrowed policy, provided the tool's own default decision is
  not stricter than everything the parent resolves.
\<close>

theorem narrow_gate_never_widens:
  assumes "d \<le> policy_floor p"
  shows "tool_gate glob session source p caps d tool s
    \<le> tool_gate glob session source (narrow_with p c) caps d tool s"
proof -
  let ?q = "narrow_with p c"
  let ?live = "or_else
      (case session of None \<Rightarrow> None | Some rules \<Rightarrow> match_rules glob rules tool s)
      (case source of None \<Rightarrow> None | Some rules \<Rightarrow> match_rules glob rules tool s)"
  let ?m = "policy_match_rule glob p tool s" and ?m' = "policy_match_rule glob ?q tool s"
  have rules: "case or_else ?live ?m of
      Some r \<Rightarrow> (\<exists>r'. or_else ?live ?m' = Some r' \<and> pr_decision r \<le> pr_decision r')
    | None \<Rightarrow> (case or_else ?live ?m' of None \<Rightarrow> True
        | Some r' \<Rightarrow> pd_effective (evaluate p caps d) \<le> pr_decision r')"
  proof (cases ?live)
    case (Some r)
    then show ?thesis by (simp add: or_else_def)
  next
    case live: None
    show ?thesis
    proof (cases ?m)
      case (Some r)
      with narrow_rule_exists [OF Some] live show ?thesis by (auto simp: or_else_def)
    next
      case None
      have "pd_effective (evaluate p caps d) \<le> pr_decision r'" if "?m' = Some r'" for r'
        using narrow_rule_cases [OF that] None effective_le_floor [OF assms, of caps] by auto
      with None live show ?thesis by (auto simp: or_else_def split: option.splits)
    qed
  qed
  show ?thesis
    unfolding tool_gate_def find_rule_def
    by (rule gate_decision_mono [OF effective_narrow_with rules])
qed

text \<open>A policy that asks for the network, narrowed by a child that would allow everything.\<close>

definition ask_network :: capability_policy where
  "ask_network = policy_set Network Ask (new_policy None)"

definition allow_shell :: capability_policy where
  "allow_shell = extend_rules [new_policy_rule ''shell'' AnyKind [] Allow] (new_policy (Some Allow))"

theorem narrow_gate_never_widens_witness:
  "Ask \<le> policy_floor ask_network \<and>
   tool_gate (\<lambda>_. None) None None ask_network [Execute] Ask ''shell'' NoSubject
     \<le> tool_gate (\<lambda>_. None) None None (narrow_with ask_network allow_shell) [Execute] Ask ''shell''
         NoSubject"
proof -
  have "Ask \<le> policy_floor ask_network"
    using resolve_le_floor [of ask_network Network]
    by (simp add: ask_network_def resolve_def policy_set_def or_else_def unwrap_or_def)
  from this narrow_gate_never_widens [OF this] show ?thesis by blast
qed

text \<open>
  The proviso is needed: under a parent that allows every capability, a tool
  whose own default is to ask runs without asking once a child policy brings an allow
  rule for it, although the comment on \<open>narrow_with\<close> says that a child rule can
  never widen the parent.
\<close>

theorem child_rule_lifts_tool_default:
  "tool_gate (\<lambda>_. None) None None (new_policy (Some Allow)) [Execute] Ask ''shell'' NoSubject = Ask
   \<and> tool_gate (\<lambda>_. None) None None (narrow_with (new_policy (Some Allow)) allow_shell) [Execute]
       Ask ''shell'' NoSubject = Allow"
  by code_simp

text \<open>
  The effective decision of \<open>evaluate\<close> is the strictest of the tool's
  default and the resolutions of the required capabilities, and a chain of narrowings
  resolves every capability to the strictest of all policies in the chain.
\<close>

theorem narrow_chain_is_strictest:
  "resolve (foldl narrow_with p cs) k = Max (insert (resolve p k) ((\<lambda>c. resolve c k) ` set cs)) \<and>
   pd_effective (evaluate (foldl narrow_with p cs) ks d) =
     Max (insert d ((\<lambda>j. Max (insert (resolve p j) ((\<lambda>c. resolve c j) ` set cs))) ` set ks))"
proof -
  have chain: "resolve (foldl narrow_with p cs) j
      = Max (insert (resolve p j) ((\<lambda>c. resolve c j) ` set cs))" for j
  proof (rule antisym)
    show "resolve (foldl narrow_with p cs) j
        \<le> Max (insert (resolve p j) ((\<lambda>c. resolve c j) ` set cs))"
      by (rule capability_narrowing.narrow_chain_least) auto
    show "Max (insert (resolve p j) ((\<lambda>c. resolve c j) ` set cs))
        \<le> resolve (foldl narrow_with p cs) j"
      using capability_narrowing.narrow_chain_ge capability_narrowing.narrow_chain_member
      by (auto intro!: Max.boundedI)
  qed
  show ?thesis by (simp add: chain effective_eq_Max)
qed

text \<open>
  A plugin never gets a capability it did not declare, nor more than the
  core policy or its own request resolve to.
\<close>

theorem plugin_policy_bounded:
  "(k \<notin> set declared \<longrightarrow> resolve (narrowed_plugin_policy core declared requested) k = Deny) \<and>
   resolve core k \<le> resolve (narrowed_plugin_policy core declared requested) k \<and>
   resolve requested k \<le> resolve (narrowed_plugin_policy core declared requested) k"
proof -
  have decl: "resolve (foldl (\<lambda>d k. policy_set k Allow d) q ds) k =
      (if k \<in> set ds then Allow else resolve q k)" for q ds
    by (induction ds arbitrary: q) (auto simp: resolve_def policy_set_def or_else_def unwrap_or_def)
  have "resolve (new_policy (Some Deny)) k = Deny"
    by (simp add: resolve_def new_policy_def or_else_def unwrap_or_def)
  then show ?thesis
    by (simp add: narrowed_plugin_policy_def resolve_narrow_with decl)
qed

theorem plugin_policy_bounded_witness:
  "Network \<notin> set [Read] \<and>
   resolve (narrowed_plugin_policy (new_policy (Some Allow)) [Read] (new_policy None)) Network = Deny"
  using plugin_policy_bounded [of Network "[Read]" "new_policy (Some Allow)" "new_policy None"] by simp

text \<open>
  An overlay is configuration and may loosen: each capability it decides is
  resolved by it, any other keeps the base entry, and only a capability neither names
  falls to the overlay's wildcard before the base's.
\<close>

theorem apply_overrides_resolves:
  "resolve (apply_overrides p overlay) k =
     (case cp_decisions overlay k of
        Some d \<Rightarrow> d
      | None \<Rightarrow>
          (case cp_decisions p k of
             Some d \<Rightarrow> d
           | None \<Rightarrow> unwrap_or (unwrap_or Allow (cp_wildcard p)) (cp_wildcard overlay)))"
  by (simp add: resolve_def apply_overrides_def or_else_def unwrap_or_def map_add_def split: option.splits)

end
