(* ===== verification/State_Tables.thy ===== *)
theory State_Tables
  imports Event_Masking Capability_Policy
begin

text \<open>
  The tables of the durable store, \<open>crates/cool-state/src/lib.rs\<close>, and the helpers
  every operation is made of: the status machine of a run, the idempotency records,
  \<open>require_run\<close>, \<open>masked_envelope\<close> and \<open>append_event_tx\<close>.

  A table is the list of its rows in \<open>rowid\<close> order. No row is ever deleted, so the
  \<open>rowid\<close> of a row is its position, counted from 1. SQLite's part is written out: a
  primary key, \<open>UNIQUE\<close> or foreign key that an insert violates is the error
  \<open>Sqlite\<close>. An operation runs in one immediate transaction under the connection's
  mutex, and an error rolls it back: it is a function that returns an error or a value and the
  new database. A column whose text is confined to an enumeration by a \<open>CHECK\<close> holds
  the enumeration. JSON text columns hold the document. The columns that no statement reads or
  writes (\<open>usage_json\<close>, \<open>iterations\<close>) are left out. UUIDs and clock readings
  are parameters.
\<close>

section \<open>Run status\<close>

datatype run_status = Queued | Running | AwaitingApproval | Completed | Failed | Cancelled | Rewound

definition is_terminal :: "run_status \<Rightarrow> bool" where
  "is_terminal s \<longleftrightarrow> s = Completed \<or> s = Failed \<or> s = Cancelled \<or> s = Rewound"

definition status_name :: "run_status \<Rightarrow> string" where
  "status_name s = (case s of
     Queued \<Rightarrow> ''queued'' | Running \<Rightarrow> ''running'' | AwaitingApproval \<Rightarrow> ''awaiting_approval''
   | Completed \<Rightarrow> ''completed'' | Failed \<Rightarrow> ''failed'' | Cancelled \<Rightarrow> ''cancelled''
   | Rewound \<Rightarrow> ''rewound'')"

definition transition_allowed :: "run_status \<Rightarrow> run_status \<Rightarrow> bool" where
  "transition_allowed a b \<longleftrightarrow> a = b \<or>
     (a, b) \<in> {(Queued, Running), (Queued, Cancelled), (Running, AwaitingApproval), (Running, Completed),
       (Running, Failed), (Running, Cancelled), (AwaitingApproval, Running), (AwaitingApproval, Failed),
       (AwaitingApproval, Cancelled)}"

fun event_status :: "canonical_event \<Rightarrow> run_status option" where
  "event_status (RunStarted p) = Some Running"
| "event_status (ToolApprovalRequired p) = Some AwaitingApproval"
| "event_status (ToolApprovalResolved p) = Some Running"
| "event_status (RunCompleted p) = Some Completed"
| "event_status (RunFailed p) = Some Failed"
| "event_status (RunCancelled p) = Some Cancelled"
| "event_status _ = None"

fun is_history_event :: "canonical_event \<Rightarrow> bool" where
  "is_history_event (ItemCompleted item) \<longleftrightarrow>
     ie_role item = Some ''user'' \<or> ie_role item = Some ''assistant''"
| "is_history_event (ToolCompleted p) = True"
| "is_history_event (ToolFailed p) = True"
| "is_history_event (SessionCompacted p) = True"
| "is_history_event _ = False"

section \<open>Errors\<close>

record budget_snapshot =
  bs_tokens :: "64 word"
  bs_cost_microusd :: "64 word"
  bs_iterations :: "64 word"
  bs_proactive_actions :: "64 word"
  bs_revision :: "64 word"

text \<open>\<open>Corrupt\<close> keeps the values its message is formatted from.\<close>

datatype corruption =
    UnknownStatus string
  | SequenceRange
  | SessionMismatch
  | ExpectedSequence "64 word" "64 word"
  | EventGap string "64 word" "64 word"
  | ProjectionDiffers run_status run_status
  | ApprovalAnswer
  | UnknownApprovalState string
  | CounterOverflow string
  | CounterRange string
  | InvalidArtifact
  | GenerationOverflow
  | NewerSchema int

datatype store_error =
    Sqlite
  | JsonError
  | InvalidTransition run_status run_status
  | IdempotencyConflict
  | NotFound string
  | ActorMismatch
  | RevisionConflict
  | AlreadyResolved
  | RunNotActive
  | BudgetLimit budget_snapshot
  | RewindRejected string
  | Corrupt corruption

definition status_parse :: "string \<Rightarrow> (store_error, run_status) result" where
  "status_parse v =
     (if v = ''queued'' then Inr Queued
      else if v = ''running'' then Inr Running
      else if v = ''awaiting_approval'' then Inr AwaitingApproval
      else if v = ''completed'' then Inr Completed
      else if v = ''failed'' then Inr Failed
      else if v = ''cancelled'' then Inr Cancelled
      else if v = ''rewound'' then Inr Rewound
      else Inl (Corrupt (UnknownStatus v)))"

section \<open>Rows\<close>

record session_row =
  sn_id :: string
  sn_actor_id :: string
  sn_title :: "string option"
  sn_project_key :: "string option"
  sn_active_run_id :: "string option"
  sn_created_at :: string

record run_row =
  rn_id :: string
  rn_session_id :: string
  rn_actor_id :: string
  rn_status :: run_status
  rn_last_seq :: int
  rn_checkpoint :: "json option"
  rn_finish_reason :: "string option"
  rn_updated_at :: string
  rn_purpose :: "string option"

record event_row =
  ev_event_id :: string
  ev_run_id :: string
  ev_seq :: int
  ev_envelope :: json

record idempotency_row =
  ix_actor_id :: string
  ix_scope :: string
  ix_key :: string
  ix_fingerprint :: string
  ix_result :: json

record cancel_row =
  ci_run_id :: string
  ci_actor_id :: string
  ci_reason :: string
  ci_accepted_at :: string

datatype approval_state = Pending | Resolved approval_outcome

record approval_row =
  ap_id :: string
  ap_session_id :: string
  ap_run_id :: string
  ap_call_id :: string
  ap_tool_name :: string
  ap_reason :: string
  ap_actor_id :: string
  ap_revision :: int
  ap_state :: approval_state
  ap_decided_by :: "string option"
  ap_decision_source :: "string option"
  ap_created_at :: string
  ap_decided_at :: "string option"
  ap_answer :: "json option"

record audit_row =
  au_id :: string
  au_actor_id :: string
  au_source :: string
  au_action :: string
  au_subject_id :: string
  au_payload :: json
  au_occurred_at :: string

record budget_limits =
  bl_tokens :: "64 word option"
  bl_cost_microusd :: "64 word option"
  bl_iterations :: "64 word option"
  bl_proactive_actions :: "64 word option"

record counter_row =
  bc_tokens :: int
  bc_cost_microusd :: int
  bc_iterations :: int
  bc_proactive_actions :: int
  bc_revision :: int

record artifact_row =
  af_id :: string
  af_session_id :: string
  af_run_id :: "string option"
  af_sha256 :: string
  af_size_bytes :: int
  af_storage_path :: string
  af_actor_id :: string
  af_source :: string
  af_created_at :: string

datatype worker_status = Starting | WorkerRunning | WorkerDown | Stopped

record worker_row =
  wk_run_id :: "string option"
  wk_status :: worker_status
  wk_generation :: int
  wk_last_error :: "string option"
  wk_updated_at :: string

record link_row =
  ln_conversation_id :: int
  ln_actor_id :: string
  ln_session_id :: string
  ln_created_at :: string

text \<open>
  Budgets, counters and workers are only ever reached through their primary key, by an upsert
  or a lookup: they are maps from it.
\<close>

record db =
  db_sessions :: "session_row list"
  db_runs :: "run_row list"
  db_events :: "event_row list"
  db_idempotency :: "idempotency_row list"
  db_cancels :: "cancel_row list"
  db_approvals :: "approval_row list"
  db_audit :: "audit_row list"
  db_budgets :: "string \<times> string \<rightharpoonup> budget_limits"
  db_counters :: "string \<times> string \<rightharpoonup> counter_row"
  db_artifacts :: "artifact_row list"
  db_workers :: "string \<rightharpoonup> worker_row"
  db_links :: "link_row list"

definition empty_db :: db where
  "empty_db = \<lparr>db_sessions = [], db_runs = [], db_events = [], db_idempotency = [], db_cancels = [],
     db_approvals = [], db_audit = [], db_budgets = Map.empty, db_counters = Map.empty,
     db_artifacts = [], db_workers = Map.empty, db_links = []\<rparr>"

definition find_session :: "string \<Rightarrow> db \<Rightarrow> session_row option" where
  "find_session i db = find (\<lambda>s. sn_id s = i) (db_sessions db)"

definition find_run :: "string \<Rightarrow> db \<Rightarrow> run_row option" where
  "find_run i db = find (\<lambda>r. rn_id r = i) (db_runs db)"

definition find_approval :: "string \<Rightarrow> db \<Rightarrow> approval_row option" where
  "find_approval i db = find (\<lambda>a. ap_id a = i) (db_approvals db)"

text \<open>\<open>i64 as u64\<close> and \<open>u64 as i64\<close>\<close>

definition as_u64 :: "int \<Rightarrow> 64 word" where "as_u64 i = word_of_int i"
definition as_i64 :: "64 word \<Rightarrow> int" where "as_i64 w = sint w"

section \<open>Inserts and updates\<close>

definition insert_session :: "session_row \<Rightarrow> db \<Rightarrow> (store_error, db) result" where
  "insert_session s db =
     (if sn_id s \<in> sn_id ` set (db_sessions db) then Inl Sqlite
      else Inr (db\<lparr>db_sessions := db_sessions db @ [s]\<rparr>))"

definition insert_run :: "run_row \<Rightarrow> db \<Rightarrow> (store_error, db) result" where
  "insert_run r db =
     (if rn_id r \<in> rn_id ` set (db_runs db) \<or> rn_session_id r \<notin> sn_id ` set (db_sessions db) then Inl Sqlite
      else Inr (db\<lparr>db_runs := db_runs db @ [r]\<rparr>))"

definition insert_event :: "event_row \<Rightarrow> db \<Rightarrow> (store_error, db) result" where
  "insert_event e db =
     (if ev_event_id e \<in> ev_event_id ` set (db_events db) \<or>
         (ev_run_id e, ev_seq e) \<in> (\<lambda>x. (ev_run_id x, ev_seq x)) ` set (db_events db) \<or>
         ev_run_id e \<notin> rn_id ` set (db_runs db) then Inl Sqlite
      else Inr (db\<lparr>db_events := db_events db @ [e]\<rparr>))"

definition insert_cancel :: "cancel_row \<Rightarrow> db \<Rightarrow> (store_error, db) result" where
  "insert_cancel c db =
     (if ci_run_id c \<in> ci_run_id ` set (db_cancels db) \<or> ci_run_id c \<notin> rn_id ` set (db_runs db) then Inl Sqlite
      else Inr (db\<lparr>db_cancels := db_cancels db @ [c]\<rparr>))"

definition insert_approval :: "approval_row \<Rightarrow> db \<Rightarrow> (store_error, db) result" where
  "insert_approval a db =
     (if ap_id a \<in> ap_id ` set (db_approvals db) \<or>
         (ap_run_id a, ap_call_id a) \<in> (\<lambda>x. (ap_run_id x, ap_call_id x)) ` set (db_approvals db) \<or>
         ap_run_id a \<notin> rn_id ` set (db_runs db) then Inl Sqlite
      else Inr (db\<lparr>db_approvals := db_approvals db @ [a]\<rparr>))"

definition insert_audit :: "audit_row \<Rightarrow> db \<Rightarrow> (store_error, db) result" where
  "insert_audit a db =
     (if au_id a \<in> au_id ` set (db_audit db) then Inl Sqlite
      else Inr (db\<lparr>db_audit := db_audit db @ [a]\<rparr>))"

definition insert_link :: "link_row \<Rightarrow> db \<Rightarrow> (store_error, db) result" where
  "insert_link l db =
     (if ln_conversation_id l \<in> ln_conversation_id ` set (db_links db) \<or>
         ln_session_id l \<notin> sn_id ` set (db_sessions db) then Inl Sqlite
      else Inr (db\<lparr>db_links := db_links db @ [l]\<rparr>))"

definition update_run :: "string \<Rightarrow> (run_row \<Rightarrow> run_row) \<Rightarrow> db \<Rightarrow> db" where
  "update_run i f db = db\<lparr>db_runs := map (\<lambda>r. if rn_id r = i then f r else r) (db_runs db)\<rparr>"

definition update_session :: "(session_row \<Rightarrow> bool) \<Rightarrow> (session_row \<Rightarrow> session_row) \<Rightarrow> db \<Rightarrow> db" where
  "update_session p f db = db\<lparr>db_sessions := map (\<lambda>s. if p s then f s else s) (db_sessions db)\<rparr>"

text \<open>\<open>UPDATE rust_sessions SET active_run_id = ?1 WHERE id = ?2\<close>, with its foreign key.\<close>

definition set_active_run :: "string \<Rightarrow> string \<Rightarrow> db \<Rightarrow> (store_error, db) result" where
  "set_active_run session run db =
     (if run \<notin> rn_id ` set (db_runs db) \<and> session \<in> sn_id ` set (db_sessions db) then Inl Sqlite
      else Inr (update_session (\<lambda>s. sn_id s = session) (\<lambda>s. s\<lparr>sn_active_run_id := Some run\<rparr>) db))"

definition clear_active_run :: "string \<Rightarrow> string \<Rightarrow> db \<Rightarrow> db" where
  "clear_active_run session run db =
     update_session (\<lambda>s. sn_id s = session \<and> sn_active_run_id s = Some run)
       (\<lambda>s. s\<lparr>sn_active_run_id := None\<rparr>) db"

section \<open>Idempotency records\<close>

definition idempotency_match :: "string \<Rightarrow> string \<Rightarrow> string \<Rightarrow> idempotency_row \<Rightarrow> bool" where
  "idempotency_match actor scope key r \<longleftrightarrow>
     ix_actor_id r = actor \<and> ix_scope r = scope \<and> ix_key r = key"

definition lookup_idempotency ::
    "(json \<Rightarrow> 'a option) \<Rightarrow> string \<Rightarrow> string \<Rightarrow> string \<Rightarrow> string \<Rightarrow> db \<Rightarrow> (store_error, 'a option) result" where
  "lookup_idempotency read actor scope key fingerprint db =
     (case find (idempotency_match actor scope key) (db_idempotency db) of
        None \<Rightarrow> Inr None
      | Some r \<Rightarrow>
          if ix_fingerprint r \<noteq> fingerprint then Inl IdempotencyConflict
          else ebind (ok_or JsonError (read (ix_result r))) (\<lambda>v. Inr (Some v)))"

definition insert_idempotency ::
    "string \<Rightarrow> string \<Rightarrow> string \<Rightarrow> string \<Rightarrow> json \<Rightarrow> db \<Rightarrow> (store_error, db) result" where
  "insert_idempotency actor scope key fingerprint res db =
     (if list_ex (idempotency_match actor scope key) (db_idempotency db) then Inl Sqlite
      else Inr (db\<lparr>db_idempotency := db_idempotency db @
        [\<lparr>ix_actor_id = actor, ix_scope = scope, ix_key = key, ix_fingerprint = fingerprint,
          ix_result = res\<rparr>]\<rparr>))"

section \<open>Reading a run\<close>

record run_snapshot =
  sp_run_id :: string
  sp_session_id :: string
  sp_actor_id :: string
  sp_status :: run_status
  sp_last_seq :: "64 word"
  sp_checkpoint :: "json option"

definition run_snapshot_of :: "run_row \<Rightarrow> run_snapshot" where
  "run_snapshot_of r = \<lparr>sp_run_id = rn_id r, sp_session_id = rn_session_id r,
     sp_actor_id = rn_actor_id r, sp_status = rn_status r, sp_last_seq = as_u64 (rn_last_seq r),
     sp_checkpoint = rn_checkpoint r\<rparr>"

definition require_run :: "string \<Rightarrow> string \<Rightarrow> db \<Rightarrow> (store_error, run_snapshot) result" where
  "require_run run actor db =
     ebind (ok_or (NotFound ''run'') (find_run run db)) (\<lambda>r.
     ebind (ensure (rn_actor_id r = actor) ActorMismatch) (\<lambda>_.
     Inr (run_snapshot_of r)))"

definition run_status_of :: "string \<Rightarrow> db \<Rightarrow> (store_error, run_status) result" where
  "run_status_of run db =
     ebind (ok_or (NotFound ''run'') (find_run run db)) (\<lambda>r. Inr (rn_status r))"

text \<open>The check of a session's owner that most operations start with.\<close>

definition owned_session :: "string \<Rightarrow> string \<Rightarrow> db \<Rightarrow> (store_error, session_row) result" where
  "owned_session session actor db =
     ebind (ok_or (NotFound ''session'') (find_session session db)) (\<lambda>s.
     ebind (ensure (sn_actor_id s = actor) ActorMismatch) (\<lambda>_. Inr s))"

section \<open>Appending an event\<close>

definition masked_envelope :: "(string \<Rightarrow> string) \<Rightarrow> event_envelope \<Rightarrow> (store_error, event_envelope) result" where
  "masked_envelope ms e = ok_or JsonError (d_envelope (mask_json ms (envelope_json e)))"

definition checkpoint_json :: "event_envelope \<Rightarrow> run_status \<Rightarrow> json" where
  "checkpoint_json e s = JObject [(''lastEventId'', JString (ee_event_id e)),
     (''lastSeq'', u64_json (ee_seq e)), (''status'', JString (status_name s))]"

fun terminal_reason :: "canonical_event \<Rightarrow> string option" where
  "terminal_reason (RunCompleted p) = Some (rt_reason p)"
| "terminal_reason (RunFailed p) = Some (rt_reason p)"
| "terminal_reason (RunCancelled p) = Some (rt_reason p)"
| "terminal_reason _ = None"

text \<open>The two statements that project an appended event on its run and session.\<close>

definition advance_run ::
    "string \<Rightarrow> run_status \<Rightarrow> event_envelope \<Rightarrow> string option \<Rightarrow> run_row \<Rightarrow> run_row" where
  "advance_run t s e reason r = r\<lparr>rn_status := s, rn_last_seq := as_i64 (ee_seq e),
     rn_checkpoint := Some (checkpoint_json e s),
     rn_finish_reason := or_else reason (rn_finish_reason r), rn_updated_at := t\<rparr>"

definition append_event_tx ::
    "(string \<Rightarrow> string) \<Rightarrow> string \<Rightarrow> string \<Rightarrow> event_envelope \<Rightarrow> db \<Rightarrow> (store_error, db) result" where
  "append_event_tx ms t owner e db =
     ebind (ensure (uint (ee_seq e) \<le> int i64_max) (Corrupt SequenceRange)) (\<lambda>_.
     ebind (require_run (ee_run_id e) owner db) (\<lambda>run.
     ebind (ensure (sp_session_id run = ee_session_id e) (Corrupt SessionMismatch)) (\<lambda>_.
     ebind (ensure (\<not> is_terminal (sp_status run))
              (InvalidTransition (sp_status run)
                 (unwrap_or (sp_status run) (event_status (ee_event e))))) (\<lambda>_.
     ebind (ensure (ee_seq e = sp_last_seq run + 1)
              (Corrupt (ExpectedSequence (sp_last_seq run + 1) (ee_seq e)))) (\<lambda>_.
     let next = unwrap_or (sp_status run) (event_status (ee_event e)) in
     ebind (ensure (transition_allowed (sp_status run) next) (InvalidTransition (sp_status run) next)) (\<lambda>_.
     ebind (masked_envelope ms e) (\<lambda>persisted.
     ebind (insert_event \<lparr>ev_event_id = ee_event_id e, ev_run_id = ee_run_id e,
              ev_seq = as_i64 (ee_seq e), ev_envelope = envelope_json persisted\<rparr> db) (\<lambda>db1.
     let db2 = update_run (ee_run_id e) (advance_run t next e (terminal_reason (ee_event persisted))) db1
     in Inr (if is_terminal next then clear_active_run (ee_session_id e) (ee_run_id e) db2 else db2)))))))))"

text \<open>Appends one after the other, the clock read once for each.\<close>

definition append_all ::
    "(string \<Rightarrow> string) \<Rightarrow> string \<Rightarrow> (string \<times> event_envelope) list \<Rightarrow> db \<Rightarrow> (store_error, db) result" where
  "append_all ms owner es db = efold (\<lambda>(t, e). append_event_tx ms t owner e) es db"

end
