(* ===== verification/Stored_Documents.thy ===== *)
theory Stored_Documents
  imports State_Tables
begin

text \<open>
  What \<open>masked_envelope\<close> stores: a document that reads back, with the sequence number,
  the tag and so the status of the event it was made from. A non-finite optional float is
  written as null and comes back absent; a non-finite budget figure makes the event
  unwritable, which is the error \<open>JsonError\<close>.
\<close>

definition drop_nonfinite :: "64 word option \<Rightarrow> 64 word option" where
  "drop_nonfinite x = (case x of None \<Rightarrow> None | Some w \<Rightarrow> if f64_finite w then Some w else None)"

fun written_event :: "canonical_event \<Rightarrow> canonical_event" where
  "written_event (UsageUpdated p) = UsageUpdated (p\<lparr>uu_cost_usd := drop_nonfinite (uu_cost_usd p)\<rparr>)"
| "written_event (SubagentProgress p) = SubagentProgress (p\<lparr>sp_percent := drop_nonfinite (sp_percent p)\<rparr>)"
| "written_event (ResearchStage p) = ResearchStage (p\<lparr>rg_progress := drop_nonfinite (rg_progress p)\<rparr>)"
| "written_event e = e"

definition budget_finite :: "budget_event \<Rightarrow> bool" where
  "budget_finite p \<longleftrightarrow> f64_finite (be_spend_usd p) \<and> f64_finite (be_limit_usd p) \<and> f64_finite (be_percent p)"

fun writable :: "canonical_event \<Rightarrow> bool" where
  "writable (BudgetWarning p) = budget_finite p"
| "writable (BudgetExceeded p) = budget_finite p"
| "writable _ = True"

definition written :: "event_envelope \<Rightarrow> event_envelope" where
  "written e = e\<lparr>ee_event := written_event (ee_event e)\<rparr>"

lemma opt_json_drop [simp]: "opt_json f64_json (drop_nonfinite x) = opt_json f64_json x"
  by (cases x) (simp_all add: drop_nonfinite_def opt_json_def f64_json_def)

lemma pred_option_drop [simp]: "pred_option f64_finite (drop_nonfinite x)"
  by (cases x) (simp_all add: drop_nonfinite_def)

lemma written_payload: "payload_json (written_event e) = payload_json e"
  by (cases e) (simp_all add: usage_updated_json_def subagent_progress_json_def research_stage_json_def)

lemma written_tag [simp]: "event_tag (written_event e) = event_tag e"
  by (cases e) simp_all

lemma written_json: "envelope_json (written e) = envelope_json e"
  by (simp add: envelope_json_def written_def event_json_def written_payload)

lemma written_finite: "writable e \<Longrightarrow> event_finite (written_event e)"
  by (cases e) (simp_all add: budget_finite_def)

lemma d_budget_nonfinite: "\<not> budget_finite p \<Longrightarrow> d_budget_event (mask_json ms (budget_event_json p)) = None"
  by (auto simp: d_budget_event_def budget_event_json_def reading masking budget_finite_def
      f64_json_def d_f64_def)

lemma d_event_unwritable:
  "wire_fixed ms \<Longrightarrow> \<not> writable e \<Longrightarrow> d_event (mask_json ms (event_json e)) = None"
  by (cases e)
     (simp_all add: d_event_def event_json_def reading masking d_tagged_def d_budget_nonfinite wire_fixedD wire_words_def)

lemma d_envelope_event:
  "d_event (mask_json ms (event_json (ee_event e))) = None \<Longrightarrow> d_envelope (mask_json ms (envelope_json e)) = None"
  by (auto simp: d_envelope_def envelope_json_def reading masking split: option.splits)

lemma event_finite_mask [simp]: "event_finite (mask_event ms e) = event_finite e"
  by (cases e) (simp_all add: mask_usage_updated_def mask_budget_event_def mask_subagent_progress_def
      mask_research_stage_def)

lemma event_status_mask [simp]: "event_status (mask_event ms e) = event_status e"
  by (cases e) simp_all

lemma event_status_written [simp]: "event_status (written_event e) = event_status e"
  by (cases e) simp_all

lemma masked_envelope_Inr:
  assumes "wire_fixed ms" "masked_envelope ms e = Inr e'"
  shows "e' = mask_envelope ms (written e) \<and> event_finite (ee_event e')"
proof -
  from assms(2) have d: "d_envelope (mask_json ms (envelope_json e)) = Some e'"
    by (simp add: masked_envelope_def ok_or_Inr_iff)
  have w: "writable (ee_event e)"
  proof (rule ccontr)
    assume "\<not> writable (ee_event e)"
    from d_envelope_event [OF d_event_unwritable [OF assms(1) this]] d show False by simp
  qed
  then have fin: "event_finite (ee_event (written e))" by (simp add: written_def written_finite)
  from d_mask_envelope [OF assms(1) this] d have "e' = mask_envelope ms (written e)"
    by (simp add: written_json)
  with fin show ?thesis by (simp add: mask_envelope_def)
qed

lemma masked_envelope_total:
  assumes "wire_fixed ms" "writable (ee_event e)"
  shows "masked_envelope ms e = Inr (mask_envelope ms (written e))"
proof -
  have "event_finite (ee_event (written e))" using assms(2) by (simp add: written_def written_finite)
  from d_mask_envelope [OF assms(1) this] show ?thesis by (simp add: masked_envelope_def written_json)
qed

text \<open>What the stored document says of the event, whatever its texts.\<close>

lemma masked_envelope_facts:
  assumes "wire_fixed ms" "masked_envelope ms e = Inr e'"
  shows "ee_seq e' = ee_seq e" "event_status (ee_event e') = event_status (ee_event e)"
    "d_envelope (envelope_json e') = Some e'"
proof -
  from masked_envelope_Inr [OF assms] have e': "e' = mask_envelope ms (written e)"
    and fin: "event_finite (ee_event e')" by blast+
  from e' show "ee_seq e' = ee_seq e" "event_status (ee_event e') = event_status (ee_event e)"
    by (simp_all add: mask_envelope_def written_def)
  from fin show "d_envelope (envelope_json e') = Some e'" by (rule d_envelope_json)
qed

end
