(* ===== verification/State_Invariant.thy ===== *)
theory State_Invariant
  imports Stored_Documents
begin

text \<open>
  The invariant of the store and its preservation by the statements the operations are
  composed of. Collection \<open>keeps\<close>: what each statement leaves alone; collection
  \<open>inv_intros\<close>: that each keeps the invariant.
\<close>

named_theorems keeps \<open>tables a statement does not touch\<close>
named_theorems inv_intros \<open>preservation of the store invariant\<close>

section \<open>The invariant\<close>

definition run_events :: "string \<Rightarrow> db \<Rightarrow> event_row list" where
  "run_events i db = filter (\<lambda>e. ev_run_id e = i) (db_events db)"

definition row_status :: "event_row \<Rightarrow> run_status option" where
  "row_status row = Option.bind (d_envelope (ev_envelope row)) (\<lambda>e. event_status (ee_event e))"

text \<open>The status a run has after its events, the loop of \<open>replay_run\<close>.\<close>

definition projected_status :: "event_row list \<Rightarrow> run_status" where
  "projected_status rows = foldl (\<lambda>s row. unwrap_or s (row_status row)) Running rows"

definition keys_ok :: "db \<Rightarrow> bool" where
  "keys_ok db \<longleftrightarrow>
     distinct (map sn_id (db_sessions db)) \<and> distinct (map rn_id (db_runs db)) \<and>
     distinct (map ev_event_id (db_events db)) \<and>
     (\<forall>r \<in> set (db_runs db). \<exists>s \<in> set (db_sessions db).
        sn_id s = rn_session_id r \<and> sn_actor_id s = rn_actor_id r) \<and>
     (\<forall>e \<in> set (db_events db). ev_run_id e \<in> rn_id ` set (db_runs db))"

definition log_complete :: "db \<Rightarrow> run_row \<Rightarrow> bool" where
  "log_complete db r \<longleftrightarrow>
     0 \<le> rn_last_seq r \<and> rn_last_seq r \<le> int i64_max \<and>
     map ev_seq (run_events (rn_id r) db) = [1..rn_last_seq r]"

definition row_readable :: "event_row \<Rightarrow> bool" where
  "row_readable row \<longleftrightarrow>
     (\<exists>e. d_envelope (ev_envelope row) = Some e \<and> as_i64 (ee_seq e) = ev_seq row)"

definition status_projected :: "db \<Rightarrow> run_row \<Rightarrow> bool" where
  "status_projected db r \<longleftrightarrow>
     rn_status r = Rewound \<or> rn_status r = projected_status (run_events (rn_id r) db)"

definition active_live :: "db \<Rightarrow> session_row \<Rightarrow> bool" where
  "active_live db s \<longleftrightarrow> (\<forall>i. sn_active_run_id s = Some i \<longrightarrow>
     (\<exists>r \<in> set (db_runs db). rn_id r = i \<and> rn_session_id r = sn_id s \<and> \<not> is_terminal (rn_status r)))"

definition db_ok :: "db \<Rightarrow> bool" where
  "db_ok db \<longleftrightarrow> keys_ok db \<and>
     (\<forall>r \<in> set (db_runs db). log_complete db r \<and> status_projected db r) \<and>
     (\<forall>e \<in> set (db_events db). row_readable e) \<and>
     (\<forall>s \<in> set (db_sessions db). active_live db s)"

lemma db_ok_empty [simp]: "db_ok empty_db"
  by (simp add: db_ok_def keys_ok_def empty_db_def)

section \<open>Lookups\<close>

lemma find_run_Some:
  "find_run i db = Some r \<Longrightarrow> r \<in> set (db_runs db) \<and> rn_id r = i"
  unfolding find_run_def by (drule find_Some_in) simp

lemma find_run_eq:
  "keys_ok db \<Longrightarrow> r \<in> set (db_runs db) \<Longrightarrow> rn_id r = i \<Longrightarrow> find_run i db = Some r"
  unfolding find_run_def by (rule find_distinct_eq) (simp_all add: keys_ok_def)

lemma find_run_None: "find_run i db = None \<longleftrightarrow> i \<notin> rn_id ` set (db_runs db)"
  by (auto simp: find_run_def find_None_all)

lemma find_session_Some:
  "find_session i db = Some s \<Longrightarrow> s \<in> set (db_sessions db) \<and> sn_id s = i"
  unfolding find_session_def by (drule find_Some_in) simp

lemma find_session_eq:
  "keys_ok db \<Longrightarrow> s \<in> set (db_sessions db) \<Longrightarrow> sn_id s = i \<Longrightarrow> find_session i db = Some s"
  unfolding find_session_def by (rule find_distinct_eq) (simp_all add: keys_ok_def)

lemma same_run: "keys_ok db \<Longrightarrow> r \<in> set (db_runs db) \<Longrightarrow> r' \<in> set (db_runs db) \<Longrightarrow> rn_id r = rn_id r' \<Longrightarrow> r = r'"
  using find_run_eq [of db r "rn_id r"] find_run_eq [of db r' "rn_id r"] by simp

lemma require_run_Inr:
  "require_run i actor db = Inr sp \<longleftrightarrow>
     (\<exists>r. find_run i db = Some r \<and> rn_actor_id r = actor \<and> sp = run_snapshot_of r)"
  by (auto simp: require_run_def res_simps)

lemma run_snapshot_simps [simp]:
  "sp_run_id (run_snapshot_of r) = rn_id r" "sp_session_id (run_snapshot_of r) = rn_session_id r"
  "sp_actor_id (run_snapshot_of r) = rn_actor_id r" "sp_status (run_snapshot_of r) = rn_status r"
  "sp_last_seq (run_snapshot_of r) = as_u64 (rn_last_seq r)"
  "sp_checkpoint (run_snapshot_of r) = rn_checkpoint r"
  by (simp_all add: run_snapshot_of_def)

lemma owned_session_Inr:
  "owned_session i actor db = Inr s \<longleftrightarrow> find_session i db = Some s \<and> sn_actor_id s = actor"
  by (auto simp: owned_session_def res_simps)

section \<open>Sequence numbers\<close>

lemma next_seq:
  assumes "0 \<le> l" "l \<le> int i64_max" "s = as_u64 l + 1" "uint s \<le> int i64_max"
  shows "as_i64 s = l + 1" "uint s = l + 1"
proof -
  have "uint s = (l + 1) mod 2 ^ 64"
    using assms(1,2) by (simp add: assms(3) as_u64_def uint_word_ariths uint_word_of_int mod_simps)
  also have "\<dots> = l + 1" using assms(1,2) by (intro mod_pos_pos_trivial) simp_all
  finally show u: "uint s = l + 1" .
  with assms(4) show "as_i64 s = l + 1" by (simp add: as_i64_def sint_u64)
qed

lemma projected_snoc:
  "projected_status (rows @ [row]) = unwrap_or (projected_status rows) (row_status row)"
  by (simp add: projected_status_def)

section \<open>The effect of an append\<close>

definition appended_row :: "event_envelope \<Rightarrow> event_envelope \<Rightarrow> event_row" where
  "appended_row e persisted = \<lparr>ev_event_id = ee_event_id e, ev_run_id = ee_run_id e,
     ev_seq = as_i64 (ee_seq e), ev_envelope = envelope_json persisted\<rparr>"

lemma append_event_txE:
  assumes "append_event_tx ms t owner e db = Inr db'"
  obtains r persisted nxt where
    "find_run (ee_run_id e) db = Some r" "rn_actor_id r = owner" "rn_session_id r = ee_session_id e"
    "\<not> is_terminal (rn_status r)" "ee_seq e = as_u64 (rn_last_seq r) + 1"
    "uint (ee_seq e) \<le> int i64_max"
    "nxt = unwrap_or (rn_status r) (event_status (ee_event e))" "transition_allowed (rn_status r) nxt"
    "masked_envelope ms e = Inr persisted"
    "ee_event_id e \<notin> ev_event_id ` set (db_events db)"
    "db_events db' = db_events db @ [appended_row e persisted]"
    "db_runs db' = map (\<lambda>r. if rn_id r = ee_run_id e
        then advance_run t nxt e (terminal_reason (ee_event persisted)) r else r) (db_runs db)"
    "db_sessions db' = map (\<lambda>s. if is_terminal nxt \<and> sn_id s = ee_session_id e \<and>
        sn_active_run_id s = Some (ee_run_id e) then s\<lparr>sn_active_run_id := None\<rparr> else s) (db_sessions db)"
proof -
  from assms obtain run persisted db1 where
    seq: "uint (ee_seq e) \<le> int i64_max" and run: "require_run (ee_run_id e) owner db = Inr run"
    and sess: "sp_session_id run = ee_session_id e" and live: "\<not> is_terminal (sp_status run)"
    and nseq: "ee_seq e = sp_last_seq run + 1"
    and trans: "transition_allowed (sp_status run) (unwrap_or (sp_status run) (event_status (ee_event e)))"
    and mask: "masked_envelope ms e = Inr persisted"
    and ins: "insert_event (appended_row e persisted) db = Inr db1"
    and db': "db' = (let nxt = unwrap_or (sp_status run) (event_status (ee_event e));
        db2 = update_run (ee_run_id e) (advance_run t nxt e (terminal_reason (ee_event persisted))) db1
      in if is_terminal nxt then clear_active_run (ee_session_id e) (ee_run_id e) db2 else db2)"
    unfolding append_event_tx_def Let_def appended_row_def by (auto simp: res_simps)
  from run obtain r where r: "find_run (ee_run_id e) db = Some r" "rn_actor_id r = owner"
    "run = run_snapshot_of r"
    by (auto simp: require_run_Inr)
  from ins have db1: "db1 = db\<lparr>db_events := db_events db @ [appended_row e persisted]\<rparr>"
    and new: "ee_event_id e \<notin> ev_event_id ` set (db_events db)"
    by (auto simp: insert_event_def appended_row_def split: if_splits)
  show thesis
  proof (rule that [of r "unwrap_or (rn_status r) (event_status (ee_event e))" persisted])
    show "db_sessions db' = map (\<lambda>s. if is_terminal (unwrap_or (rn_status r) (event_status (ee_event e))) \<and>
        sn_id s = ee_session_id e \<and> sn_active_run_id s = Some (ee_run_id e)
        then s\<lparr>sn_active_run_id := None\<rparr> else s) (db_sessions db)"
      by (simp add: db' db1 r(3) Let_def clear_active_run_def update_session_def update_run_def)
  qed (use r seq sess live nseq trans mask new in
      \<open>simp_all add: db' db1 Let_def clear_active_run_def update_session_def update_run_def\<close>)
qed

lemma append_event_tx_keeps [keeps]:
  assumes "append_event_tx ms t owner e db = Inr db'"
  shows "db_idempotency db' = db_idempotency db" "db_cancels db' = db_cancels db"
    "db_approvals db' = db_approvals db" "db_audit db' = db_audit db" "db_budgets db' = db_budgets db"
    "db_counters db' = db_counters db" "db_artifacts db' = db_artifacts db"
    "db_workers db' = db_workers db" "db_links db' = db_links db"
  using assms unfolding append_event_tx_def Let_def
  by (auto simp: res_simps insert_event_def clear_active_run_def update_session_def update_run_def
      split: if_splits)

section \<open>Statements keep the invariant\<close>

lemma run_events_snoc:
  "db_events db' = db_events db @ [row] \<Longrightarrow>
   run_events i db' = run_events i db @ (if ev_run_id row = i then [row] else [])"
  by (simp add: run_events_def)

lemma run_events_cong: "db_events db' = db_events db \<Longrightarrow> run_events i db' = run_events i db"
  by (simp add: run_events_def)

lemma advance_run_simps [simp]:
  "rn_id (advance_run t s e reason r) = rn_id r" "rn_status (advance_run t s e reason r) = s"
  "rn_session_id (advance_run t s e reason r) = rn_session_id r"
  "rn_actor_id (advance_run t s e reason r) = rn_actor_id r"
  "rn_last_seq (advance_run t s e reason r) = as_i64 (ee_seq e)"
  "rn_purpose (advance_run t s e reason r) = rn_purpose r"
  by (simp_all add: advance_run_def)

lemma map_id_if: "(\<And>x. x \<in> set xs \<Longrightarrow> k (f x) = k x) \<Longrightarrow> map k (map (\<lambda>x. if p x then f x else x) xs) = map k xs"
  by (induction xs) auto

lemma in_map_if:
  "x \<in> set xs \<Longrightarrow> p x \<Longrightarrow> f x \<in> set (map (\<lambda>x. if p x then f x else x) xs)"
  "x \<in> set xs \<Longrightarrow> \<not> p x \<Longrightarrow> x \<in> set (map (\<lambda>x. if p x then f x else x) xs)"
  by (auto intro: rev_image_eqI)

lemma in_map_if_key:
  assumes "x \<in> set xs" "\<And>x. k (f x) = k x"
  shows "\<exists>y \<in> set (map (\<lambda>x. if p x then f x else x) xs). k y = k x"
  using in_map_if [OF assms(1), of p f] assms(2) by (cases "p x") blast+

lemma append_keys_ok:
  assumes ok: "keys_ok db" and app: "append_event_tx ms t owner e db = Inr db'"
  shows "keys_ok db'"
  using app
proof (rule append_event_txE)
  fix r persisted nxt
  assume r: "find_run (ee_run_id e) db = Some r"
    and new: "ee_event_id e \<notin> ev_event_id ` set (db_events db)"
    and ev: "db_events db' = db_events db @ [appended_row e persisted]"
    and rn: "db_runs db' = map (\<lambda>r. if rn_id r = ee_run_id e
        then advance_run t nxt e (terminal_reason (ee_event persisted)) r else r) (db_runs db)"
    and sn: "db_sessions db' = map (\<lambda>s. if is_terminal nxt \<and> sn_id s = ee_session_id e \<and>
        sn_active_run_id s = Some (ee_run_id e) then s\<lparr>sn_active_run_id := None\<rparr> else s) (db_sessions db)"
  have ids: "map rn_id (db_runs db') = map rn_id (db_runs db)" unfolding rn by (rule map_id_if) simp
  have sids: "map sn_id (db_sessions db') = map sn_id (db_sessions db)" unfolding sn by (rule map_id_if) simp
  have fk: "\<exists>s \<in> set (db_sessions db'). sn_id s = rn_session_id q \<and> sn_actor_id s = rn_actor_id q"
    if "q \<in> set (db_runs db')" for q
  proof -
    from that obtain q0 where q0: "q0 \<in> set (db_runs db)" "rn_session_id q = rn_session_id q0"
      "rn_actor_id q = rn_actor_id q0"
      unfolding rn by (auto split: if_splits)
    from ok q0(1) obtain s where s: "s \<in> set (db_sessions db)" "sn_id s = rn_session_id q0"
      "sn_actor_id s = rn_actor_id q0"
      unfolding keys_ok_def by blast
    let ?p = "\<lambda>s. is_terminal nxt \<and> sn_id s = ee_session_id e \<and> sn_active_run_id s = Some (ee_run_id e)"
    have "\<exists>y \<in> set (db_sessions db'). (sn_id y, sn_actor_id y) = (sn_id s, sn_actor_id s)"
      unfolding sn by (rule in_map_if_key [OF s(1), where p = ?p]) simp
    then show ?thesis unfolding q0(2,3) s(2,3) [symmetric] by (simp only: prod.inject)
  qed
  have rids: "rn_id ` set (db_runs db') = rn_id ` set (db_runs db)"
    using arg_cong [OF ids, of set] by simp
  have "ee_run_id e \<in> rn_id ` set (db_runs db)" using find_run_Some [OF r] by (metis imageI)
  with ok new fk show "keys_ok db'"
    unfolding keys_ok_def ids sids rids ev by (auto simp: appended_row_def)
qed

lemma append_log_complete:
  assumes wf: "wire_fixed ms" and ok: "db_ok db" and app: "append_event_tx ms t owner e db = Inr db'"
    and q: "q \<in> set (db_runs db')"
  shows "log_complete db' q \<and> status_projected db' q"
  using app
proof (rule append_event_txE)
  fix r persisted nxt
  assume r: "find_run (ee_run_id e) db = Some r" and live: "\<not> is_terminal (rn_status r)"
    and seq: "ee_seq e = as_u64 (rn_last_seq r) + 1" "uint (ee_seq e) \<le> int i64_max"
    and nxt: "nxt = unwrap_or (rn_status r) (event_status (ee_event e))"
    and mask: "masked_envelope ms e = Inr persisted"
    and ev: "db_events db' = db_events db @ [appended_row e persisted]"
    and rn: "db_runs db' = map (\<lambda>r. if rn_id r = ee_run_id e
        then advance_run t nxt e (terminal_reason (ee_event persisted)) r else r) (db_runs db)"
  have keys: "keys_ok db" using ok by (simp add: db_ok_def)
  have old: "log_complete db q0 \<and> status_projected db q0" if "q0 \<in> set (db_runs db)" for q0
    using ok that by (simp add: db_ok_def)
  have row: "row_status (appended_row e persisted) = event_status (ee_event e)"
    using masked_envelope_facts [OF wf mask] by (simp add: row_status_def appended_row_def)
  note events = run_events_snoc [OF ev]
  from q obtain q0 where q0: "q0 \<in> set (db_runs db)" and
    qq: "q = (if rn_id q0 = ee_run_id e then advance_run t nxt e (terminal_reason (ee_event persisted)) q0 else q0)"
    unfolding rn by auto
  show "log_complete db' q \<and> status_projected db' q"
  proof (cases "rn_id q0 = ee_run_id e")
    case False
    with qq old [OF q0] show ?thesis
      by (simp add: log_complete_def status_projected_def events appended_row_def)
  next
    case True
    with find_run_Some [OF r] same_run [OF keys q0] have eq: "q0 = r" by auto
    from old [OF q0] have lc: "0 \<le> rn_last_seq r" "rn_last_seq r \<le> int i64_max"
      "map ev_seq (run_events (ee_run_id e) db) = [1..rn_last_seq r]"
      and st: "rn_status r = projected_status (run_events (ee_run_id e) db)"
      using live True by (auto simp: log_complete_def status_projected_def is_terminal_def eq)
    note n = next_seq [OF lc(1,2) seq]
    have "log_complete db' q"
      using True lc n seq(2)
      by (simp add: qq eq log_complete_def events appended_row_def upto_rec2 [of 1 "rn_last_seq r + 1"])
    moreover have "projected_status (run_events (ee_run_id e) db') = nxt"
      using True by (simp add: events appended_row_def [of e] projected_snoc nxt st)
        (simp add: row [unfolded appended_row_def])
    then have "status_projected db' q" using True by (simp add: qq status_projected_def)
    ultimately show ?thesis ..
  qed
qed

lemma append_active_live:
  assumes ok: "db_ok db" and app: "append_event_tx ms t owner e db = Inr db'"
    and s: "s \<in> set (db_sessions db')"
  shows "active_live db' s"
  using app
proof (rule append_event_txE)
  fix r persisted nxt
  assume r: "find_run (ee_run_id e) db = Some r" and sess: "rn_session_id r = ee_session_id e"
    and rn: "db_runs db' = map (\<lambda>r. if rn_id r = ee_run_id e
        then advance_run t nxt e (terminal_reason (ee_event persisted)) r else r) (db_runs db)"
    and sn: "db_sessions db' = map (\<lambda>s. if is_terminal nxt \<and> sn_id s = ee_session_id e \<and>
        sn_active_run_id s = Some (ee_run_id e) then s\<lparr>sn_active_run_id := None\<rparr> else s) (db_sessions db)"
  have keys: "keys_ok db" using ok by (simp add: db_ok_def)
  from s obtain s0 where s0: "s0 \<in> set (db_sessions db)" and
    ss: "s = (if is_terminal nxt \<and> sn_id s0 = ee_session_id e \<and> sn_active_run_id s0 = Some (ee_run_id e)
        then s0\<lparr>sn_active_run_id := None\<rparr> else s0)"
    unfolding sn by auto
  show "active_live db' s"
    unfolding active_live_def
  proof (intro allI impI)
    fix i assume i: "sn_active_run_id s = Some i"
    then have i0: "sn_active_run_id s0 = Some i" and sid: "sn_id s = sn_id s0"
      by (auto simp: ss split: if_splits)
    from ok s0 i0 obtain q where q: "q \<in> set (db_runs db)" "rn_id q = i" "rn_session_id q = sn_id s0"
      "\<not> is_terminal (rn_status q)"
      unfolding db_ok_def active_live_def by blast
    show "\<exists>q \<in> set (db_runs db'). rn_id q = i \<and> rn_session_id q = sn_id s \<and> \<not> is_terminal (rn_status q)"
    proof (cases "i = ee_run_id e")
      case False
      with q(1,2) have "q \<in> set (db_runs db')" unfolding rn by (intro in_map_if(2)) simp_all
      moreover have "rn_id q = i \<and> rn_session_id q = sn_id s \<and> \<not> is_terminal (rn_status q)"
        using q(2-4) sid by simp
      ultimately show ?thesis by blast
    next
      case True
      with q(2) find_run_Some [OF r] have "r \<in> set (db_runs db)" "rn_id q = rn_id r" by simp_all
      from same_run [OF keys q(1) this] have "q = r" .
      have "\<not> is_terminal nxt"
      proof
        assume "is_terminal nxt"
        moreover have "sn_id s0 = ee_session_id e" using sess q(3) \<open>q = r\<close> by simp
        ultimately show False using i i0 True by (simp add: ss)
      qed
      moreover have "advance_run t nxt e (terminal_reason (ee_event persisted)) q \<in> set (db_runs db')"
        using q(1,2) True unfolding rn by (intro in_map_if(1)) simp_all
      ultimately show ?thesis using q(2,3) sid
        by (intro bexI [of _ "advance_run t nxt e (terminal_reason (ee_event persisted)) q"]) simp_all
    qed
  qed
qed

lemma append_db_ok [inv_intros]:
  assumes "wire_fixed ms" "db_ok db" "append_event_tx ms t owner e db = Inr db'"
  shows "db_ok db'"
proof -
  have "row_readable x" if "x \<in> set (db_events db')" for x
    using assms(3)
  proof (rule append_event_txE)
    fix persisted
    assume mask: "masked_envelope ms e = Inr persisted"
      and ev: "db_events db' = db_events db @ [appended_row e persisted]"
    have "row_readable (appended_row e persisted)"
      using masked_envelope_facts [OF assms(1) mask] by (simp add: row_readable_def appended_row_def)
    with that ev assms(2) show "row_readable x" by (auto simp: db_ok_def)
  qed
  moreover have "keys_ok db'" using assms by (auto intro: append_keys_ok simp: db_ok_def)
  ultimately show ?thesis
    using append_log_complete [OF assms] append_active_live [OF assms(2,3)] unfolding db_ok_def by blast
qed

lemma append_all_db_ok [inv_intros]:
  "append_all ms owner es db = Inr db' \<Longrightarrow> wire_fixed ms \<Longrightarrow> db_ok db \<Longrightarrow> db_ok db'"
  unfolding append_all_def by (erule efold_invariant) (auto intro: append_db_ok)

text \<open>The invariant looks at sessions, runs and events only.\<close>

lemma db_ok_cong:
  assumes "db_sessions db' = db_sessions db" "db_runs db' = db_runs db" "db_events db' = db_events db"
  shows "db_ok db \<Longrightarrow> db_ok db'"
  using assms
  by (simp add: db_ok_def keys_ok_def log_complete_def status_projected_def active_live_def run_events_def)

lemma insert_idempotency_keeps [keeps]:
  "insert_idempotency a sc k f j db = Inr db' \<Longrightarrow> \<exists>rows. db' = db\<lparr>db_idempotency := rows\<rparr>"
  by (auto simp: insert_idempotency_def split: if_splits)

lemma insert_cancel_keeps [keeps]:
  "insert_cancel c db = Inr db' \<Longrightarrow> db' = db\<lparr>db_cancels := db_cancels db @ [c]\<rparr>"
  by (auto simp: insert_cancel_def split: if_splits)

lemma insert_approval_keeps [keeps]:
  "insert_approval x db = Inr db' \<Longrightarrow> db' = db\<lparr>db_approvals := db_approvals db @ [x]\<rparr>"
  by (auto simp: insert_approval_def split: if_splits)

lemma insert_audit_keeps [keeps]:
  "insert_audit y db = Inr db' \<Longrightarrow> db' = db\<lparr>db_audit := db_audit db @ [y]\<rparr>"
  by (auto simp: insert_audit_def split: if_splits)

lemma insert_link_keeps [keeps]:
  "insert_link l db = Inr db' \<Longrightarrow> db' = db\<lparr>db_links := db_links db @ [l]\<rparr>"
  by (auto simp: insert_link_def split: if_splits)

lemma insert_others_db_ok [inv_intros]:
  "insert_idempotency a sc k f j db = Inr db' \<Longrightarrow> db_ok db \<Longrightarrow> db_ok db'"
  "insert_cancel c db = Inr db' \<Longrightarrow> db_ok db \<Longrightarrow> db_ok db'"
  "insert_approval x db = Inr db' \<Longrightarrow> db_ok db \<Longrightarrow> db_ok db'"
  "insert_audit y db = Inr db' \<Longrightarrow> db_ok db \<Longrightarrow> db_ok db'"
  "insert_link l db = Inr db' \<Longrightarrow> db_ok db \<Longrightarrow> db_ok db'"
  by (rule db_ok_cong [of _ db]; auto dest!: keeps)+

lemma insert_session_db_ok [inv_intros]:
  assumes "insert_session s db = Inr db'" "db_ok db" "sn_active_run_id s = None"
  shows "db_ok db'"
proof -
  from assms(1) have db': "db' = db\<lparr>db_sessions := db_sessions db @ [s]\<rparr>"
    and new: "sn_id s \<notin> sn_id ` set (db_sessions db)"
    by (auto simp: insert_session_def split: if_splits)
  have "active_live db' s" using assms(3) by (simp add: active_live_def)
  with assms(2) new show ?thesis
    by (fastforce simp: db' db_ok_def keys_ok_def log_complete_def status_projected_def active_live_def
        run_events_def)
qed

lemma new_run_events: "keys_ok db \<Longrightarrow> i \<notin> rn_id ` set (db_runs db) \<Longrightarrow> run_events i db = []"
  by (auto simp: keys_ok_def run_events_def filter_empty_conv)

lemma insert_run_Inr:
  "insert_run r db = Inr db' \<longleftrightarrow>
     rn_id r \<notin> rn_id ` set (db_runs db) \<and> rn_session_id r \<in> sn_id ` set (db_sessions db) \<and>
     db' = db\<lparr>db_runs := db_runs db @ [r]\<rparr>"
  by (auto simp: insert_run_def)

lemma insert_run_db_ok [inv_intros]:
  assumes ins: "insert_run r db = Inr db'" and ok: "db_ok db"
    and r: "rn_status r = Running" "rn_last_seq r = 0"
    and owner: "find_session (rn_session_id r) db = Some s" "sn_actor_id s = rn_actor_id r"
  shows "db_ok db'"
proof -
  from ins have db': "db' = db\<lparr>db_runs := db_runs db @ [r]\<rparr>"
    and new: "rn_id r \<notin> rn_id ` set (db_runs db)" by (auto simp: insert_run_Inr)
  have keys: "keys_ok db" using ok by (simp add: db_ok_def)
  have ev: "run_events i db' = run_events i db" for i by (simp add: db' run_events_def)
  have keys': "keys_ok db'"
    using keys new owner find_session_Some [OF owner(1)] by (auto simp: keys_ok_def db')
  have old: "log_complete db' q = log_complete db q" "status_projected db' q = status_projected db q" for q
    by (simp_all add: log_complete_def status_projected_def ev)
  have "log_complete db' r \<and> status_projected db' r"
    using new_run_events [OF keys new] r
    by (simp add: log_complete_def status_projected_def ev projected_status_def)
  moreover have "active_live db' q" if "q \<in> set (db_sessions db)" for q
  proof -
    have "active_live db q" using ok that by (simp add: db_ok_def)
    then show ?thesis unfolding active_live_def db' by auto
  qed
  moreover have "log_complete db' q \<and> status_projected db' q" if "q \<in> set (db_runs db)" for q
    using ok that by (simp add: db_ok_def old)
  moreover have "db_sessions db' = db_sessions db" "db_events db' = db_events db"
    "set (db_runs db') = insert r (set (db_runs db))"
    by (simp_all add: db')
  ultimately show ?thesis using ok keys' by (simp add: db_ok_def)
qed

lemma find_append_eq: "find p (xs @ ys) = (case find p xs of None \<Rightarrow> find p ys | Some x \<Rightarrow> Some x)"
  by (induction xs) auto

lemma insert_run_find:
  assumes "insert_run r db = Inr db'"
  shows "find_run (rn_id r) db' = Some r" "i \<noteq> rn_id r \<Longrightarrow> find_run i db' = find_run i db"
proof -
  from assms have new: "find_run (rn_id r) db = None" and db': "db' = db\<lparr>db_runs := db_runs db @ [r]\<rparr>"
    by (simp_all add: insert_run_Inr find_run_None)
  have eq: "find_run j db' = (case find_run j db of None \<Rightarrow> if rn_id r = j then Some r else None | Some x \<Rightarrow> Some x)" for j
    by (simp add: db' find_run_def find_append_eq split: option.splits)
  show "find_run (rn_id r) db' = Some r" using new by (simp add: eq)
  show "i \<noteq> rn_id r \<Longrightarrow> find_run i db' = find_run i db" by (simp add: eq split: option.splits)
qed

lemma set_active_run_db_ok [inv_intros]:
  assumes set: "set_active_run session run db = Inr db'" and ok: "db_ok db"
    and r: "find_run run db = Some r" "rn_session_id r = session" "\<not> is_terminal (rn_status r)"
  shows "db_ok db'"
proof -
  from set have db': "db' = update_session (\<lambda>s. sn_id s = session) (\<lambda>s. s\<lparr>sn_active_run_id := Some run\<rparr>) db"
    by (auto simp: set_active_run_def split: if_splits)
  have sn: "db_sessions db' = map (\<lambda>s. if sn_id s = session then s\<lparr>sn_active_run_id := Some run\<rparr> else s) (db_sessions db)"
    and rn: "db_runs db' = db_runs db" "db_events db' = db_events db"
    by (simp_all add: db' update_session_def)
  have ids: "map (\<lambda>s. (sn_id s, sn_actor_id s)) (db_sessions db') = map (\<lambda>s. (sn_id s, sn_actor_id s)) (db_sessions db)"
    unfolding sn by (rule map_id_if) simp
  have sids: "map sn_id (db_sessions db') = map sn_id (db_sessions db)" unfolding sn by (rule map_id_if) simp
  have fk: "(\<exists>s \<in> set (db_sessions db'). sn_id s = a \<and> sn_actor_id s = b) =
      ((a, b) \<in> set (map (\<lambda>s. (sn_id s, sn_actor_id s)) (db_sessions db')))" for a b by auto
  have fk': "(\<exists>s \<in> set (db_sessions db). sn_id s = a \<and> sn_actor_id s = b) =
      ((a, b) \<in> set (map (\<lambda>s. (sn_id s, sn_actor_id s)) (db_sessions db)))" for a b by auto
  have "keys_ok db'" using ok unfolding db_ok_def keys_ok_def rn sids fk fk' ids by simp
  moreover have "active_live db' s" if "s \<in> set (db_sessions db')" for s
  proof -
    from that obtain s0 where s0: "s0 \<in> set (db_sessions db)"
      "s = (if sn_id s0 = session then s0\<lparr>sn_active_run_id := Some run\<rparr> else s0)"
      unfolding sn by auto
    have "active_live db s0" using ok s0(1) by (simp add: db_ok_def)
    then show ?thesis
      using find_run_Some [OF r(1)] r(2,3) by (auto simp: active_live_def s0(2) rn)
  qed
  ultimately show ?thesis
    using ok by (simp add: db_ok_def log_complete_def status_projected_def run_events_def rn)
qed

text \<open>A terminal run may be marked rewound.\<close>

lemma rewound_db_ok [inv_intros]:
  assumes ok: "db_ok db" and r: "find_run i db = Some r" "is_terminal (rn_status r)"
    and db': "db' = update_run i (\<lambda>r. r\<lparr>rn_status := Rewound, rn_updated_at := t\<rparr>) db"
  shows "db_ok db'"
proof -
  have rn: "db_runs db' = map (\<lambda>r. if rn_id r = i then r\<lparr>rn_status := Rewound, rn_updated_at := t\<rparr> else r) (db_runs db)"
    and sn: "db_sessions db' = db_sessions db" and ev: "db_events db' = db_events db"
    by (simp_all add: db' update_run_def)
  have keys: "keys_ok db" using ok by (simp add: db_ok_def)
  have ids: "map rn_id (db_runs db') = map rn_id (db_runs db)" unfolding rn by (rule map_id_if) simp
  have rids: "rn_id ` set (db_runs db') = rn_id ` set (db_runs db)" using arg_cong [OF ids, of set] by simp
  have source: "\<exists>q0 \<in> set (db_runs db). rn_id q = rn_id q0 \<and> rn_session_id q = rn_session_id q0 \<and>
      rn_actor_id q = rn_actor_id q0 \<and> rn_last_seq q = rn_last_seq q0 \<and> rn_status q \<in> {rn_status q0, Rewound}"
    if "q \<in> set (db_runs db')" for q
    using that unfolding rn by auto
  have "keys_ok db'"
    using keys unfolding keys_ok_def ids rids sn ev by (metis source)
  moreover have "log_complete db' q \<and> status_projected db' q" if q: "q \<in> set (db_runs db')" for q
  proof -
    from source [OF q] obtain q0 where q0: "q0 \<in> set (db_runs db)" "rn_id q = rn_id q0"
      "rn_last_seq q = rn_last_seq q0" "rn_status q \<in> {rn_status q0, Rewound}" by blast
    with ok have "log_complete db q0 \<and> status_projected db q0" by (simp add: db_ok_def)
    with q0 show ?thesis by (auto simp: log_complete_def status_projected_def run_events_cong [OF ev])
  qed
  moreover have "active_live db' s" if "s \<in> set (db_sessions db)" for s
    unfolding active_live_def
  proof (intro allI impI)
    fix a assume "sn_active_run_id s = Some a"
    with ok that obtain q where q: "q \<in> set (db_runs db)" "rn_id q = a" "rn_session_id q = sn_id s"
      "\<not> is_terminal (rn_status q)"
      unfolding db_ok_def active_live_def by blast
    have "rn_id q \<noteq> i" using q(1,4) r find_run_eq [OF keys q(1)] by auto
    with q(1) have "q \<in> set (db_runs db')" unfolding rn by (intro in_map_if(2)) simp_all
    with q show "\<exists>q \<in> set (db_runs db'). rn_id q = a \<and> rn_session_id q = sn_id s \<and> \<not> is_terminal (rn_status q)"
      by blast
  qed
  ultimately show ?thesis using ok by (simp add: db_ok_def sn ev)
qed

end
