(* ===== verification/State_Growth.thy ===== *)
theory State_Growth
  imports State_Invariant
begin

text \<open>
  The store only ever grows: \<open>db_grows\<close> says what a later database keeps of an earlier
  one. Events, idempotency records, cancel intents, audit rows and links are appended to;
  sessions and runs keep their identity; a terminal run keeps everything but may be marked
  rewound; a resolved approval never changes again. The locale \<open>extension\<close> is the
  contract: a preorder that every step climbs.
\<close>

named_theorems grow_intros \<open>statements that only grow the database\<close>

locale extension =
  fixes le :: "'s \<Rightarrow> 's \<Rightarrow> bool"
  assumes le_refl: "le s s" and le_trans: "le s t \<Longrightarrow> le t u \<Longrightarrow> le s u"
begin

lemma efold_le:
  assumes "efold f xs s = Inr t" "\<And>x s t. x \<in> set xs \<Longrightarrow> f x s = Inr t \<Longrightarrow> le s t"
  shows "le s t"
  using assms
proof (induction xs arbitrary: s)
  case Nil
  then show ?case by (simp add: le_refl)
next
  case (Cons x xs)
  from Cons.prems(1) obtain u where u: "f x s = Inr u" "efold f xs u = Inr t" by (auto simp: res_simps)
  with Cons have "le u t" "le s u" by auto
  then show ?case by (rule le_trans [rotated])
qed

lemma foldl_le: "(\<And>x s. x \<in> set xs \<Longrightarrow> le s (f s x)) \<Longrightarrow> le s (foldl f s xs)"
proof (induction xs arbitrary: s)
  case (Cons x xs)
  have "le s (f s x)" using Cons.prems by simp
  moreover have "le (f s x) (foldl f (f s x) xs)" using Cons by simp
  ultimately have "le s (foldl f (f s x) xs)" by (rule le_trans)
  then show ?case by simp
qed (simp add: le_refl)

end

section \<open>Tables that grow\<close>

definition table_grows :: "('a \<Rightarrow> 'a \<Rightarrow> bool) \<Rightarrow> 'a list \<Rightarrow> 'a list \<Rightarrow> bool" where
  "table_grows r xs ys \<longleftrightarrow> (\<exists>ks ns. ys = ks @ ns \<and> list_all2 r xs ks)"

lemma table_grows_refl: "(\<And>x. r x x) \<Longrightarrow> table_grows r xs xs"
  unfolding table_grows_def by (intro exI [of _ xs] exI [of _ "[]"]) (simp add: list_all2_refl)

lemma table_grows_snoc: "(\<And>x. r x x) \<Longrightarrow> table_grows r xs (xs @ ns)"
  unfolding table_grows_def by (intro exI [of _ xs] exI [of _ ns]) (simp add: list_all2_refl)

lemma table_grows_map: "(\<And>x. x \<in> set xs \<Longrightarrow> r x (f x)) \<Longrightarrow> table_grows r xs (map f xs)"
  unfolding table_grows_def
  by (intro exI [of _ "map f xs"] exI [of _ "[]"]) (auto simp: list_all2_conv_all_nth)

lemma table_grows_trans:
  assumes "\<And>x y z. r x y \<Longrightarrow> r y z \<Longrightarrow> r x z" "table_grows r xs ys" "table_grows r ys zs"
  shows "table_grows r xs zs"
proof -
  from assms(2,3) obtain ks ns ls ms where 1: "ys = ks @ ns" "list_all2 r xs ks"
    "zs = ls @ ms" "list_all2 r ys ls"
    unfolding table_grows_def by blast
  from 1(1,4) obtain l1 l2 where 2: "ls = l1 @ l2" "list_all2 r ks l1" by (auto simp: list_all2_append1)
  have "list_all2 r xs l1" using list_all2_trans [of r r r xs ks l1] assms(1) 1(2) 2(2) by blast
  with 1(3) 2(1) show ?thesis unfolding table_grows_def by (intro exI [of _ l1] exI [of _ "l2 @ ms"]) simp
qed

lemma table_grows_member:
  assumes "table_grows r xs ys" "x \<in> set xs"
  shows "\<exists>y \<in> set ys. r x y"
proof -
  from assms(1) obtain ks ns where "ys = ks @ ns" "list_all2 r xs ks" unfolding table_grows_def by blast
  moreover have "\<exists>y \<in> set ks. r x y" using calculation(2) assms(2) by (induction rule: list_all2_induct) auto
  ultimately show ?thesis by auto
qed

lemma table_grows_eq_iff: "table_grows (=) xs ys \<longleftrightarrow> (\<exists>ns. ys = xs @ ns)"
  by (auto simp: table_grows_def list.rel_eq)

section \<open>What each table keeps\<close>

definition session_kept :: "session_row \<Rightarrow> session_row \<Rightarrow> bool" where
  "session_kept s s' \<longleftrightarrow> s' = s\<lparr>sn_active_run_id := sn_active_run_id s'\<rparr>"

definition run_kept :: "run_row \<Rightarrow> run_row \<Rightarrow> bool" where
  "run_kept r r' \<longleftrightarrow>
     rn_id r' = rn_id r \<and> rn_session_id r' = rn_session_id r \<and> rn_actor_id r' = rn_actor_id r \<and>
     rn_purpose r' = rn_purpose r \<and>
     (is_terminal (rn_status r) \<longrightarrow>
        rn_last_seq r' = rn_last_seq r \<and> rn_finish_reason r' = rn_finish_reason r \<and>
        rn_checkpoint r' = rn_checkpoint r \<and> (rn_status r' = rn_status r \<or> rn_status r' = Rewound))"

definition approval_kept :: "approval_row \<Rightarrow> approval_row \<Rightarrow> bool" where
  "approval_kept a a' \<longleftrightarrow>
     ap_id a' = ap_id a \<and> ap_session_id a' = ap_session_id a \<and> ap_run_id a' = ap_run_id a \<and>
     ap_call_id a' = ap_call_id a \<and> ap_actor_id a' = ap_actor_id a \<and>
     (ap_state a \<noteq> Pending \<longrightarrow> a' = a)"

definition db_grows :: "db \<Rightarrow> db \<Rightarrow> bool" where
  "db_grows db db' \<longleftrightarrow>
     table_grows session_kept (db_sessions db) (db_sessions db') \<and>
     table_grows run_kept (db_runs db) (db_runs db') \<and>
     table_grows (=) (db_events db) (db_events db') \<and>
     table_grows (=) (db_idempotency db) (db_idempotency db') \<and>
     table_grows (=) (db_cancels db) (db_cancels db') \<and>
     table_grows approval_kept (db_approvals db) (db_approvals db') \<and>
     table_grows (=) (db_audit db) (db_audit db') \<and>
     table_grows (=) (db_links db) (db_links db')"

lemma kept_refl [simp]: "session_kept s s" "run_kept r r" "approval_kept a a"
  by (simp_all add: session_kept_def run_kept_def approval_kept_def)

lemma session_kept_trans: "session_kept s t \<Longrightarrow> session_kept t u \<Longrightarrow> session_kept s u"
  unfolding session_kept_def by (metis session_row.update_convs(5) session_row.surjective)

lemma is_terminal_Rewound [simp]: "is_terminal Rewound"
  by (simp add: is_terminal_def)

lemma run_kept_trans: "run_kept r s \<Longrightarrow> run_kept s t \<Longrightarrow> run_kept r t"
  unfolding run_kept_def by auto

lemma approval_kept_trans: "approval_kept a b \<Longrightarrow> approval_kept b c \<Longrightarrow> approval_kept a c"
  unfolding approval_kept_def by metis

lemma db_grows_refl [simp]: "db_grows db db"
  by (simp add: db_grows_def table_grows_refl)

lemma db_grows_trans: "db_grows a b \<Longrightarrow> db_grows b c \<Longrightarrow> db_grows a c"
  unfolding db_grows_def
  by (intro conjI; elim conjE; erule (1) table_grows_trans [rotated])
     (auto intro: session_kept_trans run_kept_trans approval_kept_trans)

interpretation store: extension db_grows
  by unfold_locales (auto intro: db_grows_trans)

section \<open>Statements only grow the database\<close>

lemma grows_same:
  assumes "db_sessions db' = db_sessions db" "db_runs db' = db_runs db"
    "table_grows (=) (db_events db) (db_events db')" "table_grows (=) (db_idempotency db) (db_idempotency db')"
    "table_grows (=) (db_cancels db) (db_cancels db')" "table_grows approval_kept (db_approvals db) (db_approvals db')"
    "table_grows (=) (db_audit db) (db_audit db')" "table_grows (=) (db_links db) (db_links db')"
  shows "db_grows db db'"
  using assms by (simp add: db_grows_def table_grows_refl)

lemma insert_grows [grow_intros]:
  "insert_idempotency a sc k f j db = Inr db' \<Longrightarrow> db_grows db db'"
  "insert_cancel c db = Inr db' \<Longrightarrow> db_grows db db'"
  "insert_approval x db = Inr db' \<Longrightarrow> db_grows db db'"
  "insert_audit y db = Inr db' \<Longrightarrow> db_grows db db'"
  "insert_link l db = Inr db' \<Longrightarrow> db_grows db db'"
  "insert_session s db = Inr db' \<Longrightarrow> db_grows db db'"
  "insert_run r db = Inr db' \<Longrightarrow> db_grows db db'"
  by (auto simp: insert_idempotency_def insert_cancel_def insert_approval_def insert_audit_def
      insert_link_def insert_session_def insert_run_def db_grows_def split: if_splits
      intro!: table_grows_refl table_grows_snoc)

lemma set_active_run_grows [grow_intros]:
  "set_active_run s r db = Inr db' \<Longrightarrow> db_grows db db'"
  by (auto simp: set_active_run_def update_session_def db_grows_def session_kept_def split: if_splits
      intro!: table_grows_refl table_grows_map)

lemma append_grows [grow_intros]:
  assumes ok: "keys_ok db" and app: "append_event_tx ms t owner e db = Inr db'"
  shows "db_grows db db'"
  using app
proof (rule append_event_txE)
  fix r persisted nxt
  assume r: "find_run (ee_run_id e) db = Some r" and live: "\<not> is_terminal (rn_status r)"
    and ev: "db_events db' = db_events db @ [appended_row e persisted]"
    and rn: "db_runs db' = map (\<lambda>r. if rn_id r = ee_run_id e
        then advance_run t nxt e (terminal_reason (ee_event persisted)) r else r) (db_runs db)"
    and sn: "db_sessions db' = map (\<lambda>s. if is_terminal nxt \<and> sn_id s = ee_session_id e \<and>
        sn_active_run_id s = Some (ee_run_id e) then s\<lparr>sn_active_run_id := None\<rparr> else s) (db_sessions db)"
  have "run_kept q (if rn_id q = ee_run_id e then advance_run t nxt e (terminal_reason (ee_event persisted)) q else q)"
    if "q \<in> set (db_runs db)" for q
  proof (cases "rn_id q = ee_run_id e")
    case True
    with find_run_eq [OF ok that] r have "q = r" by simp
    with live show ?thesis by (simp add: run_kept_def)
  qed simp
  then have "table_grows run_kept (db_runs db) (db_runs db')" unfolding rn by (rule table_grows_map)
  moreover have "table_grows session_kept (db_sessions db) (db_sessions db')"
    unfolding sn by (rule table_grows_map) (simp add: session_kept_def)
  ultimately show "db_grows db db'"
    by (simp add: db_grows_def ev append_event_tx_keeps [OF app] table_grows_refl table_grows_snoc)
qed

lemma append_all_grows [grow_intros]:
  assumes "append_all ms owner es db = Inr db'" "keys_ok db"
  shows "db_grows db db'"
proof -
  have "keys_ok db' \<and> db_grows db db'"
  proof (rule efold_invariant [of "\<lambda>(t, e). append_event_tx ms t owner e" es db db' "\<lambda>x. keys_ok x \<and> db_grows db x"])
    show "efold (\<lambda>(t, e). append_event_tx ms t owner e) es db = Inr db'"
      using assms(1) by (simp add: append_all_def)
  qed (use assms(2) in \<open>auto intro: append_keys_ok db_grows_trans append_grows\<close>)
  then show ?thesis ..
qed

lemma rewound_grows [grow_intros]:
  assumes "keys_ok db" "find_run i db = Some r" "is_terminal (rn_status r)"
  shows "db_grows db (update_run i (\<lambda>r. r\<lparr>rn_status := Rewound, rn_updated_at := t\<rparr>) db)"
proof -
  have "run_kept q (if rn_id q = i then q\<lparr>rn_status := Rewound, rn_updated_at := t\<rparr> else q)"
    if "q \<in> set (db_runs db)" for q
    using find_run_eq [OF assms(1) that] assms(2) by (simp add: run_kept_def)
  then show ?thesis
    by (auto simp: db_grows_def update_run_def intro!: table_grows_refl table_grows_map)
qed

end
