(* ===== verification/State_Runs.thy ===== *)
theory State_Runs
  imports State_Growth
begin

text \<open>
  Sessions and runs of the durable store, \<open>crates/cool-state/src/lib.rs\<close>: creating and
  loading sessions, starting, steering and cancelling runs, appending events, reading and
  replaying a run, and the recovery of the runs a crash interrupted. Parameters: \<open>ms\<close>
  masks texts, \<open>u\<close> or \<open>u i\<close> is a fresh UUID, \<open>t\<close> or \<open>t i\<close> a
  clock reading, in the order the code takes them. Recovery commits run by run, so it returns
  its result beside the database it leaves.
\<close>

record 'a outcome =
  out_value :: 'a
  out_created :: bool

section \<open>Sessions\<close>

definition create_session ::
    "string \<Rightarrow> string \<Rightarrow> string \<Rightarrow> string \<Rightarrow> string \<Rightarrow> string option \<Rightarrow> string option \<Rightarrow> db \<Rightarrow>
     (store_error, string outcome \<times> db) result" where
  "create_session u t actor key fingerprint title project db =
     ebind (lookup_idempotency d_string actor ''session.create'' key fingerprint db) (\<lambda>found.
     case found of
       Some existing \<Rightarrow> Inr (\<lparr>out_value = existing, out_created = False\<rparr>, db)
     | None \<Rightarrow>
         let session = ''session-'' @ u in
         ebind (insert_session \<lparr>sn_id = session, sn_actor_id = actor, sn_title = title,
                  sn_project_key = project, sn_active_run_id = None, sn_created_at = t\<rparr> db) (\<lambda>db.
         ebind (insert_idempotency actor ''session.create'' key fingerprint (JString session) db) (\<lambda>db.
         Inr (\<lparr>out_value = session, out_created = True\<rparr>, db))))"

record session_snapshot =
  ss_session_id :: string
  ss_actor_id :: string
  ss_title :: "string option"
  ss_project_key :: "string option"
  ss_active_run_id :: "string option"
  ss_last_seq :: "64 word option"

text \<open>\<open>MAX(e.seq)\<close> over the events of a run, none when there is none.\<close>

definition max_seq :: "string option \<Rightarrow> db \<Rightarrow> 64 word option" where
  "max_seq active db =
     (case active of
        None \<Rightarrow> None
      | Some run \<Rightarrow>
          (case run_events run db of
             [] \<Rightarrow> None
           | e # es \<Rightarrow> Some (as_u64 (foldl max (ev_seq e) (map ev_seq es)))))"

definition load_session :: "string \<Rightarrow> string \<Rightarrow> db \<Rightarrow> (store_error, session_snapshot) result" where
  "load_session session actor db =
     ebind (ok_or (NotFound ''session'') (find_session session db)) (\<lambda>s.
     ebind (ensure (sn_actor_id s = actor) ActorMismatch) (\<lambda>_.
     Inr \<lparr>ss_session_id = session, ss_actor_id = sn_actor_id s, ss_title = sn_title s,
       ss_project_key = sn_project_key s, ss_active_run_id = sn_active_run_id s,
       ss_last_seq = max_seq (sn_active_run_id s) db\<rparr>))"

section \<open>Starting runs\<close>

definition new_run :: "string \<Rightarrow> string \<Rightarrow> string \<Rightarrow> string \<Rightarrow> string option \<Rightarrow> run_row" where
  "new_run run session actor t purpose = \<lparr>rn_id = run, rn_session_id = session, rn_actor_id = actor,
     rn_status = Running, rn_last_seq = 0, rn_checkpoint = None, rn_finish_reason = None,
     rn_updated_at = t, rn_purpose = purpose\<rparr>"

definition active_guard :: "session_row \<Rightarrow> db \<Rightarrow> (store_error, unit) result" where
  "active_guard s db =
     (case sn_active_run_id s of
        None \<Rightarrow> Inr ()
      | Some active \<Rightarrow>
          ebind (run_status_of active db) (\<lambda>status.
          ensure (is_terminal status) (InvalidTransition status Running)))"

definition start_run ::
    "string \<Rightarrow> string \<Rightarrow> string \<Rightarrow> string \<Rightarrow> string \<Rightarrow> string \<Rightarrow> db \<Rightarrow> (store_error, string outcome \<times> db) result" where
  "start_run u t actor key fingerprint session db =
     ebind (lookup_idempotency d_string actor ''session.prompt'' key fingerprint db) (\<lambda>found.
     case found of
       Some existing \<Rightarrow>
         ebind (require_run existing actor db) (\<lambda>_.
         Inr (\<lparr>out_value = existing, out_created = False\<rparr>, db))
     | None \<Rightarrow>
         ebind (owned_session session actor db) (\<lambda>s.
         ebind (active_guard s db) (\<lambda>_.
         let run = ''run-'' @ u in
         ebind (insert_run (new_run run session actor t None) db) (\<lambda>db.
         ebind (set_active_run session run db) (\<lambda>db.
         ebind (insert_idempotency actor ''session.prompt'' key fingerprint (JString run) db) (\<lambda>db.
         Inr (\<lparr>out_value = run, out_created = True\<rparr>, db)))))))"

definition start_auxiliary_run ::
    "string \<Rightarrow> string \<Rightarrow> string \<Rightarrow> string \<Rightarrow> string \<Rightarrow> db \<Rightarrow> (store_error, string \<times> db) result" where
  "start_auxiliary_run u t actor session purpose db =
     ebind (owned_session session actor db) (\<lambda>_.
     let run = ''run-'' @ u in
     ebind (insert_run (new_run run session actor t (Some purpose)) db) (\<lambda>db.
     Inr (run, db)))"

section \<open>Idempotency records of the callers\<close>

definition lookup_idempotent ::
    "(json \<Rightarrow> 'a option) \<Rightarrow> string \<Rightarrow> string \<Rightarrow> string \<Rightarrow> string \<Rightarrow> db \<Rightarrow> (store_error, 'a option) result" where
  "lookup_idempotent = lookup_idempotency"

definition record_idempotent ::
    "string \<Rightarrow> string \<Rightarrow> string \<Rightarrow> string \<Rightarrow> json \<Rightarrow> db \<Rightarrow> (store_error, db) result" where
  "record_idempotent = insert_idempotency"

section \<open>Events of a run\<close>

definition core_actor :: actor_ref where
  "core_actor = \<lparr>ar_id = ''cool-core'', ar_kind = System\<rparr>"

text \<open>An envelope with no item, causation, correlation or extension.\<close>

definition plain_envelope ::
    "string \<Rightarrow> string \<Rightarrow> string \<Rightarrow> 64 word \<Rightarrow> string \<Rightarrow> actor_ref \<Rightarrow> string \<Rightarrow> canonical_event \<Rightarrow> event_envelope" where
  "plain_envelope u session run seq t actor source e =
     \<lparr>ee_event_id = ''event-'' @ u, ee_session_id = session, ee_run_id = run, ee_item_id = None,
      ee_seq = seq, ee_occurred_at = t, ee_actor = actor, ee_source = source, ee_causation_id = None,
      ee_correlation_id = None, ee_event = e, ee_extensions = []\<rparr>"

record steer_result =
  st_run_id :: string
  st_seq :: "64 word"

definition steer_result_json :: "steer_result \<Rightarrow> json" where
  "steer_result_json r = JObject [(''runId'', JString (st_run_id r)), (''seq'', u64_json (st_seq r))]"

definition d_steer_result :: "json \<Rightarrow> steer_result option" where
  "d_steer_result j = do {
     obj \<leftarrow> d_struct [''runId'', ''seq''] j;
     run \<leftarrow> req d_string ''runId'' obj;
     seq \<leftarrow> req d_u64 ''seq'' obj;
     Some \<lparr>st_run_id = run, st_seq = seq\<rparr> }"

definition steer_run ::
    "(string \<Rightarrow> string) \<Rightarrow> string \<Rightarrow> (nat \<Rightarrow> string) \<Rightarrow> string \<Rightarrow> string \<Rightarrow> string \<Rightarrow> string \<Rightarrow> string \<Rightarrow>
     json_map \<Rightarrow> db \<Rightarrow> (store_error, steer_result outcome \<times> db) result" where
  "steer_run ms u t actor key fingerprint run_id content extensions db =
     ebind (lookup_idempotency d_steer_result actor ''session.steer'' key fingerprint db) (\<lambda>found.
     case found of
       Some existing \<Rightarrow> Inr (\<lparr>out_value = existing, out_created = False\<rparr>, db)
     | None \<Rightarrow>
         ebind (require_run run_id actor db) (\<lambda>run.
         ebind (ensure (\<not> is_terminal (sp_status run)) RunNotActive) (\<lambda>_.
         let event = (plain_envelope u (sp_session_id run) run_id (sp_last_seq run + 1) (t 0)
               \<lparr>ar_id = actor, ar_kind = LocalUser\<rparr> ''cool-state-steer''
               (ItemCompleted \<lparr>ie_role = Some ''user'', ie_content = Some content, ie_tool_calls = []\<rparr>))
               \<lparr>ee_extensions := extensions\<rparr>;
             res = \<lparr>st_run_id = run_id, st_seq = ee_seq event\<rparr> in
         ebind (append_event_tx ms (t 1) actor event db) (\<lambda>db.
         ebind (insert_idempotency actor ''session.steer'' key fingerprint (steer_result_json res) db) (\<lambda>db.
         Inr (\<lparr>out_value = res, out_created = True\<rparr>, db))))))"

definition load_run :: "string \<Rightarrow> string \<Rightarrow> db \<Rightarrow> (store_error, run_snapshot) result" where
  "load_run run actor db =
     ebind (ok_or (NotFound ''run'') (find_run run db)) (\<lambda>r.
     ebind (ensure (rn_actor_id r = actor) ActorMismatch) (\<lambda>_.
     Inr (run_snapshot_of r)))"

definition append_event ::
    "(string \<Rightarrow> string) \<Rightarrow> string \<Rightarrow> string \<Rightarrow> event_envelope \<Rightarrow> db \<Rightarrow> (store_error, db) result" where
  "append_event ms t owner e db =
     ebind (masked_envelope ms e) (\<lambda>e. append_event_tx ms t owner e db)"

definition append_event_auto ::
    "(string \<Rightarrow> string) \<Rightarrow> string \<Rightarrow> string \<Rightarrow> event_envelope \<Rightarrow> db \<Rightarrow> (store_error, event_envelope \<times> db) result" where
  "append_event_auto ms t owner e db =
     ebind (masked_envelope ms e) (\<lambda>e.
     ebind (require_run (ee_run_id e) owner db) (\<lambda>run.
     let e = e\<lparr>ee_seq := sp_last_seq run + 1\<rparr> in
     ebind (append_event_tx ms t owner e db) (\<lambda>db.
     Inr (e, db))))"

text \<open>\<open>serde_json::from_str\<close> of a row's document.\<close>

definition read_row :: "event_row \<Rightarrow> (store_error, event_envelope) result" where
  "read_row row = ok_or JsonError (d_envelope (ev_envelope row))"

fun read_rows :: "event_row list \<Rightarrow> (store_error, event_envelope list) result" where
  "read_rows [] = Inr []"
| "read_rows (row # rows) =
     ebind (read_row row) (\<lambda>e. ebind (read_rows rows) (\<lambda>es. Inr (e # es)))"

definition events_of ::
    "string \<Rightarrow> string \<Rightarrow> 64 word option \<Rightarrow> nat \<Rightarrow> db \<Rightarrow> (store_error, event_envelope list) result" where
  "events_of run actor after_seq limit db =
     ebind (require_run run actor db) (\<lambda>_.
     if (case after_seq of None \<Rightarrow> False | Some a \<Rightarrow> int i64_max < uint a) then Inr []
     else read_rows (take limit (sort_key ev_seq
            (filter (\<lambda>e. as_i64 (unwrap_or 0 after_seq) < ev_seq e) (run_events run db)))))"

text \<open>
  \<open>usize::MAX as i64\<close> is -1, and a negative \<open>LIMIT\<close> is no limit.
\<close>

definition all_events :: "string \<Rightarrow> string \<Rightarrow> db \<Rightarrow> (store_error, event_envelope list) result" where
  "all_events run actor db = events_of run actor None (length (db_events db)) db"

fun replay_loop ::
    "string \<Rightarrow> 64 word \<Rightarrow> event_envelope list \<Rightarrow> run_status \<Rightarrow> (store_error, run_status) result" where
  "replay_loop run expected [] status = Inr status"
| "replay_loop run expected (e # es) status =
     (if ee_seq e \<noteq> expected then Inl (Corrupt (EventGap run expected (ee_seq e)))
      else replay_loop run (expected + 1) es (unwrap_or status (event_status (ee_event e))))"

definition replay_run :: "string \<Rightarrow> string \<Rightarrow> db \<Rightarrow> (store_error, run_snapshot) result" where
  "replay_run run actor db =
     ebind (load_run run actor db) (\<lambda>stored.
     ebind (all_events run actor db) (\<lambda>events.
     ebind (replay_loop run 1 events Running) (\<lambda>status.
     ebind (ensure (status = sp_status stored) (Corrupt (ProjectionDiffers status (sp_status stored)))) (\<lambda>_.
     Inr (stored\<lparr>sp_status := status,
       sp_last_seq := (if events = [] then 0 else ee_seq (last events))\<rparr>)))))"

section \<open>Interrupted tool calls\<close>

fun pending_step :: "canonical_event \<Rightarrow> (string \<times> string) list \<Rightarrow> (string \<times> string) list" where
  "pending_step (ItemCompleted item) pending =
     foldl (\<lambda>p call. bt_insert (tr_call_id call) (tr_name call) p) pending (ie_tool_calls item)"
| "pending_step (ToolRequested call) pending = bt_insert (tr_call_id call) (tr_name call) pending"
| "pending_step (ToolCompleted res) pending = bt_remove (tc_call_id res) pending"
| "pending_step (ToolFailed res) pending = bt_remove (tf_call_id res) pending"
| "pending_step _ pending = pending"

definition pending_calls :: "event_envelope list \<Rightarrow> (string \<times> string) list" where
  "pending_calls es = foldl (\<lambda>p e. pending_step (ee_event e) p) [] es"

definition interrupted_failure ::
    "string \<Rightarrow> string \<Rightarrow> string \<Rightarrow> 64 word \<Rightarrow> string \<Rightarrow> string \<Rightarrow> string \<times> string \<Rightarrow> event_envelope" where
  "interrupted_failure u session run seq t code call =
     (plain_envelope u session run seq t core_actor ''cool-core-interruption''
        (ToolFailed \<lparr>tf_call_id = fst call, tf_name = snd call, tf_error_code = code,
           tf_message = Some ''tool execution was interrupted before a durable result''\<rparr>))
       \<lparr>ee_causation_id := Some (fst call)\<rparr>"

definition append_interruption ::
    "(string \<Rightarrow> string) \<Rightarrow> (nat \<Rightarrow> string) \<Rightarrow> (nat \<Rightarrow> string) \<Rightarrow> string \<Rightarrow> string \<Rightarrow> string \<Rightarrow> string \<Rightarrow>
     nat \<times> string \<times> string \<Rightarrow> event_envelope list \<times> db \<Rightarrow> (store_error, event_envelope list \<times> db) result" where
  "append_interruption ms u t owner session run_id code call st =
     ebind (require_run run_id owner (snd st)) (\<lambda>run.
     let e = interrupted_failure (u (fst call)) session run_id (sp_last_seq run + 1)
               (t (2 * fst call)) code (snd call) in
     ebind (append_event_tx ms (t (2 * fst call + 1)) owner e (snd st)) (\<lambda>db.
     Inr (fst st @ [e], db)))"

definition append_interrupted_tool_failures ::
    "(string \<Rightarrow> string) \<Rightarrow> (nat \<Rightarrow> string) \<Rightarrow> (nat \<Rightarrow> string) \<Rightarrow> string \<Rightarrow> string \<Rightarrow> string \<Rightarrow> string \<Rightarrow> db \<Rightarrow>
     (store_error, event_envelope list \<times> db) result" where
  "append_interrupted_tool_failures ms u t owner session run code db =
     ebind (read_rows (sort_key ev_seq (run_events run db))) (\<lambda>es.
     efold (append_interruption ms u t owner session run code) (enumerate 0 (pending_calls es)) ([], db))"

section \<open>Cancelling\<close>

record cancelled_result =
  cr_run_id :: string
  cr_accepted :: bool

definition cancelled_result_json :: "cancelled_result \<Rightarrow> json" where
  "cancelled_result_json r = JObject [(''runId'', JString (cr_run_id r)), (''accepted'', JBool (cr_accepted r))]"

definition d_cancelled_result :: "json \<Rightarrow> cancelled_result option" where
  "d_cancelled_result j = do {
     obj \<leftarrow> d_struct [''runId'', ''accepted''] j;
     run \<leftarrow> req d_string ''runId'' obj;
     accepted \<leftarrow> req d_bool ''accepted'' obj;
     Some \<lparr>cr_run_id = run, cr_accepted = accepted\<rparr> }"

record cancel_acceptance =
  ca_result :: cancelled_result
  ca_created :: bool
  ca_events :: "event_envelope list"

text \<open>
  The supplies: \<open>u 0\<close> and \<open>t 0, t 1\<close> for the cancellation event and its update,
  \<open>t 2\<close> for the intent, the others, shifted, for the interrupted calls.
\<close>

definition accept_cancel ::
    "(string \<Rightarrow> string) \<Rightarrow> (nat \<Rightarrow> string) \<Rightarrow> (nat \<Rightarrow> string) \<Rightarrow> string \<Rightarrow> string \<Rightarrow> string \<Rightarrow> string \<Rightarrow> string \<Rightarrow>
     actor_ref \<Rightarrow> string \<Rightarrow> db \<Rightarrow> (store_error, cancel_acceptance \<times> db) result" where
  "accept_cancel ms u t actor key fingerprint run_id reason by_actor source db =
     ebind (lookup_idempotency d_cancelled_result actor ''run.cancel'' key fingerprint db) (\<lambda>found.
     case found of
       Some existing \<Rightarrow> Inr (\<lparr>ca_result = existing, ca_created = False, ca_events = []\<rparr>, db)
     | None \<Rightarrow>
         ebind (require_run run_id actor db) (\<lambda>run.
         ebind (ensure (\<not> is_terminal (sp_status run)) RunNotActive) (\<lambda>_.
         let res = \<lparr>cr_run_id = run_id, cr_accepted = True\<rparr> in
         ebind (insert_idempotency actor ''run.cancel'' key fingerprint (cancelled_result_json res) db) (\<lambda>db.
         ebind (insert_cancel \<lparr>ci_run_id = run_id, ci_actor_id = actor, ci_reason = reason,
                  ci_accepted_at = t 2\<rparr> db) (\<lambda>db.
         ebind (append_interrupted_tool_failures ms (\<lambda>i. u (i + 1)) (\<lambda>i. t (i + 3)) actor
                  (sp_session_id run) run_id ''run_cancelled'' db) (\<lambda>(events, db).
         ebind (require_run run_id actor db) (\<lambda>current.
         let e = plain_envelope (u 0) (sp_session_id run) run_id (sp_last_seq current + 1) (t 0) by_actor
               source (RunCancelled \<lparr>rt_reason = reason, rt_error_code = None\<rparr>) in
         ebind (append_event_tx ms (t 1) actor e db) (\<lambda>db.
         Inr (\<lparr>ca_result = res, ca_created = True, ca_events = events @ [e]\<rparr>, db)))))))))"

section \<open>Recovery\<close>

definition recoverable :: "run_status \<Rightarrow> bool" where
  "recoverable s \<longleftrightarrow> s = Queued \<or> s = Running \<or> s = AwaitingApproval"

definition incomplete_runs :: "db \<Rightarrow> (run_row \<times> string option) list" where
  "incomplete_runs db =
     map (\<lambda>r. (r, map_option ci_reason (find (\<lambda>c. ci_run_id c = rn_id r) (db_cancels db))))
       (sort_key rn_id (filter (\<lambda>r. recoverable (rn_status r)) (db_runs db)))"

definition recovery_event :: "string option \<Rightarrow> canonical_event" where
  "recovery_event cancel_reason =
     (case cancel_reason of
        Some reason \<Rightarrow> RunCancelled \<lparr>rt_reason = reason, rt_error_code = None\<rparr>
      | None \<Rightarrow> RunFailed \<lparr>rt_reason = ''core_restarted'', rt_error_code = Some ''run_interrupted''\<rparr>)"

definition recover_one ::
    "(string \<Rightarrow> string) \<Rightarrow> (nat \<Rightarrow> string) \<Rightarrow> (nat \<Rightarrow> string) \<Rightarrow> run_row \<times> string option \<Rightarrow> db \<Rightarrow>
     (store_error, event_envelope \<times> db) result" where
  "recover_one ms u t row db =
     ebind (append_interrupted_tool_failures ms (\<lambda>i. u (i + 1)) (\<lambda>i. t (i + 2)) (rn_actor_id (fst row))
              (rn_session_id (fst row)) (rn_id (fst row)) ''run_interrupted'' db) (\<lambda>(_, db).
     ebind (require_run (rn_id (fst row)) (rn_actor_id (fst row)) db) (\<lambda>current.
     let e = plain_envelope (u 0) (rn_session_id (fst row)) (rn_id (fst row)) (sp_last_seq current + 1)
               (t 0) core_actor ''cool-core-recovery'' (recovery_event (snd row)) in
     ebind (append_event_tx ms (t 1) (rn_actor_id (fst row)) e db) (\<lambda>db.
     Inr (e, db))))"

fun recover_each ::
    "(string \<Rightarrow> string) \<Rightarrow> (nat \<Rightarrow> nat \<Rightarrow> string) \<Rightarrow> (nat \<Rightarrow> nat \<Rightarrow> string) \<Rightarrow> nat \<Rightarrow>
     (run_row \<times> string option) list \<Rightarrow> db \<Rightarrow> (store_error, event_envelope list) result \<times> db" where
  "recover_each ms u t n [] db = (Inr [], db)"
| "recover_each ms u t n (row # rows) db =
     (case recover_one ms (u n) (t n) row db of
        Inl err \<Rightarrow> (Inl err, db)
      | Inr (e, db1) \<Rightarrow>
          (case recover_each ms u t (n + 1) rows db1 of
             (Inl err, db2) \<Rightarrow> (Inl err, db2)
           | (Inr es, db2) \<Rightarrow> (Inr (e # es), db2)))"

definition recover_incomplete_runs ::
    "(string \<Rightarrow> string) \<Rightarrow> (nat \<Rightarrow> nat \<Rightarrow> string) \<Rightarrow> (nat \<Rightarrow> nat \<Rightarrow> string) \<Rightarrow> db \<Rightarrow>
     (store_error, event_envelope list) result \<times> db" where
  "recover_incomplete_runs ms u t db = recover_each ms u t 0 (incomplete_runs db) db"

end
