(* ===== verification/Run_Safety.thy ===== *)
theory Run_Safety
  imports State_Runs
begin

text \<open>
  The operations of \<open>State_Runs\<close> keep the store invariant and only grow the database.
  The locale \<open>keyed_operation\<close> is the contract of an operation under an idempotency
  key; each such operation is shown to honour it.
\<close>

section \<open>Invariant and growth, operation by operation\<close>

lemma new_run_simps [simp]:
  "rn_id (new_run i session actor t p) = i" "rn_session_id (new_run i session actor t p) = session"
  "rn_actor_id (new_run i session actor t p) = actor" "rn_status (new_run i session actor t p) = Running"
  "rn_last_seq (new_run i session actor t p) = 0" "rn_purpose (new_run i session actor t p) = p"
  by (simp_all add: new_run_def)

lemma not_terminal_Running [simp]: "\<not> is_terminal Running"
  by (simp add: is_terminal_def)

lemma owned_session_find:
  "owned_session i actor db = Inr s \<Longrightarrow> find_session i db = Some s \<and> sn_actor_id s = actor"
  by (simp add: owned_session_Inr)

lemma create_session_ok:
  assumes "create_session u t actor key fp title project db = Inr (out, db')"
  shows "(db_ok db \<longrightarrow> db_ok db') \<and> db_grows db db'"
proof -
  from assms consider "db' = db"
    | row j db1 where "insert_session row db = Inr db1" "sn_active_run_id row = None"
      "insert_idempotency actor ''session.create'' key fp j db1 = Inr db'"
    unfolding create_session_def Let_def by (auto simp: res_simps split: option.splits)
  then show ?thesis
  proof cases
    case 2
    then show ?thesis
      using insert_session_db_ok [OF 2(1) _ 2(2)] insert_others_db_ok(1) [OF 2(3)]
        insert_grows(6) [OF 2(1)] insert_grows(1) [OF 2(3)] db_grows_trans by blast
  qed simp
qed

lemma start_auxiliary_run_ok:
  assumes "start_auxiliary_run u t actor session purpose db = Inr (run, db')"
  shows "(db_ok db \<longrightarrow> db_ok db') \<and> db_grows db db'"
proof -
  from assms obtain s where s: "owned_session session actor db = Inr s"
    and ins: "insert_run (new_run run session actor t (Some purpose)) db = Inr db'"
    by (auto simp: start_auxiliary_run_def Let_def res_simps)
  have "db_ok db \<Longrightarrow> db_ok db'"
    by (rule insert_run_db_ok [OF ins, where s = s]) (use owned_session_find [OF s] in simp_all)
  then show ?thesis using insert_grows(7) [OF ins] by blast
qed

text \<open>The statements of \<open>start_run\<close> when the key is new.\<close>

lemma start_run_new:
  assumes "start_run u t actor key fp session db = Inr (out, db')"
    and "lookup_idempotency d_string actor ''session.prompt'' key fp db = Inr None"
  obtains s db1 db2 where "find_session session db = Some s" "sn_actor_id s = actor"
    "active_guard s db = Inr ()" "insert_run (new_run (''run-'' @ u) session actor t None) db = Inr db1"
    "set_active_run session (''run-'' @ u) db1 = Inr db2"
    "insert_idempotency actor ''session.prompt'' key fp (JString (''run-'' @ u)) db2 = Inr db'"
    "out = \<lparr>out_value = ''run-'' @ u, out_created = True\<rparr>"
  using assms unfolding start_run_def Let_def
  by (auto simp: res_simps owned_session_Inr)

lemma start_run_ok:
  assumes run: "start_run u t actor key fp session db = Inr (out, db')"
  shows "(db_ok db \<longrightarrow> db_ok db') \<and> db_grows db db'"
proof (cases "lookup_idempotency d_string actor ''session.prompt'' key fp db")
  case (Inl e)
  with run show ?thesis by (simp add: start_run_def)
next
  case (Inr found)
  show ?thesis
  proof (cases found)
    case (Some r)
    with run Inr show ?thesis by (auto simp: start_run_def res_simps)
  next
    case None
    with Inr have "lookup_idempotency d_string actor ''session.prompt'' key fp db = Inr None" by simp
    from start_run_new [OF run this] obtain s db1 db2 where
      s: "find_session session db = Some s" "sn_actor_id s = actor"
      and ins: "insert_run (new_run (''run-'' @ u) session actor t None) db = Inr db1"
      and act: "set_active_run session (''run-'' @ u) db1 = Inr db2"
      and idem: "insert_idempotency actor ''session.prompt'' key fp (JString (''run-'' @ u)) db2 = Inr db'" .
    have "db_ok db \<Longrightarrow> db_ok db1"
      by (rule insert_run_db_ok [OF ins, where s = s]) (use s in simp_all)
    moreover have "db_ok db1 \<Longrightarrow> db_ok db2"
      by (rule set_active_run_db_ok [OF act, where r = "new_run (''run-'' @ u) session actor t None"])
         (use insert_run_find(1) [OF ins] in simp_all)
    ultimately have "db_ok db \<Longrightarrow> db_ok db'" using insert_others_db_ok(1) [OF idem] by blast
    moreover have "db_grows db db'"
      using insert_grows(7) [OF ins] set_active_run_grows [OF act] insert_grows(1) [OF idem] db_grows_trans
      by blast
    ultimately show ?thesis by blast
  qed
qed

lemma steer_run_ok:
  assumes run: "steer_run ms u t actor key fp run_id content ext db = Inr (out, db')"
    and wf: "wire_fixed ms" and ok: "db_ok db"
  shows "db_ok db' \<and> db_grows db db'"
proof -
  have keys: "keys_ok db" using ok by (simp add: db_ok_def)
  from run consider "db' = db"
    | e t' db1 where "append_event_tx ms t' actor e db = Inr db1"
      "\<exists>j. insert_idempotency actor ''session.steer'' key fp j db1 = Inr db'"
    unfolding steer_run_def Let_def by (auto simp: res_simps split: option.splits)
  then show ?thesis
  proof cases
    case 1
    then show ?thesis using ok by simp
  next
    case 2
    then obtain j where j: "insert_idempotency actor ''session.steer'' key fp j db1 = Inr db'" by blast
    show ?thesis
      using insert_others_db_ok(1) [OF j append_db_ok [OF wf ok 2(1)]] insert_grows(1) [OF j]
        append_grows [OF keys 2(1)] db_grows_trans by blast
  qed
qed

lemma append_event_ok:
  assumes "append_event ms t owner e db = Inr db'" "wire_fixed ms" "db_ok db"
  shows "db_ok db' \<and> db_grows db db'"
proof -
  from assms(1) obtain e' where "append_event_tx ms t owner e' db = Inr db'"
    by (auto simp: append_event_def res_simps)
  with assms(2,3) show ?thesis using append_db_ok append_grows by (metis db_ok_def)
qed

lemma append_event_auto_ok:
  assumes "append_event_auto ms t owner e db = Inr (e', db')" "wire_fixed ms" "db_ok db"
  shows "db_ok db' \<and> db_grows db db'"
proof -
  from assms(1) obtain e' where "append_event_tx ms t owner e' db = Inr db'"
    by (auto simp: append_event_auto_def Let_def res_simps)
  with assms(2,3) show ?thesis using append_db_ok append_grows by (metis db_ok_def)
qed

text \<open>A property of databases that every append keeps is kept by the closing of interrupted calls.\<close>

lemma interruption_keeps:
  assumes run: "append_interrupted_tool_failures ms u t owner session run code db = Inr (es, db')"
    and p: "p db" and step: "\<And>t e x y. p x \<Longrightarrow> append_event_tx ms t owner e x = Inr y \<Longrightarrow> ee_run_id e = run \<Longrightarrow>
      event_status (ee_event e) = None \<Longrightarrow> p y"
  shows "p db'"
proof -
  from run obtain calls where
    "efold (append_interruption ms u t owner session run code) calls ([], db) = Inr (es, db')"
    by (auto simp: append_interrupted_tool_failures_def res_simps)
  then have "p (snd (es, db'))"
  proof (rule efold_invariant [where P = "\<lambda>st. p (snd st)"])
    fix c and st st' :: "event_envelope list \<times> db"
    assume "p (snd st)" "append_interruption ms u t owner session run code c st = Inr st'"
    then show "p (snd st')"
      by (auto simp: append_interruption_def Let_def res_simps interrupted_failure_def plain_envelope_def
          intro: step)
  qed (simp add: p)
  then show ?thesis by simp
qed

lemma interruption_ok:
  assumes "append_interrupted_tool_failures ms u t owner session run code db = Inr (es, db')"
    and "wire_fixed ms" "db_ok db"
  shows "db_ok db' \<and> db_grows db db'"
proof (rule interruption_keeps [OF assms(1), where p = "\<lambda>x. db_ok x \<and> db_grows db x"])
  show "db_ok y \<and> db_grows db y" if "db_ok x \<and> db_grows db x" "append_event_tx ms t' owner e x = Inr y" for t' e x y
    using that append_db_ok [OF assms(2) _ that(2)] append_grows [OF _ that(2)] db_grows_trans
    by (metis db_ok_def)
qed (use assms(3) in simp)

lemma accept_cancel_new:
  assumes "accept_cancel ms u t actor key fp run_id reason by_actor source db = Inr (out, db')"
    and "lookup_idempotency d_cancelled_result actor ''run.cancel'' key fp db = Inr None"
  obtains run db1 db2 events db3 current where
    "require_run run_id actor db = Inr run" "\<not> is_terminal (sp_status run)"
    "insert_idempotency actor ''run.cancel'' key fp
       (cancelled_result_json \<lparr>cr_run_id = run_id, cr_accepted = True\<rparr>) db = Inr db1"
    "insert_cancel \<lparr>ci_run_id = run_id, ci_actor_id = actor, ci_reason = reason, ci_accepted_at = t 2\<rparr> db1 = Inr db2"
    "append_interrupted_tool_failures ms (\<lambda>i. u (i + 1)) (\<lambda>i. t (i + 3)) actor (sp_session_id run) run_id
       ''run_cancelled'' db2 = Inr (events, db3)"
    "require_run run_id actor db3 = Inr current"
    "append_event_tx ms (t 1) actor (plain_envelope (u 0) (sp_session_id run) run_id (sp_last_seq current + 1)
       (t 0) by_actor source (RunCancelled \<lparr>rt_reason = reason, rt_error_code = None\<rparr>)) db3 = Inr db'"
    "ca_result out = \<lparr>cr_run_id = run_id, cr_accepted = True\<rparr>" "ca_created out"
  using assms unfolding accept_cancel_def Let_def by (auto simp: res_simps)

lemma accept_cancel_replay:
  assumes "accept_cancel ms u t actor key fp run_id reason by_actor source db = Inr (out, db')"
    and "lookup_idempotency d_cancelled_result actor ''run.cancel'' key fp db \<noteq> Inr None"
  shows "db' = db"
  using assms by (auto simp: accept_cancel_def res_simps split: option.splits)

lemma accept_cancel_ok:
  assumes run: "accept_cancel ms u t actor key fp run_id reason by_actor source db = Inr (out, db')"
    and wf: "wire_fixed ms" and ok: "db_ok db"
  shows "db_ok db' \<and> db_grows db db'"
proof (cases "lookup_idempotency d_cancelled_result actor ''run.cancel'' key fp db = Inr None")
  case False
  from accept_cancel_replay [OF run this] ok show ?thesis by simp
next
  case True
  from accept_cancel_new [OF run True] obtain r db1 db2 events db3 e where
    1: "insert_idempotency actor ''run.cancel'' key fp
       (cancelled_result_json \<lparr>cr_run_id = run_id, cr_accepted = True\<rparr>) db = Inr db1"
    and 2: "insert_cancel \<lparr>ci_run_id = run_id, ci_actor_id = actor, ci_reason = reason, ci_accepted_at = t 2\<rparr> db1 = Inr db2"
    and 3: "append_interrupted_tool_failures ms (\<lambda>i. u (i + 1)) (\<lambda>i. t (i + 3)) actor r run_id
       ''run_cancelled'' db2 = Inr (events, db3)"
    and 4: "append_event_tx ms (t 1) actor e db3 = Inr db'" by metis
  have ok2: "db_ok db2" using insert_others_db_ok(2) [OF 2 insert_others_db_ok(1) [OF 1 ok]] .
  note i = interruption_ok [OF 3 wf ok2]
  then have "db_ok db'" "db_grows db3 db'"
    using append_db_ok [OF wf _ 4] append_grows [OF _ 4] by (auto simp: db_ok_def)
  then show ?thesis
    using insert_grows(1) [OF 1] insert_grows(2) [OF 2] i db_grows_trans by blast
qed

lemma recover_one_ok:
  assumes run: "recover_one ms u t row db = Inr (e, db')" and wf: "wire_fixed ms" and ok: "db_ok db"
  shows "db_ok db' \<and> db_grows db db'"
proof -
  from run obtain es db1 t' owner where
    1: "append_interrupted_tool_failures ms (\<lambda>i. u (i + 1)) (\<lambda>i. t (i + 2)) (rn_actor_id (fst row))
          (rn_session_id (fst row)) (rn_id (fst row)) ''run_interrupted'' db = Inr (es, db1)"
    and 2: "append_event_tx ms t' owner e db1 = Inr db'"
    by (auto simp: recover_one_def Let_def res_simps)
  note i = interruption_ok [OF 1 wf ok]
  then have "db_ok db'" "db_grows db1 db'"
    using append_db_ok [OF wf _ 2] append_grows [OF _ 2] by (auto simp: db_ok_def)
  with i show ?thesis using db_grows_trans by blast
qed

lemma recover_each_ok:
  "recover_each ms u t n rows db = (res, db') \<Longrightarrow> wire_fixed ms \<Longrightarrow> db_ok db \<Longrightarrow> db_ok db' \<and> db_grows db db'"
proof (induction rows arbitrary: n db res db')
  case (Cons row rows)
  show ?case
  proof (cases "recover_one ms (u n) (t n) row db")
    case (Inl e)
    with Cons.prems show ?thesis by simp
  next
    case (Inr p)
    obtain e db1 where p: "p = (e, db1)" by (cases p)
    note one = recover_one_ok [OF Inr [unfolded p] Cons.prems(2,3)]
    obtain res2 db2 where rest: "recover_each ms u t (n + 1) rows db1 = (res2, db2)" by (cases "recover_each ms u t (n + 1) rows db1")
    from Cons.prems(1) Inr p rest have "db' = db2" by (auto split: sum.splits)
    with Cons.IH [OF rest Cons.prems(2)] one show ?thesis using db_grows_trans by blast
  qed
qed simp

end
