(* ===== verification/Run_Properties.thy ===== *)
theory Run_Properties
  imports Run_Safety
begin

text \<open>
  What the operations on sessions and runs promise: idempotency keys, one active run per
  session, contiguous sequence numbers, replay, cancellation and recovery.
\<close>

section \<open>Idempotency keys\<close>

text \<open>
  The contract of an operation under an idempotency key: \<open>stored\<close> is what the key's
  record says for a fingerprint, \<open>i\<close> stands for the fresh ids and clock readings.
\<close>

locale keyed_operation =
  fixes op :: "'i \<Rightarrow> string \<Rightarrow> 'd \<Rightarrow> ('e, 'r outcome \<times> 'd) result"
    and stored :: "string \<Rightarrow> 'd \<Rightarrow> ('e, 'r option) result"
    and le :: "'d \<Rightarrow> 'd \<Rightarrow> bool" and conflict :: 'e
  assumes replay: "stored fp d = Inr (Some v) \<Longrightarrow> op i fp d = Inr (\<lparr>out_value = v, out_created = False\<rparr>, d)"
    and refuse: "stored fp d = Inl e \<Longrightarrow> op i fp d = Inl e"
    and perform: "stored fp d = Inr None \<Longrightarrow> op i fp d = Inr (out, d') \<Longrightarrow>
      out_created out \<and> stored fp d' = Inr (Some (out_value out))"
    and persists: "stored fp d = Inr (Some v) \<Longrightarrow> le d d' \<Longrightarrow> stored fp d' = Inr (Some v)"
    and exclusive: "stored fp d = Inr (Some v) \<Longrightarrow> fp' \<noteq> fp \<Longrightarrow> stored fp' d = Inl conflict"
begin

lemma stored_after:
  assumes "op i fp d = Inr (out, d')"
  shows "stored fp d' = Inr (Some (out_value out))"
proof (cases "stored fp d")
  case (Inl e)
  with refuse [of fp d e i] assms show ?thesis by simp
next
  case (Inr found)
  then show ?thesis
    using replay [of fp d _ i] perform [of fp d i out d'] assms by (cases found) auto
qed

lemma retry: "op i fp d = Inr (out, d') \<Longrightarrow> le d' d'' \<Longrightarrow>
  op j fp d'' = Inr (\<lparr>out_value = out_value out, out_created = False\<rparr>, d'')"
  by (intro replay persists [OF stored_after])

lemma reuse_refused: "op i fp d = Inr (out, d') \<Longrightarrow> le d' d'' \<Longrightarrow> fp' \<noteq> fp \<Longrightarrow> op j fp' d'' = Inl conflict"
  by (intro refuse exclusive [OF persists [OF stored_after]])

end

lemma lookup_cases:
  "lookup_idempotency read a sc k fp db =
     (case find (idempotency_match a sc k) (db_idempotency db) of
        None \<Rightarrow> Inr None
      | Some r \<Rightarrow> if ix_fingerprint r \<noteq> fp then Inl IdempotencyConflict
          else case read (ix_result r) of None \<Rightarrow> Inl JsonError | Some v \<Rightarrow> Inr (Some v))"
  by (auto simp: lookup_idempotency_def split: option.splits)

lemma find_grows:
  assumes "table_grows (=) xs ys" "find p xs = Some x"
  shows "find p ys = Some x"
  using assms by (auto simp: table_grows_eq_iff find_append_eq)

lemma lookup_persists:
  assumes "lookup_idempotency read a sc k fp db = Inr (Some v)" "db_grows db db'"
  shows "lookup_idempotency read a sc k fp db' = Inr (Some v)"
proof -
  from assms(2) have grow: "table_grows (=) (db_idempotency db) (db_idempotency db')" by (simp add: db_grows_def)
  from assms(1) obtain r where r: "find (idempotency_match a sc k) (db_idempotency db) = Some r"
    "ix_fingerprint r = fp" "read (ix_result r) = Some v"
    by (auto simp: lookup_cases split: option.splits if_splits)
  from find_grows [OF grow r(1)] r(2,3) show ?thesis by (simp add: lookup_cases)
qed

lemma lookup_exclusive:
  assumes "lookup_idempotency read a sc k fp db = Inr (Some v)" "fp' \<noteq> fp"
  shows "lookup_idempotency read' a sc k fp' db = Inl IdempotencyConflict"
  using assms by (auto simp: lookup_cases split: option.splits if_splits)

lemma lookup_insert:
  assumes "insert_idempotency a sc k fp j db = Inr db'" "read j = Some v"
  shows "lookup_idempotency read a sc k fp db' = Inr (Some v)"
proof -
  from assms(1) have none: "\<not> list_ex (idempotency_match a sc k) (db_idempotency db)"
    and db': "db_idempotency db' = db_idempotency db @ [\<lparr>ix_actor_id = a, ix_scope = sc, ix_key = k,
      ix_fingerprint = fp, ix_result = j\<rparr>]"
    by (auto simp: insert_idempotency_def split: if_splits)
  from none have "find (idempotency_match a sc k) (db_idempotency db) = None"
    by (simp add: find_None_iff list_ex_iff)
  then show ?thesis using assms(2) by (simp add: lookup_cases db' find_append_eq idempotency_match_def)
qed

lemma find_list_all2:
  assumes "list_all2 r xs ys" "find p xs = Some x" "\<And>a b. r a b \<Longrightarrow> p a = p b"
  shows "\<exists>y. find p ys = Some y \<and> r x y"
  using assms(1,2) by (induction rule: list_all2_induct) (use assms(3) in \<open>auto split: if_splits\<close>)

lemma find_run_grows:
  assumes "db_grows db db'" "find_run i db = Some r"
  shows "\<exists>r'. find_run i db' = Some r' \<and> run_kept r r'"
proof -
  from assms(1) obtain ks ns where ks: "db_runs db' = ks @ ns" "list_all2 run_kept (db_runs db) ks"
    unfolding db_grows_def table_grows_def by blast
  from find_list_all2 [OF ks(2) assms(2) [unfolded find_run_def]] obtain y where
    "find (\<lambda>r. rn_id r = i) ks = Some y" "run_kept r y"
    by (auto simp: run_kept_def)
  then show ?thesis by (simp add: find_run_def ks(1) find_append_eq)
qed

lemma require_run_grows:
  "db_grows db db' \<Longrightarrow> require_run i actor db = Inr x \<Longrightarrow> \<exists>y. require_run i actor db' = Inr y"
  using find_run_grows [of db db' i] by (fastforce simp: require_run_Inr run_kept_def)

interpretation create_session: keyed_operation
  "\<lambda>(u, t, title, project) fp db. create_session u t actor key fp title project db"
  "\<lambda>fp db. lookup_idempotency d_string actor ''session.create'' key fp db" db_grows IdempotencyConflict
  for actor key
proof unfold_locales
  fix fp db out db' and i :: "string \<times> string \<times> string option \<times> string option"
  obtain u t title project where i: "i = (u, t, title, project)" by (cases i)
  assume none: "lookup_idempotency d_string actor ''session.create'' key fp db = Inr None"
    and run: "(case i of (u, t, title, project) \<Rightarrow> \<lambda>fp db. create_session u t actor key fp title project db) fp db = Inr (out, db')"
  then show "out_created out \<and> lookup_idempotency d_string actor ''session.create'' key fp db' = Inr (Some (out_value out))"
    unfolding i create_session_def Let_def by (auto simp: res_simps codec intro!: lookup_insert)
qed (auto simp: create_session_def intro: lookup_persists lookup_exclusive)

interpretation steer_run: keyed_operation
  "\<lambda>(ms, u, t, run, content, ext) fp db. steer_run ms u t actor key fp run content ext db"
  "\<lambda>fp db. lookup_idempotency d_steer_result actor ''session.steer'' key fp db" db_grows IdempotencyConflict
  for actor key
proof unfold_locales
  fix fp db out db' and i :: "(string \<Rightarrow> string) \<times> string \<times> (nat \<Rightarrow> string) \<times> string \<times> string \<times> json_map"
  obtain ms u t run content ext where i: "i = (ms, u, t, run, content, ext)" by (cases i)
  have read: "d_steer_result (steer_result_json r) = Some r" for r
    by (simp add: d_steer_result_def steer_result_json_def reading codec)
  assume "lookup_idempotency d_steer_result actor ''session.steer'' key fp db = Inr None"
    and "(case i of (ms, u, t, run, content, ext) \<Rightarrow> \<lambda>fp db. steer_run ms u t actor key fp run content ext db) fp db = Inr (out, db')"
  then show "out_created out \<and> lookup_idempotency d_steer_result actor ''session.steer'' key fp db' = Inr (Some (out_value out))"
    unfolding i steer_run_def Let_def by (auto simp: res_simps read intro!: lookup_insert)
qed (auto simp: steer_run_def intro: lookup_persists lookup_exclusive)

text \<open>\<open>start_run\<close> also insists that the stored run still belongs to the actor.\<close>

definition stored_run :: "string \<Rightarrow> string \<Rightarrow> string \<Rightarrow> db \<Rightarrow> (store_error, string option) result" where
  "stored_run actor key fp db =
     ebind (lookup_idempotency d_string actor ''session.prompt'' key fp db) (\<lambda>found.
     case found of None \<Rightarrow> Inr None | Some run \<Rightarrow> ebind (require_run run actor db) (\<lambda>_. Inr (Some run)))"

lemma stored_run_Some:
  "stored_run actor key fp db = Inr (Some v) \<longleftrightarrow>
     lookup_idempotency d_string actor ''session.prompt'' key fp db = Inr (Some v) \<and>
     (\<exists>x. require_run v actor db = Inr x)"
  by (auto simp: stored_run_def res_simps split: option.splits)

lemma stored_run_None:
  "stored_run actor key fp db = Inr None \<longleftrightarrow>
     lookup_idempotency d_string actor ''session.prompt'' key fp db = Inr None"
  by (auto simp: stored_run_def res_simps split: option.splits)

lemma set_active_run_find: "set_active_run s i db = Inr db' \<Longrightarrow> find_run j db' = find_run j db"
  by (auto simp: set_active_run_def update_session_def find_run_def split: if_splits)

lemma insert_idempotency_find: "insert_idempotency a sc k fp x db = Inr db' \<Longrightarrow> find_run j db' = find_run j db"
  by (auto simp: insert_idempotency_def find_run_def split: if_splits)

interpretation start_run: keyed_operation
  "\<lambda>(u, t, session) fp db. start_run u t actor key fp session db"
  "stored_run actor key" db_grows IdempotencyConflict for actor key
proof unfold_locales
  fix fp db out db' and i :: "string \<times> string \<times> string"
  obtain u t session where i: "i = (u, t, session)" by (cases i)
  assume none: "stored_run actor key fp db = Inr None"
    and run: "(case i of (u, t, session) \<Rightarrow> \<lambda>fp db. start_run u t actor key fp session db) fp db = Inr (out, db')"
  from none have none': "lookup_idempotency d_string actor ''session.prompt'' key fp db = Inr None"
    by (simp add: stored_run_None)
  from run have "start_run u t actor key fp session db = Inr (out, db')" by (simp add: i)
  from start_run_new [OF this none'] obtain db1 db2 where
    ins: "insert_run (new_run (''run-'' @ u) session actor t None) db = Inr db1"
    and act: "set_active_run session (''run-'' @ u) db1 = Inr db2"
    and idem: "insert_idempotency actor ''session.prompt'' key fp (JString (''run-'' @ u)) db2 = Inr db'"
    and out: "out = \<lparr>out_value = ''run-'' @ u, out_created = True\<rparr>" by metis
  have "find_run (''run-'' @ u) db' = Some (new_run (''run-'' @ u) session actor t None)"
    using insert_run_find(1) [OF ins] set_active_run_find [OF act] insert_idempotency_find [OF idem] by simp
  moreover have "lookup_idempotency d_string actor ''session.prompt'' key fp db' = Inr (Some (''run-'' @ u))"
    by (rule lookup_insert [OF idem]) (simp add: codec)
  ultimately show "out_created out \<and> stored_run actor key fp db' = Inr (Some (out_value out))"
    by (simp add: stored_run_Some out require_run_Inr)
next
  fix fp db v and i :: "string \<times> string \<times> string"
  assume "stored_run actor key fp db = Inr (Some v)"
  then show "(case i of (u, t, session) \<Rightarrow> \<lambda>fp db. start_run u t actor key fp session db) fp db
      = Inr (\<lparr>out_value = v, out_created = False\<rparr>, db)"
    by (auto simp: stored_run_Some start_run_def split: prod.splits)
next
  fix fp db e and i :: "string \<times> string \<times> string"
  assume "stored_run actor key fp db = Inl e"
  then show "(case i of (u, t, session) \<Rightarrow> \<lambda>fp db. start_run u t actor key fp session db) fp db = Inl e"
    by (auto simp: stored_run_def start_run_def ebind_Inl_iff split: prod.splits option.splits)
next
  fix fp db v db'
  assume "stored_run actor key fp db = Inr (Some v)" "db_grows db db'"
  then show "stored_run actor key fp db' = Inr (Some v)"
    using lookup_persists require_run_grows by (fastforce simp: stored_run_Some)
next
  fix fp db v fp'
  assume "stored_run actor key fp db = Inr (Some v)" "fp' \<noteq> (fp :: string)"
  then have "lookup_idempotency d_string actor ''session.prompt'' key fp' db = Inl IdempotencyConflict"
    using lookup_exclusive by (auto simp: stored_run_Some)
  then show "stored_run actor key fp' db = Inl IdempotencyConflict" by (simp add: stored_run_def)
qed

text \<open>The cancellation's result without its events.\<close>

definition cancel_outcome ::
    "(store_error, cancel_acceptance \<times> db) result \<Rightarrow> (store_error, cancelled_result outcome \<times> db) result" where
  "cancel_outcome r = ebind r (\<lambda>(a, db). Inr (\<lparr>out_value = ca_result a, out_created = ca_created a\<rparr>, db))"

lemma append_event_tx_lookup:
  "append_event_tx ms t owner e db = Inr db' \<Longrightarrow>
   lookup_idempotency read a sc k fp db' = lookup_idempotency read a sc k fp db"
  by (drule append_event_tx_keeps(1)) (simp add: lookup_idempotency_def)

lemma interruption_lookup:
  assumes "append_interrupted_tool_failures ms u t owner session run code db = Inr (es, db')"
  shows "lookup_idempotency read a sc k fp db' = lookup_idempotency read a sc k fp db"
  by (rule interruption_keeps [OF assms, where p = "\<lambda>x. lookup_idempotency read a sc k fp x =
        lookup_idempotency read a sc k fp db"]) (simp_all add: append_event_tx_lookup)

interpretation accept_cancel: keyed_operation
  "\<lambda>(ms, u, t, run, reason, by_actor, source) fp db.
     cancel_outcome (accept_cancel ms u t actor key fp run reason by_actor source db)"
  "\<lambda>fp db. lookup_idempotency d_cancelled_result actor ''run.cancel'' key fp db" db_grows IdempotencyConflict
  for actor key
proof unfold_locales
  fix fp db out db' and i :: "(string \<Rightarrow> string) \<times> (nat \<Rightarrow> string) \<times> (nat \<Rightarrow> string) \<times> string \<times> string \<times> actor_ref \<times> string"
  obtain ms u t run reason by_actor source where i: "i = (ms, u, t, run, reason, by_actor, source)" by (cases i)
  let ?key = "lookup_idempotency d_cancelled_result actor ''run.cancel'' key fp"
  assume none: "?key db = Inr None"
    and "(case i of (ms, u, t, run, reason, by_actor, source) \<Rightarrow> \<lambda>fp db.
        cancel_outcome (accept_cancel ms u t actor key fp run reason by_actor source db)) fp db = Inr (out, db')"
  then obtain a where a: "accept_cancel ms u t actor key fp run reason by_actor source db = Inr (a, db')"
    and out: "out = \<lparr>out_value = ca_result a, out_created = ca_created a\<rparr>"
    by (auto simp: i cancel_outcome_def res_simps)
  have read: "d_cancelled_result (cancelled_result_json r) = Some r" for r
    by (simp add: d_cancelled_result_def cancelled_result_json_def reading codec)
  from accept_cancel_new [OF a none] obtain s db1 db2 events db3 e where
    1: "insert_idempotency actor ''run.cancel'' key fp
       (cancelled_result_json \<lparr>cr_run_id = run, cr_accepted = True\<rparr>) db = Inr db1"
    and 2: "insert_cancel \<lparr>ci_run_id = run, ci_actor_id = actor, ci_reason = reason, ci_accepted_at = t 2\<rparr> db1 = Inr db2"
    and 3: "append_interrupted_tool_failures ms (\<lambda>i. u (i + 1)) (\<lambda>i. t (i + 3)) actor s run
       ''run_cancelled'' db2 = Inr (events, db3)"
    and 4: "append_event_tx ms (t 1) actor e db3 = Inr db'"
    and r: "ca_result a = \<lparr>cr_run_id = run, cr_accepted = True\<rparr>" "ca_created a" by metis
  have "?key db1 = Inr (Some (ca_result a))" unfolding r by (rule lookup_insert [OF 1]) (rule read)
  moreover have "?key db2 = ?key db1" using insert_cancel_keeps [OF 2] by (simp add: lookup_idempotency_def)
  ultimately have "?key db' = Inr (Some (ca_result a))"
    by (simp add: interruption_lookup [OF 3] append_event_tx_lookup [OF 4])
  with r(2) show "out_created out \<and> ?key db' = Inr (Some (out_value out))" by (simp add: out)
qed (auto simp: accept_cancel_def cancel_outcome_def intro: lookup_persists lookup_exclusive)


section \<open>When an append succeeds\<close>

lemma append_event_tx_total:
  assumes wf: "wire_fixed ms" and ok: "db_ok db"
    and r: "find_run (ee_run_id e) db = Some r" "rn_actor_id r = owner" "rn_session_id r = ee_session_id e"
    and live: "\<not> is_terminal (rn_status r)" and room: "rn_last_seq r < int i64_max"
    and seq: "ee_seq e = as_u64 (rn_last_seq r) + 1"
    and trans: "transition_allowed (rn_status r) (unwrap_or (rn_status r) (event_status (ee_event e)))"
    and wr: "writable (ee_event e)" and new: "ee_event_id e \<notin> ev_event_id ` set (db_events db)"
  shows "\<exists>db'. append_event_tx ms t owner e db = Inr db'"
proof -
  from find_run_Some [OF r(1)] ok have lc: "log_complete db r" and rid: "rn_id r = ee_run_id e"
    by (auto simp: db_ok_def)
  have mem: "ee_run_id e \<in> rn_id ` set (db_runs db)" using find_run_Some [OF r(1)] by (metis imageI)
  from lc rid have l: "0 \<le> rn_last_seq r" "map ev_seq (run_events (ee_run_id e) db) = [1..rn_last_seq r]"
    by (simp_all add: log_complete_def)
  have u: "uint (ee_seq e) = rn_last_seq r + 1"
    using l(1) room by (simp add: seq as_u64_def uint_word_ariths uint_word_of_int mod_simps)
  then have i: "as_i64 (ee_seq e) = rn_last_seq r + 1" using room by (simp add: as_i64_def sint_u64)
  have unique: "(ee_run_id e, as_i64 (ee_seq e)) \<notin> (\<lambda>x. (ev_run_id x, ev_seq x)) ` set (db_events db)"
  proof
    assume "(ee_run_id e, as_i64 (ee_seq e)) \<in> (\<lambda>x. (ev_run_id x, ev_seq x)) ` set (db_events db)"
    then have "rn_last_seq r + 1 \<in> set (map ev_seq (run_events (ee_run_id e) db))"
      using i by (auto simp: run_events_def)
    then show False by (simp add: l(2))
  qed
  show ?thesis
    using r live trans u room new unique mem
    by (simp add: append_event_tx_def require_run_def seq [symmetric] Let_def insert_event_def
        masked_envelope_total [OF wf wr])
qed

lemma append_event_tx_run:
  assumes "append_event_tx ms t owner e db = Inr db'" "keys_ok db" "find_run (ee_run_id e) db = Some r"
  shows "\<exists>r'. find_run (ee_run_id e) db' = Some r' \<and>
    rn_status r' = unwrap_or (rn_status r) (event_status (ee_event e)) \<and>
    rn_last_seq r' = as_i64 (ee_seq e) \<and> rn_session_id r' = rn_session_id r \<and> rn_actor_id r' = rn_actor_id r"
  using assms(1)
proof (rule append_event_txE)
  fix q persisted nxt
  assume q: "find_run (ee_run_id e) db = Some q"
    and nxt: "nxt = unwrap_or (rn_status q) (event_status (ee_event e))"
    and rn: "db_runs db' = map (\<lambda>r. if rn_id r = ee_run_id e
        then advance_run t nxt e (terminal_reason (ee_event persisted)) r else r) (db_runs db)"
  let ?f = "advance_run t nxt e (terminal_reason (ee_event persisted))"
  from q assms(3) have q': "q = r" by simp
  from find_run_Some [OF q] have "q \<in> set (db_runs db)" "rn_id q = ee_run_id e" by auto
  then have "?f q \<in> set (db_runs db')" unfolding rn by (intro in_map_if(1)) simp_all
  then have "find_run (ee_run_id e) db' = Some (?f q)"
    using append_keys_ok [OF assms(2,1)] \<open>rn_id q = ee_run_id e\<close> by (intro find_run_eq) simp_all
  then show ?thesis by (simp add: nxt q')
qed

lemma append_event_tx_others:
  assumes "append_event_tx ms t owner e db = Inr db'" "i \<noteq> ee_run_id e"
  shows "find_run i db' = find_run i db" "run_events i db' = run_events i db"
proof -
  have find: "find (\<lambda>r. rn_id r = i) (map (\<lambda>r. if rn_id r = ee_run_id e then f r else r) rs) =
      find (\<lambda>r. rn_id r = i) rs" if "\<And>r. rn_id (f r) = rn_id r" for f :: "run_row \<Rightarrow> run_row" and rs
    using that assms(2) by (induction rs) auto
  show "find_run i db' = find_run i db"
    using assms(1) by (rule append_event_txE) (simp add: find_run_def find)
  show "run_events i db' = run_events i db"
    using assms(1) by (rule append_event_txE) (use assms(2) in \<open>simp add: run_events_snoc appended_row_def\<close>)
qed


section \<open>Reading a run back\<close>

definition row_reads :: "event_row \<Rightarrow> event_envelope \<Rightarrow> bool" where
  "row_reads row e \<longleftrightarrow> d_envelope (ev_envelope row) = Some e \<and> ee_seq e = as_u64 (ev_seq row)"

lemma as_u64_i64 [simp]: "as_u64 (as_i64 w) = w"
  by (simp add: as_u64_def as_i64_def)

lemma read_rows_total:
  "\<forall>row \<in> set rows. row_readable row \<Longrightarrow> \<exists>es. read_rows rows = Inr es \<and> list_all2 row_reads rows es"
proof (induction rows)
  case (Cons row rows)
  then obtain es where "read_rows rows = Inr es" "list_all2 row_reads rows es" by auto
  moreover from Cons.prems obtain e where e: "d_envelope (ev_envelope row) = Some e" "as_i64 (ee_seq e) = ev_seq row"
    by (auto simp: row_readable_def)
  moreover have "row_reads row e" using e as_u64_i64 [of "ee_seq e"] by (simp add: row_reads_def)
  ultimately show ?case by (auto simp: read_row_def)
qed simp

lemma run_rows:
  assumes "db_ok db" "find_run i db = Some r"
  shows "map ev_seq (run_events i db) = [1..rn_last_seq r]" "0 \<le> rn_last_seq r" "rn_last_seq r \<le> int i64_max"
    "\<forall>row \<in> set (run_events i db). row_readable row" "sort_key ev_seq (run_events i db) = run_events i db"
    "rn_status r \<noteq> Rewound \<Longrightarrow> rn_status r = projected_status (run_events i db)"
proof -
  from find_run_Some [OF assms(2)] assms(1) have lc: "log_complete db r" and sp: "status_projected db r"
    and i: "rn_id r = i" by (auto simp: db_ok_def)
  then show m: "map ev_seq (run_events i db) = [1..rn_last_seq r]" and "0 \<le> rn_last_seq r"
    and "rn_last_seq r \<le> int i64_max" by (auto simp: log_complete_def)
  from assms(1) show "\<forall>row \<in> set (run_events i db). row_readable row" by (simp add: db_ok_def run_events_def)
  have "sorted (map ev_seq (run_events i db))" unfolding m by simp
  then show "sort_key ev_seq (run_events i db) = run_events i db" by (rule sort_key_id_if_sorted)
  show "rn_status r \<noteq> Rewound \<Longrightarrow> rn_status r = projected_status (run_events i db)"
    using sp i by (simp add: status_projected_def)
qed

lemma all_events_eq:
  assumes ok: "db_ok db" and r: "find_run i db = Some r" "rn_actor_id r = actor"
  shows "all_events i actor db = read_rows (run_events i db)"
proof -
  note rows = run_rows [OF ok r(1)]
  have "as_i64 0 < ev_seq e" if "e \<in> set (run_events i db)" for e
  proof -
    from that have "ev_seq e \<in> set (map ev_seq (run_events i db))" by simp
    then show ?thesis unfolding rows(1) by (simp add: as_i64_def)
  qed
  then have f: "filter (\<lambda>e. as_i64 0 < ev_seq e) (run_events i db) = run_events i db" by (simp add: filter_id_conv)
  have "length (run_events i db) \<le> length (db_events db)" by (simp add: run_events_def)
  then show ?thesis
    using r by (simp add: all_events_def events_of_def require_run_def f rows(5) unwrap_or_def)
qed

lemma replay_loop_complete:
  "list_all2 row_reads rows es \<Longrightarrow> map ev_seq rows = [k..n] \<Longrightarrow>
   replay_loop i (as_u64 k) es s = Inr (foldl (\<lambda>s row. unwrap_or s (row_status row)) s rows)"
proof (induction rows es arbitrary: k s rule: list_all2_induct)
  case (Cons row rows e es)
  from Cons.prems have k: "ev_seq row = k" "map ev_seq rows = [k + 1..n]"
    by (auto simp: upto.simps [of k n] split: if_splits)
  have "as_u64 k + 1 = as_u64 (k + 1)" by (simp add: as_u64_def)
  with Cons k show ?case by (simp add: row_reads_def row_status_def)
qed simp

lemma last_list_all2: "list_all2 r xs ys \<Longrightarrow> xs \<noteq> [] \<Longrightarrow> r (last xs) (last ys)"
  by (induction rule: list_all2_induct) (auto dest: list_all2_lengthD)

lemma replay_run_eq:
  assumes ok: "db_ok db" and r: "find_run i db = Some r" "rn_actor_id r = actor"
  defines "st \<equiv> projected_status (run_events i db)"
  shows "replay_run i actor db =
    (if rn_status r = st then Inr (run_snapshot_of r) else Inl (Corrupt (ProjectionDiffers st (rn_status r))))"
proof -
  note rows = run_rows [OF ok r(1)]
  from read_rows_total [OF rows(4)] obtain es where es: "read_rows (run_events i db) = Inr es"
    "list_all2 row_reads (run_events i db) es" by blast
  have loop: "replay_loop i 1 es Running = Inr st"
    using replay_loop_complete [OF es(2) rows(1), of i Running] by (simp add: st_def projected_status_def as_u64_def)
  have "(if es = [] then 0 else ee_seq (last es)) = as_u64 (rn_last_seq r)"
  proof (cases "run_events i db = []")
    case True
    with es(2) rows(1) have "es = []" "rn_last_seq r \<le> 0" by auto
    with rows(2) show ?thesis by (simp add: as_u64_def)
  next
    case False
    then have "1 \<le> rn_last_seq r" using rows(1) by (cases "1 \<le> rn_last_seq r") simp_all
    then have "last (map ev_seq (run_events i db)) = rn_last_seq r"
      unfolding rows(1) by (simp add: upto_rec2)
    then have "ev_seq (last (run_events i db)) = rn_last_seq r" using False by (simp add: last_map)
    with last_list_all2 [OF es(2) False] False es(2) show ?thesis by (auto simp: row_reads_def)
  qed
  then show ?thesis
    using r loop by (simp add: replay_run_def load_run_def all_events_eq [OF ok r] es(1) ensure_def
        run_snapshot_of_def)
qed

lemma projected_not_rewound: "projected_status rows \<noteq> Rewound"
proof -
  have "event_status e \<noteq> Some Rewound" for e by (cases e) simp_all
  then have step: "row_status row \<noteq> Some Rewound" for row by (auto simp: row_status_def bind_eq_Some_conv)
  have "s \<noteq> Rewound \<Longrightarrow> foldl (\<lambda>s row. unwrap_or s (row_status row)) s rows \<noteq> Rewound" for s
  proof (induction rows arbitrary: s)
    case (Cons row rows)
    with step [of row] show ?case by (cases "row_status row") (simp_all add: unwrap_or_def)
  qed simp
  then show ?thesis by (simp add: projected_status_def)
qed

end
