(* ===== verification/Masked_Log.thy ===== *)
theory Masked_Log
  imports Run_Properties
begin

text \<open>
  Masking an event twice is masking it once, so the documents of the log are fixed points of
  the masking: \<open>log_masked\<close>. With it the log of a run can be followed event by event:
  \<open>logged\<close> gives the events a run's rows read back as, and an append adds the masked
  event at the end.
\<close>

named_theorems mask_twice \<open>masking a second time changes nothing\<close>

definition mask_idem :: "(string \<Rightarrow> string) \<Rightarrow> bool" where
  "mask_idem ms \<longleftrightarrow> (\<forall>t. ms (ms t) = ms t)"

lemma mask_idemD [simp]: "mask_idem ms \<Longrightarrow> ms (ms t) = ms t"
  by (simp add: mask_idem_def)

lemma mask_idem_comp [simp]: "mask_idem ms \<Longrightarrow> ms \<circ> ms = ms"
  by (simp add: fun_eq_iff)

lemma mask_idem_json [simp]: "mask_idem ms \<Longrightarrow> mask_json ms (mask_json ms j) = mask_json ms j"
  by (rule mask_json_idem) simp

lemma mask_idem_map [simp]: "mask_idem ms \<Longrightarrow> mask_map ms (mask_map ms m) = mask_map ms m"
  using mask_idem_json [of ms "JObject m"] by simp

lemma mask_idem_option [simp]: "mask_idem ms \<Longrightarrow> map_option ms (map_option ms x) = map_option ms x"
  by (cases x) simp_all

lemma mask_twice_payloads [mask_twice]:
  assumes "mask_idem ms"
  shows "mask_policy_rule_record ms (mask_policy_rule_record ms a) = mask_policy_rule_record ms a"
    "mask_tool_requested ms (mask_tool_requested ms b) = mask_tool_requested ms b"
    "mask_plan_step ms (mask_plan_step ms c) = mask_plan_step ms c"
  using assms by (simp_all add: mask_policy_rule_record_def mask_tool_requested_def mask_plan_step_def)

lemma mask_twice_map [mask_twice]:
  "(\<And>x. f (f x) = f x) \<Longrightarrow> map f (map f xs) = map f xs"
  "(\<And>x. f (f x) = f x) \<Longrightarrow> map_option f (map_option f y) = map_option f y"
  by (simp, cases y) simp_all

lemma mask_event_twice: "mask_idem ms \<Longrightarrow> mask_event ms (mask_event ms e) = mask_event ms e"
  by (cases e)
     (simp_all add: mask_session_event_def mask_session_compacted_def mask_run_started_def
      mask_run_terminal_def mask_run_rewound_def mask_item_event_def mask_text_delta_def
      mask_tool_approval_required_def mask_tool_approval_resolved_def mask_tool_lifecycle_def
      mask_tool_completed_def mask_tool_failed_def mask_plan_created_def mask_plan_progress_def
      mask_artifact_created_def mask_usage_updated_def mask_budget_event_def mask_subagent_event_def
      mask_subagent_progress_def mask_worker_event_def mask_plugin_status_event_def
      mask_research_stage_def mask_research_started_def mask_research_source_def
      mask_research_subquestion_def mask_research_terminal_def mask_twice mask_twice_payloads
      del: map_map option.map_comp)

lemma mask_envelope_twice: "mask_idem ms \<Longrightarrow> mask_envelope ms (mask_envelope ms e) = mask_envelope ms e"
  by (simp add: mask_envelope_def mask_actor_def mask_event_twice)

section \<open>The log is a fixed point of the masking\<close>

definition row_masked :: "(string \<Rightarrow> string) \<Rightarrow> event_row \<Rightarrow> bool" where
  "row_masked ms row \<longleftrightarrow> (\<exists>e. d_envelope (ev_envelope row) = Some e \<and> mask_envelope ms e = e)"

definition log_masked :: "(string \<Rightarrow> string) \<Rightarrow> db \<Rightarrow> bool" where
  "log_masked ms db \<longleftrightarrow> (\<forall>row \<in> set (db_events db). row_masked ms row)"

lemma log_masked_empty [simp]: "log_masked ms empty_db"
  by (simp add: log_masked_def empty_db_def)

lemma appended_row_reads:
  assumes "wire_fixed ms" "masked_envelope ms e = Inr p"
  shows "d_envelope (ev_envelope (appended_row e p)) = Some (mask_envelope ms (written e))"
  using masked_envelope_Inr [OF assms] masked_envelope_facts(3) [OF assms] by (simp add: appended_row_def)

lemma append_log_masked:
  assumes "wire_fixed ms" "mask_idem ms" "log_masked ms db" "append_event_tx ms t owner e db = Inr db'"
  shows "log_masked ms db'"
  using assms(4)
proof (rule append_event_txE)
  fix persisted
  assume mask: "masked_envelope ms e = Inr persisted"
    and ev: "db_events db' = db_events db @ [appended_row e persisted]"
  have "row_masked ms (appended_row e persisted)"
    using appended_row_reads [OF assms(1) mask] mask_envelope_twice [OF assms(2)] by (simp add: row_masked_def)
  with assms(3) show ?thesis by (simp add: log_masked_def ev)
qed

section \<open>The events of a run\<close>

definition logged :: "string \<Rightarrow> db \<Rightarrow> event_envelope list \<Rightarrow> bool" where
  "logged run db es \<longleftrightarrow> read_rows (run_events run db) = Inr es"

lemma read_rows_append:
  "read_rows (xs @ ys) = ebind (read_rows xs) (\<lambda>as. ebind (read_rows ys) (\<lambda>bs. Inr (as @ bs)))"
proof (induction xs)
  case Nil
  then show ?case by (cases "read_rows ys") simp_all
next
  case (Cons x xs)
  then show ?case by (cases "read_row x"; cases "read_rows xs"; cases "read_rows ys") simp_all
qed

lemma append_logged:
  assumes "wire_fixed ms" "append_event_tx ms t owner e db = Inr db'" "logged (ee_run_id e) db es"
  shows "logged (ee_run_id e) db' (es @ [mask_envelope ms (written e)])"
  using assms(2)
proof (rule append_event_txE)
  fix persisted
  assume mask: "masked_envelope ms e = Inr persisted"
    and ev: "db_events db' = db_events db @ [appended_row e persisted]"
  have "run_events (ee_run_id e) db' = run_events (ee_run_id e) db @ [appended_row e persisted]"
    by (simp add: run_events_snoc [OF ev], simp add: appended_row_def)
  with assms(3) appended_row_reads [OF assms(1) mask] show ?thesis
    by (simp add: logged_def read_rows_append read_row_def)
qed

lemma logged_total:
  assumes "db_ok db" "find_run i db = Some r"
  shows "\<exists>es. logged i db es"
  using read_rows_total [OF run_rows(4) [OF assms]] by (auto simp: logged_def)

lemma logged_masked:
  assumes "log_masked ms db" "logged i db es" "e \<in> set es"
  shows "mask_envelope ms e = e"
proof -
  have "read_rows rows = Inr es \<Longrightarrow> \<forall>row \<in> set rows. row_masked ms row \<Longrightarrow> e \<in> set es \<Longrightarrow> mask_envelope ms e = e"
    for rows es
  proof (induction rows arbitrary: es)
    case (Cons row rows)
    from Cons.prems(1) obtain x xs where x: "d_envelope (ev_envelope row) = Some x" "read_rows rows = Inr xs" "es = x # xs"
      by (auto simp: res_simps read_row_def)
    with Cons show ?case by (auto simp: row_masked_def)
  qed simp
  then show ?thesis using assms by (auto simp: logged_def log_masked_def run_events_def)
qed

end
