(* ===== verification/State_History.thy ===== *)
theory State_History
  imports Masked_Log
begin

text \<open>
  The history of a session, \<open>crates/cool-state/src/lib.rs\<close>: reading it as a whole and
  in windows, listing sessions and runs, forking a session, rewinding it, and binding sessions
  to conversations. A \<open>rowid\<close> is the position of the row, from 1;
  \<open>last_insert_rowid\<close> after an append is the number of events. A \<open>LIMIT\<close> is
  a number of rows (a limit that does not fit in \<open>i64\<close> is negative in SQLite, that is
  no limit, and exceeds every table). Conversation ids are \<open>i64\<close> words.
\<close>

section \<open>Joins of runs and events\<close>

definition numbered_events :: "db \<Rightarrow> (nat \<times> event_row) list" where
  "numbered_events db = enumerate 1 (db_events db)"

text \<open>\<open>ORDER BY r.rowid, e.seq\<close>\<close>

definition joined :: "(run_row \<Rightarrow> bool) \<Rightarrow> db \<Rightarrow> (nat \<times> event_row) list" where
  "joined p db = concat (map (\<lambda>r. sort_key (\<lambda>x. ev_seq (snd x))
       (filter (\<lambda>x. ev_run_id (snd x) = rn_id r) (numbered_events db))) (filter p (db_runs db)))"

text \<open>\<open>ORDER BY e.rowid\<close>\<close>

definition by_rowid :: "(run_row \<Rightarrow> bool) \<Rightarrow> db \<Rightarrow> (nat \<times> event_row) list" where
  "by_rowid p db =
     filter (\<lambda>x. list_ex (\<lambda>r. rn_id r = ev_run_id (snd x) \<and> p r) (db_runs db)) (numbered_events db)"

definition visible :: "string \<Rightarrow> run_row \<Rightarrow> bool" where
  "visible session r \<longleftrightarrow> rn_session_id r = session \<and> rn_status r \<noteq> Rewound"

fun read_numbered :: "(nat \<times> event_row) list \<Rightarrow> (store_error, (nat \<times> event_envelope) list) result" where
  "read_numbered [] = Inr []"
| "read_numbered ((i, row) # rows) =
     ebind (read_row row) (\<lambda>e. ebind (read_numbered rows) (\<lambda>es. Inr ((i, e) # es)))"

section \<open>Reading\<close>

definition session_events :: "string \<Rightarrow> string \<Rightarrow> db \<Rightarrow> (store_error, event_envelope list) result" where
  "session_events session actor db =
     ebind (owned_session session actor db) (\<lambda>_.
     read_rows (map snd (joined (\<lambda>r. rn_session_id r = session) db)))"

definition session_event_window ::
    "string \<Rightarrow> string \<Rightarrow> 64 word option \<Rightarrow> nat \<Rightarrow> db \<Rightarrow>
     (store_error, (64 word \<times> event_envelope) list) result" where
  "session_event_window session actor before_cursor limit db =
     ebind (owned_session session actor db) (\<lambda>_.
     if (case before_cursor of None \<Rightarrow> False | Some c \<Rightarrow> int i64_max < uint c) then Inr []
     else
       ebind (read_numbered (take limit (rev (filter
                (\<lambda>x. case before_cursor of None \<Rightarrow> True | Some c \<Rightarrow> fst x < unat c)
                (by_rowid (visible session) db))))) (\<lambda>window.
       Inr (rev (map (\<lambda>(i, e). (of_nat i, e)) window))))"

record session_list_entry =
  sl_session_id :: string
  sl_title :: "string option"
  sl_project_key :: "string option"
  sl_active_run_id :: "string option"
  sl_last_seq :: "64 word option"
  sl_created_at :: string

definition list_sessions :: "string \<Rightarrow> string option \<Rightarrow> nat \<Rightarrow> db \<Rightarrow> session_list_entry list" where
  "list_sessions actor project limit db =
     take limit (map (\<lambda>s. \<lparr>sl_session_id = sn_id s, sl_title = sn_title s, sl_project_key = sn_project_key s,
         sl_active_run_id = sn_active_run_id s, sl_last_seq = max_seq (sn_active_run_id s) db,
         sl_created_at = sn_created_at s\<rparr>)
       (rev (filter (\<lambda>s. sn_actor_id s = actor \<and> (project = None \<or> sn_project_key s = project)) (db_sessions db))))"

record session_run_entry =
  se_run_id :: string
  se_status :: run_status
  se_last_seq :: "64 word"
  se_finish_reason :: "string option"
  se_updated_at :: string
  se_purpose :: "string option"

definition list_session_runs ::
    "string \<Rightarrow> string \<Rightarrow> nat \<Rightarrow> db \<Rightarrow> (store_error, session_run_entry list) result" where
  "list_session_runs actor session limit db =
     ebind (owned_session session actor db) (\<lambda>_.
     Inr (take limit (map (\<lambda>r. \<lparr>se_run_id = rn_id r, se_status = rn_status r, se_last_seq = as_u64 (rn_last_seq r),
         se_finish_reason = rn_finish_reason r, se_updated_at = rn_updated_at r, se_purpose = rn_purpose r\<rparr>)
       (rev (filter (\<lambda>r. rn_session_id r = session) (db_runs db))))))"

section \<open>Appending a copied history\<close>

text \<open>
  Fork and rewind append a list of events to a new run: the first opens it, the copies follow,
  the last close it. A copied compaction marker names the cursor it covers in the numbering of
  the source; it is renamed to the row the last covered copy got here.
\<close>

definition remap_cursor :: "(nat \<times> nat) list \<Rightarrow> nat \<Rightarrow> 64 word \<Rightarrow> 64 word" where
  "remap_cursor inserted boundary covered =
     (case find (\<lambda>x. fst x \<le> min (unat covered) i64_max) (rev inserted) of
        Some x \<Rightarrow> of_nat (snd x)
      | None \<Rightarrow> of_nat boundary)"

fun remap_event :: "(nat \<times> nat) list \<Rightarrow> nat \<Rightarrow> canonical_event \<Rightarrow> canonical_event" where
  "remap_event inserted boundary (SessionCompacted c) =
     SessionCompacted (c\<lparr>sc_compact_up_to_cursor :=
       map_option (remap_cursor inserted boundary) (sc_compact_up_to_cursor c)\<rparr>)"
| "remap_event inserted boundary e = e"

record copy_state =
  cs_db :: db
  cs_boundary :: nat
  cs_inserted :: "(nat \<times> nat) list"

definition copy_step ::
    "(string \<Rightarrow> string) \<Rightarrow> (nat \<Rightarrow> string) \<Rightarrow> string \<Rightarrow> (nat \<times> event_envelope) list \<Rightarrow>
     nat \<times> event_envelope \<Rightarrow> copy_state \<Rightarrow> (store_error, copy_state) result" where
  "copy_step ms t owner copied x st =
     (let i = fst x;
          e = (snd x)\<lparr>ee_seq := of_nat i + 1\<rparr>;
          e = (if 0 < i then e\<lparr>ee_event := remap_event (cs_inserted st) (cs_boundary st) (ee_event e)\<rparr> else e) in
      ebind (append_event_tx ms (t i) owner e (cs_db st)) (\<lambda>db.
      let new_rowid = length (db_events db) in
      Inr (if i = 0 then st\<lparr>cs_db := db, cs_boundary := new_rowid\<rparr>
           else if i \<le> length copied
           then st\<lparr>cs_db := db, cs_inserted := cs_inserted st @ [(fst (copied ! (i - 1)), new_rowid)]\<rparr>
           else st\<lparr>cs_db := db\<rparr>)))"

definition copy_events ::
    "(string \<Rightarrow> string) \<Rightarrow> (nat \<Rightarrow> string) \<Rightarrow> string \<Rightarrow> (nat \<times> event_envelope) list \<Rightarrow>
     event_envelope list \<Rightarrow> db \<Rightarrow> (store_error, db) result" where
  "copy_events ms t owner copied es db =
     ebind (efold (copy_step ms t owner copied) (enumerate 0 es)
              \<lparr>cs_db = db, cs_boundary = 0, cs_inserted = []\<rparr>) (\<lambda>st. Inr (cs_db st))"

text \<open>One copy, under the new session and run.\<close>

definition copied_event ::
    "string \<Rightarrow> string \<Rightarrow> string \<Rightarrow> string \<Rightarrow> json_map \<Rightarrow> event_envelope \<Rightarrow> event_envelope" where
  "copied_event u session run source_name extensions e =
     \<lparr>ee_event_id = ''event-'' @ u, ee_session_id = session, ee_run_id = run, ee_item_id = ee_item_id e,
      ee_seq = 0, ee_occurred_at = ee_occurred_at e, ee_actor = ee_actor e, ee_source = source_name,
      ee_causation_id = Some (ee_event_id e), ee_correlation_id = ee_correlation_id e,
      ee_event = ee_event e, ee_extensions = extensions\<rparr>"

section \<open>Forking\<close>

definition bounded_by :: "64 word option \<Rightarrow> int \<Rightarrow> bool" where
  "bounded_by limit x \<longleftrightarrow> (case limit of None \<Rightarrow> True | Some l \<Rightarrow> x \<le> min (uint l) (int i64_max))"

definition history_copies ::
    "(event_envelope \<Rightarrow> event_envelope) \<Rightarrow> (nat \<times> event_row) list \<Rightarrow>
     (store_error, (nat \<times> event_envelope) list) result" where
  "history_copies f rows =
     ebind (read_numbered rows) (\<lambda>es.
     Inr (map (\<lambda>(i, e). (i, f e)) (filter (\<lambda>x. is_history_event (ee_event (snd x))) es)))"

definition fork_copies ::
    "string \<Rightarrow> 64 word option \<Rightarrow> 64 word option \<Rightarrow> db \<Rightarrow> (store_error, (nat \<times> event_envelope) list) result" where
  "fork_copies source up_to_cursor up_to_event_seq db =
     history_copies (\<lambda>e. e\<lparr>ee_extensions := bt_remove ''checkpoint_ref'' (ee_extensions e)\<rparr>)
       (filter (\<lambda>x. bounded_by up_to_cursor (int (fst x)) \<and> bounded_by up_to_event_seq (ev_seq (snd x)))
          (joined (visible source) db))"

text \<open>
  The supplies: \<open>u 0\<close> and \<open>u 1\<close> name the session and the run, the others the
  events in order; \<open>t 0\<close> is \<open>now\<close>, \<open>t 1\<close> the time of the last event, the
  others the updates.
\<close>

definition fork_events ::
    "(nat \<Rightarrow> string) \<Rightarrow> (nat \<Rightarrow> string) \<Rightarrow> string \<Rightarrow> string \<Rightarrow> (nat \<times> event_envelope) list \<Rightarrow> event_envelope list" where
  "fork_events u t session run copied =
     [plain_envelope (u 2) session run 0 (t 0) core_actor ''cool-state-fork''
        (RunStarted \<lparr>rs_model = None, rs_mode = Some ''fork''\<rparr>)] @
     map (\<lambda>(i, x). copied_event (u (i + 3)) session run ''cool-state-fork'' (ee_extensions (snd x)) (snd x))
       (enumerate 0 copied) @
     [plain_envelope (u (length copied + 3)) session run 0 (t 1) core_actor ''cool-state-fork''
        (RunCompleted \<lparr>rt_reason = ''fork'', rt_error_code = None\<rparr>)]"

definition fork_session ::
    "(string \<Rightarrow> string) \<Rightarrow> (nat \<Rightarrow> string) \<Rightarrow> (nat \<Rightarrow> string) \<Rightarrow> string \<Rightarrow> string \<Rightarrow> string \<Rightarrow> string \<Rightarrow>
     string option \<Rightarrow> 64 word option \<Rightarrow> 64 word option \<Rightarrow> db \<Rightarrow> (store_error, string outcome \<times> db) result" where
  "fork_session ms u t actor key fingerprint source title up_to_cursor up_to_event_seq db =
     ebind (lookup_idempotency d_string actor ''session.fork'' key fingerprint db) (\<lambda>found.
     case found of
       Some existing \<Rightarrow> Inr (\<lparr>out_value = existing, out_created = False\<rparr>, db)
     | None \<Rightarrow>
         ebind (owned_session source actor db) (\<lambda>s.
         let session = ''session-'' @ u 0; run = ''run-'' @ u 1 in
         ebind (insert_session \<lparr>sn_id = session, sn_actor_id = actor, sn_title = or_else title (sn_title s),
                  sn_project_key = sn_project_key s, sn_active_run_id = None, sn_created_at = t 0\<rparr> db) (\<lambda>db.
         ebind (insert_run (new_run run session actor (t 0) None) db) (\<lambda>db.
         ebind (set_active_run session run db) (\<lambda>db.
         ebind (fork_copies source up_to_cursor up_to_event_seq db) (\<lambda>copied.
         ebind (copy_events ms (\<lambda>i. t (i + 2)) actor copied (fork_events u t session run copied) db) (\<lambda>db.
         ebind (insert_idempotency actor ''session.fork'' key fingerprint (JString session) db) (\<lambda>db.
         Inr (\<lparr>out_value = session, out_created = True\<rparr>, db)))))))))"

section \<open>Rewinding\<close>

record rewind_outcome =
  rw_run_id :: string
  rw_rewound_run_ids :: "string list"
  rw_checkpoint_ref :: "string option"
  rw_discarded_paths :: "string list"
  rw_checkpoint_refs :: "string list"

definition rewind_outcome_json :: "rewind_outcome \<Rightarrow> json" where
  "rewind_outcome_json r = JObject [(''run_id'', JString (rw_run_id r)),
     (''rewound_run_ids'', JArray (map JString (rw_rewound_run_ids r))),
     (''checkpoint_ref'', opt_json JString (rw_checkpoint_ref r)),
     (''discarded_paths'', JArray (map JString (rw_discarded_paths r))),
     (''checkpoint_refs'', JArray (map JString (rw_checkpoint_refs r)))]"

definition d_rewind_outcome :: "json \<Rightarrow> rewind_outcome option" where
  "d_rewind_outcome j = do {
     obj \<leftarrow> d_map j;
     run_id \<leftarrow> req d_string ''run_id'' obj;
     rewound_run_ids \<leftarrow> req (d_list d_string) ''rewound_run_ids'' obj;
     checkpoint_ref \<leftarrow> opt d_string ''checkpoint_ref'' obj;
     discarded_paths \<leftarrow> dflt [] (d_list d_string) ''discarded_paths'' obj;
     checkpoint_refs \<leftarrow> dflt [] (d_list d_string) ''checkpoint_refs'' obj;
     Some \<lparr>rw_run_id = run_id, rw_rewound_run_ids = rewound_run_ids, rw_checkpoint_ref = checkpoint_ref,
       rw_discarded_paths = discarded_paths, rw_checkpoint_refs = checkpoint_refs\<rparr> }"

definition file_tool_path :: "canonical_event \<Rightarrow> string list" where
  "file_tool_path e =
     (case e of
        ToolRequested r \<Rightarrow>
          if tr_name r = ''write_file'' \<or> tr_name r = ''edit_file''
          then (case map_of (tr_arguments r) ''path'' of Some (JString p) \<Rightarrow> [p] | _ \<Rightarrow> [])
          else []
      | _ \<Rightarrow> [])"

definition checkpoint_ext :: "event_envelope \<Rightarrow> string list" where
  "checkpoint_ext e = (case map_of (ee_extensions e) ''checkpoint_ref'' of Some (JString c) \<Rightarrow> [c] | _ \<Rightarrow> [])"

definition discarded_of :: "event_envelope list \<Rightarrow> string list" where
  "discarded_of es = remdups_adj (sort (concat (map (\<lambda>e. file_tool_path (ee_event e)) es)))"

definition rewind_events ::
    "(nat \<Rightarrow> string) \<Rightarrow> (nat \<Rightarrow> string) \<Rightarrow> string \<Rightarrow> string \<Rightarrow> 64 word \<Rightarrow> string option \<Rightarrow>
     (nat \<times> event_envelope) list \<Rightarrow> event_envelope list" where
  "rewind_events u t session run to_cursor reason copied =
     [plain_envelope (u 1) session run 0 (t 0) core_actor ''cool-state-rewind''
        (RunStarted \<lparr>rs_model = None, rs_mode = Some ''rewind''\<rparr>)] @
     map (\<lambda>(i, x). copied_event (u (i + 2)) session run ''cool-state-rewind''
            (bt_insert ''rewound'' (JBool True) (ee_extensions (snd x))) (snd x))
       (enumerate 0 copied) @
     [plain_envelope (u (length copied + 2)) session run 0 (t 1) core_actor ''cool-state-rewind''
        (RunRewound \<lparr>rr_cursor = to_cursor, rr_reason = reason\<rparr>),
      plain_envelope (u (length copied + 3)) session run 0 (t 2) core_actor ''cool-state-rewind''
        (RunCompleted \<lparr>rt_reason = ''rewind'', rt_error_code = None\<rparr>)]"

definition rewind_run_row :: "string \<Rightarrow> run_row \<Rightarrow> db \<Rightarrow> db" where
  "rewind_run_row t r db = update_run (rn_id r) (\<lambda>r. r\<lparr>rn_status := Rewound, rn_updated_at := t\<rparr>) db"

definition rewind_session ::
    "(string \<Rightarrow> string) \<Rightarrow> (nat \<Rightarrow> string) \<Rightarrow> (nat \<Rightarrow> string) \<Rightarrow> string \<Rightarrow> string \<Rightarrow> string \<Rightarrow> string \<Rightarrow>
     64 word \<Rightarrow> string option \<Rightarrow> db \<Rightarrow> (store_error, rewind_outcome outcome \<times> db) result" where
  "rewind_session ms u t actor key fingerprint session to_cursor reason db =
     ebind (lookup_idempotency d_rewind_outcome actor ''session.rewind'' key fingerprint db) (\<lambda>found.
     case found of
       Some existing \<Rightarrow> Inr (\<lparr>out_value = existing, out_created = False\<rparr>, db)
     | None \<Rightarrow>
         ebind (owned_session session actor db) (\<lambda>_.
         let runs = filter (visible session) (db_runs db);
             cursor = min (unat to_cursor) i64_max;
             beyond = filter (\<lambda>x. cursor < fst x) (by_rowid (visible session) db) in
         ebind (ensure (list_all (\<lambda>r. is_terminal (rn_status r)) runs) (RewindRejected ''session_has_live_run'')) (\<lambda>_.
         ebind (ensure (beyond \<noteq> []) (RewindRejected ''nothing_to_rewind'')) (\<lambda>_.
         let run = ''run-'' @ u 0 in
         ebind (history_copies id (filter (\<lambda>x. fst x \<le> cursor) (joined (visible session) db))) (\<lambda>copied.
         ebind (read_rows (map snd beyond)) (\<lambda>discarded.
         let refs = concat (map checkpoint_ext discarded);
             db = foldl (\<lambda>db r. rewind_run_row (t 0) r db) db runs in
         ebind (insert_run (new_run run session actor (t 0) None) db) (\<lambda>db.
         ebind (set_active_run session run db) (\<lambda>db.
         ebind (copy_events ms (\<lambda>i. t (i + 3)) actor copied (rewind_events u t session run to_cursor reason copied) db) (\<lambda>db.
         let res = \<lparr>rw_run_id = run, rw_rewound_run_ids = map rn_id runs,
               rw_checkpoint_ref = (case refs of [] \<Rightarrow> None | c # _ \<Rightarrow> Some c),
               rw_discarded_paths = discarded_of discarded, rw_checkpoint_refs = refs\<rparr> in
         ebind (insert_idempotency actor ''session.rewind'' key fingerprint (rewind_outcome_json res) db) (\<lambda>db.
         Inr (\<lparr>out_value = res, out_created = True\<rparr>, db)))))))))))"


section \<open>What a renamed cursor covers\<close>

text \<open>Copies in the order of the source, with ascending new rows above the boundary.\<close>

definition ascending :: "(nat \<times> nat) list \<Rightarrow> bool" where
  "ascending xs \<longleftrightarrow> sorted_wrt (\<lambda>x y. fst x < fst y \<and> snd x < snd y) xs"

lemma find_rev_snoc: "find p (rev (xs @ [x])) = (if p x then Some x else find p (rev xs))"
  by simp

lemma remap_rev_find:
  "ascending xs \<Longrightarrow> find (\<lambda>x. fst x \<le> c) (rev xs) = Some y \<Longrightarrow> x \<in> set xs \<Longrightarrow> fst x \<le> c \<longleftrightarrow> snd x \<le> snd y"
proof (induction xs arbitrary: x y rule: rev_induct)
  case (snoc z zs)
  then have asc: "ascending zs" and less: "\<And>x. x \<in> set zs \<Longrightarrow> fst x < fst z \<and> snd x < snd z"
    by (auto simp: ascending_def sorted_wrt_append)
  show ?case
  proof (cases "fst z \<le> c")
    case True
    with snoc.prems(2) have "y = z" by (simp add: find_rev_snoc)
    with True less snoc.prems(3) show ?thesis by fastforce
  next
    case False
    with snoc.prems(2) have y: "find (\<lambda>x. fst x \<le> c) (rev zs) = Some y" by (simp add: find_rev_snoc)
    then have "y \<in> set zs" using find_Some_in [of _ "rev zs" y] by auto
    with less have "snd y < snd z" by blast
    with False snoc.IH [OF asc y, of x] snoc.prems(3) show ?thesis by (cases "x = z") auto
  qed
qed simp

lemma unat_of_nat_u64: "n \<le> u64_max \<Longrightarrow> unat (of_nat n :: 64 word) = n"
  by (simp add: unsigned_of_nat take_bit_nat_eq_self_iff)

text \<open>
  When the history was copied in ascending order of its cursors, renaming the
  cursor of a compaction marker keeps what it covers: a copy is covered in the new session
  exactly when its original was covered in the source.
\<close>

theorem remap_keeps_coverage:
  assumes "ascending inserted" "\<forall>x \<in> set inserted. fst x \<le> i64_max \<and> boundary < snd x \<and> snd x \<le> u64_max"
    and "x \<in> set inserted" "boundary \<le> u64_max"
  shows "fst x \<le> unat covered \<longleftrightarrow> snd x \<le> unat (remap_cursor inserted boundary covered)"
proof -
  let ?c = "min (unat covered) i64_max"
  have c: "fst x \<le> unat covered \<longleftrightarrow> fst x \<le> ?c" using assms(2,3) by auto
  show ?thesis
  proof (cases "find (\<lambda>x. fst x \<le> ?c) (rev inserted)")
    case None
    then have "\<not> fst x \<le> ?c" using assms(3) by (auto simp: find_None_all)
    moreover have "boundary < snd x" using assms(2,3) by blast
    moreover have "unat (remap_cursor inserted boundary covered) = boundary"
      unfolding remap_cursor_def None option.case by (rule unat_of_nat_u64 [OF assms(4)])
    ultimately show ?thesis using c by linarith
  next
    case (Some y)
    then have "y \<in> set inserted" using find_Some_in [of _ "rev inserted" y] by auto
    with assms(2) have "snd y \<le> u64_max" by blast
    then have "unat (remap_cursor inserted boundary covered) = snd y"
      unfolding remap_cursor_def Some option.case by (rule unat_of_nat_u64)
    then show ?thesis using remap_rev_find [OF assms(1) Some assms(3)] c by metis
  qed
qed

theorem remap_keeps_coverage_witness:
  "(5 :: nat) \<le> unat (6 :: 64 word) \<longleftrightarrow> 12 \<le> unat (remap_cursor [(1, 11), (5, 12), (8, 13)] 10 (6 :: 64 word))"
  using remap_keeps_coverage [of "[(1, 11), (5, 12), (8, 13)]" 10 "(5, 12)" 6]
  by (simp add: ascending_def)

text \<open>
  The order of the copies is that of the runs, not of the cursors. When the
  events of two runs of a session interleave, a copy that comes later but whose original lies
  below the covered cursor drags the renamed cursor past an earlier copy whose original lies
  above it: that message, which the summary does not speak of, is hidden in the fork.
\<close>

theorem remap_hides_interleaved:
  assumes "inserted = xs @ x # ys @ y # zs" "fst y \<le> min (unat covered) i64_max" "unat covered < fst x"
    and "sorted_wrt (\<lambda>a b. snd a < snd b) inserted" "\<forall>a \<in> set inserted. snd a \<le> u64_max"
  shows "snd x < unat (remap_cursor inserted boundary covered)"
proof -
  let ?p = "\<lambda>a. fst a \<le> min (unat covered) i64_max"
  have "find ?p (rev inserted) = (case find ?p (rev zs) of None \<Rightarrow> Some y | Some a \<Rightarrow> Some a)"
    using assms(2) by (simp add: assms(1) find_append_eq split: option.splits)
  moreover have "a \<in> set zs" if "find ?p (rev zs) = Some a" for a using find_Some_in [OF that] by simp
  ultimately obtain a where a: "find ?p (rev inserted) = Some a" "a \<in> set (y # zs)"
    by (cases "find ?p (rev zs)") auto
  with assms(4) have "snd x < snd a" by (auto simp: assms(1) sorted_wrt_append)
  have "a \<in> set inserted" using a(2) by (auto simp: assms(1))
  then have "snd a \<le> u64_max" using assms(5) by blast
  then have "unat (remap_cursor inserted boundary covered) = snd a"
    unfolding remap_cursor_def a(1) option.case by (rule unat_of_nat_u64)
  with \<open>snd x < snd a\<close> show ?thesis by simp
qed

definition mixed_db :: db where
  "mixed_db = empty_db\<lparr>db_runs := [new_run ''a'' ''s'' ''amy'' ''t'' None, new_run ''b'' ''s'' ''amy'' ''t'' (Some ''subagent'')],
     db_events := map (\<lambda>(i, r, n). \<lparr>ev_event_id = i, ev_run_id = r, ev_seq = n, ev_envelope = JNull\<rparr>)
       [(''1'', ''a'', 1), (''2'', ''b'', 1), (''3'', ''a'', 2)]\<rparr>"

lemma mixed_order: "map fst (joined (visible ''s'') mixed_db) = [1, 3, 2]"
  by (simp add: joined_def mixed_db_def empty_db_def visible_def numbered_events_def new_run_def)

theorem remap_hides_interleaved_witness:
  "zip (map fst (joined (visible ''s'') mixed_db)) [11, 12, 13] = [(1, 11), (3, 12), (2, 13)] \<and>
   \<not> (3 :: nat) \<le> unat (2 :: 64 word) \<and> 12 < unat (remap_cursor [(1, 11), (3, 12), (2, 13)] 10 2)"
  using remap_hides_interleaved [of "[(1, 11), (3, 12), (2, 13)]" "[(1, 11)]" "(3, 12)" "[]" "(2, 13)" "[]" 2 10]
  by (simp add: mixed_order)

end
