(* ===== verification/State_Links.thy ===== *)
theory State_Links
  imports State_History
begin

text \<open>
  Sessions bound to legacy conversations, \<open>crates/cool-state/src/lib.rs\<close>. The key
  \<open>conversation_id\<close> is the \<open>rowid\<close> of the link table, so a scan of it is in
  ascending order of conversations.
\<close>

record conversation_link =
  cl_conversation_id :: "64 word"
  cl_session_id :: string
  cl_created :: bool
  cl_imported_events :: "64 word"
  cl_truncated :: bool

definition conversation_link_json :: "conversation_link \<Rightarrow> json" where
  "conversation_link_json l = JObject [(''conversation_id'', i64_json (cl_conversation_id l)),
     (''session_id'', JString (cl_session_id l)), (''created'', JBool (cl_created l)),
     (''imported_events'', u64_json (cl_imported_events l)), (''truncated'', JBool (cl_truncated l))]"

definition d_conversation_link :: "json \<Rightarrow> conversation_link option" where
  "d_conversation_link j = do {
     obj \<leftarrow> d_map j;
     conversation_id \<leftarrow> req d_i64 ''conversation_id'' obj;
     session_id \<leftarrow> req d_string ''session_id'' obj;
     created \<leftarrow> req d_bool ''created'' obj;
     imported_events \<leftarrow> req d_u64 ''imported_events'' obj;
     truncated \<leftarrow> req d_bool ''truncated'' obj;
     Some \<lparr>cl_conversation_id = conversation_id, cl_session_id = session_id, cl_created = created,
       cl_imported_events = imported_events, cl_truncated = truncated\<rparr> }"

record imported_event =
  im_occurred_at :: string
  im_event :: canonical_event

definition link_of :: "64 word \<Rightarrow> db \<Rightarrow> link_row option" where
  "link_of conversation db = find (\<lambda>l. ln_conversation_id l = as_i64 conversation) (db_links db)"

definition link_scan :: "db \<Rightarrow> link_row list" where
  "link_scan db = sort_key ln_conversation_id (db_links db)"

definition bind_session_to_conversation ::
    "(nat \<Rightarrow> string) \<Rightarrow> string \<Rightarrow> string \<Rightarrow> string \<Rightarrow> 64 word \<Rightarrow> string \<Rightarrow> db \<Rightarrow>
     (store_error, conversation_link \<times> db) result" where
  "bind_session_to_conversation t actor key fingerprint conversation session db =
     ebind (lookup_idempotency d_conversation_link actor ''session.for_conversation'' key fingerprint db) (\<lambda>found.
     case found of
       Some existing \<Rightarrow> Inr (existing, db)
     | None \<Rightarrow>
         let record_link = (\<lambda>link db. ebind (insert_idempotency actor ''session.for_conversation'' key fingerprint
               (conversation_link_json link) db) (\<lambda>db. Inr (link, db))) in
         case link_of conversation db of
           Some l \<Rightarrow>
             ebind (ensure (ln_actor_id l = actor) ActorMismatch) (\<lambda>_.
             if ln_session_id l = session
             then record_link \<lparr>cl_conversation_id = conversation, cl_session_id = ln_session_id l,
                    cl_created = False, cl_imported_events = 0, cl_truncated = False\<rparr> db
             else Inl IdempotencyConflict)
         | None \<Rightarrow>
             ebind (owned_session session actor db) (\<lambda>_.
             ebind (ensure (\<not> list_ex (\<lambda>l. ln_session_id l = session) (db_links db)) IdempotencyConflict) (\<lambda>_.
             ebind (insert_link \<lparr>ln_conversation_id = as_i64 conversation, ln_actor_id = actor,
                      ln_session_id = session, ln_created_at = t 0\<rparr> db) (\<lambda>db.
             record_link \<lparr>cl_conversation_id = conversation, cl_session_id = session, cl_created = True,
               cl_imported_events = 0, cl_truncated = False\<rparr> db))))"

text \<open>
  The supplies of \<open>link_conversation\<close>: \<open>u 0\<close> and \<open>u 1\<close> name the
  session and the import run, the others the events in order; \<open>t 0\<close> is
  \<open>now\<close>, the others the updates.
\<close>

definition import_events ::
    "(nat \<Rightarrow> string) \<Rightarrow> (nat \<Rightarrow> string) \<Rightarrow> string \<Rightarrow> string \<Rightarrow> imported_event list \<Rightarrow> event_envelope list" where
  "import_events u t session run history =
     map (\<lambda>(i, at, e). plain_envelope (u (i + 2)) session run (of_nat i + 1) at core_actor ''cool-state-import'' e)
       (enumerate 0 ([(t 0, RunStarted \<lparr>rs_model = None, rs_mode = Some ''import''\<rparr>)] @
          map (\<lambda>x. (im_occurred_at x, im_event x)) history @
          [(t 0, RunCompleted \<lparr>rt_reason = ''import'', rt_error_code = None\<rparr>)]))"

definition link_conversation ::
    "(string \<Rightarrow> string) \<Rightarrow> (nat \<Rightarrow> string) \<Rightarrow> (nat \<Rightarrow> string) \<Rightarrow> string \<Rightarrow> string \<Rightarrow> string \<Rightarrow> 64 word \<Rightarrow>
     string option \<Rightarrow> string option \<Rightarrow> imported_event list \<Rightarrow> bool \<Rightarrow> db \<Rightarrow>
     (store_error, conversation_link \<times> db) result" where
  "link_conversation ms u t actor key fingerprint conversation title project history truncated db =
     ebind (lookup_idempotency d_conversation_link actor ''session.for_conversation'' key fingerprint db) (\<lambda>found.
     case found of
       Some existing \<Rightarrow> Inr (existing, db)
     | None \<Rightarrow>
         let record_link = (\<lambda>link db. ebind (insert_idempotency actor ''session.for_conversation'' key fingerprint
               (conversation_link_json link) db) (\<lambda>db. Inr (link, db))) in
         case link_of conversation db of
           Some l \<Rightarrow>
             ebind (ensure (ln_actor_id l = actor) ActorMismatch) (\<lambda>_.
             record_link \<lparr>cl_conversation_id = conversation, cl_session_id = ln_session_id l, cl_created = False,
               cl_imported_events = 0, cl_truncated = truncated\<rparr> db)
         | None \<Rightarrow>
             let session = ''session-'' @ u 0; run = ''run-'' @ u 1 in
             ebind (insert_session \<lparr>sn_id = session, sn_actor_id = actor, sn_title = title,
                      sn_project_key = project, sn_active_run_id = None, sn_created_at = t 0\<rparr> db) (\<lambda>db.
             ebind (insert_run (new_run run session actor (t 0) None) db) (\<lambda>db.
             ebind (set_active_run session run db) (\<lambda>db.
             ebind (append_all ms actor (map (\<lambda>(i, e). (t (i + 1), e))
                      (enumerate 0 (import_events u t session run history))) db) (\<lambda>db.
             ebind (insert_link \<lparr>ln_conversation_id = as_i64 conversation, ln_actor_id = actor,
                      ln_session_id = session, ln_created_at = t 0\<rparr> db) (\<lambda>db.
             record_link \<lparr>cl_conversation_id = conversation, cl_session_id = session, cl_created = True,
               cl_imported_events = of_nat (length history), cl_truncated = truncated\<rparr> db))))))"

definition session_for_conversation ::
    "string \<Rightarrow> 64 word \<Rightarrow> db \<Rightarrow> (store_error, string option) result" where
  "session_for_conversation actor conversation db =
     (case link_of conversation db of
        Some l \<Rightarrow> if ln_actor_id l = actor then Inr (Some (ln_session_id l)) else Inl ActorMismatch
      | None \<Rightarrow> Inr None)"

definition conversation_id_for_session ::
    "string \<Rightarrow> string \<Rightarrow> db \<Rightarrow> (store_error, int option) result" where
  "conversation_id_for_session actor session db =
     (case find (\<lambda>l. ln_session_id l = session) (link_scan db) of
        Some l \<Rightarrow> if ln_actor_id l = actor then Inr (Some (ln_conversation_id l)) else Inl ActorMismatch
      | None \<Rightarrow> Inr None)"

definition linked_sessions :: "string \<Rightarrow> db \<Rightarrow> (string \<times> int) list" where
  "linked_sessions actor db =
     map (\<lambda>l. (ln_session_id l, ln_conversation_id l)) (filter (\<lambda>l. ln_actor_id l = actor) (link_scan db))"

section \<open>Links stay one to one\<close>

definition links_ok :: "db \<Rightarrow> bool" where
  "links_ok db \<longleftrightarrow> distinct (map ln_conversation_id (db_links db)) \<and> distinct (map ln_session_id (db_links db)) \<and>
     (\<forall>l \<in> set (db_links db). \<exists>s \<in> set (db_sessions db). sn_id s = ln_session_id l \<and> sn_actor_id s = ln_actor_id l)"

lemma links_ok_empty [simp]: "links_ok empty_db"
  by (simp add: links_ok_def empty_db_def)

lemma sessions_kept:
  assumes "db_grows db db'" "s \<in> set (db_sessions db)"
  shows "\<exists>s' \<in> set (db_sessions db'). sn_id s' = sn_id s \<and> sn_actor_id s' = sn_actor_id s"
proof -
  from table_grows_member [of session_kept "db_sessions db" "db_sessions db'" s] assms obtain s' where
    "s' \<in> set (db_sessions db')" and k: "session_kept s s'" by (auto simp: db_grows_def)
  moreover from k have "sn_id s' = sn_id s" "sn_actor_id s' = sn_actor_id s"
    unfolding session_kept_def by (metis session_row.select_convs(1,2) session_row.surjective session_row.update_convs(5))+
  ultimately show ?thesis by blast
qed

lemma links_ok_grows:
  assumes "links_ok db" "db_grows db db'" "db_links db' = db_links db"
  shows "links_ok db'"
proof -
  have "\<exists>s \<in> set (db_sessions db'). sn_id s = ln_session_id l \<and> sn_actor_id s = ln_actor_id l"
    if "l \<in> set (db_links db)" for l
  proof -
    from assms(1) that obtain s where s: "s \<in> set (db_sessions db)" "sn_id s = ln_session_id l" "sn_actor_id s = ln_actor_id l"
      unfolding links_ok_def by blast
    from sessions_kept [OF assms(2) s(1)] s(2,3) show ?thesis by auto
  qed
  with assms(1,3) show ?thesis by (simp add: links_ok_def)
qed

lemma insert_link_ok:
  assumes "links_ok db" "insert_link l db = Inr db'" "ln_session_id l \<notin> ln_session_id ` set (db_links db)"
    and "s \<in> set (db_sessions db)" "sn_id s = ln_session_id l" "sn_actor_id s = ln_actor_id l"
  shows "links_ok db'"
proof -
  from assms(2) have db': "db' = db\<lparr>db_links := db_links db @ [l]\<rparr>"
    and new: "ln_conversation_id l \<notin> ln_conversation_id ` set (db_links db)"
    by (auto simp: insert_link_def split: if_splits)
  have "\<exists>s \<in> set (db_sessions db). sn_id s = ln_session_id l \<and> sn_actor_id s = ln_actor_id l"
    using assms(4-6) by blast
  with assms(1,3) new show ?thesis unfolding links_ok_def db' by simp
qed

end
