(* ===== verification/State_Approvals.thy ===== *)
theory State_Approvals
  imports Run_Properties
begin

text \<open>
  Approvals of the durable store, \<open>crates/cool-state/src/lib.rs\<close>: creating a ticket
  for a tool call, reading it, resolving it under an idempotency key, and its expiry. The
  supplies \<open>u\<close> and \<open>t\<close> are in the order the code draws them. The invariant
  \<open>approvals_ok\<close> ties the state of a ticket to its revision and to the audit log.
\<close>

section \<open>Types\<close>

datatype approval_decision = ApproveCall | DenyCall

definition decision_outcome :: "approval_decision \<Rightarrow> approval_outcome" where
  "decision_outcome d = (case d of ApproveCall \<Rightarrow> Approved | DenyCall \<Rightarrow> Denied)"

record approval_ticket =
  at_approval_id :: string
  at_revision :: "64 word"
  at_created :: bool

record approval_call_context =
  ac_session_id :: string
  ac_run_id :: string
  ac_call_id :: string
  ac_state :: string

record stored_approval_resolution =
  sr_approval_id :: string
  sr_run_id :: string
  sr_session_id :: string
  sr_call_id :: string
  sr_revision :: "64 word"
  sr_outcome :: approval_outcome
  sr_answer :: "json option"
  sr_event :: event_envelope

definition stored_resolution_json :: "stored_approval_resolution \<Rightarrow> json" where
  "stored_resolution_json r = JObject [
     (''approval_id'', JString (sr_approval_id r)), (''run_id'', JString (sr_run_id r)),
     (''session_id'', JString (sr_session_id r)), (''call_id'', JString (sr_call_id r)),
     (''revision'', u64_json (sr_revision r)), (''outcome'', approval_outcome_json (sr_outcome r)),
     (''answer'', opt_json id (sr_answer r)), (''event'', envelope_json (sr_event r))]"

text \<open>No \<open>deny_unknown_fields\<close> here; a null answer reads as none.\<close>

definition d_stored_resolution :: "json \<Rightarrow> stored_approval_resolution option" where
  "d_stored_resolution j = do {
     obj \<leftarrow> d_map j;
     approval_id \<leftarrow> req d_string ''approval_id'' obj;
     run_id \<leftarrow> req d_string ''run_id'' obj;
     session_id \<leftarrow> req d_string ''session_id'' obj;
     call_id \<leftarrow> req d_string ''call_id'' obj;
     revision \<leftarrow> req d_u64 ''revision'' obj;
     outcome \<leftarrow> req d_approval_outcome ''outcome'' obj;
     answer \<leftarrow> opt Some ''answer'' obj;
     event \<leftarrow> req d_envelope ''event'' obj;
     Some \<lparr>sr_approval_id = approval_id, sr_run_id = run_id, sr_session_id = session_id,
       sr_call_id = call_id, sr_revision = revision, sr_outcome = outcome, sr_answer = answer,
       sr_event = event\<rparr> }"

record approval_resolution =
  rs_approval_id :: string
  rs_run_id :: string
  rs_session_id :: string
  rs_call_id :: string
  rs_revision :: "64 word"
  rs_outcome :: approval_outcome
  rs_answer :: "json option"
  rs_created :: bool
  rs_event :: event_envelope

definition into_public :: "bool \<Rightarrow> stored_approval_resolution \<Rightarrow> approval_resolution" where
  "into_public created r = \<lparr>rs_approval_id = sr_approval_id r, rs_run_id = sr_run_id r,
     rs_session_id = sr_session_id r, rs_call_id = sr_call_id r, rs_revision = sr_revision r,
     rs_outcome = sr_outcome r, rs_answer = sr_answer r, rs_created = created, rs_event = sr_event r\<rparr>"

definition state_name :: "approval_state \<Rightarrow> string" where
  "state_name s = (case s of Pending \<Rightarrow> ''pending''
     | Resolved Approved \<Rightarrow> ''approved'' | Resolved Denied \<Rightarrow> ''denied'' | Resolved TimedOut \<Rightarrow> ''timed_out'')"

section \<open>Operations\<close>

definition approval_required_event ::
    "string \<Rightarrow> string \<Rightarrow> string \<Rightarrow> string \<Rightarrow> string \<Rightarrow> 64 word \<Rightarrow> string \<Rightarrow> string \<Rightarrow> json_map \<Rightarrow> string \<Rightarrow>
     string option \<Rightarrow> policy_rule_record option \<Rightarrow> string option \<Rightarrow> event_envelope" where
  "approval_required_event u t approval_id session run_id seq call_id tool arguments reason rule suggested kind =
     (plain_envelope u session run_id seq t core_actor ''cool-security''
        (ToolApprovalRequired \<lparr>ta_call_id = call_id, ta_name = tool, ta_arguments = arguments,
           ta_reason = reason, ta_approval_id = approval_id, ta_revision = 1, ta_breakpoint_type = kind,
           ta_result_preview = None, ta_current_content = None, ta_matched_rule = rule,
           ta_suggested_rule = suggested\<rparr>))
       \<lparr>ee_causation_id := Some call_id\<rparr>"

definition create_approval_with_arguments ::
    "(string \<Rightarrow> string) \<Rightarrow> (nat \<Rightarrow> string) \<Rightarrow> (nat \<Rightarrow> string) \<Rightarrow> string \<Rightarrow> string \<Rightarrow> string \<Rightarrow> string \<Rightarrow> string \<Rightarrow>
     json_map \<Rightarrow> string \<Rightarrow> string option \<Rightarrow> policy_rule_record option \<Rightarrow> string option \<Rightarrow> db \<Rightarrow>
     (store_error, approval_ticket \<times> db) result" where
  "create_approval_with_arguments ms u t actor session run_id call_id tool arguments reason rule suggested kind db =
     ebind (require_run run_id actor db) (\<lambda>run.
     ebind (ensure (sp_session_id run = session) ActorMismatch) (\<lambda>_.
     case find (\<lambda>a. ap_run_id a = run_id \<and> ap_call_id a = call_id) (db_approvals db) of
       Some a \<Rightarrow> Inr (\<lparr>at_approval_id = ap_id a, at_revision = as_u64 (ap_revision a), at_created = False\<rparr>, db)
     | None \<Rightarrow>
         ebind (ensure (transition_allowed (sp_status run) AwaitingApproval)
                  (InvalidTransition (sp_status run) AwaitingApproval)) (\<lambda>_.
         let approval_id = ''approval-'' @ u 0 in
         ebind (insert_approval \<lparr>ap_id = approval_id, ap_session_id = session, ap_run_id = run_id,
                  ap_call_id = call_id, ap_tool_name = tool, ap_reason = reason, ap_actor_id = actor,
                  ap_revision = 1, ap_state = Pending, ap_decided_by = None, ap_decision_source = None,
                  ap_created_at = t 0, ap_decided_at = None, ap_answer = None\<rparr> db) (\<lambda>db.
         let event = approval_required_event (u 1) (t 1) approval_id session run_id (sp_last_seq run + 1)
                       call_id tool arguments reason rule suggested kind in
         ebind (append_event_tx ms (t 2) actor event db) (\<lambda>db.
         Inr (\<lparr>at_approval_id = approval_id, at_revision = 1, at_created = True\<rparr>, db))))))"

definition create_approval ::
    "(string \<Rightarrow> string) \<Rightarrow> (nat \<Rightarrow> string) \<Rightarrow> (nat \<Rightarrow> string) \<Rightarrow> string \<Rightarrow> string \<Rightarrow> string \<Rightarrow> string \<Rightarrow> string \<Rightarrow>
     string \<Rightarrow> db \<Rightarrow> (store_error, approval_ticket \<times> db) result" where
  "create_approval ms u t actor session run_id call_id tool reason db =
     create_approval_with_arguments ms u t actor session run_id call_id tool [] reason None None None db"

definition owned_approval :: "string \<Rightarrow> string \<Rightarrow> db \<Rightarrow> (store_error, approval_row) result" where
  "owned_approval actor approval_id db =
     ebind (ok_or (NotFound ''approval'') (find_approval approval_id db)) (\<lambda>a.
     ebind (ensure (ap_actor_id a = actor) ActorMismatch) (\<lambda>_. Inr a))"

definition approval_outcome_of ::
    "string \<Rightarrow> string \<Rightarrow> db \<Rightarrow> (store_error, (approval_outcome \<times> json option) option) result" where
  "approval_outcome_of actor approval_id db =
     ebind (owned_approval actor approval_id db) (\<lambda>a.
     case ap_state a of Pending \<Rightarrow> Inr None | Resolved outcome \<Rightarrow> Inr (Some (outcome, ap_answer a)))"

definition approval_call_context_of ::
    "string \<Rightarrow> string \<Rightarrow> db \<Rightarrow> (store_error, approval_call_context) result" where
  "approval_call_context_of actor approval_id db =
     ebind (owned_approval actor approval_id db) (\<lambda>a.
     Inr \<lparr>ac_session_id = ap_session_id a, ac_run_id = ap_run_id a, ac_call_id = ap_call_id a,
       ac_state = state_name (ap_state a)\<rparr>)"

text \<open>The statement \<open>UPDATE rust_approvals\<close>, with the number of rows it changed.\<close>

definition decided :: "string \<Rightarrow> string \<Rightarrow> int \<Rightarrow> approval_row \<Rightarrow> bool" where
  "decided approval_id actor revision a \<longleftrightarrow> ap_id a = approval_id \<and> ap_actor_id a = actor \<and>
     ap_revision a = revision \<and> ap_state a = Pending"

definition update_approvals ::
    "(approval_row \<Rightarrow> bool) \<Rightarrow> (approval_row \<Rightarrow> approval_row) \<Rightarrow> db \<Rightarrow> nat \<times> db" where
  "update_approvals p f db =
     (length (filter p (db_approvals db)),
      db\<lparr>db_approvals := map (\<lambda>a. if p a then f a else a) (db_approvals db)\<rparr>)"

definition approval_resolved_event ::
    "string \<Rightarrow> string \<Rightarrow> approval_row \<Rightarrow> 64 word \<Rightarrow> actor_ref \<Rightarrow> 64 word \<Rightarrow> approval_outcome \<Rightarrow> event_envelope" where
  "approval_resolved_event u t a seq by_actor revision outcome =
     (plain_envelope u (ap_session_id a) (ap_run_id a) seq t by_actor ''cool-security''
        (ToolApprovalResolved \<lparr>tv_call_id = ap_call_id a, tv_approval_id = ap_id a,
           tv_revision = revision, tv_decision = outcome\<rparr>))
       \<lparr>ee_causation_id := Some (ap_id a)\<rparr>"

definition resolve_approval ::
    "(string \<Rightarrow> string) \<Rightarrow> (nat \<Rightarrow> string) \<Rightarrow> (nat \<Rightarrow> string) \<Rightarrow> string \<Rightarrow> string \<Rightarrow> string \<Rightarrow> string \<Rightarrow>
     64 word \<Rightarrow> approval_decision \<Rightarrow> json option \<Rightarrow> db \<Rightarrow> (store_error, approval_resolution \<times> db) result" where
  "resolve_approval ms u t actor key fingerprint approval_id expected_revision decision answer db =
     ebind (lookup_idempotency d_stored_resolution actor ''approval.resolve'' key fingerprint db) (\<lambda>found.
     case found of
       Some existing \<Rightarrow> Inr (into_public False existing, db)
     | None \<Rightarrow>
         ebind (owned_approval actor approval_id db) (\<lambda>a.
         ebind (ensure (as_u64 (ap_revision a) = expected_revision) RevisionConflict) (\<lambda>_.
         ebind (ensure (ap_state a = Pending) AlreadyResolved) (\<lambda>_.
         let outcome = decision_outcome decision;
             masked_answer = map_option (mask_json ms) answer;
             (changed, db) = update_approvals (decided approval_id actor (as_i64 expected_revision))
               (\<lambda>a. a\<lparr>ap_state := Resolved outcome, ap_revision := ap_revision a + 1, ap_decided_by := Some actor,
                  ap_decision_source := Some ''user'', ap_decided_at := Some (t 0), ap_answer := masked_answer\<rparr>) db in
         ebind (ensure (changed = 1) RevisionConflict) (\<lambda>_.
         ebind (insert_audit \<lparr>au_id = ''audit-'' @ u 0, au_actor_id = actor, au_source = ''user'',
                  au_action = ''approval.resolve'', au_subject_id = approval_id,
                  au_payload = approval_outcome_json outcome, au_occurred_at = t 1\<rparr> db) (\<lambda>db.
         ebind (require_run (ap_run_id a) actor db) (\<lambda>run.
         let event = approval_resolved_event (u 1) (t 2) a (sp_last_seq run + 1)
                       \<lparr>ar_id = actor, ar_kind = LocalUser\<rparr> (expected_revision + 1) outcome in
         ebind (append_event_tx ms (t 3) actor event db) (\<lambda>db.
         let stored = \<lparr>sr_approval_id = approval_id, sr_run_id = ap_run_id a, sr_session_id = ap_session_id a,
               sr_call_id = ap_call_id a, sr_revision = expected_revision + 1, sr_outcome = outcome,
               sr_answer = answer, sr_event = event\<rparr> in
         ebind (insert_idempotency actor ''approval.resolve'' key fingerprint
                  (stored_resolution_json (stored\<lparr>sr_answer := masked_answer\<rparr>)) db) (\<lambda>db.
         Inr (into_public True stored, db))))))))))"

definition expire_approval ::
    "(string \<Rightarrow> string) \<Rightarrow> (nat \<Rightarrow> string) \<Rightarrow> (nat \<Rightarrow> string) \<Rightarrow> string \<Rightarrow> string \<Rightarrow> db \<Rightarrow>
     (store_error, bool \<times> db) result" where
  "expire_approval ms u t actor approval_id db =
     ebind (owned_approval actor approval_id db) (\<lambda>a.
     if ap_state a \<noteq> Pending then Inr (False, db)
     else
       let (changed, db) = update_approvals (decided approval_id actor (ap_revision a))
             (\<lambda>a. a\<lparr>ap_state := Resolved TimedOut, ap_revision := ap_revision a + 1,
                ap_decision_source := Some ''system'', ap_decided_at := Some (t 0)\<rparr>) db in
       if changed \<noteq> 1 then Inr (False, db)
       else
         ebind (insert_audit \<lparr>au_id = ''audit-'' @ u 0, au_actor_id = actor, au_source = ''system'',
                  au_action = ''approval.expire'', au_subject_id = approval_id,
                  au_payload = approval_outcome_json TimedOut, au_occurred_at = t 1\<rparr> db) (\<lambda>db.
         ebind (require_run (ap_run_id a) actor db) (\<lambda>run.
         let event = approval_resolved_event (u 1) (t 2) a (sp_last_seq run + 1)
                       \<lparr>ar_id = actor, ar_kind = System\<rparr> (as_u64 (ap_revision a) + 1) TimedOut in
         ebind (append_event_tx ms (t 3) actor event db) (\<lambda>db.
         Inr (True, db)))))"


section \<open>The invariant of tickets\<close>

text \<open>
  A pending ticket has revision 1, no answer and no audit row; a resolved one has revision 2
  and exactly one audit row. Its run belongs to its actor and session.
\<close>

definition audit_of :: "string \<Rightarrow> db \<Rightarrow> audit_row list" where
  "audit_of i db = filter (\<lambda>y. au_subject_id y = i) (db_audit db)"

definition ticket_ok :: "db \<Rightarrow> approval_row \<Rightarrow> bool" where
  "ticket_ok db a \<longleftrightarrow>
     (if ap_state a = Pending then ap_revision a = 1 \<and> ap_answer a = None \<and> audit_of (ap_id a) db = []
      else ap_revision a = 2 \<and> length (audit_of (ap_id a) db) = 1) \<and>
     (\<exists>r \<in> set (db_runs db). rn_id r = ap_run_id a \<and> rn_session_id r = ap_session_id a \<and>
        rn_actor_id r = ap_actor_id a)"

definition approvals_ok :: "db \<Rightarrow> bool" where
  "approvals_ok db \<longleftrightarrow> distinct (map ap_id (db_approvals db)) \<and>
     (\<forall>a \<in> set (db_approvals db). ticket_ok db a) \<and>
     (\<forall>y \<in> set (db_audit db). au_subject_id y \<in> ap_id ` set (db_approvals db))"

lemma approvals_ok_empty [simp]: "approvals_ok empty_db"
  by (simp add: approvals_ok_def empty_db_def)

lemma runs_kept:
  assumes "db_grows db db'" "r \<in> set (db_runs db)"
  shows "\<exists>r' \<in> set (db_runs db'). run_kept r r'"
  using table_grows_member [of run_kept "db_runs db" "db_runs db'" r] assms by (auto simp: db_grows_def)

lemma ticket_ok_grows:
  assumes "ticket_ok db a" "db_grows db db'" "audit_of (ap_id a) db' = audit_of (ap_id a) db"
  shows "ticket_ok db' a"
proof -
  from assms(1) obtain r where r: "r \<in> set (db_runs db)" "rn_id r = ap_run_id a"
    "rn_session_id r = ap_session_id a" "rn_actor_id r = ap_actor_id a"
    unfolding ticket_ok_def by blast
  from runs_kept [OF assms(2) r(1)] obtain r' where "r' \<in> set (db_runs db')" "run_kept r r'" by blast
  with r have "\<exists>r \<in> set (db_runs db'). rn_id r = ap_run_id a \<and> rn_session_id r = ap_session_id a \<and>
      rn_actor_id r = ap_actor_id a"
    by (intro bexI [of _ r']) (simp_all add: run_kept_def)
  with assms(1,3) show ?thesis by (simp add: ticket_ok_def)
qed

lemma approvals_ok_grows:
  assumes "approvals_ok db" "db_grows db db'" "db_approvals db' = db_approvals db" "db_audit db' = db_audit db"
  shows "approvals_ok db'"
proof -
  have "ticket_ok db' a" if "a \<in> set (db_approvals db)" for a
    using ticket_ok_grows [of db a db'] assms that by (simp add: approvals_ok_def audit_of_def)
  with assms show ?thesis by (simp add: approvals_ok_def)
qed

lemma find_approval_Some: "find_approval i db = Some a \<Longrightarrow> a \<in> set (db_approvals db) \<and> ap_id a = i"
  unfolding find_approval_def by (drule find_Some_in) simp

lemma find_approval_eq:
  "approvals_ok db \<Longrightarrow> a \<in> set (db_approvals db) \<Longrightarrow> ap_id a = i \<Longrightarrow> find_approval i db = Some a"
  unfolding find_approval_def by (rule find_distinct_eq) (simp_all add: approvals_ok_def)

lemma owned_approval_Inr:
  "owned_approval actor i db = Inr a \<longleftrightarrow> find_approval i db = Some a \<and> ap_actor_id a = actor"
  by (auto simp: owned_approval_def res_simps)

lemma insert_approval_ok:
  assumes ok: "approvals_ok db" and ins: "insert_approval a db = Inr db'"
    and a: "ap_revision a = 1" "ap_state a = Pending" "ap_answer a = None"
    and r: "find_run (ap_run_id a) db = Some r" "rn_session_id r = ap_session_id a" "rn_actor_id r = ap_actor_id a"
  shows "approvals_ok db'"
proof -
  from ins have new: "ap_id a \<notin> ap_id ` set (db_approvals db)"
    and db': "db' = db\<lparr>db_approvals := db_approvals db @ [a]\<rparr>"
    by (auto simp: insert_approval_def split: if_splits)
  have none: "audit_of (ap_id a) db = []"
    using ok new unfolding approvals_ok_def audit_of_def filter_empty_conv by metis
  have "ticket_ok db' a"
    using a r find_run_Some [OF r(1)] none by (auto simp: ticket_ok_def db' audit_of_def)
  moreover have "ticket_ok db' x" if "x \<in> set (db_approvals db)" for x
    using ticket_ok_grows [of db x db'] insert_grows(3) [OF ins] ok that
    by (simp add: approvals_ok_def audit_of_def db')
  ultimately show ?thesis using ok new by (simp add: approvals_ok_def db')
qed

section \<open>Deciding a ticket\<close>

text \<open>What the two updates of a ticket have in common.\<close>

definition decides :: "(approval_row \<Rightarrow> approval_row) \<Rightarrow> bool" where
  "decides f \<longleftrightarrow> (\<forall>a. ap_id (f a) = ap_id a \<and> ap_session_id (f a) = ap_session_id a \<and>
     ap_run_id (f a) = ap_run_id a \<and> ap_call_id (f a) = ap_call_id a \<and> ap_actor_id (f a) = ap_actor_id a \<and>
     ap_revision (f a) = ap_revision a + 1 \<and> ap_state (f a) \<noteq> Pending)"

lemma update_approvals_keeps:
  assumes "update_approvals p f db = (n, db')"
  shows "db_sessions db' = db_sessions db" "db_runs db' = db_runs db" "db_events db' = db_events db"
    "db_idempotency db' = db_idempotency db" "db_cancels db' = db_cancels db" "db_audit db' = db_audit db"
    "db_links db' = db_links db" "db_approvals db' = map (\<lambda>a. if p a then f a else a) (db_approvals db)"
  using assms by (auto simp: update_approvals_def)

lemma update_approvals_count:
  assumes ok: "approvals_ok db" and a: "find_approval i db = Some a" "ap_actor_id a = actor" "ap_state a = Pending"
  shows "fst (update_approvals (decided i actor (ap_revision a)) f db) = 1"
proof -
  let ?p = "decided i actor (ap_revision a)"
  have mem: "a \<in> set (db_approvals db)" "ap_id a = i" using find_approval_Some [OF a(1)] by auto
  have "x = a" if "x \<in> set (db_approvals db)" "?p x" for x
    using find_approval_eq [OF ok that(1)] that(2) a(1) by (simp add: decided_def)
  moreover have "?p a" using mem a(2,3) by (simp add: decided_def)
  ultimately have "filter ?p (db_approvals db) = filter (\<lambda>x. x = a) (db_approvals db)"
    by (intro filter_cong) auto
  moreover have "distinct (db_approvals db)" using ok by (simp add: approvals_ok_def distinct_map)
  moreover have "length (filter (\<lambda>x. x = a) xs) = 1" if "a \<in> set xs" "distinct xs" for xs :: "approval_row list"
    using that by (induction xs) (auto simp: filter_empty_conv)
  ultimately show ?thesis using mem(1) by (simp add: update_approvals_def)
qed

lemma update_approvals_grows:
  assumes "update_approvals (decided i actor n0) f db = (n, db')" "decides f"
  shows "db_grows db db'"
proof -
  have "approval_kept a (if decided i actor n0 a then f a else a)" for a
    using assms(2) by (auto simp: approval_kept_def decides_def decided_def)
  then have "table_grows approval_kept (db_approvals db) (db_approvals db')"
    unfolding update_approvals_keeps(8) [OF assms(1)] by (intro table_grows_map) blast
  then show ?thesis
    by (intro grows_same) (simp_all add: update_approvals_keeps [OF assms(1)] table_grows_refl)
qed

lemma decide_ok:
  assumes ok: "approvals_ok db" and dec: "decides f"
    and upd: "update_approvals (decided i actor n0) f db = (1, db1)"
    and aud: "insert_audit y db1 = Inr db2" "au_subject_id y = i"
  shows "approvals_ok db2"
proof -
  let ?p = "decided i actor n0"
  have grow: "db_grows db db2"
    using update_approvals_grows [OF upd dec] insert_grows(4) [OF aud(1)] db_grows_trans by blast
  note k = update_approvals_keeps [OF upd]
  note db2 = insert_audit_keeps [OF aud(1)]
  have ap: "db_approvals db2 = map (\<lambda>a. if ?p a then f a else a) (db_approvals db)" by (simp add: db2 k)
  have au: "db_audit db2 = db_audit db @ [y]" by (simp add: db2 k)
  have ids: "map ap_id (db_approvals db2) = map ap_id (db_approvals db)"
    unfolding ap using dec by (intro map_id_if) (simp add: decides_def)
  have idset: "ap_id ` set (db_approvals db2) = ap_id ` set (db_approvals db)"
    using arg_cong [OF ids, of set] by simp
  from upd obtain b where b: "filter ?p (db_approvals db) = [b]"
    by (auto simp: update_approvals_def length_Suc_conv)
  then have bm: "b \<in> set (filter ?p (db_approvals db))" by simp
  have uniq: "?p x" if "x \<in> set (db_approvals db)" "ap_id x = i" for x
    using find_approval_eq [OF ok that] find_approval_eq [OF ok, of b i] bm by (simp add: decided_def)
  have "ticket_ok db2 x" if "x \<in> set (db_approvals db2)" for x
  proof -
    from that obtain x0 where x0: "x0 \<in> set (db_approvals db)" "x = (if ?p x0 then f x0 else x0)"
      unfolding ap by auto
    have t: "ticket_ok db x0" using ok x0(1) by (simp add: approvals_ok_def)
    show ?thesis
    proof (cases "?p x0")
      case False
      then have "ap_id x0 \<noteq> i" using uniq [OF x0(1)] by blast
      then have "audit_of (ap_id x0) db2 = audit_of (ap_id x0) db" using aud(2) by (simp add: audit_of_def au)
      with ticket_ok_grows [OF t grow] False x0(2) show ?thesis by simp
    next
      case True
      then have pend: "ap_state x0 = Pending" "ap_id x0 = i" by (simp_all add: decided_def)
      with t have "ap_revision x0 = 1" "audit_of i db = []"
        and run: "\<exists>r \<in> set (db_runs db). rn_id r = ap_run_id x0 \<and> rn_session_id r = ap_session_id x0 \<and>
          rn_actor_id r = ap_actor_id x0"
        by (simp_all add: ticket_ok_def)
      then have "length (audit_of i db2) = 1" using aud(2) by (simp add: audit_of_def au)
      with dec True x0(2) pend run \<open>ap_revision x0 = 1\<close> show ?thesis
        by (simp add: ticket_ok_def decides_def db2 k)
    qed
  qed
  moreover have "i \<in> ap_id ` set (db_approvals db)" using bm by (auto simp: decided_def)
  then have "au_subject_id z \<in> ap_id ` set (db_approvals db2)" if "z \<in> set (db_audit db2)" for z
    using ok that aud(2) unfolding idset au by (auto simp: approvals_ok_def)
  ultimately show ?thesis using ok ids by (simp add: approvals_ok_def)
qed


section \<open>The operations keep the invariants\<close>

definition store_ok :: "db \<Rightarrow> bool" where
  "store_ok db \<longleftrightarrow> db_ok db \<and> approvals_ok db"

lemma store_ok_empty [simp]: "store_ok empty_db"
  by (simp add: store_ok_def)

lemma append_store_ok:
  assumes "wire_fixed ms" "store_ok db" "append_event_tx ms t owner e db = Inr db'"
  shows "store_ok db' \<and> db_grows db db'"
proof -
  have "db_grows db db'" using append_grows [OF _ assms(3)] assms(2) by (simp add: store_ok_def db_ok_def)
  moreover have "db_ok db'" using append_db_ok [OF assms(1) _ assms(3)] assms(2) by (simp add: store_ok_def)
  ultimately show ?thesis
    using approvals_ok_grows [of db db'] append_event_tx_keeps [OF assms(3)] assms(2) by (simp add: store_ok_def)
qed

lemma create_approval_new:
  assumes "create_approval_with_arguments ms u t actor session run_id call_id tool args reason rule sug kind db
      = Inr (ticket, db')"
  obtains (existing) a where "find (\<lambda>a. ap_run_id a = run_id \<and> ap_call_id a = call_id) (db_approvals db) = Some a"
      "db' = db" "ticket = \<lparr>at_approval_id = ap_id a, at_revision = as_u64 (ap_revision a), at_created = False\<rparr>"
  | (new) r a e db1 where "find_run run_id db = Some r" "rn_session_id r = session" "rn_actor_id r = actor"
      "find (\<lambda>a. ap_run_id a = run_id \<and> ap_call_id a = call_id) (db_approvals db) = None"
      "ap_id a = ''approval-'' @ u 0" "ap_session_id a = session" "ap_run_id a = run_id" "ap_call_id a = call_id"
      "ap_actor_id a = actor" "ap_revision a = 1" "ap_state a = Pending" "ap_answer a = None"
      "insert_approval a db = Inr db1" "append_event_tx ms (t 2) actor e db1 = Inr db'"
      "e = approval_required_event (u 1) (t 1) (ap_id a) session run_id (as_u64 (rn_last_seq r) + 1)
             call_id tool args reason rule sug kind"
      "ticket = \<lparr>at_approval_id = ap_id a, at_revision = 1, at_created = True\<rparr>"
proof (cases "find (\<lambda>a. ap_run_id a = run_id \<and> ap_call_id a = call_id) (db_approvals db)")
  case (Some a)
  with assms show ?thesis
    by (intro existing [of a]) (auto simp: create_approval_with_arguments_def res_simps)
next
  case None
  let ?a = "\<lparr>ap_id = ''approval-'' @ u 0, ap_session_id = session, ap_run_id = run_id,
      ap_call_id = call_id, ap_tool_name = tool, ap_reason = reason, ap_actor_id = actor,
      ap_revision = 1, ap_state = Pending, ap_decided_by = None, ap_decision_source = None,
      ap_created_at = t 0, ap_decided_at = None, ap_answer = None\<rparr>"
  from assms None obtain sp db1 where 1: "require_run run_id actor db = Inr sp" "sp_session_id sp = session"
    "insert_approval ?a db = Inr db1"
    "append_event_tx ms (t 2) actor (approval_required_event (u 1) (t 1) (''approval-'' @ u 0) session run_id
       (sp_last_seq sp + 1) call_id tool args reason rule sug kind) db1 = Inr db'"
    "ticket = \<lparr>at_approval_id = ''approval-'' @ u 0, at_revision = 1, at_created = True\<rparr>"
    unfolding create_approval_with_arguments_def Let_def by (simp add: res_simps) blast
  from 1(1) obtain r where r: "find_run run_id db = Some r" "rn_actor_id r = actor" "sp = run_snapshot_of r"
    by (auto simp: require_run_Inr)
  show ?thesis by (rule new [of r ?a db1]) (use 1 r None in simp_all)
qed

lemma create_approval_ok:
  assumes run: "create_approval_with_arguments ms u t actor session run_id call_id tool args reason rule sug kind db
      = Inr (ticket, db')"
    and wf: "wire_fixed ms" and ok: "store_ok db"
  shows "store_ok db' \<and> db_grows db db'"
  using run
proof (cases rule: create_approval_new)
  case existing
  with ok show ?thesis by simp
next
  case (new r a e db1)
  have "approvals_ok db1"
    using insert_approval_ok [OF _ new(13) new(10-12), of r] new(1-9) ok by (simp add: store_ok_def)
  moreover have "db_ok db1" using insert_others_db_ok(3) [OF new(13)] ok by (simp add: store_ok_def)
  ultimately show ?thesis
    using append_store_ok [OF wf _ new(14)] insert_grows(3) [OF new(13)] db_grows_trans
    unfolding store_ok_def by blast
qed

text \<open>The common core of \<open>resolve_approval\<close> and \<open>expire_approval\<close>.\<close>

lemma decide_store_ok:
  assumes ok: "store_ok db" and wf: "wire_fixed ms" and dec: "decides f"
    and upd: "update_approvals (decided i actor n0) f db = (1, db1)"
    and aud: "insert_audit y db1 = Inr db2" "au_subject_id y = i"
    and app: "append_event_tx ms t owner e db2 = Inr db3"
  shows "store_ok db3 \<and> db_grows db db3"
proof -
  have "approvals_ok db2" using decide_ok [OF _ dec upd aud] ok by (simp add: store_ok_def)
  moreover have "db_ok db2"
    using db_ok_cong [of db1 db] update_approvals_keeps [OF upd] insert_others_db_ok(4) [OF aud(1)] ok
    by (simp add: store_ok_def)
  ultimately show ?thesis
    using append_store_ok [OF wf _ app] update_approvals_grows [OF upd dec] insert_grows(4) [OF aud(1)]
      db_grows_trans unfolding store_ok_def by blast
qed

definition resolved_row :: "string \<Rightarrow> approval_outcome \<Rightarrow> json option \<Rightarrow> string \<Rightarrow> approval_row \<Rightarrow> approval_row" where
  "resolved_row t outcome answer actor a = a\<lparr>ap_state := Resolved outcome, ap_revision := ap_revision a + 1,
     ap_decided_by := Some actor, ap_decision_source := Some ''user'', ap_decided_at := Some t, ap_answer := answer\<rparr>"

definition expired_row :: "string \<Rightarrow> approval_row \<Rightarrow> approval_row" where
  "expired_row t a = a\<lparr>ap_state := Resolved TimedOut, ap_revision := ap_revision a + 1,
     ap_decision_source := Some ''system'', ap_decided_at := Some t\<rparr>"

lemma decides_rows [simp]: "decides (resolved_row t outcome answer actor)" "decides (expired_row t)"
  by (simp_all add: decides_def resolved_row_def expired_row_def)

lemma resolve_approval_new:
  assumes "resolve_approval ms u t actor key fp i rv d answer db = Inr (out, db')"
    and "lookup_idempotency d_stored_resolution actor ''approval.resolve'' key fp db = Inr None"
  obtains a db1 y db2 r e db3 stored where
    "find_approval i db = Some a" "ap_actor_id a = actor" "as_u64 (ap_revision a) = rv" "ap_state a = Pending"
    "update_approvals (decided i actor (as_i64 rv))
       (resolved_row (t 0) (decision_outcome d) (map_option (mask_json ms) answer) actor) db = (1, db1)"
    "insert_audit y db1 = Inr db2" "au_subject_id y = i" "find_run (ap_run_id a) db2 = Some r"
    "e = approval_resolved_event (u 1) (t 2) a (as_u64 (rn_last_seq r) + 1) \<lparr>ar_id = actor, ar_kind = LocalUser\<rparr>
       (rv + 1) (decision_outcome d)"
    "append_event_tx ms (t 3) actor e db2 = Inr db3"
    "stored = \<lparr>sr_approval_id = i, sr_run_id = ap_run_id a, sr_session_id = ap_session_id a,
       sr_call_id = ap_call_id a, sr_revision = rv + 1, sr_outcome = decision_outcome d, sr_answer = answer,
       sr_event = e\<rparr>"
    "insert_idempotency actor ''approval.resolve'' key fp
       (stored_resolution_json (stored\<lparr>sr_answer := map_option (mask_json ms) answer\<rparr>)) db3 = Inr db'"
    "out = into_public True stored"
proof -
  let ?f = "resolved_row (t 0) (decision_outcome d) (map_option (mask_json ms) answer) actor"
  from assms obtain a where a: "owned_approval actor i db = Inr a"
    by (cases "owned_approval actor i db") (auto simp: resolve_approval_def)
  obtain n db1 where upd: "update_approvals (decided i actor (as_i64 rv)) ?f db = (n, db1)"
    by (cases "update_approvals (decided i actor (as_i64 rv)) ?f db") blast
  note upd' = upd [unfolded resolved_row_def [abs_def]]
  from assms(1) [unfolded resolve_approval_def assms(2) Let_def] a upd'
  obtain db2 sp db3 where 1: "as_u64 (ap_revision a) = rv" "ap_state a = Pending" "n = 1"
    "insert_audit \<lparr>au_id = ''audit-'' @ u 0, au_actor_id = actor, au_source = ''user'',
        au_action = ''approval.resolve'', au_subject_id = i,
        au_payload = approval_outcome_json (decision_outcome d), au_occurred_at = t 1\<rparr> db1 = Inr db2"
    "require_run (ap_run_id a) actor db2 = Inr sp"
    "append_event_tx ms (t 3) actor (approval_resolved_event (u 1) (t 2) a (sp_last_seq sp + 1)
        \<lparr>ar_id = actor, ar_kind = LocalUser\<rparr> (rv + 1) (decision_outcome d)) db2 = Inr db3"
    "insert_idempotency actor ''approval.resolve'' key fp (stored_resolution_json
        \<lparr>sr_approval_id = i, sr_run_id = ap_run_id a, sr_session_id = ap_session_id a,
         sr_call_id = ap_call_id a, sr_revision = rv + 1, sr_outcome = decision_outcome d,
         sr_answer = map_option (mask_json ms) answer,
         sr_event = approval_resolved_event (u 1) (t 2) a (sp_last_seq sp + 1)
        \<lparr>ar_id = actor, ar_kind = LocalUser\<rparr> (rv + 1) (decision_outcome d)\<rparr>) db3 = Inr db'"
    "out = into_public True \<lparr>sr_approval_id = i, sr_run_id = ap_run_id a, sr_session_id = ap_session_id a,
         sr_call_id = ap_call_id a, sr_revision = rv + 1, sr_outcome = decision_outcome d, sr_answer = answer,
         sr_event = approval_resolved_event (u 1) (t 2) a (sp_last_seq sp + 1)
        \<lparr>ar_id = actor, ar_kind = LocalUser\<rparr> (rv + 1) (decision_outcome d)\<rparr>"
    by (simp add: res_simps) blast
  from 1(5) obtain r where r: "find_run (ap_run_id a) db2 = Some r" "sp = run_snapshot_of r"
    by (auto simp: require_run_Inr)
  from a have "find_approval i db = Some a" "ap_actor_id a = actor" by (simp_all add: owned_approval_Inr)
  from that [OF this 1(1,2) upd [unfolded 1(3)] 1(4) _ r(1) refl 1(6) [unfolded r(2) run_snapshot_simps] refl] 1(7,8)
  show thesis by (simp add: r(2))
qed

lemma resolve_approval_replay:
  assumes "resolve_approval ms u t actor key fp i rv d answer db = Inr (out, db')"
    and "lookup_idempotency d_stored_resolution actor ''approval.resolve'' key fp db \<noteq> Inr None"
  shows "db' = db"
  using assms by (auto simp: resolve_approval_def res_simps split: option.splits)

lemma insert_idempotency_store_ok:
  assumes "insert_idempotency a sc k fp j db = Inr db'" "store_ok db"
  shows "store_ok db'"
  using approvals_ok_grows [of db db'] insert_grows(1) [OF assms(1)] insert_idempotency_keeps [OF assms(1)]
    insert_others_db_ok(1) [OF assms(1)] assms(2) by (auto simp: store_ok_def)

lemma resolve_approval_ok:
  assumes run: "resolve_approval ms u t actor key fp i rv d answer db = Inr (out, db')"
    and wf: "wire_fixed ms" and ok: "store_ok db"
  shows "store_ok db' \<and> db_grows db db'"
proof (cases "lookup_idempotency d_stored_resolution actor ''approval.resolve'' key fp db = Inr None")
  case False
  from resolve_approval_replay [OF run this] ok show ?thesis by simp
next
  case True
  from resolve_approval_new [OF run True] obtain db1 y db2 e db3 j where
    1: "update_approvals (decided i actor (as_i64 rv))
       (resolved_row (t 0) (decision_outcome d) (map_option (mask_json ms) answer) actor) db = (1, db1)"
    and 2: "insert_audit y db1 = Inr db2" "au_subject_id y = i"
    and 3: "append_event_tx ms (t 3) actor e db2 = Inr db3"
    and 4: "insert_idempotency actor ''approval.resolve'' key fp j db3 = Inr db'"
    by metis
  note d = decide_store_ok [OF ok wf decides_rows(1) 1 2 3]
  show ?thesis
    using d insert_idempotency_store_ok [OF 4] insert_grows(1) [OF 4] db_grows_trans by blast
qed

lemma expire_approval_new:
  assumes "expire_approval ms u t actor i db = Inr (True, db')"
  obtains a db1 y db2 r e where
    "find_approval i db = Some a" "ap_actor_id a = actor" "ap_state a = Pending"
    "update_approvals (decided i actor (ap_revision a)) (expired_row (t 0)) db = (1, db1)"
    "insert_audit y db1 = Inr db2" "au_subject_id y = i" "find_run (ap_run_id a) db2 = Some r"
    "e = approval_resolved_event (u 1) (t 2) a (as_u64 (rn_last_seq r) + 1) \<lparr>ar_id = actor, ar_kind = System\<rparr>
       (as_u64 (ap_revision a) + 1) TimedOut"
    "append_event_tx ms (t 3) actor e db2 = Inr db'"
proof -
  from assms obtain a where a: "owned_approval actor i db = Inr a" "ap_state a = Pending"
    by (cases "owned_approval actor i db") (auto simp: expire_approval_def split: if_splits)
  obtain n db1 where upd: "update_approvals (decided i actor (ap_revision a)) (expired_row (t 0)) db = (n, db1)"
    by (cases "update_approvals (decided i actor (ap_revision a)) (expired_row (t 0)) db") blast
  from assms [unfolded expire_approval_def Let_def] a upd [unfolded expired_row_def [abs_def]]
  obtain y db2 sp where 1: "n = 1" "insert_audit y db1 = Inr db2" "au_subject_id y = i"
    "require_run (ap_run_id a) actor db2 = Inr sp"
    "append_event_tx ms (t 3) actor (approval_resolved_event (u 1) (t 2) a (sp_last_seq sp + 1)
        \<lparr>ar_id = actor, ar_kind = System\<rparr> (as_u64 (ap_revision a) + 1) TimedOut) db2 = Inr db'"
    by (fastforce simp: res_simps split: if_splits)
  from 1(4) obtain r where r: "find_run (ap_run_id a) db2 = Some r" "sp = run_snapshot_of r"
    by (auto simp: require_run_Inr)
  from a have "find_approval i db = Some a" "ap_actor_id a = actor" by (simp_all add: owned_approval_Inr)
  from that [OF this a(2) upd [unfolded 1(1)] 1(2,3) r(1) refl] 1(5)
  show thesis by (simp add: r(2))
qed

lemma expire_approval_False:
  assumes "expire_approval ms u t actor i db = Inr (False, db')" "approvals_ok db"
  shows "db' = db \<and> (\<exists>a. find_approval i db = Some a \<and> ap_actor_id a = actor \<and> ap_state a \<noteq> Pending)"
proof -
  from assms(1) obtain a where a: "owned_approval actor i db = Inr a"
    by (cases "owned_approval actor i db") (auto simp: expire_approval_def)
  then have a': "find_approval i db = Some a" "ap_actor_id a = actor" by (simp_all add: owned_approval_Inr)
  obtain n db1 where upd: "update_approvals (decided i actor (ap_revision a)) (expired_row (t 0)) db = (n, db1)"
    by (cases "update_approvals (decided i actor (ap_revision a)) (expired_row (t 0)) db") blast
  show ?thesis
  proof (cases "ap_state a = Pending")
    case False
    with assms(1) a a' show ?thesis by (simp add: expire_approval_def)
  next
    case True
    have "n = 1" using update_approvals_count [OF assms(2) a' True, of "expired_row (t 0)"] upd by simp
    with assms(1) [unfolded expire_approval_def Let_def] a True upd [unfolded expired_row_def [abs_def]]
    have False by (simp add: res_simps)
    then show ?thesis ..
  qed
qed

lemma expire_approval_ok:
  assumes run: "expire_approval ms u t actor i db = Inr (b, db')" and wf: "wire_fixed ms" and ok: "store_ok db"
  shows "store_ok db' \<and> db_grows db db'"
proof (cases b)
  case False
  with run ok expire_approval_False [of ms u t actor i db db'] show ?thesis by (simp add: store_ok_def)
next
  case True
  with run have "expire_approval ms u t actor i db = Inr (True, db')" by simp
  then show ?thesis
  proof (rule expire_approval_new)
    fix a db1 y db2 e
    assume "update_approvals (decided i actor (ap_revision a)) (expired_row (t 0)) db = (1, db1)"
      and "insert_audit y db1 = Inr db2" "au_subject_id y = i" "append_event_tx ms (t 3) actor e db2 = Inr db'"
    then show ?thesis by (rule decide_store_ok [OF ok wf decides_rows(2)])
  qed
qed

end
