(* ===== verification/Run_Recovery.thy ===== *)
theory Run_Recovery
  imports Masked_Log
begin

text \<open>
  Closing a run, \<open>crates/cool-state/src/lib.rs\<close>: a cancellation or the recovery after
  a crash answers every tool call that is still pending and ends the run. Two things are shown
  of both: what the log says afterwards, and that recovery always gets to the end when the
  fresh ids are new and the sequence numbers do not run out.
\<close>

section \<open>Pending calls\<close>

lemma pending_calls_snoc: "pending_calls (es @ [e]) = pending_step (ee_event e) (pending_calls es)"
  by (simp add: pending_calls_def)

lemma remove_all: "foldl (\<lambda>p c. bt_remove (fst c) p) m cs = filter (\<lambda>(j, _). j \<notin> fst ` set cs) m"
proof (induction cs arbitrary: m)
  case Nil
  have "(\<lambda>(j, _). True) = (\<lambda>x :: 'a \<times> 'b. True)" by auto
  then show ?case by simp
next
  case (Cons c cs)
  then show ?case by (auto simp: bt_remove_def intro!: filter_cong)
qed

lemma remove_all_keys: "foldl (\<lambda>p c. bt_remove (fst c) p) m m = []"
  unfolding remove_all by (auto simp: filter_empty_conv intro: rev_image_eqI)

lemma in_bt_insert: "x \<in> set (bt_insert k v m) \<Longrightarrow> x = (k, v) \<or> x \<in> set m"
  by (induction k v m rule: bt_insert.induct) (auto split: if_splits)

definition keys_masked :: "(string \<Rightarrow> string) \<Rightarrow> (string \<times> string) list \<Rightarrow> bool" where
  "keys_masked ms p \<longleftrightarrow> (\<forall>c \<in> set p. ms (fst c) = fst c)"

lemma keys_masked_insert: "keys_masked ms p \<Longrightarrow> ms k = k \<Longrightarrow> keys_masked ms (bt_insert k v p)"
  using in_bt_insert by (fastforce simp: keys_masked_def)

lemma keys_masked_remove: "keys_masked ms p \<Longrightarrow> keys_masked ms (bt_remove k p)"
  by (simp add: keys_masked_def bt_remove_def)

lemma keys_masked_calls:
  "keys_masked ms p \<Longrightarrow> \<forall>c \<in> set calls. ms (tr_call_id c) = tr_call_id c \<Longrightarrow>
   keys_masked ms (foldl (\<lambda>p call. bt_insert (tr_call_id call) (tr_name call) p) p calls)"
  by (induction calls arbitrary: p) (simp_all add: keys_masked_insert)

lemma mask_tool_requested_id: "mask_tool_requested ms c = c \<Longrightarrow> ms (tr_call_id c) = tr_call_id c"
  by (drule arg_cong [of _ _ tr_call_id]) (simp add: mask_tool_requested_def)

lemma pending_step_masked:
  assumes "mask_event ms e = e" "keys_masked ms p"
  shows "keys_masked ms (pending_step e p)"
proof (cases e)
  case (ItemCompleted item)
  with assms(1) have "map (mask_tool_requested ms) (ie_tool_calls item) = ie_tool_calls item"
    by simp (drule arg_cong [of _ _ ie_tool_calls], simp add: mask_item_event_def)
  then have "\<forall>c \<in> set (ie_tool_calls item). mask_tool_requested ms c = c"
    by (metis map_eq_conv map_ident)
  then have "\<forall>c \<in> set (ie_tool_calls item). ms (tr_call_id c) = tr_call_id c"
    using mask_tool_requested_id by blast
  from keys_masked_calls [OF assms(2) this] show ?thesis by (simp add: ItemCompleted)
qed (use assms mask_tool_requested_id in \<open>simp_all add: keys_masked_insert keys_masked_remove\<close>)

lemma pending_calls_masked:
  "\<forall>e \<in> set es. mask_envelope ms e = e \<Longrightarrow> keys_masked ms (pending_calls es)"
proof (induction es rule: rev_induct)
  case Nil
  then show ?case by (simp add: pending_calls_def keys_masked_def)
next
  case (snoc e es)
  from snoc.prems have "mask_envelope ms e = e" by simp
  then have "mask_event ms (ee_event e) = ee_event e"
    by (drule_tac f = ee_event in arg_cong) (simp add: mask_envelope_def)
  with snoc show ?case by (simp add: pending_calls_snoc pending_step_masked)
qed

section \<open>Closing the pending calls\<close>

lemma interrupted_failure_simps [simp]:
  "ee_run_id (interrupted_failure u session run seq t code call) = run"
  "ee_session_id (interrupted_failure u session run seq t code call) = session"
  "ee_seq (interrupted_failure u session run seq t code call) = seq"
  "ee_event_id (interrupted_failure u session run seq t code call) = ''event-'' @ u"
  "ee_event (interrupted_failure u session run seq t code call) = ToolFailed \<lparr>tf_call_id = fst call,
     tf_name = snd call, tf_error_code = code,
     tf_message = Some ''tool execution was interrupted before a durable result''\<rparr>"
  by (simp_all add: interrupted_failure_def plain_envelope_def)

text \<open>Each step answers its call in the log.\<close>

lemma interruption_loop_logged:
  assumes wf: "wire_fixed ms"
  shows "efold (append_interruption ms u t owner session run code) (enumerate n calls) (acc, db) = Inr (acc', db') \<Longrightarrow>
    keys_masked ms calls \<Longrightarrow> logged run db es \<Longrightarrow>
    \<exists>fs. logged run db' (es @ fs) \<and>
      pending_calls (es @ fs) = foldl (\<lambda>p c. bt_remove (fst c) p) (pending_calls es) calls"
proof (induction calls arbitrary: n acc db es)
  case Nil
  then show ?case by (intro exI [of _ "[]"]) simp
next
  case (Cons c calls)
  from Cons.prems(1) obtain st where
    "append_interruption ms u t owner session run code (n, c) (acc, db) = Inr st"
    and rest: "efold (append_interruption ms u t owner session run code) (enumerate (Suc n) calls) st = Inr (acc', db')"
    by (auto simp: res_simps)
  then obtain seq db1 where
    app: "append_event_tx ms (t (2 * n + 1)) owner (interrupted_failure (u n) session run seq (t (2 * n)) code c) db = Inr db1"
    and st: "snd st = db1"
    by (auto simp: append_interruption_def Let_def res_simps)
  let ?m = "mask_envelope ms (written (interrupted_failure (u n) session run seq (t (2 * n)) code c))"
  from append_logged [OF wf app] Cons.prems(3) have log: "logged run db1 (es @ [?m])" by simp
  have step: "pending_calls (es @ [?m]) = bt_remove (fst c) (pending_calls es)"
    using Cons.prems(2)
    by (simp add: pending_calls_snoc mask_envelope_def written_def mask_tool_failed_def keys_masked_def)
  have "keys_masked ms calls" using Cons.prems(2) by (simp add: keys_masked_def)
  with Cons.IH [of "Suc n" "fst st" db1 "es @ [?m]"] rest st log obtain fs where
    "logged run db' ((es @ [?m]) @ fs)"
    "pending_calls ((es @ [?m]) @ fs) = foldl (\<lambda>p c. bt_remove (fst c) p) (pending_calls (es @ [?m])) calls"
    by (metis prod.collapse)
  then show ?case by (intro exI [of _ "[?m] @ fs"]) (simp add: step)
qed

lemma interruption_closes:
  assumes wf: "wire_fixed ms" and ok: "db_ok db" and lm: "log_masked ms db" and r: "find_run run db = Some r"
    and run: "append_interrupted_tool_failures ms u t owner session run code db = Inr (evs, db')"
  shows "\<exists>es. logged run db' es \<and> pending_calls es = []"
proof -
  from run obtain es where es: "read_rows (run_events run db) = Inr es"
    and loop: "efold (append_interruption ms u t owner session run code) (enumerate 0 (pending_calls es)) ([], db)
      = Inr (evs, db')"
    unfolding append_interrupted_tool_failures_def run_rows(5) [OF ok r] by (auto simp: res_simps)
  have log: "logged run db es" using es by (simp add: logged_def)
  have "keys_masked ms (pending_calls es)"
    using pending_calls_masked logged_masked [OF lm log] by blast
  from interruption_loop_logged [OF wf loop this log] obtain fs where "logged run db' (es @ fs)"
    "pending_calls (es @ fs) = foldl (\<lambda>p c. bt_remove (fst c) p) (pending_calls es) (pending_calls es)" by blast
  then have "logged run db' (es @ fs)" "pending_calls (es @ fs) = []"
    by (simp_all add: remove_all_keys)
  then show ?thesis by blast
qed

text \<open>It leaves the status of the run and the other runs alone.\<close>

lemma interruption_frame:
  assumes run: "append_interrupted_tool_failures ms u t owner session run code db = Inr (evs, db')"
    and ok: "keys_ok db" and r: "find_run run db = Some r"
  shows "keys_ok db' \<and> (\<exists>r'. find_run run db' = Some r' \<and> rn_status r' = rn_status r \<and>
    rn_session_id r' = rn_session_id r \<and> rn_actor_id r' = rn_actor_id r)"
proof (rule interruption_keeps [OF run, where p = "\<lambda>x. keys_ok x \<and> (\<exists>r'. find_run run x = Some r' \<and>
    rn_status r' = rn_status r \<and> rn_session_id r' = rn_session_id r \<and> rn_actor_id r' = rn_actor_id r)"])
  fix t' e x y
  assume p: "keys_ok x \<and> (\<exists>r'. find_run run x = Some r' \<and> rn_status r' = rn_status r \<and>
      rn_session_id r' = rn_session_id r \<and> rn_actor_id r' = rn_actor_id r)"
    and app: "append_event_tx ms t' owner e x = Inr y" "ee_run_id e = run" "event_status (ee_event e) = None"
  then show "keys_ok y \<and> (\<exists>r'. find_run run y = Some r' \<and> rn_status r' = rn_status r \<and>
      rn_session_id r' = rn_session_id r \<and> rn_actor_id r' = rn_actor_id r)"
    using append_keys_ok [OF _ app(1)] append_event_tx_run [OF app(1)] by (fastforce simp: unwrap_or_def)
qed (use ok r in simp)


lemma plain_envelope_simps [simp]:
  "ee_run_id (plain_envelope u session run seq t a src e) = run"
  "ee_session_id (plain_envelope u session run seq t a src e) = session"
  "ee_seq (plain_envelope u session run seq t a src e) = seq"
  "ee_event_id (plain_envelope u session run seq t a src e) = ''event-'' @ u"
  "ee_event (plain_envelope u session run seq t a src e) = e"
  by (simp_all add: plain_envelope_def)

text \<open>An event that ends the run after the pending calls were answered.\<close>

lemma closing_append:
  assumes wf: "wire_fixed ms" and keys: "keys_ok db" and app: "append_event_tx ms t owner e db = Inr db'"
    and log: "logged (ee_run_id e) db es" "pending_calls es = []"
    and st: "event_status (ee_event e) = Some s" "\<And>p. pending_step (mask_event ms (ee_event e)) p = p"
      "written_event (ee_event e) = ee_event e"
  shows "\<exists>r es. find_run (ee_run_id e) db' = Some r \<and> rn_status r = s \<and> logged (ee_run_id e) db' es \<and> pending_calls es = []"
proof -
  from app obtain r where "find_run (ee_run_id e) db = Some r" by (rule append_event_txE)
  from append_event_tx_run [OF app keys this] st(1) obtain r' where
    "find_run (ee_run_id e) db' = Some r'" "rn_status r' = s"
    by (auto simp: unwrap_or_def)
  moreover have "pending_calls (es @ [mask_envelope ms (written e)]) = []"
    using log(2) st(2,3) by (simp add: pending_calls_snoc mask_envelope_def written_def)
  ultimately show ?thesis using append_logged [OF wf app log(1)] by blast
qed

lemma accept_cancel_closes:
  assumes run: "accept_cancel ms u t actor key fp i reason by_actor source db = Inr (a, db')"
    and new: "lookup_idempotency d_cancelled_result actor ''run.cancel'' key fp db = Inr None"
    and wf: "wire_fixed ms" and ok: "db_ok db" and lm: "log_masked ms db"
  shows "\<exists>r es. find_run i db' = Some r \<and> rn_status r = Cancelled \<and> logged i db' es \<and> pending_calls es = []"
    and "\<lparr>ci_run_id = i, ci_actor_id = actor, ci_reason = reason, ci_accepted_at = t 2\<rparr> \<in> set (db_cancels db')"
proof -
  from accept_cancel_new [OF run new] obtain s db1 db2 evs db3 seq where
    req: "require_run i actor db = Inr s"
    and 1: "insert_idempotency actor ''run.cancel'' key fp
       (cancelled_result_json \<lparr>cr_run_id = i, cr_accepted = True\<rparr>) db = Inr db1"
    and 2: "insert_cancel \<lparr>ci_run_id = i, ci_actor_id = actor, ci_reason = reason, ci_accepted_at = t 2\<rparr> db1 = Inr db2"
    and 3: "append_interrupted_tool_failures ms (\<lambda>i. u (i + 1)) (\<lambda>i. t (i + 3)) actor (sp_session_id s) i
       ''run_cancelled'' db2 = Inr (evs, db3)"
    and 4: "append_event_tx ms (t 1) actor (plain_envelope (u 0) (sp_session_id s) i seq
       (t 0) by_actor source (RunCancelled \<lparr>rt_reason = reason, rt_error_code = None\<rparr>)) db3 = Inr db'"
    by metis
  have ok2: "db_ok db2" using insert_others_db_ok(2) [OF 2 insert_others_db_ok(1) [OF 1 ok]] .
  have same: "db_runs db2 = db_runs db" "db_events db2 = db_events db"
    using insert_idempotency_keeps [OF 1] insert_cancel_keeps [OF 2] by auto
  from req obtain r where r: "find_run i db2 = Some r" by (auto simp: require_run_Inr find_run_def same)
  have lm2: "log_masked ms db2" using lm by (simp add: log_masked_def same)
  from interruption_closes [OF wf ok2 lm2 r 3] obtain es where es: "logged i db3 es" "pending_calls es = []" by blast
  have keys3: "keys_ok db3" using interruption_ok [OF 3 wf ok2] by (simp add: db_ok_def)
  show "\<exists>r es. find_run i db' = Some r \<and> rn_status r = Cancelled \<and> logged i db' es \<and> pending_calls es = []"
    using closing_append [OF wf keys3 4, of es Cancelled] es by simp
  have "db_cancels db3 = db_cancels db2"
    by (rule interruption_keeps [OF 3, where p = "\<lambda>x. db_cancels x = db_cancels db2"])
       (simp_all add: append_event_tx_keeps)
  then show "\<lparr>ci_run_id = i, ci_actor_id = actor, ci_reason = reason, ci_accepted_at = t 2\<rparr> \<in> set (db_cancels db')"
    using append_event_tx_keeps(2) [OF 4] insert_cancel_keeps [OF 2] by simp
qed

section \<open>Recovery gets to the end\<close>

definition event_ids :: "db \<Rightarrow> string set" where
  "event_ids db = ev_event_id ` set (db_events db)"

lemma append_event_ids:
  assumes "append_event_tx ms t owner e db = Inr db'"
  shows "event_ids db' = insert (ee_event_id e) (event_ids db)"
  using assms by (rule append_event_txE) (simp add: event_ids_def, simp add: appended_row_def)

lemma as_u64_Suc [simp]: "as_u64 l + 1 = as_u64 (l + 1)"
  by (simp add: as_u64_def)

lemma as_i64_u64: "0 \<le> l \<Longrightarrow> l \<le> int i64_max \<Longrightarrow> as_i64 (as_u64 l) = l"
  by (simp add: as_i64_def as_u64_def sint_u64 uint_word_of_int)

lemma log_room: "db_ok db \<Longrightarrow> find_run i db = Some r \<Longrightarrow> 0 \<le> rn_last_seq r \<and> rn_last_seq r \<le> int i64_max"
  using run_rows(2,3) by blast

text \<open>What one append of the closing does to its run, everything else being unchanged.\<close>

definition closed_to :: "string \<Rightarrow> run_row \<Rightarrow> run_status \<Rightarrow> int \<Rightarrow> string set \<Rightarrow> db \<Rightarrow> db \<Rightarrow> bool" where
  "closed_to i r s k ids db db' \<longleftrightarrow> db_ok db' \<and>
     (\<exists>r'. find_run i db' = Some r' \<and> rn_status r' = s \<and> rn_last_seq r' = rn_last_seq r + k \<and>
        rn_session_id r' = rn_session_id r \<and> rn_actor_id r' = rn_actor_id r) \<and>
     event_ids db' = event_ids db \<union> ids \<and> map rn_id (db_runs db') = map rn_id (db_runs db) \<and>
     (\<forall>j. j \<noteq> i \<longrightarrow> find_run j db' = find_run j db \<and> run_events j db' = run_events j db)"

lemma append_closed_to:
  assumes wf: "wire_fixed ms" and ok: "db_ok db" and r: "find_run i db = Some r" "\<not> is_terminal (rn_status r)"
    and room: "rn_last_seq r < int i64_max" and e: "ee_run_id e = i" "ee_session_id e = rn_session_id r"
      "ee_seq e = as_u64 (rn_last_seq r) + 1" "writable (ee_event e)" "ee_event_id e \<notin> event_ids db"
    and s: "s = unwrap_or (rn_status r) (event_status (ee_event e))" "transition_allowed (rn_status r) s"
  shows "\<exists>db'. append_event_tx ms t (rn_actor_id r) e db = Inr db' \<and> closed_to i r s 1 {ee_event_id e} db db'"
proof -
  have "\<exists>db'. append_event_tx ms t (rn_actor_id r) e db = Inr db'"
    by (rule append_event_tx_total [OF wf ok, of _ r]) (use r room e s in \<open>simp_all add: event_ids_def\<close>)
  then obtain db' where app: "append_event_tx ms t (rn_actor_id r) e db = Inr db'" by blast
  have keys: "keys_ok db" using ok by (simp add: db_ok_def)
  note l = log_room [OF ok r(1)]
  have "as_i64 (ee_seq e) = rn_last_seq r + 1" using l room e(3) by (simp add: as_i64_u64)
  then obtain r' where "find_run i db' = Some r'" "rn_status r' = s" "rn_last_seq r' = rn_last_seq r + 1"
    "rn_session_id r' = rn_session_id r" "rn_actor_id r' = rn_actor_id r"
    using append_event_tx_run [OF app keys] r(1) e(1) s(1) by auto
  moreover have "map rn_id (db_runs db') = map rn_id (db_runs db)"
    using app by (rule append_event_txE) (simp only: map_id_if advance_run_simps)
  ultimately have "closed_to i r s 1 {ee_event_id e} db db'"
    using append_db_ok [OF wf ok app] append_event_ids [OF app] append_event_tx_others [OF app] e(1)
    by (simp add: closed_to_def)
  with app show ?thesis by blast
qed


lemma closed_to_refl: "db_ok db \<Longrightarrow> find_run i db = Some r \<Longrightarrow> closed_to i r (rn_status r) 0 {} db db"
  by (simp add: closed_to_def)

lemma closed_to_trans:
  assumes "closed_to i r s k ids db db1" "find_run i db1 = Some r1" "closed_to i r1 s' k' ids' db1 db2"
  shows "closed_to i r s' (k + k') (ids \<union> ids') db db2"
  using assms unfolding closed_to_def by (auto simp: Un_assoc)

definition fresh_ids :: "(nat \<Rightarrow> string) \<Rightarrow> nat \<Rightarrow> db \<Rightarrow> bool" where
  "fresh_ids u n db \<longleftrightarrow> inj u \<and> (\<forall>j \<ge> n. ''event-'' @ u j \<notin> event_ids db)"

lemma interruption_loop_total:
  assumes wf: "wire_fixed ms"
  shows "db_ok db \<Longrightarrow> find_run i db = Some r \<Longrightarrow> \<not> is_terminal (rn_status r) \<Longrightarrow>
    rn_last_seq r + int (length calls) \<le> int i64_max \<Longrightarrow> fresh_ids u n db \<Longrightarrow>
    \<exists>evs db'. efold (append_interruption ms u t (rn_actor_id r) (rn_session_id r) i code) (enumerate n calls) (acc, db)
        = Inr (evs, db') \<and>
      closed_to i r (rn_status r) (int (length calls)) ((\<lambda>j. ''event-'' @ u j) ` {n..<n + length calls}) db db'"
proof (induction calls arbitrary: n acc db r)
  case Nil
  then show ?case by (simp add: closed_to_refl)
next
  case (Cons c calls)
  let ?e = "interrupted_failure (u n) (rn_session_id r) i (as_u64 (rn_last_seq r) + 1) (t (2 * n)) code c"
  have "\<exists>db1. append_event_tx ms (t (2 * n + 1)) (rn_actor_id r) ?e db = Inr db1 \<and>
      closed_to i r (rn_status r) 1 {ee_event_id ?e} db db1"
    by (rule append_closed_to [OF wf Cons.prems(1-3)])
       (use Cons.prems(4,5) in \<open>simp_all add: fresh_ids_def unwrap_or_def transition_allowed_def\<close>)
  then obtain db1 where app: "append_event_tx ms (t (2 * n + 1)) (rn_actor_id r) ?e db = Inr db1"
    and one: "closed_to i r (rn_status r) 1 {''event-'' @ u n} db db1" by auto
  from one obtain r1 where r1: "find_run i db1 = Some r1" "rn_status r1 = rn_status r" "rn_last_seq r1 = rn_last_seq r + 1"
    "rn_session_id r1 = rn_session_id r" "rn_actor_id r1 = rn_actor_id r" and ok1: "db_ok db1"
    and ids: "event_ids db1 = event_ids db \<union> {''event-'' @ u n}"
    by (auto simp: closed_to_def)
  have fresh1: "fresh_ids u (Suc n) db1" using Cons.prems(5) by (auto simp: fresh_ids_def ids inj_eq)
  have live1: "\<not> is_terminal (rn_status r1)" and room1: "rn_last_seq r1 + int (length calls) \<le> int i64_max"
    using Cons.prems(3,4) by (simp_all add: r1)
  from Cons.IH [OF ok1 r1(1) live1 room1 fresh1, of "acc @ [?e]"] obtain evs db' where
    rest: "efold (append_interruption ms u t (rn_actor_id r) (rn_session_id r) i code) (enumerate (Suc n) calls)
      (acc @ [?e], db1) = Inr (evs, db')"
    and more: "closed_to i r1 (rn_status r) (int (length calls)) ((\<lambda>j. ''event-'' @ u j) ` {Suc n..<Suc n + length calls}) db1 db'"
    unfolding r1(2,4,5) by blast
  have "require_run i (rn_actor_id r) db = Inr (run_snapshot_of r)"
    using Cons.prems(2) by (simp add: require_run_Inr)
  then have "append_interruption ms u t (rn_actor_id r) (rn_session_id r) i code (n, c) (acc, db) = Inr (acc @ [?e], db1)"
    using app by (simp add: append_interruption_def)
  then have run: "efold (append_interruption ms u t (rn_actor_id r) (rn_session_id r) i code)
      (enumerate n (c # calls)) (acc, db) = Inr (evs, db')"
    using rest by simp
  have "{n..<n + length (c # calls)} = insert n {Suc n..<Suc n + length calls}" by auto
  then have "{''event-'' @ u n} \<union> (\<lambda>j. ''event-'' @ u j) ` {Suc n..<Suc n + length calls} =
      (\<lambda>j. ''event-'' @ u j) ` {n..<n + length (c # calls)}"
    by (simp only: image_insert insert_is_Un [symmetric])
  moreover have "int (length (c # calls)) = 1 + int (length calls)" by simp
  ultimately have "closed_to i r (rn_status r) (int (length (c # calls)))
      ((\<lambda>j. ''event-'' @ u j) ` {n..<n + length (c # calls)}) db db'"
    using closed_to_trans [OF one r1(1) more] by metis
  with run show ?case by blast
qed

text \<open>The calls of a run that are pending in its log.\<close>

definition pending_of :: "string \<Rightarrow> db \<Rightarrow> nat" where
  "pending_of i db = (case read_rows (run_events i db) of Inl _ \<Rightarrow> 0 | Inr es \<Rightarrow> length (pending_calls es))"

text \<open>A live run whose sequence numbers leave room for closing it.\<close>

definition closable :: "db \<Rightarrow> run_row \<Rightarrow> bool" where
  "closable db r \<longleftrightarrow> find_run (rn_id r) db = Some r \<and> recoverable (rn_status r) \<and>
     rn_last_seq r + int (pending_of (rn_id r) db) < int i64_max"

lemma projected_not_queued: "projected_status rows \<noteq> Queued"
proof -
  have "event_status e \<noteq> Some Queued" for e by (cases e) simp_all
  then have step: "row_status row \<noteq> Some Queued" for row by (auto simp: row_status_def bind_eq_Some_conv)
  have "s \<noteq> Queued \<Longrightarrow> foldl (\<lambda>s row. unwrap_or s (row_status row)) s rows \<noteq> Queued" for s
  proof (induction rows arbitrary: s)
    case (Cons row rows)
    with step [of row] show ?case by (cases "row_status row") (simp_all add: unwrap_or_def)
  qed simp
  then show ?thesis by (simp add: projected_status_def)
qed

lemma recoverable_cases:
  assumes "db_ok db" "find_run i db = Some r"
  shows "recoverable (rn_status r) \<longleftrightarrow> \<not> is_terminal (rn_status r)"
    "recoverable (rn_status r) \<Longrightarrow> rn_status r = Running \<or> rn_status r = AwaitingApproval"
  using run_rows(6) [OF assms] projected_not_queued [of "run_events i db"]
  by (auto simp: recoverable_def is_terminal_def) (cases "rn_status r"; simp)

lemma shift_image: "(\<lambda>j. f (j + 1)) ` {0..<0 + n} \<union> {f 0} = f ` {..(n :: nat)}"
proof -
  have "{..n} = insert 0 (Suc ` {0..<n})"
    using lessThan_Suc_eq_insert_0 [of n] by (simp add: lessThan_Suc_atMost atLeast0LessThan)
  then have "f ` {..n} = insert (f 0) (f ` Suc ` {0..<n})" by (simp only: image_insert)
  then show ?thesis by (simp add: image_image del: image_Suc_atLeastLessThan)
qed

lemma recover_one_total:
  assumes wf: "wire_fixed ms" and ok: "db_ok db" and c: "closable db r" and fresh: "fresh_ids u 0 db"
  shows "\<exists>e db' s k. recover_one ms u t (r, reason) db = Inr (e, db') \<and> is_terminal s \<and>
    closed_to (rn_id r) r s k ((\<lambda>j. ''event-'' @ u j) ` {..pending_of (rn_id r) db}) db db'"
proof -
  let ?i = "rn_id r" and ?n = "pending_of (rn_id r) db"
  from c have r: "find_run ?i db = Some r" "recoverable (rn_status r)" "rn_last_seq r + int ?n < int i64_max"
    by (simp_all add: closable_def)
  note st = recoverable_cases [OF ok r(1)]
  obtain es where es: "read_rows (run_events ?i db) = Inr es" using logged_total [OF ok r(1)] by (auto simp: logged_def)
  then have n: "?n = length (pending_calls es)" by (simp add: pending_of_def)
  have fresh1: "fresh_ids (\<lambda>i. u (i + 1)) 0 db" using fresh unfolding fresh_ids_def inj_def
    by (metis (no_types, lifting) Suc_eq_plus1 nat.inject le0)
  have room1: "rn_last_seq r + int (length (pending_calls es)) \<le> int i64_max" using r(3) n by simp
  from interruption_loop_total [OF wf ok r(1) _ room1 fresh1, of "\<lambda>i. t (i + 2)" "''run_interrupted''" "[]"] st r(2)
  obtain evs db1 where 1: "efold (append_interruption ms (\<lambda>i. u (i + 1)) (\<lambda>i. t (i + 2)) (rn_actor_id r)
      (rn_session_id r) ?i ''run_interrupted'') (enumerate 0 (pending_calls es)) ([], db) = Inr (evs, db1)"
    and cl: "closed_to ?i r (rn_status r) (int ?n) ((\<lambda>j. ''event-'' @ u (j + 1)) ` {0..<0 + ?n}) db db1"
    unfolding n by blast
  from cl obtain r1 where r1: "find_run ?i db1 = Some r1" "rn_status r1 = rn_status r"
    "rn_last_seq r1 = rn_last_seq r + int ?n" "rn_session_id r1 = rn_session_id r" "rn_actor_id r1 = rn_actor_id r"
    and ok1: "db_ok db1" and ids: "event_ids db1 = event_ids db \<union> (\<lambda>j. ''event-'' @ u (j + 1)) ` {0..<0 + ?n}"
    by (auto simp: closed_to_def)
  let ?e = "plain_envelope (u 0) (rn_session_id r) ?i (as_u64 (rn_last_seq r1) + 1) (t 0) core_actor
      ''cool-core-recovery'' (recovery_event reason)"
  define s where "s = (if reason = None then Failed else Cancelled)"
  have "event_status (recovery_event reason) = Some s" "writable (recovery_event reason)"
    by (cases reason; simp add: recovery_event_def s_def)+
  moreover have "''event-'' @ u 0 \<notin> event_ids db1" using fresh by (auto simp: ids fresh_ids_def inj_eq)
  moreover have "transition_allowed (rn_status r1) s" using st(2) [OF r(2)] by (auto simp: r1 s_def transition_allowed_def)
  ultimately have "\<exists>db2. append_event_tx ms (t 1) (rn_actor_id r1) ?e db1 = Inr db2 \<and>
      closed_to ?i r1 s 1 {ee_event_id ?e} db1 db2"
    by (intro append_closed_to [OF wf ok1 r1(1)]) (use r1 r st in \<open>simp_all add: unwrap_or_def\<close>)
  then obtain db2 where 2: "append_event_tx ms (t 1) (rn_actor_id r) ?e db1 = Inr db2"
    and cl2: "closed_to ?i r1 s 1 {''event-'' @ u 0} db1 db2" by (auto simp: r1)
  have "recover_one ms u t (r, reason) db = Inr (?e, db2)"
    using 1 2 r1(1,5) es
    by (simp add: recover_one_def append_interrupted_tool_failures_def run_rows(5) [OF ok r(1)] require_run_Inr
        require_run_def)
  moreover have "((\<lambda>j. ''event-'' @ u (j + 1)) ` {0..<0 + ?n}) \<union> {''event-'' @ u 0} = (\<lambda>j. ''event-'' @ u j) ` {..?n}"
    by (rule shift_image [of "\<lambda>j. ''event-'' @ u j"])
  then have "closed_to ?i r s (int ?n + 1) ((\<lambda>j. ''event-'' @ u j) ` {..?n}) db db2"
    using closed_to_trans [OF cl r1(1) cl2] by metis
  moreover have "is_terminal s" by (simp add: s_def is_terminal_def)
  ultimately show ?thesis by blast
qed


definition fresh_supply :: "(nat \<Rightarrow> nat \<Rightarrow> string) \<Rightarrow> nat \<Rightarrow> db \<Rightarrow> bool" where
  "fresh_supply u n db \<longleftrightarrow> (\<forall>m i m' i'. u m i = u m' i' \<longrightarrow> m = m' \<and> i = i') \<and>
     (\<forall>m \<ge> n. \<forall>i. ''event-'' @ u m i \<notin> event_ids db)"

lemma pending_of_cong: "run_events i db' = run_events i db \<Longrightarrow> pending_of i db' = pending_of i db"
  by (simp add: pending_of_def)

lemma recover_each_total:
  assumes wf: "wire_fixed ms"
  shows "db_ok db \<Longrightarrow> distinct (map (\<lambda>row. rn_id (fst row)) rows) \<Longrightarrow> \<forall>row \<in> set rows. closable db (fst row) \<Longrightarrow>
    fresh_supply u n db \<Longrightarrow>
    \<exists>es db'. recover_each ms u t n rows db = (Inr es, db') \<and> length es = length rows \<and> db_ok db' \<and>
      map rn_id (db_runs db') = map rn_id (db_runs db) \<and>
      (\<forall>row \<in> set rows. \<exists>r. find_run (rn_id (fst row)) db' = Some r \<and> is_terminal (rn_status r)) \<and>
      (\<forall>j. j \<notin> (\<lambda>row. rn_id (fst row)) ` set rows \<longrightarrow> find_run j db' = find_run j db)"
proof (induction rows arbitrary: n db)
  case (Cons row rows)
  obtain r reason where row: "row = (r, reason)" by (cases row)
  have "fresh_ids (u n) 0 db" using Cons.prems(4) unfolding fresh_supply_def fresh_ids_def inj_def by blast
  with Cons.prems(3) row obtain e db1 s k where 1: "recover_one ms (u n) (t n) (r, reason) db = Inr (e, db1)" and s: "is_terminal s"
    and cl: "closed_to (rn_id r) r s k ((\<lambda>j. ''event-'' @ u n j) ` {..pending_of (rn_id r) db}) db db1"
    using recover_one_total [OF wf Cons.prems(1) _ \<open>fresh_ids (u n) 0 db\<close>, of r "t n" reason] by auto
  from cl have ok1: "db_ok db1" and ids: "map rn_id (db_runs db1) = map rn_id (db_runs db)"
    and ev: "event_ids db1 = event_ids db \<union> (\<lambda>j. ''event-'' @ u n j) ` {..pending_of (rn_id r) db}"
    and others: "j \<noteq> rn_id r \<Longrightarrow> find_run j db1 = find_run j db \<and> run_events j db1 = run_events j db" for j
    by (auto simp: closed_to_def)
  from cl s obtain r1 where r1: "find_run (rn_id r) db1 = Some r1" "is_terminal (rn_status r1)"
    by (auto simp: closed_to_def)
  have cl1: "\<forall>row \<in> set rows. closable db1 (fst row)"
  proof
    fix x assume x: "x \<in> set rows"
    with Cons.prems(2) row have "rn_id (fst x) \<noteq> rn_id r" by (auto intro: rev_image_eqI)
    from others [OF this] pending_of_cong [of "rn_id (fst x)" db1 db] Cons.prems(3) x
    show "closable db1 (fst x)" by (simp add: closable_def)
  qed
  have distinct_ids: "u m i = u m' i' \<Longrightarrow> m = m'" and new: "n \<le> m \<Longrightarrow> ''event-'' @ u m i \<notin> event_ids db"
    for m i m' i'
    using Cons.prems(4) unfolding fresh_supply_def by blast+
  have fresh1: "fresh_supply u (Suc n) db1"
    using Cons.prems(4) distinct_ids [of _ _ n] new by (fastforce simp: fresh_supply_def ev)
  have dist: "distinct (map (\<lambda>row. rn_id (fst row)) rows)" using Cons.prems(2) by simp
  from Cons.IH [OF ok1 dist cl1 fresh1] obtain es db2 where
    2: "recover_each ms u t (Suc n) rows db1 = (Inr es, db2)" "length es = length rows" "db_ok db2"
      "map rn_id (db_runs db2) = map rn_id (db_runs db1)"
    and done': "\<forall>row \<in> set rows. \<exists>r. find_run (rn_id (fst row)) db2 = Some r \<and> is_terminal (rn_status r)"
    and rest: "\<And>j. j \<notin> (\<lambda>row. rn_id (fst row)) ` set rows \<Longrightarrow> find_run j db2 = find_run j db1"
    by blast
  have "rn_id r \<notin> (\<lambda>row. rn_id (fst row)) ` set rows" using Cons.prems(2) row by auto
  from rest [OF this] r1 have "find_run (rn_id r) db2 = Some r1" by simp
  moreover have "recover_each ms u t n (row # rows) db = (Inr (e # es), db2)" using 1 2(1) by (simp add: row)
  ultimately show ?case
    using 2(2-4) ids done' rest others r1(2) by (intro exI [of _ "e # es"] exI [of _ db2]) (auto simp: row)
qed simp

lemma incomplete_runs_rows:
  assumes "keys_ok db"
  shows "distinct (map (\<lambda>row. rn_id (fst row)) (incomplete_runs db))"
    "set (map fst (incomplete_runs db)) = {r \<in> set (db_runs db). recoverable (rn_status r)}"
proof -
  have "distinct (map rn_id (filter (\<lambda>r. recoverable (rn_status r)) (db_runs db)))"
    using assms by (simp add: keys_ok_def distinct_map_filter)
  then have "distinct (map rn_id (sort_key rn_id (filter (\<lambda>r. recoverable (rn_status r)) (db_runs db))))"
    by (simp add: distinct_map)
  then show "distinct (map (\<lambda>row. rn_id (fst row)) (incomplete_runs db))"
    by (simp add: incomplete_runs_def comp_def)
  show "set (map fst (incomplete_runs db)) = {r \<in> set (db_runs db). recoverable (rn_status r)}"
    by (auto simp: incomplete_runs_def comp_def image_image)
qed

end
