(* ===== verification/State_Frame.thy ===== *)
theory State_Frame
  imports State_Links State_Approvals Run_Recovery
begin

text \<open>
  Every operation of the store keeps its invariant. \<open>quiet\<close> is the contract of what
  leaves tickets, audit, cancellations and links alone: from a good database it leads to a
  good, grown one with masked documents. It is a preorder, so operations that are made of such
  statements satisfy it by composition (locale \<open>extension\<close>).
\<close>

section \<open>Quiet steps\<close>

definition quiet :: "(string \<Rightarrow> string) \<Rightarrow> db \<Rightarrow> db \<Rightarrow> bool" where
  "quiet ms db db' \<longleftrightarrow> (db_ok db \<longrightarrow> db_ok db' \<and> db_grows db db' \<and> (log_masked ms db \<longrightarrow> log_masked ms db') \<and>
     db_approvals db' = db_approvals db \<and> db_audit db' = db_audit db \<and> db_cancels db' = db_cancels db \<and>
     db_links db' = db_links db)"

lemma quiet_refl [simp]: "quiet ms db db"
  by (simp add: quiet_def)

lemma quiet_trans: "quiet ms a b \<Longrightarrow> quiet ms b c \<Longrightarrow> quiet ms a c"
  unfolding quiet_def using db_grows_trans by auto

interpretation quiet: extension "quiet ms" for ms
  by unfold_locales (auto intro: quiet_trans)

named_theorems quiet_intros \<open>statements that are quiet\<close>

lemma quiet_append [quiet_intros]:
  assumes "wire_fixed ms" "mask_idem ms" "append_event_tx ms t owner e db = Inr db'"
  shows "quiet ms db db'"
  unfolding quiet_def
  using append_db_ok [OF assms(1) _ assms(3)] append_grows [OF _ assms(3)] append_log_masked [OF assms(1,2) _ assms(3)]
    append_event_tx_keeps [OF assms(3)]
  by (simp add: db_ok_def)

lemma quiet_idempotency [quiet_intros]:
  assumes "insert_idempotency a sc k f j db = Inr db'"
  shows "quiet ms db db'"
  unfolding quiet_def
  using insert_others_db_ok(1) [OF assms] insert_grows(1) [OF assms] insert_idempotency_keeps [OF assms]
  by (auto simp: log_masked_def)

lemma quiet_insert_session [quiet_intros]:
  assumes "insert_session s db = Inr db'" "sn_active_run_id s = None"
  shows "quiet ms db db'"
proof -
  from assms(1) have "db' = db\<lparr>db_sessions := db_sessions db @ [s]\<rparr>"
    by (auto simp: insert_session_def split: if_splits)
  then show ?thesis
    using insert_session_db_ok [OF assms(1) _ assms(2)] insert_grows(6) [OF assms(1)] by (simp add: quiet_def log_masked_def)
qed

lemma insert_session_find:
  assumes "insert_session s db = Inr db'"
  shows "find_session (sn_id s) db' = Some s"
proof -
  from assms have "db' = db\<lparr>db_sessions := db_sessions db @ [s]\<rparr>" "sn_id s \<notin> sn_id ` set (db_sessions db)"
    by (auto simp: insert_session_def split: if_splits)
  moreover from this(2) have "find (\<lambda>x. sn_id x = sn_id s) (db_sessions db) = None"
    unfolding find_None_all by (metis imageI)
  ultimately show ?thesis by (simp add: find_session_def find_append_eq)
qed

lemma quiet_insert_run:
  assumes "insert_run (new_run run session actor t p) db = Inr db'" "find_session session db = Some s" "sn_actor_id s = actor"
  shows "quiet ms db db'"
proof -
  from assms(1) have "db' = db\<lparr>db_runs := db_runs db @ [new_run run session actor t p]\<rparr>" by (simp add: insert_run_Inr)
  moreover have "db_ok db \<Longrightarrow> db_ok db'"
    by (rule insert_run_db_ok [OF assms(1), where s = s]) (use assms(2,3) in simp_all)
  ultimately show ?thesis using insert_grows(7) [OF assms(1)] by (simp add: quiet_def log_masked_def)
qed

lemma quiet_open_run:
  assumes "insert_run (new_run run session actor t None) db = Inr db1" "set_active_run session run db1 = Inr db2"
    and "find_session session db = Some s" "sn_actor_id s = actor"
  shows "quiet ms db db2"
proof -
  have "find_run run db1 = Some (new_run run session actor t None)" using insert_run_find(1) [OF assms(1)] by simp
  from set_active_run_db_ok [OF assms(2) _ this] have "db_ok db1 \<Longrightarrow> db_ok db2" by simp
  moreover have "db_events db2 = db_events db1 \<and> db_approvals db2 = db_approvals db1 \<and> db_audit db2 = db_audit db1 \<and>
      db_cancels db2 = db_cancels db1 \<and> db_links db2 = db_links db1"
    using assms(2) by (auto simp: set_active_run_def update_session_def split: if_splits)
  ultimately have "quiet ms db1 db2" using set_active_run_grows [OF assms(2)] by (simp add: quiet_def log_masked_def)
  with quiet_insert_run [OF assms(1,3,4)] show ?thesis by (rule quiet_trans)
qed

lemma quiet_append_all:
  assumes "append_all ms owner es db = Inr db'" "wire_fixed ms" "mask_idem ms"
  shows "quiet ms db db'"
  by (rule quiet.efold_le [OF assms(1) [unfolded append_all_def]]) (use quiet_append [OF assms(2,3)] in auto)

section \<open>The operations on sessions and runs\<close>

lemma quiet_interruption:
  assumes "append_interrupted_tool_failures ms u t owner session run code db = Inr (es, db')" "wire_fixed ms" "mask_idem ms"
  shows "quiet ms db db'"
proof (rule interruption_keeps [OF assms(1), where p = "quiet ms db"])
  fix t' e x y assume "quiet ms db x" "append_event_tx ms t' owner e x = Inr y"
  then show "quiet ms db y" using quiet_append [OF assms(2,3)] quiet_trans by blast
qed simp

lemma quiet_create_session:
  assumes "create_session u t actor key fp title project db = Inr (out, db')"
  shows "quiet ms db db'"
proof -
  from assms consider "db' = db"
    | row j db1 where "insert_session row db = Inr db1" "sn_active_run_id row = None"
      "insert_idempotency actor ''session.create'' key fp j db1 = Inr db'"
    unfolding create_session_def Let_def by (auto simp: res_simps split: option.splits)
  then show ?thesis
    by cases (use quiet_insert_session quiet_idempotency quiet_trans in \<open>simp, blast\<close>)
qed

lemma quiet_start_run:
  assumes "start_run u t actor key fp session db = Inr (out, db')"
  shows "quiet ms db db'"
proof (cases "lookup_idempotency d_string actor ''session.prompt'' key fp db = Inr None")
  case False
  with assms have "db' = db" by (auto simp: start_run_def res_simps split: option.splits)
  then show ?thesis by simp
next
  case True
  from start_run_new [OF assms True] obtain s db1 db2 where
    s: "find_session session db = Some s" "sn_actor_id s = actor"
    and ins: "insert_run (new_run (''run-'' @ u) session actor t None) db = Inr db1"
    and act: "set_active_run session (''run-'' @ u) db1 = Inr db2"
    and idem: "insert_idempotency actor ''session.prompt'' key fp (JString (''run-'' @ u)) db2 = Inr db'" by metis
  show ?thesis by (rule quiet_trans [OF quiet_open_run [OF ins act s] quiet_idempotency [OF idem]])
qed

lemma quiet_start_auxiliary_run:
  assumes "start_auxiliary_run u t actor session purpose db = Inr (run, db')"
  shows "quiet ms db db'"
proof -
  from assms obtain s where s: "owned_session session actor db = Inr s"
    and ins: "insert_run (new_run run session actor t (Some purpose)) db = Inr db'"
    by (auto simp: start_auxiliary_run_def Let_def res_simps)
  show ?thesis by (rule quiet_insert_run [OF ins]) (use owned_session_find [OF s] in auto)
qed

lemma quiet_steer_run:
  assumes run: "steer_run ms u t actor key fp run_id content ext db = Inr (out, db')" and "wire_fixed ms" "mask_idem ms"
  shows "quiet ms db db'"
proof -
  from run consider "db' = db"
    | e t' db1 j where "append_event_tx ms t' actor e db = Inr db1" "insert_idempotency actor ''session.steer'' key fp j db1 = Inr db'"
    unfolding steer_run_def Let_def by (auto simp: res_simps split: option.splits)
  then show ?thesis
    by cases (use quiet_append [OF assms(2,3)] quiet_idempotency quiet_trans in \<open>simp, blast\<close>)
qed

lemma quiet_append_event:
  "append_event ms t owner e db = Inr db' \<Longrightarrow> wire_fixed ms \<Longrightarrow> mask_idem ms \<Longrightarrow> quiet ms db db'"
  "append_event_auto ms t owner e db = Inr (e', db') \<Longrightarrow> wire_fixed ms \<Longrightarrow> mask_idem ms \<Longrightarrow> quiet ms db db'"
  unfolding append_event_def append_event_auto_def Let_def by (auto simp: res_simps intro: quiet_append)

lemma quiet_recover_one:
  assumes run: "recover_one ms u t row db = Inr (e, db')" and wf: "wire_fixed ms" "mask_idem ms"
  shows "quiet ms db db'"
proof -
  from run obtain es db1 t' owner where
    1: "append_interrupted_tool_failures ms (\<lambda>i. u (i + 1)) (\<lambda>i. t (i + 2)) (rn_actor_id (fst row))
          (rn_session_id (fst row)) (rn_id (fst row)) ''run_interrupted'' db = Inr (es, db1)"
    and 2: "append_event_tx ms t' owner e db1 = Inr db'"
    by (auto simp: recover_one_def Let_def res_simps)
  show ?thesis by (rule quiet_trans [OF quiet_interruption [OF 1 wf] quiet_append [OF wf 2]])
qed

lemma quiet_recover_each:
  "recover_each ms u t n rows db = (res, db') \<Longrightarrow> wire_fixed ms \<Longrightarrow> mask_idem ms \<Longrightarrow> quiet ms db db'"
proof (induction rows arbitrary: n db res db')
  case (Cons row rows)
  show ?case
  proof (cases "recover_one ms (u n) (t n) row db")
    case (Inl e)
    with Cons.prems show ?thesis by simp
  next
    case (Inr p)
    obtain e db1 where p: "p = (e, db1)" by (cases p)
    obtain res2 db2 where rest: "recover_each ms u t (n + 1) rows db1 = (res2, db2)" by (cases "recover_each ms u t (n + 1) rows db1")
    from Cons.prems(1) Inr p rest have "db' = db2" by (auto split: sum.splits)
    with Cons.IH [OF rest Cons.prems(2,3)] quiet_recover_one [OF Inr [unfolded p] Cons.prems(2,3)] quiet_trans
    show ?thesis by blast
  qed
qed simp

section \<open>Fork, rewind and import\<close>

lemma quiet_copy_events:
  assumes "copy_events ms t owner copied es db = Inr db'" "wire_fixed ms" "mask_idem ms"
  shows "quiet ms db db'"
proof -
  from assms(1) obtain st where st: "efold (copy_step ms t owner copied) (enumerate 0 es)
      \<lparr>cs_db = db, cs_boundary = 0, cs_inserted = []\<rparr> = Inr st" "db' = cs_db st"
    by (auto simp: copy_events_def res_simps)
  have "quiet ms db (cs_db st)"
  proof (rule efold_invariant [OF st(1), where P = "\<lambda>s. quiet ms db (cs_db s)"])
    fix x s s' assume q: "quiet ms db (cs_db s)" and step: "copy_step ms t owner copied x s = Inr s'"
    from step obtain e where "append_event_tx ms (t (fst x)) owner e (cs_db s) = Inr (cs_db s')"
      by (auto simp: copy_step_def Let_def res_simps split: if_splits)
    from quiet_trans [OF q quiet_append [OF assms(2,3) this]] show "quiet ms db (cs_db s')" .
  qed simp
  with st(2) show ?thesis by simp
qed

lemma fork_session_new:
  assumes "fork_session ms u t actor key fp source title c q db = Inr (out, db')"
    and "lookup_idempotency d_string actor ''session.fork'' key fp db = Inr None"
  obtains s row db1 db2 db3 copied db4 where
    "find_session source db = Some s" "sn_actor_id s = actor" "insert_session row db = Inr db1"
    "sn_id row = ''session-'' @ u 0" "sn_actor_id row = actor" "sn_active_run_id row = None"
    "insert_run (new_run (''run-'' @ u 1) (''session-'' @ u 0) actor (t 0) None) db1 = Inr db2"
    "set_active_run (''session-'' @ u 0) (''run-'' @ u 1) db2 = Inr db3" "fork_copies source c q db3 = Inr copied"
    "copy_events ms (\<lambda>i. t (i + 2)) actor copied (fork_events u t (''session-'' @ u 0) (''run-'' @ u 1) copied) db3 = Inr db4"
    "insert_idempotency actor ''session.fork'' key fp (JString (''session-'' @ u 0)) db4 = Inr db'"
    "out = \<lparr>out_value = ''session-'' @ u 0, out_created = True\<rparr>"
proof -
  from assms obtain s db1 db2 db3 copied db4 where 1: "owned_session source actor db = Inr s"
    "insert_session \<lparr>sn_id = ''session-'' @ u 0, sn_actor_id = actor, sn_title = or_else title (sn_title s),
       sn_project_key = sn_project_key s, sn_active_run_id = None, sn_created_at = t 0\<rparr> db = Inr db1"
    "insert_run (new_run (''run-'' @ u 1) (''session-'' @ u 0) actor (t 0) None) db1 = Inr db2"
    "set_active_run (''session-'' @ u 0) (''run-'' @ u 1) db2 = Inr db3" "fork_copies source c q db3 = Inr copied"
    "copy_events ms (\<lambda>i. t (i + 2)) actor copied (fork_events u t (''session-'' @ u 0) (''run-'' @ u 1) copied) db3 = Inr db4"
    "insert_idempotency actor ''session.fork'' key fp (JString (''session-'' @ u 0)) db4 = Inr db'"
    "out = \<lparr>out_value = ''session-'' @ u 0, out_created = True\<rparr>"
    unfolding fork_session_def Let_def by (simp add: res_simps) blast
  from 1(1) have "find_session source db = Some s" "sn_actor_id s = actor" by (simp_all add: owned_session_Inr)
  from that [OF this 1(2) _ _ _ 1(3-8)] show thesis by simp
qed

lemma quiet_fork_session:
  assumes run: "fork_session ms u t actor key fp source title c q db = Inr (out, db')" and wf: "wire_fixed ms" "mask_idem ms"
  shows "quiet ms db db'"
proof (cases "lookup_idempotency d_string actor ''session.fork'' key fp db = Inr None")
  case False
  with run have "db' = db" by (auto simp: fork_session_def res_simps split: option.splits)
  then show ?thesis by simp
next
  case True
  from run True show ?thesis
  proof (rule fork_session_new)
    fix s row db1 db2 db3 copied db4
    assume 1: "insert_session row db = Inr db1" "sn_id row = ''session-'' @ u 0" "sn_actor_id row = actor" "sn_active_run_id row = None"
      and 2: "insert_run (new_run (''run-'' @ u 1) (''session-'' @ u 0) actor (t 0) None) db1 = Inr db2"
        "set_active_run (''session-'' @ u 0) (''run-'' @ u 1) db2 = Inr db3"
      and 3: "copy_events ms (\<lambda>i. t (i + 2)) actor copied (fork_events u t (''session-'' @ u 0) (''run-'' @ u 1) copied) db3 = Inr db4"
      and 4: "insert_idempotency actor ''session.fork'' key fp (JString (''session-'' @ u 0)) db4 = Inr db'"
    have "find_session (''session-'' @ u 0) db1 = Some row" using insert_session_find [OF 1(1)] 1(2) by simp
    from quiet_open_run [OF 2 this 1(3)] quiet_insert_session [OF 1(1,4)] quiet_copy_events [OF 3 wf] quiet_idempotency [OF 4]
    show ?thesis using quiet_trans by blast
  qed
qed


lemma quiet_rewind_row:
  assumes "find_run (rn_id r) db = Some r'" "is_terminal (rn_status r')"
  shows "quiet ms db (rewind_run_row t r db)"
proof -
  have "db_ok db \<Longrightarrow> db_ok (rewind_run_row t r db)"
    by (rule rewound_db_ok [OF _ assms]) (auto simp: rewind_run_row_def)
  moreover have "db_ok db \<Longrightarrow> db_grows db (rewind_run_row t r db)"
    unfolding rewind_run_row_def by (rule rewound_grows [OF _ assms]) (simp add: db_ok_def)
  ultimately show ?thesis by (simp add: quiet_def log_masked_def rewind_run_row_def update_run_def)
qed

lemma quiet_rewind_rows:
  "db_ok db \<Longrightarrow> \<forall>r \<in> set rs. \<exists>r'. find_run (rn_id r) db = Some r' \<and> is_terminal (rn_status r') \<Longrightarrow>
   quiet ms db (foldl (\<lambda>db r. rewind_run_row t r db) db rs)"
proof (induction rs arbitrary: db)
  case (Cons r rs)
  let ?db = "rewind_run_row t r db"
  from Cons.prems(2) obtain r' where "find_run (rn_id r) db = Some r'" "is_terminal (rn_status r')" by auto
  then have q: "quiet ms db ?db" by (rule quiet_rewind_row)
  with Cons.prems(1) have ok: "db_ok ?db" and grow: "db_grows db ?db" by (simp_all add: quiet_def)
  have "\<forall>x \<in> set rs. \<exists>r'. find_run (rn_id x) ?db = Some r' \<and> is_terminal (rn_status r')"
  proof
    fix x assume "x \<in> set rs"
    with Cons.prems(2) obtain r1 where "find_run (rn_id x) db = Some r1" "is_terminal (rn_status r1)" by auto
    with find_run_grows [OF grow] show "\<exists>r'. find_run (rn_id x) ?db = Some r' \<and> is_terminal (rn_status r')"
      by (fastforce simp: run_kept_def)
  qed
  from Cons.IH [OF ok this] q show ?case by (auto intro: quiet_trans)
qed simp

lemma rewind_rows_sessions [simp]:
  "db_sessions (foldl (\<lambda>db r. rewind_run_row t r db) db rs) = db_sessions db"
  by (induction rs arbitrary: db) (simp_all add: rewind_run_row_def update_run_def)

lemma rewind_session_new:
  assumes "rewind_session ms u t actor key fp session c reason db = Inr (out, db')"
    and "lookup_idempotency d_rewind_outcome actor ''session.rewind'' key fp db = Inr None"
  obtains s runs copied discarded db1 db2 db3 j where
    "find_session session db = Some s" "sn_actor_id s = actor" "runs = filter (visible session) (db_runs db)"
    "\<forall>r \<in> set runs. is_terminal (rn_status r)"
    "history_copies id (filter (\<lambda>x. fst x \<le> min (unat c) i64_max) (joined (visible session) db)) = Inr copied"
    "insert_run (new_run (''run-'' @ u 0) session actor (t 0) None)
       (foldl (\<lambda>db r. rewind_run_row (t 0) r db) db runs) = Inr db1"
    "set_active_run session (''run-'' @ u 0) db1 = Inr db2"
    "copy_events ms (\<lambda>i. t (i + 3)) actor copied (rewind_events u t session (''run-'' @ u 0) c reason copied) db2 = Inr db3"
    "insert_idempotency actor ''session.rewind'' key fp j db3 = Inr db'"
    "rw_run_id (out_value out) = ''run-'' @ u 0" "rw_rewound_run_ids (out_value out) = map rn_id runs"
    "read_rows (map snd (filter (\<lambda>x. min (unat c) i64_max < fst x) (by_rowid (visible session) db))) = Inr discarded"
    "rw_discarded_paths (out_value out) = discarded_of discarded"
    "rw_checkpoint_refs (out_value out) = concat (map checkpoint_ext discarded)" "out_created out"
proof -
  let ?runs = "filter (visible session) (db_runs db)"
  let ?beyond = "filter (\<lambda>x. min (unat c) i64_max < fst x) (by_rowid (visible session) db)"
  from assms obtain s copied discarded db1 db2 db3 where 1: "owned_session session actor db = Inr s"
    "list_all (\<lambda>r. is_terminal (rn_status r)) ?runs"
    "history_copies id (filter (\<lambda>x. fst x \<le> min (unat c) i64_max) (joined (visible session) db)) = Inr copied"
    "read_rows (map snd ?beyond) = Inr discarded"
    "insert_run (new_run (''run-'' @ u 0) session actor (t 0) None)
       (foldl (\<lambda>db r. rewind_run_row (t 0) r db) db ?runs) = Inr db1"
    "set_active_run session (''run-'' @ u 0) db1 = Inr db2"
    "copy_events ms (\<lambda>i. t (i + 3)) actor copied (rewind_events u t session (''run-'' @ u 0) c reason copied) db2 = Inr db3"
    and 2: "\<exists>j. insert_idempotency actor ''session.rewind'' key fp j db3 = Inr db'"
    "rw_run_id (out_value out) = ''run-'' @ u 0" "rw_rewound_run_ids (out_value out) = map rn_id ?runs"
    "rw_discarded_paths (out_value out) = discarded_of discarded"
    "rw_checkpoint_refs (out_value out) = concat (map checkpoint_ext discarded)" "out_created out"
    unfolding rewind_session_def Let_def by (simp add: res_simps, elim exE conjE) fastforce
  from 2(1) obtain j where j: "insert_idempotency actor ''session.rewind'' key fp j db3 = Inr db'" by blast
  have "find_session session db = Some s" "sn_actor_id s = actor" using 1(1) by (simp_all add: owned_session_Inr)
  moreover have "\<forall>r \<in> set ?runs. is_terminal (rn_status r)" using 1(2) by (simp add: list_all_iff)
  ultimately show thesis using that [OF _ _ refl _ 1(3) 1(5-7) j 2(2,3) 1(4) 2(4-6)] by blast
qed

lemma quiet_rewind_session:
  assumes run: "rewind_session ms u t actor key fp session c reason db = Inr (out, db')" and wf: "wire_fixed ms" "mask_idem ms"
  shows "quiet ms db db'"
proof (cases "lookup_idempotency d_rewind_outcome actor ''session.rewind'' key fp db = Inr None")
  case False
  with run have "db' = db" by (auto simp: rewind_session_def res_simps split: option.splits)
  then show ?thesis by simp
next
  case True
  from run True show ?thesis
  proof (rule rewind_session_new)
    fix s runs copied db1 db2 db3 j
    let ?db = "foldl (\<lambda>db r. rewind_run_row (t 0) r db) db runs"
    assume s: "find_session session db = Some s" "sn_actor_id s = actor"
      and runs: "runs = filter (visible session) (db_runs db)" "\<forall>r \<in> set runs. is_terminal (rn_status r)"
      and 2: "insert_run (new_run (''run-'' @ u 0) session actor (t 0) None) ?db = Inr db1"
        "set_active_run session (''run-'' @ u 0) db1 = Inr db2"
      and 3: "copy_events ms (\<lambda>i. t (i + 3)) actor copied (rewind_events u t session (''run-'' @ u 0) c reason copied) db2 = Inr db3"
      and 4: "insert_idempotency actor ''session.rewind'' key fp j db3 = Inr db'"
    have "find_session session ?db = Some s" using s(1) by (simp add: find_session_def)
    note rest = quiet_trans [OF quiet_open_run [OF 2 this s(2)] quiet_trans [OF quiet_copy_events [OF 3 wf] quiet_idempotency [OF 4]]]
    have "quiet ms db ?db" if ok: "db_ok db"
    proof (rule quiet_rewind_rows [OF ok])
      show "\<forall>r \<in> set runs. \<exists>r'. find_run (rn_id r) db = Some r' \<and> is_terminal (rn_status r')"
      proof
        fix r assume r: "r \<in> set runs"
        then have "find_run (rn_id r) db = Some r" using find_run_eq ok runs(1) by (simp add: db_ok_def)
        with runs(2) r show "\<exists>r'. find_run (rn_id r) db = Some r' \<and> is_terminal (rn_status r')" by blast
      qed
    qed
    with quiet_trans [OF _ rest] have "db_ok db \<Longrightarrow> quiet ms db db'" by blast
    then show "quiet ms db db'" by (simp add: quiet_def)
  qed
qed

end
