(* ===== verification/State_Budgets.thy ===== *)
theory State_Budgets
  imports State_Runs
begin

text \<open>
  Budgets, workers and artifact references of the durable store,
  \<open>crates/cool-state/src/lib.rs\<close>. Each function is one transaction; a budget window is
  named by its actor and its key.
\<close>

section \<open>Budgets\<close>

record budget_delta =
  bd_tokens :: "64 word"
  bd_cost_microusd :: "64 word option"
  bd_iterations :: "64 word"
  bd_proactive_actions :: "64 word"

definition no_limits :: budget_limits where
  "no_limits = \<lparr>bl_tokens = None, bl_cost_microusd = None, bl_iterations = None, bl_proactive_actions = None\<rparr>"

definition zero_budget :: budget_snapshot where
  "zero_budget = \<lparr>bs_tokens = 0, bs_cost_microusd = 0, bs_iterations = 0, bs_proactive_actions = 0, bs_revision = 0\<rparr>"

definition set_budget_limits :: "string \<Rightarrow> string \<Rightarrow> budget_limits \<Rightarrow> db \<Rightarrow> db" where
  "set_budget_limits actor window limits db = db\<lparr>db_budgets := (db_budgets db)((actor, window) \<mapsto> limits)\<rparr>"

definition limits_of :: "string \<Rightarrow> string \<Rightarrow> db \<Rightarrow> budget_limits" where
  "limits_of actor window db = unwrap_or no_limits (db_budgets db (actor, window))"

definition snapshot_of_counters :: "counter_row \<Rightarrow> budget_snapshot" where
  "snapshot_of_counters c = \<lparr>bs_tokens = as_u64 (bc_tokens c), bs_cost_microusd = as_u64 (bc_cost_microusd c),
     bs_iterations = as_u64 (bc_iterations c), bs_proactive_actions = as_u64 (bc_proactive_actions c),
     bs_revision = as_u64 (bc_revision c)\<rparr>"

definition spent_of :: "string \<Rightarrow> string \<Rightarrow> db \<Rightarrow> budget_snapshot" where
  "spent_of actor window db = unwrap_or zero_budget (map_option snapshot_of_counters (db_counters db (actor, window)))"

definition counters_of_snapshot :: "budget_snapshot \<Rightarrow> counter_row" where
  "counters_of_snapshot s = \<lparr>bc_tokens = as_i64 (bs_tokens s), bc_cost_microusd = as_i64 (bs_cost_microusd s),
     bc_iterations = as_i64 (bs_iterations s), bc_proactive_actions = as_i64 (bs_proactive_actions s),
     bc_revision = as_i64 (bs_revision s)\<rparr>"

definition exceeds :: "64 word \<Rightarrow> 64 word option \<Rightarrow> bool" where
  "exceeds value limit = (case limit of None \<Rightarrow> False | Some l \<Rightarrow> l < value)"

definition checked_add :: "64 word \<Rightarrow> 64 word \<Rightarrow> 64 word option" where
  "checked_add a b = (if unat a + unat b \<le> u64_max then Some (a + b) else None)"

definition next_budget :: "budget_snapshot \<Rightarrow> budget_delta \<Rightarrow> (store_error, budget_snapshot) result" where
  "next_budget current delta =
     ebind (ok_or (Corrupt (CounterOverflow ''token'')) (checked_add (bs_tokens current) (bd_tokens delta))) (\<lambda>tokens.
     ebind (ok_or (Corrupt (CounterOverflow ''cost''))
              (checked_add (bs_cost_microusd current) (unwrap_or 0 (bd_cost_microusd delta)))) (\<lambda>cost.
     ebind (ok_or (Corrupt (CounterOverflow ''iteration''))
              (checked_add (bs_iterations current) (bd_iterations delta))) (\<lambda>iterations.
     ebind (ok_or (Corrupt (CounterOverflow ''proactive''))
              (checked_add (bs_proactive_actions current) (bd_proactive_actions delta))) (\<lambda>proactive.
     Inr \<lparr>bs_tokens = tokens, bs_cost_microusd = cost, bs_iterations = iterations,
       bs_proactive_actions = proactive, bs_revision = bs_revision current + 1\<rparr>))))"

definition over_limit :: "budget_limits \<Rightarrow> budget_delta \<Rightarrow> budget_snapshot \<Rightarrow> bool" where
  "over_limit limits delta s \<longleftrightarrow>
     (bl_cost_microusd limits \<noteq> None \<and> bd_cost_microusd delta = None) \<or>
     exceeds (bs_tokens s) (bl_tokens limits) \<or> exceeds (bs_cost_microusd s) (bl_cost_microusd limits) \<or>
     exceeds (bs_iterations s) (bl_iterations limits) \<or>
     exceeds (bs_proactive_actions s) (bl_proactive_actions limits)"

definition counter_fields :: "budget_snapshot \<Rightarrow> (string \<times> 64 word) list" where
  "counter_fields s = [(''tokens'', bs_tokens s), (''cost'', bs_cost_microusd s), (''iterations'', bs_iterations s),
     (''proactive actions'', bs_proactive_actions s), (''revision'', bs_revision s)]"

fun check_range :: "(string \<times> 64 word) list \<Rightarrow> (store_error, unit) result" where
  "check_range [] = Inr ()"
| "check_range ((name, value) # rest) =
     (if int i64_max < uint value then Inl (Corrupt (CounterRange name)) else check_range rest)"

definition reserve_budget ::
    "string \<Rightarrow> string \<Rightarrow> budget_delta \<Rightarrow> db \<Rightarrow> (store_error, budget_snapshot \<times> db) result" where
  "reserve_budget actor window delta db =
     (let limits = limits_of actor window db; current = spent_of actor window db in
      ebind (next_budget current delta) (\<lambda>s.
      ebind (ensure (\<not> over_limit limits delta s) (BudgetLimit current)) (\<lambda>_.
      ebind (check_range (counter_fields s)) (\<lambda>_.
      Inr (s, db\<lparr>db_counters := (db_counters db)((actor, window) \<mapsto> counters_of_snapshot s)\<rparr>)))))"

section \<open>Workers\<close>

definition record_worker_state ::
    "string \<Rightarrow> string \<Rightarrow> string option \<Rightarrow> worker_status \<Rightarrow> 64 word \<Rightarrow> string option \<Rightarrow> db \<Rightarrow> db" where
  "record_worker_state t worker run status generation last_error db =
     (let row = \<lparr>wk_run_id = run, wk_status = status, wk_generation = as_i64 generation,
            wk_last_error = last_error, wk_updated_at = t\<rparr> in
      case db_workers db worker of
        Some w \<Rightarrow>
          if wk_generation w \<le> as_i64 generation then db\<lparr>db_workers := (db_workers db)(worker \<mapsto> row)\<rparr> else db
      | None \<Rightarrow> db\<lparr>db_workers := (db_workers db)(worker \<mapsto> row)\<rparr>)"

definition begin_worker_generation ::
    "string \<Rightarrow> string \<Rightarrow> string option \<Rightarrow> db \<Rightarrow> (store_error, 64 word \<times> db) result" where
  "begin_worker_generation t worker run db =
     (let current = (case db_workers db worker of None \<Rightarrow> 0 | Some w \<Rightarrow> wk_generation w) in
      ebind (ensure (current < int i64_max) (Corrupt GenerationOverflow)) (\<lambda>_.
      Inr (as_u64 (current + 1), db\<lparr>db_workers := (db_workers db)(worker \<mapsto>
        \<lparr>wk_run_id = run, wk_status = Starting, wk_generation = current + 1, wk_last_error = None,
         wk_updated_at = t\<rparr>)\<rparr>)))"

definition worker_generation :: "string \<Rightarrow> db \<Rightarrow> 64 word option" where
  "worker_generation worker db = map_option (\<lambda>w. as_u64 (wk_generation w)) (db_workers db worker)"

section \<open>Artifact references\<close>

text \<open>\<open>std::path::Path::components\<close> on a Unix path.\<close>

datatype path_component = RootDir | CurDir | ParentDir | Normal string

definition component_of :: "string \<Rightarrow> path_component" where
  "component_of s = (if s = ''.'' then CurDir else if s = ''..'' then ParentDir else Normal s)"

definition path_components :: "string \<Rightarrow> path_component list" where
  "path_components path =
     (let pieces = filter (\<lambda>s. s \<noteq> []) (split_on CHR ''/'' path);
          inner = (\<lambda>ps. map component_of (filter (\<lambda>s. s \<noteq> ''.'') ps)) in
      if starts_with ''/'' path then RootDir # inner pieces
      else case pieces of [] \<Rightarrow> [] | p # ps \<Rightarrow> component_of p # inner ps)"

definition is_normal :: "path_component \<Rightarrow> bool" where
  "is_normal c = (case c of Normal _ \<Rightarrow> True | _ \<Rightarrow> False)"

definition is_hexdigit :: "char \<Rightarrow> bool" where
  "is_hexdigit c \<longleftrightarrow> is_digit c \<or>
     (97 \<le> (of_char c :: nat) \<and> (of_char c :: nat) \<le> 102) \<or> (65 \<le> (of_char c :: nat) \<and> (of_char c :: nat) \<le> 70)"

record artifact_reference =
  ar_artifact_id :: string
  ar_session_id :: string
  ar_run_id :: "string option"
  ar_sha256 :: string
  ar_size_bytes :: "64 word"
  ar_storage_path :: string
  ar_actor_id :: string
  ar_source :: string

definition artifact_valid :: "artifact_reference \<Rightarrow> bool" where
  "artifact_valid a \<longleftrightarrow>
     length (ar_sha256 a) = 64 \<and> list_all is_hexdigit (ar_sha256 a) \<and> uint (ar_size_bytes a) \<le> int i64_max \<and>
     (case path_components (ar_storage_path a) of [] \<Rightarrow> False | c # cs \<Rightarrow> is_normal c \<and> list_all is_normal cs)"

definition insert_artifact :: "artifact_row \<Rightarrow> db \<Rightarrow> (store_error, db) result" where
  "insert_artifact a db =
     (if af_id a \<in> af_id ` set (db_artifacts db) \<or> af_session_id a \<notin> sn_id ` set (db_sessions db) \<or>
         (case af_run_id a of None \<Rightarrow> False | Some r \<Rightarrow> r \<notin> rn_id ` set (db_runs db)) then Inl Sqlite
      else Inr (db\<lparr>db_artifacts := db_artifacts db @ [a]\<rparr>))"

definition add_artifact_reference :: "string \<Rightarrow> artifact_reference \<Rightarrow> db \<Rightarrow> (store_error, db) result" where
  "add_artifact_reference t a db =
     ebind (ensure (artifact_valid a) (Corrupt InvalidArtifact)) (\<lambda>_.
     ebind (load_session (ar_session_id a) (ar_actor_id a) db) (\<lambda>s.
     ebind (case ar_run_id a of
              None \<Rightarrow> Inr ()
            | Some run \<Rightarrow>
                ebind (load_run run (ar_actor_id a) db) (\<lambda>r.
                ensure (sp_session_id r = ss_session_id s) ActorMismatch)) (\<lambda>_.
     insert_artifact \<lparr>af_id = ar_artifact_id a, af_session_id = ar_session_id a, af_run_id = ar_run_id a,
       af_sha256 = ar_sha256 a, af_size_bytes = as_i64 (ar_size_bytes a), af_storage_path = ar_storage_path a,
       af_actor_id = ar_actor_id a, af_source = ar_source a, af_created_at = t\<rparr> db)))"


section \<open>What a reservation does\<close>

definition counter_ok :: "counter_row \<Rightarrow> bool" where
  "counter_ok c \<longleftrightarrow> (\<forall>x \<in> {bc_tokens c, bc_cost_microusd c, bc_iterations c, bc_proactive_actions c, bc_revision c}.
     0 \<le> x \<and> x \<le> int i64_max)"

definition counters_ok :: "db \<Rightarrow> bool" where
  "counters_ok db \<longleftrightarrow> (\<forall>w c. db_counters db w = Some c \<longrightarrow> counter_ok c)"

lemma counters_ok_empty [simp]: "counters_ok empty_db"
  by (simp add: counters_ok_def empty_db_def)

lemma checked_add_Some: "checked_add a b = Some c \<longleftrightarrow> unat a + unat b \<le> u64_max \<and> c = a + b"
  by (auto simp: checked_add_def)

lemma checked_add_unat: "checked_add a b = Some c \<Longrightarrow> unat c = unat a + unat b"
  by (auto simp: checked_add_Some unat_word_ariths)

lemma check_range_Inr: "check_range fs = Inr () \<longleftrightarrow> (\<forall>(name, v) \<in> set fs. uint v \<le> int i64_max)"
  by (induction fs rule: check_range.induct) auto

lemma as_i64_small: "uint w \<le> int i64_max \<Longrightarrow> as_i64 w = uint w"
  by (simp add: as_i64_def sint_u64)

lemma snapshot_round_trip [simp]: "snapshot_of_counters (counters_of_snapshot s) = s"
  by (simp add: snapshot_of_counters_def counters_of_snapshot_def as_u64_def as_i64_def)

lemma reserve_budget_Inr:
  assumes "reserve_budget actor w delta db = Inr (s, db')"
  shows "next_budget (spent_of actor w db) delta = Inr s" "\<not> over_limit (limits_of actor w db) delta s"
    "\<forall>v \<in> {bs_tokens s, bs_cost_microusd s, bs_iterations s, bs_proactive_actions s, bs_revision s}. uint v \<le> int i64_max"
    "db' = db\<lparr>db_counters := (db_counters db)((actor, w) \<mapsto> counters_of_snapshot s)\<rparr>"
  using assms by (auto simp: reserve_budget_def Let_def res_simps check_range_Inr counter_fields_def split: if_splits)

lemma reserve_budget_spent:
  "reserve_budget actor w delta db = Inr (s, db') \<Longrightarrow> spent_of actor w db' = s"
  by (drule reserve_budget_Inr(4)) (simp add: spent_of_def unwrap_or_def)

lemma reserve_budget_limits:
  "reserve_budget actor w delta db = Inr (s, db') \<Longrightarrow> limits_of actor w db' = limits_of actor w db"
  by (drule reserve_budget_Inr(4)) (simp add: limits_of_def)

lemma reserve_budget_counters_ok:
  assumes "reserve_budget actor w delta db = Inr (s, db')" "counters_ok db"
  shows "counters_ok db'"
proof -
  have "counter_ok (counters_of_snapshot s)"
    using reserve_budget_Inr(3) [OF assms(1)] by (simp add: counter_ok_def counters_of_snapshot_def as_i64_small)
  with assms(2) reserve_budget_Inr(4) [OF assms(1)] show ?thesis by (auto simp: counters_ok_def)
qed

definition exact_sum :: "budget_snapshot \<Rightarrow> budget_delta \<Rightarrow> budget_snapshot \<Rightarrow> bool" where
  "exact_sum a delta b \<longleftrightarrow>
     unat (bs_tokens b) = unat (bs_tokens a) + unat (bd_tokens delta) \<and>
     unat (bs_cost_microusd b) = unat (bs_cost_microusd a) + unat (unwrap_or 0 (bd_cost_microusd delta)) \<and>
     unat (bs_iterations b) = unat (bs_iterations a) + unat (bd_iterations delta) \<and>
     unat (bs_proactive_actions b) = unat (bs_proactive_actions a) + unat (bd_proactive_actions delta)"

lemma next_budget_exact: "next_budget a delta = Inr b \<Longrightarrow> exact_sum a delta b"
  by (auto simp: next_budget_def res_simps exact_sum_def checked_add_unat)

section \<open>Sequences of reservations\<close>

text \<open>Attempts one after the other; the accepted ones are collected.\<close>

fun try_reserve :: "string \<Rightarrow> string \<Rightarrow> budget_delta list \<times> db \<Rightarrow> budget_delta \<Rightarrow> budget_delta list \<times> db" where
  "try_reserve actor w (taken, db) delta =
     (case reserve_budget actor w delta db of
        Inl _ \<Rightarrow> (taken, db)
      | Inr (_, db') \<Rightarrow> (taken @ [delta], db'))"

definition reserve_all :: "string \<Rightarrow> string \<Rightarrow> budget_delta list \<Rightarrow> db \<Rightarrow> budget_delta list \<times> db" where
  "reserve_all actor w deltas db = foldl (try_reserve actor w) ([], db) deltas"

definition spent_is :: "budget_snapshot \<Rightarrow> budget_delta list \<Rightarrow> budget_snapshot \<Rightarrow> bool" where
  "spent_is a deltas b \<longleftrightarrow>
     unat (bs_tokens b) = unat (bs_tokens a) + sum_list (map (\<lambda>d. unat (bd_tokens d)) deltas) \<and>
     unat (bs_cost_microusd b) = unat (bs_cost_microusd a) + sum_list (map (\<lambda>d. unat (unwrap_or 0 (bd_cost_microusd d))) deltas) \<and>
     unat (bs_iterations b) = unat (bs_iterations a) + sum_list (map (\<lambda>d. unat (bd_iterations d)) deltas) \<and>
     unat (bs_proactive_actions b) = unat (bs_proactive_actions a) + sum_list (map (\<lambda>d. unat (bd_proactive_actions d)) deltas)"

definition within_limits :: "budget_limits \<Rightarrow> budget_snapshot \<Rightarrow> bool" where
  "within_limits limits s \<longleftrightarrow> \<not> exceeds (bs_tokens s) (bl_tokens limits) \<and>
     \<not> exceeds (bs_cost_microusd s) (bl_cost_microusd limits) \<and> \<not> exceeds (bs_iterations s) (bl_iterations limits) \<and>
     \<not> exceeds (bs_proactive_actions s) (bl_proactive_actions limits)"

lemma reserve_within: "reserve_budget actor w delta db = Inr (s, db') \<Longrightarrow> within_limits (limits_of actor w db) s"
  by (drule reserve_budget_Inr(2)) (simp add: over_limit_def within_limits_def)

lemma reserve_all_snoc: "reserve_all actor w (ds @ [d]) db = try_reserve actor w (reserve_all actor w ds db) d"
  by (simp add: reserve_all_def)

text \<open>
  Property C21. Budgets are conserved and kept. After any sequence of reservation attempts on
  a window, what is recorded as spent is exactly what was recorded before plus the accepted
  reservations, with no wrap-around; it is within the limits if it was; a reservation of
  unknown cost is never accepted under a cost limit; and no other window changed.
\<close>

theorem budgets_conserved:
  assumes "reserve_all actor w deltas db = (taken, db')"
  shows "spent_is (spent_of actor w db) taken (spent_of actor w db') \<and>
    (within_limits (limits_of actor w db) (spent_of actor w db) \<longrightarrow> within_limits (limits_of actor w db) (spent_of actor w db')) \<and>
    (bl_cost_microusd (limits_of actor w db) \<noteq> None \<longrightarrow> (\<forall>d \<in> set taken. bd_cost_microusd d \<noteq> None)) \<and>
    limits_of actor w db' = limits_of actor w db \<and>
    ((a, v) \<noteq> (actor, w) \<longrightarrow> spent_of a v db' = spent_of a v db)"
  using assms
proof (induction deltas arbitrary: taken db' rule: rev_induct)
  case Nil
  then show ?case by (simp add: reserve_all_def spent_is_def)
next
  case (snoc d ds)
  obtain taken0 db0 where 0: "reserve_all actor w ds db = (taken0, db0)" by (cases "reserve_all actor w ds db")
  note IH = snoc.IH [OF 0]
  show ?case
  proof (cases "reserve_budget actor w d db0")
    case (Inl e)
    with 0 snoc.prems IH show ?thesis by (simp add: reserve_all_snoc)
  next
    case (Inr p)
    obtain s db1 where p: "p = (s, db1)" by (cases p)
    note ok = Inr [unfolded p]
    from 0 snoc.prems ok have eq: "taken = taken0 @ [d]" "db' = db1" by (auto simp: reserve_all_snoc)
    note facts = reserve_budget_Inr [OF ok]
    have "exact_sum (spent_of actor w db0) d s" by (rule next_budget_exact [OF facts(1)])
    with IH have "spent_is (spent_of actor w db) taken s" by (simp add: spent_is_def exact_sum_def eq)
    moreover have "within_limits (limits_of actor w db) s" using reserve_within [OF ok] IH by simp
    moreover have "bl_cost_microusd (limits_of actor w db) \<noteq> None \<longrightarrow> (\<forall>d \<in> set taken. bd_cost_microusd d \<noteq> None)"
      using IH facts(2) by (auto simp: eq over_limit_def)
    moreover have "(a, v) \<noteq> (actor, w) \<Longrightarrow> spent_of a v db1 = spent_of a v db0"
      using facts(4) by (auto simp: spent_of_def)
    ultimately show ?thesis
      using IH reserve_budget_spent [OF ok] reserve_budget_limits [OF ok] by (simp add: eq)
  qed
qed

definition sample_delta :: budget_delta where
  "sample_delta = \<lparr>bd_tokens = 60, bd_cost_microusd = Some 1, bd_iterations = 1, bd_proactive_actions = 0\<rparr>"

definition budget_db :: db where
  "budget_db = set_budget_limits ''amy'' ''day'' (no_limits\<lparr>bl_tokens := Some 100\<rparr>) empty_db"

lemma sample_reservations:
  "fst (reserve_all ''amy'' ''day'' [sample_delta, sample_delta] budget_db) = [sample_delta]"
  by (simp add: reserve_all_def reserve_budget_def budget_db_def set_budget_limits_def no_limits_def empty_db_def
      limits_of_def spent_of_def unwrap_or_def zero_budget_def next_budget_def checked_add_def sample_delta_def
      over_limit_def exceeds_def counter_fields_def ensure_def snapshot_round_trip Let_def)

theorem budgets_conserved_witness:
  "unat (bs_tokens (spent_of ''amy'' ''day'' (snd (reserve_all ''amy'' ''day'' [sample_delta, sample_delta] budget_db)))) = 60"
proof -
  obtain db' where "reserve_all ''amy'' ''day'' [sample_delta, sample_delta] budget_db = ([sample_delta], db')"
    using sample_reservations by (metis prod.collapse)
  from budgets_conserved [OF this] this show ?thesis
    by (simp add: spent_is_def sample_delta_def spent_of_def budget_db_def set_budget_limits_def empty_db_def unwrap_or_def
        zero_budget_def)
qed

section \<open>Generations of a worker\<close>

definition generations_grow :: "db \<Rightarrow> db \<Rightarrow> bool" where
  "generations_grow db db' \<longleftrightarrow> (\<forall>k w. db_workers db k = Some w \<longrightarrow>
     (\<exists>w'. db_workers db' k = Some w' \<and> wk_generation w \<le> wk_generation w'))"

interpretation generations: extension generations_grow
  by unfold_locales (auto simp: generations_grow_def, meson order_trans)

lemma record_worker_grows: "generations_grow db (record_worker_state t k run st g err db)"
  by (auto simp: generations_grow_def record_worker_state_def Let_def split: option.splits)

lemma begin_worker_grows: "begin_worker_generation t k run db = Inr (g, db') \<Longrightarrow> generations_grow db db'"
  by (auto simp: generations_grow_def begin_worker_generation_def Let_def res_simps)

definition generations_ok :: "db \<Rightarrow> bool" where
  "generations_ok db \<longleftrightarrow> (\<forall>k w. db_workers db k = Some w \<longrightarrow>
     - (2 ^ 63) \<le> wk_generation w \<and> wk_generation w \<le> int i64_max)"

lemma as_i64_as_u64: "- (2 ^ 63) \<le> x \<Longrightarrow> x \<le> int i64_max \<Longrightarrow> as_i64 (as_u64 x) = x"
  by (simp add: as_i64_def as_u64_def sint_sbintrunc' signed_take_bit_int_eq_self)

text \<open>
  A worker that was restarted cannot be overwritten by its past. The generation
  that \<open>begin_worker_generation\<close> hands out is above every generation recorded for the
  worker before; as long as it is the current one, a state reported for an older generation
  leaves the row as it is, and the stored generation never goes down.
\<close>

theorem stale_worker_reports_dropped:
  assumes "generations_ok db" "begin_worker_generation t k run db = Inr (g, db')" "as_i64 g0 < as_i64 g"
  shows "record_worker_state t' k run' st g0 err db' = db' \<and>
    (\<forall>w. db_workers db k = Some w \<longrightarrow> wk_generation w < as_i64 g) \<and>
    generations_grow db db' \<and> generations_grow db' (record_worker_state t' k run' st g1 err db') \<and> generations_ok db'"
proof -
  define c where "c = (case db_workers db k of None \<Rightarrow> 0 | Some w \<Rightarrow> wk_generation w)"
  from assms(2) have c: "c < int i64_max" and g: "g = as_u64 (c + 1)"
    and db': "db' = db\<lparr>db_workers := (db_workers db)(k \<mapsto> \<lparr>wk_run_id = run, wk_status = Starting,
      wk_generation = c + 1, wk_last_error = None, wk_updated_at = t\<rparr>)\<rparr>"
    by (auto simp: begin_worker_generation_def Let_def res_simps c_def)
  have "- (2 ^ 63) \<le> c"
    using assms(1) by (cases "db_workers db k") (auto simp: c_def generations_ok_def)
  then have g': "as_i64 g = c + 1" using c by (simp add: g as_i64_as_u64)
  have "record_worker_state t' k run' st g0 err db' = db'"
    using assms(3) by (simp add: record_worker_state_def db' g' Let_def)
  moreover have "\<forall>w. db_workers db k = Some w \<longrightarrow> wk_generation w < as_i64 g" by (simp add: g' c_def)
  moreover have "generations_ok db'" using assms(1) c \<open>- (2 ^ 63) \<le> c\<close> by (simp add: generations_ok_def db')
  ultimately show ?thesis using begin_worker_grows [OF assms(2)] record_worker_grows by blast
qed

theorem stale_worker_reports_dropped_witness:
  "\<exists>g db. begin_worker_generation ''t'' ''w'' None empty_db = Inr (g, db) \<and>
     record_worker_state ''t'' ''w'' None WorkerDown 0 None db = db"
proof -
  have ok: "generations_ok empty_db" by (simp add: generations_ok_def empty_db_def)
  have "\<exists>db. begin_worker_generation ''t'' ''w'' None empty_db = Inr (1, db)"
    by (simp add: begin_worker_generation_def empty_db_def as_u64_def)
  then obtain db where run: "begin_worker_generation ''t'' ''w'' None empty_db = Inr (1, db)" by blast
  have "as_i64 0 < as_i64 1" by (simp add: as_i64_def)
  from stale_worker_reports_dropped [OF ok run this] run show ?thesis by blast
qed

section \<open>Artifact paths\<close>

lemma filter_normal:
  "list_all is_normal (map component_of (filter (\<lambda>s. s \<noteq> ''.'') ps)) \<longleftrightarrow> ''..'' \<notin> set ps"
  by (induction ps) (auto simp: component_of_def is_normal_def)

text \<open>
  An artifact reference that is accepted stays inside the artifact store and
  inside its session: its path is relative, names something and has no parent segment, its
  digest is 64 hexadecimal digits, and the run it names belongs to the session it names, all
  of the same actor.
\<close>

theorem artifact_reference_contained:
  assumes "add_artifact_reference t a db = Inr db'"
  shows "\<not> starts_with ''/'' (ar_storage_path a) \<and> ''..'' \<notin> set (split_on CHR ''/'' (ar_storage_path a)) \<and>
    path_components (ar_storage_path a) \<noteq> [] \<and> length (ar_sha256 a) = 64 \<and> list_all is_hexdigit (ar_sha256 a) \<and>
    (\<exists>s. find_session (ar_session_id a) db = Some s \<and> sn_actor_id s = ar_actor_id a) \<and>
    (\<forall>run. ar_run_id a = Some run \<longrightarrow> (\<exists>r. find_run run db = Some r \<and> rn_session_id r = ar_session_id a \<and>
       rn_actor_id r = ar_actor_id a))"
proof (intro conjI allI impI)
  from assms have v: "artifact_valid a" by (auto simp: add_artifact_reference_def res_simps)
  then show "length (ar_sha256 a) = 64" "list_all is_hexdigit (ar_sha256 a)" by (simp_all add: artifact_valid_def)
  from v show abs: "\<not> starts_with ''/'' (ar_storage_path a)"
    by (auto simp: artifact_valid_def path_components_def is_normal_def Let_def)
  from v show "path_components (ar_storage_path a) \<noteq> []" by (auto simp: artifact_valid_def)
  let ?ps = "filter (\<lambda>s. s \<noteq> []) (split_on CHR ''/'' (ar_storage_path a))"
  from v abs obtain p ps where ps: "?ps = p # ps" "is_normal (component_of p)"
    "list_all is_normal (map component_of (filter (\<lambda>s. s \<noteq> ''.'') ps))"
    by (cases ?ps) (auto simp: artifact_valid_def path_components_def Let_def)
  then have "''..'' \<notin> set ?ps" by (auto simp: filter_normal component_of_def is_normal_def)
  then show "''..'' \<notin> set (split_on CHR ''/'' (ar_storage_path a))" by simp
  from assms show "\<exists>s. find_session (ar_session_id a) db = Some s \<and> sn_actor_id s = ar_actor_id a"
    by (auto simp: add_artifact_reference_def load_session_def res_simps)
  fix run assume "ar_run_id a = Some run"
  with assms show "\<exists>r. find_run run db = Some r \<and> rn_session_id r = ar_session_id a \<and> rn_actor_id r = ar_actor_id a"
    by (auto simp: add_artifact_reference_def load_session_def load_run_def run_snapshot_of_def res_simps)
qed

definition sample_artifact :: artifact_reference where
  "sample_artifact = \<lparr>ar_artifact_id = ''a'', ar_session_id = ''s'', ar_run_id = None,
     ar_sha256 = replicate 64 CHR ''0'', ar_size_bytes = 1, ar_storage_path = ''blobs/a'',
     ar_actor_id = ''amy'', ar_source = ''x''\<rparr>"

definition artifact_db :: db where
  "artifact_db = empty_db\<lparr>db_sessions := [\<lparr>sn_id = ''s'', sn_actor_id = ''amy'', sn_title = None,
     sn_project_key = None, sn_active_run_id = None, sn_created_at = ''t''\<rparr>]\<rparr>"

lemma sample_artifact_added: "\<exists>db. add_artifact_reference ''t'' sample_artifact artifact_db = Inr db"
proof -
  have "path_components ''blobs/a'' = [Normal ''blobs'', Normal ''a'']" by code_simp
  then have "artifact_valid sample_artifact"
    by (simp add: artifact_valid_def sample_artifact_def is_normal_def is_hexdigit_def is_digit_def list_all_iff)
  then show ?thesis
    by (simp add: add_artifact_reference_def load_session_def find_session_def artifact_db_def empty_db_def
        insert_artifact_def max_seq_def sample_artifact_def)
qed

theorem artifact_reference_contained_witness:
  "\<exists>db. add_artifact_reference ''t'' sample_artifact artifact_db = Inr db \<and>
     path_components (ar_storage_path sample_artifact) \<noteq> []"
proof -
  obtain db where run: "add_artifact_reference ''t'' sample_artifact artifact_db = Inr db"
    using sample_artifact_added by blast
  from artifact_reference_contained [OF run] run show ?thesis by blast
qed

end
