(* ===== verification/Run_Claims.thy ===== *)
theory Run_Claims
  imports Run_Recovery
begin

text \<open>
  The properties of sessions and runs, with a small database on which their witnesses run:
  \<open>sample_db\<close> has one session with one live run.
\<close>

definition sample_session :: session_row where
  "sample_session = \<lparr>sn_id = ''s'', sn_actor_id = ''amy'', sn_title = None, sn_project_key = None,
     sn_active_run_id = Some ''run-1'', sn_created_at = ''t''\<rparr>"

definition sample_db :: db where
  "sample_db = empty_db\<lparr>db_sessions := [sample_session], db_runs := [new_run ''run-1'' ''s'' ''amy'' ''t'' None]\<rparr>"

lemma sample_db_simps [simp]:
  "db_sessions sample_db = [sample_session]" "db_runs sample_db = [new_run ''run-1'' ''s'' ''amy'' ''t'' None]"
  "db_events sample_db = []" "db_idempotency sample_db = []" "db_cancels sample_db = []"
  "db_approvals sample_db = []" "db_audit sample_db = []"
  "sn_id sample_session = ''s''" "sn_actor_id sample_session = ''amy''"
  "sn_active_run_id sample_session = Some ''run-1''"
  by (simp_all add: sample_db_def sample_session_def empty_db_def)

lemma sample_db_ok [simp]: "db_ok sample_db"
  by (simp add: db_ok_def keys_ok_def log_complete_def status_projected_def active_live_def run_events_def
      projected_status_def)

lemma sample_log_masked [simp]: "log_masked ms sample_db"
  by (simp add: log_masked_def)

lemma sample_run [simp]: "find_run ''run-1'' sample_db = Some (new_run ''run-1'' ''s'' ''amy'' ''t'' None)"
  by (simp add: find_run_def)

lemma sample_find_session [simp]: "find_session ''s'' sample_db = Some sample_session"
  by (simp add: find_session_def)

lemma mask_idem_star_out [simp]: "mask_idem star_out"
  by (simp add: mask_idem_def star_out_def)

section \<open>Starting runs\<close>

text \<open>
  Property C22. A prompt is started at most once: whatever happened in the store since, the
  same key and fingerprint give back the run that was started and change nothing, and the
  same key with another fingerprint is refused.
\<close>

theorem start_run_exactly_once:
  assumes "start_run u t actor key fp session db = Inr (out, db1)" "db_grows db1 db2"
  shows "start_run u' t' actor key fp session' db2 = Inr (\<lparr>out_value = out_value out, out_created = False\<rparr>, db2) \<and>
    (fp' \<noteq> fp \<longrightarrow> start_run u' t' actor key fp' session' db2 = Inl IdempotencyConflict)"
  using start_run.retry [where i = "(u, t, session)" and j = "(u', t', session')" and actor = actor and key = key
        and fp = fp and d = db and d' = db1 and d'' = db2 and out = out]
    start_run.reuse_refused [where i = "(u, t, session)" and j = "(u', t', session')" and actor = actor and key = key
        and fp = fp and fp' = fp' and d = db and d' = db1 and d'' = db2 and out = out] assms
  by simp

definition idle_db :: db where
  "idle_db = empty_db\<lparr>db_sessions := [sample_session\<lparr>sn_active_run_id := None\<rparr>]\<rparr>"

lemma idle_start_run:
  "\<exists>out db. start_run ''1'' ''t'' ''amy'' ''k'' ''f'' ''s'' idle_db = Inr (out, db)"
  by (simp add: start_run_def idle_db_def empty_db_def lookup_idempotency_def owned_session_def find_session_def
      sample_session_def active_guard_def Let_def insert_run_def set_active_run_def update_session_def
      insert_idempotency_def new_run_def)

theorem start_run_exactly_once_witness:
  "\<exists>out db. start_run ''1'' ''t'' ''amy'' ''k'' ''f'' ''s'' idle_db = Inr (out, db) \<and>
     start_run ''2'' ''t2'' ''amy'' ''k'' ''f'' ''s'' db = Inr (\<lparr>out_value = out_value out, out_created = False\<rparr>, db) \<and>
     start_run ''2'' ''t2'' ''amy'' ''k'' ''g'' ''s'' db = Inl IdempotencyConflict"
proof -
  obtain out db where run: "start_run ''1'' ''t'' ''amy'' ''k'' ''f'' ''s'' idle_db = Inr (out, db)"
    using idle_start_run by blast
  from start_run_exactly_once [OF run db_grows_refl, of "''2''" "''t2''" "''s''" "''g''"] run show ?thesis by auto
qed

lemma active_run_is_live:
  assumes "db_ok db" "find_session session db = Some s" "sn_active_run_id s = Some i"
  obtains r where "find_run i db = Some r" "\<not> is_terminal (rn_status r)"
proof -
  have "active_live db s" using find_session_Some [OF assms(2)] assms(1) by (simp add: db_ok_def)
  with assms(3) obtain r where r: "r \<in> set (db_runs db)" "rn_id r = i" "\<not> is_terminal (rn_status r)"
    unfolding active_live_def by blast
  then have "find_run i db = Some r" using find_run_eq assms(1) by (simp add: db_ok_def)
  with r(3) that show thesis by blast
qed

lemma find_session_activated:
  "find (\<lambda>x. sn_id x = session) (map (\<lambda>x. if sn_id x = session then x\<lparr>sn_active_run_id := a\<rparr> else x) xs) =
    map_option (\<lambda>x. x\<lparr>sn_active_run_id := a\<rparr>) (find (\<lambda>x. sn_id x = session) xs)"
  by (induction xs) auto

text \<open>
  Property C27. A session runs one prompt at a time. While its active run is live, a new
  prompt is refused with the status of that run; when a prompt is accepted the session had
  no active run, and its active run is now the new one: running, with an empty log.
\<close>

theorem one_live_run_per_session:
  assumes "db_ok db" "find_session session db = Some s" "sn_actor_id s = actor"
    and "lookup_idempotency d_string actor ''session.prompt'' key fp db = Inr None"
  shows "(sn_active_run_id s = Some i \<longrightarrow> (\<exists>r. find_run i db = Some r \<and> \<not> is_terminal (rn_status r) \<and>
       start_run u t actor key fp session db = Inl (InvalidTransition (rn_status r) Running))) \<and>
     (start_run u t actor key fp session db = Inr (out, db') \<longrightarrow> sn_active_run_id s = None \<and>
       find_run (out_value out) db' = Some (new_run (out_value out) session actor t None) \<and>
       find_session session db' = Some (s\<lparr>sn_active_run_id := Some (out_value out)\<rparr>))"
proof (intro conjI impI)
  assume i: "sn_active_run_id s = Some i"
  obtain r where r: "find_run i db = Some r" "\<not> is_terminal (rn_status r)"
    by (rule active_run_is_live [OF assms(1,2) i])
  have "start_run u t actor key fp session db = Inl (InvalidTransition (rn_status r) Running)"
    using assms(2-4) i r
    by (simp add: start_run_def owned_session_def active_guard_def run_status_of_def)
  with r show "\<exists>r. find_run i db = Some r \<and> \<not> is_terminal (rn_status r) \<and>
      start_run u t actor key fp session db = Inl (InvalidTransition (rn_status r) Running)" by blast
next
  assume run: "start_run u t actor key fp session db = Inr (out, db')"
  let ?new = "new_run (''run-'' @ u) session actor t None"
  from start_run_new [OF run assms(4)] obtain s1 db1 db2 where
    "find_session session db = Some s1" and guard: "active_guard s1 db = Inr ()"
    and ins: "insert_run ?new db = Inr db1" and act: "set_active_run session (''run-'' @ u) db1 = Inr db2"
    and idem: "insert_idempotency actor ''session.prompt'' key fp (JString (''run-'' @ u)) db2 = Inr db'"
    and out: "out = \<lparr>out_value = ''run-'' @ u, out_created = True\<rparr>"
    by metis
  then have guard: "active_guard s db = Inr ()" using assms(2) by simp
  show "sn_active_run_id s = None"
  proof (cases "sn_active_run_id s")
    case (Some j)
    then show ?thesis
      using guard by (rule_tac active_run_is_live [OF assms(1,2) Some]) (simp add: active_guard_def run_status_of_def)
  qed simp
  show "find_run (out_value out) db' = Some (new_run (out_value out) session actor t None)"
    using insert_run_find(1) [OF ins] set_active_run_find [OF act] insert_idempotency_find [OF idem] by (simp add: out)
  have sessions: "db_sessions db' = map (\<lambda>x. if sn_id x = session then x\<lparr>sn_active_run_id := Some (''run-'' @ u)\<rparr> else x)
      (db_sessions db)"
    using ins act insert_idempotency_keeps [OF idem]
    by (auto simp: insert_run_Inr set_active_run_def update_session_def split: if_splits)
  from assms(2)
  show "find_session session db' = Some (s\<lparr>sn_active_run_id := Some (out_value out)\<rparr>)"
    by (simp add: find_session_def sessions out find_session_activated)
qed

theorem one_live_run_per_session_witness:
  "db_ok sample_db \<and> start_run ''2'' ''t'' ''amy'' ''k'' ''f'' ''s'' sample_db = Inl (InvalidTransition Running Running)"
  using one_live_run_per_session [of sample_db "''s''" sample_session "''amy''" "''k''" "''f''" "''run-1''" "''2''" "''t''"]
  by (simp add: lookup_idempotency_def)


section \<open>Reading\<close>

text \<open>
  What \<open>append_event_auto\<close> returns is what the log says: the events of the
  run read back afterwards are those before it, then the returned envelope, whose sequence
  number is the next one. The server streams the returned envelope to its clients, so a live
  client and one that reads the log see the same event.
\<close>

theorem append_reads_back:
  assumes "wire_fixed ms" "mask_idem ms" "db_ok db" "append_event_auto ms t owner e db = Inr (e', db')"
  shows "\<exists>es. all_events (ee_run_id e') owner db = Inr es \<and> all_events (ee_run_id e') owner db' = Inr (es @ [e']) \<and>
    ee_seq e' = of_nat (length es) + 1"
proof -
  from assms(4) obtain m sp where m: "masked_envelope ms e = Inr m" and sp: "require_run (ee_run_id m) owner db = Inr sp"
    and e': "e' = m\<lparr>ee_seq := sp_last_seq sp + 1\<rparr>" and app: "append_event_tx ms t owner e' db = Inr db'"
    by (auto simp: append_event_auto_def Let_def res_simps)
  from masked_envelope_Inr [OF assms(1) m] have meq: "m = mask_envelope ms (written e)" by simp
  then have "mask_envelope ms m = m" using mask_envelope_twice [OF assms(2)] by simp
  moreover have "mask_envelope ms (m\<lparr>ee_seq := x\<rparr>) = (mask_envelope ms m)\<lparr>ee_seq := x\<rparr>" for x
    by (simp add: mask_envelope_def)
  ultimately have fix_e': "mask_envelope ms e' = e'" by (simp add: e')
  have "event_finite (ee_event m)" using masked_envelope_Inr [OF assms(1) m] by blast
  then have "written_event (ee_event m) = ee_event m"
    by (cases "ee_event m") (auto simp: drop_nonfinite_def split: option.splits)
  then have w: "written e' = e'" by (simp add: written_def e')
  from sp obtain r where r: "find_run (ee_run_id e') db = Some r" "rn_actor_id r = owner" "sp = run_snapshot_of r"
    by (auto simp: require_run_Inr e')
  obtain es where es: "logged (ee_run_id e') db es" using logged_total [OF assms(3) r(1)] by blast
  have log': "logged (ee_run_id e') db' (es @ [e'])" using append_logged [OF assms(1) app es] by (simp add: w fix_e')
  have ok': "db_ok db'" by (rule append_db_ok [OF assms(1,3) app])
  have keys: "keys_ok db" using assms(3) by (simp add: db_ok_def)
  obtain r' where r': "find_run (ee_run_id e') db' = Some r'" "rn_actor_id r' = owner"
    using append_event_tx_run [OF app keys r(1)] r(2) by auto
  from read_rows_total [OF run_rows(4) [OF assms(3) r(1)]] es
  have "length es = length (run_events (ee_run_id e') db)"
    by (auto simp: logged_def dest: list_all2_lengthD)
  then have "length es = length (map ev_seq (run_events (ee_run_id e') db))" by simp
  then have "length es = nat (rn_last_seq r)" by (simp only: run_rows(1) [OF assms(3) r(1)] length_upto diff_add_cancel)
  then have "rn_last_seq r = int (length es)" using run_rows(2) [OF assms(3) r(1)] by linarith
  then have "as_u64 (rn_last_seq r) = of_nat (length es)" by (simp add: as_u64_def)
  then have "ee_seq e' = of_nat (length es) + 1" by (simp add: e' r(3))
  then show ?thesis
    using all_events_eq [OF assms(3) r(1,2)] all_events_eq [OF ok' r'] es log' by (simp add: logged_def)
qed

definition sample_note :: event_envelope where
  "sample_note = plain_envelope ''1'' ''s'' ''run-1'' 0 ''t'' core_actor ''x''
     (ItemCompleted \<lparr>ie_role = Some ''user'', ie_content = Some ''hunter2'', ie_tool_calls = []\<rparr>)"

lemma sample_masked: "masked_envelope star_out sample_note = Inr (mask_envelope star_out sample_note)"
  using masked_envelope_total [OF wire_fixed_star_out, of sample_note] by (simp add: sample_note_def written_def plain_envelope_def)

lemma sample_append: "\<exists>e db. append_event_auto star_out ''t'' ''amy'' sample_note sample_db = Inr (e, db)"
proof -
  have "\<exists>db. append_event_tx star_out ''t'' ''amy'' ((mask_envelope star_out sample_note)\<lparr>ee_seq := 1\<rparr>) sample_db = Inr db"
    by (rule append_event_tx_total [OF wire_fixed_star_out, where r = "new_run ''run-1'' ''s'' ''amy'' ''t'' None"])
       (simp_all add: sample_note_def mask_envelope_def star_out_def mask_item_event_def as_u64_def transition_allowed_def
        unwrap_or_def)
  moreover have "ee_run_id (mask_envelope star_out sample_note) = ''run-1''"
    by (simp add: sample_note_def mask_envelope_def star_out_def)
  ultimately show ?thesis
    by (auto simp: append_event_auto_def sample_masked require_run_def as_u64_def)
qed

theorem append_reads_back_witness:
  "\<exists>e db es. append_event_auto star_out ''t'' ''amy'' sample_note sample_db = Inr (e, db) \<and>
     all_events (ee_run_id e) ''amy'' db = Inr (es @ [e])"
proof -
  obtain e db where run: "append_event_auto star_out ''t'' ''amy'' sample_note sample_db = Inr (e, db)"
    using sample_append by blast
  from append_reads_back [OF wire_fixed_star_out mask_idem_star_out sample_db_ok run] run show ?thesis by blast
qed

text \<open>
  In a database that satisfies the invariant the stored row of a run is the
  replay of its log: replaying a run that was not rewound gives what reading its row gives,
  the errors for a missing run or another actor included.
\<close>

theorem replay_matches_row:
  assumes "db_ok db" "\<And>r. find_run i db = Some r \<Longrightarrow> rn_status r \<noteq> Rewound"
  shows "replay_run i actor db = load_run i actor db"
proof (cases "load_run i actor db")
  case (Inl e)
  then show ?thesis by (simp add: replay_run_def)
next
  case (Inr sp)
  then obtain r where r: "find_run i db = Some r" "rn_actor_id r = actor" "sp = run_snapshot_of r"
    by (auto simp: load_run_def res_simps)
  from run_rows(6) [OF assms(1) r(1)] assms(2) [OF r(1)] have "rn_status r = projected_status (run_events i db)" .
  then show ?thesis using replay_run_eq [OF assms(1) r(1,2)] Inr r(3) by simp
qed

theorem replay_matches_row_witness:
  "db_ok sample_db \<and> replay_run ''run-1'' ''amy'' sample_db = load_run ''run-1'' ''amy'' sample_db \<and>
   load_run ''run-1'' ''amy'' sample_db \<noteq> Inl (NotFound ''run'')"
  using replay_matches_row [of sample_db "''run-1''" "''amy''"] by (simp add: load_run_def)

text \<open>
  A rewound run cannot be replayed: its log still ends with the event that
  completed, failed or cancelled it, no event projects to the status the rewind wrote, and
  so replay reports the row as corrupt, although nothing is.
\<close>

theorem rewound_run_reported_corrupt:
  assumes "db_ok db" "find_run i db = Some r" "rn_actor_id r = actor" "rn_status r = Rewound"
  shows "\<exists>s. s \<noteq> Rewound \<and> replay_run i actor db = Inl (Corrupt (ProjectionDiffers s Rewound)) \<and>
    load_run i actor db = Inr (run_snapshot_of r)"
proof -
  have "projected_status (run_events i db) \<noteq> Rewound" by (rule projected_not_rewound)
  then show ?thesis
    using replay_run_eq [OF assms(1-3)] assms(2-4)
    by (intro exI [of _ "projected_status (run_events i db)"]) (simp add: load_run_def)
qed

definition rewound_db :: db where
  "rewound_db = sample_db\<lparr>db_sessions := [sample_session\<lparr>sn_active_run_id := None\<rparr>],
     db_runs := [(new_run ''run-1'' ''s'' ''amy'' ''t'' None)\<lparr>rn_status := Rewound\<rparr>]\<rparr>"

lemma rewound_db_sample_ok: "db_ok rewound_db"
  by (simp add: rewound_db_def db_ok_def keys_ok_def log_complete_def status_projected_def active_live_def
      run_events_def projected_status_def new_run_def)

theorem rewound_run_reported_corrupt_witness:
  "db_ok rewound_db \<and> (\<exists>s. replay_run ''run-1'' ''amy'' rewound_db = Inl (Corrupt (ProjectionDiffers s Rewound)))"
proof -
  let ?r = "(new_run ''run-1'' ''s'' ''amy'' ''t'' None)\<lparr>rn_status := Rewound\<rparr>"
  have "find_run ''run-1'' rewound_db = Some ?r" by (simp add: find_run_def rewound_db_def new_run_def)
  moreover have "rn_actor_id ?r = ''amy''" "rn_status ?r = Rewound" by simp_all
  ultimately show ?thesis using rewound_run_reported_corrupt [OF rewound_db_sample_ok] rewound_db_sample_ok by blast
qed


section \<open>Closing runs\<close>

text \<open>
  Property C28. An accepted cancellation ends its run: the run is cancelled, its log reads
  back and has no tool call without a result, and the intent is recorded. It is accepted
  once: the key gives the same answer ever after and changes nothing.
\<close>

theorem cancel_closes_run:
  assumes "wire_fixed ms" "mask_idem ms" "db_ok db" "log_masked ms db"
    and "accept_cancel ms u t actor key fp i reason by_actor source db = Inr (a, db1)" "ca_created a"
    and "db_grows db1 db2"
  shows "(\<exists>r es. find_run i db1 = Some r \<and> rn_status r = Cancelled \<and> all_events i actor db1 = Inr es \<and>
      pending_calls es = []) \<and>
    \<lparr>ci_run_id = i, ci_actor_id = actor, ci_reason = reason, ci_accepted_at = t 2\<rparr> \<in> set (db_cancels db1) \<and>
    accept_cancel ms' u' t' actor key fp i' reason' by_actor' source' db2 =
      Inr (\<lparr>ca_result = ca_result a, ca_created = False, ca_events = []\<rparr>, db2)"
proof (intro conjI)
  have new: "lookup_idempotency d_cancelled_result actor ''run.cancel'' key fp db = Inr None"
  proof (rule ccontr)
    assume "\<not> ?thesis"
    with assms(5,6) show False by (auto simp: accept_cancel_def res_simps split: option.splits)
  qed
  note closed = accept_cancel_closes [OF assms(5) new assms(1,3,4)]
  from closed(1) obtain r es where r: "find_run i db1 = Some r" "rn_status r = Cancelled" "logged i db1 es"
    "pending_calls es = []" by blast
  have ok1: "db_ok db1" using accept_cancel_ok [OF assms(5,1,3)] by blast
  from accept_cancel_new [OF assms(5) new] obtain sp where "require_run i actor db = Inr sp" by metis
  then obtain r0 where "find_run i db = Some r0" "rn_actor_id r0 = actor" by (auto simp: require_run_Inr)
  then have "rn_actor_id r = actor"
    using find_run_grows [of db db1 i r0] accept_cancel_ok [OF assms(5,1,3)] r(1) by (auto simp: run_kept_def)
  then have "all_events i actor db1 = Inr es" using all_events_eq [OF ok1 r(1)] r(3) by (simp add: logged_def)
  with r show "\<exists>r es. find_run i db1 = Some r \<and> rn_status r = Cancelled \<and> all_events i actor db1 = Inr es \<and>
      pending_calls es = []" by blast
  show "\<lparr>ci_run_id = i, ci_actor_id = actor, ci_reason = reason, ci_accepted_at = t 2\<rparr> \<in> set (db_cancels db1)"
    by (rule closed(2))
  have "cancel_outcome (accept_cancel ms u t actor key fp i reason by_actor source db) =
      Inr (\<lparr>out_value = ca_result a, out_created = ca_created a\<rparr>, db1)"
    by (simp add: cancel_outcome_def assms(5))
  then have "lookup_idempotency d_cancelled_result actor ''run.cancel'' key fp db1 = Inr (Some (ca_result a))"
    using accept_cancel.stored_after [where i = "(ms, u, t, i, reason, by_actor, source)" and actor = actor and key = key
        and fp = fp and d = db and d' = db1 and out = "\<lparr>out_value = ca_result a, out_created = ca_created a\<rparr>"]
    by simp
  from lookup_persists [OF this assms(7)]
  show "accept_cancel ms' u' t' actor key fp i' reason' by_actor' source' db2 =
      Inr (\<lparr>ca_result = ca_result a, ca_created = False, ca_events = []\<rparr>, db2)"
    by (simp add: accept_cancel_def)
qed

lemma sample_cancel:
  "\<exists>a db. accept_cancel star_out (\<lambda>i. ''1'') (\<lambda>i. ''t'') ''amy'' ''k'' ''f'' ''run-1'' ''stop'' core_actor ''x'' sample_db
     = Inr (a, db) \<and> ca_created a"
proof -
  let ?c = "\<lparr>ci_run_id = ''run-1'', ci_actor_id = ''amy'', ci_reason = ''stop'', ci_accepted_at = ''t''\<rparr>"
  obtain db1 where 1: "insert_idempotency ''amy'' ''run.cancel'' ''k'' ''f''
      (cancelled_result_json \<lparr>cr_run_id = ''run-1'', cr_accepted = True\<rparr>) sample_db = Inr db1"
    by (simp add: insert_idempotency_def)
  obtain db2 where 2: "insert_cancel ?c db1 = Inr db2"
    using insert_idempotency_keeps [OF 1] by (auto simp: insert_cancel_def)
  have same: "db_runs db2 = db_runs sample_db" "db_events db2 = []" "db_sessions db2 = db_sessions sample_db"
    using insert_idempotency_keeps [OF 1] insert_cancel_keeps [OF 2] by auto
  have ok: "db_ok db2" by (rule db_ok_cong [of _ sample_db]) (simp_all add: same)
  let ?r = "new_run ''run-1'' ''s'' ''amy'' ''t'' None"
  have r: "find_run ''run-1'' db2 = Some ?r" by (simp add: find_run_def same)
  have "\<exists>db3. append_event_tx star_out ''t'' ''amy'' (plain_envelope ''1'' ''s'' ''run-1'' 1 ''t'' core_actor ''x''
      (RunCancelled \<lparr>rt_reason = ''stop'', rt_error_code = None\<rparr>)) db2 = Inr db3"
    by (rule append_event_tx_total [OF wire_fixed_star_out ok, where r = ?r])
       (simp_all add: r same as_u64_def transition_allowed_def unwrap_or_def)
  then show ?thesis
    using 1 2 r
    by (auto simp: accept_cancel_def lookup_idempotency_def require_run_def append_interrupted_tool_failures_def
        run_events_def same as_u64_def pending_calls_def)
qed

theorem cancel_closes_run_witness:
  "\<exists>a db r. accept_cancel star_out (\<lambda>i. ''1'') (\<lambda>i. ''t'') ''amy'' ''k'' ''f'' ''run-1'' ''stop'' core_actor ''x'' sample_db
     = Inr (a, db) \<and> find_run ''run-1'' db = Some r \<and> rn_status r = Cancelled"
proof -
  obtain a db where run: "accept_cancel star_out (\<lambda>i. ''1'') (\<lambda>i. ''t'') ''amy'' ''k'' ''f'' ''run-1'' ''stop'' core_actor ''x''
     sample_db = Inr (a, db)" "ca_created a"
    using sample_cancel by blast
  from cancel_closes_run [OF wire_fixed_star_out mask_idem_star_out sample_db_ok sample_log_masked run db_grows_refl] run(1)
  show ?thesis by blast
qed

text \<open>A database in which every run has ended has nothing left to recover.\<close>

lemma ended_runs_settled:
  assumes "db_ok db" "\<And>r. r \<in> set (db_runs db) \<Longrightarrow> is_terminal (rn_status r)"
  shows "incomplete_runs db = []" "\<forall>s \<in> set (db_sessions db). sn_active_run_id s = None"
proof -
  have keys: "keys_ok db" using assms(1) by (simp add: db_ok_def)
  have "\<not> recoverable (rn_status r)" if "r \<in> set (db_runs db)" for r
    using assms(2) [OF that] recoverable_cases(1) [OF assms(1) find_run_eq [OF keys that refl]] by simp
  then show "incomplete_runs db = []" by (simp add: incomplete_runs_def filter_empty_conv)
  show "\<forall>s \<in> set (db_sessions db). sn_active_run_id s = None"
    using assms unfolding db_ok_def active_live_def by (metis not_Some_eq)
qed

lemma recovered_runs_ended:
  assumes "db_ok db" "db_ok db'" "r \<in> set (db_runs db')"
    and closed: "\<forall>row \<in> set (incomplete_runs db). \<exists>r. find_run (rn_id (fst row)) db' = Some r \<and> is_terminal (rn_status r)"
    and rest: "\<forall>j. j \<notin> (\<lambda>row. rn_id (fst row)) ` set (incomplete_runs db) \<longrightarrow> find_run j db' = find_run j db"
  shows "is_terminal (rn_status r)"
proof -
  have keys: "keys_ok db" "keys_ok db'" using assms(1,2) by (simp_all add: db_ok_def)
  note rows = incomplete_runs_rows [OF keys(1)]
  have fr: "find_run (rn_id r) db' = Some r" by (rule find_run_eq [OF keys(2) assms(3) refl])
  show ?thesis
  proof (cases "rn_id r \<in> (\<lambda>row. rn_id (fst row)) ` set (incomplete_runs db)")
    case True
    with closed fr show ?thesis by auto
  next
    case False
    with rest fr have q: "find_run (rn_id r) db = Some r" by simp
    then have "r \<notin> set (map fst (incomplete_runs db))" using False by auto
    with rows(2) find_run_Some [OF q] have "\<not> recoverable (rn_status r)" by auto
    with recoverable_cases(1) [OF assms(1) q] show ?thesis by simp
  qed
qed

text \<open>
  Property C12. Recovery after a crash always gets to the end: with fresh ids, and as long as
  the sequence numbers of the live runs leave room for closing their pending calls, it
  returns one event for each live run, every run is terminal afterwards, and no session is
  left with an active run. Nothing has to be assumed of the stored documents: the invariant
  gives that they read back.
\<close>

theorem recovery_completes:
  assumes "wire_fixed ms" "db_ok db" "fresh_supply u 0 db"
    and "\<And>r. r \<in> set (db_runs db) \<Longrightarrow> recoverable (rn_status r) \<Longrightarrow>
      rn_last_seq r + int (pending_of (rn_id r) db) < int i64_max"
  shows "\<exists>es db'. recover_incomplete_runs ms u t db = (Inr es, db') \<and> length es = length (incomplete_runs db) \<and>
    incomplete_runs db' = [] \<and> (\<forall>r \<in> set (db_runs db'). is_terminal (rn_status r)) \<and>
    (\<forall>s \<in> set (db_sessions db'). sn_active_run_id s = None)"
proof -
  have keys: "keys_ok db" using assms(2) by (simp add: db_ok_def)
  note rows = incomplete_runs_rows [OF keys]
  have "closable db (fst row)" if "row \<in> set (incomplete_runs db)" for row
  proof -
    from that rows(2) have "fst row \<in> set (db_runs db)" "recoverable (rn_status (fst row))" by auto
    with assms(4) find_run_eq [OF keys] show ?thesis by (simp add: closable_def)
  qed
  with recover_each_total [OF assms(1,2) rows(1) _ assms(3)] obtain es db' where
    1: "recover_each ms u t 0 (incomplete_runs db) db = (Inr es, db')" "length es = length (incomplete_runs db)" "db_ok db'"
      "map rn_id (db_runs db') = map rn_id (db_runs db)"
    and closed: "\<forall>row \<in> set (incomplete_runs db). \<exists>r. find_run (rn_id (fst row)) db' = Some r \<and> is_terminal (rn_status r)"
    and rest: "\<forall>j. j \<notin> (\<lambda>row. rn_id (fst row)) ` set (incomplete_runs db) \<longrightarrow> find_run j db' = find_run j db"
    by blast
  have ended: "is_terminal (rn_status r)" if "r \<in> set (db_runs db')" for r
    by (rule recovered_runs_ended [OF assms(2) 1(3) that closed rest])
  from ended ended_runs_settled [OF 1(3) ended] show ?thesis
    using 1(1,2) by (auto simp: recover_incomplete_runs_def)
qed

definition sample_supply :: "nat \<Rightarrow> nat \<Rightarrow> string" where
  "sample_supply n i = replicate n CHR ''a'' @ replicate i CHR ''b''"

lemma sample_supply_fresh: "db_events db = [] \<Longrightarrow> fresh_supply sample_supply n db"
proof -
  have "m = m' \<and> i = i'" if "sample_supply m i = sample_supply m' i'" for m i m' i'
  proof -
    from that have "count_list (sample_supply m i) CHR ''a'' = count_list (sample_supply m' i') CHR ''a''"
      "length (sample_supply m i) = length (sample_supply m' i')" by simp_all
    moreover have "count_list (replicate k x) y = (if x = y then k else 0)" for k and x y :: char
      by (induction k) auto
    ultimately show ?thesis by (simp add: sample_supply_def)
  qed
  then show "db_events db = [] \<Longrightarrow> ?thesis" by (simp add: fresh_supply_def event_ids_def)
qed

theorem recovery_completes_witness:
  "length (incomplete_runs sample_db) = 1 \<and>
   (\<exists>es db. recover_incomplete_runs star_out sample_supply (\<lambda>_ _. ''t'') sample_db = (Inr es, db) \<and>
     length es = 1 \<and> incomplete_runs db = [])"
proof -
  have one: "length (incomplete_runs sample_db) = 1" by (simp add: incomplete_runs_def recoverable_def)
  have "rn_last_seq r + int (pending_of (rn_id r) sample_db) < int i64_max" if "r \<in> set (db_runs sample_db)" for r
    using that by (simp add: pending_of_def run_events_def pending_calls_def)
  with recovery_completes [OF wire_fixed_star_out sample_db_ok sample_supply_fresh] one show ?thesis by fastforce
qed

end
