(* ===== verification/Approval_Claims.thy ===== *)
theory Approval_Claims
  imports State_Approvals Run_Claims
begin

text \<open>
  The properties of approvals: a ticket is created once per tool call and decided at most
  once, a decision for a run that has ended is refused, and a pending ticket of a live run
  can always be decided.
\<close>

section \<open>Lookups in a grown store\<close>

lemma approvals_grow:
  assumes "db_grows db db'" "a \<in> set (db_approvals db)"
  shows "\<exists>a' \<in> set (db_approvals db'). approval_kept a a'"
  using table_grows_member [of approval_kept "db_approvals db" "db_approvals db'" a] assms by (auto simp: db_grows_def)

lemma decided_ticket_stays:
  assumes "approvals_ok db'" "db_grows db db'" "a \<in> set (db_approvals db)" "ap_state a \<noteq> Pending"
  shows "find_approval (ap_id a) db' = Some a"
proof -
  from approvals_grow [OF assms(2,3)] assms(4) have "a \<in> set (db_approvals db')" by (auto simp: approval_kept_def)
  then show ?thesis by (rule find_approval_eq [OF assms(1) _ refl])
qed

lemma update_approvals_hit:
  assumes "find_approval i db = Some a" "decided i actor n a" "update_approvals (decided i actor n) f db = (k, db')"
  shows "f a \<in> set (db_approvals db')"
  unfolding update_approvals_keeps(8) [OF assms(3)]
  using find_approval_Some [OF assms(1)] assms(2) by (intro in_map_if(1)) simp_all

lemma revision_of_pending: "store_ok db \<Longrightarrow> find_approval i db = Some a \<Longrightarrow>
  ap_revision a = (if ap_state a = Pending then 1 else 2)"
  using find_approval_Some [of i db a] by (auto simp: store_ok_def approvals_ok_def ticket_ok_def)

lemma as_u64_small: "as_u64 1 = 1" "as_u64 2 = 2" "as_i64 1 = 1"
  by (simp_all add: as_u64_def as_i64_def)

text \<open>What is stored of a new resolution.\<close>

lemma resolved_rows:
  assumes run: "resolve_approval ms u t actor key fp i rv d answer db = Inr (out, db')"
    and new: "lookup_idempotency d_stored_resolution actor ''approval.resolve'' key fp db = Inr None"
    and ok: "store_ok db"
  obtains a where "a \<in> set (db_approvals db')" "ap_id a = i" "ap_actor_id a = actor"
    "ap_state a = Resolved (decision_outcome d)" "ap_revision a = 2" "ap_answer a = map_option (mask_json ms) answer"
proof -
  let ?f = "resolved_row (t 0) (decision_outcome d) (map_option (mask_json ms) answer) actor"
  from resolve_approval_new [OF run new] obtain a db1 y db2 e db3 j where
    a: "find_approval i db = Some a" "ap_actor_id a = actor" "as_u64 (ap_revision a) = rv" "ap_state a = Pending"
    and 1: "update_approvals (decided i actor (as_i64 rv)) ?f db = (1, db1)"
    and 2: "insert_audit y db1 = Inr db2" and 3: "append_event_tx ms (t 3) actor e db2 = Inr db3"
    and 4: "insert_idempotency actor ''approval.resolve'' key fp j db3 = Inr db'"
    by metis
  have rv: "ap_revision a = 1" using revision_of_pending [OF ok a(1)] a(4) by simp
  then have "as_i64 rv = 1" using a(3) as_u64_small by simp
  then have "decided i actor (as_i64 rv) a" using find_approval_Some [OF a(1)] a rv by (simp add: decided_def)
  from update_approvals_hit [OF a(1) this 1] have "?f a \<in> set (db_approvals db1)" .
  moreover have "db_approvals db' = db_approvals db1"
    using insert_audit_keeps [OF 2] append_event_tx_keeps(3) [OF 3] insert_idempotency_keeps [OF 4] by auto
  ultimately show thesis
    using that [of "?f a"] find_approval_Some [OF a(1)] a rv by (simp add: resolved_row_def)
qed

section \<open>A store with a pending ticket\<close>

definition sample_ticket :: approval_row where
  "sample_ticket = \<lparr>ap_id = ''approval-1'', ap_session_id = ''s'', ap_run_id = ''run-1'', ap_call_id = ''c'',
     ap_tool_name = ''shell'', ap_reason = ''ask'', ap_actor_id = ''amy'', ap_revision = 1, ap_state = Pending,
     ap_decided_by = None, ap_decision_source = None, ap_created_at = ''t'', ap_decided_at = None, ap_answer = None\<rparr>"

definition ticket_db :: db where
  "ticket_db = sample_db\<lparr>db_approvals := [sample_ticket]\<rparr>"

lemma ticket_db_simps [simp]:
  "db_sessions ticket_db = [sample_session]" "db_runs ticket_db = [new_run ''run-1'' ''s'' ''amy'' ''t'' None]"
  "db_events ticket_db = []" "db_idempotency ticket_db = []" "db_audit ticket_db = []"
  "db_approvals ticket_db = [sample_ticket]"
  by (simp_all add: ticket_db_def)

lemma sample_ticket_simps [simp]:
  "ap_id sample_ticket = ''approval-1''" "ap_session_id sample_ticket = ''s''" "ap_run_id sample_ticket = ''run-1''"
  "ap_call_id sample_ticket = ''c''" "ap_actor_id sample_ticket = ''amy''" "ap_revision sample_ticket = 1"
  "ap_state sample_ticket = Pending" "ap_answer sample_ticket = None"
  by (simp_all add: sample_ticket_def)

lemma ticket_db_ok [simp]: "store_ok ticket_db"
proof -
  have "db_ok ticket_db" by (rule db_ok_cong [of _ sample_db]) (simp_all add: ticket_db_def)
  then show ?thesis by (simp add: store_ok_def approvals_ok_def ticket_ok_def audit_of_def)
qed

lemma ticket_db_finds [simp]:
  "find_approval ''approval-1'' ticket_db = Some sample_ticket"
  "find_run ''run-1'' ticket_db = Some (new_run ''run-1'' ''s'' ''amy'' ''t'' None)"
  "lookup_idempotency d actor scope key fp ticket_db = Inr None"
  by (simp_all add: find_approval_def find_run_def lookup_idempotency_def)

lemma pending_resolves:
  assumes "wire_fixed ms" "store_ok db" "find_approval i db = Some a" "ap_actor_id a = actor" "ap_state a = Pending"
    and "find_run (ap_run_id a) db = Some r" "\<not> is_terminal (rn_status r)" "rn_last_seq r < int i64_max"
    and "\<not> list_ex (idempotency_match actor ''approval.resolve'' key) (db_idempotency db)"
    and "''audit-'' @ u 0 \<notin> au_id ` set (db_audit db)" "''event-'' @ u 1 \<notin> event_ids db"
  shows "\<exists>out db' r'. resolve_approval ms u t actor key fp i 1 d answer db = Inr (out, db') \<and>
    rs_answer out = answer \<and> find_run (ap_run_id a) db' = Some r' \<and> rn_status r' = Running \<and>
    approval_outcome_of actor i db' = Inr (Some (decision_outcome d, map_option (mask_json ms) answer))"
proof -
  let ?f = "resolved_row (t 0) (decision_outcome d) (map_option (mask_json ms) answer) actor"
  let ?y = "\<lparr>au_id = ''audit-'' @ u 0, au_actor_id = actor, au_source = ''user'', au_action = ''approval.resolve'',
    au_subject_id = i, au_payload = approval_outcome_json (decision_outcome d), au_occurred_at = t 1\<rparr>"
  have ap: "approvals_ok db" and ok: "db_ok db" using assms(2) by (simp_all add: store_ok_def)
  have rv: "ap_revision a = 1" using revision_of_pending [OF assms(2,3)] assms(5) by simp
  have own: "owned_approval actor i db = Inr a" using assms(3,4) by (simp add: owned_approval_Inr)
  have "find (idempotency_match actor ''approval.resolve'' key) (db_idempotency db) = None"
    using assms(9) by (simp add: find_None_all list_ex_iff)
  then have new: "lookup_idempotency d_stored_resolution actor ''approval.resolve'' key fp db = Inr None"
    by (simp add: lookup_idempotency_def)
  obtain n db1 where upd: "update_approvals (decided i actor 1) ?f db = (n, db1)"
    by (cases "update_approvals (decided i actor 1) ?f db") blast
  then have upd: "update_approvals (decided i actor 1) ?f db = (1, db1)"
    using update_approvals_count [OF ap assms(3-5), of ?f] by (simp add: rv)
  note k = update_approvals_keeps [OF upd]
  have aud: "insert_audit ?y db1 = Inr (db1\<lparr>db_audit := db_audit db1 @ [?y]\<rparr>)"
    using assms(10) by (simp add: insert_audit_def k(6))
  let ?db2 = "db1\<lparr>db_audit := db_audit db1 @ [?y]\<rparr>"
  have same: "db_runs ?db2 = db_runs db" "db_events ?db2 = db_events db" "db_sessions ?db2 = db_sessions db"
    using k by simp_all
  have ok2: "db_ok ?db2" using db_ok_cong [OF same(3,1,2) ok] .
  have r2: "find_run (ap_run_id a) ?db2 = Some r" using assms(6) by (simp add: find_run_def k)
  from assms(2) find_approval_Some [OF assms(3)] obtain r' where
    "r' \<in> set (db_runs db)" "rn_id r' = ap_run_id a" "rn_session_id r' = ap_session_id a" "rn_actor_id r' = actor"
    unfolding store_ok_def approvals_ok_def ticket_ok_def using assms(4) by blast
  then have r: "rn_session_id r = ap_session_id a" "rn_actor_id r = actor"
    using find_run_eq [of db r' "ap_run_id a"] assms(6) ok by (auto simp: db_ok_def)
  let ?e = "approval_resolved_event (u 1) (t 2) a (as_u64 (rn_last_seq r) + 1) \<lparr>ar_id = actor, ar_kind = LocalUser\<rparr>
    (1 + 1) (decision_outcome d)"
  have e: "ee_run_id ?e = ap_run_id a" "ee_session_id ?e = ap_session_id a" "ee_seq ?e = as_u64 (rn_last_seq r) + 1"
    "event_status (ee_event ?e) = Some Running" "writable (ee_event ?e)" "ee_event_id ?e = ''event-'' @ u 1"
    by (simp_all add: approval_resolved_event_def plain_envelope_def)
  have "transition_allowed (rn_status r) Running"
    using recoverable_cases [OF ok assms(6)] assms(7) by (auto simp: transition_allowed_def)
  then have "\<exists>db3. append_event_tx ms (t 3) actor ?e ?db2 = Inr db3"
    by (intro append_event_tx_total [OF assms(1) ok2, where r = r])
       (use r2 r e assms(7,8,11) in \<open>simp_all add: unwrap_or_def event_ids_def k\<close>)
  then obtain db3 where app: "append_event_tx ms (t 3) actor ?e ?db2 = Inr db3" by blast
  have keys2: "keys_ok ?db2" using ok2 by (simp add: db_ok_def)
  from append_event_tx_run [OF app keys2, unfolded e(1), OF r2] e(4) obtain r3 where
    r3: "find_run (ap_run_id a) db3 = Some r3" "rn_status r3 = Running" by (auto simp: unwrap_or_def)
  have "db_idempotency db3 = db_idempotency db" using append_event_tx_keeps(1) [OF app] k(4) by simp
  then have "\<exists>db4. insert_idempotency actor ''approval.resolve'' key fp j db3 = Inr db4" for j
    using assms(9) by (simp add: insert_idempotency_def)
  then obtain db4 where idem: "insert_idempotency actor ''approval.resolve'' key fp (stored_resolution_json
      \<lparr>sr_approval_id = i, sr_run_id = ap_run_id a, sr_session_id = ap_session_id a, sr_call_id = ap_call_id a,
       sr_revision = 1 + 1, sr_outcome = decision_outcome d, sr_answer = map_option (mask_json ms) answer,
       sr_event = ?e\<rparr>) db3 = Inr db4" by blast
  have req: "require_run (ap_run_id a) actor ?db2 = Inr (run_snapshot_of r)"
    using r2 r(2) by (simp add: require_run_def)
  have "\<exists>out. resolve_approval ms u t actor key fp i 1 d answer db = Inr (out, db4) \<and> rs_answer out = answer"
    using new own rv assms(5) upd [unfolded resolved_row_def [abs_def]] aud req app idem
    by (simp add: resolve_approval_def as_u64_small into_public_def Let_def)
  then obtain out where run: "resolve_approval ms u t actor key fp i 1 d answer db = Inr (out, db4)" "rs_answer out = answer"
    by blast
  have ok4: "approvals_ok db4" using resolve_approval_ok [OF run(1) assms(1,2)] by (simp add: store_ok_def)
  obtain b where b: "b \<in> set (db_approvals db4)" "ap_id b = i" "ap_actor_id b = actor"
    "ap_state b = Resolved (decision_outcome d)" "ap_answer b = map_option (mask_json ms) answer"
    using resolved_rows [OF run(1) new assms(2)] by metis
  have "approval_outcome_of actor i db4 = Inr (Some (decision_outcome d, map_option (mask_json ms) answer))"
    using find_approval_eq [OF ok4 b(1,2)] b(3-5) by (simp add: approval_outcome_of_def owned_approval_def)
  moreover have "find_run (ap_run_id a) db4 = Some r3" using r3(1) insert_idempotency_find [OF idem] by simp
  ultimately show ?thesis using run r3(2) by blast
qed

abbreviation sample_resolve :: "db \<Rightarrow> (store_error, approval_resolution \<times> db) result" where
  "sample_resolve \<equiv> resolve_approval star_out (\<lambda>i. ''1'') (\<lambda>i. ''t'') ''amy'' ''k'' ''f'' ''approval-1'' 1
     ApproveCall (Some (JString ''hunter2''))"

lemma sample_resolved: "\<exists>out db. sample_resolve ticket_db = Inr (out, db) \<and> store_ok db"
proof -
  from pending_resolves [OF wire_fixed_star_out ticket_db_ok, of "''approval-1''" sample_ticket "''amy''"
      "new_run ''run-1'' ''s'' ''amy'' ''t'' None" "''k''" "\<lambda>i. ''1''" "\<lambda>i. ''t''" "''f''" ApproveCall "Some (JString ''hunter2'')"]
  obtain out db where run: "sample_resolve ticket_db = Inr (out, db)" by (auto simp: event_ids_def)
  from resolve_approval_ok [OF run wire_fixed_star_out ticket_db_ok] run show ?thesis by blast
qed

text \<open>
  A pending ticket can always be decided. As long as its run is live, its owner's
  resolution at revision 1 succeeds, for fresh ids and a fresh key: the run is running again,
  the ticket reads as decided, and the caller gets the answer as it was given while the store
  keeps it masked.
\<close>

theorem pending_ticket_can_be_decided:
  assumes "wire_fixed ms" "store_ok db" "find_approval i db = Some a" "ap_actor_id a = actor" "ap_state a = Pending"
    and "find_run (ap_run_id a) db = Some r" "\<not> is_terminal (rn_status r)" "rn_last_seq r < int i64_max"
    and "\<not> list_ex (idempotency_match actor ''approval.resolve'' key) (db_idempotency db)"
    and "''audit-'' @ u 0 \<notin> au_id ` set (db_audit db)" "''event-'' @ u 1 \<notin> event_ids db"
  shows "\<exists>out db' r'. resolve_approval ms u t actor key fp i 1 d answer db = Inr (out, db') \<and>
    rs_answer out = answer \<and> find_run (ap_run_id a) db' = Some r' \<and> rn_status r' = Running \<and>
    approval_outcome_of actor i db' = Inr (Some (decision_outcome d, map_option (mask_json ms) answer))"
  using assms by (rule pending_resolves)

theorem pending_ticket_can_be_decided_witness:
  "\<exists>out db. sample_resolve ticket_db = Inr (out, db) \<and> rs_answer out = Some (JString ''hunter2'') \<and>
     approval_outcome_of ''amy'' ''approval-1'' db = Inr (Some (Approved, Some (JString ''***'')))"
proof -
  from pending_ticket_can_be_decided [OF wire_fixed_star_out ticket_db_ok, of "''approval-1''" sample_ticket "''amy''"
      "new_run ''run-1'' ''s'' ''amy'' ''t'' None" "''k''" "\<lambda>i. ''1''" "\<lambda>i. ''t''" "''f''" ApproveCall "Some (JString ''hunter2'')"]
  show ?thesis by (auto simp: event_ids_def decision_outcome_def star_out_def)
qed

section \<open>Deciding once\<close>

text \<open>
  Property C25. A decision is final. Once a ticket has been resolved, in every later state of
  the store its outcome reads as that decision, with the answer masked; another attempt under
  a new key is refused, as a conflict when it names the old revision and as already resolved
  when it names the new one; and an expiry that comes later does nothing.
\<close>

theorem decision_is_final:
  assumes "resolve_approval ms u t actor key fp i rv d answer db = Inr (out, db1)"
    and "lookup_idempotency d_stored_resolution actor ''approval.resolve'' key fp db = Inr None"
    and "store_ok db" "db_grows db1 db2" "store_ok db2"
    and "lookup_idempotency d_stored_resolution actor ''approval.resolve'' key' fp' db2 = Inr None"
  shows "approval_outcome_of actor i db2 = Inr (Some (decision_outcome d, map_option (mask_json ms) answer)) \<and>
    resolve_approval ms' u' t' actor key' fp' i rv' d' answer' db2 =
      Inl (if rv' = 2 then AlreadyResolved else RevisionConflict) \<and>
    expire_approval ms' u' t' actor i db2 = Inr (False, db2)"
proof -
  obtain a where a: "a \<in> set (db_approvals db1)" "ap_id a = i" "ap_actor_id a = actor"
    "ap_state a = Resolved (decision_outcome d)" "ap_revision a = 2" "ap_answer a = map_option (mask_json ms) answer"
    by (rule resolved_rows [OF assms(1-3)])
  have "find_approval i db2 = Some a"
    using decided_ticket_stays [OF _ assms(4) a(1)] a(2,4) assms(5) by (simp add: store_ok_def)
  then have "owned_approval actor i db2 = Inr a" using a(3) by (simp add: owned_approval_Inr)
  then show ?thesis
    using assms(6) a(4-6) as_u64_small by (simp add: approval_outcome_of_def resolve_approval_def expire_approval_def ensure_def)
qed

theorem decision_is_final_witness:
  "\<exists>out db. sample_resolve ticket_db = Inr (out, db) \<and>
     approval_outcome_of ''amy'' ''approval-1'' db = Inr (Some (Approved, Some (JString ''***''))) \<and>
     expire_approval star_out (\<lambda>i. ''1'') (\<lambda>i. ''t'') ''amy'' ''approval-1'' db = Inr (False, db)"
proof -
  obtain out db where run: "sample_resolve ticket_db = Inr (out, db)" "store_ok db" using sample_resolved by blast
  from resolve_approval_new [OF run(1) ticket_db_finds(3)] obtain db1 y db2 e db3 j where
    1: "insert_audit y db1 = Inr db2" "append_event_tx star_out ''t'' ''amy'' e db2 = Inr db3"
      "insert_idempotency ''amy'' ''approval.resolve'' ''k'' ''f'' j db3 = Inr db" "db_idempotency db1 = []"
    by (metis update_approvals_keeps(4) ticket_db_simps(4))
  have "lookup_idempotency d_stored_resolution ''amy'' ''approval.resolve'' ''k2'' ''f'' db = Inr None"
    using 1 insert_audit_keeps [OF 1(1)] append_event_tx_keeps(1) [OF 1(2)]
    by (auto simp: insert_idempotency_def lookup_idempotency_def idempotency_match_def)
  from decision_is_final [OF run(1) ticket_db_finds(3) ticket_db_ok db_grows_refl run(2) this] run(1)
  show ?thesis by (auto simp: decision_outcome_def star_out_def)
qed

text \<open>
  A late decision is refused. When the run of a pending ticket has ended, neither
  a resolution nor an expiry is accepted: every way they can fail is an error, so nothing is
  committed, the ticket stays pending and the run stays ended.
\<close>

theorem late_decision_refused:
  assumes "store_ok db" "find_approval i db = Some a" "ap_actor_id a = actor" "ap_state a = Pending"
    and "find_run (ap_run_id a) db = Some r" "is_terminal (rn_status r)"
    and "lookup_idempotency d_stored_resolution actor ''approval.resolve'' key fp db = Inr None"
  shows "resolve_approval ms u t actor key fp i 1 d answer db \<in> Inl ` {Sqlite, Corrupt SequenceRange, InvalidTransition (rn_status r) Running} \<and>
    expire_approval ms u t actor i db \<in> Inl ` {Sqlite, Corrupt SequenceRange, InvalidTransition (rn_status r) Running}"
proof -
  have rv: "ap_revision a = 1" using revision_of_pending [OF assms(1,2)] assms(4) by simp
  have own: "owned_approval actor i db = Inr a" using assms(2,3) by (simp add: owned_approval_Inr)
  have ap: "approvals_ok db" using assms(1) by (simp add: store_ok_def)
  from assms(1) find_approval_Some [OF assms(2)] obtain r' where
    "r' \<in> set (db_runs db)" "rn_id r' = ap_run_id a" "rn_session_id r' = ap_session_id a" "rn_actor_id r' = actor"
    unfolding store_ok_def approvals_ok_def ticket_ok_def using assms(3) by blast
  then have r: "rn_session_id r = ap_session_id a" "rn_actor_id r = actor"
    using find_run_eq [of db r' "ap_run_id a"] assms(1,5) by (auto simp: store_ok_def db_ok_def)
  have app: "append_event_tx ms t'' actor (approval_resolved_event u' t' a (as_u64 (rn_last_seq r) + 1) by_actor n oc) x
      \<in> Inl ` {Corrupt SequenceRange, InvalidTransition (rn_status r) Running}"
    if "db_runs x = db_runs db" for t'' u' t' by_actor n oc x
    using that assms(5,6) r
    by (simp add: append_event_tx_def require_run_def find_run_def approval_resolved_event_def plain_envelope_def
        ensure_def unwrap_or_def Let_def)
  have decide: "ebind (insert_audit y x) (\<lambda>x. ebind (require_run (ap_run_id a) actor x) (\<lambda>run.
        ebind (append_event_tx ms t'' actor (approval_resolved_event u' t' a (sp_last_seq run + 1) by_actor n oc) x) (k run)))
      \<in> Inl ` {Sqlite, Corrupt SequenceRange, InvalidTransition (rn_status r) Running}"
    if x: "db_runs x = db_runs db" for y x t'' u' t' by_actor n oc and k :: "run_snapshot \<Rightarrow> db \<Rightarrow> (store_error, 'z) result"
  proof (cases "insert_audit y x")
    case (Inl e)
    then have "e = Sqlite" by (simp add: insert_audit_def split: if_splits)
    with Inl show ?thesis by simp
  next
    case (Inr x')
    have x': "db_runs x' = db_runs db" using insert_audit_keeps [OF Inr] x by simp
    then have "require_run (ap_run_id a) actor x' = Inr (run_snapshot_of r)"
      using assms(5) r(2) by (simp add: require_run_def find_run_def)
    with Inr app [OF x', of t'' u' t' by_actor n oc] show ?thesis by auto
  qed
  have upd: "update_approvals (decided i actor 1) f db =
      (1, snd (update_approvals (decided i actor 1) f db))" for f
    using update_approvals_count [OF ap assms(2-4), of f] by (simp add: rv prod_eq_iff)
  have runs: "db_runs (snd (update_approvals (decided i actor 1) f db)) = db_runs db" for f
    using update_approvals_keeps(2) [OF upd] .
  show ?thesis
  proof
    show "resolve_approval ms u t actor key fp i 1 d answer db \<in> Inl ` {Sqlite, Corrupt SequenceRange, InvalidTransition (rn_status r) Running}"
      unfolding resolve_approval_def assms(7) Let_def
      apply (simp only: ebind.simps option.case own rv as_u64_small assms(4) ensure_simps simp_thms)
      apply (subst upd)
      apply (simp only: prod.case ensure_simps ebind.simps simp_thms)
      apply (rule decide [OF runs])
      done
    show "expire_approval ms u t actor i db \<in> Inl ` {Sqlite, Corrupt SequenceRange, InvalidTransition (rn_status r) Running}"
      unfolding expire_approval_def Let_def
      apply (simp only: ebind.simps own rv as_u64_small assms(4) not_True_eq_False if_False simp_thms)
      apply (subst upd)
      apply (simp only: prod.case simp_thms if_False)
      apply (rule decide [OF runs])
      done
  qed
qed



definition late_db :: db where
  "late_db = rewound_db\<lparr>db_approvals := [sample_ticket]\<rparr>"

lemma late_db_ok: "store_ok late_db"
proof -
  have "db_ok late_db" by (rule db_ok_cong [OF _ _ _ rewound_db_sample_ok]) (simp_all add: late_db_def)
  then show ?thesis
    by (simp add: store_ok_def approvals_ok_def ticket_ok_def audit_of_def late_db_def rewound_db_def new_run_def)
qed

theorem late_decision_refused_witness:
  "store_ok late_db \<and> (\<exists>e. sample_resolve late_db = Inl e) \<and>
   (\<exists>e. expire_approval star_out (\<lambda>i. ''1'') (\<lambda>i. ''t'') ''amy'' ''approval-1'' late_db = Inl e)"
proof -
  have "find_approval ''approval-1'' late_db = Some sample_ticket" by (simp add: find_approval_def late_db_def)
  moreover have "find_run (ap_run_id sample_ticket) late_db =
      Some ((new_run ''run-1'' ''s'' ''amy'' ''t'' None)\<lparr>rn_status := Rewound\<rparr>)"
    by (simp add: find_run_def late_db_def rewound_db_def new_run_def)
  moreover have "lookup_idempotency d_stored_resolution ''amy'' ''approval.resolve'' ''k'' ''f'' late_db = Inr None"
    by (simp add: lookup_idempotency_def late_db_def rewound_db_def)
  ultimately show ?thesis
    using late_decision_refused [OF late_db_ok, of "''approval-1''" sample_ticket "''amy''" _ "''k''" "''f''" star_out
        "\<lambda>i. ''1''" "\<lambda>i. ''t''" ApproveCall "Some (JString ''hunter2'')"] late_db_ok
    by auto
qed

section \<open>Retrying\<close>

text \<open>A null answer is stored as the absence of one.\<close>

definition stored_answer :: "(string \<Rightarrow> string) \<Rightarrow> json option \<Rightarrow> json option" where
  "stored_answer ms answer =
     (case answer of None \<Rightarrow> None | Some j \<Rightarrow> if j = JNull then None else Some (mask_json ms j))"

lemma d_opt_answer: "d_opt Some (opt_json id (map_option (mask_json ms) answer)) = Some (stored_answer ms answer)"
  by (cases answer) (simp_all add: d_opt_def opt_json_def stored_answer_def)

lemma stored_resolution_reads:
  assumes "event_finite (ee_event (sr_event r))" "sr_answer r = map_option (mask_json ms) answer"
  shows "d_stored_resolution (stored_resolution_json r) = Some (r\<lparr>sr_answer := stored_answer ms answer\<rparr>)"
  using d_envelope_json [OF assms(1)] d_opt_answer [of ms answer] assms(2)
  by (simp add: d_stored_resolution_def stored_resolution_json_def reading codec)

text \<open>
  A resolution that is retried under its key is answered from its record in every
  later state of the store, and nothing is committed. The answer comes back as it was stored:
  masked, and a null answer as none, so the text of a secret reaches the caller of the first
  attempt only.
\<close>

theorem retried_resolution_is_masked:
  assumes "resolve_approval ms u t actor key fp i rv d answer db = Inr (out, db1)"
    and "lookup_idempotency d_stored_resolution actor ''approval.resolve'' key fp db = Inr None" "db_grows db1 db2"
  shows "resolve_approval ms' u' t' actor key fp i' rv' d' answer' db2 =
    Inr (out\<lparr>rs_created := False, rs_answer := stored_answer ms answer\<rparr>, db2)"
proof -
  from resolve_approval_new [OF assms(1,2)] obtain stored db3 where
    idem: "insert_idempotency actor ''approval.resolve'' key fp
       (stored_resolution_json (stored\<lparr>sr_answer := map_option (mask_json ms) answer\<rparr>)) db3 = Inr db1"
    and out: "out = into_public True stored" and fin: "event_finite (ee_event (sr_event stored))"
  proof (rule resolve_approval_new [OF assms(1,2)])
    fix a dbx y dby r e dbz stored
    assume "e = approval_resolved_event (u 1) (t 2) a (as_u64 (rn_last_seq r) + 1) \<lparr>ar_id = actor, ar_kind = LocalUser\<rparr>
       (rv + 1) (decision_outcome d)"
      and st: "stored = \<lparr>sr_approval_id = i, sr_run_id = ap_run_id a, sr_session_id = ap_session_id a,
       sr_call_id = ap_call_id a, sr_revision = rv + 1, sr_outcome = decision_outcome d, sr_answer = answer,
       sr_event = e\<rparr>"
      and idem: "insert_idempotency actor ''approval.resolve'' key fp
       (stored_resolution_json (stored\<lparr>sr_answer := map_option (mask_json ms) answer\<rparr>)) dbz = Inr db1"
      and out: "out = into_public True stored"
    then have "event_finite (ee_event (sr_event stored))" by (simp add: approval_resolved_event_def plain_envelope_def)
    with idem out show thesis using that by blast
  qed
  have "lookup_idempotency d_stored_resolution actor ''approval.resolve'' key fp db1 =
      Inr (Some (stored\<lparr>sr_answer := stored_answer ms answer\<rparr>))"
    by (rule lookup_insert [OF idem]) (use stored_resolution_reads [of "stored\<lparr>sr_answer := map_option (mask_json ms) answer\<rparr>"] fin in simp)
  from lookup_persists [OF this assms(3)] show ?thesis
    by (simp add: resolve_approval_def out into_public_def)
qed

theorem retried_resolution_is_masked_witness:
  "\<exists>out db. sample_resolve ticket_db = Inr (out, db) \<and>
     sample_resolve db = Inr (out\<lparr>rs_created := False, rs_answer := Some (JString ''***'')\<rparr>, db)"
proof -
  obtain out db where run: "sample_resolve ticket_db = Inr (out, db)" using sample_resolved by blast
  from retried_resolution_is_masked [OF run ticket_db_finds(3) db_grows_refl] run
  show ?thesis by (auto simp: stored_answer_def star_out_def)
qed

section \<open>Creating a ticket\<close>

text \<open>
  A tool call of a run has one ticket. Asking again for the same call, whatever
  happened in the store since, gives the same ticket back with its current revision and
  changes nothing. The first time the run stops and waits: its status is awaiting approval
  and the ticket reads as undecided.
\<close>

theorem one_ticket_per_call:
  assumes "wire_fixed ms" "store_ok db" "db_grows db1 db2"
    and "create_approval_with_arguments ms u t actor session i c tool args reason rule sug kind db = Inr (ticket, db1)"
  shows "(\<exists>n. create_approval_with_arguments ms' u' t' actor session i c tool' args' reason' rule' sug' kind' db2 =
      Inr (\<lparr>at_approval_id = at_approval_id ticket, at_revision = n, at_created = False\<rparr>, db2)) \<and>
    (at_created ticket \<longrightarrow> (\<exists>r. find_run i db1 = Some r \<and> rn_status r = AwaitingApproval) \<and>
      approval_outcome_of actor (at_approval_id ticket) db1 = Inr None)"
proof -
  let ?p = "\<lambda>a. ap_run_id a = i \<and> ap_call_id a = c"
  have found: "\<exists>a r. find ?p (db_approvals db1) = Some a \<and> ap_id a = at_approval_id ticket \<and>
      find_run i db1 = Some r \<and> rn_session_id r = session \<and> rn_actor_id r = actor \<and>
      (at_created ticket \<longrightarrow> rn_status r = AwaitingApproval \<and> a \<in> set (db_approvals db1) \<and> ap_actor_id a = actor \<and>
        ap_state a = Pending)"
    using assms(4)
  proof (cases rule: create_approval_new)
    case (existing a)
    from assms(4) obtain sp where "require_run i actor db = Inr sp" "sp_session_id sp = session"
      by (auto simp: create_approval_with_arguments_def res_simps)
    with existing show ?thesis by (auto simp: require_run_Inr)
  next
    case (new r a e dbx)
    have dbx: "db_approvals dbx = db_approvals db @ [a]" "db_runs dbx = db_runs db" "keys_ok dbx"
      using insert_approval_keeps [OF new(13)] insert_others_db_ok(3) [OF new(13)] assms(2)
      by (simp_all add: store_ok_def db_ok_def)
    have ap: "db_approvals db1 = db_approvals db @ [a]" using append_event_tx_keeps(3) [OF new(14)] dbx(1) by simp
    then have "find ?p (db_approvals db1) = Some a" using new(4,7,8) by (simp add: find_append_eq)
    moreover have e: "ee_run_id e = i" "event_status (ee_event e) = Some AwaitingApproval"
      using new(15) by (simp_all add: approval_required_event_def)
    moreover have "find_run i dbx = Some r" using new(1) dbx(2) by (simp add: find_run_def)
    with append_event_tx_run [OF new(14) dbx(3)] e obtain r' where "find_run i db1 = Some r'"
      "rn_status r' = AwaitingApproval" "rn_session_id r' = session" "rn_actor_id r' = actor"
      using new(2,3) by (auto simp: unwrap_or_def)
    ultimately show ?thesis using new(9,11,16) ap by auto
  qed
  then obtain a r where a: "find ?p (db_approvals db1) = Some a" "ap_id a = at_approval_id ticket"
    and r: "find_run i db1 = Some r" "rn_session_id r = session" "rn_actor_id r = actor"
    and new: "at_created ticket \<Longrightarrow> rn_status r = AwaitingApproval \<and> a \<in> set (db_approvals db1) \<and> ap_actor_id a = actor \<and>
        ap_state a = Pending" by blast
  from assms(3) obtain ks ns where ks: "db_approvals db2 = ks @ ns" "list_all2 approval_kept (db_approvals db1) ks"
    unfolding db_grows_def table_grows_def by blast
  from find_list_all2 [OF ks(2) a(1)] obtain b where "find ?p ks = Some b" "approval_kept a b"
    by (auto simp: approval_kept_def)
  then have b: "find ?p (db_approvals db2) = Some b" "ap_id b = at_approval_id ticket"
    using a(2) by (simp_all add: ks(1) find_append_eq approval_kept_def)
  from find_run_grows [OF assms(3) r(1)] r(2,3) obtain r2 where
    "find_run i db2 = Some r2" "rn_session_id r2 = session" "rn_actor_id r2 = actor" by (auto simp: run_kept_def)
  then have "create_approval_with_arguments ms' u' t' actor session i c tool' args' reason' rule' sug' kind' db2 =
      Inr (\<lparr>at_approval_id = at_approval_id ticket, at_revision = as_u64 (ap_revision b), at_created = False\<rparr>, db2)"
    using b by (simp add: create_approval_with_arguments_def require_run_def)
  moreover have "approval_outcome_of actor (at_approval_id ticket) db1 = Inr None" if "at_created ticket"
  proof -
    have "approvals_ok db1" using create_approval_ok [OF assms(4,1,2)] by (simp add: store_ok_def)
    with find_approval_eq [of db1 a "at_approval_id ticket"] new [OF that] a(2)
    have "find_approval (at_approval_id ticket) db1 = Some a" by blast
    with new [OF that] show ?thesis
      by (simp add: approval_outcome_of_def owned_approval_def)
  qed
  ultimately show ?thesis using r(1) new by blast
qed

abbreviation sample_create :: "db \<Rightarrow> (store_error, approval_ticket \<times> db) result" where
  "sample_create \<equiv> create_approval_with_arguments star_out (\<lambda>i. ''1'') (\<lambda>i. ''t'') ''amy'' ''s'' ''run-1'' ''c'' ''shell''
     [] ''ask'' None None None"

lemma sample_store_ok: "store_ok sample_db"
  by (simp add: store_ok_def approvals_ok_def)

lemma sample_created: "\<exists>ticket db. sample_create sample_db = Inr (ticket, db) \<and> at_created ticket"
proof -
  let ?e = "approval_required_event ''1'' ''t'' ''approval-1'' ''s'' ''run-1'' 1 ''c'' ''shell'' [] ''ask'' None None None"
  have "\<exists>db. append_event_tx star_out ''t'' ''amy'' ?e ticket_db = Inr db"
    by (rule append_event_tx_total [OF wire_fixed_star_out, where r = "new_run ''run-1'' ''s'' ''amy'' ''t'' None"])
       (use ticket_db_ok in \<open>simp_all add: store_ok_def approval_required_event_def transition_allowed_def unwrap_or_def as_u64_def\<close>)
  then show ?thesis
    by (auto simp: create_approval_with_arguments_def require_run_def transition_allowed_def Let_def insert_approval_def
        ticket_db_def sample_ticket_def as_u64_def)
qed

theorem one_ticket_per_call_witness:
  "\<exists>ticket db. sample_create sample_db = Inr (ticket, db) \<and> at_created ticket \<and>
     approval_outcome_of ''amy'' (at_approval_id ticket) db = Inr None"
proof -
  obtain ticket db where run: "sample_create sample_db = Inr (ticket, db)" "at_created ticket" using sample_created by blast
  from one_ticket_per_call [OF wire_fixed_star_out sample_store_ok db_grows_refl run(1)] run show ?thesis by blast
qed

end
