(* ===== verification/State_Machine.thy ===== *)
theory State_Machine
  imports State_Frame State_Budgets Approval_Claims
begin

text \<open>
  The durable store as a state machine. A step is one committed operation, by any actor, with
  any arguments; a crash between two operations loses nothing, so it is no step of its own.
  \<open>store_inv\<close> collects the invariants of the tables; every reachable database
  satisfies it and every later database extends every earlier one.
\<close>

section \<open>The invariant\<close>

definition cancels_ok :: "db \<Rightarrow> bool" where
  "cancels_ok db \<longleftrightarrow> (\<forall>c \<in> set (db_cancels db). \<exists>r \<in> set (db_runs db). rn_id r = ci_run_id c \<and>
     (rn_status r = Cancelled \<or> rn_status r = Rewound))"

definition store_inv :: "(string \<Rightarrow> string) \<Rightarrow> db \<Rightarrow> bool" where
  "store_inv ms db \<longleftrightarrow> db_ok db \<and> approvals_ok db \<and> cancels_ok db \<and> links_ok db \<and> log_masked ms db"

lemma store_inv_empty [simp]: "store_inv ms empty_db"
  by (simp add: store_inv_def cancels_ok_def) (simp add: empty_db_def)

lemma cancels_ok_grows:
  assumes "cancels_ok db" "db_grows db db'" "c \<in> set (db_cancels db)"
  shows "\<exists>r \<in> set (db_runs db'). rn_id r = ci_run_id c \<and> (rn_status r = Cancelled \<or> rn_status r = Rewound)"
proof -
  from assms(1,3) obtain r where r: "r \<in> set (db_runs db)" "rn_id r = ci_run_id c"
    "rn_status r = Cancelled \<or> rn_status r = Rewound" unfolding cancels_ok_def by blast
  from runs_kept [OF assms(2) r(1)] obtain r' where "r' \<in> set (db_runs db')" "run_kept r r'" by blast
  with r show ?thesis by (intro bexI [of _ r']) (auto simp: run_kept_def is_terminal_def)
qed

definition climbs :: "(string \<Rightarrow> string) \<Rightarrow> db \<Rightarrow> db \<Rightarrow> bool" where
  "climbs ms db db' \<longleftrightarrow> (store_inv ms db \<longrightarrow> store_inv ms db' \<and> db_grows db db')"

lemma climbs_refl [simp]: "climbs ms db db"
  by (simp add: climbs_def)

lemma climbs_trans: "climbs ms a b \<Longrightarrow> climbs ms b c \<Longrightarrow> climbs ms a c"
  unfolding climbs_def using db_grows_trans by blast

interpretation climb: extension "climbs ms" for ms
  by unfold_locales (auto intro: climbs_trans)

lemma quiet_climbs:
  assumes "quiet ms db db'"
  shows "climbs ms db db'"
  unfolding climbs_def
proof
  assume inv: "store_inv ms db"
  then have q: "db_ok db'" "db_grows db db'" "log_masked ms db'" "db_approvals db' = db_approvals db"
    "db_audit db' = db_audit db" "db_cancels db' = db_cancels db" "db_links db' = db_links db"
    using assms by (simp_all add: quiet_def store_inv_def)
  have "cancels_ok db'" using cancels_ok_grows [OF _ q(2)] inv q(6) unfolding cancels_ok_def store_inv_def by simp
  then show "store_inv ms db' \<and> db_grows db db'"
    using q inv approvals_ok_grows [of db db'] links_ok_grows [of db db'] by (simp add: store_inv_def)
qed

section \<open>Cancelling\<close>

lemma accept_cancel_climbs:
  assumes run: "accept_cancel ms u t actor key fp i reason by_actor source db = Inr (a, db')" and wf: "wire_fixed ms" "mask_idem ms"
  shows "climbs ms db db'"
proof (cases "lookup_idempotency d_cancelled_result actor ''run.cancel'' key fp db = Inr None")
  case False
  from accept_cancel_replay [OF run False] show ?thesis by simp
next
  case new: True
  from accept_cancel_new [OF run new] obtain s db1 db2 evs db3 e where
    1: "insert_idempotency actor ''run.cancel'' key fp
       (cancelled_result_json \<lparr>cr_run_id = i, cr_accepted = True\<rparr>) db = Inr db1"
    and 2: "insert_cancel \<lparr>ci_run_id = i, ci_actor_id = actor, ci_reason = reason, ci_accepted_at = t 2\<rparr> db1 = Inr db2"
    and 3: "append_interrupted_tool_failures ms (\<lambda>i. u (i + 1)) (\<lambda>i. t (i + 3)) actor s i
       ''run_cancelled'' db2 = Inr (evs, db3)"
    and 4: "append_event_tx ms (t 1) actor e db3 = Inr db'"
    by metis
  show ?thesis
    unfolding climbs_def
  proof
    assume inv: "store_inv ms db"
    then have ok: "db_ok db" and lm: "log_masked ms db" by (simp_all add: store_inv_def)
    note q1 = quiet_idempotency [OF 1, of ms] and q3 = quiet_interruption [OF 3 wf] and q4 = quiet_append [OF wf 4]
    have db2: "db2 = db1\<lparr>db_cancels := db_cancels db1 @ [\<lparr>ci_run_id = i, ci_actor_id = actor, ci_reason = reason,
      ci_accepted_at = t 2\<rparr>]\<rparr>" by (rule insert_cancel_keeps [OF 2])
    have ok1: "db_ok db1" "db_grows db db1" "log_masked ms db1" using q1 ok lm by (simp_all add: quiet_def)
    have ok2: "db_ok db2" by (rule insert_others_db_ok(2) [OF 2 ok1(1)])
    have lm2: "log_masked ms db2" using ok1(3) by (simp add: log_masked_def db2)
    have q: "quiet ms db2 db'" by (rule quiet_trans [OF q3 q4])
    have grow: "db_grows db db'"
      using ok1(2) insert_grows(2) [OF 2] q ok2 db_grows_trans by (auto simp: quiet_def)
    have same: "db_approvals db' = db_approvals db" "db_audit db' = db_audit db" "db_links db' = db_links db"
      "db_cancels db' = db_cancels db @ [\<lparr>ci_run_id = i, ci_actor_id = actor, ci_reason = reason, ci_accepted_at = t 2\<rparr>]"
      using q ok2 q1 ok by (simp_all add: quiet_def db2)
    obtain r where r: "find_run i db' = Some r" "rn_status r = Cancelled"
      using accept_cancel_closes(1) [OF run new wf(1) ok lm] by blast
    have "cancels_ok db'"
      unfolding cancels_ok_def
    proof
      fix c assume "c \<in> set (db_cancels db')"
      then consider "c \<in> set (db_cancels db)" | "ci_run_id c = i" by (auto simp: same(4))
      then show "\<exists>r \<in> set (db_runs db'). rn_id r = ci_run_id c \<and> (rn_status r = Cancelled \<or> rn_status r = Rewound)"
      proof cases
        case 1
        then show ?thesis using cancels_ok_grows [OF _ grow] inv by (simp add: store_inv_def)
      next
        case 2
        with r find_run_Some [OF r(1)] show ?thesis by auto
      qed
    qed
    moreover have "db_ok db'" "log_masked ms db'" using q ok2 lm2 by (simp_all add: quiet_def)
    ultimately show "store_inv ms db' \<and> db_grows db db'"
      using inv grow same approvals_ok_grows [of db db'] links_ok_grows [of db db'] by (simp add: store_inv_def)
  qed
qed

section \<open>Approvals\<close>

text \<open>What keeps runs' ends, links and masking climbs as soon as it keeps the tickets.\<close>

lemma store_ok_climbs:
  assumes "store_inv ms db \<Longrightarrow> store_ok db' \<and> db_grows db db'"
    and "db_cancels db' = db_cancels db" "db_links db' = db_links db" "log_masked ms db \<Longrightarrow> log_masked ms db'"
  shows "climbs ms db db'"
  unfolding climbs_def
proof
  assume inv: "store_inv ms db"
  then have "store_ok db'" and grow: "db_grows db db'" using assms(1) by blast+
  moreover have "cancels_ok db'" using cancels_ok_grows [OF _ grow] inv assms(2) unfolding cancels_ok_def store_inv_def by simp
  ultimately show "store_inv ms db' \<and> db_grows db db'"
    using inv assms(3,4) links_ok_grows [of db db'] by (simp add: store_inv_def store_ok_def)
qed

lemma create_approval_climbs:
  assumes run: "create_approval_with_arguments ms u t actor session i c tool args reason rule sug kind db = Inr (ticket, db')"
    and wf: "wire_fixed ms" "mask_idem ms"
  shows "climbs ms db db'"
proof (rule store_ok_climbs)
  show "store_ok db' \<and> db_grows db db'" if "store_inv ms db"
    using create_approval_ok [OF run wf(1)] that by (simp add: store_inv_def store_ok_def)
  have "db_cancels db' = db_cancels db \<and> db_links db' = db_links db \<and> (log_masked ms db \<longrightarrow> log_masked ms db')"
    using run
  proof (cases rule: create_approval_new)
    case (new r a e db1)
    have "db1 = db\<lparr>db_approvals := db_approvals db @ [a]\<rparr>" by (rule insert_approval_keeps [OF new(13)])
    then show ?thesis
      using append_event_tx_keeps [OF new(14)] append_log_masked [OF wf _ new(14)] by (simp add: log_masked_def)
  qed simp
  then show "db_cancels db' = db_cancels db" "db_links db' = db_links db" "log_masked ms db \<Longrightarrow> log_masked ms db'" by simp_all
qed

lemma decide_frame:
  assumes "update_approvals p f db = (n, db1)" "insert_audit y db1 = Inr db2" "append_event_tx ms t owner e db2 = Inr db3"
    and "wire_fixed ms" "mask_idem ms"
  shows "db_cancels db3 = db_cancels db \<and> db_links db3 = db_links db \<and> (log_masked ms db \<longrightarrow> log_masked ms db3)"
  using update_approvals_keeps [OF assms(1)] insert_audit_keeps [OF assms(2)] append_event_tx_keeps [OF assms(3)]
    append_log_masked [OF assms(4,5) _ assms(3)]
  by (simp add: log_masked_def)

lemma resolve_approval_climbs:
  assumes run: "resolve_approval ms u t actor key fp i rv d answer db = Inr (out, db')" and wf: "wire_fixed ms" "mask_idem ms"
  shows "climbs ms db db'"
proof (cases "lookup_idempotency d_stored_resolution actor ''approval.resolve'' key fp db = Inr None")
  case False
  from resolve_approval_replay [OF run this] show ?thesis by simp
next
  case True
  from run True show ?thesis
  proof (rule resolve_approval_new)
    fix a db1 y db2 r e db3 stored
    assume 1: "update_approvals (decided i actor (as_i64 rv))
       (resolved_row (t 0) (decision_outcome d) (map_option (mask_json ms) answer) actor) db = (1, db1)"
      and 2: "insert_audit y db1 = Inr db2" and 3: "append_event_tx ms (t 3) actor e db2 = Inr db3"
      and 4: "insert_idempotency actor ''approval.resolve'' key fp
       (stored_resolution_json (stored\<lparr>sr_answer := map_option (mask_json ms) answer\<rparr>)) db3 = Inr db'"
    obtain rows where "db' = db3\<lparr>db_idempotency := rows\<rparr>" using insert_idempotency_keeps [OF 4] by blast
    then have same: "db_cancels db' = db_cancels db3" "db_links db' = db_links db3" "log_masked ms db' = log_masked ms db3"
      by (simp_all add: log_masked_def)
    show ?thesis
      by (rule store_ok_climbs)
         (use resolve_approval_ok [OF run wf(1)] decide_frame [OF 1 2 3 wf] same in
           \<open>simp_all add: store_inv_def store_ok_def\<close>)
  qed
qed

lemma expire_approval_climbs:
  assumes run: "expire_approval ms u t actor i db = Inr (b, db')" and wf: "wire_fixed ms" "mask_idem ms"
  shows "climbs ms db db'"
proof (cases b)
  case False
  with run have "store_inv ms db \<Longrightarrow> db' = db"
    using expire_approval_False [of ms u t actor i db db'] by (simp add: store_inv_def)
  then show ?thesis by (auto simp: climbs_def)
next
  case True
  with run have "expire_approval ms u t actor i db = Inr (True, db')" by simp
  then show ?thesis
  proof (rule expire_approval_new)
    fix a db1 y db2 e
    assume 1: "update_approvals (decided i actor (ap_revision a)) (expired_row (t 0)) db = (1, db1)"
      and 2: "insert_audit y db1 = Inr db2" and 3: "append_event_tx ms (t 3) actor e db2 = Inr db'"
    show ?thesis
      by (rule store_ok_climbs)
         (use expire_approval_ok [OF run wf(1)] decide_frame [OF 1 2 3 wf] in \<open>simp_all add: store_inv_def store_ok_def\<close>)
  qed
qed


section \<open>Links, budgets, workers, artifacts\<close>

lemma insert_link_climbs:
  assumes ins: "insert_link l db = Inr db'" and s: "find_session (ln_session_id l) db = Some s" "sn_actor_id s = ln_actor_id l"
    and new: "store_inv ms db \<Longrightarrow> ln_session_id l \<notin> ln_session_id ` set (db_links db)"
  shows "climbs ms db db'"
  unfolding climbs_def
proof
  assume inv: "store_inv ms db"
  have db': "db' = db\<lparr>db_links := db_links db @ [l]\<rparr>" by (rule insert_link_keeps [OF ins])
  have "links_ok db'"
    using insert_link_ok [OF _ ins new [OF inv], of s] find_session_Some [OF s(1)] s(2) inv by (simp add: store_inv_def)
  moreover have "approvals_ok db'" "cancels_ok db'" "log_masked ms db'"
    using inv approvals_ok_grows [of db db'] insert_grows(5) [OF ins] by (simp_all add: store_inv_def cancels_ok_def log_masked_def db')
  ultimately show "store_inv ms db' \<and> db_grows db db'"
    using inv insert_others_db_ok(5) [OF ins] insert_grows(5) [OF ins] by (simp add: store_inv_def)
qed

lemma bind_session_climbs:
  assumes run: "bind_session_to_conversation t actor key fp c session db = Inr (link, db')"
  shows "climbs ms db db'"
proof -
  from run consider "db' = db"
    | j where "insert_idempotency actor ''session.for_conversation'' key fp j db = Inr db'"
    | s db1 j where "find_session session db = Some s" "sn_actor_id s = actor"
        "\<not> list_ex (\<lambda>l. ln_session_id l = session) (db_links db)"
        "insert_link \<lparr>ln_conversation_id = as_i64 c, ln_actor_id = actor, ln_session_id = session, ln_created_at = t 0\<rparr> db = Inr db1"
        "insert_idempotency actor ''session.for_conversation'' key fp j db1 = Inr db'"
    unfolding bind_session_to_conversation_def Let_def
    by (auto simp: res_simps owned_session_Inr split: option.splits if_splits)
  then show ?thesis
  proof cases
    case 2
    then show ?thesis by (rule quiet_climbs [OF quiet_idempotency])
  next
    case (3 s db1 j)
    have "climbs ms db db1"
      by (rule insert_link_climbs [OF 3(4), where s = s]) (use 3(1-3) in \<open>auto simp: list_ex_iff\<close>)
    then show ?thesis using quiet_climbs [OF quiet_idempotency [OF 3(5)]] climbs_trans by blast
  qed simp
qed

lemma link_conversation_climbs:
  assumes run: "link_conversation ms u t actor key fp c title project history trunc db = Inr (link, db')"
    and wf: "wire_fixed ms" "mask_idem ms"
  shows "climbs ms db db'"
proof -
  from run consider "db' = db"
    | j where "insert_idempotency actor ''session.for_conversation'' key fp j db = Inr db'"
    | row db1 db2 db3 es db4 db5 j where "insert_session row db = Inr db1" "sn_id row = ''session-'' @ u 0"
        "sn_actor_id row = actor" "sn_active_run_id row = None"
        "insert_run (new_run (''run-'' @ u 1) (''session-'' @ u 0) actor (t 0) None) db1 = Inr db2"
        "set_active_run (''session-'' @ u 0) (''run-'' @ u 1) db2 = Inr db3" "append_all ms actor es db3 = Inr db4"
        "insert_link \<lparr>ln_conversation_id = as_i64 c, ln_actor_id = actor, ln_session_id = ''session-'' @ u 0,
           ln_created_at = t 0\<rparr> db4 = Inr db5"
        "insert_idempotency actor ''session.for_conversation'' key fp j db5 = Inr db'"
    unfolding link_conversation_def Let_def
    by (simp add: res_simps, elim exE conjE, split option.splits if_splits) (fastforce simp: res_simps split: option.splits)+
  then show ?thesis
  proof cases
    case 2
    then show ?thesis by (rule quiet_climbs [OF quiet_idempotency])
  next
    case (3 row db1 db2 db3 es db4 db5 j)
    have new: "''session-'' @ u 0 \<notin> sn_id ` set (db_sessions db)"
      using 3(1,2) by (auto simp: insert_session_def split: if_splits)
    have find1: "find_session (''session-'' @ u 0) db1 = Some row" using insert_session_find [OF 3(1)] 3(2) by simp
    have q1: "quiet ms db db1" by (rule quiet_insert_session [OF 3(1,4)])
    have q4: "quiet ms db1 db4"
      using quiet_open_run [OF 3(5,6) find1 3(3)] quiet_append_all [OF 3(7) wf] quiet_trans by blast
    have "climbs ms db4 db5" if inv: "store_inv ms db"
    proof -
      have ok: "db_ok db1" "db_ok db4" "db_grows db1 db4" using inv q1 q4 by (auto simp: store_inv_def quiet_def)
      from sessions_kept [OF ok(3), of row] find_session_Some [OF find1] obtain s where
        "s \<in> set (db_sessions db4)" "sn_id s = ''session-'' @ u 0" "sn_actor_id s = actor" using 3(3) by auto
      then have s: "find_session (''session-'' @ u 0) db4 = Some s" "sn_actor_id s = actor"
        using find_session_eq ok(2) by (auto simp: db_ok_def)
      have links: "db_links db4 = db_links db" using inv q1 q4 ok(1) by (simp add: store_inv_def quiet_def)
      have "''session-'' @ u 0 \<notin> ln_session_id ` set (db_links db)"
      proof
        assume "''session-'' @ u 0 \<in> ln_session_id ` set (db_links db)"
        then obtain l where "l \<in> set (db_links db)" "ln_session_id l = ''session-'' @ u 0" by auto
        then obtain s0 where "s0 \<in> set (db_sessions db)" "sn_id s0 = ''session-'' @ u 0"
          using inv unfolding store_inv_def links_ok_def by metis
        with new show False by (metis imageI)
      qed
      with links s show ?thesis by (intro insert_link_climbs [OF 3(8), where s = s]) simp_all
    qed
    then have "climbs ms db db5"
      using climbs_trans [OF quiet_climbs [OF quiet_trans [OF q1 q4]], of db5] by (auto simp: climbs_def)
    then show ?thesis using quiet_climbs [OF quiet_idempotency [OF 3(9)]] climbs_trans by blast
  qed simp
qed

lemma untouched_climbs:
  assumes "db_sessions db' = db_sessions db" "db_runs db' = db_runs db" "db_events db' = db_events db"
    "db_idempotency db' = db_idempotency db" "db_cancels db' = db_cancels db" "db_approvals db' = db_approvals db"
    "db_audit db' = db_audit db" "db_links db' = db_links db"
  shows "climbs ms db db'"
proof (rule quiet_climbs)
  have "db_grows db db'" by (rule grows_same) (simp_all add: assms table_grows_refl)
  then show "quiet ms db db'"
    using db_ok_cong [OF assms(1-3)] by (simp add: quiet_def log_masked_def assms)
qed

lemma side_tables_climb:
  "climbs ms db (set_budget_limits actor w limits db)"
  "reserve_budget actor w delta db = Inr (s, db') \<Longrightarrow> climbs ms db db'"
  "climbs ms db (record_worker_state t k run st g err db)"
  "begin_worker_generation t k run db = Inr (n, db') \<Longrightarrow> climbs ms db db'"
  "add_artifact_reference t a db = Inr db' \<Longrightarrow> climbs ms db db'"
proof -
  show "climbs ms db (set_budget_limits actor w limits db)"
    by (rule untouched_climbs) (simp_all add: set_budget_limits_def)
  show "reserve_budget actor w delta db = Inr (s, db') \<Longrightarrow> climbs ms db db'"
    by (drule reserve_budget_Inr(4)) (rule untouched_climbs, simp_all)
  show "climbs ms db (record_worker_state t k run st g err db)"
    by (rule untouched_climbs) (simp_all add: record_worker_state_def Let_def split: option.splits)
  show "begin_worker_generation t k run db = Inr (n, db') \<Longrightarrow> climbs ms db db'"
    by (rule untouched_climbs) (auto simp: begin_worker_generation_def Let_def res_simps)
  show "add_artifact_reference t a db = Inr db' \<Longrightarrow> climbs ms db db'"
    by (rule untouched_climbs) (auto simp: add_artifact_reference_def insert_artifact_def res_simps split: if_splits)
qed


section \<open>The machine\<close>

text \<open>One committed operation of the store.\<close>

inductive db_step :: "(string \<Rightarrow> string) \<Rightarrow> db \<Rightarrow> db \<Rightarrow> bool" for ms where
  create_session: "create_session u t actor key fp title project db = Inr (r, db') \<Longrightarrow> db_step ms db db'"
| start_run: "start_run u t actor key fp session db = Inr (r, db') \<Longrightarrow> db_step ms db db'"
| start_auxiliary_run: "start_auxiliary_run u t actor session purpose db = Inr (r, db') \<Longrightarrow> db_step ms db db'"
| steer_run: "steer_run ms u t' actor key fp run content ext db = Inr (r, db') \<Longrightarrow> db_step ms db db'"
| append_event: "append_event ms t actor e db = Inr db' \<Longrightarrow> db_step ms db db'"
| append_event_auto: "append_event_auto ms t actor e db = Inr (e', db') \<Longrightarrow> db_step ms db db'"
| record_idempotent: "record_idempotent actor scope key fp j db = Inr db' \<Longrightarrow> db_step ms db db'"
| accept_cancel: "accept_cancel ms u' t' actor key fp run reason by_actor source db = Inr (a, db') \<Longrightarrow> db_step ms db db'"
| recover: "recover_incomplete_runs ms u2 t2 db = (res, db') \<Longrightarrow> db_step ms db db'"
| create_approval:
    "create_approval_with_arguments ms u' t' actor session run call tool args reason rule sug kind db = Inr (k, db') \<Longrightarrow>
     db_step ms db db'"
| resolve_approval: "resolve_approval ms u' t' actor key fp i rv d answer db = Inr (o', db') \<Longrightarrow> db_step ms db db'"
| expire_approval: "expire_approval ms u' t' actor i db = Inr (b, db') \<Longrightarrow> db_step ms db db'"
| fork_session: "fork_session ms u' t' actor key fp source title c q db = Inr (r, db') \<Longrightarrow> db_step ms db db'"
| rewind_session: "rewind_session ms u' t' actor key fp session cursor why db = Inr (w, db') \<Longrightarrow> db_step ms db db'"
| bind_session: "bind_session_to_conversation t' actor key fp conv session db = Inr (l, db') \<Longrightarrow> db_step ms db db'"
| link_conversation:
    "link_conversation ms u' t' actor key fp conv title project history trunc db = Inr (l, db') \<Longrightarrow> db_step ms db db'"
| set_budget_limits: "db' = set_budget_limits actor w limits db \<Longrightarrow> db_step ms db db'"
| reserve_budget: "reserve_budget actor w delta db = Inr (s, db') \<Longrightarrow> db_step ms db db'"
| record_worker: "db' = record_worker_state t k run st g err db \<Longrightarrow> db_step ms db db'"
| begin_worker: "begin_worker_generation t k run db = Inr (g, db') \<Longrightarrow> db_step ms db db'"
| add_artifact: "add_artifact_reference t a db = Inr db' \<Longrightarrow> db_step ms db db'"

lemma db_step_climbs:
  assumes "db_step ms db db'" "wire_fixed ms" "mask_idem ms"
  shows "climbs ms db db'"
  using assms(1)
proof cases
  case recover
  then show ?thesis using quiet_recover_each [OF _ assms(2,3)] quiet_climbs by (metis recover_incomplete_runs_def)
next
  case record_idempotent
  then show ?thesis using quiet_climbs [OF quiet_idempotency] by (simp add: record_idempotent_def)
qed (use assms(2,3) in \<open>auto intro: quiet_climbs quiet_create_session quiet_start_run quiet_start_auxiliary_run
    quiet_steer_run quiet_append_event quiet_fork_session quiet_rewind_session accept_cancel_climbs create_approval_climbs
    resolve_approval_climbs expire_approval_climbs bind_session_climbs link_conversation_climbs side_tables_climb\<close>)

definition db_steps :: "(string \<Rightarrow> string) \<Rightarrow> db \<Rightarrow> db \<Rightarrow> bool" where
  "db_steps ms = (db_step ms)\<^sup>*\<^sup>*"

lemma db_steps_climb:
  assumes "db_steps ms db db'" "wire_fixed ms" "mask_idem ms"
  shows "climbs ms db db'"
  using assms(1) unfolding db_steps_def
  by (induction rule: rtranclp_induct) (auto intro: climbs_trans db_step_climbs [OF _ assms(2,3)])

lemma steps_snoc: "db_steps ms a b \<Longrightarrow> db_step ms b c \<Longrightarrow> db_steps ms a c"
  unfolding db_steps_def by (rule rtranclp.rtrancl_into_rtrancl)

lemma steps_refl [simp]: "db_steps ms a a"
  by (simp add: db_steps_def)

lemma steps_inv: "db_steps ms empty_db db \<Longrightarrow> wire_fixed ms \<Longrightarrow> mask_idem ms \<Longrightarrow> store_inv ms db"
  using db_steps_climb [of ms empty_db db] store_inv_empty [of ms] unfolding climbs_def by blast

text \<open>
  Property C1. Every database the store can reach satisfies its invariant, whatever the
  operations, their order, their actors and their arguments: keys are unique, every log is
  complete and reads back masked, the stored status of a run is the one its log projects to,
  the active run of a session is a live run of it, a ticket is decided exactly once and
  audited exactly once, only ended runs have a cancel intent, and links are one to one.
\<close>

theorem reachable_store_inv:
  assumes "wire_fixed ms" "mask_idem ms" "db_steps ms empty_db db"
  shows "store_inv ms db"
  by (rule steps_inv [OF assms(3,1,2)])

lemma sample_steps: "\<exists>db. db_steps star_out empty_db db \<and> db_sessions db \<noteq> []"
proof -
  obtain r db where run: "create_session ''1'' ''t'' ''amy'' ''k'' ''f'' None None empty_db = Inr (r, db)" "db_sessions db \<noteq> []"
    by (simp add: create_session_def lookup_idempotency_def empty_db_def insert_session_def insert_idempotency_def Let_def)
  from steps_snoc [OF steps_refl db_step.create_session [OF run(1)]] run(2) show ?thesis by blast
qed

theorem reachable_store_inv_witness:
  "\<exists>db. db_steps star_out empty_db db \<and> db_sessions db \<noteq> [] \<and> store_inv star_out db"
  using reachable_store_inv [OF wire_fixed_star_out mask_idem_star_out] sample_steps by blast

text \<open>
  Property C19. History is append-only and an ended run stays ended. From a reachable database
  on, every later one starts with the same events; a run that was completed, failed or
  cancelled keeps its events, its last sequence number and its reason for ever, and its status
  too, unless a rewind marks it as superseded.
\<close>

theorem ended_runs_are_frozen:
  assumes "wire_fixed ms" "mask_idem ms" "db_steps ms empty_db db" "db_steps ms db db'"
    and "find_run i db = Some r" "is_terminal (rn_status r)"
  shows "(\<exists>new. db_events db' = db_events db @ new) \<and>
    (\<exists>r'. find_run i db' = Some r' \<and> (rn_status r' = rn_status r \<or> rn_status r' = Rewound) \<and>
       rn_last_seq r' = rn_last_seq r \<and> rn_finish_reason r' = rn_finish_reason r) \<and>
    run_events i db' = run_events i db"
proof -
  have inv: "store_inv ms db" by (rule steps_inv [OF assms(3,1,2)])
  have inv': "store_inv ms db'" and grow: "db_grows db db'"
    using db_steps_climb [OF assms(4,1,2)] inv by (simp_all add: climbs_def)
  obtain new where new: "db_events db' = db_events db @ new" using grow by (auto simp: db_grows_def table_grows_eq_iff)
  from find_run_grows [OF grow assms(5)] assms(6) obtain r' where r': "find_run i db' = Some r'"
    "rn_status r' = rn_status r \<or> rn_status r' = Rewound" "rn_last_seq r' = rn_last_seq r"
    "rn_finish_reason r' = rn_finish_reason r" by (auto simp: run_kept_def)
  have ok: "db_ok db" "db_ok db'" using inv inv' by (simp_all add: store_inv_def)
  have "run_events i db' = run_events i db @ filter (\<lambda>e. ev_run_id e = i) new" by (simp add: run_events_def new)
  moreover have "length (map ev_seq (run_events i db')) = length (map ev_seq (run_events i db))"
    by (simp only: run_rows(1) [OF ok(2) r'(1)] run_rows(1) [OF ok(1) assms(5)] r'(3))
  ultimately have "run_events i db' = run_events i db" by simp
  with new r' show ?thesis by blast
qed

text \<open>A session, a run and its end, from the empty database.\<close>

definition started_db :: db where
  "started_db = empty_db\<lparr>
     db_sessions := [\<lparr>sn_id = ''session-1'', sn_actor_id = ''amy'', sn_title = None, sn_project_key = None,
       sn_active_run_id = Some ''run-1'', sn_created_at = ''t''\<rparr>],
     db_runs := [new_run ''run-1'' ''session-1'' ''amy'' ''t'' None],
     db_idempotency := [
       \<lparr>ix_actor_id = ''amy'', ix_scope = ''session.create'', ix_key = ''k'', ix_fingerprint = ''f'', ix_result = JString ''session-1''\<rparr>,
       \<lparr>ix_actor_id = ''amy'', ix_scope = ''session.prompt'', ix_key = ''k'', ix_fingerprint = ''f'', ix_result = JString ''run-1''\<rparr>]\<rparr>"

definition created_db :: db where
  "created_db = empty_db\<lparr>
     db_sessions := [\<lparr>sn_id = ''session-1'', sn_actor_id = ''amy'', sn_title = None, sn_project_key = None,
       sn_active_run_id = None, sn_created_at = ''t''\<rparr>],
     db_idempotency := [
       \<lparr>ix_actor_id = ''amy'', ix_scope = ''session.create'', ix_key = ''k'', ix_fingerprint = ''f'', ix_result = JString ''session-1''\<rparr>]\<rparr>"

lemma started_steps: "db_steps ms empty_db started_db"
proof -
  have "create_session ''1'' ''t'' ''amy'' ''k'' ''f'' None None empty_db =
      Inr (\<lparr>out_value = ''session-1'', out_created = True\<rparr>, created_db)"
    by (simp add: create_session_def lookup_idempotency_def insert_session_def insert_idempotency_def Let_def
        created_db_def empty_db_def)
  moreover have "start_run ''1'' ''t'' ''amy'' ''k'' ''f'' ''session-1'' created_db =
      Inr (\<lparr>out_value = ''run-1'', out_created = True\<rparr>, started_db)"
    by (simp add: start_run_def lookup_idempotency_def insert_run_def insert_idempotency_def idempotency_match_def Let_def
        created_db_def started_db_def empty_db_def owned_session_def find_session_def active_guard_def set_active_run_def
        update_session_def)
  ultimately show ?thesis
    using steps_snoc [OF steps_snoc [OF steps_refl db_step.create_session] db_step.start_run] by blast
qed

lemma sample_ended: "\<exists>db r. db_steps star_out empty_db db \<and> find_run ''run-1'' db = Some r \<and> is_terminal (rn_status r)"
proof -
  let ?e = "plain_envelope ''1'' ''session-1'' ''run-1'' 1 ''t'' core_actor ''x''
    (RunFailed \<lparr>rt_reason = ''r'', rt_error_code = None\<rparr>)"
  let ?r = "new_run ''run-1'' ''session-1'' ''amy'' ''t'' None"
  have ok: "db_ok started_db"
    using steps_inv [OF started_steps wire_fixed_star_out mask_idem_star_out] by (simp add: store_inv_def)
  have r: "find_run ''run-1'' started_db = Some ?r" by (simp add: find_run_def started_db_def)
  have "masked_envelope star_out ?e = Inr (mask_envelope star_out (written ?e))"
    by (rule masked_envelope_total [OF wire_fixed_star_out]) simp
  then have mask: "masked_envelope star_out ?e = Inr ?e"
    by (simp add: written_def plain_envelope_def mask_envelope_def star_out_def mask_actor_def core_actor_def
        mask_run_terminal_def mask_map_def)
  have "\<exists>db. append_event_tx star_out ''t'' ''amy'' ?e started_db = Inr db"
    by (rule append_event_tx_total [OF wire_fixed_star_out ok, where r = ?r])
       (simp_all add: r transition_allowed_def unwrap_or_def as_u64_def, simp add: started_db_def empty_db_def)
  then obtain db where app: "append_event_tx star_out ''t'' ''amy'' ?e started_db = Inr db" by blast
  then have "append_event star_out ''t'' ''amy'' ?e started_db = Inr db" by (simp add: append_event_def mask)
  then have "db_steps star_out empty_db db"
    by (rule steps_snoc [OF started_steps db_step.append_event])
  moreover obtain r' where "find_run ''run-1'' db = Some r'" "rn_status r' = Failed"
    using append_event_tx_run [OF app] ok r by (auto simp: db_ok_def unwrap_or_def)
  ultimately show ?thesis by (intro exI [of _ db] exI [of _ r']) (simp add: is_terminal_def)
qed

theorem ended_runs_are_frozen_witness:
  "\<exists>db r. db_steps star_out empty_db db \<and> find_run ''run-1'' db = Some r \<and> is_terminal (rn_status r) \<and>
     run_events ''run-1'' (set_budget_limits ''amy'' ''day'' no_limits db) = run_events ''run-1'' db"
proof -
  obtain db r where 1: "db_steps star_out empty_db db" "find_run ''run-1'' db = Some r" "is_terminal (rn_status r)"
    using sample_ended by blast
  have "db_steps star_out db (set_budget_limits ''amy'' ''day'' no_limits db)"
    by (rule steps_snoc [OF steps_refl db_step.set_budget_limits]) (rule refl)
  from ended_runs_are_frozen [OF wire_fixed_star_out mask_idem_star_out 1(1) this 1(2,3)] 1 show ?thesis by blast
qed

text \<open>
  Recovery never finds a cancel intent. The intent and the end of the run are
  committed together, so in a reachable database no live run has one: the recovery's branch
  that would cancel such a run is never taken, and every recovered run is failed.
\<close>

theorem recovery_finds_no_intent:
  assumes "wire_fixed ms" "mask_idem ms" "db_steps ms empty_db db" "row \<in> set (incomplete_runs db)"
  shows "snd row = None \<and> recovery_event (snd row) =
    RunFailed \<lparr>rt_reason = ''core_restarted'', rt_error_code = Some ''run_interrupted''\<rparr>"
proof -
  have inv: "store_inv ms db" by (rule steps_inv [OF assms(3,1,2)])
  from assms(4) obtain r where r: "r \<in> set (db_runs db)" "recoverable (rn_status r)"
    and row: "row = (r, map_option ci_reason (find (\<lambda>c. ci_run_id c = rn_id r) (db_cancels db)))"
    by (auto simp: incomplete_runs_def)
  have "find (\<lambda>c. ci_run_id c = rn_id r) (db_cancels db) = None"
  proof (rule ccontr)
    assume "find (\<lambda>c. ci_run_id c = rn_id r) (db_cancels db) \<noteq> None"
    then obtain c where "c \<in> set (db_cancels db)" "ci_run_id c = rn_id r" by (auto simp: find_None_all)
    then obtain r' where "r' \<in> set (db_runs db)" "rn_id r' = rn_id r" "rn_status r' = Cancelled \<or> rn_status r' = Rewound"
      using inv unfolding store_inv_def cancels_ok_def by metis
    with same_run [of db r r'] inv r show False by (auto simp: store_inv_def db_ok_def recoverable_def)
  qed
  then show ?thesis by (simp add: row recovery_event_def)
qed

theorem recovery_finds_no_intent_witness:
  "\<exists>row. incomplete_runs started_db = [row] \<and> snd row = None"
proof -
  obtain row where row: "incomplete_runs started_db = [row]"
    by (simp add: incomplete_runs_def started_db_def recoverable_def new_run_def)
  moreover have "snd row = None"
    using recovery_finds_no_intent [OF wire_fixed_star_out mask_idem_star_out started_steps, of row] row by simp
  ultimately show ?thesis by blast
qed

text \<open>
  Conversations and sessions are linked one to one, and only to their owner. In a
  reachable database the session a conversation answers with is linked back to that
  conversation, for the same actor, and belongs to the actor; another actor is refused.
\<close>

theorem links_are_one_to_one:
  assumes "wire_fixed ms" "mask_idem ms" "db_steps ms empty_db db"
    and "session_for_conversation actor c db = Inr (Some session)"
  shows "conversation_id_for_session actor session db = Inr (Some (as_i64 c)) \<and>
    (\<exists>s. find_session session db = Some s \<and> sn_actor_id s = actor) \<and>
    (other \<noteq> actor \<longrightarrow> session_for_conversation other c db = Inl ActorMismatch \<and>
       conversation_id_for_session other session db = Inl ActorMismatch)"
proof -
  have inv: "links_ok db" "keys_ok db"
    using steps_inv [OF assms(3,1,2)] by (simp_all add: store_inv_def db_ok_def)
  from assms(4) obtain l where l: "link_of c db = Some l" "ln_actor_id l = actor" "ln_session_id l = session"
    by (auto simp: session_for_conversation_def split: option.splits if_splits)
  then have mem: "l \<in> set (db_links db)" "ln_conversation_id l = as_i64 c"
    using find_Some_in [of _ "db_links db" l] by (auto simp: link_of_def)
  have "distinct (map ln_session_id (link_scan db))" "set (link_scan db) = set (db_links db)"
    using inv(1) by (auto simp: links_ok_def link_scan_def distinct_map)
  with find_distinct_eq [of ln_session_id "link_scan db" l session] mem(1) l(3)
  have scan: "find (\<lambda>x. ln_session_id x = session) (link_scan db) = Some l" by simp
  from inv(1) mem(1) obtain s where "s \<in> set (db_sessions db)" "sn_id s = session" "sn_actor_id s = actor"
    unfolding links_ok_def using l(2,3) by blast
  then have "find_session session db = Some s \<and> sn_actor_id s = actor" using find_session_eq [OF inv(2)] by blast
  then show ?thesis
    using l mem(2) scan by (auto simp: session_for_conversation_def conversation_id_for_session_def)
qed

definition linked_db :: db where
  "linked_db = started_db\<lparr>
     db_idempotency := db_idempotency started_db @ [\<lparr>ix_actor_id = ''amy'', ix_scope = ''session.for_conversation'',
       ix_key = ''k'', ix_fingerprint = ''f'', ix_result = conversation_link_json \<lparr>cl_conversation_id = 7,
         cl_session_id = ''session-1'', cl_created = True, cl_imported_events = 0, cl_truncated = False\<rparr>\<rparr>],
     db_links := [\<lparr>ln_conversation_id = as_i64 7, ln_actor_id = ''amy'', ln_session_id = ''session-1'', ln_created_at = ''t''\<rparr>]\<rparr>"

lemma linked_steps: "db_steps ms empty_db linked_db"
proof -
  have "bind_session_to_conversation (\<lambda>i. ''t'') ''amy'' ''k'' ''f'' 7 ''session-1'' started_db =
    Inr (\<lparr>cl_conversation_id = 7, cl_session_id = ''session-1'', cl_created = True, cl_imported_events = 0,
      cl_truncated = False\<rparr>, linked_db)"
    by (simp add: bind_session_to_conversation_def lookup_idempotency_def idempotency_match_def link_of_def linked_db_def
        started_db_def empty_db_def owned_session_def find_session_def insert_link_def insert_idempotency_def Let_def)
  then show ?thesis by (rule steps_snoc [OF started_steps db_step.bind_session])
qed

theorem links_are_one_to_one_witness:
  "session_for_conversation ''amy'' 7 linked_db = Inr (Some ''session-1'') \<and>
   conversation_id_for_session ''amy'' ''session-1'' linked_db = Inr (Some (as_i64 7))"
proof -
  have "session_for_conversation ''amy'' 7 linked_db = Inr (Some ''session-1'')"
    by (simp add: session_for_conversation_def link_of_def linked_db_def)
  with links_are_one_to_one [OF wire_fixed_star_out mask_idem_star_out linked_steps this] show ?thesis by blast
qed

end
