(* ===== verification/Seed_Runs.thy ===== *)
theory Seed_Runs
  imports State_Machine
begin

text \<open>
  The seed runs that fork and rewind write: appending a copied history to a new run always
  succeeds on a good store with fresh ids, and what the run reads as afterwards.
\<close>

section \<open>Copying events into a new run\<close>

lemma event_status_remap [simp]: "event_status (remap_event ins b e) = event_status e"
  by (cases e) simp_all

lemma writable_remap [simp]: "writable (remap_event ins b e) = writable e"
  by (cases e) simp_all

definition copyable :: "string \<Rightarrow> string \<Rightarrow> event_envelope \<Rightarrow> bool" where
  "copyable session run e \<longleftrightarrow> ee_session_id e = session \<and> ee_run_id e = run \<and> writable (ee_event e)"

definition open_event :: "event_envelope \<Rightarrow> bool" where
  "open_event e \<longleftrightarrow> event_status (ee_event e) = None \<or> event_status (ee_event e) = Some Running"

lemma copy_step_total:
  assumes wf: "wire_fixed ms" and ok: "db_ok (cs_db s)" and r: "find_run run (cs_db s) = Some r" "rn_status r = Running"
    and n: "rn_last_seq r = int n" "int n < int i64_max"
    and e: "copyable (rn_session_id r) run e" "ee_event_id e \<notin> event_ids (cs_db s)"
    and st: "st = unwrap_or Running (event_status (ee_event e))" "transition_allowed Running st"
  shows "\<exists>s'. copy_step ms t (rn_actor_id r) copied (n, e) s = Inr s' \<and>
    closed_to run r st 1 {ee_event_id e} (cs_db s) (cs_db s')"
proof -
  let ?e = "if 0 < n then e\<lparr>ee_seq := of_nat n + 1, ee_event := remap_event (cs_inserted s) (cs_boundary s) (ee_event e)\<rparr>
    else e\<lparr>ee_seq := of_nat n + 1\<rparr>"
  have "\<exists>db'. append_event_tx ms (t n) (rn_actor_id r) ?e (cs_db s) = Inr db' \<and> closed_to run r st 1 {ee_event_id ?e} (cs_db s) db'"
    by (rule append_closed_to [OF wf ok r(1)])
       (use r(2) n e st in \<open>simp_all add: copyable_def as_u64_def is_terminal_def\<close>)
  then obtain db' where app: "append_event_tx ms (t n) (rn_actor_id r) ?e (cs_db s) = Inr db'"
    and cl: "closed_to run r st 1 {ee_event_id e} (cs_db s) db'" by (auto split: if_splits)
  have "\<exists>s'. copy_step ms t (rn_actor_id r) copied (n, e) s = Inr s' \<and> cs_db s' = db'"
    using app by (cases "0 < n") (auto simp: copy_step_def Let_def)
  with cl show ?thesis by auto
qed

lemma copy_loop_total:
  assumes wf: "wire_fixed ms"
  shows "db_ok (cs_db s) \<Longrightarrow> find_run run (cs_db s) = Some r \<Longrightarrow> rn_status r = Running \<Longrightarrow> rn_last_seq r = int n \<Longrightarrow>
    int n + int (length es) \<le> int i64_max \<Longrightarrow> \<forall>e \<in> set es. copyable (rn_session_id r) run e \<and> open_event e \<Longrightarrow>
    distinct (map ee_event_id es) \<Longrightarrow> \<forall>e \<in> set es. ee_event_id e \<notin> event_ids (cs_db s) \<Longrightarrow>
    \<exists>s'. efold (copy_step ms t (rn_actor_id r) copied) (enumerate n es) s = Inr s' \<and>
      closed_to run r Running (int (length es)) (set (map ee_event_id es)) (cs_db s) (cs_db s')"
proof (induction es arbitrary: n s r)
  case Nil
  then show ?case using closed_to_refl [OF Nil.prems(1,2)] by simp
next
  case (Cons e es)
  have st: "Running = unwrap_or Running (event_status (ee_event e))"
    using Cons.prems(6) by (auto simp: open_event_def unwrap_or_def)
  have "\<exists>s1. copy_step ms t (rn_actor_id r) copied (n, e) s = Inr s1 \<and> closed_to run r Running 1 {ee_event_id e} (cs_db s) (cs_db s1)"
    by (rule copy_step_total [OF wf Cons.prems(1-4) _ _ _ st])
       (use Cons.prems(5,6,8) in \<open>simp_all add: transition_allowed_def\<close>)
  then obtain s1 where s1: "copy_step ms t (rn_actor_id r) copied (n, e) s = Inr s1"
    and one: "closed_to run r Running 1 {ee_event_id e} (cs_db s) (cs_db s1)" by blast
  from one obtain r1 where r1: "find_run run (cs_db s1) = Some r1" "rn_status r1 = Running" "rn_last_seq r1 = rn_last_seq r + 1"
    "rn_session_id r1 = rn_session_id r" "rn_actor_id r1 = rn_actor_id r" and ok1: "db_ok (cs_db s1)"
    and ids: "event_ids (cs_db s1) = event_ids (cs_db s) \<union> {ee_event_id e}"
    by (auto simp: closed_to_def)
  have n1: "rn_last_seq r1 = int (Suc n)" and room: "int (Suc n) + int (length es) \<le> int i64_max"
    using r1(3) Cons.prems(4,5) by simp_all
  have cp: "\<forall>e \<in> set es. copyable (rn_session_id r1) run e \<and> open_event e" using Cons.prems(6) r1(4) by simp
  have dist: "distinct (map ee_event_id es)" and out: "ee_event_id e \<notin> ee_event_id ` set es" using Cons.prems(7) by simp_all
  have new: "\<forall>x \<in> set es. ee_event_id x \<notin> event_ids (cs_db s1)"
  proof
    fix x assume x: "x \<in> set es"
    then have "ee_event_id x \<noteq> ee_event_id e" using out by (metis imageI)
    with x Cons.prems(8) show "ee_event_id x \<notin> event_ids (cs_db s1)" by (simp add: ids)
  qed
  from Cons.IH [OF ok1 r1(1,2) n1 room cp dist new] obtain s' where
    rest: "efold (copy_step ms t (rn_actor_id r1) copied) (enumerate (Suc n) es) s1 = Inr s'"
    and more: "closed_to run r1 Running (int (length es)) (set (map ee_event_id es)) (cs_db s1) (cs_db s')" by blast
  have "closed_to run r Running (int (length (e # es))) (set (map ee_event_id (e # es))) (cs_db s) (cs_db s')"
    using closed_to_trans [OF one r1(1) more] by (simp add: add.commute)
  with s1 rest r1(5) show ?case by simp
qed

text \<open>A whole seed run: open events, then one that completes it.\<close>

lemma copy_events_total:
  assumes wf: "wire_fixed ms" and ok: "db_ok db" and r: "find_run run db = Some r" "rn_status r = Running" "rn_last_seq r = 0"
    and es: "\<forall>e \<in> set es. copyable (rn_session_id r) run e \<and> open_event e"
    and z: "copyable (rn_session_id r) run z" "event_status (ee_event z) = Some Completed"
    and ids: "distinct (map ee_event_id (es @ [z]))" "\<forall>e \<in> set (es @ [z]). ee_event_id e \<notin> event_ids db"
    and room: "int (length es) < int i64_max"
  shows "\<exists>db'. copy_events ms t (rn_actor_id r) copied (es @ [z]) db = Inr db' \<and>
    closed_to run r Completed (int (length es) + 1) (set (map ee_event_id (es @ [z]))) db db'"
proof -
  let ?s = "\<lparr>cs_db = db, cs_boundary = 0, cs_inserted = []\<rparr>"
  have "\<exists>s1. efold (copy_step ms t (rn_actor_id r) copied) (enumerate 0 es) ?s = Inr s1 \<and>
      closed_to run r Running (int (length es)) (set (map ee_event_id es)) (cs_db ?s) (cs_db s1)"
    by (rule copy_loop_total [OF wf]) (use ok r es ids room in simp_all)
  then obtain s1 where s1: "efold (copy_step ms t (rn_actor_id r) copied) (enumerate 0 es) ?s = Inr s1"
    and one: "closed_to run r Running (int (length es)) (set (map ee_event_id es)) db (cs_db s1)" by auto
  from one obtain r1 where r1: "find_run run (cs_db s1) = Some r1" "rn_status r1 = Running" "rn_last_seq r1 = int (length es)"
    "rn_session_id r1 = rn_session_id r" "rn_actor_id r1 = rn_actor_id r" and ok1: "db_ok (cs_db s1)"
    and eids: "event_ids (cs_db s1) = event_ids db \<union> set (map ee_event_id es)"
    using r(3) by (auto simp: closed_to_def)
  have "ee_event_id z \<notin> event_ids (cs_db s1)" using ids by (auto simp: eids)
  with copy_step_total [OF wf ok1 r1(1-3) room _ _ _ , of z Completed t copied] z r1(4)
  obtain s2 where s2: "copy_step ms t (rn_actor_id r1) copied (length es, z) s1 = Inr s2"
    and two: "closed_to run r1 Completed 1 {ee_event_id z} (cs_db s1) (cs_db s2)"
    by (auto simp: unwrap_or_def transition_allowed_def)
  have "copy_events ms t (rn_actor_id r) copied (es @ [z]) db = Inr (cs_db s2)"
    using s1 s2 r1(5) by (simp add: copy_events_def enumerate_append_eq efold_append)
  moreover have "closed_to run r Completed (int (length es) + 1) (set (map ee_event_id (es @ [z]))) db (cs_db s2)"
    using closed_to_trans [OF one r1(1) two] by simp
  ultimately show ?thesis by blast
qed

section \<open>What a copied history reads as\<close>

text \<open>
  Two entries have the same content when they differ at most in the cursor of a compaction
  marker, whose numbering is that of the database they are stored in.
\<close>

definition content :: "event_envelope \<Rightarrow> canonical_event" where
  "content e = remap_event [] 0 (ee_event e)"

definition entries :: "event_envelope list \<Rightarrow> canonical_event list" where
  "entries es = filter is_history_event (map content es)"

lemma entries_simps [simp]: "entries [] = []" "entries (xs @ ys) = entries xs @ entries ys"
  "entries (e # es) = (if is_history_event (ee_event e) then content e # entries es else entries es)"
  by (simp_all add: entries_def) (cases "ee_event e"; simp add: content_def)

lemma remap_twice [simp]: "remap_event [] b (remap_event ins b' e) = remap_event [] b e"
  by (cases e) (simp_all add: remap_cursor_def [abs_def] option.map_comp comp_def)

lemma mask_remap [simp]: "mask_event ms (remap_event ins b e) = remap_event ins b (mask_event ms e)"
  by (cases e) (simp_all add: mask_session_compacted_def)

lemma written_remap [simp]: "written_event (remap_event ins b e) = remap_event ins b (written_event e)"
  by (cases e) simp_all

text \<open>The stored form of an appended event.\<close>

definition stored_as :: "(string \<Rightarrow> string) \<Rightarrow> event_envelope \<Rightarrow> event_envelope" where
  "stored_as ms e = mask_envelope ms (written e)"

lemma copy_step_logged:
  assumes "wire_fixed ms" "copy_step ms t owner copied (i, e) s = Inr s'" "ee_run_id e = run" "logged run (cs_db s) es"
  shows "\<exists>e'. logged run (cs_db s') (es @ [e']) \<and> content e' = content (stored_as ms e)"
proof -
  let ?e = "if 0 < i then e\<lparr>ee_seq := of_nat i + 1, ee_event := remap_event (cs_inserted s) (cs_boundary s) (ee_event e)\<rparr>
    else e\<lparr>ee_seq := of_nat i + 1\<rparr>"
  from assms(2) have app: "append_event_tx ms (t i) owner ?e (cs_db s) = Inr (cs_db s')"
    by (auto simp: copy_step_def Let_def res_simps split: if_splits)
  have run: "ee_run_id ?e = run" using assms(3) by simp
  have "logged run (cs_db s') (es @ [mask_envelope ms (written ?e)])"
    by (rule append_logged [OF assms(1) app, unfolded run, OF assms(4)])
  moreover have "content (mask_envelope ms (written ?e)) = content (stored_as ms e)"
    by (simp add: content_def stored_as_def mask_envelope_def written_def)
  ultimately show ?thesis by blast
qed

lemma copy_loop_logged:
  assumes wf: "wire_fixed ms"
  shows "efold (copy_step ms t owner copied) (enumerate n es) s = Inr s' \<Longrightarrow> \<forall>e \<in> set es. ee_run_id e = run \<Longrightarrow>
    logged run (cs_db s) old \<Longrightarrow>
    \<exists>new. logged run (cs_db s') (old @ new) \<and> map content new = map (\<lambda>e. content (stored_as ms e)) es"
proof (induction es arbitrary: n s old)
  case Nil
  then show ?case by simp
next
  case (Cons e es)
  from Cons.prems(1) obtain s1 where s1: "copy_step ms t owner copied (n, e) s = Inr s1"
    and rest: "efold (copy_step ms t owner copied) (enumerate (Suc n) es) s1 = Inr s'"
    by (auto simp: res_simps)
  from copy_step_logged [OF wf s1 _ Cons.prems(3)] Cons.prems(2) obtain e' where
    "logged run (cs_db s1) (old @ [e'])" "content e' = content (stored_as ms e)" by auto
  moreover from Cons.IH [OF rest _ this(1)] Cons.prems(2) obtain new where
    "logged run (cs_db s') ((old @ [e']) @ new)" "map content new = map (\<lambda>e. content (stored_as ms e)) es" by auto
  ultimately show ?case by (intro exI [of _ "e' # new"]) simp
qed

lemma entries_content: "map content xs = map content ys \<Longrightarrow> entries xs = entries ys"
  unfolding entries_def by simp

lemma copy_events_logged:
  assumes "wire_fixed ms" "copy_events ms t owner copied es db = Inr db'" "\<forall>e \<in> set es. ee_run_id e = run" "logged run db []"
  shows "\<exists>new. logged run db' new \<and> entries new = entries (map (stored_as ms) es)"
proof -
  from assms(2) obtain s' where s': "efold (copy_step ms t owner copied) (enumerate 0 es)
      \<lparr>cs_db = db, cs_boundary = 0, cs_inserted = []\<rparr> = Inr s'" "db' = cs_db s'"
    by (auto simp: copy_events_def res_simps)
  from copy_loop_logged [OF assms(1) s'(1) assms(3), of "[]"] assms(4) obtain new where
    "logged run db' new" "map content new = map content (map (stored_as ms) es)"
    by (auto simp: s'(2) comp_def)
  then show ?thesis using entries_content by blast
qed

section \<open>Reading rows\<close>

lemma read_rows_iff:
  "read_rows rows = Inr es \<longleftrightarrow> list_all2 (\<lambda>row e. d_envelope (ev_envelope row) = Some e) rows es"
proof (induction rows arbitrary: es)
  case Nil
  then show ?case by auto
next
  case (Cons row rows)
  then show ?case
    by (cases es) (auto simp: res_simps read_row_def)
qed

lemma read_numbered_iff:
  "read_numbered rows = Inr es \<longleftrightarrow>
     list_all2 (\<lambda>x y. fst y = fst x \<and> d_envelope (ev_envelope (snd x)) = Some (snd y)) rows es"
proof (induction rows arbitrary: es)
  case Nil
  then show ?case by auto
next
  case (Cons x rows)
  obtain i row where x: "x = (i, row)" by (cases x)
  from Cons show ?case
    by (cases es) (auto simp: x res_simps read_row_def)
qed

lemma read_numbered_rows: "read_numbered rows = Inr es \<Longrightarrow> read_rows (map snd rows) = Inr (map snd es)"
  unfolding read_numbered_iff read_rows_iff list_all2_map1 list_all2_map2
  by (auto elim: list_all2_mono)

lemma read_numbered_rev: "read_numbered (rev rows) = Inr es \<longleftrightarrow> read_numbered rows = Inr (rev es)"
  unfolding read_numbered_iff using list_all2_rev [where xs = "rev rows" and ys = es] by simp

lemma read_numbered_total:
  "\<forall>x \<in> set rows. row_readable (snd x) \<Longrightarrow> \<exists>es. read_numbered rows = Inr es"
proof (induction rows)
  case (Cons x rows)
  obtain i row where x: "x = (i, row)" by (cases x)
  from Cons obtain es where "read_numbered rows = Inr es" by auto
  moreover from Cons.prems obtain e where "d_envelope (ev_envelope row) = Some e" by (auto simp: x row_readable_def)
  ultimately show ?case by (simp add: x read_row_def)
qed simp

lemma read_numbered_in:
  assumes "read_numbered rows = Inr es" "y \<in> set es"
  shows "\<exists>x \<in> set rows. fst y = fst x \<and> d_envelope (ev_envelope (snd x)) = Some (snd y)"
  using assms unfolding read_numbered_iff by (induction rule: list_all2_induct) auto

lemma in_numbered: "x \<in> set (numbered_events db) \<Longrightarrow> snd x \<in> set (db_events db)"
  unfolding numbered_events_def by (metis imageI list.set_map map_snd_enumerate)

lemma in_joined: "x \<in> set (joined p db) \<Longrightarrow> snd x \<in> set (db_events db)"
  by (auto simp: joined_def in_numbered)

lemma in_by_rowid: "x \<in> set (by_rowid p db) \<Longrightarrow> snd x \<in> set (db_events db)"
  by (auto simp: by_rowid_def in_numbered)

lemma map_snd_numbered: "map snd (filter (\<lambda>x. q (snd x)) (enumerate n xs)) = filter q xs"
  by (induction xs arbitrary: n) auto

text \<open>The rows of a join are the logs of its runs; with one run in view both orders agree.\<close>

lemma joined_rows:
  assumes "db_ok db"
  shows "map snd (joined p db) = concat (map (\<lambda>r. run_events (rn_id r) db) (filter p (db_runs db)))"
proof -
  have "map snd (sort_key (\<lambda>x. ev_seq (snd x)) (filter (\<lambda>x. ev_run_id (snd x) = rn_id r) (numbered_events db))) =
      run_events (rn_id r) db" if "r \<in> set (db_runs db)" for r
  proof -
    let ?rows = "filter (\<lambda>x. ev_run_id (snd x) = rn_id r) (numbered_events db)"
    have snd: "map snd ?rows = run_events (rn_id r) db"
      unfolding numbered_events_def run_events_def by (rule map_snd_numbered)
    have "map ev_seq (run_events (rn_id r) db) = [1..rn_last_seq r]"
      using assms that by (simp add: db_ok_def log_complete_def)
    moreover have "map (\<lambda>x. ev_seq (snd x)) ?rows = map ev_seq (map snd ?rows)" by simp
    ultimately have "sorted (map (\<lambda>x. ev_seq (snd x)) ?rows)" unfolding snd by simp
    then show ?thesis using snd by (simp add: sort_key_id_if_sorted)
  qed
  then show ?thesis by (auto simp: joined_def map_concat comp_def intro!: arg_cong [where f = concat] map_cong)
qed

lemma one_run_in_view:
  assumes "db_ok db" "find_run i db = Some r" "filter p (db_runs db) = [r]"
  shows "map snd (joined p db) = run_events i db" "map snd (by_rowid p db) = run_events i db"
proof -
  have i: "rn_id r = i" using find_run_Some [OF assms(2)] by simp
  show "map snd (joined p db) = run_events i db" by (simp add: joined_rows [OF assms(1)] assms(3) i)
  have only: "list_ex (\<lambda>r'. rn_id r' = j \<and> p r') (db_runs db) \<longleftrightarrow> j = i" for j
  proof -
    have "list_ex (\<lambda>r'. rn_id r' = j \<and> p r') (db_runs db) \<longleftrightarrow> (\<exists>r' \<in> set (filter p (db_runs db)). rn_id r' = j)"
      by (auto simp: list_ex_iff)
    then show ?thesis by (auto simp: assms(3) i)
  qed
  show "map snd (by_rowid p db) = run_events i db"
    unfolding by_rowid_def only numbered_events_def run_events_def by (rule map_snd_numbered)
qed

section \<open>Opening, filling and completing a seed run\<close>

lemma copy_events_keeps:
  assumes "copy_events ms t owner copied es db = Inr db'"
  shows "db_idempotency db' = db_idempotency db"
proof -
  from assms obtain st where st: "efold (copy_step ms t owner copied) (enumerate 0 es)
      \<lparr>cs_db = db, cs_boundary = 0, cs_inserted = []\<rparr> = Inr st" "db' = cs_db st"
    by (auto simp: copy_events_def res_simps)
  have "db_idempotency (cs_db st) = db_idempotency db"
  proof (rule efold_invariant [OF st(1), where P = "\<lambda>s. db_idempotency (cs_db s) = db_idempotency db"])
    fix x s s' assume same: "db_idempotency (cs_db s) = db_idempotency db" and step: "copy_step ms t owner copied x s = Inr s'"
    from step obtain e where "append_event_tx ms (t (fst x)) owner e (cs_db s) = Inr (cs_db s')"
      by (auto simp: copy_step_def Let_def res_simps split: if_splits)
    with same show "db_idempotency (cs_db s') = db_idempotency db" by (simp add: append_event_tx_keeps)
  qed simp
  with st(2) show ?thesis by simp
qed

definition seeds :: "string \<Rightarrow> string \<Rightarrow> event_envelope list \<Rightarrow> bool" where
  "seeds session run es \<longleftrightarrow> (\<exists>os z. es = os @ [z] \<and> (\<forall>e \<in> set os. copyable session run e \<and> open_event e) \<and>
     copyable session run z \<and> event_status (ee_event z) = Some Completed)"

text \<open>What a seed run leaves: one more run, completed, with the copied entries.\<close>

definition seeded :: "(string \<Rightarrow> string) \<Rightarrow> string \<Rightarrow> string \<Rightarrow> event_envelope list \<Rightarrow> db \<Rightarrow> db \<Rightarrow> bool" where
  "seeded ms session run es db db' \<longleftrightarrow> db_ok db' \<and> db_grows db db' \<and>
     (\<exists>r new. find_run run db' = Some r \<and> rn_status r = Completed \<and> rn_session_id r = session \<and>
        logged run db' new \<and> entries new = entries (map (stored_as ms) es)) \<and>
     map rn_id (db_runs db') = map rn_id (db_runs db) @ [run] \<and>
     (\<forall>j. j \<noteq> run \<longrightarrow> find_run j db' = find_run j db \<and> run_events j db' = run_events j db)"

lemma seed_run:
  assumes wf: "wire_fixed ms" "mask_idem ms" and ok: "db_ok db" and s: "find_session session db = Some s" "sn_actor_id s = actor"
    and run: "run \<notin> rn_id ` set (db_runs db)" and es: "seeds session run es"
    and ids: "distinct (map ee_event_id es)" "\<forall>e \<in> set es. ee_event_id e \<notin> event_ids db"
    and room: "int (length es) \<le> int i64_max"
  obtains db1 db2 db3 where "insert_run (new_run run session actor t None) db = Inr db1"
    "set_active_run session run db1 = Inr db2" "copy_events ms t' actor copied es db2 = Inr db3"
    "seeded ms session run es db db3" "db_idempotency db3 = db_idempotency db"
proof -
  let ?r = "new_run run session actor t None"
  have "session \<in> sn_id ` set (db_sessions db)" using find_session_Some [OF s(1)] by (metis imageI)
  with run obtain db1 where db1: "insert_run ?r db = Inr db1" by (simp add: insert_run_def)
  have row: "db1 = db\<lparr>db_runs := db_runs db @ [?r]\<rparr>" using db1 by (simp add: insert_run_Inr)
  have "run \<in> rn_id ` set (db_runs db1)" by (simp add: row)
  then obtain db2 where db2: "set_active_run session run db1 = Inr db2" by (simp add: set_active_run_def)
  have rn: "db_runs db2 = db_runs db1" "db_events db2 = db_events db1" "db_idempotency db2 = db_idempotency db1"
    using db2 by (auto simp: set_active_run_def update_session_def split: if_splits)
  have ok2: "db_ok db2" using quiet_open_run [OF db1 db2 s, of ms] ok by (simp add: quiet_def)
  have find: "find_run run db2 = Some ?r" using insert_run_find(1) [OF db1] set_active_run_find [OF db2] by simp
  have ev: "run_events j db2 = run_events j db" for j by (simp add: run_events_def rn row)
  have "run_events run db = []" using new_run_events [of db run] ok run by (simp add: db_ok_def)
  then have log: "logged run db2 []" by (simp add: logged_def ev)
  from es obtain os z where z: "es = os @ [z]" "\<forall>e \<in> set os. copyable session run e \<and> open_event e"
    "copyable session run z" "event_status (ee_event z) = Some Completed" by (auto simp: seeds_def)
  have ids2: "event_ids db2 = event_ids db" by (simp add: event_ids_def rn row)
  have "\<exists>db3. copy_events ms t' (rn_actor_id ?r) copied (os @ [z]) db2 = Inr db3 \<and>
      closed_to run ?r Completed (int (length os) + 1) (set (map ee_event_id (os @ [z]))) db2 db3"
    by (rule copy_events_total [OF wf(1) ok2 find]) (use z ids room in \<open>simp_all add: ids2\<close>)
  then obtain db3 where db3: "copy_events ms t' actor copied es db2 = Inr db3"
    and cl: "closed_to run ?r Completed (int (length os) + 1) (set (map ee_event_id es)) db2 db3" by (auto simp: z(1))
  have "\<forall>e \<in> set es. ee_run_id e = run" using z by (auto simp: copyable_def)
  from copy_events_logged [OF wf(1) db3 this log] obtain new where
    new: "logged run db3 new" "entries new = entries (map (stored_as ms) es)" by blast
  have other: "find_run j db2 = find_run j db" if "j \<noteq> run" for j
    using insert_run_find(2) [OF db1] set_active_run_find [OF db2] that by simp
  have "db_grows db db3"
    using quiet_trans [OF quiet_open_run [OF db1 db2 s] quiet_copy_events [OF db3 wf]] ok by (simp add: quiet_def)
  then have "seeded ms session run es db db3"
    unfolding seeded_def using cl new by (auto simp: closed_to_def rn row ev other)
  moreover have "db_idempotency db3 = db_idempotency db" using copy_events_keeps [OF db3] rn by (simp add: row)
  ultimately show thesis using that db1 db2 db3 by blast
qed

section \<open>The events of a seed run\<close>

lemma history_event_facts:
  assumes "is_history_event e"
  shows "event_status e = None" "writable e" "written_event e = e"
  using assms by (cases e; simp)+

lemma history_copies_facts:
  assumes "history_copies f rows = Inr copied" "\<And>e. ee_event (f e) = ee_event e"
    and "\<forall>x \<in> set rows. row_masked ms (snd x)" "y \<in> set copied"
  shows "is_history_event (ee_event (snd y))" "mask_event ms (ee_event (snd y)) = ee_event (snd y)"
proof -
  from assms(1) obtain es where es: "read_numbered rows = Inr es"
    "copied = map (\<lambda>(i, e). (i, f e)) (filter (\<lambda>x. is_history_event (ee_event (snd x))) es)"
    by (auto simp: history_copies_def res_simps)
  with assms(4) obtain e where e: "y = (fst e, f (snd e))" "e \<in> set es" "is_history_event (ee_event (snd e))" by auto
  then show "is_history_event (ee_event (snd y))" by (simp add: assms(2))
  from read_numbered_in [OF es(1) e(2)] obtain x where x: "x \<in> set rows" "d_envelope (ev_envelope (snd x)) = Some (snd e)" by auto
  with assms(3) have "mask_envelope ms (snd e) = snd e" by (auto simp: row_masked_def)
  then have "ee_event (mask_envelope ms (snd e)) = ee_event (snd e)" by simp
  then show "mask_event ms (ee_event (snd y)) = ee_event (snd y)" by (simp add: e(1) assms(2) mask_envelope_def)
qed

lemma history_copies_total:
  assumes "\<forall>x \<in> set rows. row_readable (snd x)"
  shows "\<exists>copied. history_copies f rows = Inr copied \<and> length copied \<le> length rows"
proof -
  from read_numbered_total [OF assms] obtain es where es: "read_numbered rows = Inr es" by blast
  then have "length es = length rows" unfolding read_numbered_iff by (simp add: list_all2_lengthD)
  with es show ?thesis
    by (auto simp: history_copies_def intro: order_trans [OF length_filter_le])
qed

definition copies ::
    "(nat \<Rightarrow> string) \<Rightarrow> string \<Rightarrow> string \<Rightarrow> string \<Rightarrow> (event_envelope \<Rightarrow> json_map) \<Rightarrow> nat \<Rightarrow>
     (nat \<times> event_envelope) list \<Rightarrow> event_envelope list" where
  "copies u session run source_name ext n copied =
     map (\<lambda>(i, x). copied_event (u i) session run source_name (ext (snd x)) (snd x)) (enumerate n copied)"

lemma copies_facts:
  assumes "\<forall>y \<in> set copied. is_history_event (ee_event (snd y)) \<and> mask_event ms (ee_event (snd y)) = ee_event (snd y)"
  shows "\<forall>e \<in> set (copies u session run src ext n copied). copyable session run e \<and> open_event e"
    "map ee_event_id (copies u session run src ext n copied) = map (\<lambda>j. ''event-'' @ u j) [n..<n + length copied]"
    "entries (map (stored_as ms) (copies u session run src ext n copied)) = map (\<lambda>y. content (snd y)) copied"
    "length (copies u session run src ext n copied) = length copied"
  using assms
proof (induction copied arbitrary: n)
  case (Cons y copied)
  {
    case 1
    with Cons.IH(1) [of "Suc n"] history_event_facts [of "ee_event (snd y)"] show ?case
      by (simp add: copies_def copied_event_def copyable_def open_event_def)
  next
    case 2
    with Cons.IH(2) [of "Suc n"] show ?case by (simp add: copies_def copied_event_def upt_conv_Cons del: upt_Suc)
  next
    case 3
    with Cons.IH(3) [of "Suc n"] history_event_facts(3) [of "ee_event (snd y)"] show ?case
      by (simp add: copies_def copied_event_def stored_as_def mask_envelope_def written_def content_def)
  next
    case 4
    with Cons.IH(4) [of "Suc n"] show ?case by (simp add: copies_def)
  }
qed (simp_all add: copies_def)

lemma copies_shift:
  "map (\<lambda>(i, x). copied_event (u (i + k)) session run src (ext (snd x)) (snd x)) (enumerate n copied) =
   copies u session run src ext (n + k) copied"
proof (induction copied arbitrary: n)
  case (Cons y copied)
  from Cons.IH [of "Suc n"] show ?case by (simp add: copies_def)
qed (simp add: copies_def)

lemma event_numbers:
  "[2..<n + 4] = 2 # [3..<3 + n] @ [n + 3]" "[1..<n + 4] = 1 # [2..<2 + n] @ [n + 2, n + 3]"
proof -
  have e: "n + 4 = Suc (n + 3)" "n + 3 = Suc (n + 2)" by simp_all
  have "[2..<n + 3] = 2 # [3..<n + 3]" "[1..<n + 2] = 1 # [2..<n + 2]"
    using upt_conv_Cons [of 2 "n + 3"] upt_conv_Cons [of 1 "n + 2"] by (simp_all add: numeral_eq_Suc)
  moreover have "[2..<n + 4] = [2..<n + 3] @ [n + 3]" unfolding e(1) by (subst upt_Suc) simp
  moreover have "[1..<n + 4] = [1..<n + 2] @ [n + 2, n + 3]"
    unfolding e(1) by (subst upt_Suc, simp only: e(2), subst upt_Suc) simp
  ultimately show "[2..<n + 4] = 2 # [3..<3 + n] @ [n + 3]" "[1..<n + 4] = 1 # [2..<2 + n] @ [n + 2, n + 3]"
    by (simp_all only: append_Cons add.commute)
qed

lemma fork_events_eq:
  "fork_events u t session run copied =
     plain_envelope (u 2) session run 0 (t 0) core_actor ''cool-state-fork'' (RunStarted \<lparr>rs_model = None, rs_mode = Some ''fork''\<rparr>) #
     copies u session run ''cool-state-fork'' ee_extensions 3 copied @
     [plain_envelope (u (length copied + 3)) session run 0 (t 1) core_actor ''cool-state-fork''
        (RunCompleted \<lparr>rt_reason = ''fork'', rt_error_code = None\<rparr>)]"
  unfolding fork_events_def using copies_shift [of u 3 session run "''cool-state-fork''" ee_extensions 0] by simp

lemma rewind_events_eq:
  "rewind_events u t session run c reason copied =
     plain_envelope (u 1) session run 0 (t 0) core_actor ''cool-state-rewind'' (RunStarted \<lparr>rs_model = None, rs_mode = Some ''rewind''\<rparr>) #
     copies u session run ''cool-state-rewind'' (\<lambda>e. bt_insert ''rewound'' (JBool True) (ee_extensions e)) 2 copied @
     [plain_envelope (u (length copied + 2)) session run 0 (t 1) core_actor ''cool-state-rewind''
        (RunRewound \<lparr>rr_cursor = c, rr_reason = reason\<rparr>),
      plain_envelope (u (length copied + 3)) session run 0 (t 2) core_actor ''cool-state-rewind''
        (RunCompleted \<lparr>rt_reason = ''rewind'', rt_error_code = None\<rparr>)]"
  unfolding rewind_events_def
  using copies_shift [of u 2 session run "''cool-state-rewind''" "\<lambda>e. bt_insert ''rewound'' (JBool True) (ee_extensions e)" 0]
  by (simp only: add_0 append_Cons append_Nil)

lemma seedsI:
  assumes "\<forall>e \<in> set os. copyable session run e \<and> open_event e" "copyable session run z" "event_status (ee_event z) = Some Completed"
  shows "seeds session run (os @ [z])"
  using assms unfolding seeds_def by blast

lemma fork_events_facts:
  assumes "\<forall>y \<in> set copied. is_history_event (ee_event (snd y)) \<and> mask_event ms (ee_event (snd y)) = ee_event (snd y)"
  shows "seeds session run (fork_events u t session run copied)"
    "map ee_event_id (fork_events u t session run copied) = map (\<lambda>j. ''event-'' @ u j) [2..<length copied + 4]"
    "entries (map (stored_as ms) (fork_events u t session run copied)) = map (\<lambda>y. content (snd y)) copied"
    "length (fork_events u t session run copied) = length copied + 2"
proof -
  note c = copies_facts [OF assms]
  show "seeds session run (fork_events u t session run copied)"
    unfolding fork_events_eq append_Cons [symmetric]
    by (rule seedsI) (use c(1) in \<open>auto simp: copyable_def open_event_def\<close>)
  show "map ee_event_id (fork_events u t session run copied) = map (\<lambda>j. ''event-'' @ u j) [2..<length copied + 4]"
    by (simp add: fork_events_eq c(2) event_numbers del: upt_Suc)
  show "entries (map (stored_as ms) (fork_events u t session run copied)) = map (\<lambda>y. content (snd y)) copied"
    by (simp add: fork_events_eq c(3)) (simp add: stored_as_def mask_envelope_def written_def)
  show "length (fork_events u t session run copied) = length copied + 2" by (simp add: fork_events_eq c(4))
qed

lemma rewind_events_facts:
  assumes "\<forall>y \<in> set copied. is_history_event (ee_event (snd y)) \<and> mask_event ms (ee_event (snd y)) = ee_event (snd y)"
  shows "seeds session run (rewind_events u t session run k reason copied)"
    "map ee_event_id (rewind_events u t session run k reason copied) = map (\<lambda>j. ''event-'' @ u j) [1..<length copied + 4]"
    "entries (map (stored_as ms) (rewind_events u t session run k reason copied)) = map (\<lambda>y. content (snd y)) copied"
    "length (rewind_events u t session run k reason copied) = length copied + 3"
proof -
  note c = copies_facts [OF assms]
  have snoc: "e # xs @ [a, b] = (e # xs @ [a]) @ [b]" for e a b :: event_envelope and xs by simp
  show "seeds session run (rewind_events u t session run k reason copied)"
    unfolding rewind_events_eq snoc
    by (rule seedsI) (use c(1) in \<open>auto simp: copyable_def open_event_def\<close>)
  show "map ee_event_id (rewind_events u t session run k reason copied) = map (\<lambda>j. ''event-'' @ u j) [1..<length copied + 4]"
    unfolding event_numbers by (simp add: rewind_events_eq c(2) del: upt_Suc)
  show "entries (map (stored_as ms) (rewind_events u t session run k reason copied)) = map (\<lambda>y. content (snd y)) copied"
    by (simp add: rewind_events_eq c(3)) (simp add: stored_as_def mask_envelope_def written_def)
  show "length (rewind_events u t session run k reason copied) = length copied + 3" by (simp add: rewind_events_eq c(4))
qed

lemma joined_length:
  assumes "keys_ok db"
  shows "length (joined p db) \<le> length (db_events db)"
proof -
  have "distinct (map rn_id rs) \<Longrightarrow>
      length (concat (map (\<lambda>r. sort_key (\<lambda>x. ev_seq (snd x)) (filter (\<lambda>x. ev_run_id (snd x) = rn_id r) xs)) rs)) \<le> length xs"
    for rs :: "run_row list" and xs :: "(nat \<times> event_row) list"
  proof (induction rs arbitrary: xs)
    case (Cons r rs)
    let ?ys = "filter (\<lambda>x. ev_run_id (snd x) \<noteq> rn_id r) xs"
    have "filter (\<lambda>x. ev_run_id (snd x) = rn_id r') ?ys = filter (\<lambda>x. ev_run_id (snd x) = rn_id r') xs"
      if "r' \<in> set rs" for r'
    proof -
      have "rn_id r' \<noteq> rn_id r" using that Cons.prems by (metis distinct.simps(2) imageI list.simps(9) list.set_map)
      then show ?thesis by (auto intro!: filter_cong)
    qed
    then have same: "map (\<lambda>r. sort_key (\<lambda>x. ev_seq (snd x)) (filter (\<lambda>x. ev_run_id (snd x) = rn_id r) ?ys)) rs =
        map (\<lambda>r. sort_key (\<lambda>x. ev_seq (snd x)) (filter (\<lambda>x. ev_run_id (snd x) = rn_id r) xs)) rs"
      by (intro map_cong refl) simp
    have "distinct (map rn_id rs)" using Cons.prems by simp
    from Cons.IH [OF this, of ?ys, unfolded same] sum_length_filter_compl [of "\<lambda>x. ev_run_id (snd x) = rn_id r" xs]
    show ?case by simp
  qed simp
  moreover have "distinct (map rn_id (filter p (db_runs db)))"
    using assms by (simp add: keys_ok_def distinct_map_filter)
  ultimately show ?thesis using length_enumerate [of 1 "db_events db"] unfolding joined_def numbered_events_def by metis
qed

section \<open>The tables after a seed run\<close>

lemma same_by_key:
  "map f xs = map f ys \<Longrightarrow> (\<And>x y. x \<in> set xs \<Longrightarrow> y \<in> set ys \<Longrightarrow> f x = f y \<Longrightarrow> x = y) \<Longrightarrow> xs = ys"
proof (induction xs arbitrary: ys)
  case (Cons x xs)
  then show ?case by (cases ys) auto
qed simp

lemma seeded_runs:
  assumes "seeded ms session run es db db'" "keys_ok db"
  obtains r where "db_runs db' = db_runs db @ [r]" "find_run run db' = Some r" "rn_status r = Completed" "rn_session_id r = session"
proof -
  from assms(1) have ids: "map rn_id (db_runs db') = map rn_id (db_runs db) @ [run]" and keys: "keys_ok db'"
    and other: "\<And>j. j \<noteq> run \<Longrightarrow> find_run j db' = find_run j db"
    by (simp_all add: seeded_def db_ok_def)
  from assms(1) obtain r where r: "find_run run db' = Some r" "rn_status r = Completed" "rn_session_id r = session"
    by (auto simp: seeded_def)
  from ids obtain xs x where xs: "db_runs db' = xs @ [x]" "map rn_id xs = map rn_id (db_runs db)" "rn_id x = run"
    by (auto simp: map_eq_append_conv)
  have "find_run run db' = Some x" using find_run_eq [OF keys, of x] xs by simp
  with r(1) have "x = r" by simp
  have "xs = db_runs db"
  proof (rule same_by_key [OF xs(2)])
    fix a b assume a: "a \<in> set xs" and b: "b \<in> set (db_runs db)" and eq: "rn_id a = rn_id b"
    have "distinct (map rn_id xs @ [run])" using keys by (simp add: keys_ok_def xs(1,3))
    with a have "rn_id a \<noteq> run" by (metis distinct_append disjoint_iff imageI list.set_intros(1) list.set_map)
    moreover have "find_run (rn_id a) db' = Some a" using find_run_eq [OF keys, of a] a xs(1) by simp
    moreover have "find_run (rn_id a) db = Some b" by (rule find_run_eq [OF assms(2) b eq [symmetric]])
    ultimately show "a = b" using other [of "rn_id a"] by (metis option.inject)
  qed
  with xs(1) \<open>x = r\<close> r that show thesis by blast
qed

lemma find_session_grows:
  assumes "db_grows db db'" "keys_ok db'" "find_session i db = Some s"
  shows "\<exists>s'. find_session i db' = Some s' \<and> sn_actor_id s' = sn_actor_id s"
proof -
  from find_session_Some [OF assms(3)] have "s \<in> set (db_sessions db)" "sn_id s = i" by simp_all
  with sessions_kept [OF assms(1), of s] obtain s' where
    "s' \<in> set (db_sessions db')" "sn_id s' = i" "sn_actor_id s' = sn_actor_id s" by auto
  with find_session_eq [OF assms(2), of s'] show ?thesis by auto
qed

lemma fresh_event_ids:
  assumes "fresh_ids u n db" "map ee_event_id es = map (\<lambda>j. ''event-'' @ u j) [n..<m]"
  shows "distinct (map ee_event_id es)" "\<forall>e \<in> set es. ee_event_id e \<notin> event_ids db"
proof -
  show "distinct (map ee_event_id es)"
    using assms(1) unfolding assms(2) by (auto simp: distinct_map fresh_ids_def inj_on_def)
  show "\<forall>e \<in> set es. ee_event_id e \<notin> event_ids db"
  proof
    fix e assume "e \<in> set es"
    then have "ee_event_id e \<in> set (map ee_event_id es)" by simp
    then show "ee_event_id e \<notin> event_ids db" using assms(1) unfolding assms(2) by (auto simp: fresh_ids_def)
  qed
qed

end
