(* ===== verification/History_Claims.thy ===== *)
theory History_Claims
  imports State_Machine Seed_Runs
begin

text \<open>
  Forking and rewinding as a whole: from a good store both succeed, and the session they leave
  reads as the part of the history that was asked for.
\<close>

section \<open>Forking\<close>

lemma lookup_fresh:
  assumes "\<not> list_ex (idempotency_match actor scope key) (db_idempotency db)"
  shows "lookup_idempotency read actor scope key fp db = Inr None"
proof -
  have "find (idempotency_match actor scope key) (db_idempotency db) = None"
    using assms by (auto simp: find_None_all list_ex_iff)
  then show ?thesis by (simp add: lookup_cases)
qed

lemma session_events_eq:
  assumes "\<exists>s. find_session session db = Some s \<and> sn_actor_id s = actor"
  shows "session_events session actor db = read_rows (map snd (joined (\<lambda>r. rn_session_id r = session) db))"
proof -
  from assms obtain s where "owned_session session actor db = Inr s" by (auto simp: owned_session_Inr)
  then show ?thesis by (simp add: session_events_def)
qed

lemma fork_copies_cong:
  assumes "db_events db' = db_events db" "filter (visible source) (db_runs db') = filter (visible source) (db_runs db)"
  shows "fork_copies source c q db' = fork_copies source c q db"
  by (simp add: fork_copies_def joined_def numbered_events_def assms)

lemma log_masked_rows: "log_masked ms db \<Longrightarrow> \<forall>x \<in> set (joined p db). row_masked ms (snd x)"
  using in_joined by (auto simp: log_masked_def)

lemma readable_rows: "db_ok db \<Longrightarrow> \<forall>x \<in> set (joined p db). row_readable (snd x)"
  using in_joined by (auto simp: db_ok_def)

lemma fork_copies_facts:
  assumes "db_ok db" "log_masked ms db"
  shows "\<exists>copied. fork_copies source c q db = Inr copied \<and> length copied \<le> length (db_events db) \<and>
    (\<forall>y \<in> set copied. is_history_event (ee_event (snd y)) \<and> mask_event ms (ee_event (snd y)) = ee_event (snd y))"
proof -
  let ?rows = "filter (\<lambda>x. bounded_by c (int (fst x)) \<and> bounded_by q (ev_seq (snd x))) (joined (visible source) db)"
  let ?f = "\<lambda>e. e\<lparr>ee_extensions := bt_remove ''checkpoint_ref'' (ee_extensions e)\<rparr>"
  have rd: "\<forall>x \<in> set ?rows. row_readable (snd x)" and mk: "\<forall>x \<in> set ?rows. row_masked ms (snd x)"
    using readable_rows [OF assms(1), of "visible source"] log_masked_rows [OF assms(2), of "visible source"] by simp_all
  from history_copies_total [OF rd, of ?f] obtain copied where
    c: "history_copies ?f ?rows = Inr copied" "length copied \<le> length ?rows" by blast
  moreover have "length ?rows \<le> length (db_events db)"
    using joined_length [of db "visible source"] length_filter_le assms(1) order_trans unfolding db_ok_def by blast
  moreover have "\<forall>y \<in> set copied. is_history_event (ee_event (snd y)) \<and> mask_event ms (ee_event (snd y)) = ee_event (snd y)"
    using history_copies_facts [OF c(1) _ mk] by simp
  ultimately show ?thesis by (intro exI [of _ copied]) (simp add: fork_copies_def)
qed

lemma fork_total:
  assumes "wire_fixed ms" "mask_idem ms" "store_inv ms db" "find_session source db = Some s" "sn_actor_id s = actor"
    and "\<not> list_ex (idempotency_match actor ''session.fork'' key) (db_idempotency db)"
    and "''session-'' @ u 0 \<notin> sn_id ` set (db_sessions db)" "''run-'' @ u 1 \<notin> rn_id ` set (db_runs db)"
    and "fresh_ids u 2 db" "int (length (db_events db)) + 2 \<le> int i64_max"
  obtains row db1 copied db3 j where
    "insert_session row db = Inr db1" "sn_id row = ''session-'' @ u 0" "sn_actor_id row = actor"
    "fork_copies source c q db = Inr copied"
    "\<forall>y \<in> set copied. is_history_event (ee_event (snd y)) \<and> mask_event ms (ee_event (snd y)) = ee_event (snd y)"
    "seeded ms (''session-'' @ u 0) (''run-'' @ u 1) (fork_events u t (''session-'' @ u 0) (''run-'' @ u 1) copied) db1 db3"
    "fork_session ms u t actor key fp source title c q db =
       Inr (\<lparr>out_value = ''session-'' @ u 0, out_created = True\<rparr>, db3\<lparr>db_idempotency := j\<rparr>)"
proof -
  let ?session = "''session-'' @ u 0" and ?run = "''run-'' @ u 1"
  let ?row = "\<lparr>sn_id = ?session, sn_actor_id = actor, sn_title = or_else title (sn_title s),
                sn_project_key = sn_project_key s, sn_active_run_id = None, sn_created_at = t 0\<rparr>"
  have ok: "db_ok db" and lm: "log_masked ms db" using assms(3) by (simp_all add: store_inv_def)
  obtain db1 where db1: "insert_session ?row db = Inr db1" using assms(7) by (simp add: insert_session_def)
  have same: "db1 = db\<lparr>db_sessions := db_sessions db @ [?row]\<rparr>" using db1 by (simp add: insert_session_def split: if_splits)
  have ok1: "db_ok db1" using quiet_insert_session [OF db1, of ms] ok by (simp add: quiet_def)
  from fork_copies_facts [OF ok lm] obtain copied where
    copied: "fork_copies source c q db = Inr copied" "length copied \<le> length (db_events db)"
    "\<forall>y \<in> set copied. is_history_event (ee_event (snd y)) \<and> mask_event ms (ee_event (snd y)) = ee_event (snd y)" by blast
  let ?es = "fork_events u t ?session ?run copied"
  note facts = fork_events_facts [OF copied(3)]
  have fresh: "fresh_ids u 2 db1" using assms(9) by (simp add: fresh_ids_def event_ids_def same)
  have find: "find_session ?session db1 = Some ?row" using insert_session_find [OF db1] by simp
  have room: "int (length ?es) \<le> int i64_max" using copied(2) assms(10) by (simp add: facts(4))
  have run: "?run \<notin> rn_id ` set (db_runs db1)" using assms(8) by (simp add: same)
  obtain db2a db2 db3 where open_run: "insert_run (new_run ?run ?session actor (t 0) None) db1 = Inr db2a"
    "set_active_run ?session ?run db2a = Inr db2" and copy: "copy_events ms (\<lambda>i. t (i + 2)) actor copied ?es db2 = Inr db3"
    and seeded: "seeded ms ?session ?run ?es db1 db3" and idem: "db_idempotency db3 = db_idempotency db1"
    by (rule seed_run [OF assms(1,2) ok1 find _ run facts(1) fresh_event_ids [OF fresh facts(2)] room, of actor]) simp_all
  have "source \<noteq> ?session" using find_session_Some [OF assms(4)] assms(7) by (metis imageI)
  then have "fork_copies source c q db2 = Inr copied"
    using open_run copied(1) fork_copies_cong [of db2 db source c q]
    by (auto simp: insert_run_Inr set_active_run_def update_session_def same visible_def split: if_splits)
  moreover have "lookup_idempotency d_string actor ''session.fork'' key fp db = Inr None"
    using assms(6) by (rule lookup_fresh)
  moreover have "owned_session source actor db = Inr s" using assms(4,5) by (simp add: owned_session_Inr)
  moreover have "\<exists>j. insert_idempotency actor ''session.fork'' key fp (JString ?session) db3 = Inr (db3\<lparr>db_idempotency := j\<rparr>)"
    using assms(6) by (auto simp: insert_idempotency_def idem same)
  ultimately have "\<exists>j. fork_session ms u t actor key fp source title c q db =
      Inr (\<lparr>out_value = ?session, out_created = True\<rparr>, db3\<lparr>db_idempotency := j\<rparr>)"
    using db1 open_run copy unfolding fork_session_def Let_def
    by (elim exE, intro exI) (simp del: append.simps append_Cons One_nat_def add_2_eq_Suc' add_2_eq_Suc)
  with that [OF db1 _ _ copied(1,3) seeded] show thesis by auto
qed

text \<open>A session whose runs and their events are kept reads as before.\<close>

lemma session_reads_kept:
  assumes "db_ok db" "db_ok db'" "db_grows db db'" "find_session i db = Some s" "sn_actor_id s = actor"
    and runs: "filter (\<lambda>r. rn_session_id r = i) (db_runs db') = filter (\<lambda>r. rn_session_id r = i) (db_runs db)"
    and events: "\<And>x. x \<in> set (db_runs db) \<Longrightarrow> run_events (rn_id x) db' = run_events (rn_id x) db"
  shows "session_events i actor db' = session_events i actor db"
proof -
  have "map snd (joined (\<lambda>r. rn_session_id r = i) db') = map snd (joined (\<lambda>r. rn_session_id r = i) db)"
    unfolding joined_rows [OF assms(2)] joined_rows [OF assms(1)] runs
    by (intro arg_cong [where f = concat] map_cong) (auto simp: events)
  moreover have own: "\<exists>x. find_session i db' = Some x \<and> sn_actor_id x = actor"
    using find_session_grows [OF assms(3) _ assms(4)] assms(2,5) by (simp add: db_ok_def)
  ultimately show ?thesis
    using session_events_eq [of i db actor] assms(4,5) unfolding session_events_eq [OF own] by simp
qed


section \<open>Rewinding\<close>

lemma rewind_rows_runs:
  "db_runs (foldl (\<lambda>db r. rewind_run_row t r db) db rs) =
     map (\<lambda>r. if rn_id r \<in> rn_id ` set rs then r\<lparr>rn_status := Rewound, rn_updated_at := t\<rparr> else r) (db_runs db)"
proof (induction rs arbitrary: db)
  case (Cons x rs)
  have "db_runs (rewind_run_row t x db) =
      map (\<lambda>r. if rn_id r = rn_id x then r\<lparr>rn_status := Rewound, rn_updated_at := t\<rparr> else r) (db_runs db)"
    by (simp add: rewind_run_row_def update_run_def)
  then show ?case by (simp add: Cons.IH)
qed simp

lemma rewind_rows_keep:
  "db_events (foldl (\<lambda>db r. rewind_run_row t r db) db rs) = db_events db"
  "db_idempotency (foldl (\<lambda>db r. rewind_run_row t r db) db rs) = db_idempotency db"
  by (induction rs arbitrary: db) (simp_all add: rewind_run_row_def update_run_def)

lemma none_visible:
  "filter (visible session) (db_runs (foldl (\<lambda>db r. rewind_run_row t r db) db (filter (visible session) (db_runs db)))) = []"
  by (auto simp: rewind_rows_runs filter_empty_conv visible_def)

lemma whole_window:
  assumes "find_session session db = Some s" "sn_actor_id s = actor" "db_ok db"
    and "read_rows (map snd (by_rowid (visible session) db)) = Inr es"
  obtains win where "session_event_window session actor None (length (db_events db)) db = Inr win" "map snd win = es"
proof -
  let ?rows = "by_rowid (visible session) db"
  have "\<forall>x \<in> set ?rows. row_readable (snd x)" using assms(3) in_by_rowid by (auto simp: db_ok_def)
  from read_numbered_total [OF this] obtain ns where ns: "read_numbered ?rows = Inr ns" by blast
  then have "map snd ns = es" using read_numbered_rows assms(4) by fastforce
  have "length ?rows \<le> length (db_events db)"
    using length_filter_le [of _ "numbered_events db"] by (simp add: by_rowid_def numbered_events_def)
  moreover have "owned_session session actor db = Inr s" using assms(1,2) by (simp add: owned_session_Inr)
  moreover have "read_numbered (rev ?rows) = Inr (rev ns)" using ns by (simp add: read_numbered_rev)
  ultimately have "session_event_window session actor None (length (db_events db)) db = Inr (map (\<lambda>(i, e). (of_nat i, e)) ns)"
    by (simp add: session_event_window_def rev_map)
  moreover have "map snd (map (\<lambda>(i, e). (of_nat i, e)) ns) = es" using \<open>map snd ns = es\<close> by (auto simp: comp_def case_prod_beta)
  ultimately show thesis by (rule that)
qed

lemma no_active_run:
  assumes "db_ok db" "find_session session db = Some s"
    and "\<And>r. r \<in> set (db_runs db) \<Longrightarrow> rn_session_id r = session \<Longrightarrow> is_terminal (rn_status r)"
  shows "sn_active_run_id s = None"
proof (rule ccontr)
  assume "sn_active_run_id s \<noteq> None"
  then obtain i where i: "sn_active_run_id s = Some i" by blast
  have s: "s \<in> set (db_sessions db)" "sn_id s = session" using find_session_Some [OF assms(2)] by simp_all
  with assms(1) have "active_live db s" by (simp add: db_ok_def)
  with i s(2) assms(3) show False unfolding active_live_def by blast
qed

lemma rewind_total:
  fixes cursor :: nat and c :: "64 word" and t :: "nat \<Rightarrow> string"
  assumes "wire_fixed ms" "mask_idem ms" "store_inv ms db" "find_session session db = Some s" "sn_actor_id s = actor"
    and "\<not> list_ex (idempotency_match actor ''session.rewind'' key) (db_idempotency db)"
    and "''run-'' @ u 0 \<notin> rn_id ` set (db_runs db)" "fresh_ids u 1 db" "int (length (db_events db)) + 3 \<le> int i64_max"
    and "\<forall>r \<in> set (filter (visible session) (db_runs db)). is_terminal (rn_status r)"
  defines "cursor \<equiv> min (unat c) i64_max" and "db0 \<equiv> foldl (\<lambda>db r. rewind_run_row (t 0) r db) db (filter (visible session) (db_runs db))"
  assumes "filter (\<lambda>x. cursor < fst x) (by_rowid (visible session) db) \<noteq> []"
  obtains copied db3 out j where
    "history_copies id (filter (\<lambda>x. fst x \<le> cursor) (joined (visible session) db)) = Inr copied"
    "\<forall>y \<in> set copied. is_history_event (ee_event (snd y)) \<and> mask_event ms (ee_event (snd y)) = ee_event (snd y)"
    "seeded ms session (''run-'' @ u 0) (rewind_events u t session (''run-'' @ u 0) c reason copied) db0 db3"
    "rewind_session ms u t actor key fp session c reason db = Inr (\<lparr>out_value = out, out_created = True\<rparr>, db3\<lparr>db_idempotency := j\<rparr>)"
    "db_ok db0" "rw_rewound_run_ids out = map rn_id (filter (visible session) (db_runs db))"
proof -
  let ?run = "''run-'' @ u 0" and ?runs = "filter (visible session) (db_runs db)"
  let ?rows = "filter (\<lambda>x. fst x \<le> cursor) (joined (visible session) db)"
  let ?beyond = "filter (\<lambda>x. cursor < fst x) (by_rowid (visible session) db)"
  have ok: "db_ok db" and lm: "log_masked ms db" using assms(3) by (simp_all add: store_inv_def)
  have rd: "\<forall>x \<in> set ?rows. row_readable (snd x)" and mk: "\<forall>x \<in> set ?rows. row_masked ms (snd x)"
    using readable_rows [OF ok, of "visible session"] log_masked_rows [OF lm, of "visible session"] by simp_all
  from history_copies_total [OF rd, of id] obtain copied where
    copied: "history_copies id ?rows = Inr copied" "length copied \<le> length ?rows" by blast
  have masked: "\<forall>y \<in> set copied. is_history_event (ee_event (snd y)) \<and> mask_event ms (ee_event (snd y)) = ee_event (snd y)"
    using history_copies_facts [OF copied(1) _ mk] by simp
  have "length ?rows \<le> length (db_events db)"
    using joined_length [of db "visible session"] length_filter_le ok order_trans unfolding db_ok_def by blast
  with copied(2) have small: "length copied \<le> length (db_events db)" by simp
  have "\<forall>row \<in> set (map snd ?beyond). row_readable row" using ok in_by_rowid by (fastforce simp: db_ok_def)
  from read_rows_total [OF this] obtain discarded where discarded: "read_rows (map snd ?beyond) = Inr discarded" by blast
  let ?es = "rewind_events u t session ?run c reason copied"
  note facts = rewind_events_facts [OF masked]
  have "\<forall>r \<in> set ?runs. \<exists>r'. find_run (rn_id r) db = Some r' \<and> is_terminal (rn_status r')"
    using assms(10) find_run_eq [of db] ok by (auto simp: db_ok_def)
  from quiet_rewind_rows [OF ok this, of ms "t 0"] ok have ok0: "db_ok db0" by (simp add: quiet_def db0_def)
  have run: "?run \<notin> rn_id ` set (db_runs db0)" using assms(7) by (auto simp: db0_def rewind_rows_runs)
  have s0: "find_session session db0 = Some s" using assms(4) by (simp add: db0_def find_session_def)
  have fresh: "fresh_ids u 1 db0" using assms(8) by (simp add: fresh_ids_def event_ids_def db0_def rewind_rows_keep)
  have room: "int (length ?es) \<le> int i64_max" using small assms(9) by (simp add: facts(4))
  obtain db1 db2 db3 where open_run: "insert_run (new_run ?run session actor (t 0) None) db0 = Inr db1"
    "set_active_run session ?run db1 = Inr db2" and copy: "copy_events ms (\<lambda>i. t (i + 3)) actor copied ?es db2 = Inr db3"
    and seeded: "seeded ms session ?run ?es db0 db3" and idem: "db_idempotency db3 = db_idempotency db0"
    by (rule seed_run [OF assms(1,2) ok0 s0 assms(5) run facts(1) fresh_event_ids [OF fresh facts(2)] room])
  define out where "out = \<lparr>rw_run_id = ?run, rw_rewound_run_ids = map rn_id ?runs,
     rw_checkpoint_ref = (case concat (map checkpoint_ext discarded) of [] \<Rightarrow> None | c # _ \<Rightarrow> Some c),
     rw_discarded_paths = discarded_of discarded, rw_checkpoint_refs = concat (map checkpoint_ext discarded)\<rparr>"
  have "list_all (\<lambda>r. is_terminal (rn_status r)) ?runs" using assms(10) by (simp add: list_all_iff)
  moreover have "lookup_idempotency d_rewind_outcome actor ''session.rewind'' key fp db = Inr None"
    using assms(6) by (rule lookup_fresh)
  moreover have "owned_session session actor db = Inr s" using assms(4,5) by (simp add: owned_session_Inr)
  moreover have "\<exists>j. insert_idempotency actor ''session.rewind'' key fp (rewind_outcome_json out) db3 = Inr (db3\<lparr>db_idempotency := j\<rparr>)"
    using assms(6) by (auto simp: insert_idempotency_def idem db0_def rewind_rows_keep)
  ultimately have "\<exists>j. rewind_session ms u t actor key fp session c reason db =
      Inr (\<lparr>out_value = out, out_created = True\<rparr>, db3\<lparr>db_idempotency := j\<rparr>)"
    using open_run copy copied(1) discarded assms(13) unfolding rewind_session_def Let_def db0_def cursor_def out_def
    by (elim exE, intro exI) (simp del: append.simps append_Cons add_2_eq_Suc' add_2_eq_Suc)
  with that [OF copied(1) masked seeded _ ok0] show thesis by (auto simp: out_def)
qed


section \<open>A sample\<close>

text \<open>A finished run with one message of the user.\<close>

definition talk :: "event_envelope list" where
  "talk =
     [plain_envelope ''1'' ''s'' ''run-1'' 1 ''t'' core_actor ''x''
        (ItemCompleted \<lparr>ie_role = Some ''user'', ie_content = Some ''hi'', ie_tool_calls = []\<rparr>),
      plain_envelope ''2'' ''s'' ''run-1'' 2 ''t'' core_actor ''x'' (RunCompleted \<lparr>rt_reason = ''r'', rt_error_code = None\<rparr>)]"

definition talk_row :: "event_envelope \<Rightarrow> event_row" where
  "talk_row e = \<lparr>ev_event_id = ee_event_id e, ev_run_id = ee_run_id e, ev_seq = as_i64 (ee_seq e), ev_envelope = envelope_json e\<rparr>"

definition talk_db :: db where
  "talk_db = empty_db\<lparr>db_sessions := [sample_session\<lparr>sn_active_run_id := None\<rparr>],
     db_runs := [(new_run ''run-1'' ''s'' ''amy'' ''t'' None)\<lparr>rn_status := Completed, rn_last_seq := 2\<rparr>],
     db_events := map talk_row talk\<rparr>"

definition xs_supply :: "nat \<Rightarrow> string" where "xs_supply j = replicate j CHR ''x''"

lemma talk_simps [simp]:
  "db_sessions talk_db = [sample_session\<lparr>sn_active_run_id := None\<rparr>]" "db_idempotency talk_db = []" "db_approvals talk_db = []"
  "db_audit talk_db = []" "db_cancels talk_db = []" "db_links talk_db = []" "db_events talk_db = map talk_row talk"
  "db_runs talk_db = [(new_run ''run-1'' ''s'' ''amy'' ''t'' None)\<lparr>rn_status := Completed, rn_last_seq := 2\<rparr>]"
  "length talk = 2"
  by (simp_all add: talk_db_def empty_db_def talk_def)

lemma talk_reads [simp]:
  "d_envelope (ev_envelope (talk_row (talk ! 0))) = Some (talk ! 0)"
  "d_envelope (ev_envelope (talk_row (talk ! Suc 0))) = Some (talk ! Suc 0)"
  by (simp_all add: talk_row_def d_envelope_json talk_def plain_envelope_def)

lemma talk_eq: "talk = [talk ! 0, talk ! Suc 0]"
  by (simp add: talk_def)

lemma talk_fields [simp]:
  "ev_seq (talk_row (talk ! 0)) = 1" "ev_seq (talk_row (talk ! Suc 0)) = 2"
  "ev_run_id (talk_row (talk ! 0)) = ''run-1''" "ev_run_id (talk_row (talk ! Suc 0)) = ''run-1''"
  "ev_event_id (talk_row (talk ! 0)) = ''event-1''" "ev_event_id (talk_row (talk ! Suc 0)) = ''event-2''"
  "event_status (ee_event (talk ! 0)) = None" "event_status (ee_event (talk ! Suc 0)) = Some Completed"
  "ee_seq (talk ! 0) = 1" "ee_seq (talk ! Suc 0) = 2"
  by (simp_all add: talk_def talk_row_def plain_envelope_def as_i64_def)

lemma talk_masked [simp]: "mask_envelope star_out (talk ! 0) = talk ! 0" "mask_envelope star_out (talk ! Suc 0) = talk ! Suc 0"
  by (simp_all add: talk_def plain_envelope_def mask_envelope_def star_out_def mask_actor_def core_actor_def mask_item_event_def
      mask_run_terminal_def mask_map_def)

lemma talk_store_inv: "store_inv star_out talk_db"
proof -
  have rows: "map talk_row talk = [talk_row (talk ! 0), talk_row (talk ! Suc 0)]" by (subst talk_eq) simp
  have "db_ok talk_db"
    by (simp add: db_ok_def keys_ok_def log_complete_def status_projected_def active_live_def run_events_def rows
        projected_status_def row_status_def row_readable_def unwrap_or_def as_i64_def upto.simps)
  moreover have "log_masked star_out talk_db" by (simp add: log_masked_def rows row_masked_def)
  ultimately show ?thesis by (simp add: store_inv_def approvals_ok_def cancels_ok_def links_ok_def)
qed

lemma xs_supply_fresh: "fresh_ids xs_supply n talk_db"
proof -
  have "inj xs_supply" unfolding inj_def xs_supply_def by (metis length_replicate)
  moreover have "event_ids talk_db = {''event-1'', ''event-2''}" by (subst event_ids_def, simp, subst talk_eq, simp)
  moreover have "xs_supply j \<noteq> CHR ''1'' # k" "xs_supply j \<noteq> CHR ''2'' # k" for j k
    by (cases j; simp add: xs_supply_def)+
  ultimately show ?thesis by (simp add: fresh_ids_def)
qed

lemma talk_session [simp]:
  "find_session ''s'' talk_db = Some (sample_session\<lparr>sn_active_run_id := None\<rparr>)"
  "sn_actor_id (sample_session\<lparr>sn_active_run_id := None\<rparr>) = ''amy''"
  by (simp_all add: find_session_def sample_session_def)



end
