(* ===== verification/Client_State.thy ===== *)
theory Client_State
  imports Protocol_Events "HOL-Library.Multiset"
begin

text \<open>
  \<open>ClientState\<close> of \<open>crates/cool-protocol/src/lib.rs\<close>: the reducer every
  client runs over the events of one run. The text of a \<open>ReplayError\<close> is kept as the
  values it is formatted from. The fingerprint of an envelope is its JSON text; here it is
  the document, which determines the text and is determined by it.
\<close>

datatype replay_error =
    ReusedEventId string
  | PlanMismatch string string
  | StaleSequence "64 word" "64 word"
  | SequenceGap "64 word" "64 word"
  | BadStart "64 word"
  | MixedRuns

record client_state =
  cs_run_status :: "string option"
  cs_content :: string
  cs_reasoning :: string
  cs_tools :: "string \<rightharpoonup> string"
  cs_approvals :: "string \<rightharpoonup> string"
  cs_active_plan_id :: "string option"
  cs_plan_status :: "string option"
  cs_plan_steps :: "string \<rightharpoonup> string"
  cs_plan_completed_steps :: "32 word"
  cs_plan_total_steps :: "32 word"
  cs_artifacts :: "string list"
  cs_subagents :: "string \<rightharpoonup> string"
  cs_workers :: "string \<rightharpoonup> string"
  cs_plugins :: "string \<rightharpoonup> string"
  cs_budget_status :: "string option"
  cs_research_status :: "string option"
  cs_last_seq :: "64 word option"
  cs_seen :: "string \<rightharpoonup> json"

definition initial_client :: client_state where
  "initial_client = \<lparr>cs_run_status = None, cs_content = [], cs_reasoning = [], cs_tools = Map.empty,
     cs_approvals = Map.empty, cs_active_plan_id = None, cs_plan_status = None,
     cs_plan_steps = Map.empty, cs_plan_completed_steps = 0, cs_plan_total_steps = 0,
     cs_artifacts = [], cs_subagents = Map.empty, cs_workers = Map.empty, cs_plugins = Map.empty,
     cs_budget_status = None, cs_research_status = None, cs_last_seq = None, cs_seen = Map.empty\<rparr>"

fun event_plan_id :: "canonical_event \<Rightarrow> string option" where
  "event_plan_id (PlanCreated p) = Some (pc_plan_id p)"
| "event_plan_id (PlanStepStarted p) = Some (ps_plan_id p)"
| "event_plan_id (PlanStepCompleted p) = Some (ps_plan_id p)"
| "event_plan_id (PlanProgress p) = Some (pp_plan_id p)"
| "event_plan_id _ = None"

definition set_tool :: "string \<Rightarrow> string \<Rightarrow> client_state \<Rightarrow> client_state" where
  "set_tool call status st = st\<lparr>cs_tools := (cs_tools st)(call \<mapsto> status)\<rparr>"

definition set_approval :: "string \<Rightarrow> string \<Rightarrow> client_state \<Rightarrow> client_state" where
  "set_approval approval status st = st\<lparr>cs_approvals := (cs_approvals st)(approval \<mapsto> status)\<rparr>"

definition set_subagent :: "string \<Rightarrow> string \<Rightarrow> client_state \<Rightarrow> client_state" where
  "set_subagent run status st = st\<lparr>cs_subagents := (cs_subagents st)(run \<mapsto> status)\<rparr>"

definition set_worker :: "string \<Rightarrow> string \<Rightarrow> client_state \<Rightarrow> client_state" where
  "set_worker worker status st = st\<lparr>cs_workers := (cs_workers st)(worker \<mapsto> status)\<rparr>"

definition keep_plan_id :: "string \<Rightarrow> client_state \<Rightarrow> client_state" where
  "keep_plan_id plan st = st\<lparr>cs_active_plan_id :=
     (case cs_active_plan_id st of None \<Rightarrow> Some plan | Some active \<Rightarrow> Some active)\<rparr>"

text \<open>The \<open>match\<close> of \<open>try_apply\<close>.\<close>

fun apply_event :: "canonical_event \<Rightarrow> client_state \<Rightarrow> client_state" where
  "apply_event (RunStarted p) st = st\<lparr>cs_run_status := Some ''running''\<rparr>"
| "apply_event (RunCompleted p) st = st\<lparr>cs_run_status := Some ''completed''\<rparr>"
| "apply_event (RunFailed p) st = st\<lparr>cs_run_status := Some ''failed''\<rparr>"
| "apply_event (RunCancelled p) st = st\<lparr>cs_run_status := Some ''cancelled''\<rparr>"
| "apply_event (ContentDelta p) st = st\<lparr>cs_content := cs_content st @ td_text p\<rparr>"
| "apply_event (ReasoningDelta p) st = st\<lparr>cs_reasoning := cs_reasoning st @ td_text p\<rparr>"
| "apply_event (ToolRequested p) st = set_tool (tr_call_id p) ''requested'' st"
| "apply_event (ToolApprovalRequired p) st =
     set_approval (ta_approval_id p) ''pending'' (set_tool (ta_call_id p) ''awaiting_approval'' st)"
| "apply_event (ToolApprovalResolved p) st =
     set_approval (tv_approval_id p)
       (case tv_decision p of Approved \<Rightarrow> ''approved'' | Denied \<Rightarrow> ''denied'' | TimedOut \<Rightarrow> ''timed_out'') st"
| "apply_event (ToolStarted p) st = set_tool (tl_call_id p) ''running'' st"
| "apply_event (ToolCompleted p) st = set_tool (tc_call_id p) ''completed'' st"
| "apply_event (ToolFailed p) st = set_tool (tf_call_id p) ''failed'' st"
| "apply_event (PlanCreated p) st =
     st\<lparr>cs_active_plan_id := Some (pc_plan_id p), cs_plan_status := Some ''planned'',
        cs_plan_completed_steps := 0, cs_plan_total_steps := pc_total_steps p,
        cs_plan_steps := Map.empty\<rparr>"
| "apply_event (PlanStepStarted p) st =
     (let st = keep_plan_id (ps_plan_id p) st
      in st\<lparr>cs_plan_status := Some ''running'',
            cs_plan_steps := (cs_plan_steps st)(dec (unat (ps_position p)) \<mapsto> ''running'')\<rparr>)"
| "apply_event (PlanStepCompleted p) st =
     (let st = keep_plan_id (ps_plan_id p) st
      in st\<lparr>cs_plan_steps := (cs_plan_steps st)(dec (unat (ps_position p)) \<mapsto> ps_status p)\<rparr>)"
| "apply_event (PlanProgress p) st =
     (keep_plan_id (pp_plan_id p) st)
       \<lparr>cs_plan_completed_steps := pp_completed_steps p, cs_plan_total_steps := pp_total_steps p,
        cs_plan_status := Some (case pp_status p of
           PlanExecuting \<Rightarrow> ''running'' | PlanCompleted \<Rightarrow> ''completed'' | PlanFailed \<Rightarrow> ''failed'')\<rparr>"
| "apply_event (ArtifactCreated p) st =
     (if ac_artifact_id p \<in> set (cs_artifacts st) then st
      else st\<lparr>cs_artifacts := cs_artifacts st @ [ac_artifact_id p]\<rparr>)"
| "apply_event (BudgetWarning p) st = st\<lparr>cs_budget_status := Some ''warning''\<rparr>"
| "apply_event (BudgetExceeded p) st = st\<lparr>cs_budget_status := Some ''exceeded''\<rparr>"
| "apply_event (SubagentStarted p) st = set_subagent (sa_subagent_run_id p) ''running'' st"
| "apply_event (SubagentProgress p) st = set_subagent (sp_subagent_run_id p) ''running'' st"
| "apply_event (SubagentCompleted p) st = set_subagent (sa_subagent_run_id p) ''completed'' st"
| "apply_event (SubagentFailed p) st = set_subagent (sa_subagent_run_id p) ''failed'' st"
| "apply_event (WorkerStarted p) st = set_worker (we_worker_id p) ''running'' st"
| "apply_event (WorkerFailed p) st = set_worker (we_worker_id p) ''failed'' st"
| "apply_event (WorkerRestarted p) st = set_worker (we_worker_id p) ''running'' st"
| "apply_event (PluginStatus p) st =
     st\<lparr>cs_plugins := (cs_plugins st)(pe_plugin_id p \<mapsto> pe_status p)\<rparr>"
| "apply_event (ResearchStarted p) st = st\<lparr>cs_research_status := Some ''running''\<rparr>"
| "apply_event (ResearchStage p) st = st\<lparr>cs_research_status := Some ''running''\<rparr>"
| "apply_event (ResearchCompleted p) st = st\<lparr>cs_research_status := Some ''completed''\<rparr>"
| "apply_event (ResearchFailed p) st = st\<lparr>cs_research_status := Some ''failed''\<rparr>"
| "apply_event (ResearchCancelled p) st = st\<lparr>cs_research_status := Some ''cancelled''\<rparr>"
| "apply_event _ st = st"

definition check_plan :: "canonical_event \<Rightarrow> client_state \<Rightarrow> (replay_error, unit) result" where
  "check_plan e st =
     (case (cs_active_plan_id st, event_plan_id e) of
        (Some active, Some incoming) \<Rightarrow> ensure (active = incoming) (PlanMismatch active incoming)
      | _ \<Rightarrow> Inr ())"

definition check_seq :: "64 word \<Rightarrow> client_state \<Rightarrow> (replay_error, unit) result" where
  "check_seq seq st =
     (case cs_last_seq st of
        Some latest \<Rightarrow>
          if seq \<le> latest then Inl (StaleSequence seq latest)
          else ensure (seq = latest + 1) (SequenceGap (latest + 1) seq)
      | None \<Rightarrow> ensure (seq = 1) (BadStart seq))"

definition try_apply :: "event_envelope \<Rightarrow> client_state \<Rightarrow> (replay_error, client_state) result" where
  "try_apply e st =
     (case cs_seen st (ee_event_id e) of
        Some previous \<Rightarrow>
          if previous = envelope_json e then Inr st else Inl (ReusedEventId (ee_event_id e))
      | None \<Rightarrow>
          ebind (check_plan (ee_event e) st) (\<lambda>_.
          ebind (check_seq (ee_seq e) st) (\<lambda>_.
          Inr (apply_event (ee_event e)
                 (st\<lparr>cs_seen := (cs_seen st)(ee_event_id e \<mapsto> envelope_json e),
                     cs_last_seq := Some (ee_seq e)\<rparr>)))))"

definition replay_step ::
    "string option \<Rightarrow> event_envelope \<Rightarrow> client_state \<Rightarrow> (replay_error, client_state) result" where
  "replay_step run_id e st =
     ebind (ensure (Some (ee_run_id e) = run_id) MixedRuns) (\<lambda>_. try_apply e st)"

definition try_replay :: "event_envelope list \<Rightarrow> (replay_error, client_state) result" where
  "try_replay events =
     (let ordered = sort_key ee_seq events;
          run_id = (case ordered of [] \<Rightarrow> None | e # _ \<Rightarrow> Some (ee_run_id e))
      in efold (replay_step run_id) ordered initial_client)"

section \<open>One step\<close>

lemma apply_event_bookkeeping [simp]:
  "cs_last_seq (apply_event e st) = cs_last_seq st" "cs_seen (apply_event e st) = cs_seen st"
  by (cases e; simp add: set_tool_def set_approval_def set_subagent_def set_worker_def
        keep_plan_id_def Let_def)+

lemma check_seq_Inr:
  "check_seq s st = Inr u \<longleftrightarrow>
     (case cs_last_seq st of None \<Rightarrow> s = 1 | Some l \<Rightarrow> l < s \<and> s = l + 1)"
  by (auto simp: check_seq_def ensure_Inr_iff not_le split: option.splits if_splits)

text \<open>The two ways a step returns: the envelope was seen before, or it is the next one.\<close>

lemma try_apply_cases:
  assumes "try_apply e st = Inr st'"
  obtains (seen) "cs_seen st (ee_event_id e) = Some (envelope_json e)" "st' = st"
    | (fresh) "cs_seen st (ee_event_id e) = None"
      "check_plan (ee_event e) st = Inr ()" "check_seq (ee_seq e) st = Inr ()"
      "cs_last_seq st' = Some (ee_seq e)"
      "cs_seen st' = (cs_seen st)(ee_event_id e \<mapsto> envelope_json e)"
  using assms unfolding try_apply_def
  by (auto simp: res_simps split: option.splits if_splits)

lemma try_apply_seen:
  "try_apply e st = Inr st' \<Longrightarrow> cs_seen st' (ee_event_id e) = Some (envelope_json e)"
  by (erule try_apply_cases) simp_all

lemma try_apply_keeps_seen:
  "try_apply e st = Inr st' \<Longrightarrow> cs_seen st i = Some j \<Longrightarrow> cs_seen st' i = Some j"
  by (erule try_apply_cases) auto

lemma try_apply_again: "cs_seen st (ee_event_id e) = Some (envelope_json e) \<Longrightarrow> try_apply e st = Inr st"
  by (simp add: try_apply_def)

lemma replay_step_Inr:
  "replay_step r e st = Inr st' \<longleftrightarrow> Some (ee_run_id e) = r \<and> try_apply e st = Inr st'"
  by (simp add: replay_step_def ebind_Inr_iff ensure_Inr_iff)

lemma replay_Cons:
  "efold (replay_step r) (e # es) st = Inr st' \<longleftrightarrow>
     Some (ee_run_id e) = r \<and> (\<exists>s1. try_apply e st = Inr s1 \<and> efold (replay_step r) es s1 = Inr st')"
  by (auto simp: efold_Cons_Inr replay_step_Inr simp del: efold.simps)

lemma replay_keeps_seen:
  "efold (replay_step r) es st = Inr st' \<Longrightarrow> cs_seen st i = Some j \<Longrightarrow> cs_seen st' i = Some j"
proof (induction es arbitrary: st)
  case (Cons e es)
  then obtain s1 where "try_apply e st = Inr s1" "efold (replay_step r) es s1 = Inr st'"
    unfolding replay_Cons by blast
  with Cons show ?case using try_apply_keeps_seen by blast
qed simp

lemma replay_all_seen:
  "efold (replay_step r) es st = Inr st' \<Longrightarrow> e \<in> set es \<Longrightarrow>
   cs_seen st' (ee_event_id e) = Some (envelope_json e) \<and> Some (ee_run_id e) = r"
proof (induction es arbitrary: st)
  case (Cons x es)
  then obtain s1 where s1: "try_apply x st = Inr s1" "Some (ee_run_id x) = r"
    "efold (replay_step r) es s1 = Inr st'"
    unfolding replay_Cons by blast
  with Cons show ?case using try_apply_seen [OF s1(1)] replay_keeps_seen [OF s1(3)] by auto
qed simp

section \<open>What an accepted log looks like\<close>

text \<open>The last sequence number as a count of the accepted events.\<close>

definition seq_count :: "client_state \<Rightarrow> nat" where
  "seq_count st = (case cs_last_seq st of None \<Rightarrow> 0 | Some s \<Rightarrow> unat s)"

definition client_ok :: "client_state \<Rightarrow> bool" where
  "client_ok st \<longleftrightarrow> cs_last_seq st \<noteq> Some 0"

lemma client_ok_initial [simp]: "client_ok initial_client" "seq_count initial_client = 0"
  by (simp_all add: client_ok_def initial_client_def seq_count_def)

lemma unat_next:
  assumes "l < l + 1"
  shows "unat (l + 1 :: 64 word) = Suc (unat l)"
proof -
  have "1 + l \<noteq> 0"
  proof
    assume "1 + l = 0"
    with assms show False by (simp add: add.commute)
  qed
  then show ?thesis using unatSuc [of l] by (simp add: add.commute)
qed

lemma check_seq_count:
  "check_seq s st = Inr () \<Longrightarrow> unat s = Suc (seq_count st)"
  by (auto simp: check_seq_Inr seq_count_def unat_next split: option.splits)

definition doc_field :: "string \<Rightarrow> json \<Rightarrow> json option" where
  "doc_field k j = (case j of JObject obj \<Rightarrow> map_of obj k | _ \<Rightarrow> None)"

lemma doc_field_envelope:
  "doc_field ''seq'' (envelope_json e) = Some (u64_json (ee_seq e))"
  "doc_field ''eventId'' (envelope_json e) = Some (JString (ee_event_id e))"
  by (simp_all add: doc_field_def envelope_json_def)

lemma envelope_json_fields:
  assumes "envelope_json e = envelope_json e'"
  shows "ee_seq e = ee_seq e' \<and> ee_event_id e = ee_event_id e'"
  using arg_cong [OF assms, of "doc_field ''seq''"] arg_cong [OF assms, of "doc_field ''eventId''"]
  by (simp add: doc_field_envelope u64_json_def)

text \<open>What a client knows after it accepted the envelopes \<open>es\<close>.\<close>

definition log_ok :: "event_envelope list \<Rightarrow> client_state \<Rightarrow> bool" where
  "log_ok es st \<longleftrightarrow>
     (\<lambda>e. unat (ee_seq e)) ` set es = {1..seq_count st} \<and>
     (\<forall>e \<in> set es. cs_seen st (ee_event_id e) = Some (envelope_json e)) \<and>
     (\<forall>i j. cs_seen st i = Some j \<longrightarrow> (\<exists>e \<in> set es. ee_event_id e = i \<and> envelope_json e = j)) \<and>
     (\<forall>e \<in> set es. \<forall>e' \<in> set es. ee_seq e = ee_seq e' \<longrightarrow> ee_event_id e = ee_event_id e')"

lemma log_okD:
  assumes "log_ok es st"
  shows "(\<lambda>e. unat (ee_seq e)) ` set es = {1..seq_count st}"
    "e \<in> set es \<Longrightarrow> cs_seen st (ee_event_id e) = Some (envelope_json e)"
    "cs_seen st i = Some j \<Longrightarrow> \<exists>e \<in> set es. ee_event_id e = i \<and> envelope_json e = j"
    "e \<in> set es \<Longrightarrow> e' \<in> set es \<Longrightarrow> ee_seq e = ee_seq e' \<Longrightarrow> ee_event_id e = ee_event_id e'"
  using assms unfolding log_ok_def by blast+

lemma log_okI:
  assumes "(\<lambda>e. unat (ee_seq e)) ` set es = {1..seq_count st}"
    and "\<And>e. e \<in> set es \<Longrightarrow> cs_seen st (ee_event_id e) = Some (envelope_json e)"
    and "\<And>i j. cs_seen st i = Some j \<Longrightarrow> \<exists>e \<in> set es. ee_event_id e = i \<and> envelope_json e = j"
    and "\<And>e e'. e \<in> set es \<Longrightarrow> e' \<in> set es \<Longrightarrow> ee_seq e = ee_seq e' \<Longrightarrow> ee_event_id e = ee_event_id e'"
  shows "log_ok es st"
  using assms unfolding log_ok_def by blast

lemma log_ok_initial: "log_ok [] initial_client"
  by (simp add: log_ok_def initial_client_def seq_count_def)

lemma log_ok_step:
  assumes ok: "log_ok es st" and step: "try_apply e st = Inr st'"
  shows "log_ok (es @ [e]) st'"
  using step
proof (cases rule: try_apply_cases)
  case seen
  from log_okD(3) [OF ok seen(1)] obtain e0 where e0: "e0 \<in> set es"
    "ee_event_id e0 = ee_event_id e" "envelope_json e0 = envelope_json e"
    by blast
  from envelope_json_fields [OF e0(3)] have seq: "ee_seq e0 = ee_seq e" by blast
  have id_e: "ee_event_id x = ee_event_id e" if "x \<in> set es" "ee_seq x = ee_seq e" for x
    using log_okD(4) [OF ok that(1) e0(1)] that(2) e0(2) seq by simp
  have "log_ok (es @ [e]) st"
  proof (rule log_okI)
    show "(\<lambda>e. unat (ee_seq e)) ` set (es @ [e]) = {1..seq_count st}"
      using log_okD(1) [OF ok] imageI [OF e0(1), of "\<lambda>e. unat (ee_seq e)"] seq
      by (simp add: insert_absorb)
  next
    fix x assume "x \<in> set (es @ [e])"
    then show "cs_seen st (ee_event_id x) = Some (envelope_json x)"
      using log_okD(2) [OF ok] seen(1) by auto
  next
    fix i j assume "cs_seen st i = Some j"
    from log_okD(3) [OF ok this] show "\<exists>x \<in> set (es @ [e]). ee_event_id x = i \<and> envelope_json x = j"
      by auto
  next
    fix x y assume "x \<in> set (es @ [e])" "y \<in> set (es @ [e])" "ee_seq x = ee_seq y"
    then show "ee_event_id x = ee_event_id y"
      using log_okD(4) [OF ok, of x y] id_e [of x] id_e [of y]
      by (cases "x \<in> set es"; cases "y \<in> set es") simp_all
  qed
  with seen(2) show ?thesis by simp
next
  case fresh
  from fresh(3) have seq: "unat (ee_seq e) = Suc (seq_count st)" by (rule check_seq_count)
  have count: "seq_count st' = Suc (seq_count st)" using fresh(4) seq by (simp add: seq_count_def)
  have new: "ee_seq x \<noteq> ee_seq e" if "x \<in> set es" for x
  proof -
    have "unat (ee_seq x) \<in> {1..seq_count st}"
      using imageI [OF that, of "\<lambda>e. unat (ee_seq e)"] by (simp only: log_okD(1) [OF ok])
    with seq show ?thesis by auto
  qed
  show ?thesis
  proof (rule log_okI)
    show "(\<lambda>e. unat (ee_seq e)) ` set (es @ [e]) = {1..seq_count st'}"
      using log_okD(1) [OF ok] seq by (auto simp: count)
  next
    fix x assume "x \<in> set (es @ [e])"
    then show "cs_seen st' (ee_event_id x) = Some (envelope_json x)"
      using log_okD(2) [OF ok, of x] fresh(1,5) by auto
  next
    fix i j assume "cs_seen st' i = Some j"
    with fresh(5) have "(i = ee_event_id e \<and> j = envelope_json e) \<or> cs_seen st i = Some j"
      by (auto split: if_splits)
    then show "\<exists>x \<in> set (es @ [e]). ee_event_id x = i \<and> envelope_json x = j"
      using log_okD(3) [OF ok, of i j] by (elim disjE) auto
  next
    fix x y assume "x \<in> set (es @ [e])" "y \<in> set (es @ [e])" "ee_seq x = ee_seq y"
    then show "ee_event_id x = ee_event_id y"
      using log_okD(4) [OF ok, of x y] new [of x] new [of y]
      by (cases "x \<in> set es"; cases "y \<in> set es") simp_all
  qed
qed

lemma log_ok_replay:
  "efold (replay_step r) es st = Inr st' \<Longrightarrow> log_ok ds st \<Longrightarrow> log_ok (ds @ es) st'"
proof (induction es arbitrary: st ds)
  case (Cons e es)
  then obtain s1 where s1: "try_apply e st = Inr s1" "efold (replay_step r) es s1 = Inr st'"
    unfolding replay_Cons by blast
  from Cons.IH [OF s1(2) log_ok_step [OF Cons.prems(2) s1(1)]] show ?case by simp
qed simp

lemma log_ok_same_seq:
  assumes "log_ok es st" "e \<in> set es" "e' \<in> set es"
  shows "ee_seq e = ee_seq e' \<longleftrightarrow> envelope_json e = envelope_json e'"
proof
  assume "ee_seq e = ee_seq e'"
  with log_okD(4) [OF assms] have "ee_event_id e = ee_event_id e'" by blast
  with log_okD(2) [OF assms(1,2)] log_okD(2) [OF assms(1,3)]
  show "envelope_json e = envelope_json e'" by simp
qed (use envelope_json_fields in blast)

section \<open>Logs that are accepted\<close>

lemma check_plan_same:
  "event_plan_id e \<in> {None, Some p} \<Longrightarrow> cs_active_plan_id st \<in> {None, Some p} \<Longrightarrow> check_plan e st = Inr ()"
  by (auto simp: check_plan_def)

lemma apply_event_plan:
  "event_plan_id e \<in> {None, Some p} \<Longrightarrow> cs_active_plan_id st \<in> {None, Some p} \<Longrightarrow>
   cs_active_plan_id (apply_event e st) \<in> {None, Some p}"
  by (cases e; auto simp: set_tool_def set_approval_def set_subagent_def set_worker_def
        keep_plan_id_def Let_def split: option.splits)

lemma check_seq_next: "unat s = Suc (seq_count st) \<Longrightarrow> client_ok st \<Longrightarrow> check_seq s st = Inr ()"
proof (cases "cs_last_seq st")
  case None
  then show "unat s = Suc (seq_count st) \<Longrightarrow> ?thesis"
    by (simp add: check_seq_Inr seq_count_def word_unat_eq_iff)
next
  case (Some l)
  assume "unat s = Suc (seq_count st)"
  with Some have s: "unat s = Suc (unat l)" by (simp add: seq_count_def)
  then have "l < s" by (simp add: word_less_nat_alt)
  moreover have "of_nat (unat s) = (of_nat (Suc (unat l)) :: 64 word)" by (simp only: s)
  then have "s = l + 1" by (simp add: add.commute)
  ultimately show ?thesis using Some by (simp add: check_seq_Inr)
qed

lemma replay_accepts:
  assumes "map (\<lambda>e. unat (ee_seq e)) es = [Suc (seq_count st)..<Suc (seq_count st + length es)]"
    and "distinct (map ee_event_id es)" "\<forall>e \<in> set es. cs_seen st (ee_event_id e) = None"
    and "\<forall>e \<in> set es. Some (ee_run_id e) = r"
    and "\<forall>e \<in> set es. event_plan_id (ee_event e) \<in> {None, Some p}"
    and "cs_active_plan_id st \<in> {None, Some p}" "client_ok st"
  shows "\<exists>st'. efold (replay_step r) es st = Inr st' \<and> seq_count st' = seq_count st + length es"
  using assms
proof (induction es arbitrary: st)
  case (Cons e es)
  let ?s = "apply_event (ee_event e)
      (st\<lparr>cs_seen := (cs_seen st)(ee_event_id e \<mapsto> envelope_json e), cs_last_seq := Some (ee_seq e)\<rparr>)"
  have seq: "unat (ee_seq e) = Suc (seq_count st)"
    and rest: "map (\<lambda>e. unat (ee_seq e)) es = [Suc (Suc (seq_count st))..<Suc (seq_count st + length (e # es))]"
    using Cons.prems(1) by (simp_all add: upt_conv_Cons del: upt_Suc)
  have step: "replay_step r e st = Inr ?s"
    using Cons.prems seq check_plan_same [of "ee_event e" p st] check_seq_next [OF seq]
    by (simp add: replay_step_def try_apply_def)
  have count: "seq_count ?s = Suc (seq_count st)" using seq by (simp add: seq_count_def)
  have "\<exists>st'. efold (replay_step r) es ?s = Inr st' \<and> seq_count st' = seq_count ?s + length es"
  proof (rule Cons.IH)
    show "map (\<lambda>e. unat (ee_seq e)) es = [Suc (seq_count ?s)..<Suc (seq_count ?s + length es)]"
      using rest by (simp add: count del: upt_Suc)
    show "cs_active_plan_id ?s \<in> {None, Some p}"
      using Cons.prems by (intro apply_event_plan) auto
    show "client_ok ?s" using seq by (auto simp: client_ok_def)
    show "\<forall>x \<in> set es. cs_seen ?s (ee_event_id x) = None"
      using Cons.prems(2,3) by (auto simp: image_iff)
    show "distinct (map ee_event_id es)" using Cons.prems(2) by simp
    show "\<forall>e \<in> set es. Some (ee_run_id e) = r" using Cons.prems(4) by simp
    show "\<forall>e \<in> set es. event_plan_id (ee_event e) \<in> {None, Some p}" using Cons.prems(5) by simp
  qed
  with step count show ?case by simp
qed simp

section \<open>Properties\<close>

text \<open>
  Property C20. What an accepted replay says about the log: its envelopes carry exactly the
  sequence numbers from 1 to the final \<open>last_seq\<close>, in any order and with any
  number of redeliveries; two envelopes share a sequence number exactly when they are the
  same document; all belong to one run; and delivering any of them again changes nothing.
\<close>

theorem replay_accepts_only_complete_logs:
  assumes "try_replay es = Inr st"
  shows "(\<lambda>e. unat (ee_seq e)) ` set es = {1..seq_count st} \<and>
    (\<forall>e \<in> set es. \<forall>e' \<in> set es.
       (ee_seq e = ee_seq e' \<longleftrightarrow> envelope_json e = envelope_json e') \<and> ee_run_id e = ee_run_id e') \<and>
    (\<forall>e \<in> set es. try_apply e st = Inr st)"
proof -
  let ?ord = "sort_key ee_seq es"
  from assms obtain r where r: "efold (replay_step r) ?ord initial_client = Inr st"
    by (auto simp: try_replay_def Let_def)
  from log_ok_replay [OF this log_ok_initial] have ok: "log_ok ?ord st" by simp
  have seen: "cs_seen st (ee_event_id e) = Some (envelope_json e)" "Some (ee_run_id e) = r"
    if "e \<in> set es" for e
    using replay_all_seen [OF r, of e] that by simp_all
  have "(\<lambda>e. unat (ee_seq e)) ` set es = {1..seq_count st}" using log_okD(1) [OF ok] by simp
  moreover have "ee_run_id e = ee_run_id e'" if "e \<in> set es" "e' \<in> set es" for e e'
    using seen(2) [OF that(1)] seen(2) [OF that(2)] by (metis option.inject)
  moreover have "ee_seq e = ee_seq e' \<longleftrightarrow> envelope_json e = envelope_json e'"
    if "e \<in> set es" "e' \<in> set es" for e e'
    using log_ok_same_seq [OF ok] that by simp
  moreover have "try_apply e st = Inr st" if "e \<in> set es" for e
    using seen(1) [OF that] by (rule try_apply_again)
  ultimately show ?thesis by blast
qed

definition started :: event_envelope where
  "started = sample_envelope"

definition delta :: "64 word \<Rightarrow> string \<Rightarrow> string \<Rightarrow> event_envelope" where
  "delta n i t = sample_envelope\<lparr>ee_seq := n, ee_event_id := i,
     ee_event := ContentDelta \<lparr>td_text = t, td_channel = None\<rparr>\<rparr>"

definition sample_log :: "event_envelope list" where
  "sample_log = [delta 2 ''event-2'' ''hi'', started, delta 2 ''event-2'' ''hi'']"

definition sample_client :: client_state where
  "sample_client = (case try_replay sample_log of Inr st \<Rightarrow> st | Inl _ \<Rightarrow> initial_client)"

lemma sample_log_replays: "try_replay sample_log = Inr sample_client"
  by (simp add: sample_client_def sample_log_def try_replay_def Let_def started_def delta_def
      sample_envelope_def replay_step_def try_apply_def check_plan_def check_seq_def initial_client_def
      word_le_nat_alt)

theorem replay_accepts_only_complete_logs_witness:
  "try_replay sample_log = Inr sample_client \<and>
   (\<lambda>e. unat (ee_seq e)) ` set sample_log = {1..seq_count sample_client}"
  using replay_accepts_only_complete_logs [OF sample_log_replays] sample_log_replays by blast

text \<open>
  The order in which the events of a run are handed to \<open>try_replay\<close>
  does not matter, error or not, as long as no sequence number occurs twice.
\<close>

theorem replay_order_independent:
  assumes "mset es = mset es'" "distinct (map ee_seq es)"
  shows "try_replay es = try_replay es'"
proof -
  have "sort_key ee_seq es = sort_key ee_seq es'"
    using assms by (intro sort_key_eq_sort_key) (auto simp: distinct_map)
  then show ?thesis by (simp add: try_replay_def)
qed

theorem replay_order_independent_witness:
  "try_replay [delta 2 ''event-2'' ''hi'', started] = try_replay [started, delta 2 ''event-2'' ''hi'']"
  by (rule replay_order_independent) (simp_all add: started_def delta_def sample_envelope_def)

lemma gapless_replays:
  assumes "map (\<lambda>e. unat (ee_seq e)) es = [1..<Suc (length es)]" "distinct (map ee_event_id es)"
    and "\<forall>e \<in> set es. ee_run_id e = run" "\<forall>e \<in> set es. event_plan_id (ee_event e) \<in> {None, Some p}"
  shows "\<exists>st. try_replay es = Inr st \<and> seq_count st = length es"
proof -
  have "sorted_wrt (<) (map (\<lambda>e. unat (ee_seq e)) es)" by (simp only: assms(1) sorted_wrt_upt)
  then have "sorted (map ee_seq es)"
    by (auto simp: sorted_wrt_map word_le_nat_alt elim: sorted_wrt_mono_rel [rotated])
  then have sort: "sort_key ee_seq es = es" by (rule sort_key_id_if_sorted)
  let ?r = "case es of [] \<Rightarrow> None | e # _ \<Rightarrow> Some (ee_run_id e)"
  have "\<exists>st'. efold (replay_step ?r) es initial_client = Inr st' \<and>
      seq_count st' = seq_count initial_client + length es"
  proof (rule replay_accepts [where p = p])
    show "\<forall>e \<in> set es. Some (ee_run_id e) = ?r" using assms(3) by (cases es) auto
  qed (use assms in \<open>simp_all add: initial_client_def [of] seq_count_def client_ok_def\<close>)
  then show ?thesis by (simp add: try_replay_def sort)
qed

text \<open>
  Every gapless log is accepted: sequence numbers 1 to n in order, distinct
  event ids, one run, at most one plan. The final state counts all of it.
\<close>

theorem gapless_log_replays:
  assumes "map (\<lambda>e. unat (ee_seq e)) es = [1..<Suc (length es)]" "distinct (map ee_event_id es)"
    and "\<forall>e \<in> set es. ee_run_id e = run" "\<forall>e \<in> set es. event_plan_id (ee_event e) \<in> {None, Some p}"
  shows "\<exists>st. try_replay es = Inr st \<and> seq_count st = length es"
  using assms by (rule gapless_replays)

definition sample_pair :: "event_envelope list" where
  "sample_pair = [started, delta 2 ''event-2'' ''hi'']"

theorem gapless_log_replays_witness:
  "\<exists>st. try_replay sample_pair = Inr st \<and> seq_count st = length sample_pair"
proof (rule gapless_log_replays [where run = "''r''" and p = "[]"])
  show "map (\<lambda>e. unat (ee_seq e)) sample_pair = [1..<Suc (length sample_pair)]"
    by (simp add: sample_pair_def started_def delta_def sample_envelope_def)
qed (simp_all add: sample_pair_def started_def delta_def sample_envelope_def)

text \<open>
  An event of a second plan stalls the client for good. \<open>try_apply\<close>
  refuses it although the \<open>PlanCreated\<close> arm goes on to reset the plan state, and
  after the refusal every later event of the run is refused as a gap, while the store has
  accepted them all.
\<close>

theorem second_plan_stalls_client:
  assumes "cs_active_plan_id st = Some p" "cs_last_seq st = Some l" "l < l + 1"
    and "cs_seen st (ee_event_id e) = None" "event_plan_id (ee_event e) = Some q" "q \<noteq> p"
  shows "try_apply e st = Inl (PlanMismatch p q) \<and>
    (cs_seen st (ee_event_id e') = None \<and> l + 1 < ee_seq e' \<and> event_plan_id (ee_event e') \<in> {None, Some p}
       \<longrightarrow> try_apply e' st = Inl (SequenceGap (l + 1) (ee_seq e')))"
proof -
  have "l < ee_seq e'" "ee_seq e' \<noteq> l + 1" if "l + 1 < ee_seq e'" using that assms(3) by auto
  then show ?thesis
    using assms by (auto simp: try_apply_def check_plan_def check_seq_def)
qed

definition plan_event :: "64 word \<Rightarrow> string \<Rightarrow> string \<Rightarrow> event_envelope" where
  "plan_event n i plan = sample_envelope\<lparr>ee_seq := n, ee_event_id := i, ee_event := PlanCreated
     \<lparr>pc_plan_id = plan, pc_title = None, pc_total_steps = 1, pc_steps = [], pc_store_plan_id = None\<rparr>\<rparr>"

definition planned_client :: client_state where
  "planned_client = apply_event (ee_event (plan_event 1 ''a'' ''p'')) (initial_client\<lparr>cs_last_seq := Some 1\<rparr>)"

theorem second_plan_stalls_client_witness:
  "try_apply (plan_event 2 ''b'' ''q'') planned_client = Inl (PlanMismatch ''p'' ''q'') \<and>
   try_apply (delta 3 ''c'' ''hi'') planned_client = Inl (SequenceGap 2 3)"
  using second_plan_stalls_client [of planned_client "''p''" 1 "plan_event 2 ''b'' ''q''" "''q''" "delta 3 ''c'' ''hi''"]
  by (simp add: planned_client_def plan_event_def delta_def initial_client_def sample_envelope_def)

end
