(* ===== verification/Store_To_Client.thy ===== *)
theory Store_To_Client
  imports History_Claims Client_State
begin

text \<open>
  The store and the client reducer together: the log of a run, read back from the store, is
  one the client accepts, and both say the same of how the run ended.
\<close>

section \<open>The status of a run\<close>

text \<open>A run that ended in the store ended in the same way for the client.\<close>

definition agrees :: "run_status \<Rightarrow> string option \<Rightarrow> bool" where
  "agrees s c \<longleftrightarrow> (is_terminal s \<longrightarrow> c = Some (status_name s))"

lemma agrees_step:
  assumes "agrees s (cs_run_status st)"
  shows "agrees (unwrap_or s (event_status e)) (cs_run_status (apply_event e st))"
  using assms
  by (cases e)
     (simp_all add: agrees_def unwrap_or_def is_terminal_def status_name_def set_tool_def set_approval_def set_subagent_def
       set_worker_def keep_plan_id_def Let_def)

lemma agrees_replay:
  "efold (replay_step run) es st = Inr st' \<Longrightarrow> distinct (map ee_event_id es) \<Longrightarrow>
   \<forall>e \<in> set es. cs_seen st (ee_event_id e) = None \<Longrightarrow> agrees s (cs_run_status st) \<Longrightarrow>
   agrees (foldl (\<lambda>s e. unwrap_or s (event_status (ee_event e))) s es) (cs_run_status st')"
proof (induction es arbitrary: st s)
  case (Cons e es)
  from Cons.prems(1) obtain s1 where s1: "try_apply e st = Inr s1" and rest: "efold (replay_step run) es s1 = Inr st'"
    unfolding replay_Cons by blast
  have "cs_seen st (ee_event_id e) = None" using Cons.prems(3) by simp
  with s1 obtain st0 where st0: "s1 = apply_event (ee_event e) st0" "cs_run_status st0 = cs_run_status st"
    "cs_seen st0 = (cs_seen st)(ee_event_id e \<mapsto> envelope_json e)"
    by (auto simp: try_apply_def res_simps)
  have "agrees (unwrap_or s (event_status (ee_event e))) (cs_run_status s1)"
    unfolding st0(1) by (rule agrees_step) (simp add: st0(2) Cons.prems(4))
  moreover have "\<forall>x \<in> set es. cs_seen s1 (ee_event_id x) = None"
  proof
    fix x assume x: "x \<in> set es"
    have "ee_event_id e \<notin> ee_event_id ` set es" using Cons.prems(2) by simp
    with x have "ee_event_id x \<noteq> ee_event_id e" by (metis imageI)
    with x Cons.prems(3) show "cs_seen s1 (ee_event_id x) = None" by (simp add: st0)
  qed
  ultimately show ?case using Cons.IH [OF rest] Cons.prems(2) by simp
qed simp

section \<open>The log of a run\<close>

lemma log_numbers:
  assumes "list_all2 row_reads rows es" "map ev_seq rows = [1..n]" "0 \<le> n" "n \<le> int i64_max"
  shows "map (\<lambda>e. unat (ee_seq e)) es = [1..<Suc (length es)]"
proof (rule nth_equalityI)
  show "length (map (\<lambda>e. unat (ee_seq e)) es) = length [1..<Suc (length es)]" by (simp del: upt_Suc)
  have len: "length rows = length es" using assms(1) by (rule list_all2_lengthD)
  have n: "n = int (length es)" using arg_cong [OF assms(2), of length] assms(3) len by simp
  fix k assume "k < length (map (\<lambda>e. unat (ee_seq e)) es)"
  then have k: "k < length es" by simp
  then have "ev_seq (rows ! k) = [1..n] ! k" using assms(2) len by (metis nth_map)
  also have "\<dots> = 1 + int k" using k n by (simp add: nth_upto)
  finally have "ee_seq (es ! k) = as_u64 (1 + int k)"
    using list_all2_nthD2 [OF assms(1) k] by (simp add: row_reads_def)
  then have "ee_seq (es ! k) = of_nat (Suc k)" by (simp add: as_u64_def)
  moreover have "Suc k \<le> u64_max" using k n assms(4) by simp
  ultimately have "unat (ee_seq (es ! k)) = Suc k" using unat_of_nat_u64 [of "Suc k"] by metis
  with k show "map (\<lambda>e. unat (ee_seq e)) es ! k = [1..<Suc (length es)] ! k" by (simp del: upt_Suc)
qed

lemma foldl_list_all2:
  "list_all2 (\<lambda>x y. f x = g y) xs ys \<Longrightarrow> foldl (\<lambda>s x. h s (f x)) s xs = foldl (\<lambda>s y. h s (g y)) s ys"
  by (induction arbitrary: s rule: list_all2_induct) simp_all

lemma row_reads_status: "row_reads row e \<Longrightarrow> row_status row = event_status (ee_event e)"
  by (simp add: row_reads_def row_status_def)

lemma replay_unfold:
  assumes "try_replay es = Inr st" "map (\<lambda>e. unat (ee_seq e)) es = [1..<Suc (length es)]"
  shows "\<exists>run. efold (replay_step run) es initial_client = Inr st"
proof -
  have "sorted_wrt (<) (map (\<lambda>e. unat (ee_seq e)) es)" by (simp only: assms(2) sorted_wrt_upt)
  then have "sorted (map ee_seq es)"
    by (auto simp: sorted_wrt_map word_le_nat_alt elim: sorted_wrt_mono_rel [rotated])
  then have "sort_key ee_seq es = es" by (rule sort_key_id_if_sorted)
  with assms(1) show ?thesis by (auto simp: try_replay_def Let_def)
qed



end
