(* ===== verification/Unicode_Text.thy ===== *)
theory Unicode_Text
  imports Cool_Prelude
begin

text \<open>
  White space of UTF-8 texts: \<open>str::trim\<close>, \<open>str::trim_end\<close> and
  \<open>str::split_whitespace\<close> of the Rust standard library on byte sequences, with the
  lemmas that say when they leave a text as it is.
\<close>

section \<open>Trimming\<close>

text \<open>
  \<open>trim\<close> and \<open>trim_end\<close> drop the Unicode white space, \<open>White_Space\<close>:
  one of the ASCII characters, or U+0085, U+00A0, U+1680, U+2000 to U+200A, U+2028, U+2029,
  U+202F, U+205F and U+3000 in their UTF-8 form.
\<close>

definition white_spaces :: "nat list list" where
  "white_spaces = map (\<lambda>n. [n]) [9, 10, 11, 12, 13, 32] @ [[194, 133], [194, 160], [225, 154, 128]] @
     map (\<lambda>n. [226, 128, n]) ([128..<139] @ [168, 169, 175]) @ [[226, 129, 159], [227, 128, 128]]"

definition bytes_of :: "string \<Rightarrow> nat list" where
  "bytes_of s = map of_char s"

definition space_prefix :: "nat list list \<Rightarrow> string \<Rightarrow> nat" where
  "space_prefix spaces s = (case find (\<lambda>w. w = take (length w) (bytes_of s)) spaces of None \<Rightarrow> 0 | Some w \<Rightarrow> length w)"

function trim_by :: "nat list list \<Rightarrow> string \<Rightarrow> string" where
  "trim_by spaces s =
     (let n = space_prefix spaces s in if n = 0 \<or> s = [] then s else trim_by spaces (drop n s))"
  by auto
termination by (relation "measure (\<lambda>(_, s). length s)") (auto simp: Let_def)

declare trim_by.simps [simp del]

definition trim_start :: "string \<Rightarrow> string" where "trim_start s = trim_by white_spaces s"
definition trim_end :: "string \<Rightarrow> string" where "trim_end s = rev (trim_by (map rev white_spaces) (rev s))"
definition trim_text :: "string \<Rightarrow> string" where "trim_text s = trim_start (trim_end s)"

section \<open>Splitting at white space\<close>

text \<open>
  \<open>str::split_whitespace\<close>: the maximal pieces without white space, in order. The piece
  being read is kept in reverse.
\<close>

definition flush_piece :: "string \<Rightarrow> string list \<Rightarrow> string list" where
  "flush_piece piece pieces = (if piece = [] then pieces else rev piece # pieces)"

function split_white_from :: "string \<Rightarrow> string \<Rightarrow> string list" where
  "split_white_from piece s =
     (case s of
        [] \<Rightarrow> flush_piece piece []
      | c # cs \<Rightarrow>
          (let n = space_prefix white_spaces s in
           if n = 0 then split_white_from (c # piece) cs
           else flush_piece piece (split_white_from [] (drop n s))))"
  by pat_completeness auto
termination by (relation "measure (\<lambda>(_, s). length s)") (auto simp: Let_def)

declare split_white_from.simps [simp del]

definition split_white :: "string \<Rightarrow> string list" where
  "split_white s = split_white_from [] s"

section \<open>Texts without white space at their ends\<close>

text \<open>The visible ASCII characters; none of them begins or ends a white space.\<close>

definition is_plain :: "char \<Rightarrow> bool" where
  "is_plain c \<longleftrightarrow> 33 \<le> (of_char c :: nat) \<and> (of_char c :: nat) \<le> 126"

lemma plain_digit: "is_digit c \<Longrightarrow> is_plain c"
  by (simp add: is_digit_def is_plain_def)

lemma space_prefix_plain:
  assumes "is_plain c" shows "space_prefix white_spaces (c # s) = 0" "space_prefix (map rev white_spaces) (c # s) = 0"
proof -
  have "33 \<le> (of_char c :: nat)" "(of_char c :: nat) \<le> 126" using assms by (simp_all add: is_plain_def)
  then have "find (\<lambda>w. w = take (length w) (bytes_of (c # s))) white_spaces = None"
    "find (\<lambda>w. w = take (length w) (bytes_of (c # s))) (map rev white_spaces) = None"
    by (auto simp: find_None_iff white_spaces_def bytes_of_def)
  then show "space_prefix white_spaces (c # s) = 0" "space_prefix (map rev white_spaces) (c # s) = 0"
    by (simp_all add: space_prefix_def)
qed

lemma trim_text_plain:
  assumes "s \<noteq> []" "is_plain (hd s)" "is_plain (last s)"
  shows "trim_text s = s"
proof -
  obtain c a where front: "s = c # a" using assms(1) by (cases s) auto
  obtain b d where rear: "rev s = d # b" using assms(1) by (cases "rev s") auto
  from rear assms(3) have "is_plain d" by (metis hd_rev list.sel(1))
  then have "trim_end s = s"
    using rear by (simp add: trim_end_def trim_by.simps [of _ "d # b"] space_prefix_plain Let_def rev_swap)
  moreover have "trim_start s = s"
    using front assms(2) by (simp add: trim_start_def trim_by.simps [of _ "c # a"] space_prefix_plain Let_def)
  ultimately show ?thesis by (simp add: trim_text_def)
qed

lemma split_white_from_simps:
  "split_white_from piece [] = flush_piece piece []"
  "is_plain c \<Longrightarrow> split_white_from piece (c # s) = split_white_from (c # piece) s"
  "split_white_from piece (CHR '' '' # s) = flush_piece piece (split_white_from [] s)"
proof -
  show "split_white_from piece [] = flush_piece piece []" by (simp add: split_white_from.simps)
  show "is_plain c \<Longrightarrow> split_white_from piece (c # s) = split_white_from (c # piece) s"
    by (simp add: split_white_from.simps [of piece "c # s"] space_prefix_plain Let_def)
  have "space_prefix white_spaces (CHR '' '' # s) = 1" by (simp add: space_prefix_def white_spaces_def bytes_of_def)
  then show "split_white_from piece (CHR '' '' # s) = flush_piece piece (split_white_from [] s)"
    by (simp add: split_white_from.simps [of piece "CHR '' '' # s"] Let_def)
qed

lemmas plain_text = trim_text_plain split_white_def split_white_from_simps flush_piece_def is_plain_def

end
