(* ===== verification/Agent_Messages.thy ===== *)
theory Agent_Messages
  imports Protocol_Events Capability_Policy Unicode_Text
begin

text \<open>
  The values of the agent loop: messages (\<open>crates/cool-agent/src/context.rs\<close>), usage
  and model events (\<open>provider.rs\<close>), tool results (\<open>tools.rs\<close>), and what a
  call says about itself to the policy (\<open>rule_subject\<close>,
  \<open>suggest_policy_rule\<close> and the wire form of rules of \<open>loop_runtime.rs\<close>).
  Texts are UTF-8 byte sequences. Two functions of other crates are parameters:
  \<open>ser\<close> is \<open>serde_json::to_string\<close> of a value, and \<open>host\<close> is the
  host of a parsed URL (crate \<open>url\<close>), if there is one.
\<close>

section \<open>Messages\<close>

datatype message_role = SystemRole | UserRole | AssistantRole | ToolRole

record tool_call =
  mc_call_id :: string
  mc_name :: string
  mc_arguments :: json_map

datatype content_part = TextPart string | ImagePart string string

record message =
  mg_role :: message_role
  mg_content :: "string option"
  mg_parts :: "content_part list option"
  mg_tool_calls :: "tool_call list"
  mg_tool_call_id :: "string option"
  mg_name :: "string option"

definition text_message :: "message_role \<Rightarrow> string \<Rightarrow> message" where
  "text_message role content = \<lparr>mg_role = role, mg_content = Some content, mg_parts = None,
     mg_tool_calls = [], mg_tool_call_id = None, mg_name = None\<rparr>"

definition message_with_parts :: "message_role \<Rightarrow> string \<Rightarrow> content_part list \<Rightarrow> message" where
  "message_with_parts role content parts =
     (text_message role content)\<lparr>mg_parts := if parts = [] then None else Some parts\<rparr>"

definition tool_result_message :: "tool_call \<Rightarrow> string \<Rightarrow> message" where
  "tool_result_message call content = \<lparr>mg_role = ToolRole, mg_content = Some content, mg_parts = None,
     mg_tool_calls = [], mg_tool_call_id = Some (mc_call_id call), mg_name = Some (mc_name call)\<rparr>"

lemma message_simps [simp]:
  "mg_role (text_message r c) = r" "mg_content (text_message r c) = Some c" "mg_tool_calls (text_message r c) = []"
  "mg_parts (text_message r c) = None" "mg_tool_call_id (text_message r c) = None"
  "mg_role (message_with_parts r c ps) = r" "mg_content (message_with_parts r c ps) = Some c"
  "mg_tool_calls (message_with_parts r c ps) = []" "mg_tool_call_id (message_with_parts r c ps) = None"
  "mg_role (tool_result_message k c) = ToolRole" "mg_content (tool_result_message k c) = Some c"
  "mg_tool_calls (tool_result_message k c) = []" "mg_tool_call_id (tool_result_message k c) = Some (mc_call_id k)"
  by (simp_all add: text_message_def message_with_parts_def tool_result_message_def)

text \<open>The wire form of a call.\<close>

definition requested_call :: "tool_call \<Rightarrow> tool_requested" where
  "requested_call call = \<lparr>tr_call_id = mc_call_id call, tr_name = mc_name call, tr_arguments = mc_arguments call\<rparr>"

lemma requested_call_simps [simp]:
  "tr_call_id (requested_call c) = mc_call_id c" "tr_name (requested_call c) = mc_name c"
  "tr_arguments (requested_call c) = mc_arguments c"
  by (simp_all add: requested_call_def)

section \<open>Model events, usage and results\<close>

record usage =
  us_prompt_tokens :: "64 word"
  us_completion_tokens :: "64 word"
  us_cache_read_tokens :: "64 word"
  us_cache_write_tokens :: "64 word"
  us_total_tokens :: "64 word"
  us_cost_micro_usd :: "64 word option"

definition no_usage :: usage where
  "no_usage = \<lparr>us_prompt_tokens = 0, us_completion_tokens = 0, us_cache_read_tokens = 0,
     us_cache_write_tokens = 0, us_total_tokens = 0, us_cost_micro_usd = None\<rparr>"

datatype model_event =
    ModelContent string
  | ModelReasoning string
  | ModelToolCall tool_call
  | ModelUsage usage
  | ModelFinish "string option"

record provider_error =
  pv_code :: string
  pv_message :: string
  pv_retryable :: bool

record tool_result =
  to_output :: json
  to_output_parts :: "content_part list option"
  to_is_error :: bool
  to_error_code :: "string option"
  to_truncated :: bool
  to_diagnostics :: "string option"

definition tool_error :: "string \<Rightarrow> string \<Rightarrow> tool_result" where
  "tool_error code text = \<lparr>to_output = JObject [(''error'', JString text)], to_output_parts = None,
     to_is_error = True, to_error_code = Some code, to_truncated = False, to_diagnostics = None\<rparr>"

definition masked_result :: "(string \<Rightarrow> string) \<Rightarrow> tool_result \<Rightarrow> tool_result" where
  "masked_result ms r = r\<lparr>to_output := mask_json ms (to_output r)\<rparr>"

definition saturating_add :: "64 word \<Rightarrow> 64 word \<Rightarrow> 64 word" where
  "saturating_add a b = (if unat a + unat b \<le> u64_max then a + b else of_nat u64_max)"

definition add_usage :: "usage \<Rightarrow> usage \<Rightarrow> usage" where
  "add_usage acc addition = \<lparr>
     us_prompt_tokens = saturating_add (us_prompt_tokens acc) (us_prompt_tokens addition),
     us_completion_tokens = saturating_add (us_completion_tokens acc) (us_completion_tokens addition),
     us_cache_read_tokens = saturating_add (us_cache_read_tokens acc) (us_cache_read_tokens addition),
     us_cache_write_tokens = saturating_add (us_cache_write_tokens acc) (us_cache_write_tokens addition),
     us_total_tokens = saturating_add (us_total_tokens acc) (us_total_tokens addition),
     us_cost_micro_usd = (case (us_cost_micro_usd acc, us_cost_micro_usd addition) of
        (Some left, Some right) \<Rightarrow> Some (saturating_add left right)
      | (None, v) \<Rightarrow> v
      | (v, None) \<Rightarrow> v)\<rparr>"

record agent_limits =
  al_max_iterations :: nat
  al_max_total_tokens :: "64 word option"
  al_max_cost_micro_usd :: "64 word option"
  al_context_tokens :: nat
  al_max_provider_retries :: nat

definition limits_exceeded :: "agent_limits \<Rightarrow> usage \<Rightarrow> bool" where
  "limits_exceeded limits u \<longleftrightarrow>
     (case al_max_total_tokens limits of None \<Rightarrow> False | Some l \<Rightarrow> l < us_total_tokens u) \<or>
     (case al_max_cost_micro_usd limits of None \<Rightarrow> False | Some l \<Rightarrow>
        (case us_cost_micro_usd u of None \<Rightarrow> True | Some actual \<Rightarrow> l < actual))"

section \<open>What a call is matched against\<close>

definition arg_str :: "tool_call \<Rightarrow> string \<Rightarrow> string option" where
  "arg_str call key = (case map_of (mc_arguments call) key of Some (JString s) \<Rightarrow> Some s | _ \<Rightarrow> None)"

definition arg_array :: "tool_call \<Rightarrow> string \<Rightarrow> json list option" where
  "arg_array call key = (case map_of (mc_arguments call) key of Some (JArray xs) \<Rightarrow> Some xs | _ \<Rightarrow> None)"

fun texts_of :: "json list \<Rightarrow> string list" where
  "texts_of [] = []"
| "texts_of (JString s # xs) = s # texts_of xs"
| "texts_of (_ # xs) = texts_of xs"

fun join_spaces :: "string list \<Rightarrow> string" where
  "join_spaces [] = []"
| "join_spaces [x] = x"
| "join_spaces (x # y # xs) = x @ '' '' @ join_spaces (y # xs)"

definition joined_args :: "tool_call \<Rightarrow> string" where
  "joined_args call = (case arg_array call ''args'' of None \<Rightarrow> [] | Some xs \<Rightarrow> join_spaces (texts_of xs))"

definition domain_subject :: "(string \<Rightarrow> string option) \<Rightarrow> tool_call \<Rightarrow> rule_subject" where
  "domain_subject host call =
     (case find (\<lambda>key. arg_str call key \<noteq> None) [''url'', ''host'', ''domain''] of
        None \<Rightarrow> NoSubject
      | Some key \<Rightarrow> let value = the (arg_str call key) in DomainSubject (unwrap_or value (host value)))"

definition rule_subject_of :: "(string \<Rightarrow> string option) \<Rightarrow> tool_call \<Rightarrow> rule_subject" where
  "rule_subject_of host call =
     (if mc_name call = ''shell'' then
        CommandSubject (trim_end (unwrap_or [] (arg_str call ''program'') @ '' '' @ joined_args call))
      else if mc_name call = ''git'' then CommandSubject (trim_end (''git '' @ joined_args call))
      else case arg_str call ''path'' of
        Some path \<Rightarrow> PathSubject path
      | None \<Rightarrow> domain_subject host call)"

definition scoped :: "rule_scope \<Rightarrow> policy_rule \<Rightarrow> policy_rule" where
  "scoped s r = r\<lparr>pr_scope := s\<rparr>"

definition first_text :: "json list \<Rightarrow> string" where
  "first_text xs = (case xs of JString s # _ \<Rightarrow> s | _ \<Rightarrow> [])"

definition suggest_policy_rule :: "tool_call \<Rightarrow> policy_rule option" where
  "suggest_policy_rule call =
     (if mc_name call = ''shell'' then
        (let program = trim_text (unwrap_or [] (arg_str call ''program'')) in
         if program = [] then None
         else Some (scoped ProjectScope (new_policy_rule ''shell'' CommandKind (program @ '' *'') Allow)))
      else if mc_name call = ''git'' then
        (let sub = first_text (unwrap_or [] (arg_array call ''args''));
             pattern = if sub = [] \<or> starts_with ''-'' sub then ''git *'' else ''git '' @ sub @ '' *'' in
         Some (scoped ProjectScope (new_policy_rule ''git'' CommandKind pattern Allow)))
      else if mc_name call = ''write_file'' \<or> mc_name call = ''edit_file'' then
        (case arg_str call ''path'' of
           None \<Rightarrow> None
         | Some path \<Rightarrow> if path = [] then None
             else Some (scoped ProjectScope (new_policy_rule (mc_name call) PathGlobKind path Allow)))
      else None)"

definition policy_rule_record_of :: "policy_rule \<Rightarrow> policy_rule_record" where
  "policy_rule_record_of r = \<lparr>prr_id = pr_id r, prr_tool = pr_tool r, prr_kind = pattern_kind_name (pr_kind r),
     prr_pattern = pr_pattern r, prr_decision = decision_name (pr_decision r),
     prr_scope = rule_scope_name (pr_scope r), prr_note = pr_note r\<rparr>"

definition decision_of_name :: "string \<Rightarrow> decision option" where
  "decision_of_name v = (if v = ''allow'' then Some Allow else if v = ''ask'' then Some Ask
     else if v = ''deny'' then Some Deny else None)"

definition policy_rule_from_record :: "policy_rule_record \<Rightarrow> policy_rule option" where
  "policy_rule_from_record r = do {
     kind \<leftarrow> pattern_kind_parse (prr_kind r);
     decision \<leftarrow> decision_of_name (prr_decision r);
     scope \<leftarrow> rule_scope_parse (prr_scope r);
     Some \<lparr>pr_tool = prr_tool r, pr_kind = kind, pr_pattern = prr_pattern r, pr_decision = decision,
       pr_scope = scope, pr_note = prr_note r, pr_id = prr_id r\<rparr> }"

section \<open>Costs as floating-point numbers\<close>

text \<open>
  \<open>cost as f64 / 1_000_000.0\<close>: the conversion rounds the integer to 53 significant
  bits, the division rounds the exact quotient, both to the nearest and to the even one in a
  tie. The quotients that occur lie between 2 to the -20 and 2 to the 45, so neither
  subnormal numbers nor infinities arise.
\<close>

definition round_div :: "nat \<Rightarrow> nat \<Rightarrow> nat" where
  "round_div a b = (let q = a div b; r = a mod b in
     if 2 * r < b then q else if b < 2 * r then q + 1 else q + q mod 2)"

fun bit_len :: "nat \<Rightarrow> nat" where
  "bit_len n = (if n = 0 then 0 else Suc (bit_len (n div 2)))"

declare bit_len.simps [simp del]

definition round_to_f64 :: "nat \<Rightarrow> nat" where
  "round_to_f64 n = (let k = bit_len n - 53 in round_div n (2 ^ k) * 2 ^ k)"

text \<open>
  The bits of the double nearest to \<open>a / b\<close>: \<open>e\<close> is the exponent of the
  quotient, biased by 64 to stay in the naturals.
\<close>

definition f64_ratio :: "nat \<Rightarrow> nat \<Rightarrow> 64 word" where
  "f64_ratio a b = (if a = 0 then 0 else
     let l = bit_len a + 64 - bit_len b;
         e = (if a * 2 ^ 64 < b * 2 ^ l then l - 1 else l);
         m = (if e \<le> 116 then round_div (a * 2 ^ (116 - e)) b else round_div a (b * 2 ^ (e - 116)));
         (m, e) = (if m = 2 ^ 53 then (2 ^ 52, e + 1) else (m, e))
     in word_of_nat ((e + 959) * 2 ^ 52 + (m - 2 ^ 52)))"

definition micro_usd_f64 :: "64 word \<Rightarrow> 64 word" where
  "micro_usd_f64 cost = f64_ratio (round_to_f64 (unat cost)) 1000000"

section \<open>Facts\<close>

lemma decision_of_name_name [simp]: "decision_of_name (decision_name d) = Some d"
  by (cases d) (simp_all add: decision_of_name_def decision_name_def)

lemma scoped_simps [simp]:
  "pr_tool (scoped s r) = pr_tool r" "pr_kind (scoped s r) = pr_kind r"
  "pr_pattern (scoped s r) = pr_pattern r" "pr_decision (scoped s r) = pr_decision r"
  "pr_scope (scoped s r) = s"
  by (simp_all add: scoped_def)

lemma record_round_trip: "policy_rule_from_record (policy_rule_record_of r) = Some r"
  by (simp add: policy_rule_from_record_def policy_rule_record_of_def)

lemma record_round_trip_back:
  "policy_rule_from_record w = Some r \<Longrightarrow> policy_rule_record_of r = w"
  by (auto simp: policy_rule_from_record_def policy_rule_record_of_def pattern_kind_parse_def
      decision_of_name_def rule_scope_parse_def pattern_kind_name_def decision_name_def
      rule_scope_name_def split: bind_splits if_splits)

section \<open>Properties\<close>

text \<open>
  The wire form of rules: every rule survives the trip through its record, and a
  record is read back exactly when it is the record of a rule, so an unknown kind, decision or
  scope is refused and nothing is normalised on the way.
\<close>

theorem rule_records_round_trip:
  "policy_rule_from_record (policy_rule_record_of r) = Some r \<and>
   (policy_rule_from_record w = Some r \<longleftrightarrow> w = policy_rule_record_of r)"
  using record_round_trip [of r] record_round_trip_back [of w r] by auto

text \<open>
  Property C37. A suggested rule always allows, at project scope, for the tool of the call. But
  the path of a file tool is put into the pattern as it is, and a leading exclamation
  mark negates a pattern: remembering the suggestion for a file named \<open>!p\<close> allows the
  tool on every path that \<open>p\<close> does not match.
\<close>

theorem suggested_path_rule_inverts:
  assumes "mc_name call = ''write_file'' \<or> mc_name call = ''edit_file''"
    and "arg_str call ''path'' = Some (CHR ''!'' # p)"
  shows "\<exists>r. suggest_policy_rule call = Some r \<and> pr_decision r = Allow \<and> pr_scope r = ProjectScope \<and>
    pr_tool r = mc_name call \<and>
    (rule_matches glob r (mc_name call) (PathSubject q) \<longleftrightarrow> \<not> glob_match glob p q)"
proof -
  let ?r = "scoped ProjectScope (new_policy_rule (mc_name call) PathGlobKind (CHR ''!'' # p) Allow)"
  have "suggest_policy_rule call = Some ?r" using assms by (auto simp: suggest_policy_rule_def)
  then show ?thesis
    by (simp add: new_policy_rule_def rule_matches_def matches_tool_def path_glob_match_def strip_prefix_def starts_with_iff)
qed

definition bang_call :: tool_call where
  "bang_call = \<lparr>mc_call_id = ''c'', mc_name = ''write_file'', mc_arguments = [(''path'', JString ''!notes'')]\<rparr>"

theorem suggested_path_rule_inverts_witness:
  "\<exists>r. suggest_policy_rule bang_call = Some r \<and> pr_decision r = Allow \<and> pr_scope r = ProjectScope \<and>
    pr_tool r = ''write_file'' \<and>
    (rule_matches (\<lambda>p. Some (\<lambda>q. q = p)) r ''write_file'' (PathSubject ''src/main.rs'') \<longleftrightarrow>
     \<not> glob_match (\<lambda>p. Some (\<lambda>q. q = p)) ''notes'' ''src/main.rs'')"
proof -
  have "mc_name bang_call = ''write_file''" "arg_str bang_call ''path'' = Some (CHR ''!'' # ''notes'')"
    by (simp_all add: bang_call_def arg_str_def)
  from suggested_path_rule_inverts [OF disjI1 [OF this(1)] this(2)] this(1) show ?thesis by simp
qed

end
