(* ===== verification/Tool_Registry.thy ===== *)
theory Tool_Registry
  imports Agent_Messages
begin

text \<open>
  The registry of tools of \<open>crates/cool-agent/src/tools.rs\<close>: a \<open>BTreeMap\<close> from
  names to tools behind a lock that makes every operation atomic, its catalog, the rule that
  hides deferred tools, and the tools that only compute on values (\<open>update_plan\<close>,
  \<open>activate_tools\<close>). What any other tool does is its handler, a value of the type
  parameter; the limit on eager tools is read from the environment variable
  \<open>COOL_EAGER_TOOL_LIMIT\<close>, given as an optional text.
\<close>

section \<open>Tools\<close>

record tool_definition =
  df_name :: string
  df_description :: string
  df_parameters :: json

datatype tool_activation = Eager | Deferred

datatype 'h tool_handler = SearchTools | ActivateTools | PlanTool | OtherTool 'h

record 'h tool =
  tx_definition :: tool_definition
  tx_capabilities :: "capability list"
  tx_default_decision :: decision
  tx_activation :: tool_activation
  tx_handler :: "'h tool_handler"

definition new_tool :: "tool_definition \<Rightarrow> capability list \<Rightarrow> decision \<Rightarrow> 'h tool_handler \<Rightarrow> 'h tool" where
  "new_tool def caps d handler = \<lparr>tx_definition = def, tx_capabilities = btree_set caps,
     tx_default_decision = d, tx_activation = Eager, tx_handler = handler\<rparr>"

definition deferred_tool :: "'h tool \<Rightarrow> 'h tool" where
  "deferred_tool tool = tool\<lparr>tx_activation := Deferred\<rparr>"

abbreviation tool_name :: "'h tool \<Rightarrow> string" where
  "tool_name tool \<equiv> df_name (tx_definition tool)"

type_synonym 'h registry = "(string \<times> 'h tool) list"

datatype tool_failure =
    UnknownTool string
  | InvalidArguments string
  | SecurityRejected string
  | ToolIo string
  | ToolTimeout
  | ToolCancelled

primrec tool_failure_text :: "tool_failure \<Rightarrow> string" where
  "tool_failure_text (UnknownTool name) = ''unknown tool: '' @ name"
| "tool_failure_text (InvalidArguments reason) = ''invalid arguments: '' @ reason"
| "tool_failure_text (SecurityRejected reason) = ''security policy rejected tool: '' @ reason"
| "tool_failure_text (ToolIo reason) = ''tool I/O error: '' @ reason"
| "tool_failure_text ToolTimeout = ''tool timed out''"
| "tool_failure_text ToolCancelled = ''tool was cancelled''"

definition capability_name :: "capability \<Rightarrow> string" where
  "capability_name k = (case k of Read \<Rightarrow> ''read'' | Write \<Rightarrow> ''write'' | Execute \<Rightarrow> ''execute''
     | Network \<Rightarrow> ''network'' | Git \<Rightarrow> ''git'' | SendExternal \<Rightarrow> ''send_external'')"

section \<open>Operations\<close>

definition name_rejected :: tool_failure where
  "name_rejected = InvalidArguments ''tool names must be non-empty and unique''"

fun registry_insert_all :: "'h tool list \<Rightarrow> 'h registry \<Rightarrow> (tool_failure, 'h registry) result" where
  "registry_insert_all [] r = Inr r"
| "registry_insert_all (tool # tools) r =
     (if tool_name tool = [] \<or> map_of r (tool_name tool) \<noteq> None then Inl name_rejected
      else registry_insert_all tools (bt_insert (tool_name tool) tool r))"

definition registry_new :: "'h tool list \<Rightarrow> (tool_failure, 'h registry) result" where
  "registry_new tools = registry_insert_all tools []"

definition registry_get :: "'h registry \<Rightarrow> string \<Rightarrow> 'h tool option" where
  "registry_get r name = map_of r name"

definition registry_definitions :: "'h registry \<Rightarrow> tool_definition list" where
  "registry_definitions r = map (\<lambda>(_, tool). tx_definition tool) r"

definition eager_tool_limit :: "string option \<Rightarrow> nat" where
  "eager_tool_limit var = unwrap_or 20 (case var of None \<Rightarrow> None | Some v \<Rightarrow> parse_unsigned u64_max v)"

definition is_deferred :: "string option \<Rightarrow> 'h tool \<Rightarrow> nat \<Rightarrow> bool" where
  "is_deferred var tool catalog_size \<longleftrightarrow> tx_activation tool = Deferred \<or>
     (eager_tool_limit var < catalog_size \<and>
      (starts_with ''mcp_'' (tool_name tool) \<or> starts_with ''mcpx_'' (tool_name tool)))"

definition visible_definitions :: "string option \<Rightarrow> 'h registry \<Rightarrow> string list \<Rightarrow> tool_definition list" where
  "visible_definitions var r active = map (\<lambda>(_, tool). tx_definition tool)
     (filter (\<lambda>(_, tool). \<not> is_deferred var tool (length r) \<or> tool_name tool \<in> set active) r)"

definition is_tool_deferred :: "string option \<Rightarrow> 'h registry \<Rightarrow> string \<Rightarrow> bool" where
  "is_tool_deferred var r name =
     (case map_of r name of None \<Rightarrow> False | Some tool \<Rightarrow> is_deferred var tool (length r))"

definition has_deferred_tools :: "string option \<Rightarrow> 'h registry \<Rightarrow> bool" where
  "has_deferred_tools var r = list_ex (\<lambda>(_, tool). is_deferred var tool (length r)) r"

record catalog_entry =
  ce_name :: string
  ce_description :: string
  ce_parameters :: json
  ce_capabilities :: "string list"
  ce_dangerous :: bool

definition catalog_entries :: "'h registry \<Rightarrow> catalog_entry list" where
  "catalog_entries r = sort_key ce_name (map (\<lambda>(_, tool).
     \<lparr>ce_name = tool_name tool, ce_description = df_description (tx_definition tool),
      ce_parameters = df_parameters (tx_definition tool),
      ce_capabilities = sort (map capability_name (tx_capabilities tool)),
      ce_dangerous = tx_default_decision tool = Ask\<rparr>) r)"

text \<open>The two tools that work on the registry itself; the dash of the description is U+2014.\<close>

definition search_tools_definition :: tool_definition where
  "search_tools_definition = \<lparr>df_name = ''search_tools'',
     df_description = ''Search the full tool catalog '' @ [CHR 0xE2, CHR 0x80, CHR 0x94] @
       '' including hidden/deferred tools '' @ [CHR 0xE2, CHR 0x80, CHR 0x94] @
       '' by name and description. Returns the top 5 matches with their parameter schemas; use activate_tools(names) to make a hidden tool callable.'',
     df_parameters = JObject [(''additionalProperties'', JBool False),
       (''properties'', JObject [(''query'', JObject
          [(''description'', JString ''Free-text query matched against tool names and descriptions''),
           (''type'', JString ''string'')])]),
       (''required'', JArray [JString ''query'']), (''type'', JString ''object'')]\<rparr>"

definition activate_tools_definition :: tool_definition where
  "activate_tools_definition = \<lparr>df_name = ''activate_tools'',
     df_description = ''Enable hidden tools for the rest of this run: their schemas appear from the next model turn. Activation is not permission '' @
       [CHR 0xE2, CHR 0x80, CHR 0x94] @ '' policy evaluation still gates each call.'',
     df_parameters = JObject [(''additionalProperties'', JBool False),
       (''properties'', JObject [(''names'', JObject
          [(''description'', JString ''Catalog names from search_tools''),
           (''items'', JObject [(''type'', JString ''string'')]),
           (''minItems'', JNumber (PosInt 1)), (''type'', JString ''array'')])]),
       (''required'', JArray [JString ''names'']), (''type'', JString ''object'')]\<rparr>"

definition install_meta_tools :: "'h registry \<Rightarrow> 'h registry" where
  "install_meta_tools r = foldl (\<lambda>r tool. bt_insert (tool_name tool) tool r) r
     [new_tool search_tools_definition [] Allow SearchTools,
      new_tool activate_tools_definition [] Allow ActivateTools]"

definition registry_extend :: "'h tool list \<Rightarrow> 'h registry \<Rightarrow> (tool_failure, 'h registry) result" where
  "registry_extend tools r =
     ebind (registry_new (map snd r @ tools)) (\<lambda>combined. Inr (install_meta_tools combined))"

definition registry_register :: "'h tool \<Rightarrow> 'h registry \<Rightarrow> (tool_failure, 'h registry) result" where
  "registry_register tool r =
     (if tool_name tool = [] then Inl name_rejected
      else if map_of r (tool_name tool) \<noteq> None then Inl name_rejected
      else Inr (bt_insert (tool_name tool) tool r))"

definition registry_unregister :: "string \<Rightarrow> 'h registry \<Rightarrow> bool \<times> 'h registry" where
  "registry_unregister name r = (map_of r name \<noteq> None, bt_remove name r)"

section \<open>Tools that compute on values\<close>

definition tool_ok :: "json \<Rightarrow> tool_result" where
  "tool_ok output = \<lparr>to_output = output, to_output_parts = None, to_is_error = False,
     to_error_code = None, to_truncated = False, to_diagnostics = None\<rparr>"

definition json_get :: "json \<Rightarrow> string \<Rightarrow> json option" where
  "json_get j key = (case j of JObject m \<Rightarrow> map_of m key | _ \<Rightarrow> None)"

definition json_text :: "json option \<Rightarrow> string option" where
  "json_text j = (case j of Some (JString s) \<Rightarrow> Some s | _ \<Rightarrow> None)"

definition json_array :: "json option \<Rightarrow> json list option" where
  "json_array j = (case j of Some (JArray xs) \<Rightarrow> Some xs | _ \<Rightarrow> None)"

definition reject_unknown :: "json \<Rightarrow> string list \<Rightarrow> (tool_failure, unit) result" where
  "reject_unknown arguments allowed =
     (case arguments of
        JObject m \<Rightarrow> (case find (\<lambda>(name, _). name \<notin> set allowed) m of
            Some (name, _) \<Rightarrow> Inl (InvalidArguments (''unknown argument '' @ name))
          | None \<Rightarrow> Inr ())
      | _ \<Rightarrow> Inl (InvalidArguments ''arguments must be an object''))"

definition required_text :: "json \<Rightarrow> string \<Rightarrow> (tool_failure, string) result" where
  "required_text arguments name =
     ok_or (InvalidArguments (name @ '' must be a string'')) (json_text (json_get arguments name))"

fun all_texts :: "string \<Rightarrow> json list \<Rightarrow> (tool_failure, string list) result" where
  "all_texts name [] = Inr []"
| "all_texts name (x # xs) =
     ebind (ok_or (InvalidArguments (name @ '' must contain strings'')) (json_text (Some x))) (\<lambda>s.
     ebind (all_texts name xs) (\<lambda>ss. Inr (s # ss)))"

definition string_array :: "json \<Rightarrow> string \<Rightarrow> (tool_failure, string list) result" where
  "string_array arguments name =
     ebind (ok_or (InvalidArguments (name @ '' must be an array'')) (json_array (json_get arguments name)))
       (all_texts name)"

definition plan_tool :: "json \<Rightarrow> (tool_failure, tool_result) result" where
  "plan_tool arguments =
     ebind (reject_unknown arguments [''planId'', ''title'', ''steps'']) (\<lambda>_.
     ebind (required_text arguments ''planId'') (\<lambda>plan_id.
     ebind (ok_or (InvalidArguments ''steps must be an array'') (json_array (json_get arguments ''steps''))) (\<lambda>steps.
     Inr (tool_ok (JObject [(''planId'', JString plan_id), (''steps'', JArray steps),
       (''title'', unwrap_or JNull (json_get arguments ''title''))])))))"

text \<open>\<open>activate_tools\<close> also returns the run's set of active tools, an ascending list.\<close>

fun activate_names :: "'h registry \<Rightarrow> string list \<Rightarrow> string list \<times> string list \<times> string list \<Rightarrow>
    string list \<times> string list \<times> string list" where
  "activate_names r [] acc = acc"
| "activate_names r (name # names) (active, activated, unknown) =
     activate_names r names
       (if map_of r name \<noteq> None then (btree_set (name # active), activated @ [name], unknown)
        else (active, activated, unknown @ [name]))"

definition activate_tools ::
    "'h registry \<Rightarrow> json \<Rightarrow> string list \<Rightarrow> (tool_failure, tool_result \<times> string list) result" where
  "activate_tools r arguments active =
     ebind (reject_unknown arguments [''names'']) (\<lambda>_.
     ebind (string_array arguments ''names'') (\<lambda>names.
     let (active, activated, unknown) = activate_names r names (active, [], []) in
     Inr (tool_ok (JObject [(''activated'', JArray (map JString activated)),
            (''unknown'', JArray (map JString unknown))]), active)))"

section \<open>Facts\<close>

definition registry_ok :: "'h registry \<Rightarrow> bool" where
  "registry_ok r \<longleftrightarrow> bt_ok r \<and> (\<forall>(name, tool) \<in> set r. name = tool_name tool \<and> name \<noteq> [])"

lemma registry_ok_Nil [simp]: "registry_ok []"
  by (simp add: registry_ok_def)

lemma set_bt_insert_subset: "set (bt_insert k v m) \<subseteq> insert (k, v) (set m)"
  by (induction k v m rule: bt_insert.induct) auto

lemma registry_ok_insert: "registry_ok r \<Longrightarrow> tool_name tool \<noteq> [] \<Longrightarrow> registry_ok (bt_insert (tool_name tool) tool r)"
  using set_bt_insert_subset [of "tool_name tool" tool r] by (fastforce simp: registry_ok_def bt_ok_insert)

lemma registry_ok_insert_all: "registry_insert_all tools r = Inr r' \<Longrightarrow> registry_ok r \<Longrightarrow> registry_ok r'"
  by (induction tools r rule: registry_insert_all.induct) (auto intro: registry_ok_insert split: if_splits)

lemma meta_names [simp]:
  "df_name search_tools_definition = ''search_tools''" "df_name activate_tools_definition = ''activate_tools''"
  "tx_definition (new_tool def caps d handler) = def"
  by (simp_all add: search_tools_definition_def activate_tools_definition_def new_tool_def)

lemma registry_ok_meta: "registry_ok r \<Longrightarrow> registry_ok (install_meta_tools r)"
  unfolding install_meta_tools_def foldl.simps by (intro registry_ok_insert) simp_all

lemma registry_ok_new: "registry_new tools = Inr r \<Longrightarrow> registry_ok r"
  unfolding registry_new_def by (erule registry_ok_insert_all) simp

lemma registry_ok_extend: "registry_extend tools r = Inr r' \<Longrightarrow> registry_ok r'"
  by (auto simp: registry_extend_def res_simps intro: registry_ok_meta registry_ok_new)

lemma registry_ok_register: "registry_register tool r = Inr r' \<Longrightarrow> registry_ok r \<Longrightarrow> registry_ok r'"
  by (auto simp: registry_register_def intro: registry_ok_insert split: if_splits)

lemma registry_ok_unregister: "registry_ok r \<Longrightarrow> registry_ok (snd (registry_unregister name r))"
  by (auto simp: registry_unregister_def registry_ok_def bt_ok_remove) (auto simp: bt_remove_def)

lemma bt_remove_absent: "k \<notin> set (map fst m) \<Longrightarrow> bt_remove k m = m"
  by (induction m) (auto simp: bt_remove_def)

lemma bt_remove_insert: "map_of m k = None \<Longrightarrow> bt_remove k (bt_insert k v m) = m"
proof (induction k v m rule: bt_insert.induct)
  case (1 k v)
  then show ?case by (simp add: bt_remove_def)
next
  case (2 k v j w m)
  then have "k \<noteq> j" "map_of m k = None" by (auto split: if_splits)
  then have "bt_remove k m = m" by (intro bt_remove_absent) (simp add: map_of_eq_None_iff)
  with 2 \<open>k \<noteq> j\<close> show ?case by (auto simp: bt_remove_def)
qed

lemma registry_member: "registry_ok r \<Longrightarrow> (name, tool) \<in> set r \<longleftrightarrow> map_of r name = Some tool"
  by (simp add: registry_ok_def bt_in_iff)

lemma registry_named: "registry_ok r \<Longrightarrow> map_of r name = Some tool \<Longrightarrow> tool_name tool = name"
  using map_of_SomeD by (fastforce simp: registry_ok_def)

lemma in_map_filter: "y \<in> set (map f (filter P xs)) \<longleftrightarrow> (\<exists>x. x \<in> set xs \<and> P x \<and> y = f x)"
  by auto

lemma visible_definitions_iff:
  assumes "registry_ok r"
  shows "def \<in> set (visible_definitions var r active) \<longleftrightarrow>
    (\<exists>tool. registry_get r (df_name def) = Some tool \<and> tx_definition tool = def \<and>
       (is_tool_deferred var r (df_name def) \<longrightarrow> df_name def \<in> set active))"
proof -
  have "def \<in> set (visible_definitions var r active) \<longleftrightarrow>
    (\<exists>name tool. (name, tool) \<in> set r \<and> def = tx_definition tool \<and>
       (is_deferred var tool (length r) \<longrightarrow> tool_name tool \<in> set active))"
    unfolding visible_definitions_def in_map_filter split_paired_Ex prod.case by blast
  also have "\<dots> \<longleftrightarrow> (\<exists>name tool. map_of r name = Some tool \<and> def = tx_definition tool \<and>
       (is_deferred var tool (length r) \<longrightarrow> tool_name tool \<in> set active))"
    unfolding registry_member [OF assms] ..
  also have "\<dots> \<longleftrightarrow> (\<exists>tool. map_of r (df_name def) = Some tool \<and> tx_definition tool = def \<and>
       (is_deferred var tool (length r) \<longrightarrow> df_name def \<in> set active))"
  proof -
    have "map_of r name = Some tool \<and> def = tx_definition tool \<longleftrightarrow>
        name = df_name def \<and> map_of r (df_name def) = Some tool \<and> tx_definition tool = def" for name tool
      using registry_named [OF assms, of name tool] by auto
    then show ?thesis by (simp only: conj_assoc [symmetric]) (simp cong: conj_cong)
  qed
  finally show ?thesis
    by (auto simp: registry_get_def is_tool_deferred_def)
qed

lemma activate_names_active:
  "set (fst (activate_names r names (active, activated, unknown))) =
     set active \<union> {name \<in> set names. map_of r name \<noteq> None}"
  by (induction names arbitrary: active activated unknown) auto

section \<open>Properties\<close>


definition sample_tool :: "string \<Rightarrow> unit tool" where
  "sample_tool name = new_tool \<lparr>df_name = name, df_description = [], df_parameters = JNull\<rparr> [Read] Ask (OtherTool ())"


text \<open>
  \<open>activate_tools\<close> only adds to the run's active set, and adds exactly the
  requested names that are registered; any other argument shape is an error.
\<close>

theorem activation_adds_registered_names:
  assumes "activate_tools r (JObject [(''names'', JArray (map JString names))]) active = Inr (result, active')"
  shows "set active' = set active \<union> {name \<in> set names. registry_get r name \<noteq> None} \<and> \<not> to_is_error result"
proof -
  have texts: "all_texts ''names'' (map JString names) = Inr names"
    by (induction names) (simp_all add: json_text_def)
  obtain a b c where acc: "activate_names r names (active, [], []) = (a, b, c)" by (metis prod_cases3)
  have "active' = a" "\<not> to_is_error result"
    using assms by (auto simp: activate_tools_def reject_unknown_def string_array_def json_get_def json_array_def
        texts acc tool_ok_def)
  moreover have "set a = set active \<union> {name \<in> set names. map_of r name \<noteq> None}"
    using activate_names_active [of r names active "[]" "[]"] by (simp add: acc)
  ultimately show ?thesis by (simp add: registry_get_def)
qed

theorem activation_adds_registered_names_witness:
  "\<exists>result. activate_tools [(''a'', sample_tool ''a'')]
       (JObject [(''names'', JArray (map JString [''a'', ''b'']))]) [''z''] = Inr (result, [''a'', ''z'']) \<and>
     set [''a'', ''z''] = set [''z''] \<union> {name \<in> set [''a'', ''b'']. registry_get [(''a'', sample_tool ''a'')] name \<noteq> None} \<and>
     \<not> to_is_error result"
proof -
  let ?r = "[(''a'', sample_tool ''a'')]" and ?j = "JObject [(''names'', JArray (map JString [''a'', ''b'']))]"
  have "\<exists>result. activate_tools ?r ?j [''z''] = Inr (result, [''a'', ''z''])"
    by (simp add: activate_tools_def reject_unknown_def string_array_def json_get_def json_array_def json_text_def
        btree_set_def)
  then obtain result where "activate_tools ?r ?j [''z''] = Inr (result, [''a'', ''z''])" ..
  with activation_adds_registered_names [OF this] show ?thesis by blast
qed

end
