(* ===== verification/Context_Compaction.thy ===== *)
theory Context_Compaction
  imports Agent_Messages
begin

text \<open>
  Context compaction of \<open>crates/cool-agent/src/context.rs\<close>: token estimates, the
  indivisible groups of a history, which of them an in-loop summary covers
  (\<open>summary_drop_candidates\<close>) and what is left after compaction
  (\<open>compact_history\<close>). Token counts are naturals: a \<open>u64\<close> sum of byte lengths
  does not overflow, and \<open>saturating_sub\<close> is subtraction of naturals. \<open>ser\<close> is
  \<open>serde_json::to_string\<close>.
\<close>

section \<open>Summaries and estimates\<close>

definition summary_prefix :: string where
  "summary_prefix = ''[Summary of earlier work]''"

definition is_summary_message :: "message \<Rightarrow> bool" where
  "is_summary_message m \<longleftrightarrow> mg_role m = SystemRole \<and>
     (case mg_content m of None \<Rightarrow> False | Some content \<Rightarrow> starts_with summary_prefix content)"

definition summary_reserve :: "nat \<Rightarrow> nat" where
  "summary_reserve available = min 1200 (available div 4)"

text \<open>
  \<open>chars()\<close> counts the bytes that are not UTF-8 continuation bytes; the ellipsis
  U+2026 is three bytes long.
\<close>

definition is_continuation :: "char \<Rightarrow> bool" where
  "is_continuation c \<longleftrightarrow> 128 \<le> (of_char c :: nat) \<and> (of_char c :: nat) < 192"

definition char_count :: "string \<Rightarrow> nat" where
  "char_count s = length (filter (\<lambda>c. \<not> is_continuation c) s)"

fun take_chars :: "nat \<Rightarrow> string \<Rightarrow> string" where
  "take_chars n [] = []"
| "take_chars n (c # cs) =
     (if is_continuation c then c # take_chars n cs
      else case n of 0 \<Rightarrow> [] | Suc k \<Rightarrow> c # take_chars k cs)"

definition truncate_chars :: "string \<Rightarrow> nat \<Rightarrow> string" where
  "truncate_chars text max_chars =
     (if char_count text \<le> max_chars then text
      else take_chars max_chars text @ [CHR 0xE2, CHR 0x80, CHR 0xA6])"

primrec part_tokens :: "content_part \<Rightarrow> nat" where
  "part_tokens (TextPart text) = length text div 4"
| "part_tokens (ImagePart media data) = 1500"

definition call_tokens :: "(json \<Rightarrow> string) \<Rightarrow> tool_call \<Rightarrow> nat" where
  "call_tokens ser call = 20 + length (mc_name call) div 4 + length (ser (JObject (mc_arguments call))) div 4"

definition message_tokens :: "(json \<Rightarrow> string) \<Rightarrow> message \<Rightarrow> nat" where
  "message_tokens ser m =
     max (length (unwrap_or [] (mg_content m)) div 4) (if mg_content m = None then 0 else 1) +
     sum_list (map (call_tokens ser) (mg_tool_calls m)) +
     sum_list (map part_tokens (unwrap_or [] (mg_parts m))) +
     (if mg_role m = ToolRole then 10 else 0)"

definition history_tokens :: "(json \<Rightarrow> string) \<Rightarrow> message list \<Rightarrow> nat" where
  "history_tokens ser h = sum_list (map (message_tokens ser) h)"

section \<open>Groups\<close>

definition non_system :: "message list \<Rightarrow> message list" where
  "non_system h = filter (\<lambda>m. mg_role m \<noteq> SystemRole) h"

definition first_system :: "message list \<Rightarrow> message option" where
  "first_system h = find (\<lambda>m. mg_role m = SystemRole) h"

definition calls_tools :: "message \<Rightarrow> bool" where
  "calls_tools m \<longleftrightarrow> mg_role m = AssistantRole \<and> mg_tool_calls m \<noteq> []"

definition is_tool_message :: "message \<Rightarrow> bool" where
  "is_tool_message m \<longleftrightarrow> mg_role m = ToolRole"

function group_messages :: "message list \<Rightarrow> message list list" where
  "group_messages [] = []"
| "group_messages (m # ms) =
     (if calls_tools m
      then (m # takeWhile is_tool_message ms) # group_messages (dropWhile is_tool_message ms)
      else [m] # group_messages ms)"
  by pat_completeness auto
termination
  by (relation "measure length") (auto simp: le_imp_less_Suc length_dropWhile_le)

definition history_groups :: "message list \<Rightarrow> message option \<times> message list list" where
  "history_groups h = (first_system h, group_messages (non_system h))"

text \<open>The loop of \<open>retained_group_count\<close> over the newest groups.\<close>

fun count_retained :: "(json \<Rightarrow> string) \<Rightarrow> nat \<Rightarrow> nat \<Rightarrow> nat \<Rightarrow> message list list \<Rightarrow> nat" where
  "count_retained ser budget tokens count [] = count"
| "count_retained ser budget tokens count (g # gs) =
     (if 0 < count \<and> budget < tokens + history_tokens ser g then count
      else count_retained ser budget (tokens + history_tokens ser g) (count + 1) gs)"

definition retained_group_count :: "(json \<Rightarrow> string) \<Rightarrow> message list list \<Rightarrow> nat \<Rightarrow> nat" where
  "retained_group_count ser groups budget =
     min (max (count_retained ser budget 0 0 (take 4 (rev groups))) 1) (length groups)"

definition system_tokens :: "(json \<Rightarrow> string) \<Rightarrow> message option \<Rightarrow> nat" where
  "system_tokens ser system = (case system of None \<Rightarrow> 0 | Some m \<Rightarrow> history_tokens ser [m])"

definition summary_drop_candidates :: "(json \<Rightarrow> string) \<Rightarrow> message list \<Rightarrow> nat \<Rightarrow> message list" where
  "summary_drop_candidates ser history max_tokens =
     (let (system, groups) = history_groups history;
          available = max_tokens - system_tokens ser system;
          budget = available - summary_reserve available;
          keep = retained_group_count ser groups budget
      in if length groups \<le> keep then []
         else filter is_summary_message history @ concat (take (length groups - keep) groups))"

section \<open>Compaction\<close>

record compaction =
  cn_messages :: "message list"
  cn_dropped :: nat
  cn_tokens :: nat
  cn_summary :: "string option"

text \<open>How many of the oldest groups the fallback drops, and the number of tokens it stops at.\<close>

fun drop_oldest :: "(json \<Rightarrow> string) \<Rightarrow> nat \<Rightarrow> nat \<Rightarrow> message list list \<Rightarrow> message list list" where
  "drop_oldest ser available tokens (g # h # gs) =
     (if available < tokens then drop_oldest ser available (tokens - history_tokens ser g) (h # gs)
      else g # h # gs)"
| "drop_oldest ser available tokens gs = gs"

definition option_list :: "'a option \<Rightarrow> 'a list" where
  "option_list x = (case x of None \<Rightarrow> [] | Some v \<Rightarrow> [v])"

definition summary_message :: "string \<Rightarrow> message" where
  "summary_message summary = text_message SystemRole (summary_prefix @ [CHR 0x0A] @ summary)"

definition bounded_summary :: "nat \<Rightarrow> string \<Rightarrow> string" where
  "bounded_summary available summary = truncate_chars summary ((summary_reserve available - 8) * 4)"

definition compact_with_summary ::
    "(json \<Rightarrow> string) \<Rightarrow> message list \<Rightarrow> message option \<Rightarrow> message list list \<Rightarrow> nat \<Rightarrow> string \<Rightarrow> compaction" where
  "compact_with_summary ser history system groups available summary =
     (let summary = bounded_summary available summary;
          sm = summary_message summary;
          keep = retained_group_count ser groups (available - history_tokens ser [sm]);
          retained = drop (length groups - keep) groups;
          messages = option_list system @ [sm] @ concat retained
      in \<lparr>cn_messages = messages,
          cn_dropped = length history - (sum_list (map length retained) + (if system = None then 0 else 1)),
          cn_tokens = history_tokens ser messages, cn_summary = Some summary\<rparr>)"

definition compact_dropping ::
    "(json \<Rightarrow> string) \<Rightarrow> message list \<Rightarrow> message option \<Rightarrow> message list list \<Rightarrow> nat \<Rightarrow> compaction" where
  "compact_dropping ser history system groups available =
     (let kept = drop_oldest ser available (sum_list (map (history_tokens ser) groups)) groups;
          skip = (case system of None \<Rightarrow> 0 | Some m \<Rightarrow> if is_summary_message m then 1 else 0);
          messages = option_list system @ drop skip (filter is_summary_message history) @ concat kept
      in \<lparr>cn_messages = messages, cn_dropped = length history - length messages,
          cn_tokens = history_tokens ser messages, cn_summary = None\<rparr>)"

definition compact_history :: "(json \<Rightarrow> string) \<Rightarrow> message list \<Rightarrow> nat \<Rightarrow> string option \<Rightarrow> compaction" where
  "compact_history ser history max_tokens summary =
     (if summary = None \<and> history_tokens ser history \<le> max_tokens
      then \<lparr>cn_messages = history, cn_dropped = 0, cn_tokens = history_tokens ser history, cn_summary = None\<rparr>
      else
        let (system, groups) = history_groups history;
            available = max_tokens - system_tokens ser system
        in case (if 1 < length groups then summary else None) of
             Some s \<Rightarrow> compact_with_summary ser history system groups available s
           | None \<Rightarrow> compact_dropping ser history system groups available)"

section \<open>Facts on groups\<close>

lemma concat_group_messages [simp]: "concat (group_messages ms) = ms"
  by (induction ms rule: group_messages.induct) auto

lemma group_messages_eq_Nil [simp]: "group_messages ms = [] \<longleftrightarrow> ms = []"
  by (cases ms) simp_all

lemma groups_of_suffix: "group_messages (concat (drop k (group_messages ms))) = drop k (group_messages ms)"
proof (induction ms arbitrary: k rule: group_messages.induct)
  case (2 m ms)
  then show ?case by (cases k) (simp_all del: drop_append)
qed simp

lemma non_system_append [simp]: "non_system (xs @ ys) = non_system xs @ non_system ys"
  by (simp add: non_system_def)

lemma non_system_Cons [simp]:
  "non_system [] = []"
  "non_system (m # ms) = (if mg_role m = SystemRole then non_system ms else m # non_system ms)"
  by (simp_all add: non_system_def)

lemma non_system_id: "(\<And>m. m \<in> set ms \<Longrightarrow> mg_role m \<noteq> SystemRole) \<Longrightarrow> non_system ms = ms"
  by (simp add: non_system_def filter_id_conv)

lemma non_system_none: "(\<And>m. m \<in> set ms \<Longrightarrow> mg_role m = SystemRole) \<Longrightarrow> non_system ms = []"
  by (simp add: non_system_def filter_empty_conv)

lemma first_system_Some: "first_system h = Some m \<Longrightarrow> m \<in> set h \<and> mg_role m = SystemRole"
  by (auto simp: first_system_def find_Some_iff)

lemma first_system_None: "first_system h = None \<longleftrightarrow> (\<forall>m \<in> set h. mg_role m \<noteq> SystemRole)"
  by (auto simp: first_system_def find_None_iff)

lemma first_system_Cons:
  "first_system (m # h) = (if mg_role m = SystemRole then Some m else first_system h)"
  by (simp add: first_system_def)

lemma summary_role: "is_summary_message m \<Longrightarrow> mg_role m = SystemRole"
  by (simp add: is_summary_message_def)

lemma summary_message_role [simp]: "mg_role (summary_message s) = SystemRole"
  by (simp add: summary_message_def)

lemma non_system_summaries [simp]: "non_system (filter is_summary_message h) = []"
  "non_system (drop n (filter is_summary_message h)) = []"
  by (auto intro!: non_system_none dest!: in_set_dropD simp: summary_role)

lemma non_system_option [simp]: "non_system (option_list (first_system h)) = []"
  by (cases "first_system h") (auto simp: option_list_def non_system_def dest: first_system_Some)

lemma non_system_groups: "non_system (concat (drop k (group_messages (non_system h)))) =
    concat (drop k (group_messages (non_system h)))"
proof (rule non_system_id)
  fix m assume "m \<in> set (concat (drop k (group_messages (non_system h))))"
  then have "m \<in> set (concat (group_messages (non_system h)))"
    by (auto simp del: concat_group_messages dest: in_set_dropD)
  then show "mg_role m \<noteq> SystemRole" by (simp add: non_system_def)
qed

lemma history_tokens_append [simp]:
  "history_tokens ser (xs @ ys) = history_tokens ser xs + history_tokens ser ys"
  by (simp add: history_tokens_def)

lemma history_tokens_concat: "history_tokens ser (concat gs) = sum_list (map (history_tokens ser) gs)"
  by (induction gs) (simp_all add: history_tokens_def)

section \<open>What is retained\<close>

lemma count_retained_ge: "count \<le> count_retained ser budget tokens count gs"
  by (induction gs arbitrary: tokens count) (auto intro: Suc_leD)

lemma count_retained_mono:
  "b \<le> b' \<Longrightarrow> count_retained ser b tokens count gs \<le> count_retained ser b' tokens count gs"
  by (induction gs arbitrary: tokens count) (auto intro: order_trans [OF _ count_retained_ge])

lemma count_retained_le: "count_retained ser budget tokens count gs \<le> count + length gs"
proof (induction gs arbitrary: tokens count)
  case (Cons g gs)
  from Cons.IH [of "tokens + history_tokens ser g" "count + 1"] show ?case by simp
qed simp

lemma retained_mono: "b \<le> b' \<Longrightarrow> retained_group_count ser gs b \<le> retained_group_count ser gs b'"
  by (simp add: retained_group_count_def count_retained_mono min.coboundedI1 max.coboundedI1)

lemma retained_pos: "gs \<noteq> [] \<Longrightarrow> 0 < retained_group_count ser gs b"
  by (simp add: retained_group_count_def)

lemma retained_le: "retained_group_count ser gs b \<le> length gs"
  by (simp add: retained_group_count_def)

lemma drop_oldest_suffix: "\<exists>k. drop_oldest ser available tokens gs = drop k gs \<and> (gs \<noteq> [] \<longrightarrow> k < length gs)"
proof (induction ser available tokens gs rule: drop_oldest.induct)
  case (1 ser available tokens g h gs)
  show ?case
  proof (cases "available < tokens")
    case True
    with 1 obtain k where "drop_oldest ser available (tokens - history_tokens ser g) (h # gs) = drop k (h # gs)"
      "k < length (h # gs)" by auto
    with True show ?thesis by (intro exI [of _ "Suc k"]) simp
  next
    case False
    then show ?thesis by (intro exI [of _ 0]) simp
  qed
qed (auto intro: exI [of _ 0])

text \<open>The fallback stops only when the groups fit or one is left.\<close>

lemma drop_oldest_fits:
  "tokens = sum_list (map (history_tokens ser) gs) \<Longrightarrow>
   history_tokens ser (concat (drop_oldest ser available tokens gs)) \<le> available \<or>
   length (drop_oldest ser available tokens gs) \<le> 1"
  by (induction ser available tokens gs rule: drop_oldest.induct) (auto simp: history_tokens_concat)

text \<open>The non-system messages after compaction, in every branch.\<close>

lemma compacted_groups:
  "\<exists>k. non_system (cn_messages (compact_history ser h n s)) = concat (drop k (group_messages (non_system h))) \<and>
     (non_system h \<noteq> [] \<longrightarrow> k < length (group_messages (non_system h)))"
proof -
  let ?gs = "group_messages (non_system h)"
  have with_s: "\<exists>k. non_system (cn_messages (compact_with_summary ser h (first_system h) ?gs a x)) =
      concat (drop k ?gs) \<and> (non_system h \<noteq> [] \<longrightarrow> k < length ?gs)" for a x
  proof -
    let ?keep = "retained_group_count ser ?gs (a - history_tokens ser [summary_message (bounded_summary a x)])"
    have "non_system h \<noteq> [] \<longrightarrow> length ?gs - ?keep < length ?gs"
      using retained_pos [of ?gs] by simp
    then show ?thesis
      by (intro exI [of _ "length ?gs - ?keep"])
         (simp add: compact_with_summary_def Let_def non_system_groups)
  qed
  have dropping: "\<exists>k. non_system (cn_messages (compact_dropping ser h (first_system h) ?gs a)) =
      concat (drop k ?gs) \<and> (non_system h \<noteq> [] \<longrightarrow> k < length ?gs)" for a
  proof -
    obtain k where "drop_oldest ser a (sum_list (map (history_tokens ser) ?gs)) ?gs = drop k ?gs"
      "?gs \<noteq> [] \<longrightarrow> k < length ?gs"
      using drop_oldest_suffix by blast
    then show ?thesis
      by (intro exI [of _ k]) (simp add: compact_dropping_def Let_def non_system_groups)
  qed
  show ?thesis
    using with_s dropping
    by (auto simp: compact_history_def history_groups_def Let_def split: option.split intro!: exI [of _ 0])
qed

lemma compacted_groups_suffix:
  "\<exists>k. snd (history_groups (cn_messages (compact_history ser h n s))) = drop k (snd (history_groups h)) \<and>
     (snd (history_groups h) \<noteq> [] \<longrightarrow> k < length (snd (history_groups h)))"
proof -
  obtain k where "non_system (cn_messages (compact_history ser h n s)) = concat (drop k (group_messages (non_system h)))"
    "non_system h \<noteq> [] \<longrightarrow> k < length (group_messages (non_system h))"
    using compacted_groups by blast
  then show ?thesis by (intro exI [of _ k]) (simp add: history_groups_def groups_of_suffix)
qed

lemma first_system_kept: "first_system h \<in> {None, first_system (cn_messages (compact_history ser h n s))}"
proof (cases "first_system h")
  case (Some m)
  then have "first_system (option_list (first_system h) @ xs) = Some m" for xs
    by (auto simp: option_list_def first_system_Cons dest: first_system_Some)
  with Some show ?thesis
    by (auto simp: compact_history_def history_groups_def compact_with_summary_def compact_dropping_def
        Let_def split: option.split)
qed simp

section \<open>Budgets\<close>

lemma count_retained_fits:
  "count \<le> 1 \<or> tokens \<le> budget \<Longrightarrow>
   count_retained ser budget tokens count gs \<le> 1 \<or>
   tokens + sum_list (map (history_tokens ser) (take (count_retained ser budget tokens count gs - count) gs)) \<le> budget"
proof (induction gs arbitrary: tokens count)
  case Nil
  then show ?case by simp
next
  case (Cons g gs)
  let ?k = "count_retained ser budget (tokens + history_tokens ser g) (count + 1) gs"
  show ?case
  proof (cases "0 < count \<and> budget < tokens + history_tokens ser g")
    case False
    then have "count + 1 \<le> 1 \<or> tokens + history_tokens ser g \<le> budget" by auto
    from Cons.IH [OF this] have "?k \<le> 1 \<or> tokens + history_tokens ser g +
        sum_list (map (history_tokens ser) (take (?k - (count + 1)) gs)) \<le> budget" .
    moreover have "count + 1 \<le> ?k" by (rule count_retained_ge)
    ultimately show ?thesis using False by (auto simp: take_Cons' not_less_eq_eq)
  qed (use Cons.prems in auto)
qed

lemma retained_fits:
  assumes k_def: "k = retained_group_count ser gs budget"
  shows "k \<le> 1 \<or> history_tokens ser (concat (drop (length gs - k) gs)) \<le> budget"
proof -
  let ?c = "count_retained ser budget 0 0 (take 4 (rev gs))"
  have fits: "?c \<le> 1 \<or> sum_list (map (history_tokens ser) (take ?c (take 4 (rev gs)))) \<le> budget"
    using count_retained_fits [of 0 0 budget ser "take 4 (rev gs)"] by simp
  have "?c \<le> 4"
    using count_retained_le [of ser budget 0 0 "take 4 (rev gs)"] by simp
  show ?thesis
  proof (cases "?c \<le> 1")
    case True
    then show ?thesis by (simp add: k_def retained_group_count_def)
  next
    case False
    then have k: "k = min ?c (length gs)" by (simp add: k_def retained_group_count_def)
    have "drop (length gs - k) gs = rev (take ?c (rev gs))" by (simp add: k rev_take min_def)
    then have "history_tokens ser (concat (drop (length gs - k) gs)) =
        sum_list (map (history_tokens ser) (take ?c (rev gs)))"
      by (simp add: history_tokens_concat rev_map [symmetric] sum_list_rev)
    with fits False \<open>?c \<le> 4\<close> show ?thesis by (simp add: min_absorb1)
  qed
qed

lemma summary_message_tokens:
  "history_tokens ser [summary_message t] = max ((26 + length t) div 4) 1"
  by (simp add: history_tokens_def message_tokens_def summary_message_def text_message_def unwrap_or_def
      summary_prefix_def)

lemma take_chars_ascii: "\<forall>c \<in> set t. \<not> is_continuation c \<Longrightarrow> take_chars n t = take n t"
  by (induction n t rule: take_chars.induct) (auto split: nat.splits simp: take_Cons')

lemma truncate_ascii_length:
  assumes "\<forall>c \<in> set t. (of_char c :: nat) < 128"
  shows "length (truncate_chars t n) \<le> n + 3"
proof -
  have "\<forall>c \<in> set t. \<not> is_continuation c" using assms by (auto simp: is_continuation_def)
  then show ?thesis by (simp add: truncate_chars_def char_count_def take_chars_ascii filter_id_conv)
qed

text \<open>An ASCII summary stays within the reserve: the slack of 8 tokens is enough for its frame.\<close>

lemma ascii_summary_in_reserve:
  assumes "\<forall>c \<in> set t. (of_char c :: nat) < 128" "28 \<le> available"
  shows "history_tokens ser [summary_message (bounded_summary available t)] \<le> summary_reserve available"
proof -
  have "length (bounded_summary available t) \<le> (summary_reserve available - 8) * 4 + 3"
    unfolding bounded_summary_def by (rule truncate_ascii_length) (rule assms(1))
  moreover have "7 \<le> summary_reserve available" using assms(2) by (simp add: summary_reserve_def)
  ultimately show ?thesis by (simp add: summary_message_tokens)
qed

section \<open>Properties\<close>

text \<open>
  Property C26. Compaction never separates a tool call from its results: whatever the summary
  and the limit, the groups of the compacted history are the newest groups of the history,
  at least one of them, and its leading system message stays.
\<close>

theorem compaction_splits_no_group:
  "\<exists>k. snd (history_groups (cn_messages (compact_history ser h n s))) = drop k (snd (history_groups h)) \<and>
     (snd (history_groups h) = [] \<or> k < length (snd (history_groups h))) \<and>
     fst (history_groups h) \<in> {None, fst (history_groups (cn_messages (compact_history ser h n s)))}"
  using compacted_groups_suffix [of ser h n s] first_system_kept [of h ser n s]
  by (auto simp: history_groups_def)


text \<open>
  What compaction leaves fits, or is a single group: beside the system prompt
  and the summaries, the retained messages cost at most what the limit leaves after the
  system prompt, unless only the newest group is left.
\<close>

theorem compaction_fits_or_single:
  "cn_messages (compact_history ser h n s) = h \<and> history_tokens ser h \<le> n \<or>
   length (snd (history_groups (cn_messages (compact_history ser h n s)))) \<le> 1 \<or>
   history_tokens ser (non_system (cn_messages (compact_history ser h n s))) \<le>
     n - system_tokens ser (fst (history_groups h))"
proof -
  define gs where "gs = group_messages (non_system h)"
  define a where "a = n - system_tokens ser (first_system h)"
  have kept_groups: "group_messages (concat (drop k gs)) = drop k gs" for k
    by (simp add: gs_def groups_of_suffix)
  consider (same) "s = None" "history_tokens ser h \<le> n"
    | (summary) t where "s = Some t" "1 < length gs"
    | (oldest) "cn_messages (compact_history ser h n s) = cn_messages (compact_dropping ser h (first_system h) gs a)"
    by (cases "1 < length gs"; cases s; cases "history_tokens ser h \<le> n")
       (simp_all add: compact_history_def history_groups_def gs_def a_def)
  then show ?thesis
  proof cases
    case same
    then show ?thesis by (simp add: compact_history_def)
  next
    case (summary t)
    define b where "b = a - history_tokens ser [summary_message (bounded_summary a t)]"
    define k where "k = retained_group_count ser gs b"
    have "non_system (cn_messages (compact_history ser h n s)) = concat (drop (length gs - k) gs)"
      using summary by (simp add: compact_history_def history_groups_def Let_def compact_with_summary_def
          gs_def [symmetric] a_def [symmetric] b_def [symmetric] k_def [symmetric])
        (simp add: gs_def non_system_groups)
    with retained_fits [OF k_def] show ?thesis
      by (auto simp: history_groups_def kept_groups a_def b_def)
  next
    case oldest
    obtain k where k: "drop_oldest ser a (sum_list (map (history_tokens ser) gs)) gs = drop k gs"
      using drop_oldest_suffix by blast
    then have "non_system (cn_messages (compact_history ser h n s)) = concat (drop k gs)"
      using oldest by (simp add: compact_dropping_def Let_def) (simp add: gs_def non_system_groups)
    with drop_oldest_fits [OF refl, where gs = gs and ser = ser and available = a] k show ?thesis
      by (auto simp: history_groups_def kept_groups a_def)
  qed
qed

section \<open>Samples\<close>

text \<open>
  Four user messages of 44 bytes, 11 tokens each, and a limit of 44 tokens: three of them fit
  beside the reserve, so a summary covers the first one.
\<close>

definition letters :: "char \<Rightarrow> message" where
  "letters c = text_message UserRole (replicate 44 c)"

definition letters_history :: "message list" where
  "letters_history = map letters [CHR ''a'', CHR ''b'', CHR ''c'', CHR ''d'']"

lemma letters_simps [simp]:
  "mg_role (letters c) = UserRole" "\<not> calls_tools (letters c)" "\<not> is_summary_message (letters c)"
  "history_tokens ser [letters c] = 11" "letters a = letters b \<longleftrightarrow> a = b"
  by (simp_all add: letters_def calls_tools_def is_summary_message_def history_tokens_def message_tokens_def
      text_message_def unwrap_or_def)

lemma letters_groups:
  "first_system letters_history = None"
  "group_messages (non_system letters_history) =
     [[letters (CHR ''a'')], [letters (CHR ''b'')], [letters (CHR ''c'')], [letters (CHR ''d'')]]"
  by (simp_all add: letters_history_def first_system_Cons) (simp add: first_system_def)

lemma letters_candidates: "summary_drop_candidates ser letters_history 44 = [letters (CHR ''a'')]"
  by (simp add: summary_drop_candidates_def history_groups_def letters_groups system_tokens_def
      retained_group_count_def summary_reserve_def) (simp add: letters_history_def)


lemma two_byte_chars: "char_count (concat (replicate n [CHR 0xC3, CHR 0xA9])) = n"
  by (induction n) (simp_all add: char_count_def is_continuation_def)

text \<open>
  The summary is cut to a number of characters, but its cost is estimated from
  its bytes. With a summary of two-byte characters \<open>compact_history\<close> retains fewer
  groups than \<open>summary_drop_candidates\<close> assumed: a message is lost, neither
  summarised nor retained.
\<close>

theorem multibyte_summary_loses_message:
  "\<exists>h n t m. m \<in> set h \<and> mg_role m \<noteq> SystemRole \<and> summary_drop_candidates ser h n \<noteq> [] \<and>
     m \<notin> set (summary_drop_candidates ser h n) \<and> m \<notin> set (cn_messages (compact_history ser h n (Some t)))"
proof -
  let ?t = "concat (replicate 12 [CHR 0xC3, CHR 0xA9])"
  have "bounded_summary 44 ?t = ?t"
    by (simp add: bounded_summary_def truncate_chars_def two_byte_chars summary_reserve_def)
  then have "letters (CHR ''b'') \<notin> set (cn_messages (compact_history ser letters_history 44 (Some ?t)))"
    by (simp add: compact_history_def history_groups_def letters_groups system_tokens_def compact_with_summary_def
        summary_message_tokens retained_group_count_def option_list_def length_concat sum_list_replicate Let_def)
       (simp add: letters_def summary_message_def text_message_def)
  moreover have "letters (CHR ''b'') \<in> set letters_history" by (simp add: letters_history_def)
  ultimately show ?thesis
    using letters_candidates [of ser] by (intro exI [of _ letters_history] exI [of _ 44] exI [of _ ?t]
        exI [of _ "letters (CHR ''b'')"]) simp
qed

end
