(* ===== verification/Agent_Actions.thy ===== *)
theory Agent_Actions
  imports Tool_Registry Context_Compaction State_Tables
begin

text \<open>
  What the agent loop of \<open>crates/cool-agent/src/loop_runtime.rs\<close> acts on. The loop
  talks to four traits (\<open>EventSink\<close>, \<open>ApprovalGate\<close>, \<open>ModelDriver\<close>,
  \<open>ToolHandler\<close>), to the clock and to the shared cells of its tool context; the record
  \<open>agent_env\<close> holds one field per call the loop makes on them. A call is a function on
  the state \<open>'s\<close> of everything outside the loop: it returns what the caller sees and the
  state after it. Where the code waits on several futures at once, the field answers which
  one came first, so every interleaving of tool results, cancellation and time is some
  environment. A panic is an error that no \<open>?\<close> converts.
\<close>

section \<open>Actions\<close>

datatype runtime_error =
    ProviderFailure provider_error
  | StoreFailure store_error
  | SinkFailure string

datatype fault = Fault runtime_error | Panic string

type_synonym ('s, 'a) action = "'s \<Rightarrow> (fault, 'a) result \<times> 's"

definition act_ok :: "'a \<Rightarrow> ('s, 'a) action" where
  "act_ok x = (\<lambda>s. (Inr x, s))"

definition act_fail :: "fault \<Rightarrow> ('s, 'a) action" where
  "act_fail e = (\<lambda>s. (Inl e, s))"

definition act_bind :: "('s, 'a) action \<Rightarrow> ('a \<Rightarrow> ('s, 'b) action) \<Rightarrow> ('s, 'b) action" where
  "act_bind m f = (\<lambda>s. case m s of (Inl e, s1) \<Rightarrow> (Inl e, s1) | (Inr x, s1) \<Rightarrow> f x s1)"

text \<open>Reading the state, and an effect that cannot fail.\<close>

definition act_read :: "('s \<Rightarrow> 'a) \<Rightarrow> ('s, 'a) action" where
  "act_read f = (\<lambda>s. (Inr (f s), s))"

definition act_do :: "('s \<Rightarrow> 'a \<times> 's) \<Rightarrow> ('s, 'a) action" where
  "act_do f = (\<lambda>s. case f s of (x, s1) \<Rightarrow> (Inr x, s1))"

section \<open>Requests and answers\<close>

record approval_request =
  aq_approval_id :: string
  aq_call :: tool_call
  aq_reason :: string
  aq_matched_rule :: "string option"
  aq_suggested_rule :: "policy_rule option"
  aq_breakpoint_type :: "string option"

record gate_outcome =
  go_decision :: approval_outcome
  go_answer :: "json option"

definition gate_decided :: "approval_outcome \<Rightarrow> gate_outcome" where
  "gate_decided d = \<lparr>go_decision = d, go_answer = None\<rparr>"

record model_request =
  mr_model :: string
  mr_messages :: "message list"
  mr_tools :: "tool_definition list"
  mr_temperature :: "32 word"
  mr_max_tokens :: "32 word option"

record agent_request =
  gr_model :: string
  gr_history :: "message list"
  gr_user_input :: string
  gr_user_parts :: "content_part list"
  gr_user_replay_parts :: "json list"
  gr_system_prompt :: "string option"
  gr_mode :: "string option"
  gr_temperature :: "32 word"
  gr_max_tokens :: "32 word option"
  gr_limits :: agent_limits
  gr_tool_names :: "string list option"

datatype run_outcome =
    RunDone "message list" usage
  | RunStopped "message list" string
  | RunBroken "message list" string

text \<open>
  The next thing a read of the model stream sees; the sequence ends where the stream does.
\<close>

datatype stream_step =
    StreamEvent model_event
  | StreamError provider_error
  | StreamCancelled string

text \<open>How the future of one tool call ended.\<close>

datatype tool_ending =
    ToolPanicked
  | ToolFailedWith tool_failure
  | ToolReturned tool_result

text \<open>
  What \<open>select!\<close> on the running tools and the cancel signal sees first. A number chooses
  one of the running calls. \<open>TaskLost\<close> is a task that ended without a value (a
  \<open>JoinError\<close>, only when the runtime shuts down). In the grace period after a
  cancellation the timeout can also fall into the publication of a result, which is then lost.
\<close>

datatype join_step =
    TaskDone nat tool_ending
  | TaskLost nat
  | BatchCancelled string

datatype grace_step =
    GraceDone nat tool_ending
  | GraceLost nat
  | GraceTimeout "nat option"

record ('s, 'h) agent_env =
  en_mask :: "string \<Rightarrow> string"
  en_json_text :: "json \<Rightarrow> string"
  en_host :: "string \<Rightarrow> string option"
  en_glob :: globber
  en_emit :: "canonical_event \<Rightarrow> json_map \<Rightarrow> ('s, event_envelope) action"
  en_load_history :: "('s, message list) action"
  en_before_compaction :: "message list \<Rightarrow> ('s, unit) action"
  en_summarize :: "message list \<Rightarrow> nat \<Rightarrow> ('s, string option) action"
  en_reserve_usage :: "usage \<Rightarrow> ('s, unit) action"
  en_drain_steers :: "('s, message list) action"
  en_request_approval :: "approval_request \<Rightarrow> ('s, gate_outcome) action"
  en_stream :: "model_request \<Rightarrow> 's \<Rightarrow> (provider_error, stream_step list) result \<times> 's"
  en_backoff :: "nat \<Rightarrow> 's \<Rightarrow> string option \<times> 's"
  en_cancel_reason :: "'s \<Rightarrow> string option"
  en_registry :: "'s \<Rightarrow> 'h registry"
  en_eager_limit :: "string option"
  en_active_tools :: "'s \<Rightarrow> string list"
  en_session_rules :: "'s \<Rightarrow> policy_rule list option"
  en_rule_source :: "'s \<Rightarrow> policy_rule list option"
  en_policy :: capability_policy
  en_instructions :: "'s \<Rightarrow> string option"
  en_progress :: "'s \<Rightarrow> string option"
  en_uuid :: "'s \<Rightarrow> string \<times> 's"
  en_snapshot :: "tool_call \<Rightarrow> 64 word \<Rightarrow> 's \<Rightarrow> (string, string option) result \<times> 's"
  en_join :: "message list \<Rightarrow> (tool_call \<times> 'h tool) list \<Rightarrow> 's \<Rightarrow> join_step \<times> 's"
  en_grace :: "message list \<Rightarrow> (tool_call \<times> 'h tool) list \<Rightarrow> 's \<Rightarrow> grace_step \<times> 's"
  en_hash_picks :: "nat list"

definition emit :: "('s, 'h) agent_env \<Rightarrow> canonical_event \<Rightarrow> ('s, event_envelope) action" where
  "emit env e = en_emit env e []"

section \<open>Events of results and endings\<close>

definition finish_cancelled :: "('s, 'h) agent_env \<Rightarrow> message list \<Rightarrow> string \<Rightarrow> ('s, run_outcome) action" where
  "finish_cancelled env history reason =
     act_bind (emit env (RunCancelled \<lparr>rt_reason = reason, rt_error_code = None\<rparr>)) (\<lambda>_.
     act_ok (RunStopped history reason))"

definition finish_failed :: "('s, 'h) agent_env \<Rightarrow> message list \<Rightarrow> string \<Rightarrow> ('s, run_outcome) action" where
  "finish_failed env history code =
     act_bind (emit env (RunFailed \<lparr>rt_reason = code, rt_error_code = Some code\<rparr>)) (\<lambda>_.
     act_ok (RunBroken history code))"

text \<open>\<open>value[key] = v\<close>: an object is extended, a null becomes one, anything else panics.\<close>

definition json_set :: "json \<Rightarrow> string \<Rightarrow> json \<Rightarrow> json option" where
  "json_set j key v = (case j of
      JObject m \<Rightarrow> Some (JObject (bt_insert key v m))
    | JNull \<Rightarrow> Some (JObject [(key, v)])
    | _ \<Rightarrow> None)"

definition emit_tool_result :: "('s, 'h) agent_env \<Rightarrow> tool_call \<Rightarrow> tool_result \<Rightarrow> ('s, unit) action" where
  "emit_tool_result env call result =
     (if to_is_error result then
        act_bind (emit env (ToolFailed \<lparr>tf_call_id = mc_call_id call, tf_name = mc_name call,
            tf_error_code = unwrap_or ''tool_failed'' (to_error_code result),
            tf_message = json_text (json_get (to_output result) ''error'')\<rparr>)) (\<lambda>_. act_ok ())
      else
        case (case to_diagnostics result of
                None \<Rightarrow> Some (to_output result)
              | Some d \<Rightarrow> json_set (to_output result) ''diagnostics'' (JString d)) of
          None \<Rightarrow> act_fail (Panic ''cannot access key \"diagnostics\" in JSON'')
        | Some payload \<Rightarrow>
            act_bind (emit env (ToolCompleted \<lparr>tc_call_id = mc_call_id call, tc_name = mc_name call,
                tc_result = payload\<rparr>)) (\<lambda>_. act_ok ()))"

definition plan_step_of :: "string \<Rightarrow> nat \<Rightarrow> json \<Rightarrow> plan_step" where
  "plan_step_of plan_id position step = \<lparr>ps_plan_id = plan_id, ps_position = of_nat position,
     ps_title = unwrap_or ''step'' (json_text (json_get step ''title'')),
     ps_status = unwrap_or ''pending'' (json_text (json_get step ''status'')),
     ps_result_summary = None\<rparr>"

fun emit_plan_steps :: "('s, 'h) agent_env \<Rightarrow> plan_step list \<Rightarrow> nat \<Rightarrow> ('s, nat) action" where
  "emit_plan_steps env [] completed = act_ok completed"
| "emit_plan_steps env (step # steps) completed =
     (let completed = (if ps_status step = ''completed'' then completed + 1 else completed) in
      if ps_status step = ''in_progress'' \<or> ps_status step = ''running'' then
        act_bind (emit env (PlanStepStarted step)) (\<lambda>_. emit_plan_steps env steps completed)
      else if ps_status step = ''completed'' \<or> ps_status step = ''failed'' then
        act_bind (emit env (PlanStepCompleted step)) (\<lambda>_. emit_plan_steps env steps completed)
      else emit_plan_steps env steps completed)"

definition emit_plan_events :: "('s, 'h) agent_env \<Rightarrow> tool_call \<Rightarrow> tool_result \<Rightarrow> ('s, unit) action" where
  "emit_plan_events env call result =
     (if mc_name call \<noteq> ''update_plan'' \<or> to_is_error result then act_ok ()
      else case json_text (json_get (to_output result) ''planId'') of
        None \<Rightarrow> act_ok ()
      | Some plan_id \<Rightarrow>
          (let steps = unwrap_or [] (json_array (json_get (to_output result) ''steps''));
               plan_steps = map (\<lambda>(i, step). plan_step_of plan_id i step) (enumerate 0 steps)
           in act_bind (emit env (PlanCreated \<lparr>pc_plan_id = plan_id,
                  pc_title = json_text (json_get (to_output result) ''title''),
                  pc_total_steps = of_nat (length steps), pc_steps = plan_steps, pc_store_plan_id = None\<rparr>)) (\<lambda>_.
              act_bind (emit_plan_steps env plan_steps 0) (\<lambda>completed.
              act_bind (emit env (PlanProgress \<lparr>pp_plan_id = plan_id, pp_completed_steps = of_nat completed,
                  pp_total_steps = of_nat (length steps), pp_message = None,
                  pp_status = (if (of_nat completed :: 32 word) = of_nat (length steps) then PlanCompleted
                     else PlanExecuting)\<rparr>)) (\<lambda>_.
              act_ok ())))))"

text \<open>The gate that decides every request the same way, \<open>AutoApprovalGate\<close>.\<close>

definition auto_approval_gate ::
    "('s, 'h) agent_env \<Rightarrow> approval_outcome \<Rightarrow> approval_request \<Rightarrow> ('s, gate_outcome) action" where
  "auto_approval_gate env outcome request =
     act_bind (emit env (ToolApprovalRequired \<lparr>ta_call_id = mc_call_id (aq_call request),
         ta_name = mc_name (aq_call request), ta_arguments = mc_arguments (aq_call request),
         ta_reason = aq_reason request, ta_approval_id = aq_approval_id request, ta_revision = 1,
         ta_breakpoint_type = aq_breakpoint_type request, ta_result_preview = None,
         ta_current_content = None, ta_matched_rule = aq_matched_rule request,
         ta_suggested_rule = map_option policy_rule_record_of (aq_suggested_rule request)\<rparr>)) (\<lambda>_.
     act_bind (emit env (ToolApprovalResolved \<lparr>tv_call_id = mc_call_id (aq_call request),
         tv_approval_id = aq_approval_id request, tv_revision = 2, tv_decision = outcome\<rparr>)) (\<lambda>_.
     act_ok (gate_decided outcome)))"

end
