(* ===== verification/Agent_Batch.thy ===== *)
theory Agent_Batch
  imports Agent_Actions
begin

text \<open>
  \<open>execute_tool_batch\<close> of \<open>crates/cool-agent/src/loop_runtime.rs\<close>: every
  call of an assistant message is announced and gated in order, then every admitted call is
  snapshot and marked as started, then the tools run concurrently and are collected as they
  end, until all ended or the run is cancelled.
\<close>

section \<open>The gate\<close>

text \<open>A call refused by the gate has its error published at once.\<close>

datatype 'h verdict = Refused tool_result | Admitted "'h tool"

definition refuse :: "('s, 'h) agent_env \<Rightarrow> tool_call \<Rightarrow> string \<Rightarrow> string \<Rightarrow> ('s, 'h verdict) action" where
  "refuse env call code reason =
     act_bind (emit_tool_result env call (tool_error code reason)) (\<lambda>_.
     act_ok (Refused (tool_error code reason)))"

definition matched_rule :: "('s, 'h) agent_env \<Rightarrow> tool_call \<Rightarrow> 's \<Rightarrow> policy_rule option" where
  "matched_rule env call s = find_rule (en_glob env) (en_session_rules env s) (en_rule_source env s)
     (en_policy env) (mc_name call) (rule_subject_of (en_host env) call)"

definition call_decision :: "('s, 'h) agent_env \<Rightarrow> tool_call \<Rightarrow> 'h tool \<Rightarrow> 's \<Rightarrow> decision" where
  "call_decision env call tool s = gate_decision
     (pd_effective (evaluate (en_policy env) (tx_capabilities tool) (tx_default_decision tool)))
     (matched_rule env call s)"

definition denial_text :: "policy_rule option \<Rightarrow> string" where
  "denial_text matched = (case matched of
      Some rule \<Rightarrow> if pr_decision rule = Deny then ''denied by policy rule: '' @ describe_rule rule
                   else ''tool capability was denied''
    | None \<Rightarrow> ''tool capability was denied'')"

definition ask_approval ::
    "('s, 'h) agent_env \<Rightarrow> tool_call \<Rightarrow> policy_rule option \<Rightarrow> ('s, gate_outcome) action" where
  "ask_approval env call matched =
     act_bind (act_do (en_uuid env)) (\<lambda>uuid.
     en_request_approval env \<lparr>aq_approval_id = ''approval-'' @ uuid, aq_call = call,
       aq_reason = ''tool requires approval'', aq_matched_rule = map_option describe_rule matched,
       aq_suggested_rule = suggest_policy_rule call, aq_breakpoint_type = None\<rparr>)"

definition hidden_by_allowlist :: "string list option \<Rightarrow> string \<Rightarrow> bool" where
  "hidden_by_allowlist names name \<longleftrightarrow> (case names of None \<Rightarrow> False | Some ns \<Rightarrow> name \<notin> set ns)"

definition hidden_until_activated :: "('s, 'h) agent_env \<Rightarrow> string \<Rightarrow> 's \<Rightarrow> bool" where
  "hidden_until_activated env name s \<longleftrightarrow>
     is_tool_deferred (en_eager_limit env) (en_registry env s) name \<and> name \<notin> set (en_active_tools env s)"

definition gate_call :: "('s, 'h) agent_env \<Rightarrow> string list option \<Rightarrow> tool_call \<Rightarrow> ('s, 'h verdict) action" where
  "gate_call env names call = (\<lambda>s.
     case registry_get (en_registry env s) (mc_name call) of
       None \<Rightarrow> refuse env call ''tool_not_found'' ''tool is not registered'' s
     | Some tool \<Rightarrow>
         if hidden_by_allowlist names (mc_name call) then
           refuse env call ''tool_not_allowed'' ''tool is outside this run's tool allowlist'' s
         else if hidden_until_activated env (mc_name call) s then
           refuse env call ''tool_not_active'' ''tool is deferred; call activate_tools to enable it'' s
         else (case call_decision env call tool s of
           Deny \<Rightarrow> refuse env call ''capability_denied'' (denial_text (matched_rule env call s)) s
         | Ask \<Rightarrow> act_bind (ask_approval env call (matched_rule env call s)) (\<lambda>outcome.
             if go_decision outcome \<noteq> Approved
             then refuse env call ''approval_denied'' ''tool approval was denied''
             else act_ok (Admitted tool)) s
         | Allow \<Rightarrow> act_ok (Admitted tool) s))"

type_synonym settled = "(nat \<times> tool_call \<times> tool_result) list"
type_synonym 'h runnable = "(nat \<times> tool_call \<times> 'h tool) list"

fun gate_calls ::
    "('s, 'h) agent_env \<Rightarrow> string list option \<Rightarrow> (nat \<times> tool_call) list \<Rightarrow>
     settled \<times> 'h runnable \<times> (string \<times> 64 word) list \<Rightarrow>
     ('s, settled \<times> 'h runnable \<times> (string \<times> 64 word) list) action" where
  "gate_calls env names [] acc = act_ok acc"
| "gate_calls env names ((index, call) # calls) (immediate, runnable, seqs) =
     act_bind (emit env (ToolRequested (requested_call call))) (\<lambda>requested.
     act_bind (gate_call env names call) (\<lambda>verdict.
     gate_calls env names calls (case verdict of
         Refused result \<Rightarrow> (immediate @ [(index, call, result)], runnable,
            (mc_call_id call, ee_seq requested) # seqs)
       | Admitted tool \<Rightarrow> (immediate, runnable @ [(index, call, tool)],
            (mc_call_id call, ee_seq requested) # seqs))))"

section \<open>Snapshots\<close>

definition checkpoint_extensions :: "(string, string option) result \<Rightarrow> json_map" where
  "checkpoint_extensions r = (case r of
      Inr (Some reference) \<Rightarrow> [(''checkpoint_ref'', JString reference)]
    | Inr None \<Rightarrow> []
    | Inl e \<Rightarrow> [(''checkpoint_error'', JString e)])"

fun prepare_calls :: "('s, 'h) agent_env \<Rightarrow> (string \<times> 64 word) list \<Rightarrow> 'h runnable \<Rightarrow> ('s, unit) action" where
  "prepare_calls env seqs [] = act_ok ()"
| "prepare_calls env seqs ((index, call, tool) # rest) =
     act_bind (act_do (en_snapshot env call (unwrap_or 0 (map_of seqs (mc_call_id call))))) (\<lambda>snapshot.
     act_bind (en_emit env (ToolStarted \<lparr>tl_call_id = mc_call_id call, tl_name = mc_name call\<rparr>)
         (checkpoint_extensions snapshot)) (\<lambda>_.
     prepare_calls env seqs rest))"

section \<open>Collecting results\<close>

definition ending_result :: "(string \<Rightarrow> string) \<Rightarrow> tool_ending \<Rightarrow> tool_result" where
  "ending_result ms ending = (case ending of
      ToolPanicked \<Rightarrow> tool_error ''tool_panicked'' ''tool panicked inside runtime''
    | ToolFailedWith failure \<Rightarrow> tool_error ''tool_runtime_error'' (tool_failure_text failure)
    | ToolReturned result \<Rightarrow> masked_result ms result)"

definition pick_at :: "nat \<Rightarrow> 'a list \<Rightarrow> 'a" where
  "pick_at k xs = xs ! (k mod length xs)"

definition remove_at :: "nat \<Rightarrow> 'a list \<Rightarrow> 'a list" where
  "remove_at k xs = take (k mod length xs) xs @ drop (Suc (k mod length xs)) xs"

lemma length_remove_at [simp]: "xs \<noteq> [] \<Longrightarrow> length (remove_at k xs) < length xs"
proof -
  assume "xs \<noteq> []"
  then have "k mod length xs < length xs" by simp
  then show "length (remove_at k xs) < length xs" by (simp add: remove_at_def)
qed

definition without_index :: "nat \<Rightarrow> (nat \<times> 'a) list \<Rightarrow> (nat \<times> 'a) list" where
  "without_index i xs = filter (\<lambda>(j, _). j \<noteq> i) xs"

definition started_calls :: "'h runnable \<Rightarrow> (tool_call \<times> 'h tool) list" where
  "started_calls running = map snd running"

type_synonym collected = "settled \<times> (nat \<times> tool_call) list"

function grace_loop ::
    "('s, 'h) agent_env \<Rightarrow> message list \<Rightarrow> 'h runnable \<Rightarrow> collected \<Rightarrow> ('s, collected) action" where
  "grace_loop env snap running (completed, pending) s =
     (if running = [] then (Inr (completed, pending), s)
      else case en_grace env snap (started_calls running) s of
        (GraceDone k ending, s1) \<Rightarrow>
          (case pick_at k running of (index, call, tool) \<Rightarrow>
             act_bind (emit_tool_result env call (ending_result (en_mask env) ending)) (\<lambda>_ s2.
               grace_loop env snap (remove_at k running)
                 (completed @ [(index, call, ending_result (en_mask env) ending)], without_index index pending) s2) s1)
      | (GraceLost k, s1) \<Rightarrow> grace_loop env snap (remove_at k running) (completed, pending) s1
      | (GraceTimeout None, s1) \<Rightarrow> (Inr (completed, pending), s1)
      | (GraceTimeout (Some k), s1) \<Rightarrow>
          (Inr (completed, without_index (fst (pick_at k running)) pending), s1))"
  by pat_completeness auto
termination by (relation "measure (\<lambda>(_, _, running, _, _). length running)") simp_all

function join_loop ::
    "('s, 'h) agent_env \<Rightarrow> message list \<Rightarrow> 'h runnable \<Rightarrow> collected \<Rightarrow> ('s, collected \<times> string option) action" where
  "join_loop env snap running (completed, pending) s =
     (if running = [] then (Inr ((completed, pending), None), s)
      else case en_join env snap (started_calls running) s of
        (TaskDone k ending, s1) \<Rightarrow>
          (case pick_at k running of (index, call, tool) \<Rightarrow>
             act_bind (emit_tool_result env call (ending_result (en_mask env) ending)) (\<lambda>_.
             act_bind (emit_plan_events env call (ending_result (en_mask env) ending)) (\<lambda>_ s2.
               join_loop env snap (remove_at k running)
                 (completed @ [(index, call, ending_result (en_mask env) ending)], without_index index pending) s2)) s1)
      | (TaskLost k, s1) \<Rightarrow> join_loop env snap (remove_at k running) (completed, pending) s1
      | (BatchCancelled reason, s1) \<Rightarrow>
          act_bind (grace_loop env snap running (completed, pending)) (\<lambda>collected.
          act_ok (collected, Some reason)) s1)"
  by pat_completeness auto
termination by (relation "measure (\<lambda>(_, _, running, _, _). length running)") simp_all

declare grace_loop.simps [simp del] join_loop.simps [simp del]

section \<open>The batch\<close>

text \<open>The iteration order of a hash map: any order of its entries.\<close>

fun shuffled :: "nat list \<Rightarrow> 'a list \<Rightarrow> 'a list" where
  "shuffled (k # ks) (x # xs) = pick_at k (x # xs) # shuffled ks (remove_at k (x # xs))"
| "shuffled _ xs = xs"

fun cancel_pending :: "('s, 'h) agent_env \<Rightarrow> (nat \<times> tool_call) list \<Rightarrow> settled \<Rightarrow> ('s, settled) action" where
  "cancel_pending env [] completed = act_ok completed"
| "cancel_pending env ((index, call) # pending) completed =
     (let result = tool_error ''tool_batch_cancelled'' ''tool batch was cancelled'' in
      act_bind (emit_tool_result env call result) (\<lambda>_.
      cancel_pending env pending (completed @ [(index, call, result)])))"

definition still_pending :: "(nat \<times> tool_call) list \<Rightarrow> settled \<Rightarrow> (nat \<times> tool_call) list" where
  "still_pending calls completed = filter (\<lambda>(index, _). index \<notin> fst ` set completed) calls"

record batch_outcome =
  bo_results :: "(tool_call \<times> tool_result) list"
  bo_cancelled :: "string option"

definition execute_tool_batch ::
    "('s, 'h) agent_env \<Rightarrow> message list \<Rightarrow> string list option \<Rightarrow> tool_call list \<Rightarrow> ('s, batch_outcome) action" where
  "execute_tool_batch env snap names calls =
     act_bind (gate_calls env names (enumerate 0 calls) ([], [], [])) (\<lambda>(immediate, runnable, seqs).
     act_bind (prepare_calls env seqs runnable) (\<lambda>_.
     act_bind (join_loop env snap runnable (immediate, still_pending (enumerate 0 calls) immediate))
       (\<lambda>((completed, pending), cancelled).
     act_bind (if cancelled = None then act_ok completed
               else cancel_pending env (shuffled (en_hash_picks env) pending) completed) (\<lambda>completed.
     act_ok \<lparr>bo_results = map snd (sort_key fst completed), bo_cancelled = cancelled\<rparr>))))"

end
