(* ===== verification/Agent_Loop.thy ===== *)
theory Agent_Loop
  imports Agent_Batch
begin

text \<open>
  \<open>AgentRuntime::run\<close> of \<open>crates/cool-agent/src/loop_runtime.rs\<close>: the history
  and its system sections, then at most \<open>max_iterations\<close> turns, each of which drains
  steering messages, compacts, reads one model stream (with retries) and executes the tool calls
  the model asked for; and \<open>run_subagent\<close>, which wraps a run in the events of its parent.
\<close>

section \<open>System sections\<close>

definition takes_sections :: "message \<Rightarrow> bool" where
  "takes_sections m \<longleftrightarrow> mg_role m = SystemRole \<and> \<not> is_summary_message m"

definition append_section :: "string \<Rightarrow> message \<Rightarrow> message" where
  "append_section section m = m\<lparr>mg_content :=
     Some (unwrap_or [] (mg_content m) @ [CHR 0x0A, CHR 0x0A] @ section)\<rparr>"

fun extend_first :: "string \<Rightarrow> message list \<Rightarrow> message list" where
  "extend_first section [] = []"
| "extend_first section (m # ms) =
     (if takes_sections m then append_section section m # ms else m # extend_first section ms)"

definition add_section :: "string \<Rightarrow> message list \<Rightarrow> message list" where
  "add_section section history =
     (if list_ex takes_sections history then extend_first section history
      else text_message SystemRole section # history)"

definition add_system_prompt :: "string option \<Rightarrow> message list \<Rightarrow> message list" where
  "add_system_prompt prompt history = (case prompt of
      None \<Rightarrow> history
    | Some p \<Rightarrow> if list_ex takes_sections history then history else text_message SystemRole p # history)"

definition add_optional_section :: "string option \<Rightarrow> message list \<Rightarrow> message list" where
  "add_optional_section section history = (case section of None \<Rightarrow> history | Some t \<Rightarrow> add_section t history)"

text \<open>The texts of the long-task sections; the dash is U+2014, a line break U+000A.\<close>

definition dash :: string where "dash = [CHR 0xE2, CHR 0x80, CHR 0x94]"
definition nl :: string where "nl = [CHR 0x0A]"
definition bquote :: string where "bquote = [CHR 0x60]"

definition long_task_bootstrap :: string where
  "long_task_bootstrap =
     ''[LONG-RUNNING TASK MODE]'' @ nl @
     ''Track this task on disk so progress survives context compaction and fresh runs. Maintain two files in the workspace:'' @ nl @
     ''- '' @ bquote @ ''.cool/task/progress.md'' @ bquote @ '' '' @ dash @
     '' journal with **Done**, **Next** and **Acceptance criteria** sections.'' @ nl @
     ''- '' @ bquote @ ''.cool/task/features.json'' @ bquote @ '' '' @ dash @
     '' machine-readable checklist: {\"features\": [{\"id\", \"title\", \"status\": \"pending|in_progress|done\", \"notes\"}]}.'' @ nl @
     ''Create them now: break the request into a feature checklist. Keep the files consistent and update them before every reply '' @
     dash @ '' a fresh run must resume from them alone.''"

definition progress_section :: "(string \<Rightarrow> string) \<Rightarrow> string option \<Rightarrow> string" where
  "progress_section ms progress = (case progress of
      Some p \<Rightarrow> ''[TASK PROGRESS '' @ dash @ '' .cool/task/progress.md]'' @ nl @
        ''Resume the task from this tracked state and keep the file updated as work proceeds.'' @ nl @ nl @ ms p
    | None \<Rightarrow> long_task_bootstrap)"

definition deferred_hint :: string where
  "deferred_hint = ''Some tools are hidden. Use search_tools(query) to discover and activate_tools(names) to enable them.''"

definition prepare_history ::
    "('s, 'h) agent_env \<Rightarrow> agent_request \<Rightarrow> message list \<Rightarrow> 's \<Rightarrow> message list" where
  "prepare_history env rq history s =
     (let history = add_system_prompt (gr_system_prompt rq) history;
          history = add_optional_section (en_instructions env s) history;
          history = (if gr_mode rq = Some ''long_task''
            then add_section (progress_section (en_mask env) (en_progress env s)) history else history);
          meta_tools_visible = (case gr_tool_names rq of None \<Rightarrow> True
            | Some names \<Rightarrow> ''search_tools'' \<in> set names \<and> ''activate_tools'' \<in> set names)
      in if has_deferred_tools (en_eager_limit env) (en_registry env s) \<and> meta_tools_visible
         then add_section deferred_hint history else history)"

section \<open>The model stream\<close>

datatype 'a step_result = Halt run_outcome | Go 'a

definition halt :: "('s, run_outcome) action \<Rightarrow> ('s, 'a step_result) action" where
  "halt m = act_bind m (\<lambda>outcome. act_ok (Halt outcome))"

definition go_bind :: "('s, 'a step_result) action \<Rightarrow> ('a \<Rightarrow> ('s, 'b step_result) action) \<Rightarrow> ('s, 'b step_result) action" where
  "go_bind m f = act_bind m (\<lambda>r. case r of Halt outcome \<Rightarrow> act_ok (Halt outcome) | Go x \<Rightarrow> f x)"

function open_stream ::
    "('s, 'h) agent_env \<Rightarrow> model_request \<Rightarrow> message list \<Rightarrow> nat \<Rightarrow> nat \<Rightarrow>
     ('s, (stream_step list \<times> nat) step_result) action" where
  "open_stream env request history max_retries attempt s =
     (case en_stream env request s of
        (Inr steps, s1) \<Rightarrow> (Inr (Go (steps, attempt)), s1)
      | (Inl e, s1) \<Rightarrow>
          if pv_retryable e \<and> attempt < max_retries then
            (case en_backoff env (attempt + 1) s1 of
               (None, s2) \<Rightarrow> open_stream env request history max_retries (attempt + 1) s2
             | (Some reason, s2) \<Rightarrow> halt (finish_cancelled env history reason) s2)
          else halt (finish_failed env history (pv_code e)) s1)"
  by pat_completeness auto
termination by (relation "measure (\<lambda>(_, _, _, m, a, _). m - a)") auto

record reading =
  rd_content :: string
  rd_calls :: "tool_call list"
  rd_progressed :: bool
  rd_usage_observed :: bool
  rd_total_usage :: usage
  rd_cost_complete :: bool

definition reserve_or_fail ::
    "('s, 'h) agent_env \<Rightarrow> message list \<Rightarrow> usage \<Rightarrow> ('s, unit step_result) action" where
  "reserve_or_fail env history u s = (case en_reserve_usage env u s of
      (Inr _, s1) \<Rightarrow> (Inr (Go ()), s1)
    | (Inl (Fault _), s1) \<Rightarrow> halt (finish_failed env history ''run_budget_exceeded'') s1
    | (Inl (Panic p), s1) \<Rightarrow> (Inl (Panic p), s1))"

definition count_usage :: "usage \<Rightarrow> reading \<Rightarrow> reading" where
  "count_usage u rd =
     (let complete = rd_cost_complete rd \<and> us_cost_micro_usd u \<noteq> None;
          sum = add_usage (rd_total_usage rd) u
      in rd\<lparr>rd_usage_observed := True, rd_cost_complete := complete,
            rd_total_usage := (if complete then sum else sum\<lparr>us_cost_micro_usd := None\<rparr>)\<rparr>)"

fun read_event :: "('s, 'h) agent_env \<Rightarrow> message list \<Rightarrow> model_event \<Rightarrow> reading \<Rightarrow> ('s, reading step_result) action" where
  "read_event env history (ModelContent text) rd =
     act_bind (emit env (ContentDelta \<lparr>td_text = text, td_channel = Some ''final''\<rparr>)) (\<lambda>_.
     act_ok (Go (rd\<lparr>rd_progressed := True, rd_content := rd_content rd @ text\<rparr>)))"
| "read_event env history (ModelReasoning text) rd =
     act_bind (emit env (ReasoningDelta \<lparr>td_text = text, td_channel = Some ''analysis''\<rparr>)) (\<lambda>_.
     act_ok (Go (rd\<lparr>rd_progressed := True\<rparr>)))"
| "read_event env history (ModelToolCall call) rd =
     act_ok (Go (rd\<lparr>rd_progressed := True, rd_calls := rd_calls rd @ [call]\<rparr>))"
| "read_event env history (ModelUsage u) rd =
     go_bind (reserve_or_fail env history u) (\<lambda>_.
     act_bind (emit env (UsageUpdated \<lparr>uu_prompt_tokens = us_prompt_tokens u,
         uu_completion_tokens = us_completion_tokens u, uu_total_tokens = us_total_tokens u,
         uu_cost_usd = map_option micro_usd_f64 (us_cost_micro_usd u)\<rparr>)) (\<lambda>_.
     act_ok (Go (count_usage u rd))))"
| "read_event env history (ModelFinish reason) rd = act_ok (Go rd)"

function read_stream ::
    "('s, 'h) agent_env \<Rightarrow> model_request \<Rightarrow> message list \<Rightarrow> nat \<Rightarrow> nat \<Rightarrow> stream_step list \<Rightarrow> reading \<Rightarrow>
     ('s, reading step_result) action" where
  "read_stream env request history max_retries attempt [] rd s = (Inr (Go rd), s)"
| "read_stream env request history max_retries attempt (StreamCancelled reason # steps) rd s =
     halt (finish_cancelled env history reason) s"
| "read_stream env request history max_retries attempt (StreamEvent e # steps) rd s =
     (case e of ModelFinish _ \<Rightarrow> (Inr (Go rd), s)
      | _ \<Rightarrow> go_bind (read_event env history e rd) (\<lambda>rd s1.
          read_stream env request history max_retries attempt steps rd s1) s)"
| "read_stream env request history max_retries attempt (StreamError e # steps) rd s =
     (if pv_retryable e \<and> \<not> rd_progressed rd \<and> attempt < max_retries then
        (case en_backoff env (attempt + 1) s of
           (None, s1) \<Rightarrow>
             (case en_stream env request s1 of
                (Inr replacement, s2) \<Rightarrow>
                  read_stream env request history max_retries (attempt + 1) replacement rd s2
              | (Inl next_error, s2) \<Rightarrow> halt (finish_failed env history (pv_code next_error)) s2)
         | (Some reason, s1) \<Rightarrow> halt (finish_cancelled env history reason) s1)
      else halt (finish_failed env history (pv_code e)) s)"
  by pat_completeness auto
termination
  by (relation "measures [\<lambda>(_, _, _, m, a, _). m - a, \<lambda>(_, _, _, _, _, steps, _). length steps]") auto

section \<open>Compaction between turns\<close>

definition compaction_trigger :: "nat \<Rightarrow> nat" where
  "compaction_trigger context_tokens = min u64_max (context_tokens * 85) div 100"

text \<open>A summarizer that fails counts as no summary, but its panic goes through.\<close>

definition summary_or_none :: "('s, string option) action \<Rightarrow> ('s, string option) action" where
  "summary_or_none m = (\<lambda>s. case m s of (Inl (Fault _), s1) \<Rightarrow> (Inr None, s1) | r \<Rightarrow> r)"

definition wanted_summary ::
    "('s, 'h) agent_env \<Rightarrow> nat \<Rightarrow> message list \<Rightarrow> ('s, string option) action" where
  "wanted_summary env context_tokens history =
     (if compaction_trigger context_tokens < history_tokens (en_json_text env) history then
        act_bind (en_before_compaction env history) (\<lambda>_.
        let dropped = summary_drop_candidates (en_json_text env) history context_tokens in
        if dropped = [] then act_ok None
        else summary_or_none (en_summarize env dropped
               (length (non_system history) - length (non_system dropped))))
      else act_ok None)"

definition compact_turn ::
    "('s, 'h) agent_env \<Rightarrow> nat \<Rightarrow> message list \<Rightarrow> ('s, message list) action" where
  "compact_turn env context_tokens history =
     act_bind (wanted_summary env context_tokens history) (\<lambda>summary.
     let compacted = compact_history (en_json_text env) history context_tokens summary in
     if 0 < cn_dropped compacted then
       act_bind (emit env (SessionCompacted \<lparr>sc_retained_items = of_nat (length (cn_messages compacted)),
           sc_summary_item_id = None, sc_summary = cn_summary compacted, sc_compact_up_to_cursor = None\<rparr>)) (\<lambda>_.
       act_ok (cn_messages compacted))
     else act_ok (cn_messages compacted))"

section \<open>Turns\<close>

record turn_state =
  ts_history :: "message list"
  ts_usage :: usage
  ts_cost_complete :: bool

definition model_request_for ::
    "('s, 'h) agent_env \<Rightarrow> agent_request \<Rightarrow> message list \<Rightarrow> 's \<Rightarrow> model_request" where
  "model_request_for env rq history s = \<lparr>mr_model = gr_model rq, mr_messages = history,
     mr_tools = filter (\<lambda>def. \<not> hidden_by_allowlist (gr_tool_names rq) (df_name def))
       (visible_definitions (en_eager_limit env) (en_registry env s) (en_active_tools env s)),
     mr_temperature = gr_temperature rq, mr_max_tokens = gr_max_tokens rq\<rparr>"

definition read_model ::
    "('s, 'h) agent_env \<Rightarrow> agent_request \<Rightarrow> turn_state \<Rightarrow> message list \<Rightarrow> ('s, reading step_result) action" where
  "read_model env rq st history =
     act_bind (act_read (model_request_for env rq history)) (\<lambda>request.
     go_bind (open_stream env request history (al_max_provider_retries (gr_limits rq)) 0) (\<lambda>(steps, attempt).
     read_stream env request history (al_max_provider_retries (gr_limits rq)) attempt steps
       \<lparr>rd_content = [], rd_calls = [], rd_progressed = False, rd_usage_observed = False,
        rd_total_usage = ts_usage st, rd_cost_complete = ts_cost_complete st\<rparr>))"

definition over_budget :: "agent_limits \<Rightarrow> reading \<Rightarrow> bool" where
  "over_budget limits rd \<longleftrightarrow>
     (\<not> rd_usage_observed rd \<and> (al_max_total_tokens limits \<noteq> None \<or> al_max_cost_micro_usd limits \<noteq> None)) \<or>
     limits_exceeded limits (rd_total_usage rd)"

definition assistant_message :: "reading \<Rightarrow> message" where
  "assistant_message rd = \<lparr>mg_role = AssistantRole,
     mg_content = (if rd_content rd = [] then None else Some (rd_content rd)), mg_parts = None,
     mg_tool_calls = rd_calls rd, mg_tool_call_id = None, mg_name = None\<rparr>"

definition with_diagnostics :: "tool_result \<Rightarrow> json" where
  "with_diagnostics result = (case to_diagnostics result of
      None \<Rightarrow> to_output result
    | Some d \<Rightarrow> (case to_output result of
          JObject m \<Rightarrow> JObject (bt_insert ''diagnostics'' (JString d) m)
        | output \<Rightarrow> JObject [(''diagnostics'', JString d), (''output'', output)]))"

definition result_message :: "('s, 'h) agent_env \<Rightarrow> tool_call \<times> tool_result \<Rightarrow> message" where
  "result_message env cr = (tool_result_message (fst cr) (en_json_text env (with_diagnostics (snd cr))))
     \<lparr>mg_parts := to_output_parts (snd cr)\<rparr>"

text \<open>A turn without tool calls completes the run unless a steering message arrived meanwhile.\<close>

definition final_answer ::
    "('s, 'h) agent_env \<Rightarrow> bool \<Rightarrow> turn_state \<Rightarrow> ('s, turn_state step_result) action" where
  "final_answer env is_last st =
     act_bind (en_drain_steers env) (\<lambda>steers.
     if steers = [] then
       act_bind (emit env (RunCompleted \<lparr>rt_reason = ''stop'', rt_error_code = None\<rparr>)) (\<lambda>_.
       act_ok (Halt (RunDone (ts_history st) (ts_usage st))))
     else
       (let st = st\<lparr>ts_history := ts_history st @ steers\<rparr> in
        if is_last then halt (finish_failed env (ts_history st) ''iteration_limit'') else act_ok (Go st)))"

definition run_tools ::
    "('s, 'h) agent_env \<Rightarrow> agent_request \<Rightarrow> bool \<Rightarrow> tool_call list \<Rightarrow> turn_state \<Rightarrow> ('s, turn_state step_result) action" where
  "run_tools env rq is_last calls st =
     act_bind (execute_tool_batch env (ts_history st) (gr_tool_names rq) calls) (\<lambda>batch.
     let st = st\<lparr>ts_history := ts_history st @ map (result_message env) (bo_results batch)\<rparr> in
     case bo_cancelled batch of
       Some reason \<Rightarrow> halt (finish_cancelled env (ts_history st) reason)
     | None \<Rightarrow> if is_last then halt (finish_failed env (ts_history st) ''iteration_limit'') else act_ok (Go st))"

definition answer_turn ::
    "('s, 'h) agent_env \<Rightarrow> agent_request \<Rightarrow> bool \<Rightarrow> message list \<Rightarrow> reading \<Rightarrow> ('s, turn_state step_result) action" where
  "answer_turn env rq is_last history rd =
     (if over_budget (gr_limits rq) rd then halt (finish_failed env history ''run_budget_exceeded'')
      else
        let message = assistant_message rd;
            st = \<lparr>ts_history = history @ [message], ts_usage = rd_total_usage rd,
                  ts_cost_complete = rd_cost_complete rd\<rparr>
        in act_bind (emit env (ItemCompleted \<lparr>ie_role = Some ''assistant'', ie_content = mg_content message,
               ie_tool_calls = map requested_call (mg_tool_calls message)\<rparr>)) (\<lambda>_.
           if rd_calls rd = [] then final_answer env is_last st
           else run_tools env rq is_last (rd_calls rd) st))"

definition turn ::
    "('s, 'h) agent_env \<Rightarrow> agent_request \<Rightarrow> bool \<Rightarrow> turn_state \<Rightarrow> ('s, turn_state step_result) action" where
  "turn env rq is_last st =
     act_bind (act_read (en_cancel_reason env)) (\<lambda>cancelled.
     case cancelled of
       Some reason \<Rightarrow> halt (finish_cancelled env (ts_history st) reason)
     | None \<Rightarrow>
         act_bind (en_drain_steers env) (\<lambda>steers.
         act_bind (compact_turn env (al_context_tokens (gr_limits rq)) (ts_history st @ steers)) (\<lambda>history.
         go_bind (read_model env rq st history) (\<lambda>rd.
         answer_turn env rq is_last history rd))))"

definition unreachable_message :: string where
  "unreachable_message = ''positive iteration limit exits through the loop''"

fun turns ::
    "('s, 'h) agent_env \<Rightarrow> agent_request \<Rightarrow> nat \<Rightarrow> turn_state \<Rightarrow> ('s, run_outcome) action" where
  "turns env rq 0 st = act_fail (Panic unreachable_message)"
| "turns env rq (Suc n) st =
     act_bind (turn env rq (n = 0) st) (\<lambda>r. case r of
         Halt outcome \<Rightarrow> act_ok outcome
       | Go st \<Rightarrow> turns env rq n st)"

section \<open>Runs\<close>

definition replay_extensions :: "json list \<Rightarrow> json_map" where
  "replay_extensions parts = (if parts = [] then [] else [(''content_parts'', JArray parts)])"

definition begin_run :: "('s, 'h) agent_env \<Rightarrow> agent_request \<Rightarrow> ('s, message list) action" where
  "begin_run env rq =
     act_bind (if gr_history rq = [] then en_load_history env else act_ok (gr_history rq)) (\<lambda>history.
     act_bind (act_read (prepare_history env rq history)) (\<lambda>history.
     act_bind (emit env (RunStarted \<lparr>rs_model = Some (gr_model rq),
         rs_mode = Some (unwrap_or ''m7_rust_agent'' (gr_mode rq))\<rparr>)) (\<lambda>_.
     let user_message = message_with_parts UserRole (gr_user_input rq) (gr_user_parts rq) in
     act_bind (en_emit env (ItemCompleted \<lparr>ie_role = Some ''user'', ie_content = mg_content user_message,
         ie_tool_calls = []\<rparr>) (replay_extensions (gr_user_replay_parts rq))) (\<lambda>_.
     act_ok (history @ [user_message])))))"

definition run :: "('s, 'h) agent_env \<Rightarrow> agent_request \<Rightarrow> ('s, run_outcome) action" where
  "run env rq =
     act_bind (begin_run env rq) (\<lambda>history.
     if al_max_iterations (gr_limits rq) = 0 then finish_failed env history ''iteration_limit''
     else turns env rq (al_max_iterations (gr_limits rq))
            \<lparr>ts_history = history, ts_usage = no_usage, ts_cost_complete = True\<rparr>)"

section \<open>Subagents\<close>

definition subagent_report :: "string \<Rightarrow> string \<Rightarrow> string \<Rightarrow> string \<Rightarrow> string option \<Rightarrow> subagent_event" where
  "subagent_report run_id role status summary error = \<lparr>sa_subagent_run_id = run_id, sa_name = Some role,
     sa_status = status, sa_summary = Some summary, sa_error = error\<rparr>"

definition provider_error_text :: "provider_error \<Rightarrow> string" where
  "provider_error_text e = pv_code e @ '': '' @ pv_message e"

definition runtime_error_text :: "(store_error \<Rightarrow> string) \<Rightarrow> runtime_error \<Rightarrow> string" where
  "runtime_error_text store_text e = (case e of
      ProviderFailure p \<Rightarrow> ''provider error: '' @ provider_error_text p
    | StoreFailure x \<Rightarrow> ''state error: '' @ store_text x
    | SinkFailure m \<Rightarrow> ''event sink error: '' @ m)"

definition subagent_event_of ::
    "(store_error \<Rightarrow> string) \<Rightarrow> string \<Rightarrow> string \<Rightarrow> (runtime_error, run_outcome) result \<Rightarrow> canonical_event" where
  "subagent_event_of store_text run_id role outcome = (case outcome of
      Inr (RunDone _ _) \<Rightarrow> SubagentCompleted (subagent_report run_id role ''completed'' ''completed'' None)
    | Inr (RunStopped _ _) \<Rightarrow> SubagentFailed
        (subagent_report run_id role ''cancelled'' ''subagent cancelled'' (Some ''subagent_cancelled''))
    | Inr (RunBroken _ _) \<Rightarrow> SubagentFailed
        (subagent_report run_id role ''failed'' ''subagent did not complete'' (Some ''subagent_not_completed''))
    | Inl e \<Rightarrow> SubagentFailed
        (subagent_report run_id role ''failed'' (runtime_error_text store_text e) (Some ''subagent_runtime_error'')))"

text \<open>The parent's sink is another sink on the same state; a panic of the run goes through.\<close>

definition run_subagent ::
    "(store_error \<Rightarrow> string) \<Rightarrow> (canonical_event \<Rightarrow> ('s, event_envelope) action) \<Rightarrow> ('s, 'h) agent_env \<Rightarrow>
     string \<Rightarrow> string \<Rightarrow> agent_request \<Rightarrow> ('s, run_outcome) action" where
  "run_subagent store_text parent_emit env run_id role rq =
     act_bind (parent_emit (SubagentStarted \<lparr>sa_subagent_run_id = run_id, sa_name = Some role,
         sa_status = ''running'', sa_summary = None, sa_error = None\<rparr>)) (\<lambda>_ s.
     case run env rq s of
       (Inl (Panic p), s1) \<Rightarrow> (Inl (Panic p), s1)
     | (Inl (Fault e), s1) \<Rightarrow>
         act_bind (parent_emit (subagent_event_of store_text run_id role (Inl e))) (\<lambda>_. act_fail (Fault e)) s1
     | (Inr outcome, s1) \<Rightarrow>
         act_bind (parent_emit (subagent_event_of store_text run_id role (Inr outcome))) (\<lambda>_. act_ok outcome) s1)"

end
