(* ===== verification/Agent_Traces.thy ===== *)
theory Agent_Traces
  imports Agent_Loop
begin

text \<open>
  A calculus for the agent loop. \<open>traces_at log m s R\<close> says that the action \<open>m\<close>
  started in \<open>s\<close> appends some events to the log and that \<open>R\<close> relates its result to
  them; \<open>speaks\<close> is the instance for a language of event sequences and a
  postcondition of the result, \<open>keeps\<close> that for a predicate of single events. The locale \<open>agent_sink\<close> is what the loop relies on: a
  successful emission appends its event, a failed one nothing, and no other call of the loop
  touches the log, except the approval gate, which may append approval events. It is
  interpreted on every environment together with the list of the events its sink accepted.
\<close>

section \<open>Traces\<close>

definition traces_at ::
    "('s \<Rightarrow> 'e list) \<Rightarrow> ('s, 'a) action \<Rightarrow> 's \<Rightarrow> ((fault, 'a) result \<Rightarrow> 'e list \<Rightarrow> bool) \<Rightarrow> bool" where
  "traces_at log m s R \<longleftrightarrow> (\<exists>es. log (snd (m s)) = log s @ es \<and> R (fst (m s)) es)"

definition speaks ::
    "('s \<Rightarrow> 'e list) \<Rightarrow> ('e list \<Rightarrow> bool) \<Rightarrow> ('e list \<Rightarrow> bool) \<Rightarrow> ('a \<Rightarrow> bool) \<Rightarrow> ('s, 'a) action \<Rightarrow> bool" where
  "speaks log L E Q m \<longleftrightarrow> (\<forall>s. traces_at log m s (\<lambda>r es. case r of Inr x \<Rightarrow> L es \<and> Q x | Inl _ \<Rightarrow> E es))"

abbreviation keeps ::
    "('s \<Rightarrow> 'e list) \<Rightarrow> ('e \<Rightarrow> bool) \<Rightarrow> ('a \<Rightarrow> bool) \<Rightarrow> ('s, 'a) action \<Rightarrow> bool" where
  "keeps log ok \<equiv> speaks log (list_all ok) (list_all ok)"

lemma traces_atI: "m s = (r, s1) \<Longrightarrow> log s1 = log s @ es \<Longrightarrow> R r es \<Longrightarrow> traces_at log m s R"
  by (auto simp: traces_at_def)

lemma traces_atE:
  assumes "traces_at log m s R" "m s = (r, s1)"
  obtains es where "log s1 = log s @ es" "R r es"
  using assms by (auto simp: traces_at_def)

lemma traces_weaken: "traces_at log m s R \<Longrightarrow> (\<And>r es. R r es \<Longrightarrow> R' r es) \<Longrightarrow> traces_at log m s R'"
  by (auto simp: traces_at_def)

lemma traces_ok: "R (Inr x) [] \<Longrightarrow> traces_at log (act_ok x) s R"
  by (simp add: traces_at_def act_ok_def)

lemma traces_fail: "R (Inl e) [] \<Longrightarrow> traces_at log (act_fail e) s R"
  by (simp add: traces_at_def act_fail_def)

lemma traces_read: "R (Inr (f s)) [] \<Longrightarrow> traces_at log (act_read f) s R"
  by (simp add: traces_at_def act_read_def)

lemma traces_bind:
  assumes "traces_at log m s R1"
    and "\<And>x s1. m s = (Inr x, s1) \<Longrightarrow> traces_at log (f x) s1 (R2 x)"
    and "\<And>e es. R1 (Inl e) es \<Longrightarrow> R (Inl e) es"
    and "\<And>x r es es'. R1 (Inr x) es \<Longrightarrow> R2 x r es' \<Longrightarrow> R r (es @ es')"
  shows "traces_at log (act_bind m f) s R"
proof (cases "m s")
  case (Pair r s1)
  from assms(1) Pair obtain es where es: "log s1 = log s @ es" "R1 r es" by (rule traces_atE)
  show ?thesis
  proof (cases r)
    case (Inl e)
    with Pair es assms(3) show ?thesis by (intro traces_atI [of _ _ "Inl e" s1]) (simp_all add: act_bind_def)
  next
    case (Inr x)
    obtain r' s2 where fx: "f x s1 = (r', s2)" by fastforce
    from assms(2) [of x s1] Pair Inr have "traces_at log (f x) s1 (R2 x)" by simp
    from this fx obtain es' where "log s2 = log s1 @ es'" "R2 x r' es'" by (rule traces_atE)
    with es Inr assms(4) [of x es r' es'] Pair fx show ?thesis
      by (intro traces_atI [of _ _ r' s2 _ "es @ es'"]) (simp_all add: act_bind_def)
  qed
qed

lemma traces_bind_known:
  assumes "traces_at log m s R1"
    and "\<And>x s1 es. R1 (Inr x) es \<Longrightarrow> traces_at log (f x) s1 (R2 x)"
    and "\<And>x r es es'. R1 (Inr x) es \<Longrightarrow> R2 x r es' \<Longrightarrow> R r (es @ es')"
    and "\<And>e es. R1 (Inl e) es \<Longrightarrow> R (Inl e) es"
  shows "traces_at log (act_bind m f) s R"
proof (rule traces_bind [OF assms(1)])
  fix x s1 assume "m s = (Inr x, s1)"
  with assms(1) obtain es where "R1 (Inr x) es" by (auto simp: traces_at_def)
  then show "traces_at log (f x) s1 (R2 x)" by (rule assms(2))
qed (use assms(3,4) in auto)

lemma traces_bind_at:
  assumes "traces_at log m s (\<lambda>r es. case r of Inr x \<Rightarrow> L es \<and> P x | Inl _ \<Rightarrow> E es)"
    and "\<And>x s1. m s = (Inr x, s1) \<Longrightarrow> P x \<Longrightarrow> traces_at log (f x) s1 R"
    and "\<And>e es. E es \<Longrightarrow> R (Inl e) es"
    and "\<And>r es es'. L es \<Longrightarrow> R r es' \<Longrightarrow> R r (es @ es')"
  shows "traces_at log (act_bind m f) s R"
proof (rule traces_bind [OF assms(1), where ?R2.0 = "\<lambda>_. R"])
  fix x s1 assume ms: "m s = (Inr x, s1)"
  with assms(1) have "P x" by (auto simp: traces_at_def)
  with ms assms(2) show "traces_at log (f x) s1 R" by blast
qed (use assms(3,4) in auto)

lemma speaksD: "speaks log L E Q m \<Longrightarrow> traces_at log m s (\<lambda>r es. case r of Inr x \<Rightarrow> L es \<and> Q x | Inl _ \<Rightarrow> E es)"
  by (simp add: speaks_def)

lemma speaksI: "(\<And>s. traces_at log m s (\<lambda>r es. case r of Inr x \<Rightarrow> L es \<and> Q x | Inl _ \<Rightarrow> E es)) \<Longrightarrow> speaks log L E Q m"
  by (simp add: speaks_def)

lemma speaks_weaken:
  assumes "speaks log L E P m" "\<And>x. P x \<Longrightarrow> Q x" "\<And>es. L es \<Longrightarrow> L' es" "\<And>es. E es \<Longrightarrow> E' es"
  shows "speaks log L' E' Q m"
  by (rule speaksI) (rule traces_weaken [OF speaksD [OF assms(1)]], use assms in \<open>auto split: sum.splits\<close>)

text \<open>
  Successful actions speak \<open>L\<close>, failing ones \<open>E\<close>: \<open>L\<close> is closed under
  concatenation, and what was said before a failure does not matter to \<open>E\<close>.
\<close>

locale language =
  fixes L E :: "'e list \<Rightarrow> bool"
  assumes L_nil: "L []" and E_nil: "E []"
    and L_append: "L es \<Longrightarrow> L es' \<Longrightarrow> L (es @ es')"
    and L_E: "L es \<Longrightarrow> E es' \<Longrightarrow> E (es @ es')"
begin

lemma LE: "L es \<Longrightarrow> E es"
  using L_E [of es "[]"] E_nil by simp

lemma speaks_ok: "Q x \<Longrightarrow> speaks log L E Q (act_ok x)"
  by (intro speaksI traces_ok) (simp add: L_nil)

lemma speaks_fail: "speaks log L E Q (act_fail e)"
  by (intro speaksI traces_fail) (simp add: E_nil)

lemma speaks_read: "(\<And>s. Q (f s)) \<Longrightarrow> speaks log L E Q (act_read f)"
  by (intro speaksI traces_read) (simp add: L_nil)

lemma speaks_bind:
  assumes "speaks log L E P m" and "\<And>x. P x \<Longrightarrow> speaks log L E Q (f x)"
  shows "speaks log L E Q (act_bind m f)"
  by (rule speaksI, rule traces_bind_at [OF speaksD [OF assms(1)]])
     (erule speaksD [OF assms(2)], auto intro: L_append L_E split: sum.splits)

lemma speaks_seq: "speaks log L E (\<lambda>_. True) m \<Longrightarrow> (\<And>x. speaks log L E Q (f x)) \<Longrightarrow> speaks log L E Q (act_bind m f)"
  by (rule speaks_bind)

end

lemma list_all_language: "language (list_all ok) (list_all ok)"
  by unfold_locales simp_all

text \<open>An action that appends nothing.\<close>

definition quiet_action :: "('s \<Rightarrow> 'e list) \<Rightarrow> ('s \<Rightarrow> 'r \<times> 's) \<Rightarrow> bool" where
  "quiet_action log m \<longleftrightarrow> (\<forall>s. log (snd (m s)) = log s)"

lemma quiet_traces: "quiet_action log m \<Longrightarrow> (\<And>s. R (fst (m s)) []) \<Longrightarrow> traces_at log m s R"
  by (simp add: quiet_action_def traces_at_def)

lemma quiet_speaks:
  assumes "quiet_action log m" "L []" "E []" shows "speaks log L E (\<lambda>_. True) m"
  by (intro speaksI quiet_traces assms(1)) (auto simp: assms(2,3) split: sum.split)

lemma quiet_do: "quiet_action log f \<Longrightarrow> quiet_action log (act_do f)"
  by (simp add: quiet_action_def act_do_def split_def)

lemma quiet_step: "quiet_action log f \<Longrightarrow> f s = (x, s1) \<Longrightarrow> log s1 = log s"
  by (metis quiet_action_def snd_conv)

section \<open>The interface of the loop\<close>

fun approval_event :: "canonical_event \<Rightarrow> bool" where
  "approval_event (ToolApprovalRequired _) = True"
| "approval_event (ToolApprovalResolved _) = True"
| "approval_event _ = False"

locale agent_sink =
  fixes env :: "('s, 'h) agent_env" and log :: "'s \<Rightarrow> canonical_event list"
  assumes emit_log: "en_emit env e x s = (r, s1) \<Longrightarrow> log s1 = (case r of Inr _ \<Rightarrow> log s @ [e] | Inl _ \<Rightarrow> log s)"
    and approval_log: "keeps log approval_event (\<lambda>_. True) (en_request_approval env q)"
    and load_quiet: "quiet_action log (en_load_history env)"
    and before_quiet: "quiet_action log (en_before_compaction env h)"
    and summarize_quiet: "quiet_action log (en_summarize env h n)"
    and reserve_quiet: "quiet_action log (en_reserve_usage env u)"
    and drain_quiet: "quiet_action log (en_drain_steers env)"
    and stream_quiet: "quiet_action log (en_stream env mr)"
    and backoff_quiet: "quiet_action log (en_backoff env n)"
    and uuid_quiet: "quiet_action log (en_uuid env)"
    and snapshot_quiet: "quiet_action log (en_snapshot env c w)"
    and join_quiet: "quiet_action log (en_join env h cs)"
    and grace_quiet: "quiet_action log (en_grace env h cs)"

text \<open>The sink of an environment together with the events it accepted, in order.\<close>

definition lifted :: "('s \<Rightarrow> 'r \<times> 's) \<Rightarrow> 's \<times> 'e list \<Rightarrow> 'r \<times> ('s \<times> 'e list)" where
  "lifted m = (\<lambda>(s, es). case m s of (r, s1) \<Rightarrow> (r, (s1, es)))"

definition recorded_emit ::
    "(canonical_event \<Rightarrow> json_map \<Rightarrow> ('s, event_envelope) action) \<Rightarrow>
     canonical_event \<Rightarrow> json_map \<Rightarrow> ('s \<times> canonical_event list, event_envelope) action" where
  "recorded_emit em e x = (\<lambda>(s, es). case em e x s of
      (Inr v, s1) \<Rightarrow> (Inr v, (s1, es @ [e]))
    | (Inl f, s1) \<Rightarrow> (Inl f, (s1, es)))"

definition recording :: "('s, 'h) agent_env \<Rightarrow> ('s \<times> canonical_event list, 'h) agent_env" where
  "recording env = \<lparr>en_mask = en_mask env, en_json_text = en_json_text env, en_host = en_host env,
     en_glob = en_glob env, en_emit = recorded_emit (en_emit env),
     en_load_history = lifted (en_load_history env),
     en_before_compaction = (\<lambda>h. lifted (en_before_compaction env h)),
     en_summarize = (\<lambda>h n. lifted (en_summarize env h n)),
     en_reserve_usage = (\<lambda>u. lifted (en_reserve_usage env u)),
     en_drain_steers = lifted (en_drain_steers env),
     en_request_approval = (\<lambda>q. lifted (en_request_approval env q)),
     en_stream = (\<lambda>mr. lifted (en_stream env mr)), en_backoff = (\<lambda>n. lifted (en_backoff env n)),
     en_cancel_reason = (\<lambda>(s, _). en_cancel_reason env s), en_registry = (\<lambda>(s, _). en_registry env s),
     en_eager_limit = en_eager_limit env, en_active_tools = (\<lambda>(s, _). en_active_tools env s),
     en_session_rules = (\<lambda>(s, _). en_session_rules env s), en_rule_source = (\<lambda>(s, _). en_rule_source env s),
     en_policy = en_policy env, en_instructions = (\<lambda>(s, _). en_instructions env s),
     en_progress = (\<lambda>(s, _). en_progress env s), en_uuid = lifted (en_uuid env),
     en_snapshot = (\<lambda>c w. lifted (en_snapshot env c w)), en_join = (\<lambda>h cs. lifted (en_join env h cs)),
     en_grace = (\<lambda>h cs. lifted (en_grace env h cs)), en_hash_picks = en_hash_picks env\<rparr>"

lemma quiet_lifted: "quiet_action snd (lifted m)"
  by (simp add: quiet_action_def lifted_def split_def)

interpretation recorded: agent_sink "recording env" snd for env
proof unfold_locales
  show "en_emit (recording env) e x s = (r, s1) \<Longrightarrow>
      snd s1 = (case r of Inr _ \<Rightarrow> snd s @ [e] | Inl _ \<Rightarrow> snd s)" for e x s r s1
    by (cases s) (auto simp: recording_def recorded_emit_def split: prod.splits sum.splits)
qed (auto simp: recording_def quiet_lifted intro: quiet_speaks)

text \<open>The same with the gate that decides every request the same way.\<close>

definition auto_gated :: "('s, 'h) agent_env \<Rightarrow> approval_outcome \<Rightarrow> ('s, 'h) agent_env" where
  "auto_gated env outcome = env\<lparr>en_request_approval := auto_approval_gate env outcome\<rparr>"

end
