(* ===== verification/Agent_Runs.thy ===== *)
theory Agent_Runs
  imports Agent_Traces
begin

text \<open>
  What every run says, whatever its environment does. The locale \<open>agent_language\<close>
  extends \<open>agent_sink\<close> by a language of event sequences that contains every plain event
  and whatever a batch of tool calls says; it proves once that a run that returns spoke that
  language up to one closing event that agrees with its outcome.
\<close>

section \<open>Closing events\<close>

fun plain_event :: "canonical_event \<Rightarrow> bool" where
  "plain_event (RunCompleted _) = False"
| "plain_event (RunFailed _) = False"
| "plain_event (RunCancelled _) = False"
| "plain_event (ToolRequested _) = False"
| "plain_event (ToolStarted _) = False"
| "plain_event (ToolCompleted _) = False"
| "plain_event (ToolFailed _) = False"
| "plain_event _ = True"

fun closing_event :: "run_outcome \<Rightarrow> canonical_event" where
  "closing_event (RunDone h u) = RunCompleted \<lparr>rt_reason = ''stop'', rt_error_code = None\<rparr>"
| "closing_event (RunStopped h reason) = RunCancelled \<lparr>rt_reason = reason, rt_error_code = None\<rparr>"
| "closing_event (RunBroken h code) = RunFailed \<lparr>rt_reason = code, rt_error_code = Some code\<rparr>"

fun within_limits :: "agent_limits \<Rightarrow> run_outcome \<Rightarrow> bool" where
  "within_limits limits (RunDone h u) = (\<not> limits_exceeded limits u)"
| "within_limits limits _ = True"

definition ends_with_outcome ::
    "('e list \<Rightarrow> bool) \<Rightarrow> (run_outcome \<Rightarrow> 'e) \<Rightarrow> (run_outcome \<Rightarrow> bool) \<Rightarrow> run_outcome \<Rightarrow> 'e list \<Rightarrow> bool" where
  "ends_with_outcome L close D outcome es \<longleftrightarrow> (\<exists>pre. es = pre @ [close outcome] \<and> L pre) \<and> D outcome"

definition ends_at where
  "ends_at log L E D m s \<longleftrightarrow> traces_at log m s (\<lambda>r es. case r of
      Inr outcome \<Rightarrow> ends_with_outcome L closing_event D outcome es | Inl _ \<Rightarrow> E es)"

definition halts_at where
  "halts_at log L E D m s \<longleftrightarrow> traces_at log m s (\<lambda>r es. case r of
      Inr (Halt outcome) \<Rightarrow> ends_with_outcome L closing_event D outcome es | Inr (Go _) \<Rightarrow> L es | Inl _ \<Rightarrow> E es)"

context agent_sink
begin

lemma emit_traces: "traces_at log (en_emit env e x) s (\<lambda>r es. es = (case r of Inr _ \<Rightarrow> [e] | Inl _ \<Rightarrow> []))"
  by (cases "en_emit env e x s") (auto simp: traces_at_def dest!: emit_log split: sum.splits)

end

section \<open>Runs in a language\<close>

locale agent_language = agent_sink env log + language L E
  for env :: "('s, 'h) agent_env" and log :: "'s \<Rightarrow> canonical_event list"
    and L E :: "canonical_event list \<Rightarrow> bool" +
  fixes rq :: agent_request
  assumes plain: "plain_event e \<Longrightarrow> L [e]"
    and batch: "speaks log L E (\<lambda>_. True) (execute_tool_batch env snap (gr_tool_names rq) calls)"
begin

lemma emit_speaks: "plain_event e \<Longrightarrow> speaks log L E (\<lambda>_. True) (en_emit env e x)"
  by (intro speaksI traces_weaken [OF emit_traces]) (auto simp: plain E_nil split: sum.splits)

lemma quiet_says: "quiet_action log m \<Longrightarrow> speaks log L E (\<lambda>_. True) m"
  by (rule quiet_speaks) (simp_all add: L_nil E_nil)

lemma read_says: "speaks log L E (\<lambda>_. True) (act_read f)"
  by (rule speaks_read) simp

lemma ends_after: "L pre \<Longrightarrow> ends_with_outcome L close D outcome es \<Longrightarrow> ends_with_outcome L close D outcome (pre @ es)"
  unfolding ends_with_outcome_def using L_append by (metis append_assoc)

lemma halts_bind:
  assumes "speaks log L E P m" and "\<And>x s1. m s = (Inr x, s1) \<Longrightarrow> P x \<Longrightarrow> halts_at log L E D (f x) s1"
  shows "halts_at log L E D (act_bind m f) s"
  unfolding halts_at_def
proof (rule traces_bind_at [OF speaksD [OF assms(1)]])
  show "traces_at log (f x) s1 (\<lambda>r es. case r of Inl _ \<Rightarrow> E es
      | Inr (Halt outcome) \<Rightarrow> ends_with_outcome L closing_event D outcome es | Inr (Go _) \<Rightarrow> L es)"
    if "m s = (Inr x, s1)" "P x" for x s1
    using assms(2) [OF that] by (simp add: halts_at_def)
qed (auto intro: ends_after L_append L_E split: sum.splits step_result.splits)

lemma ends_bind:
  assumes "speaks log L E P m" and "\<And>x s1. m s = (Inr x, s1) \<Longrightarrow> P x \<Longrightarrow> ends_at log L E D (f x) s1"
  shows "ends_at log L E D (act_bind m f) s"
  unfolding ends_at_def
proof (rule traces_bind_at [OF speaksD [OF assms(1)]])
  show "traces_at log (f x) s1 (\<lambda>r es. case r of Inl _ \<Rightarrow> E es
      | Inr outcome \<Rightarrow> ends_with_outcome L closing_event D outcome es)"
    if "m s = (Inr x, s1)" "P x" for x s1
    using assms(2) [OF that] by (simp add: ends_at_def)
qed (auto intro: ends_after L_E split: sum.splits)

lemma halts_go_bind:
  assumes "halts_at log L E D m s" and "\<And>x s1. halts_at log L E D (f x) s1"
  shows "halts_at log L E D (go_bind m f) s"
  unfolding go_bind_def halts_at_def
proof (rule traces_bind [OF assms(1) [unfolded halts_at_def]])
  fix x s1 assume "m s = (Inr x, s1)"
  show "traces_at log (case x of Halt outcome \<Rightarrow> act_ok (Halt outcome) | Go y \<Rightarrow> f y) s1
     (\<lambda>r es. case x of
        Halt outcome \<Rightarrow> es = [] \<and> r = Inr (Halt outcome)
      | Go y \<Rightarrow> (case r of Inl _ \<Rightarrow> E es
          | Inr (Halt outcome) \<Rightarrow> ends_with_outcome L closing_event D outcome es | Inr (Go _) \<Rightarrow> L es))"
    using assms(2) by (cases x) (auto simp: halts_at_def intro: traces_ok)
qed (auto intro: ends_after L_append L_E split: sum.splits step_result.splits)

lemma halts_halt: "ends_at log L E D m s \<Longrightarrow> halts_at log L E D (halt m) s"
  unfolding halt_def halts_at_def ends_at_def
  by (erule traces_bind [where ?R2.0 = "\<lambda>outcome r es. es = [] \<and> r = Inr (Halt outcome)"])
     (auto intro: traces_ok split: sum.splits)

lemma halts_go: "halts_at log L E D (act_ok (Go x)) s"
  unfolding halts_at_def by (intro traces_ok) (simp add: L_nil)

text \<open>A turn, and the loop around it.\<close>

lemma ends_step_bind:
  assumes "halts_at log L E D m s" and "\<And>x s1. ends_at log L E D (f x) s1"
  shows "ends_at log L E D (act_bind m (\<lambda>r. case r of Halt outcome \<Rightarrow> act_ok outcome | Go x \<Rightarrow> f x)) s"
  unfolding ends_at_def
proof (rule traces_bind [OF assms(1) [unfolded halts_at_def]])
  fix x s1 assume "m s = (Inr x, s1)"
  show "traces_at log (case x of Halt outcome \<Rightarrow> act_ok outcome | Go y \<Rightarrow> f y) s1
     (\<lambda>r es. case x of
        Halt outcome \<Rightarrow> es = [] \<and> r = Inr outcome
      | Go y \<Rightarrow> (case r of Inl _ \<Rightarrow> E es | Inr outcome \<Rightarrow> ends_with_outcome L closing_event D outcome es))"
    using assms(2) by (cases x) (auto simp: ends_at_def intro: traces_ok)
qed (auto intro: ends_after L_E split: sum.splits step_result.splits)

subsection \<open>The pieces of a run\<close>

lemma close_ends:
  assumes "closing_event outcome = e" "D outcome"
  shows "ends_at log L E D (act_bind (emit env e) (\<lambda>_. act_ok outcome)) s"
  unfolding ends_at_def emit_def
  by (rule traces_bind [OF emit_traces, where ?R2.0 = "\<lambda>_ r es. es = [] \<and> r = Inr outcome"])
     (auto intro: traces_ok simp: assms ends_with_outcome_def L_nil E_nil)

lemma cancelled_ends: "ends_at log L E (within_limits limits) (finish_cancelled env h reason) s"
  unfolding finish_cancelled_def by (rule close_ends) simp_all

lemma failed_ends: "ends_at log L E (within_limits limits) (finish_failed env h code) s"
  unfolding finish_failed_def by (rule close_ends) simp_all

lemmas stops = halts_halt [OF cancelled_ends] halts_halt [OF failed_ends]

lemma halts_moved: "halts_at log L E D g s1 \<Longrightarrow> log s1 = log s \<Longrightarrow> m s = g s1 \<Longrightarrow> halts_at log L E D m s"
  by (simp add: halts_at_def traces_at_def)

lemma halts_Go: "m s = (Inr (Go x), s1) \<Longrightarrow> log s1 = log s \<Longrightarrow> halts_at log L E D m s"
  by (simp add: halts_at_def traces_at_def L_nil)

lemma open_stream_halts: "halts_at log L E (within_limits limits) (open_stream env mr h n attempt) s"
proof (induction "n - attempt" arbitrary: attempt s rule: less_induct)
  case (less attempt s)
  obtain r s1 where st: "en_stream env mr s = (r, s1)" by fastforce
  note s1 = quiet_step [OF stream_quiet st]
  show ?case
  proof (cases r)
    case (Inr steps)
    with st s1 show ?thesis by (intro halts_Go [where ?s1.0 = s1]) auto
  next
    case (Inl e)
    show ?thesis
    proof (cases "pv_retryable e \<and> attempt < n")
      case False
      with Inl st show ?thesis by (intro halts_moved [OF stops(2) s1]) auto
    next
      case True
      obtain c s2 where b: "en_backoff env (attempt + 1) s1 = (c, s2)" by fastforce
      note s2 = quiet_step [OF backoff_quiet b]
      show ?thesis
      proof (cases c)
        case None
        from True have "halts_at log L E (within_limits limits) (open_stream env mr h n (attempt + 1)) s2"
          by (intro less) auto
        with True None Inl st b s1 s2 show ?thesis by (elim halts_moved) auto
      next
        case (Some reason)
        with True Inl st b s1 s2 show ?thesis by (intro halts_moved [OF stops(1), of s2]) auto
      qed
    qed
  qed
qed

lemma reserve_halts: "halts_at log L E (within_limits limits) (reserve_or_fail env h u) s"
proof (cases "en_reserve_usage env u s")
  case (Pair r s1)
  note s1 = quiet_step [OF reserve_quiet Pair]
  consider (ok) x where "r = Inr x" | (refused) e where "r = Inl (Fault e)" | (panic) p where "r = Inl (Panic p)"
    by (cases r; metis fault.exhaust)
  then show ?thesis
  proof cases
    case ok
    with Pair s1 show ?thesis by (intro halts_Go [where ?s1.0 = s1]) (auto simp: reserve_or_fail_def)
  next
    case refused
    with Pair show ?thesis by (intro halts_moved [OF stops(2) s1]) (auto simp: reserve_or_fail_def)
  next
    case panic
    with Pair s1 show ?thesis by (simp add: reserve_or_fail_def halts_at_def traces_at_def E_nil)
  qed
qed

lemma read_event_halts: "halts_at log L E (within_limits limits) (read_event env h e rd) s"
  by (cases e) (auto intro!: halts_bind [OF emit_speaks] halts_go halts_go_bind reserve_halts simp: emit_def)

lemma read_stream_halts: "halts_at log L E (within_limits limits) (read_stream env mr h n attempt steps rd) s"
proof (induction "n - attempt" arbitrary: attempt steps rd s rule: less_induct)
  case (less attempt steps rd s)
  show ?case
  proof (induction steps arbitrary: rd s)
    case Nil
    show ?case by (rule halts_Go) simp_all
  next
    case (Cons step steps rd s)
    show ?case
    proof (cases step)
      case (StreamEvent e)
      have "halts_at log L E (within_limits limits) (go_bind (read_event env h e rd)
          (read_stream env mr h n attempt steps)) s"
        by (rule halts_go_bind [OF read_event_halts]) (rule Cons.IH)
      then show ?thesis
        using StreamEvent by (cases e) (auto intro: halts_Go elim: halts_moved)
    next
      case (StreamCancelled reason)
      then show ?thesis by (intro halts_moved [OF stops(1) refl]) simp
    next
      case (StreamError e)
      show ?thesis
      proof (cases "pv_retryable e \<and> \<not> rd_progressed rd \<and> attempt < n")
        case False
        with StreamError show ?thesis by (intro halts_moved [OF stops(2) refl]) auto
      next
        case True
        obtain c s1 where b: "en_backoff env (attempt + 1) s = (c, s1)" by fastforce
        note s1 = quiet_step [OF backoff_quiet b]
        obtain r s2 where st: "en_stream env mr s1 = (r, s2)" by fastforce
        note s2 = quiet_step [OF stream_quiet st]
        from True have retry: "halts_at log L E (within_limits limits) (read_stream env mr h n (attempt + 1) new rd) s2" for new
          by (intro less) auto
        show ?thesis
        proof (cases c)
          case (Some reason)
          with True StreamError b show ?thesis by (intro halts_moved [OF stops(1) s1]) auto
        next
          case None
          with True StreamError b st s1 s2 show ?thesis
            by (cases r) (auto intro: halts_moved [OF retry] halts_moved [OF stops(2)])
        qed
      qed
    qed
  qed
qed

lemma summary_speaks: "speaks log L E (\<lambda>_. True) (wanted_summary env c h)"
proof -
  have quiet: "quiet_action log (summary_or_none (en_summarize env cs k))" for cs k
    using summarize_quiet [of cs k]
    by (auto simp: quiet_action_def summary_or_none_def split: prod.split sum.split fault.split) (metis snd_conv)+
  show ?thesis
    by (auto simp: wanted_summary_def Let_def intro!: speaks_ok
        speaks_bind [OF quiet_says [OF before_quiet]] quiet_says [OF quiet])
qed

lemma compact_speaks: "speaks log L E (\<lambda>_. True) (compact_turn env c h)"
  by (auto simp: compact_turn_def Let_def emit_def
      intro!: speaks_ok speaks_bind [OF summary_speaks] speaks_bind [OF emit_speaks])

lemma drain_speaks: "speaks log L E (\<lambda>_. True) (en_drain_steers env)"
  by (rule quiet_says [OF drain_quiet])

lemma read_model_halts: "halts_at log L E (within_limits limits) (read_model env q st h) s"
  unfolding read_model_def
  by (rule halts_bind [OF read_says])
     (auto intro!: halts_go_bind open_stream_halts read_stream_halts)

lemma final_answer_halts:
  assumes "\<not> limits_exceeded limits (ts_usage st)"
  shows "halts_at log L E (within_limits limits) (final_answer env is_last st) s"
proof -
  have completes: "halts_at log L E (within_limits limits)
      (act_bind (emit env (RunCompleted \<lparr>rt_reason = ''stop'', rt_error_code = None\<rparr>))
        (\<lambda>_. act_ok (Halt (RunDone h (ts_usage st))))) s" for h s
    unfolding halts_at_def emit_def
    by (rule traces_bind [OF emit_traces, where ?R2.0 = "\<lambda>_ r es. es = [] \<and> r = Inr (Halt (RunDone h (ts_usage st)))"])
       (auto intro: traces_ok simp: assms ends_with_outcome_def L_nil E_nil)
  show ?thesis
    unfolding final_answer_def
    by (rule halts_bind [OF drain_speaks]) (auto simp: Let_def intro: completes stops halts_go)
qed

lemma run_tools_halts: "halts_at log L E (within_limits limits) (run_tools env rq is_last calls st) s"
  unfolding run_tools_def
  by (rule halts_bind [OF batch [of "ts_history st" calls]])
     (auto simp: Let_def intro: stops halts_go split: option.split)

lemma answer_halts: "halts_at log L E (within_limits (gr_limits rq)) (answer_turn env rq is_last h rd) s"
proof (cases "over_budget (gr_limits rq) rd")
  case True
  then show ?thesis by (simp add: answer_turn_def stops)
next
  case False
  then have "\<not> limits_exceeded (gr_limits rq) (rd_total_usage rd)" by (simp add: over_budget_def)
  with False show ?thesis
    by (auto simp: answer_turn_def Let_def emit_def
        intro!: halts_bind [OF emit_speaks] final_answer_halts run_tools_halts)
qed

lemma turn_halts: "halts_at log L E (within_limits (gr_limits rq)) (turn env rq is_last st) s"
  unfolding turn_def
  by (rule halts_bind [OF read_says])
     (auto intro!: stops halts_bind [OF drain_speaks] halts_bind [OF compact_speaks] halts_go_bind
        read_model_halts answer_halts split: option.split)

lemma turns_end: "ends_at log L E (within_limits (gr_limits rq)) (turns env rq n st) s"
proof (induction n arbitrary: st s)
  case 0
  show ?case by (simp add: ends_at_def) (intro traces_fail, simp add: E_nil)
next
  case (Suc n)
  show ?case by (simp, rule ends_step_bind [OF turn_halts]) (rule Suc.IH)
qed

lemma begin_speaks: "speaks log L E (\<lambda>_. True) (begin_run env rq)"
  unfolding begin_run_def
  by (rule speaks_bind [where P = "\<lambda>_. True"])
     (auto simp: Let_def emit_def intro!: speaks_ok quiet_says [OF load_quiet]
        speaks_bind [OF read_says] speaks_bind [OF emit_speaks])

text \<open>The contract of a run.\<close>

lemma run_ends: "ends_at log L E (within_limits (gr_limits rq)) (run env rq) s"
  unfolding run_def by (rule ends_bind [OF begin_speaks]) (auto intro: failed_ends turns_end)

end

end
