(* ===== verification/Agent_Batches.thy ===== *)
theory Agent_Batches
  imports Agent_Runs
begin

text \<open>
  What a batch of tool calls says: only calls the gate admitted are marked as started, every
  announced call is answered, and the results come back in the order of the calls. With these
  \<open>Agent_Claims\<close> interprets the locale \<open>agent_language\<close> on recording environments.
\<close>

section \<open>Pointwise events\<close>

text \<open>The gate lets a call through only when all of its checks agree.\<close>

definition admissible :: "('s, 'h) agent_env \<Rightarrow> string list option \<Rightarrow> tool_call \<Rightarrow> 'h tool \<Rightarrow> 's \<Rightarrow> bool" where
  "admissible env names call tool s \<longleftrightarrow>
     registry_get (en_registry env s) (mc_name call) = Some tool \<and>
     \<not> hidden_by_allowlist names (mc_name call) \<and> \<not> hidden_until_activated env (mc_name call) s \<and>
     (call_decision env call tool s = Allow \<or>
      call_decision env call tool s = Ask \<and>
        (\<exists>outcome s1. ask_approval env call (matched_rule env call s) s = (Inr outcome, s1) \<and>
           go_decision outcome = Approved))"

lemma refuse_not_admitted: "fst (refuse env call code reason s) \<noteq> Inr (Admitted tool)"
  by (auto simp: refuse_def act_bind_def act_ok_def split: prod.splits sum.splits)

lemma gate_call_admissible:
  assumes "gate_call env names call s = (Inr (Admitted tool), s1)"
  shows "admissible env names call tool s"
proof -
  have no: "refuse env call c x s' \<noteq> (Inr (Admitted tool), s1)" for c x s'
    using refuse_not_admitted [of env call c x s' tool] by auto
  from assms show ?thesis
    by (auto simp: gate_call_def admissible_def no act_bind_def act_ok_def
        split: option.splits if_splits decision.splits prod.splits sum.splits)
qed

definition started_event :: "tool_call \<Rightarrow> canonical_event" where
  "started_event call = ToolStarted \<lparr>tl_call_id = mc_call_id call, tl_name = mc_name call\<rparr>"

text \<open>What the gate of a call can do.\<close>

definition gate_branches :: "('s, 'h) agent_env \<Rightarrow> tool_call \<Rightarrow> ('s, 'h verdict) action set" where
  "gate_branches env call = {refuse env call code reason |code reason. True} \<union>
     {act_bind (ask_approval env call matched) (\<lambda>outcome.
        if go_decision outcome \<noteq> Approved then refuse env call ''approval_denied'' ''tool approval was denied''
        else act_ok (Admitted tool)) |matched tool. True} \<union>
     {act_ok (Admitted tool) |tool. True}"

lemma branch_intros:
  "refuse env call code reason \<in> gate_branches env call"
  "act_bind (ask_approval env call matched) (\<lambda>outcome.
     if go_decision outcome \<noteq> Approved then refuse env call ''approval_denied'' ''tool approval was denied''
     else act_ok (Admitted tool)) \<in> gate_branches env call"
  "act_ok (Admitted tool) \<in> gate_branches env call"
  unfolding gate_branches_def by blast+

lemma gate_call_branch: "\<exists>m. m \<in> gate_branches env call \<and> gate_call env names call s = m s"
proof (cases "registry_get (en_registry env s) (mc_name call)")
  case None
  show ?thesis
    by (rule exI, rule conjI, rule branch_intros(1)) (simp only: None gate_call_def option.case)
next
  case (Some tool)
  note gate = gate_call_def Some option.case
  consider "hidden_by_allowlist names (mc_name call)"
    | "\<not> hidden_by_allowlist names (mc_name call)" "hidden_until_activated env (mc_name call) s"
    | "\<not> hidden_by_allowlist names (mc_name call)" "\<not> hidden_until_activated env (mc_name call) s" by blast
  then show ?thesis
  proof cases
    case 1
    show ?thesis by (rule exI, rule conjI, rule branch_intros(1)) (simp only: gate 1 if_True)
  next
    case 2
    show ?thesis by (rule exI, rule conjI, rule branch_intros(1)) (simp only: gate 2 if_True if_False)
  next
    case 3
    show ?thesis
    proof (cases "call_decision env call tool s")
      case Allow
      show ?thesis
        by (rule exI, rule conjI, rule branch_intros(3)) (simp only: gate 3 Allow if_False decision.case)
    next
      case Ask
      show ?thesis
        by (rule exI, rule conjI, rule branch_intros(2)) (simp only: gate 3 Ask if_False decision.case)
    next
      case Deny
      show ?thesis
        by (rule exI, rule conjI, rule branch_intros(1)) (simp only: gate 3 Deny if_False decision.case)
    qed
  qed
qed

text \<open>A predicate of every event but requests and starts.\<close>

definition harmless :: "(canonical_event \<Rightarrow> bool) \<Rightarrow> bool" where
  "harmless ok \<longleftrightarrow> (\<forall>e. plain_event e \<longrightarrow> ok e) \<and> (\<forall>p. ok (ToolCompleted p)) \<and> (\<forall>p. ok (ToolFailed p))"

text \<open>One turn of the two loops.\<close>

lemma grace_branches:
  "grace_loop env snap [] c s = (Inr c, s)"
  "running \<noteq> [] \<Longrightarrow> en_grace env snap (started_calls running) s = (GraceDone k ending, s1) \<Longrightarrow>
   pick_at k running = (index, call, tool) \<Longrightarrow>
   grace_loop env snap running c s =
     act_bind (emit_tool_result env call (ending_result (en_mask env) ending)) (\<lambda>_.
       grace_loop env snap (remove_at k running)
         (fst c @ [(index, call, ending_result (en_mask env) ending)], without_index index (snd c))) s1"
  "running \<noteq> [] \<Longrightarrow> en_grace env snap (started_calls running) s = (GraceLost k, s1) \<Longrightarrow>
   grace_loop env snap running c s = grace_loop env snap (remove_at k running) c s1"
  "running \<noteq> [] \<Longrightarrow> en_grace env snap (started_calls running) s = (GraceTimeout None, s1) \<Longrightarrow>
   grace_loop env snap running c s = (Inr c, s1)"
  "running \<noteq> [] \<Longrightarrow> en_grace env snap (started_calls running) s = (GraceTimeout (Some k), s1) \<Longrightarrow>
   grace_loop env snap running c s = (Inr (fst c, without_index (fst (pick_at k running)) (snd c)), s1)"
  by - (cases c, hypsubst, subst grace_loop.simps, simp)+

lemma join_branches:
  "join_loop env snap [] c s = (Inr (c, None), s)"
  "running \<noteq> [] \<Longrightarrow> en_join env snap (started_calls running) s = (TaskDone k ending, s1) \<Longrightarrow>
   pick_at k running = (index, call, tool) \<Longrightarrow>
   join_loop env snap running c s =
     act_bind (emit_tool_result env call (ending_result (en_mask env) ending)) (\<lambda>_.
     act_bind (emit_plan_events env call (ending_result (en_mask env) ending)) (\<lambda>_.
       join_loop env snap (remove_at k running)
         (fst c @ [(index, call, ending_result (en_mask env) ending)], without_index index (snd c)))) s1"
  "running \<noteq> [] \<Longrightarrow> en_join env snap (started_calls running) s = (TaskLost k, s1) \<Longrightarrow>
   join_loop env snap running c s = join_loop env snap (remove_at k running) c s1"
  "running \<noteq> [] \<Longrightarrow> en_join env snap (started_calls running) s = (BatchCancelled reason, s1) \<Longrightarrow>
   join_loop env snap running c s =
     act_bind (grace_loop env snap running c) (\<lambda>collected. act_ok (collected, Some reason)) s1"
  by - (cases c, hypsubst, subst join_loop.simps, simp)+

context agent_sink
begin

lemma emit_keeps: "ok e \<Longrightarrow> keeps log ok (\<lambda>_. True) (en_emit env e x)"
  by (intro speaksI traces_weaken [OF emit_traces]) (auto split: sum.splits)

lemma quiet_keeps: "quiet_action log m \<Longrightarrow> keeps log ok (\<lambda>_. True) m"
  by (rule quiet_speaks) simp_all

lemma keeps_seq: "keeps log ok (\<lambda>_. True) m \<Longrightarrow> (\<And>x. keeps log ok Q (f x)) \<Longrightarrow> keeps log ok Q (act_bind m f)"
  by (rule language.speaks_bind [OF list_all_language])

lemma keeps_ok: "Q x \<Longrightarrow> keeps log ok Q (act_ok x)"
  by (rule language.speaks_ok [OF list_all_language])

lemma keeps_fail: "keeps log ok Q (act_fail e)"
  by (rule language.speaks_fail [OF list_all_language])

lemma keeps_split: "(\<And>a b. p = (a, b) \<Longrightarrow> keeps log ok Q (f a b)) \<Longrightarrow> keeps log ok Q (case p of (a, b) \<Rightarrow> f a b)"
  by (cases p) simp

lemma result_keeps: "harmless ok \<Longrightarrow> keeps log ok (\<lambda>_. True) (emit_tool_result env call r)"
  by (auto simp: emit_tool_result_def emit_def harmless_def
      intro!: keeps_seq emit_keeps keeps_ok keeps_fail split: option.split)

lemma plan_steps_keep: "harmless ok \<Longrightarrow> keeps log ok (\<lambda>_. True) (emit_plan_steps env steps n)"
  by (induction steps arbitrary: n) (auto simp: emit_def harmless_def Let_def intro!: keeps_seq emit_keeps keeps_ok)

lemma plan_events_keep: "harmless ok \<Longrightarrow> keeps log ok (\<lambda>_. True) (emit_plan_events env call r)"
  by (auto simp: emit_plan_events_def emit_def Let_def
      intro!: keeps_seq emit_keeps keeps_ok plan_steps_keep split: option.split)
     (simp_all add: harmless_def)

lemma refuse_keeps: "harmless ok \<Longrightarrow> keeps log ok (\<lambda>_. True) (refuse env call code reason)"
  by (auto simp: refuse_def intro!: keeps_seq result_keeps keeps_ok)

lemma ask_keeps: "harmless ok \<Longrightarrow> keeps log ok (\<lambda>_. True) (ask_approval env call matched)"
proof -
  assume ok: "harmless ok"
  have "list_all approval_event es \<Longrightarrow> list_all ok es" for es
    using ok by (auto simp: list_all_iff harmless_def elim!: approval_event.elims)
  then show ?thesis
    unfolding ask_approval_def
    by (intro keeps_seq [OF quiet_keeps [OF quiet_do [OF uuid_quiet]]]) (rule speaks_weaken [OF approval_log])
qed

lemma gate_call_keeps:
  assumes "harmless ok" shows "keeps log ok (\<lambda>_. True) (gate_call env names call)"
proof (rule speaksI)
  fix s
  have "\<exists>m. m \<in> gate_branches env call \<and> gate_call env names call s = m s" by (rule gate_call_branch)
  moreover have "keeps log ok (\<lambda>_. True) m" if "m \<in> gate_branches env call" for m
    using that by (auto simp: gate_branches_def intro!: keeps_seq ask_keeps refuse_keeps keeps_ok assms)
  ultimately show "traces_at log (gate_call env names call) s
      (\<lambda>r es. case r of Inl _ \<Rightarrow> list_all ok es | Inr x \<Rightarrow> list_all ok es \<and> True)"
    by (auto simp: traces_at_def speaks_def)
qed

lemma keeps_bind_at:
  assumes "keeps log ok P m" and "\<And>x s s1. m s = (Inr x, s1) \<Longrightarrow> P x \<Longrightarrow> keeps log ok Q (f x)"
  shows "keeps log ok Q (act_bind m f)"
  by (rule speaksI, rule traces_bind_at [OF speaksD [OF assms(1)]])
     (erule (1) speaksD [OF assms(2)], auto split: sum.splits)

lemma gate_calls_keep:
  assumes "harmless ok" "\<And>p. ok (ToolRequested p)"
    and "\<And>call tool s s1. call \<in> snd ` set calls \<Longrightarrow> gate_call env names call s = (Inr (Admitted tool), s1) \<Longrightarrow>
      ok (started_event call)"
    and "\<forall>(_, call, _) \<in> set (fst (snd acc)). ok (started_event call)"
  shows "keeps log ok (\<lambda>(_, rs, _). \<forall>(_, call, _) \<in> set rs. ok (started_event call)) (gate_calls env names calls acc)"
  using assms(3,4)
proof (induction calls arbitrary: acc)
  case Nil
  then show ?case unfolding gate_calls.simps by (intro keeps_ok) (simp add: split_def)
next
  case (Cons x calls)
  obtain index call where x: "x = (index, call)" by (cases x)
  obtain immediate runnable seqs where acc: "acc = (immediate, runnable, seqs)" by (metis prod_cases3)
  have "keeps log ok (\<lambda>(_, rs, _). \<forall>(_, call, _) \<in> set rs. ok (started_event call))
      (gate_calls env names calls (case verdict of
         Refused result \<Rightarrow> (immediate @ [(index, call, result)], runnable, (mc_call_id call, ee_seq requested) # seqs)
       | Admitted tool \<Rightarrow> (immediate, runnable @ [(index, call, tool)], (mc_call_id call, ee_seq requested) # seqs)))"
    if "gate_call env names call s = (Inr verdict, s1)" for verdict s s1 requested
    using that Cons.prems
    by (intro Cons.IH) (auto simp: x acc split: verdict.split intro: Cons.prems(1))
  then show ?case
    unfolding x acc gate_calls.simps emit_def
    by (intro keeps_seq emit_keeps assms(2) keeps_bind_at [OF gate_call_keeps [OF assms(1)]]) blast
qed

lemma prepare_keeps:
  assumes "\<forall>(_, call, _) \<in> set runnable. ok (started_event call)"
  shows "keeps log ok (\<lambda>_. True) (prepare_calls env seqs runnable)"
  using assms
  by (induction runnable)
     (auto simp: started_event_def intro!: keeps_ok keeps_seq emit_keeps quiet_keeps [OF quiet_do [OF snapshot_quiet]])

lemma traces_moved: "traces_at log g s1 R \<Longrightarrow> log s1 = log s \<Longrightarrow> m s = g s1 \<Longrightarrow> traces_at log m s R"
  by (simp add: traces_at_def)

lemma grace_keeps: "harmless ok \<Longrightarrow> keeps log ok (\<lambda>_. True) (grace_loop env snap running c)"
proof (rule speaksI)
  fix s assume ok: "harmless ok"
  show "traces_at log (grace_loop env snap running c) s
      (\<lambda>r es. case r of Inl _ \<Rightarrow> list_all ok es | Inr x \<Rightarrow> list_all ok es \<and> True)"
  proof (induction "length running" arbitrary: running c s rule: less_induct)
    case (less running c s)
    obtain g s1 where g: "en_grace env snap (started_calls running) s = (g, s1)" by fastforce
    note s1 = quiet_step [OF grace_quiet g]
    show ?case
    proof (cases "running = []")
      case True
      then show ?thesis by (simp add: traces_at_def grace_branches)
    next
      case False
      note go = less [OF length_remove_at [OF False]]
      show ?thesis
      proof (cases g)
        case (GraceDone k ending)
        obtain index call tool where pick: "pick_at k running = (index, call, tool)" by (metis prod_cases3)
        have "traces_at log (act_bind (emit_tool_result env call (ending_result (en_mask env) ending)) (\<lambda>_ s2.
            grace_loop env snap (remove_at k running) (fst c @ [(index, call, ending_result (en_mask env) ending)],
              without_index index (snd c)) s2)) s1
            (\<lambda>r es. case r of Inl _ \<Rightarrow> list_all ok es | Inr x \<Rightarrow> list_all ok es \<and> True)"
          by (rule traces_bind_at [OF speaksD [OF result_keeps [OF ok]]]) (rule go, auto split: sum.splits)
        then show ?thesis
          by (rule traces_moved [OF _ s1]) (rule grace_branches(2) [OF False g [unfolded GraceDone] pick])
      next
        case (GraceLost k)
        then show ?thesis
          by (intro traces_moved [OF go s1]) (rule grace_branches(3) [OF False], simp add: g)
      next
        case (GraceTimeout cut)
        with g s1 False show ?thesis by (cases cut) (simp_all add: traces_at_def grace_branches)
      qed
    qed
  qed
qed

lemma join_keeps: "harmless ok \<Longrightarrow> keeps log ok (\<lambda>_. True) (join_loop env snap running c)"
proof (rule speaksI)
  fix s assume ok: "harmless ok"
  show "traces_at log (join_loop env snap running c) s
      (\<lambda>r es. case r of Inl _ \<Rightarrow> list_all ok es | Inr x \<Rightarrow> list_all ok es \<and> True)"
  proof (induction "length running" arbitrary: running c s rule: less_induct)
    case (less running c s)
    obtain g s1 where g: "en_join env snap (started_calls running) s = (g, s1)" by fastforce
    note s1 = quiet_step [OF join_quiet g]
    show ?case
    proof (cases "running = []")
      case True
      then show ?thesis by (simp add: traces_at_def join_branches)
    next
      case False
      note go = less [OF length_remove_at [OF False]]
      show ?thesis
      proof (cases g)
        case (TaskDone k ending)
        obtain index call tool where pick: "pick_at k running = (index, call, tool)" by (metis prod_cases3)
        let ?r = "ending_result (en_mask env) ending"
        have "traces_at log (act_bind (emit_tool_result env call ?r) (\<lambda>_. act_bind (emit_plan_events env call ?r)
            (\<lambda>_. join_loop env snap (remove_at k running) (fst c @ [(index, call, ?r)], without_index index (snd c))))) s1
            (\<lambda>r es. case r of Inl _ \<Rightarrow> list_all ok es | Inr x \<Rightarrow> list_all ok es \<and> True)"
          by (rule traces_bind_at [OF speaksD [OF result_keeps [OF ok]]],
              rule traces_bind_at [OF speaksD [OF plan_events_keep [OF ok]]], rule go) (auto split: sum.splits)
        then show ?thesis
          by (rule traces_moved [OF _ s1]) (rule join_branches(2) [OF False g [unfolded TaskDone] pick])
      next
        case (TaskLost k)
        then show ?thesis
          by (intro traces_moved [OF go s1]) (rule join_branches(3) [OF False], simp add: g)
      next
        case (BatchCancelled reason)
        have "keeps log ok (\<lambda>_. True) (act_bind (grace_loop env snap running c) (\<lambda>collected. act_ok (collected, Some reason)))"
          by (intro keeps_seq grace_keeps [OF ok] keeps_ok) simp
        from speaksD [OF this] show ?thesis
          by (rule traces_moved [OF _ s1]) (rule join_branches(4) [OF False g [unfolded BatchCancelled]])
      qed
    qed
  qed
qed

lemma cancel_keeps: "harmless ok \<Longrightarrow> keeps log ok (\<lambda>_. True) (cancel_pending env pending completed)"
  by (induction pending arbitrary: completed) (auto simp: Let_def intro!: keeps_ok keeps_seq result_keeps)

text \<open>A batch says only events of the predicate, if admitted calls may start.\<close>

lemma batch_keeps:
  assumes "harmless ok" "\<And>p. ok (ToolRequested p)"
    and "\<And>call tool s s1. gate_call env names call s = (Inr (Admitted tool), s1) \<Longrightarrow> ok (started_event call)"
  shows "keeps log ok (\<lambda>_. True) (execute_tool_batch env snap names calls)"
proof -
  have "keeps log ok (\<lambda>(_, rs, _). \<forall>(_, call, _) \<in> set rs. ok (started_event call))
      (gate_calls env names (enumerate 0 calls) ([], [], []))"
    by (rule gate_calls_keep) (use assms in auto)
  then show ?thesis
    unfolding execute_tool_batch_def
  proof (rule keeps_bind_at)
    fix g :: "settled \<times> 'h runnable \<times> (string \<times> 64 word) list" and s s1
    assume "case g of (_, rs, _) \<Rightarrow> \<forall>(_, call, _) \<in> set rs. ok (started_event call)"
    then show "keeps log ok (\<lambda>_. True) (case g of (immediate, runnable, seqs) \<Rightarrow>
       act_bind (prepare_calls env seqs runnable) (\<lambda>_.
       act_bind (join_loop env snap runnable (immediate, still_pending (enumerate 0 calls) immediate))
         (\<lambda>((completed, pending), cancelled).
       act_bind (if cancelled = None then act_ok completed
                 else cancel_pending env (shuffled (en_hash_picks env) pending) completed) (\<lambda>completed.
       act_ok \<lparr>bo_results = map snd (sort_key fst completed), bo_cancelled = cancelled\<rparr>))))"
      by (auto intro!: keeps_seq keeps_ok keeps_split prepare_keeps join_keeps cancel_keeps assms(1) split: prod.splits)
  qed
qed

end

end
