(* ===== verification/Agent_Answers.thy ===== *)
theory Agent_Answers
  imports Agent_Batches "HOL-Library.Multiset"
begin

text \<open>
  Every tool call a batch announces is answered by a result event, and the batch returns one
  result per call, in the order of the calls. Both need that a started task ends with a value
  (\<open>tasks_return\<close>): no task is lost, and the grace period after a cancellation does not
  expire while a result is being published.
\<close>

section \<open>Unanswered calls\<close>

fun answer_step :: "string set \<Rightarrow> canonical_event \<Rightarrow> string set" where
  "answer_step U (ToolRequested p) = insert (tr_call_id p) U"
| "answer_step U (ToolCompleted p) = U - {tc_call_id p}"
| "answer_step U (ToolFailed p) = U - {tf_call_id p}"
| "answer_step U _ = U"

definition unanswered :: "string set \<Rightarrow> canonical_event list \<Rightarrow> string set" where
  "unanswered U es = foldl answer_step U es"

definition answers :: "string set \<Rightarrow> canonical_event list \<Rightarrow> bool" where
  "answers ids es \<longleftrightarrow> (\<forall>U. unanswered U es \<subseteq> U - ids)"

definition tasks_return :: "('s, 'h) agent_env \<Rightarrow> bool" where
  "tasks_return env \<longleftrightarrow>
     (\<forall>snap cs s. (\<forall>k. fst (en_join env snap cs s) \<noteq> TaskLost k) \<and>
        (\<forall>k. fst (en_grace env snap cs s) \<noteq> GraceLost k \<and> fst (en_grace env snap cs s) \<noteq> GraceTimeout (Some k)))"

lemma unanswered_simps [simp]:
  "unanswered U [] = U" "unanswered U (e # es) = unanswered (answer_step U e) es"
  "unanswered U (es @ es') = unanswered (unanswered U es) es'"
  by (simp_all add: unanswered_def)

lemma answers_nil [simp]: "answers {} []"
  by (simp add: answers_def)

lemma answers_append: "answers A es \<Longrightarrow> answers B es' \<Longrightarrow> answers (A \<union> B) (es @ es')"
  unfolding answers_def unanswered_simps by blast

lemma answers_insert: "answers {i} es \<Longrightarrow> answers A es' \<Longrightarrow> answers (insert i A) (es @ es')"
  using answers_append [of "{i}" es A es'] by simp

lemma answers_anti: "answers A es \<Longrightarrow> B \<subseteq> A \<Longrightarrow> answers B es"
  unfolding answers_def by blast

fun requests_tool :: "canonical_event \<Rightarrow> bool" where
  "requests_tool (ToolRequested _) = True"
| "requests_tool _ = False"

lemma answer_step_subset: "\<not> requests_tool e \<Longrightarrow> answer_step U e \<subseteq> U"
  by (cases e) auto

lemma no_request_answers: "list_all (\<lambda>e. \<not> requests_tool e) es \<Longrightarrow> answers {} es"
proof -
  have "list_all (\<lambda>e. \<not> requests_tool e) es \<Longrightarrow> unanswered U es \<subseteq> U" for U
  proof (induction es arbitrary: U)
    case (Cons e es)
    then have "unanswered (answer_step U e) es \<subseteq> answer_step U e" "answer_step U e \<subseteq> U"
      using answer_step_subset [of e U] by simp_all
    then show ?case by auto
  qed simp
  then show "list_all (\<lambda>e. \<not> requests_tool e) es \<Longrightarrow> answers {} es" by (simp add: answers_def)
qed

lemma harmless_requests: "harmless (\<lambda>e. \<not> requests_tool e)"
  unfolding harmless_def by (auto elim: plain_event.elims)

section \<open>Lists with a marked element\<close>

lemma split_pick:
  assumes "xs \<noteq> []"
  obtains ys zs where "xs = ys @ pick_at k xs # zs" "remove_at k xs = ys @ zs"
proof -
  from assms have "k mod length xs < length xs" by simp
  from id_take_nth_drop [OF this] show thesis
    by (intro that [of "take (k mod length xs) xs" "drop (Suc (k mod length xs)) xs"])
       (simp_all add: pick_at_def remove_at_def)
qed

lemma mset_pick: "xs \<noteq> [] \<Longrightarrow> mset xs = add_mset (pick_at k xs) (mset (remove_at k xs))"
  by (erule split_pick [of _ k]) (metis mset_append mset.simps(2) union_mset_add_mset_right)

lemma mset_shuffled [simp]: "mset (shuffled ks xs) = mset xs"
proof (induction ks xs rule: shuffled.induct)
  case (1 k ks x xs)
  then show ?case by (simp del: mset.simps add: mset.simps(2) [of "pick_at k (x # xs)"]
        mset_pick [of "x # xs" k, symmetric])
qed simp_all

lemma without_index_distinct:
  assumes "distinct (map fst xs)" "(i, x) \<in> set xs"
  shows "mset xs = add_mset (i, x) (mset (without_index i xs))"
proof -
  from assms(2) obtain ys zs where xs: "xs = ys @ (i, x) # zs" by (auto dest: split_list)
  with assms(1) have "without_index i ys = ys" "without_index i zs = zs"
    by (auto simp: without_index_def filter_id_conv rev_image_eqI)
  then have "without_index i xs = ys @ zs" by (simp add: xs without_index_def)
  then show ?thesis by (simp add: xs)
qed

lemma distinct_without_index: "distinct (map fst xs) \<Longrightarrow> distinct (map fst (without_index i xs))"
  unfolding without_index_def by (rule distinct_map_filter)

definition call_key :: "nat \<times> tool_call \<times> 'a \<Rightarrow> nat \<times> tool_call" where
  "call_key x = (fst x, fst (snd x))"

lemma call_key_simp [simp]: "call_key (i, c, x) = (i, c)"
  by (simp add: call_key_def)

definition ids_of :: "(nat \<times> tool_call) set \<Rightarrow> string set" where
  "ids_of cs = (\<lambda>x. mc_call_id (snd x)) ` cs"

lemma sorted_by_index:
  assumes "mset (map call_key completed) = mset (enumerate 0 calls)"
  shows "map (fst \<circ> snd) (sort_key fst completed) = calls"
proof -
  have inj: "inj_on fst (set (enumerate 0 calls))"
    by (metis distinct_enumerate distinct_map map_fst_enumerate distinct_upt)
  let ?s = "map call_key (sort_key fst completed)"
  have "mset ?s = mset (enumerate 0 calls)" using assms by simp
  moreover have "map fst ?s = map fst (sort_key fst completed)" by (simp add: call_key_def)
  then have "sorted (map fst ?s)" by (metis sorted_sort_key)
  ultimately have "sort_key fst (enumerate 0 calls) = ?s"
    by (intro sort_key_inj_key_eq inj) simp_all
  moreover have "sort_key fst (enumerate 0 calls) = enumerate 0 calls"
    by (rule sort_key_inj_key_eq) (simp_all add: inj)
  ultimately have "map snd ?s = calls" by (metis map_snd_enumerate)
  then show ?thesis by (simp add: call_key_def comp_def)
qed

section \<open>The phases of a batch\<close>

lemma answers_one [simp]: "answers {tc_call_id p} [ToolCompleted p]" "answers {tf_call_id q} [ToolFailed q]"
  by (auto simp: answers_def)

text \<open>What collecting results leaves: pending calls are those not answered yet.\<close>

definition collected ::
    "settled \<times> (nat \<times> tool_call) list \<Rightarrow> settled \<times> (nat \<times> tool_call) list \<Rightarrow> canonical_event list \<Rightarrow> bool" where
  "collected c c' es \<longleftrightarrow> answers (ids_of (set (snd c) - set (snd c'))) es \<and> set (snd c') \<subseteq> set (snd c) \<and>
     mset (map call_key (fst c')) + mset (snd c') = mset (map call_key (fst c)) + mset (snd c)"

lemma collected_refl [simp]: "collected c c []"
  by (simp add: collected_def ids_of_def)

lemma collected_silent: "answers {} es \<Longrightarrow> collected c c es"
  by (simp add: collected_def ids_of_def)

lemma collected_trans: "collected a b es \<Longrightarrow> collected b c es' \<Longrightarrow> collected a c (es @ es')"
proof -
  assume ab: "collected a b es" and bc: "collected b c es'"
  then have "answers (ids_of (set (snd a) - set (snd b)) \<union> ids_of (set (snd b) - set (snd c))) (es @ es')"
    by (intro answers_append) (simp_all add: collected_def)
  then have "answers (ids_of (set (snd a) - set (snd c))) (es @ es')"
    by (rule answers_anti) (auto simp: ids_of_def)
  with ab bc show ?thesis by (auto simp: collected_def)
qed

text \<open>The result of a picked call is published and its entry leaves the pending calls.\<close>

lemma pick_collected:
  assumes "distinct (map fst (snd c))" "mset (map call_key running) = mset (snd c)" "running \<noteq> []"
    and "pick_at k running = (index, call, tool)"
  shows "distinct (map fst (without_index index (snd c)))"
    and "mset (map call_key (remove_at k running)) = mset (without_index index (snd c))"
    and "answers {mc_call_id call} es \<Longrightarrow> collected c (fst c @ [(index, call, r)], without_index index (snd c)) es"
proof -
  show "distinct (map fst (without_index index (snd c)))" by (rule distinct_without_index [OF assms(1)])
  have running: "mset (map call_key running) = add_mset (index, call) (mset (map call_key (remove_at k running)))"
    using mset_pick [OF assms(3), of k] by (simp add: assms(4))
  then have "(index, call) \<in># mset (snd c)" by (simp flip: assms(2))
  then have "(index, call) \<in> set (snd c)" by simp
  note removed = without_index_distinct [OF assms(1) this]
  from running removed assms(2) show "mset (map call_key (remove_at k running)) = mset (without_index index (snd c))"
    by simp
  have "set (snd c) = insert (index, call) (set (without_index index (snd c)))"
    using removed by (metis set_mset_add_mset_insert set_mset_mset)
  then have "ids_of (set (snd c) - set (without_index index (snd c))) \<subseteq> {mc_call_id call}"
    "set (without_index index (snd c)) \<subseteq> set (snd c)"
    by (auto simp: ids_of_def)
  with removed show "answers {mc_call_id call} es \<Longrightarrow>
      collected c (fst c @ [(index, call, r)], without_index index (snd c)) es"
    by (auto simp: collected_def intro: answers_anti)
qed

context agent_sink
begin

text \<open>A phase that cannot announce calls.\<close>

lemma silent_phase:
  assumes "\<And>ok. harmless ok \<Longrightarrow> keeps log ok (\<lambda>_. True) m"
  shows "speaks log (answers {}) (\<lambda>_. True) (\<lambda>_. True) m"
  by (rule speaks_weaken [OF assms [OF harmless_requests]]) (auto intro: no_request_answers)

lemma result_answers: "speaks log (answers {mc_call_id call}) (\<lambda>_. True) (\<lambda>_. True) (emit_tool_result env call r)"
proof -
  have emitted: "speaks log (\<lambda>es. es = [e]) (\<lambda>_. True) (\<lambda>_. True) (act_bind (emit env e) (\<lambda>_. act_ok ()))" for e
    unfolding emit_def
    by (rule speaksI, rule traces_bind [OF emit_traces, where ?R2.0 = "\<lambda>_ r es. es = []"])
       (auto intro: traces_ok split: sum.splits)
  have failing: "speaks log L (\<lambda>_. True) Q (act_fail e)" for L :: "canonical_event list \<Rightarrow> bool" and Q :: "unit \<Rightarrow> bool" and e
    by (rule speaksI) (simp add: traces_fail)
  show ?thesis
    by (auto simp: emit_tool_result_def intro!: speaks_weaken [OF emitted] failing split: option.split)
       (simp_all add: answers_def)
qed

lemma prepare_silent: "speaks log (answers {}) (\<lambda>_. True) (\<lambda>_. True) (prepare_calls env seqs runnable)"
  by (rule speaks_weaken [OF prepare_keeps [where ok = "\<lambda>e. \<not> requests_tool e"]])
     (auto simp: started_event_def intro: no_request_answers)

lemma grace_collects:
  assumes "tasks_return env"
  shows "distinct (map fst (snd c)) \<Longrightarrow> mset (map call_key running) = mset (snd c) \<Longrightarrow>
    traces_at log (grace_loop env snap running c) s (\<lambda>r es. case r of Inr c' \<Rightarrow> collected c c' es | Inl _ \<Rightarrow> True)"
proof (induction "length running" arbitrary: running c s rule: less_induct)
  case (less running c s)
  obtain g s1 where g: "en_grace env snap (started_calls running) s = (g, s1)" by fastforce
  note s1 = quiet_step [OF grace_quiet g]
  show ?case
  proof (cases "running = []")
    case True
    then show ?thesis by (simp add: traces_at_def grace_branches)
  next
    case False
    from assms g consider (ended) k ending where "g = GraceDone k ending" | (expired) "g = GraceTimeout None"
      unfolding tasks_return_def by (metis fst_conv grace_step.exhaust option.exhaust)
    then show ?thesis
    proof cases
      case ended
      obtain index call tool where pick: "pick_at k running = (index, call, tool)" by (metis prod_cases3)
      let ?r = "ending_result (en_mask env) ending"
      note after = pick_collected [OF less.prems(1) less.prems(2) False pick]
      have "traces_at log (act_bind (emit_tool_result env call ?r) (\<lambda>_.
          grace_loop env snap (remove_at k running) (fst c @ [(index, call, ?r)], without_index index (snd c)))) s1
          (\<lambda>r es. case r of Inr c' \<Rightarrow> collected c c' es | Inl _ \<Rightarrow> True)"
      proof (rule traces_bind [OF speaksD [OF result_answers], where ?R2.0 = "\<lambda>_ r es. case r of
            Inr c' \<Rightarrow> collected (fst c @ [(index, call, ?r)], without_index index (snd c)) c' es | Inl _ \<Rightarrow> True"])
        show "traces_at log (grace_loop env snap (remove_at k running) (fst c @ [(index, call, ?r)], without_index index (snd c))) s'
            (\<lambda>r es. case r of Inr c' \<Rightarrow> collected (fst c @ [(index, call, ?r)], without_index index (snd c)) c' es
               | Inl _ \<Rightarrow> True)" for s'
          by (rule less) (use False after in simp_all)
      qed (use after(3) in \<open>auto split: sum.splits intro: collected_trans\<close>)
      then show ?thesis
        by (rule traces_moved [OF _ s1]) (rule grace_branches(2) [OF False g [unfolded ended] pick])
    next
      case expired
      with g s1 False show ?thesis by (simp add: traces_at_def grace_branches)
    qed
  qed
qed

lemma join_collects:
  assumes "tasks_return env"
  shows "distinct (map fst (snd c)) \<Longrightarrow> mset (map call_key running) = mset (snd c) \<Longrightarrow>
    traces_at log (join_loop env snap running c) s (\<lambda>r es. case r of
      Inr (c', cancelled) \<Rightarrow> collected c c' es \<and> (cancelled = None \<longrightarrow> snd c' = []) | Inl _ \<Rightarrow> True)"
proof (induction "length running" arbitrary: running c s rule: less_induct)
  case (less running c s)
  let ?R = "\<lambda>c r es. case r of
      Inr (c', cancelled) \<Rightarrow> collected c c' es \<and> (cancelled = None \<longrightarrow> snd c' = []) | Inl _ \<Rightarrow> True"
  obtain g s1 where g: "en_join env snap (started_calls running) s = (g, s1)" by fastforce
  note s1 = quiet_step [OF join_quiet g]
  show ?case
  proof (cases "running = []")
    case True
    with less.prems(2) show ?thesis by (simp add: traces_at_def join_branches)
  next
    case False
    from assms g consider (ended) k ending where "g = TaskDone k ending" | (stop) reason where "g = BatchCancelled reason"
      unfolding tasks_return_def by (metis fst_conv join_step.exhaust)
    then show ?thesis
    proof cases
      case ended
      obtain index call tool where pick: "pick_at k running = (index, call, tool)" by (metis prod_cases3)
      let ?r = "ending_result (en_mask env) ending"
      let ?c = "(fst c @ [(index, call, ?r)], without_index index (snd c))"
      note after = pick_collected [OF less.prems(1) less.prems(2) False pick]
      have rest: "traces_at log (join_loop env snap (remove_at k running) ?c) s' (?R ?c)" for s'
        by (rule less) (use False after in simp_all)
      have planned: "traces_at log (act_bind (emit_plan_events env call ?r) (\<lambda>_.
          join_loop env snap (remove_at k running) ?c)) s' (?R ?c)" for s'
        by (rule traces_bind [OF speaksD [OF silent_phase [OF plan_events_keep]] rest])
           (auto split: sum.splits intro: collected_trans [OF collected_silent])
      have "traces_at log (act_bind (emit_tool_result env call ?r) (\<lambda>_. act_bind (emit_plan_events env call ?r) (\<lambda>_.
          join_loop env snap (remove_at k running) ?c))) s1 (?R c)"
        by (rule traces_bind [OF speaksD [OF result_answers] planned])
           (use after(3) in \<open>auto split: sum.splits intro: collected_trans\<close>)
      then show ?thesis
        by (rule traces_moved [OF _ s1]) (rule join_branches(2) [OF False g [unfolded ended] pick])
    next
      case stop
      have "traces_at log (act_bind (grace_loop env snap running c) (\<lambda>collected. act_ok (collected, Some reason))) s1 (?R c)"
        by (rule traces_bind [OF grace_collects [OF assms less.prems],
              where ?R2.0 = "\<lambda>c' r es. es = [] \<and> r = Inr (c', Some reason)"])
           (auto intro: traces_ok)
      then show ?thesis
        by (rule traces_moved [OF _ s1]) (rule join_branches(4) [OF False g [unfolded stop]])
    qed
  qed
qed

text \<open>After a cancellation every call that is still pending is answered by an error.\<close>

lemma cancel_answers:
  "traces_at log (cancel_pending env pending completed) s (\<lambda>r es. case r of
     Inr completed' \<Rightarrow> answers (ids_of (set pending)) es \<and>
       mset (map call_key completed') = mset (map call_key completed) + mset pending | Inl _ \<Rightarrow> True)"
proof (induction pending arbitrary: completed s)
  case Nil
  show ?case by (auto intro: traces_ok simp: ids_of_def)
next
  case (Cons x pending)
  obtain index call where x: "x = (index, call)" by (cases x)
  let ?r = "tool_error ''tool_batch_cancelled'' ''tool batch was cancelled''"
  have ids: "ids_of (set (x # pending)) = {mc_call_id call} \<union> ids_of (set pending)"
    by (simp add: x ids_of_def)
  show ?case
    unfolding x cancel_pending.simps Let_def ids [unfolded x]
    by (rule traces_bind [OF speaksD [OF result_answers] Cons.IH])
       (auto split: sum.splits intro: answers_insert)
qed

lemma gate_call_answers:
  "traces_at log (gate_call env names call) s (\<lambda>r es. case r of
     Inr (Refused _) \<Rightarrow> answers {mc_call_id call} es | Inr (Admitted _) \<Rightarrow> answers {} es | Inl _ \<Rightarrow> True)"
  (is "traces_at _ _ _ ?R")
proof -
  have refused: "traces_at log (refuse env call code reason) s ?R" for code reason s
    unfolding refuse_def
    by (rule traces_bind [OF speaksD [OF result_answers],
          where ?R2.0 = "\<lambda>_ r es. es = [] \<and> r = Inr (Refused (tool_error code reason))"])
       (auto intro: traces_ok)
  have admitted: "traces_at log (act_ok (Admitted tool)) s ?R" for tool s
    by (rule traces_ok) simp
  have asked: "traces_at log (act_bind (ask_approval env call matched) (\<lambda>outcome.
      if go_decision outcome \<noteq> Approved then refuse env call ''approval_denied'' ''tool approval was denied''
      else act_ok (Admitted tool))) s ?R" for matched tool s
  proof (rule traces_bind [OF speaksD [OF silent_phase [OF ask_keeps]], where ?R2.0 = "\<lambda>_. ?R"])
    show "traces_at log (if go_decision x \<noteq> Approved
        then refuse env call ''approval_denied'' ''tool approval was denied'' else act_ok (Admitted tool)) s1 ?R" for x s1
    proof (cases "go_decision x = Approved")
      case True
      show ?thesis unfolding True by (simp only: not_True_eq_False if_False admitted simp_thms)
    next
      case False
      show ?thesis unfolding if_P [OF False] by (rule refused)
    qed
  qed (auto intro: answers_append [of "{}", simplified] split: sum.splits verdict.splits)
  obtain m where "m \<in> gate_branches env call" "gate_call env names call s = m s"
    using gate_call_branch [where env = env and call = call and names = names and s = s] by (elim exE conjE)
  then show ?thesis
    using refused asked admitted by (auto simp: gate_branches_def traces_at_def)
qed

end

lemma collected_answers:
  assumes "collected c c' es" "answers (ids_of (set (snd c'))) es'"
  shows "answers (ids_of (set (snd c))) (es @ es')"
proof -
  from assms have "answers (ids_of (set (snd c) - set (snd c')) \<union> ids_of (set (snd c'))) (es @ es')"
    by (intro answers_append) (simp_all add: collected_def)
  then show ?thesis by (rule answers_anti) (auto simp: ids_of_def)
qed

text \<open>The gate splits the calls into those it settled and those it left pending.\<close>

lemma still_pending_Cons:
  "still_pending ((i, c) # calls) xs = (if i \<in> fst ` set xs then still_pending calls xs else (i, c) # still_pending calls xs)"
  by (simp add: still_pending_def)

lemma still_pending_settled: "i \<notin> fst ` set calls \<Longrightarrow> still_pending calls ((i, x) # xs) = still_pending calls xs"
  unfolding still_pending_def by (rule filter_cong) (auto simp: rev_image_eqI)

definition gate_split ::
    "(nat \<times> tool_call) list \<Rightarrow> settled \<Rightarrow> 'h runnable \<Rightarrow> settled \<Rightarrow> 'h runnable \<Rightarrow> canonical_event list \<Rightarrow> bool" where
  "gate_split calls immediate runnable immediate' runnable' es \<longleftrightarrow>
     (\<exists>xs ys. immediate' = immediate @ xs \<and> runnable' = runnable @ ys \<and>
        fst ` set xs \<subseteq> fst ` set calls \<and> map call_key ys = still_pending calls xs \<and>
        mset (map call_key xs) + mset (map call_key ys) = mset calls \<and>
        (\<forall>U. unanswered U es \<subseteq> U \<union> ids_of (call_key ` set ys)))"

lemma gate_split_nil: "gate_split [] immediate runnable immediate runnable []"
  by (simp add: gate_split_def still_pending_def)

lemma gate_split_refused:
  assumes "i \<notin> fst ` set calls" "gate_split calls (immediate @ [(i, c, r)]) runnable imm' run' es'"
    and "answers {mc_call_id c} es"
  shows "gate_split ((i, c) # calls) immediate runnable imm' run' (ToolRequested (requested_call c) # es @ es')"
proof -
  from assms(2) obtain xs ys where split: "imm' = (immediate @ [(i, c, r)]) @ xs" "run' = runnable @ ys"
    "fst ` set xs \<subseteq> fst ` set calls" "map call_key ys = still_pending calls xs"
    "mset (map call_key xs) + mset (map call_key ys) = mset calls"
    "\<And>U. unanswered U es' \<subseteq> U \<union> ids_of (call_key ` set ys)"
    unfolding gate_split_def by blast
  have "unanswered (insert (mc_call_id c) U) es \<subseteq> U" for U
    using assms(3) unfolding answers_def by blast
  with split(6) have "unanswered U (ToolRequested (requested_call c) # es @ es') \<subseteq> U \<union> ids_of (call_key ` set ys)" for U
    by fastforce
  then show ?thesis
    unfolding gate_split_def using split(1-5) assms(1)
    by (intro exI [of _ "(i, c, r) # xs"] exI [of _ ys]) (auto simp: still_pending_Cons still_pending_settled)
qed

lemma gate_split_admitted:
  assumes "i \<notin> fst ` set calls" "gate_split calls immediate (runnable @ [(i, c, tool)]) imm' run' es'"
    and "answers {} es"
  shows "gate_split ((i, c) # calls) immediate runnable imm' run' (ToolRequested (requested_call c) # es @ es')"
proof -
  from assms(2) obtain xs ys where split: "imm' = immediate @ xs" "run' = (runnable @ [(i, c, tool)]) @ ys"
    "fst ` set xs \<subseteq> fst ` set calls" "map call_key ys = still_pending calls xs"
    "mset (map call_key xs) + mset (map call_key ys) = mset calls"
    "\<And>U. unanswered U es' \<subseteq> U \<union> ids_of (call_key ` set ys)"
    unfolding gate_split_def by blast
  have "unanswered U (ToolRequested (requested_call c) # es @ es') \<subseteq> U \<union> ids_of (call_key ` set ((i, c, tool) # ys))" for U
  proof -
    have "unanswered (insert (mc_call_id c) U) es \<subseteq> insert (mc_call_id c) U"
      using assms(3) unfolding answers_def by blast
    with split(6) [of "unanswered (insert (mc_call_id c) U) es"] show ?thesis
      by (auto simp: ids_of_def)
  qed
  moreover have "i \<notin> fst ` set xs" using split(3) assms(1) by blast
  ultimately show ?thesis
    unfolding gate_split_def using split(1-5)
    by (intro exI [of _ xs] exI [of _ "(i, c, tool) # ys"]) (auto simp: still_pending_Cons)
qed

context agent_sink
begin

lemma gate_calls_split:
  "distinct (map fst calls) \<Longrightarrow>
   traces_at log (gate_calls env names calls (immediate, runnable, seqs)) s (\<lambda>r es. case r of
     Inr (immediate', runnable', _) \<Rightarrow> gate_split calls immediate runnable immediate' runnable' es
   | Inl _ \<Rightarrow> True)"
proof (induction calls arbitrary: immediate runnable seqs s)
  case Nil
  show ?case by (auto intro!: traces_ok simp: gate_split_nil)
next
  case (Cons x calls)
  obtain i c where x: "x = (i, c)" by (cases x)
  from Cons.prems have i: "i \<notin> fst ` set calls" and d: "distinct (map fst calls)" by (auto simp: x)
  let ?seqs = "\<lambda>requested. (mc_call_id c, ee_seq requested) # seqs"
  let ?S = "\<lambda>verdict r es. case r of
     Inr (immediate', runnable', _) \<Rightarrow> (case verdict of
         Refused result \<Rightarrow> gate_split calls (immediate @ [(i, c, result)]) runnable immediate' runnable' es
       | Admitted tool \<Rightarrow> gate_split calls immediate (runnable @ [(i, c, tool)]) immediate' runnable' es)
   | Inl _ \<Rightarrow> True"
  have rest: "traces_at log (gate_calls env names calls (case verdict of
         Refused result \<Rightarrow> (immediate @ [(i, c, result)], runnable, sq)
       | Admitted tool \<Rightarrow> (immediate, runnable @ [(i, c, tool)], sq))) s (?S verdict)" for verdict sq s
    by (cases verdict) (simp_all only: verdict.case Cons.IH [OF d])
  have gated: "traces_at log (act_bind (gate_call env names c) (\<lambda>verdict. gate_calls env names calls (case verdict of
         Refused result \<Rightarrow> (immediate @ [(i, c, result)], runnable, sq)
       | Admitted tool \<Rightarrow> (immediate, runnable @ [(i, c, tool)], sq)))) s (\<lambda>r es. case r of
     Inr (immediate', runnable', _) \<Rightarrow>
       gate_split (x # calls) immediate runnable immediate' runnable' (ToolRequested (requested_call c) # es)
   | Inl _ \<Rightarrow> True)" for sq s
    by (rule traces_bind [OF gate_call_answers rest])
       (auto simp: x split: sum.splits verdict.splits intro: gate_split_refused [OF i] gate_split_admitted [OF i])
  show ?case
    unfolding x gate_calls.simps emit_def
    by (rule traces_bind [OF emit_traces gated]) (auto simp: x split: sum.splits)
qed

text \<open>The contract of a batch.\<close>

lemma batch_answers:
  assumes "tasks_return env"
  shows "traces_at log (execute_tool_batch env snap names calls) s (\<lambda>r es. case r of
     Inr b \<Rightarrow> answers {} es \<and> map fst (bo_results b) = calls | Inl _ \<Rightarrow> True)"
proof -
  let ?T = "\<lambda>r es. case r of Inr b \<Rightarrow> answers {} es \<and> map fst (bo_results b) = calls | Inl _ \<Rightarrow> True"
  have distinct: "distinct (map fst (enumerate 0 calls))" by simp
  have finish: "traces_at log (act_bind (if cancelled = None then act_ok (fst c)
       else cancel_pending env (shuffled (en_hash_picks env) (snd c)) (fst c)) (\<lambda>completed.
       act_ok \<lparr>bo_results = map snd (sort_key fst completed), bo_cancelled = cancelled\<rparr>)) s
     (\<lambda>r es. case r of Inr b \<Rightarrow> answers (ids_of (set (snd c))) es \<and> map fst (bo_results b) = calls | Inl _ \<Rightarrow> True)"
    if "mset (map call_key (fst c)) + mset (snd c) = mset (enumerate 0 calls)" "cancelled = None \<longrightarrow> snd c = []"
    for c cancelled s
  proof (cases cancelled)
    case None
    with that show ?thesis
      by (intro traces_bind [where ?R1.0 = "\<lambda>r es. es = [] \<and> r = Inr (fst c)"
            and ?R2.0 = "\<lambda>x r es. es = [] \<and> (x = fst c \<longrightarrow> r = Inr \<lparr>bo_results = map snd (sort_key fst x), bo_cancelled = None\<rparr>)"])
         (auto intro: traces_ok simp: sorted_by_index ids_of_def)
  next
    case (Some reason)
    have "ids_of (set (shuffled (en_hash_picks env) (snd c))) = ids_of (set (snd c))"
      by (metis mset_eq_setD mset_shuffled)
    then have "traces_at log (cancel_pending env (shuffled (en_hash_picks env) (snd c)) (fst c)) s (\<lambda>r es. case r of
        Inr completed \<Rightarrow> answers (ids_of (set (snd c))) es \<and> mset (map call_key completed) = mset (enumerate 0 calls)
      | Inl _ \<Rightarrow> True)"
      using cancel_answers [of "shuffled (en_hash_picks env) (snd c)" "fst c" s] that(1)
      by (elim traces_weaken) (auto split: sum.splits)
    then have "traces_at log (act_bind (cancel_pending env (shuffled (en_hash_picks env) (snd c)) (fst c)) (\<lambda>completed.
        act_ok \<lparr>bo_results = map snd (sort_key fst completed), bo_cancelled = cancelled\<rparr>)) s
      (\<lambda>r es. case r of Inr b \<Rightarrow> answers (ids_of (set (snd c))) es \<and> map fst (bo_results b) = calls | Inl _ \<Rightarrow> True)"
      by (rule traces_bind [where ?R2.0 = "\<lambda>x r es. es = [] \<and>
            r = Inr \<lparr>bo_results = map snd (sort_key fst x), bo_cancelled = cancelled\<rparr>"])
         (auto intro: traces_ok simp: sorted_by_index)
    with Some show ?thesis by simp
  qed
  have joined: "traces_at log (act_bind (join_loop env snap runnable (immediate, still_pending (enumerate 0 calls) immediate))
       (\<lambda>((completed, pending), cancelled).
     act_bind (if cancelled = None then act_ok completed
               else cancel_pending env (shuffled (en_hash_picks env) pending) completed) (\<lambda>completed.
     act_ok \<lparr>bo_results = map snd (sort_key fst completed), bo_cancelled = cancelled\<rparr>))) s
     (\<lambda>r es. case r of Inr b \<Rightarrow> answers (ids_of (call_key ` set runnable)) es \<and> map fst (bo_results b) = calls | Inl _ \<Rightarrow> True)"
    if run: "map call_key runnable = still_pending (enumerate 0 calls) immediate"
      and all: "mset (map call_key immediate) + mset (map call_key runnable) = mset (enumerate 0 calls)"
    for immediate runnable s
  proof -
    let ?c = "(immediate, still_pending (enumerate 0 calls) immediate)"
    have pending: "set (snd ?c) = call_key ` set runnable" by (simp flip: run)
    have d: "distinct (map fst (snd ?c))"
      unfolding snd_conv still_pending_def by (rule distinct_map_filter [OF distinct])
    have m: "mset (map call_key runnable) = mset (snd ?c)" by (simp flip: run)
    show ?thesis
    proof (rule traces_bind_known [OF join_collects [OF assms d m]])
      fix x :: "(settled \<times> (nat \<times> tool_call) list) \<times> string option" and s1 es
      assume "case Inr x of Inr (c', cancelled) \<Rightarrow> collected ?c c' es \<and> (cancelled = None \<longrightarrow> snd c' = []) | Inl _ \<Rightarrow> True"
      then have c: "collected ?c (fst x) es" "snd x = None \<longrightarrow> snd (fst x) = []" by (auto simp: split_def)
      then have "mset (map call_key (fst (fst x))) + mset (snd (fst x)) = mset (enumerate 0 calls)"
        using all by (simp add: collected_def flip: run)
      from finish [OF this c(2), of s1]
      show "traces_at log (case x of (c, cancelled) \<Rightarrow> (case c of (completed, pending) \<Rightarrow> \<lambda>cancelled.
         act_bind (if cancelled = None then act_ok completed
               else cancel_pending env (shuffled (en_hash_picks env) pending) completed) (\<lambda>completed.
         act_ok \<lparr>bo_results = map snd (sort_key fst completed), bo_cancelled = cancelled\<rparr>)) cancelled) s1
         (\<lambda>r es. case r of Inr b \<Rightarrow> answers (ids_of (set (snd (fst x)))) es \<and> map fst (bo_results b) = calls | Inl _ \<Rightarrow> True)"
        by (simp only: split_def)
    next
      fix x :: "(settled \<times> (nat \<times> tool_call) list) \<times> string option"
        and r :: "(fault, batch_outcome) result" and es es'
      assume "case Inr x of Inr (c', cancelled) \<Rightarrow> collected ?c c' es \<and> (cancelled = None \<longrightarrow> snd c' = []) | Inl _ \<Rightarrow> True"
        and "case r of Inr b \<Rightarrow> answers (ids_of (set (snd (fst x)))) es' \<and> map fst (bo_results b) = calls | Inl _ \<Rightarrow> True"
      then show "case r of Inr b \<Rightarrow> answers (ids_of (call_key ` set runnable)) (es @ es') \<and> map fst (bo_results b) = calls
          | Inl _ \<Rightarrow> True"
        using collected_answers [of ?c "fst x" es es'] unfolding pending by (auto simp: split_def split: sum.splits)
    qed simp
  qed
  have prepared: "traces_at log (act_bind (prepare_calls env seqs runnable) (\<lambda>_.
       act_bind (join_loop env snap runnable (immediate, still_pending (enumerate 0 calls) immediate))
       (\<lambda>((completed, pending), cancelled).
     act_bind (if cancelled = None then act_ok completed
               else cancel_pending env (shuffled (en_hash_picks env) pending) completed) (\<lambda>completed.
     act_ok \<lparr>bo_results = map snd (sort_key fst completed), bo_cancelled = cancelled\<rparr>)))) s
     (\<lambda>r es. case r of Inr b \<Rightarrow> answers (ids_of (call_key ` set runnable)) es \<and> map fst (bo_results b) = calls | Inl _ \<Rightarrow> True)"
    if "map call_key runnable = still_pending (enumerate 0 calls) immediate"
      "mset (map call_key immediate) + mset (map call_key runnable) = mset (enumerate 0 calls)"
    for immediate runnable seqs s
    by (rule traces_bind [OF speaksD [OF prepare_silent] joined [OF that]])
       (auto split: sum.splits intro: answers_append [of "{}", simplified])
  show ?thesis
    unfolding execute_tool_batch_def
  proof (rule traces_bind_known [OF gate_calls_split [OF distinct]])
    fix x :: "settled \<times> 'h runnable \<times> (string \<times> 64 word) list" and s1 es
    obtain immediate runnable seqs where x: "x = (immediate, runnable, seqs)" by (metis prod_cases3)
    assume "case Inr x of Inr (immediate', runnable', _) \<Rightarrow> gate_split (enumerate 0 calls) [] [] immediate' runnable' es
        | Inl _ \<Rightarrow> True"
    then have "gate_split (enumerate 0 calls) [] [] immediate runnable es" by (simp add: x)
    then have "map call_key runnable = still_pending (enumerate 0 calls) immediate"
      "mset (map call_key immediate) + mset (map call_key runnable) = mset (enumerate 0 calls)"
      unfolding gate_split_def append_Nil by blast+
    from prepared [OF this]
    show "traces_at log (case x of (immediate, runnable, seqs) \<Rightarrow> act_bind (prepare_calls env seqs runnable) (\<lambda>_.
       act_bind (join_loop env snap runnable (immediate, still_pending (enumerate 0 calls) immediate))
       (\<lambda>((completed, pending), cancelled).
     act_bind (if cancelled = None then act_ok completed
               else cancel_pending env (shuffled (en_hash_picks env) pending) completed) (\<lambda>completed.
     act_ok \<lparr>bo_results = map snd (sort_key fst completed), bo_cancelled = cancelled\<rparr>)))) s1
     (\<lambda>r es. case r of Inr b \<Rightarrow> answers (ids_of (call_key ` set (fst (snd x)))) es \<and> map fst (bo_results b) = calls
        | Inl _ \<Rightarrow> True)"
      by (simp only: x prod.case fst_conv snd_conv)
  next
    fix x :: "settled \<times> 'h runnable \<times> (string \<times> 64 word) list" and r :: "(fault, batch_outcome) result" and es es'
    assume gated: "case Inr x of Inr (immediate', runnable', _) \<Rightarrow> gate_split (enumerate 0 calls) [] [] immediate' runnable' es
        | Inl _ \<Rightarrow> True"
      and batch: "case r of Inr b \<Rightarrow> answers (ids_of (call_key ` set (fst (snd x)))) es' \<and> map fst (bo_results b) = calls
        | Inl _ \<Rightarrow> True"
    from gated have "\<And>U. unanswered U es \<subseteq> U \<union> ids_of (call_key ` set (fst (snd x)))"
      by (auto simp: gate_split_def split_def)
    moreover have "unanswered (unanswered U es) es' \<subseteq> unanswered U es - ids"
      if "answers ids es'" for U ids
      using that unfolding answers_def by blast
    ultimately show "case r of Inr b \<Rightarrow> answers {} (es @ es') \<and> map fst (bo_results b) = calls | Inl _ \<Rightarrow> True"
      using batch by (cases r) (fastforce simp: answers_def)+
  qed simp
qed

end

end
