(* ===== verification/Agent_Erasure.thy ===== *)
theory Agent_Erasure
  imports Agent_Answers
begin

text \<open>
  The recording environment of \<open>Agent_Traces\<close> only observes: a run in it returns what
  the run in the original environment returns and leaves the same state. \<open>run_log\<close> is
  the sequence of events that the sink accepted during a run; the claims about what a run says
  are stated on it.
\<close>

section \<open>Erasure\<close>

definition erases :: "('s \<times> 'e list \<Rightarrow> 'r \<times> ('s \<times> 'e list)) \<Rightarrow> ('s \<Rightarrow> 'r \<times> 's) \<Rightarrow> bool" where
  "erases m' m \<longleftrightarrow> (\<forall>s es. \<exists>es'. m' (s, es) = (fst (m s), (snd (m s), es')))"

lemma erasesI: "(\<And>s es. \<exists>es'. m' (s, es) = (fst (m s), (snd (m s), es'))) \<Longrightarrow> erases m' m"
  by (simp add: erases_def)

lemma erasesD: "erases m' m \<Longrightarrow> m s = (r, t) \<Longrightarrow> \<exists>es'. m' (s, es) = (r, (t, es'))"
  unfolding erases_def by (metis fst_conv snd_conv)

lemma erases_lifted [simp]: "erases (lifted m) m"
  by (auto simp: erases_def lifted_def split: prod.split)

lemma erases_recorded [simp]: "erases (recorded_emit em e x) (em e x)"
  by (auto simp: erases_def recorded_emit_def split: prod.split sum.split)

lemma erases_ok [simp]: "erases (act_ok x) (act_ok x)"
  by (simp add: erases_def act_ok_def)

lemma erases_fail [simp]: "erases (act_fail e) (act_fail e)"
  by (simp add: erases_def act_fail_def)

lemma erases_bind:
  assumes "erases m' m" "\<And>x. erases (f' x) (f x)"
  shows "erases (act_bind m' f') (act_bind m f)"
proof (rule erasesI)
  fix s es
  obtain r t where m: "m s = (r, t)" by fastforce
  from erasesD [OF assms(1) m] obtain es1 where "m' (s, es) = (r, (t, es1))" by blast
  with m show "\<exists>es'. act_bind m' f' (s, es) = (fst (act_bind m f s), (snd (act_bind m f s), es'))"
    using assms(2) by (cases r) (auto simp: act_bind_def erases_def)
qed

lemma erases_read: "(\<And>s es. f' (s, es) = f s) \<Longrightarrow> erases (act_read f') (act_read f)"
  by (simp add: erases_def act_read_def)

lemma erases_do: "erases f' f \<Longrightarrow> erases (act_do f') (act_do f)"
proof (rule erasesI)
  fix s es assume "erases f' f"
  then obtain es' where "f' (s, es) = (fst (f s), (snd (f s), es'))" by (auto simp: erases_def)
  then show "\<exists>es'. act_do f' (s, es) = (fst (act_do f s), (snd (act_do f s), es'))"
    by (simp add: act_do_def split_def)
qed

lemma erases_if: "(b \<Longrightarrow> erases m' m) \<Longrightarrow> (\<not> b \<Longrightarrow> erases n' n) \<Longrightarrow> erases (if b then m' else n') (if b then m else n)"
  by simp

text \<open>A step of a loop: the state moved, then the same continuation.\<close>

definition echoes :: "'r \<times> ('s \<times> 'e list) \<Rightarrow> 'r \<times> 's \<Rightarrow> bool" where
  "echoes x' x \<longleftrightarrow> (\<exists>es'. x' = (fst x, (snd x, es')))"

abbreviation erases_at ::
    "('s \<times> 'e list \<Rightarrow> 'r \<times> ('s \<times> 'e list)) \<Rightarrow> ('s \<Rightarrow> 'r \<times> 's) \<Rightarrow> 's \<Rightarrow> 'e list \<Rightarrow> bool" where
  "erases_at m' m s es \<equiv> echoes (m' (s, es)) (m s)"

lemma erases_iff_at: "erases m' m \<longleftrightarrow> (\<forall>s es. erases_at m' m s es)"
  by (simp add: erases_def echoes_def)

lemma erases_atD: "erases m' m \<Longrightarrow> erases_at m' m s es"
  by (simp add: erases_iff_at)

lemma echoes_moved: "y' = x' \<Longrightarrow> y = x \<Longrightarrow> echoes x' x \<Longrightarrow> echoes y' y"
  by simp

lemma echoes_simp [simp]: "echoes (r, (t, es)) (r, t)"
  by (simp add: echoes_def)

lemma erases_at_bind:
  assumes "erases m' m" "\<And>x t es1. erases_at (f' x) (f x) t es1"
  shows "erases_at (act_bind m' f') (act_bind m f) s es"
  using erases_bind [of m' m f' f] assms by (simp add: erases_iff_at)

section \<open>Recording environments\<close>

lemma recording_fields [simp]:
  "en_mask (recording env) = en_mask env" "en_json_text (recording env) = en_json_text env"
  "en_host (recording env) = en_host env" "en_glob (recording env) = en_glob env"
  "en_eager_limit (recording env) = en_eager_limit env" "en_policy (recording env) = en_policy env"
  "en_hash_picks (recording env) = en_hash_picks env"
  "en_cancel_reason (recording env) (s, es) = en_cancel_reason env s"
  "en_registry (recording env) (s, es) = en_registry env s"
  "en_active_tools (recording env) (s, es) = en_active_tools env s"
  "en_session_rules (recording env) (s, es) = en_session_rules env s"
  "en_rule_source (recording env) (s, es) = en_rule_source env s"
  "en_instructions (recording env) (s, es) = en_instructions env s"
  "en_progress (recording env) (s, es) = en_progress env s"
  by (simp_all add: recording_def)

lemma recording_calls [simp]:
  "erases (en_emit (recording env) e x) (en_emit env e x)"
  "erases (en_load_history (recording env)) (en_load_history env)"
  "erases (en_before_compaction (recording env) h) (en_before_compaction env h)"
  "erases (en_summarize (recording env) h n) (en_summarize env h n)"
  "erases (en_reserve_usage (recording env) u) (en_reserve_usage env u)"
  "erases (en_drain_steers (recording env)) (en_drain_steers env)"
  "erases (en_request_approval (recording env) q) (en_request_approval env q)"
  "erases (en_stream (recording env) mr) (en_stream env mr)"
  "erases (en_backoff (recording env) n) (en_backoff env n)"
  "erases (en_uuid (recording env)) (en_uuid env)"
  "erases (en_snapshot (recording env) c w) (en_snapshot env c w)"
  "erases (en_join (recording env) h cs) (en_join env h cs)"
  "erases (en_grace (recording env) h cs) (en_grace env h cs)"
  by (simp_all add: recording_def)

lemma recording_reads [simp]:
  "matched_rule (recording env) call (s, es) = matched_rule env call s"
  "call_decision (recording env) call tool (s, es) = call_decision env call tool s"
  "hidden_until_activated (recording env) name (s, es) = hidden_until_activated env name s"
  "prepare_history (recording env) rq h (s, es) = prepare_history env rq h s"
  "model_request_for (recording env) rq h (s, es) = model_request_for env rq h s"
  by (simp_all add: matched_rule_def call_decision_def hidden_until_activated_def prepare_history_def
      model_request_for_def Let_def)

section \<open>The batch\<close>

lemma erases_emit [simp]: "erases (emit (recording env) e) (emit env e)"
  by (simp add: emit_def)

lemma erases_result [simp]: "erases (emit_tool_result (recording env) call r) (emit_tool_result env call r)"
  by (auto simp: emit_tool_result_def intro!: erases_bind split: option.split)

lemma erases_plan_steps [simp]: "erases (emit_plan_steps (recording env) steps n) (emit_plan_steps env steps n)"
  by (induction steps arbitrary: n) (auto simp: Let_def intro!: erases_bind)

lemma erases_plan [simp]: "erases (emit_plan_events (recording env) call r) (emit_plan_events env call r)"
  by (auto simp: emit_plan_events_def Let_def intro!: erases_bind split: option.split)

lemma erases_refuse [simp]: "erases (refuse (recording env) call code reason) (refuse env call code reason)"
  by (auto simp: refuse_def intro!: erases_bind)

lemma erases_ask [simp]: "erases (ask_approval (recording env) call matched) (ask_approval env call matched)"
  by (auto simp: ask_approval_def intro!: erases_bind erases_do)

lemma erases_gate [simp]: "erases (gate_call (recording env) names call) (gate_call env names call)"
proof -
  have ask: "erases (act_bind (ask_approval (recording env) call matched) (\<lambda>outcome.
      if go_decision outcome \<noteq> Approved then refuse (recording env) call c x else act_ok (Admitted tool)))
    (act_bind (ask_approval env call matched) (\<lambda>outcome.
      if go_decision outcome \<noteq> Approved then refuse env call c x else act_ok (Admitted tool)))" for matched c x tool
    by (intro erases_bind erases_if) simp_all
  show ?thesis
  proof (unfold erases_iff_at, intro allI)
    fix s es
    have r: "erases_at (refuse (recording env) call c x) (refuse env call c x) s es" for c x
      by (simp add: erases_atD)
    have a: "erases_at (act_ok v) (act_ok v) s es" for v :: "'b verdict"
      by (simp add: erases_atD)
    show "erases_at (gate_call (recording env) names call) (gate_call env names call) s es"
      using r a erases_atD [OF ask, of _ _ _ _ s es]
      unfolding gate_call_def
      by (simp split: option.split decision.split)
  qed
qed

lemma erases_gates [simp]: "erases (gate_calls (recording env) names calls acc) (gate_calls env names calls acc)"
  by (induction env names calls acc rule: gate_calls.induct) (auto intro!: erases_bind)

lemma erases_prepare [simp]: "erases (prepare_calls (recording env) seqs rs) (prepare_calls env seqs rs)"
  by (induction rs) (auto intro!: erases_bind erases_do)

lemma erases_grace [simp]: "erases (grace_loop (recording env) snap running c) (grace_loop env snap running c)"
proof (unfold erases_iff_at, intro allI)
  fix s es
  show "erases_at (grace_loop (recording env) snap running c) (grace_loop env snap running c) s es"
  proof (induction "length running" arbitrary: running c s es rule: less_induct)
    case (less running c s es)
    obtain g s1 where g: "en_grace env snap (started_calls running) s = (g, s1)" by fastforce
    then obtain es1 where g': "en_grace (recording env) snap (started_calls running) (s, es) = (g, (s1, es1))"
      using erasesD recording_calls(13) by metis
    show ?case
    proof (cases "running = []")
      case True
      then show ?thesis by (simp add: grace_branches)
    next
      case False
      note go = less [OF length_remove_at [OF False]]
      show ?thesis
      proof (cases g)
        case (GraceDone k ending)
        obtain index call tool where pick: "pick_at k running = (index, call, tool)" by (metis prod_cases3)
        show ?thesis
          by (rule echoes_moved [OF grace_branches(2) [OF False g' [unfolded GraceDone] pick]
                grace_branches(2) [OF False g [unfolded GraceDone] pick]])
             (simp only: recording_fields, rule erases_at_bind, rule erases_result, rule go)
      next
        case (GraceLost k)
        show ?thesis
          by (rule echoes_moved [OF grace_branches(3) [OF False g' [unfolded GraceLost]]
                grace_branches(3) [OF False g [unfolded GraceLost]] go])
      next
        case (GraceTimeout cut)
        with g g' False show ?thesis by (cases cut) (simp_all add: grace_branches)
      qed
    qed
  qed
qed

lemma erases_join [simp]: "erases (join_loop (recording env) snap running c) (join_loop env snap running c)"
proof (unfold erases_iff_at, intro allI)
  fix s es
  show "erases_at (join_loop (recording env) snap running c) (join_loop env snap running c) s es"
  proof (induction "length running" arbitrary: running c s es rule: less_induct)
    case (less running c s es)
    obtain g s1 where g: "en_join env snap (started_calls running) s = (g, s1)" by fastforce
    then obtain es1 where g': "en_join (recording env) snap (started_calls running) (s, es) = (g, (s1, es1))"
      using erasesD recording_calls(12) by metis
    show ?case
    proof (cases "running = []")
      case True
      then show ?thesis by (simp add: join_branches)
    next
      case False
      note go = less [OF length_remove_at [OF False]]
      show ?thesis
      proof (cases g)
        case (TaskDone k ending)
        obtain index call tool where pick: "pick_at k running = (index, call, tool)" by (metis prod_cases3)
        show ?thesis
          by (rule echoes_moved [OF join_branches(2) [OF False g' [unfolded TaskDone] pick]
                join_branches(2) [OF False g [unfolded TaskDone] pick]])
             (simp only: recording_fields, rule erases_at_bind, rule erases_result, rule erases_at_bind, rule erases_plan, rule go)
      next
        case (TaskLost k)
        show ?thesis
          by (rule echoes_moved [OF join_branches(3) [OF False g' [unfolded TaskLost]]
                join_branches(3) [OF False g [unfolded TaskLost]] go])
      next
        case (BatchCancelled reason)
        show ?thesis
          by (rule echoes_moved [OF join_branches(4) [OF False g' [unfolded BatchCancelled]]
                join_branches(4) [OF False g [unfolded BatchCancelled]]])
             (intro erases_atD erases_bind erases_grace erases_ok)
      qed
    qed
  qed
qed

lemma erases_cancel [simp]:
  "erases (cancel_pending (recording env) pending completed) (cancel_pending env pending completed)"
  by (induction pending arbitrary: completed) (auto simp: Let_def intro!: erases_bind)

lemma erases_batch [simp]:
  "erases (execute_tool_batch (recording env) snap names calls) (execute_tool_batch env snap names calls)"
  unfolding execute_tool_batch_def recording_fields
  by (intro erases_bind erases_gates) (auto intro!: erases_bind erases_if split: prod.split)

section \<open>The run\<close>

lemma erases_halt: "erases m' m \<Longrightarrow> erases (halt m') (halt m)"
  by (auto simp: halt_def intro!: erases_bind)

lemma erases_go_bind: "erases m' m \<Longrightarrow> (\<And>x. erases (f' x) (f x)) \<Longrightarrow> erases (go_bind m' f') (go_bind m f)"
  by (auto simp: go_bind_def intro!: erases_bind split: step_result.split)

lemma erases_stop [simp]:
  "erases (halt (finish_cancelled (recording env) h reason)) (halt (finish_cancelled env h reason))"
  "erases (halt (finish_failed (recording env) h reason)) (halt (finish_failed env h reason))"
  "erases (finish_failed (recording env) h reason) (finish_failed env h reason)"
  by (auto simp: finish_cancelled_def finish_failed_def intro!: erases_bind erases_halt)

lemma erases_open [simp]:
  "erases (open_stream (recording env) mr h n attempt) (open_stream env mr h n attempt)"
proof (unfold erases_iff_at, intro allI)
  fix s es
  show "erases_at (open_stream (recording env) mr h n attempt) (open_stream env mr h n attempt) s es"
  proof (induction "n - attempt" arbitrary: attempt s es rule: less_induct)
    case (less attempt s es)
    obtain r s1 where st: "en_stream env mr s = (r, s1)" by fastforce
    then obtain es1 where st': "en_stream (recording env) mr (s, es) = (r, (s1, es1))"
      using erasesD recording_calls(8) by metis
    show ?case
    proof (cases r)
      case (Inr steps)
      with st st' show ?thesis by simp
    next
      case (Inl e)
      show ?thesis
      proof (cases "pv_retryable e \<and> attempt < n")
        case False
        with Inl st st' show ?thesis
          by (intro echoes_moved [OF _ _ erases_atD [OF erases_stop(2)]]) auto
      next
        case True
        obtain c s2 where b: "en_backoff env (attempt + 1) s1 = (c, s2)" by fastforce
        then obtain es2 where b': "en_backoff (recording env) (attempt + 1) (s1, es1) = (c, (s2, es2))"
          using erasesD recording_calls(9) by metis
        from True have again: "erases_at (open_stream (recording env) mr h n (attempt + 1))
            (open_stream env mr h n (attempt + 1)) s2 es2" by (intro less) auto
        show ?thesis
        proof (cases c)
          case None
          with True Inl st st' b b' show ?thesis by (intro echoes_moved [OF _ _ again]) auto
        next
          case (Some reason)
          with True Inl st st' b b' show ?thesis
            by (intro echoes_moved [OF _ _ erases_atD [OF erases_stop(1)]]) auto
        qed
      qed
    qed
  qed
qed

lemma erases_reserve [simp]: "erases (reserve_or_fail (recording env) h u) (reserve_or_fail env h u)"
proof (unfold erases_iff_at, intro allI)
  fix s es
  obtain r s1 where m: "en_reserve_usage env u s = (r, s1)" by fastforce
  then obtain es1 where m': "en_reserve_usage (recording env) u (s, es) = (r, (s1, es1))"
    using erasesD recording_calls(5) by metis
  consider (ok) x where "r = Inr x" | (refused) e where "r = Inl (Fault e)" | (panic) p where "r = Inl (Panic p)"
    by (cases r; metis fault.exhaust)
  then show "erases_at (reserve_or_fail (recording env) h u) (reserve_or_fail env h u) s es"
  proof cases
    case refused
    with m m' show ?thesis
      by (intro echoes_moved [OF _ _ erases_atD [OF erases_stop(2)]]) (auto simp: reserve_or_fail_def)
  qed (use m m' in \<open>auto simp: reserve_or_fail_def\<close>)
qed

lemma erases_read_event [simp]: "erases (read_event (recording env) h e rd) (read_event env h e rd)"
  by (cases e) (auto intro!: erases_bind erases_go_bind)

lemma erases_read_stream [simp]:
  "erases (read_stream (recording env) mr h n attempt steps rd) (read_stream env mr h n attempt steps rd)"
proof (unfold erases_iff_at, intro allI)
  fix s es
  show "erases_at (read_stream (recording env) mr h n attempt steps rd) (read_stream env mr h n attempt steps rd) s es"
  proof (induction "n - attempt" arbitrary: attempt steps rd s es rule: less_induct)
    case (less attempt steps rd s es)
    note retry = less
    show ?case
    proof (induction steps arbitrary: rd s es)
      case Nil
      show ?case by simp
    next
      case (Cons step steps rd s es)
      show ?case
      proof (cases step)
        case (StreamEvent e)
        have "erases_at (go_bind (read_event (recording env) h e rd) (read_stream (recording env) mr h n attempt steps))
          (go_bind (read_event env h e rd) (read_stream env mr h n attempt steps)) s es"
          by (intro erases_atD erases_go_bind erases_read_event) (simp add: erases_iff_at Cons.IH)
        then show ?thesis
          using StreamEvent by (cases e) auto
      next
        case (StreamCancelled reason)
        then show ?thesis by (intro echoes_moved [OF _ _ erases_atD [OF erases_stop(1)]]) auto
      next
        case (StreamError e)
        show ?thesis
        proof (cases "pv_retryable e \<and> \<not> rd_progressed rd \<and> attempt < n")
          case False
          with StreamError show ?thesis by (intro echoes_moved [OF _ _ erases_atD [OF erases_stop(2)]]) auto
        next
          case True
          obtain c s1 where b: "en_backoff env (attempt + 1) s = (c, s1)" by fastforce
          then obtain es1 where b': "en_backoff (recording env) (attempt + 1) (s, es) = (c, (s1, es1))"
            using erasesD recording_calls(9) by metis
          obtain r s2 where st: "en_stream env mr s1 = (r, s2)" by fastforce
          then obtain es2 where st': "en_stream (recording env) mr (s1, es1) = (r, (s2, es2))"
            using erasesD recording_calls(8) by metis
          from True have again: "erases_at (read_stream (recording env) mr h n (attempt + 1) new rd)
              (read_stream env mr h n (attempt + 1) new rd) s2 es2" for new
            by (intro retry) auto
          show ?thesis
          proof (cases c)
            case (Some reason)
            with True StreamError b b' show ?thesis
              by (intro echoes_moved [OF _ _ erases_atD [OF erases_stop(1)]]) auto
          next
            case None
            with True StreamError b b' st st' show ?thesis
              by (cases r) (auto intro: echoes_moved [OF _ _ again]
                  echoes_moved [OF _ _ erases_atD [OF erases_stop(2)]])
          qed
        qed
      qed
    qed
  qed
qed

lemma erases_summary_or_none: "erases m' m \<Longrightarrow> erases (summary_or_none m') (summary_or_none m)"
proof (rule erasesI)
  fix s es assume m: "erases m' m"
  obtain r t where r: "m s = (r, t)" by fastforce
  from erasesD [OF m r] obtain es1 where "m' (s, es) = (r, (t, es1))" by blast
  with r show "\<exists>es'. summary_or_none m' (s, es) = (fst (summary_or_none m s), (snd (summary_or_none m s), es'))"
    by (auto simp: summary_or_none_def split: sum.split fault.split)
qed

lemma erases_compact [simp]: "erases (compact_turn (recording env) n h) (compact_turn env n h)"
  by (auto simp: compact_turn_def wanted_summary_def Let_def intro!: erases_bind erases_summary_or_none)

lemma erases_final [simp]: "erases (final_answer (recording env) is_last st) (final_answer env is_last st)"
  by (auto simp: final_answer_def Let_def intro!: erases_bind)

lemma erases_tools [simp]: "erases (run_tools (recording env) rq is_last calls st) (run_tools env rq is_last calls st)"
  unfolding run_tools_def result_message_def [abs_def] recording_fields
  by (intro erases_bind erases_batch) (auto simp: Let_def split: option.split)

lemma erases_answer [simp]: "erases (answer_turn (recording env) rq is_last h rd) (answer_turn env rq is_last h rd)"
  by (auto simp: answer_turn_def Let_def intro!: erases_bind)

lemma erases_read_model [simp]: "erases (read_model (recording env) rq st h) (read_model env rq st h)"
  unfolding read_model_def
  by (rule erases_bind, rule erases_read, simp, rule erases_go_bind, rule erases_open)
     (auto split: prod.split)

lemma erases_turn [simp]: "erases (turn (recording env) rq is_last st) (turn env rq is_last st)"
  unfolding turn_def
  by (rule erases_bind, rule erases_read, simp)
     (auto intro!: erases_bind erases_go_bind split: option.split)

lemma erases_turns [simp]: "erases (turns (recording env) rq n st) (turns env rq n st)"
  by (induction n arbitrary: st) (auto intro!: erases_bind split: step_result.split)

lemma erases_run: "erases (run (recording env) rq) (run env rq)"
  unfolding run_def begin_run_def Let_def
  by (intro erases_bind erases_if erases_read recording_calls recording_reads erases_emit erases_ok erases_stop erases_turns)

text \<open>The events a sink accepts during a run.\<close>

definition run_log :: "('s, 'h) agent_env \<Rightarrow> agent_request \<Rightarrow> 's \<Rightarrow> canonical_event list" where
  "run_log env rq s = snd (snd (run (recording env) rq (s, [])))"

lemma run_recording: "run (recording env) rq (s, []) = (fst (run env rq s), (snd (run env rq s), run_log env rq s))"
proof -
  obtain es where "run (recording env) rq (s, []) = (fst (run env rq s), (snd (run env rq s), es))"
    using erases_run [of env rq] unfolding erases_def by meson
  then show ?thesis by (simp add: run_log_def)
qed

end
