(* ===== verification/Agent_Samples.thy ===== *)
theory Agent_Samples
  imports Agent_Erasure
begin

text \<open>
  Concrete environments and a run in them, evaluated step by step: the model asks for one tool,
  reads its result and answers.
\<close>

definition read_call :: tool_call where
  "read_call = \<lparr>mc_call_id = ''c1'', mc_name = ''read'', mc_arguments = [(''path'', JString ''a.txt'')]\<rparr>"

text \<open>
  An environment with one tool, \<open>read\<close>, that needs approval and gets it. Its state is the list
  of the replies the model will give; \<open>j\<close> and \<open>g\<close> say how running tools end.
\<close>

definition sample_env_with :: "join_step \<Rightarrow> grace_step \<Rightarrow> (stream_step list list, unit) agent_env" where
  "sample_env_with j g = \<lparr>en_mask = (\<lambda>t. t), en_json_text = (\<lambda>_. ''{}''), en_host = (\<lambda>_. None), en_glob = (\<lambda>_. None),
     en_emit = (\<lambda>e x. act_ok sample_envelope), en_load_history = act_ok [],
     en_before_compaction = (\<lambda>h. act_ok ()), en_summarize = (\<lambda>h n. act_ok None),
     en_reserve_usage = (\<lambda>u. act_ok ()), en_drain_steers = act_ok [],
     en_request_approval = (\<lambda>q. act_ok (gate_decided Approved)),
     en_stream = (\<lambda>mr s. case s of [] \<Rightarrow> (Inl \<lparr>pv_code = ''gone'', pv_message = ''no reply'', pv_retryable = True\<rparr>, [])
        | steps # rest \<Rightarrow> (Inr steps, rest)),
     en_backoff = (\<lambda>n s. (None, s)), en_cancel_reason = (\<lambda>s. None),
     en_registry = (\<lambda>s. [(''read'', sample_tool ''read'')]), en_eager_limit = None, en_active_tools = (\<lambda>s. []),
     en_session_rules = (\<lambda>s. None), en_rule_source = (\<lambda>s. None), en_policy = new_policy (Some Allow),
     en_instructions = (\<lambda>s. Some ''be brief''), en_progress = (\<lambda>s. None), en_uuid = (\<lambda>s. (''u'', s)),
     en_snapshot = (\<lambda>c w s. (Inr None, s)),
     en_join = (\<lambda>h cs s. (j, s)),
     en_grace = (\<lambda>h cs s. (g, s)), en_hash_picks = []\<rparr>"

definition sample_env :: "(stream_step list list, unit) agent_env" where
  "sample_env = sample_env_with (TaskDone 0 (ToolReturned (tool_ok (JString ''text'')))) (GraceTimeout None)"

text \<open>A cancellation whose grace period expires while the result of the first task is published.\<close>

definition cut_env :: "(stream_step list list, unit) agent_env" where
  "cut_env = sample_env_with (BatchCancelled ''stop'') (GraceTimeout (Some 0))"

definition sample_request :: agent_request where
  "sample_request = \<lparr>gr_model = ''m'', gr_history = [], gr_user_input = ''go'', gr_user_parts = [],
     gr_user_replay_parts = [], gr_system_prompt = None, gr_mode = None, gr_temperature = 0, gr_max_tokens = None,
     gr_limits = \<lparr>al_max_iterations = 2, al_max_total_tokens = Some 100, al_max_cost_micro_usd = None,
       al_context_tokens = 1000, al_max_provider_retries = 1\<rparr>, gr_tool_names = None\<rparr>"

definition some_usage :: "64 word \<Rightarrow> usage" where
  "some_usage n = no_usage\<lparr>us_prompt_tokens := n, us_total_tokens := n\<rparr>"

definition sample_replies :: "stream_step list list" where
  "sample_replies =
     [[StreamEvent (ModelToolCall read_call), StreamEvent (ModelUsage (some_usage 7)), StreamEvent (ModelFinish None)],
      [StreamEvent (ModelContent ''done''), StreamEvent (ModelUsage (some_usage 5)), StreamEvent (ModelFinish None)]]"

lemma sample_fields:
  "en_mask (sample_env_with j g) = (\<lambda>t. t)" "en_json_text (sample_env_with j g) = (\<lambda>_. ''{}'')" "en_host (sample_env_with j g) = (\<lambda>_. None)"
  "en_glob (sample_env_with j g) = (\<lambda>_. None)"
  "en_emit (sample_env_with j g) e x = act_ok sample_envelope" "en_load_history (sample_env_with j g) = act_ok []"
  "en_before_compaction (sample_env_with j g) h = act_ok ()" "en_summarize (sample_env_with j g) h n = act_ok None"
  "en_reserve_usage (sample_env_with j g) u = act_ok ()" "en_drain_steers (sample_env_with j g) = act_ok []"
  "en_request_approval (sample_env_with j g) q = act_ok (gate_decided Approved)"
  "en_stream (sample_env_with j g) mr (steps # rest) = (Inr steps, rest)"
  "en_cancel_reason (sample_env_with j g) s = None"
  "en_registry (sample_env_with j g) s = [(''read'', sample_tool ''read'')]" "en_eager_limit (sample_env_with j g) = None" "en_active_tools (sample_env_with j g) s = []"
  "en_session_rules (sample_env_with j g) s = None" "en_rule_source (sample_env_with j g) s = None" "en_policy (sample_env_with j g) = new_policy (Some Allow)"
  "en_instructions (sample_env_with j g) s = Some ''be brief''" "en_progress (sample_env_with j g) s = None" "en_uuid (sample_env_with j g) = (\<lambda>s. (''u'', s))"
  "en_snapshot (sample_env_with j g) c w = (\<lambda>s. (Inr None, s))"
  "en_join (sample_env_with j g) h cs s = (j, s)" "en_grace (sample_env_with j g) h cs s = (g, s)"
  "en_hash_picks (sample_env_with j g) = []"
  by (simp_all add: sample_env_with_def)

lemma matched_sample: "matched_rule (sample_env_with j g) call s = None"
  by (simp add: matched_rule_def sample_fields find_rule_def policy_match_rule_def new_policy_def match_rules_def or_else_def)

lemma decision_sample: "call_decision (sample_env_with j g) call (sample_tool ''read'') s = Ask"
  unfolding call_decision_def matched_sample sample_fields gate_decision_def 
  by (simp add: new_policy_def evaluate_def btree_set_def resolve_def stricter_def sample_tool_def new_tool_def max_def less_eq_decision_def unwrap_or_def or_else_def)

lemma gate_sample: "gate_call (sample_env_with j g) None read_call s = (Inr (Admitted (sample_tool ''read'')), s)"
proof -
  have "hidden_until_activated (sample_env_with j g) (mc_name read_call) s = False"
    by (simp add: hidden_until_activated_def is_tool_deferred_def sample_fields is_deferred_def sample_tool_def new_tool_def eager_tool_limit_def read_call_def
     starts_with_def)
  moreover have "registry_get (en_registry (sample_env_with j g) s) (mc_name read_call) = Some (sample_tool ''read'')"
    by (simp add: sample_fields registry_get_def read_call_def)
  ultimately show ?thesis
   by (simp add: gate_call_def hidden_by_allowlist_def decision_sample ask_approval_def act_bind_def act_do_def act_ok_def gate_decided_def sample_fields)
qed

lemma compact_turn_small:
  assumes "history_tokens (en_json_text env) h \<le> compaction_trigger n"
  shows "compact_turn env n h s = (Inr h, s)"
proof -
  have "compaction_trigger n \<le> n" by (auto simp: compaction_trigger_def min_def) 
  with assms have "history_tokens (en_json_text env) h \<le> n" by simp
  with assms show ?thesis
    by (simp add: compact_turn_def wanted_summary_def compact_history_def act_bind_def act_ok_def Let_def)
qed

lemma gates_sample: "gate_calls (sample_env_with j g) None [(0, read_call)] ([], [], []) s =
    (Inr ([], [(0, read_call, sample_tool ''read'')], [(''c1'', ee_seq sample_envelope)]), s)"
  by (simp add: act_bind_def emit_def sample_fields act_ok_def gate_sample) (simp add: read_call_def)

lemma prepare_sample: "prepare_calls (sample_env_with j g) seqs [(0, read_call, tool)] s = (Inr (), s)"
  by (simp add: act_bind_def sample_fields act_ok_def act_do_def)

lemmas sample_env_fields = sample_fields [of "TaskDone 0 (ToolReturned (tool_ok (JString ''text'')))" "GraceTimeout None", folded sample_env_def]
lemmas cut_env_fields = sample_fields [of "BatchCancelled ''stop''" "GraceTimeout (Some 0)", folded cut_env_def]

lemma begin_sample: "begin_run sample_env sample_request s =
   (Inr [text_message SystemRole ''be brief'', text_message UserRole ''go''], s)"
  by (simp add: begin_run_def sample_env_fields act_bind_def act_ok_def act_read_def emit_def sample_request_def
     prepare_history_def add_system_prompt_def add_optional_section_def add_section_def has_deferred_tools_def
    is_deferred_def sample_tool_def new_tool_def eager_tool_limit_def replay_extensions_def message_with_parts_def text_message_def Let_def starts_with_def)


lemma batch_sample:
  "execute_tool_batch sample_env h None [read_call] s =
     (Inr \<lparr>bo_results = [(read_call, tool_ok (JString ''text''))], bo_cancelled = None\<rparr>, s)"
proof -
  have result: "emit_tool_result sample_env read_call (tool_ok (JString ''text'')) s = (Inr (), s)"
    by (simp add: emit_tool_result_def emit_def tool_ok_def act_bind_def sample_env_fields act_ok_def)
  have plan: "emit_plan_events sample_env read_call r s = (Inr (), s)" for r
    by (simp add: emit_plan_events_def read_call_def act_ok_def)
  have ending: "ending_result (\<lambda>t. t) (ToolReturned (tool_ok (JString ''text''))) = tool_ok (JString ''text'')"
    by (simp add: ending_result_def masked_result_def tool_ok_def sample_env_fields)
  have join: "join_loop sample_env h [(0, read_call, tool)] ([], [(0, read_call)]) s =
      (Inr (([(0, read_call, tool_ok (JString ''text''))], []), None), s)" for tool
    by (subst join_branches(2) [where k = 0 and ending = "ToolReturned (tool_ok (JString ''text''))" and index = 0
          and call = read_call and tool = tool and ?s1.0 = s])
       (simp_all add: sample_env_fields pick_at_def remove_at_def ending result plan act_bind_def act_ok_def join_branches(1) without_index_def
       flip: One_nat_def)
  show ?thesis
    unfolding execute_tool_batch_def
    by (simp add: gates_sample [of "TaskDone 0 (ToolReturned (tool_ok (JString ''text'')))" "GraceTimeout None", folded sample_env_def]
        prepare_sample [of "TaskDone 0 (ToolReturned (tool_ok (JString ''text'')))" "GraceTimeout None", folded sample_env_def] join act_bind_def act_ok_def still_pending_def del: gate_calls.simps prepare_calls.simps)
qed


lemma turn_one:
  assumes "h = [text_message SystemRole ''be brief'', text_message UserRole ''go'']"
  shows "turn sample_env sample_request False \<lparr>ts_history = h, ts_usage = no_usage, ts_cost_complete = True\<rparr> sample_replies =
    (Inr (Go \<lparr>ts_history = h @ [assistant_message \<lparr>rd_content = [], rd_calls = [read_call], rd_progressed = True,
          rd_usage_observed = True, rd_total_usage = some_usage 7, rd_cost_complete = False\<rparr>,
        result_message sample_env (read_call, tool_ok (JString ''text''))],
      ts_usage = some_usage 7, ts_cost_complete = False\<rparr>), tl sample_replies)"
proof -
  have compact: "compact_turn sample_env 1000 h s = (Inr h, s)" for s
    by (rule compact_turn_small) (simp add: assms sample_env_fields history_tokens_def message_tokens_def text_message_def compaction_trigger_def unwrap_or_def)
  show ?thesis
    by (simp add: turn_def read_model_def answer_turn_def run_tools_def act_bind_def go_bind_def act_ok_def act_read_def
      sample_env_fields sample_request_def sample_replies_def compact emit_def count_usage_def reserve_or_fail_def over_budget_def
      limits_exceeded_def some_usage_def no_usage_def add_usage_def saturating_add_def batch_sample Let_def assistant_message_def)
qed
lemma turn_two:
  assumes "h = h0 @ [assistant_message \<lparr>rd_content = [], rd_calls = [read_call], rd_progressed = True,
          rd_usage_observed = True, rd_total_usage = some_usage 7, rd_cost_complete = False\<rparr>,
        result_message sample_env (read_call, tool_ok (JString ''text''))]"
    and "h0 = [text_message SystemRole ''be brief'', text_message UserRole ''go'']"
  shows "\<exists>h' u. turn sample_env sample_request True
    \<lparr>ts_history = h, ts_usage = some_usage 7, ts_cost_complete = False\<rparr> (tl sample_replies) =
      (Inr (Halt (RunDone h' u)), []) \<and> us_total_tokens u = 12"
proof -
  have compact: "compact_turn sample_env 1000 h s = (Inr h, s)" for s
    by (rule compact_turn_small) (simp add: assms sample_env_fields history_tokens_def message_tokens_def text_message_def
        compaction_trigger_def unwrap_or_def assistant_message_def result_message_def tool_result_message_def read_call_def
        call_tokens_def tool_ok_def with_diagnostics_def)
  show ?thesis
    by (simp add: turn_def read_model_def answer_turn_def final_answer_def act_bind_def go_bind_def act_ok_def act_read_def
      sample_env_fields sample_request_def sample_replies_def compact emit_def count_usage_def reserve_or_fail_def over_budget_def
      limits_exceeded_def some_usage_def no_usage_def add_usage_def saturating_add_def Let_def assistant_message_def)
qed

lemma run_sample:
  "\<exists>h u. fst (run sample_env sample_request sample_replies) = Inr (RunDone h u) \<and> us_total_tokens u = 12"
proof -
  let ?h = "[text_message SystemRole ''be brief'', text_message UserRole ''go'']"
  have limit: "al_max_iterations (gr_limits sample_request) = Suc (Suc 0)"
    by (simp add: sample_request_def)
  from turn_two [OF refl refl] show ?thesis
    by (auto simp: run_def begin_sample act_bind_def turn_one [OF refl] act_ok_def limit)
qed

text \<open>A result that is cut off in publication is neither an event nor a message.\<close>

lemma cut_publication_loses_result:
  "execute_tool_batch cut_env h None [read_call] s = (Inr \<lparr>bo_results = [], bo_cancelled = Some ''stop''\<rparr>, s)"
proof -
  have grace: "grace_loop cut_env h [(0, read_call, tool)] ([], [(0, read_call)]) s = (Inr ([], []), s)" for tool
    by (subst grace_branches(5)) (simp_all add: cut_env_fields pick_at_def without_index_def)
  have join: "join_loop cut_env h [(0, read_call, tool)] ([], [(0, read_call)]) s = (Inr (([], []), Some ''stop''), s)" for tool
    by (subst join_branches(4) [where reason = "''stop''" and ?s1.0 = s])
       (simp_all add: cut_env_fields grace act_bind_def act_ok_def)
  show ?thesis
    unfolding execute_tool_batch_def
    by (simp add: gates_sample [of "BatchCancelled ''stop''" "GraceTimeout (Some 0)", folded cut_env_def]
        prepare_sample [of "BatchCancelled ''stop''" "GraceTimeout (Some 0)", folded cut_env_def]
        join act_bind_def act_ok_def still_pending_def cut_env_fields del: gate_calls.simps prepare_calls.simps)
qed

end
