(* ===== verification/Agent_Claims.thy ===== *)
theory Agent_Claims
  imports Agent_Samples
begin

text \<open>
  The properties of the agent loop, stated on \<open>run\<close> and on the log of the events its
  sink accepted. Each language of events is an interpretation of \<open>agent_language\<close> on
  the recording environments, so its property is the contract of a run read in that language.
\<close>

section \<open>Endings\<close>

fun closes :: "canonical_event \<Rightarrow> bool" where
  "closes (RunCompleted _) = True"
| "closes (RunFailed _) = True"
| "closes (RunCancelled _) = True"
| "closes _ = False"

lemma open_harmless: "harmless (\<lambda>e. \<not> closes e)"
  unfolding harmless_def by (auto elim: closes.elims)

interpretation closing: agent_language "recording env" snd "list_all (\<lambda>e. \<not> closes e)" "list_all (\<lambda>e. \<not> closes e)" rq
  for env :: "('s, 'h) agent_env" and rq
proof (intro agent_language.intro recorded.agent_sink_axioms list_all_language agent_language_axioms.intro)
  show "plain_event e \<Longrightarrow> list_all (\<lambda>e. \<not> closes e) [e]" for e
    using open_harmless by (simp add: harmless_def)
  show "keeps snd (\<lambda>e. \<not> closes e) (\<lambda>_. True) (execute_tool_batch (recording env) snap (gr_tool_names rq) calls)"
    for snap calls
    by (rule recorded.batch_keeps [OF open_harmless]) (simp_all add: started_event_def)
qed

text \<open>Property C2. The sink of a run that returns an outcome has accepted exactly one closing
  event, it is the last one and names the outcome (completed, failed with its code, cancelled with
  its reason), and a run that completed has stayed within its token and cost limits; a run that stops
  with an error of its sink or with a panic has published no closing event at all.\<close>

theorem run_closes_once:
  "case fst (run env rq s) of
     Inr outcome \<Rightarrow> (\<exists>pre. run_log env rq s = pre @ [closing_event outcome] \<and> list_all (\<lambda>e. \<not> closes e) pre) \<and>
       within_limits (gr_limits rq) outcome
   | Inl _ \<Rightarrow> list_all (\<lambda>e. \<not> closes e) (run_log env rq s)"
  using closing.run_ends [where env = env and rq = rq and s = "(s, [])"]
  by (auto simp: ends_at_def traces_at_def run_recording ends_with_outcome_def split: sum.splits)

section \<open>Permission\<close>

definition permitted_start :: "('s, 'h) agent_env \<Rightarrow> string list option \<Rightarrow> canonical_event \<Rightarrow> bool" where
  "permitted_start env names e \<longleftrightarrow> (case e of
      ToolStarted p \<Rightarrow> \<exists>call tool s. e = started_event call \<and> admissible env names call tool s
    | _ \<Rightarrow> True)"

lemma permitted_harmless: "harmless (permitted_start env names)"
  unfolding harmless_def permitted_start_def by (auto split: canonical_event.split)

lemma admitted_permitted:
  assumes "gate_call (recording env) names call x = (Inr (Admitted tool), x1)"
  shows "permitted_start env names (started_event call)"
proof -
  obtain s es where x: "x = (s, es)" by (cases x)
  have "fst (gate_call env names call s) = Inr (Admitted tool)"
    using assms erases_gate [of env names call] unfolding x erases_def by (metis fst_conv)
  then have "gate_call env names call s = (Inr (Admitted tool), snd (gate_call env names call s))"
    by (metis prod.collapse)
  then have "admissible env names call tool s" by (rule gate_call_admissible)
  then show ?thesis unfolding permitted_start_def by (auto simp: started_event_def)
qed

interpretation permitted: agent_language "recording env" snd
    "list_all (permitted_start env (gr_tool_names rq))" "list_all (permitted_start env (gr_tool_names rq))" rq
  for env :: "('s, 'h) agent_env" and rq
proof (intro agent_language.intro recorded.agent_sink_axioms list_all_language agent_language_axioms.intro)
  show "plain_event e \<Longrightarrow> list_all (permitted_start env (gr_tool_names rq)) [e]" for e
    using permitted_harmless [of env "gr_tool_names rq"] by (simp add: harmless_def)
  show "keeps snd (permitted_start env (gr_tool_names rq)) (\<lambda>_. True)
      (execute_tool_batch (recording env) snap (gr_tool_names rq) calls)" for snap calls
    by (rule recorded.batch_keeps [OF permitted_harmless])
       (simp add: permitted_start_def, rule admitted_permitted)
qed


section \<open>Answers\<close>

lemma answers_language: "language (answers {}) (\<lambda>_. True)"
  by unfold_locales (simp_all add: answers_append [of "{}" _ "{}", simplified])

lemma fst_lifted: "fst (lifted m x) = fst (m (fst x))"
  by (simp add: lifted_def split_def)

lemma recording_tasks: "tasks_return env \<Longrightarrow> tasks_return (recording env)"
  unfolding tasks_return_def by (simp add: recording_def fst_lifted)

lemma answering_language:
  assumes "tasks_return env"
  shows "agent_language (recording env) snd (answers {}) (\<lambda>_. True) rq"
proof (intro agent_language.intro recorded.agent_sink_axioms answers_language agent_language_axioms.intro)
  show "plain_event e \<Longrightarrow> answers {} [e]" for e
    using harmless_requests by (intro no_request_answers) (simp add: harmless_def)
  show "speaks snd (answers {}) (\<lambda>_. True) (\<lambda>_. True)
      (execute_tool_batch (recording env) snap (gr_tool_names rq) calls)" for snap calls
    by (rule speaksI, rule traces_weaken [OF recorded.batch_answers [OF recording_tasks [OF assms]]])
       (auto split: sum.splits)
qed

lemma closing_unanswered [simp]: "answer_step U (closing_event outcome) = U"
  by (cases outcome) simp_all



text \<open>Under the same hypothesis a batch of tool calls returns exactly one result per
  call, in the order of the calls, whatever the order in which the tools end and whether or not the
  batch is cancelled.\<close>

theorem batch_results_follow_calls:
  assumes "tasks_return env" and "fst (execute_tool_batch env snap names calls s) = Inr b"
  shows "map fst (bo_results b) = calls"
proof -
  have "fst (execute_tool_batch (recording env) snap names calls (s, [])) = Inr b"
    using erases_batch [of env snap names calls] assms(2) unfolding erases_def by (metis fst_conv)
  with recorded.batch_answers [OF recording_tasks [OF assms(1)], of snap names calls "(s, [])"] show ?thesis
    by (auto simp: traces_at_def)
qed

theorem batch_results_follow_calls_witness:
  "\<exists>b. fst (execute_tool_batch sample_env [] None [read_call] []) = Inr b \<and> map fst (bo_results b) = [read_call]"
proof -
  have "tasks_return sample_env"
    by (simp add: tasks_return_def sample_env_fields)
  moreover have "fst (execute_tool_batch sample_env [] None [read_call] []) =
      Inr \<lparr>bo_results = [(read_call, tool_ok (JString ''text''))], bo_cancelled = None\<rparr>"
    by (simp only: batch_sample fst_conv)
  ultimately show ?thesis by (metis batch_results_follow_calls)
qed

section \<open>Advertised tools\<close>

text \<open>The tools a run offers to the model are exactly those whose calls the gate hands
  on to the policy: a definition is in the model request iff a tool with that definition is registered
  under its name, allowed in the run and not waiting to be activated.\<close>

theorem advertised_iff_gated:
  assumes "registry_ok (en_registry env s)"
  shows "def \<in> set (mr_tools (model_request_for env rq h s)) \<longleftrightarrow>
     (\<exists>tool. registry_get (en_registry env s) (df_name def) = Some tool \<and> tx_definition tool = def \<and>
        \<not> hidden_by_allowlist (gr_tool_names rq) (df_name def) \<and> \<not> hidden_until_activated env (df_name def) s)"
proof -
  have "def \<in> set (mr_tools (model_request_for env rq h s)) \<longleftrightarrow>
      def \<in> set (visible_definitions (en_eager_limit env) (en_registry env s) (en_active_tools env s)) \<and>
      \<not> hidden_by_allowlist (gr_tool_names rq) (df_name def)"
    by (auto simp: model_request_for_def)
  then show ?thesis
    unfolding visible_definitions_iff [OF assms] hidden_until_activated_def is_tool_deferred_def
    by (auto simp: registry_get_def)
qed

theorem advertised_iff_gated_witness:
  "tx_definition (sample_tool ''read'') \<in> set (mr_tools (model_request_for sample_env sample_request [] []))"
proof -
  have "registry_ok (en_registry sample_env [])"
    by (simp add: sample_env_fields registry_ok_def bt_ok_def sample_tool_def new_tool_def)
  from advertised_iff_gated [OF this] show ?thesis
    by (simp add: sample_env_fields registry_get_def sample_tool_def new_tool_def hidden_by_allowlist_def sample_request_def
        hidden_until_activated_def is_tool_deferred_def is_deferred_def eager_tool_limit_def starts_with_def)
qed

section \<open>The iteration limit\<close>

lemma halt_not_go: "halt m s \<noteq> (Inr (Go st), s1)"
  by (auto simp: halt_def act_bind_def act_ok_def split: prod.splits sum.splits)

lemma final_not_go: "final_answer env True st s \<noteq> (Inr (Go st1), s1)"
  by (auto simp: final_answer_def act_bind_def act_ok_def Let_def halt_not_go split: prod.splits sum.splits if_splits)

lemma tools_not_go: "run_tools env rq True calls st s \<noteq> (Inr (Go st1), s1)"
  by (auto simp: run_tools_def act_bind_def act_ok_def Let_def halt_not_go split: prod.splits sum.splits option.splits)

lemma last_turn_halts: "turn env rq True st s \<noteq> (Inr (Go st1), s1)"
  by (auto simp: turn_def answer_turn_def Let_def act_bind_def act_ok_def act_read_def go_bind_def halt_not_go
      final_not_go tools_not_go split: prod.splits sum.splits option.splits step_result.splits if_splits)

text \<open>The loop of a run never reaches the end of its iterations: when it panics, one of
  its turns panicked, so the unreachable statement after the loop is not executed, however many
  iterations the limit allows.\<close>

theorem iterations_never_run_out:
  assumes "turns env rq (Suc n) st s = (Inl (Panic p), s')"
  shows "\<exists>is_last st1 s1. turn env rq is_last st1 s1 = (Inl (Panic p), s')"
  using assms
proof (induction n arbitrary: st s)
  case 0
  obtain r s1 where turn: "turn env rq True st s = (r, s1)" by fastforce
  with 0 have "r = Inl (Panic p) \<and> s1 = s'"
    by (auto simp: last_turn_halts act_bind_def act_ok_def split: sum.splits step_result.splits)
  with turn show ?case by blast
next
  case (Suc n)
  show ?case
  proof (cases "turn env rq False st s")
    case (Pair r s1)
    with Suc.prems show ?thesis
      by (auto simp: act_bind_def act_ok_def split: sum.splits step_result.splits intro: Suc.IH)
  qed
qed

definition panic_env :: "(stream_step list list, unit) agent_env" where
  "panic_env = sample_env\<lparr>en_drain_steers := act_fail (Panic ''boom'')\<rparr>"

theorem iterations_never_run_out_witness:
  "\<exists>is_last st1 s1. turn panic_env sample_request is_last st1 s1 = (Inl (Panic ''boom''), [])"
proof (rule iterations_never_run_out)
  show "turns panic_env sample_request (Suc 0) \<lparr>ts_history = [], ts_usage = no_usage, ts_cost_complete = True\<rparr> [] =
      (Inl (Panic ''boom''), [])"
    by (simp add: turn_def act_bind_def act_read_def act_fail_def panic_env_def sample_env_fields)
qed

section \<open>System sections\<close>

lemma non_system_add_section [simp]: "non_system (add_section section h) = non_system h"
proof -
  have "non_system (extend_first section h) = non_system h"
    by (induction h) (auto simp: non_system_def takes_sections_def append_section_def)
  then show ?thesis
    by (simp add: add_section_def non_system_def text_message_def)
qed

text \<open>Preparing the history of a run adds system text only: the messages of the user, of
  the assistant and of the tools are the loaded ones, in their order, and no system message is lost.\<close>

theorem sections_keep_messages:
  "non_system (prepare_history env rq h s) = non_system h \<and>
   length (filter (\<lambda>m. mg_role m = SystemRole) h) \<le> length (filter (\<lambda>m. mg_role m = SystemRole) (prepare_history env rq h s))"
proof -
  have prompt: "non_system (add_system_prompt p h) = non_system h" for p h
    by (simp add: add_system_prompt_def non_system_def text_message_def split: option.split)
  have grown: "length (filter (\<lambda>m. mg_role m = SystemRole) h) \<le> length (filter (\<lambda>m. mg_role m = SystemRole) (add_section x h))" for x h
  proof -
    have "length (filter (\<lambda>m. mg_role m = SystemRole) (extend_first x h)) = length (filter (\<lambda>m. mg_role m = SystemRole) h)"
      by (induction h) (auto simp: takes_sections_def append_section_def)
    then show ?thesis by (simp add: add_section_def text_message_def)
  qed
  have grown_prompt: "length (filter (\<lambda>m. mg_role m = SystemRole) h) \<le>
      length (filter (\<lambda>m. mg_role m = SystemRole) (add_system_prompt p h))" for p h
    by (simp add: add_system_prompt_def text_message_def split: option.split)
  have "non_system (add_optional_section x h) = non_system h \<and>
      length (filter (\<lambda>m. mg_role m = SystemRole) h) \<le> length (filter (\<lambda>m. mg_role m = SystemRole) (add_optional_section x h))" for x h
    using grown by (simp add: add_optional_section_def split: option.split)
  with prompt grown grown_prompt show ?thesis
    unfolding prepare_history_def Let_def by (smt (verit) non_system_add_section le_trans)
qed

end
