(* ===== verification/Agent_Store.thy ===== *)
theory Agent_Store
  imports Agent_Claims State_Machine
begin

text \<open>
  \<open>StoreEventSink\<close> of \<open>crates/cool-agent/src/loop_runtime.rs\<close>, the sink that
  writes the events of a run into the durable store, charges its usage to a budget window and
  rebuilds the history of its session from the stored events. The state it acts on is a record
  with the database and a counter of drawn ids and clock readings, extended by whatever else the
  environment of a run keeps; \<open>u\<close> and \<open>t\<close> are the ids and readings.
\<close>

section \<open>The sink\<close>

record world =
  wd_db :: db
  wd_draws :: nat

record store_sink =
  sk_owner :: string
  sk_session :: string
  sk_run :: string
  sk_window :: "string option"

definition agent_actor :: actor_ref where
  "agent_actor = \<lparr>ar_id = ''cool-agent'', ar_kind = System\<rparr>"

text \<open>\<open>mask_canonical_event\<close>; the text of the reader's error is left out.\<close>

definition mask_canonical_event :: "(string \<Rightarrow> string) \<Rightarrow> canonical_event \<Rightarrow> (runtime_error, canonical_event) result" where
  "mask_canonical_event ms e =
     ok_or (SinkFailure ''masked event is invalid'') (d_event (mask_json ms (event_json e)))"

text \<open>A closing cancellation or tool failure that someone else has already written is answered from the log.\<close>

definition is_cancelled_event :: "canonical_event \<Rightarrow> bool" where
  "is_cancelled_event e \<longleftrightarrow> (case e of RunCancelled _ \<Rightarrow> True | _ \<Rightarrow> False)"

definition failed_call :: "canonical_event \<Rightarrow> string option" where
  "failed_call e = (case e of ToolFailed p \<Rightarrow> Some (tf_call_id p) | _ \<Rightarrow> None)"

definition last_cancellation :: "event_envelope list \<Rightarrow> event_envelope option" where
  "last_cancellation es =
     (if es \<noteq> [] \<and> is_cancelled_event (ee_event (last es)) then Some (last es) else None)"

definition answer_in_log ::
    "store_sink \<Rightarrow> canonical_event \<Rightarrow> db \<Rightarrow> (store_error, event_envelope option) result" where
  "answer_in_log sk e db =
     (if is_cancelled_event e then
        ebind (load_run (sk_run sk) (sk_owner sk) db) (\<lambda>run.
        if sp_status run = Cancelled then
          ebind (all_events (sk_run sk) (sk_owner sk) db) (\<lambda>es. Inr (last_cancellation es))
        else Inr None)
      else case failed_call e of
        None \<Rightarrow> Inr None
      | Some call \<Rightarrow>
          ebind (load_run (sk_run sk) (sk_owner sk) db) (\<lambda>run.
          if is_terminal (sp_status run) then
            ebind (all_events (sk_run sk) (sk_owner sk) db) (\<lambda>es.
            Inr (find (\<lambda>x. failed_call (ee_event x) = Some call) es))
          else Inr None))"

definition sink_envelope ::
    "(nat \<Rightarrow> string) \<Rightarrow> (nat \<Rightarrow> string) \<Rightarrow> store_sink \<Rightarrow> canonical_event \<Rightarrow> json_map \<Rightarrow> nat \<Rightarrow> event_envelope" where
  "sink_envelope u t sk e x n = \<lparr>ee_event_id = ''event-'' @ u n, ee_session_id = sk_session sk,
     ee_run_id = sk_run sk, ee_item_id = None, ee_seq = 0, ee_occurred_at = t n, ee_actor = agent_actor,
     ee_source = ''cool-agent-m7'', ee_causation_id = None, ee_correlation_id = None, ee_event = e,
     ee_extensions = x\<rparr>"

definition store_emit ::
    "(string \<Rightarrow> string) \<Rightarrow> (nat \<Rightarrow> string) \<Rightarrow> (nat \<Rightarrow> string) \<Rightarrow> store_sink \<Rightarrow>
     canonical_event \<Rightarrow> json_map \<Rightarrow> ('x world_scheme, event_envelope) action" where
  "store_emit ms u t sk e x w =
     (case mask_canonical_event ms e of
        Inl err \<Rightarrow> (Inl (Fault err), w)
      | Inr e \<Rightarrow>
          (case answer_in_log sk e (wd_db w) of
             Inl err \<Rightarrow> (Inl (Fault (StoreFailure err)), w)
           | Inr (Some existing) \<Rightarrow> (Inr existing, w)
           | Inr None \<Rightarrow>
               (case append_event_auto ms (t (wd_draws w + 1)) (sk_owner sk)
                       (sink_envelope u t sk e x (wd_draws w)) (wd_db w) of
                  Inl err \<Rightarrow> (Inl (Fault (StoreFailure err)), w\<lparr>wd_draws := wd_draws w + 2\<rparr>)
                | Inr (envelope, db) \<Rightarrow> (Inr envelope, w\<lparr>wd_db := db, wd_draws := wd_draws w + 2\<rparr>))))"

definition usage_delta :: "usage \<Rightarrow> budget_delta" where
  "usage_delta u = \<lparr>bd_tokens = us_total_tokens u, bd_cost_microusd = us_cost_micro_usd u,
     bd_iterations = 1, bd_proactive_actions = 0\<rparr>"

definition store_reserve :: "store_sink \<Rightarrow> usage \<Rightarrow> ('x world_scheme, unit) action" where
  "store_reserve sk u w = (case sk_window sk of
      None \<Rightarrow> (Inr (), w)
    | Some window \<Rightarrow>
        (case reserve_budget (sk_owner sk) window (usage_delta u) (wd_db w) of
           Inl err \<Rightarrow> (Inl (Fault (StoreFailure err)), w)
         | Inr (_, db) \<Rightarrow> (Inr (), w\<lparr>wd_db := db\<rparr>)))"

section \<open>History\<close>

text \<open>The message an event stands for in the history of its session.\<close>

definition tool_message :: "string \<Rightarrow> string \<Rightarrow> string \<Rightarrow> message" where
  "tool_message call_id name content = \<lparr>mg_role = ToolRole, mg_content = Some content, mg_parts = None,
     mg_tool_calls = [], mg_tool_call_id = Some call_id, mg_name = Some name\<rparr>"

definition call_of_request :: "tool_requested \<Rightarrow> tool_call" where
  "call_of_request r = \<lparr>mc_call_id = tr_call_id r, mc_name = tr_name r, mc_arguments = tr_arguments r\<rparr>"

fun replayed_message :: "(json \<Rightarrow> string) \<Rightarrow> canonical_event \<Rightarrow> message option" where
  "replayed_message ser (ItemCompleted p) =
     (if ie_role p = Some ''user'' \<or> ie_role p = Some ''assistant'' then
        Some \<lparr>mg_role = (if ie_role p = Some ''user'' then UserRole else AssistantRole),
          mg_content = ie_content p, mg_parts = None, mg_tool_calls = map call_of_request (ie_tool_calls p),
          mg_tool_call_id = None, mg_name = None\<rparr>
      else None)"
| "replayed_message ser (ToolCompleted p) =
     Some (tool_message (tc_call_id p) (tc_name p) (ser (tc_result p)))"
| "replayed_message ser (ToolFailed p) =
     Some (tool_message (tf_call_id p) (tf_name p) (ser (JObject
       [(''error'', opt_json JString (tf_message p)), (''errorCode'', JString (tf_error_code p))])))"
| "replayed_message ser _ = None"

text \<open>A compaction marker with a summary, and the cursor up to which it covers the log.\<close>

fun replayed_summary :: "canonical_event \<Rightarrow> (string \<times> 64 word) option" where
  "replayed_summary (SessionCompacted p) = (case sc_summary p of
      None \<Rightarrow> None
    | Some s \<Rightarrow> if s = [] then None else Some (s, unwrap_or 0 (sc_compact_up_to_cursor p)))"
| "replayed_summary _ = None"

type_synonym numbered = "(64 word \<times> event_envelope) list"

definition replayed_entries :: "(json \<Rightarrow> string) \<Rightarrow> numbered \<Rightarrow> (64 word \<times> message) list" where
  "replayed_entries ser rows =
     List.map_filter (\<lambda>(cursor, e). map_option (Pair cursor) (replayed_message ser (ee_event e))) rows"

definition replayed_markers :: "numbered \<Rightarrow> (64 word \<times> string \<times> 64 word) list" where
  "replayed_markers rows =
     List.map_filter (\<lambda>(cursor, e). map_option (Pair cursor) (replayed_summary (ee_event e))) rows"

definition covered_through :: "numbered \<Rightarrow> 64 word" where
  "covered_through rows = foldl max 0 (map (\<lambda>(_, _, covered). covered) (replayed_markers rows))"

definition insert_clamped :: "nat \<Rightarrow> 'a \<Rightarrow> 'a list \<Rightarrow> 'a list" where
  "insert_clamped i x xs = take (min i (length xs)) xs @ x # drop (min i (length xs)) xs"

fun insert_summaries :: "nat \<Rightarrow> string list \<Rightarrow> message list \<Rightarrow> message list" where
  "insert_summaries i [] history = history"
| "insert_summaries i (s # ss) history = insert_summaries (i + 1) ss
     (insert_clamped i (text_message SystemRole (''[Summary of earlier work]'' @ [CHR 0x0A] @ s)) history)"

definition after_system :: "message list \<Rightarrow> nat" where
  "after_system history =
     (if list_ex (\<lambda>m. mg_role m = SystemRole) history
      then length (takeWhile (\<lambda>m. mg_role m \<noteq> SystemRole) history) + 1 else 0)"

definition history_from_event_rows :: "(json \<Rightarrow> string) \<Rightarrow> numbered \<Rightarrow> message list" where
  "history_from_event_rows ser rows =
     (let covered = covered_through rows;
          history = map snd (filter (\<lambda>(cursor, _). covered < cursor) (replayed_entries ser rows));
          summaries = map (\<lambda>(_, s, _). s) (filter (\<lambda>(cursor, _, _). covered < cursor) (replayed_markers rows))
      in insert_summaries (after_system history) summaries history)"

text \<open>\<open>history_from_events\<close>: without cursors every row counts as the newest.\<close>

definition history_from_events :: "(json \<Rightarrow> string) \<Rightarrow> event_envelope list \<Rightarrow> message list" where
  "history_from_events ser es = history_from_event_rows ser (map (\<lambda>e. (- 1, e)) es)"

definition store_load_history ::
    "(json \<Rightarrow> string) \<Rightarrow> store_sink \<Rightarrow> ('x world_scheme, message list) action" where
  "store_load_history ser sk w =
     (case session_event_window (sk_session sk) (sk_owner sk) None i64_max (wd_db w) of
        Inl err \<Rightarrow> (Inl (Fault (StoreFailure err)), w)
      | Inr rows \<Rightarrow> (Inr (history_from_event_rows ser rows), w))"

section \<open>The last step of a run\<close>

text \<open>An action that can only return an outcome by publishing its closing event as its last step.\<close>

definition closes_last :: "('s, 'h) agent_env \<Rightarrow> ('a \<Rightarrow> run_outcome option) \<Rightarrow> ('s, 'a) action \<Rightarrow> bool" where
  "closes_last env out m \<longleftrightarrow> (\<forall>s x s'. m s = (Inr x, s') \<longrightarrow> (case out x of
      None \<Rightarrow> True
    | Some outcome \<Rightarrow> \<exists>s1 envelope. en_emit env (closing_event outcome) [] s1 = (Inr envelope, s')))"

fun halted :: "'a step_result \<Rightarrow> run_outcome option" where
  "halted (Halt outcome) = Some outcome"
| "halted (Go _) = None"

lemma closes_lastI:
  "(\<And>s x s' outcome. m s = (Inr x, s') \<Longrightarrow> out x = Some outcome \<Longrightarrow>
     \<exists>s1 envelope. en_emit env (closing_event outcome) [] s1 = (Inr envelope, s')) \<Longrightarrow> closes_last env out m"
  by (auto simp: closes_last_def split: option.split)

lemma closes_bind: "(\<And>x. closes_last env out (f x)) \<Longrightarrow> closes_last env out (act_bind m f)"
  by (auto simp: closes_last_def act_bind_def split: prod.splits sum.splits)

lemma closes_ok: "out x = None \<Longrightarrow> closes_last env out (act_ok x)"
  by (simp add: closes_last_def act_ok_def)

lemma closes_fail: "closes_last env out (act_fail e)"
  by (simp add: closes_last_def act_fail_def)

lemma closes_halt: "closes_last env Some m \<Longrightarrow> closes_last env halted (halt m)"
  by (fastforce simp: closes_last_def halt_def act_bind_def act_ok_def split: prod.splits sum.splits)

lemma closes_go_bind:
  "closes_last env halted m \<Longrightarrow> (\<And>x. closes_last env halted (f x)) \<Longrightarrow> closes_last env halted (go_bind m f)"
  by (fastforce simp: closes_last_def go_bind_def act_bind_def act_ok_def
      split: prod.splits sum.splits step_result.splits)

lemma closes_emit: "closing_event outcome = e \<Longrightarrow> closes_last env Some (act_bind (emit env e) (\<lambda>_. act_ok outcome))"
  by (rule closes_lastI) (auto simp: act_bind_def act_ok_def emit_def split: prod.splits sum.splits)

lemma closes_stop:
  "closes_last env Some (finish_cancelled env h reason)" "closes_last env Some (finish_failed env h reason)"
  unfolding finish_cancelled_def finish_failed_def by (rule closes_emit, simp)+

lemmas closes_stops = closes_halt [OF closes_stop(1)] closes_halt [OF closes_stop(2)]

text \<open>A step of a loop that moves to another action.\<close>

lemma closes_lastD:
  "closes_last env out m \<Longrightarrow> m s = (Inr x, s') \<Longrightarrow> out x = Some outcome \<Longrightarrow>
   \<exists>s1 envelope. en_emit env (closing_event outcome) [] s1 = (Inr envelope, s')"
  by (fastforce simp: closes_last_def)

lemma open_stream_closes: "closes_last env halted (open_stream env mr h n attempt)"
proof (rule closes_lastI)
  fix s x s' outcome
  assume "open_stream env mr h n attempt s = (Inr x, s')" "halted x = Some outcome"
  then show "\<exists>s1 envelope. en_emit env (closing_event outcome) [] s1 = (Inr envelope, s')"
  proof (induction env mr h n attempt s rule: open_stream.induct)
    case (1 env mr h n attempt s)
    then show ?case
      by (auto split: prod.splits sum.splits if_splits option.splits
          intro: closes_lastD [OF closes_stops(1)] closes_lastD [OF closes_stops(2)])
  qed
qed

lemma reserve_closes: "closes_last env halted (reserve_or_fail env h u)"
  by (rule closes_lastI)
     (auto simp: reserve_or_fail_def split: prod.splits sum.splits fault.splits intro: closes_lastD [OF closes_stops(2)])

lemma read_event_closes: "closes_last env halted (read_event env h e rd)"
  by (cases e) (auto intro!: closes_bind closes_go_bind closes_ok reserve_closes)

lemma read_stream_closes: "closes_last env halted (read_stream env mr h n attempt steps rd)"
proof (rule closes_lastI)
  fix s x s' outcome
  assume "read_stream env mr h n attempt steps rd s = (Inr x, s')" "halted x = Some outcome"
  then show "\<exists>s1 envelope. en_emit env (closing_event outcome) [] s1 = (Inr envelope, s')"
  proof (induction env mr h n attempt steps rd s rule: read_stream.induct)
    case (2 env mr h n attempt reason steps rd s)
    then show ?case by (auto intro: closes_lastD [OF closes_stops(1)])
  next
    case (3 env mr h n attempt e steps rd s)
    have "\<exists>s1 envelope. en_emit env (closing_event outcome) [] s1 = (Inr envelope, s')"
      if "go_bind (read_event env h e rd) (\<lambda>rd s1. read_stream env mr h n attempt steps rd s1) s = (Inr x, s')"
        "\<not> (\<exists>r. e = ModelFinish r)"
      using that 3 closes_lastD [OF read_event_closes, of env h e rd s]
      by (cases e) (auto simp: go_bind_def act_bind_def act_ok_def split: prod.splits sum.splits step_result.splits)
    with 3 show ?case by (cases e) auto
  next
    case (4 env mr h n attempt e steps rd s)
    then show ?case
      by (auto split: prod.splits sum.splits if_splits option.splits
          intro: closes_lastD [OF closes_stops(1)] closes_lastD [OF closes_stops(2)])
  qed auto
qed

lemma turn_closes: "closes_last env halted (turn env rq is_last st)"
proof -
  have final: "closes_last env halted (final_answer env is_last st)" for st
  proof -
    have "closes_last env halted (act_bind (emit env (RunCompleted \<lparr>rt_reason = ''stop'', rt_error_code = None\<rparr>))
        (\<lambda>_. act_ok (Halt (RunDone (ts_history st) (ts_usage st)))))"
      by (rule closes_lastI) (force simp: act_bind_def act_ok_def emit_def split: prod.splits sum.splits)
    then show ?thesis
      by (auto simp: final_answer_def Let_def intro!: closes_bind [where m = "en_drain_steers env"] closes_stops closes_ok)
  qed
  have tools: "closes_last env halted (run_tools env rq is_last calls st)" for calls st
    by (auto simp: run_tools_def Let_def intro!: closes_bind closes_stops closes_ok split: option.split)
  have answer: "closes_last env halted (answer_turn env rq is_last h rd)" for h rd
    by (auto simp: answer_turn_def Let_def intro!: closes_bind closes_stops final tools)
  have "closes_last env halted (read_model env rq st h)" for h
    by (auto simp: read_model_def intro!: closes_bind closes_go_bind open_stream_closes read_stream_closes)
  then show ?thesis
    unfolding turn_def by (auto intro!: closes_bind closes_stops closes_go_bind answer split: option.split)
qed

lemma run_closes: "closes_last env Some (run env rq)"
proof -
  have "closes_last env Some (turns env rq n st)" for n st
  proof (induction n arbitrary: st)
    case (Suc n)
    show ?case
    proof (rule closes_lastI)
      fix s x s' outcome
      assume "turns env rq (Suc n) st s = (Inr x, s')" "Some x = Some outcome"
      then show "\<exists>s1 envelope. en_emit env (closing_event outcome) [] s1 = (Inr envelope, s')"
        using closes_lastD [OF turn_closes] closes_lastD [OF Suc.IH]
        by (fastforce simp: act_bind_def act_ok_def split: prod.splits sum.splits step_result.splits)
    qed
  qed (simp add: closes_fail)
  then show ?thesis
    unfolding run_def by (auto intro!: closes_bind closes_stop)
qed

section \<open>The durable outcome\<close>

fun outcome_status :: "run_outcome \<Rightarrow> run_status" where
  "outcome_status (RunDone _ _) = Completed"
| "outcome_status (RunStopped _ _) = Cancelled"
| "outcome_status (RunBroken _ _) = Failed"

lemma closing_event_facts:
  "event_status (closing_event outcome) = Some (outcome_status outcome)" "event_finite (closing_event outcome)"
  "failed_call (closing_event outcome) = None"
  "is_cancelled_event (closing_event outcome) \<longleftrightarrow> outcome_status outcome = Cancelled"
  by (cases outcome; simp add: failed_call_def is_cancelled_event_def)+

lemma mask_event_facts [simp]:
  "event_status (mask_event ms e) = event_status e" "failed_call (mask_event ms e) = map_option ms (failed_call e)"
  "is_cancelled_event (mask_event ms e) = is_cancelled_event e"
  by (cases e; simp add: failed_call_def is_cancelled_event_def mask_tool_failed_def)+

lemma mask_canonical_event_eq:
  "wire_fixed ms \<Longrightarrow> event_finite e \<Longrightarrow> mask_canonical_event ms e = Inr (mask_event ms e)"
  by (simp add: mask_canonical_event_def d_mask_event ok_or_def)

lemma appended_status:
  assumes "append_event_tx ms t owner e db = Inr db'" "event_status (ee_event e) = Some status"
  shows "\<exists>r. find_run (ee_run_id e) db' = Some r \<and> rn_status r = status \<and> rn_actor_id r = owner"
  using assms(1)
proof (rule append_event_txE)
  fix r persisted nxt
  assume r: "find_run (ee_run_id e) db = Some r" "rn_actor_id r = owner"
    and nxt: "nxt = unwrap_or (rn_status r) (event_status (ee_event e))"
    and runs: "db_runs db' = map (\<lambda>r. if rn_id r = ee_run_id e
        then advance_run t nxt e (terminal_reason (ee_event persisted)) r else r) (db_runs db)"
  let ?f = "advance_run t nxt e (terminal_reason (ee_event persisted))"
  have "find (\<lambda>r. rn_id r = i) (map (\<lambda>r. if rn_id r = i then ?f r else r) rs) =
      map_option ?f (find (\<lambda>r. rn_id r = i) rs)" for i rs
    by (induction rs) auto
  then have "find_run (ee_run_id e) db' = Some (?f r)"
    using r(1) by (simp add: find_run_def runs)
  then show ?thesis using r(2) by (simp add: nxt assms(2) unwrap_or_def)
qed

lemma auto_appended_status:
  assumes wf: "wire_fixed ms" "event_finite (ee_event e)" and app: "append_event_auto ms t owner e db = Inr (e', db')"
    and status: "event_status (ee_event e) = Some status" and run: "ms (ee_run_id e) = ee_run_id e"
  shows "\<exists>r. find_run (ee_run_id e) db' = Some r \<and> rn_status r = status \<and> rn_actor_id r = owner"
proof -
  have "masked_envelope ms e = Inr (mask_envelope ms e)"
    by (simp add: masked_envelope_def d_mask_envelope [OF wf] ok_or_def)
  with app obtain n where "append_event_tx ms t owner ((mask_envelope ms e)\<lparr>ee_seq := n\<rparr>) db = Inr db'"
    by (auto simp: append_event_auto_def res_simps Let_def)
  from appended_status [OF this] status run show ?thesis by (simp add: mask_envelope_def)
qed

lemma store_emit_closing:
  assumes "wire_fixed ms" "ms (sk_run sk) = sk_run sk"
    and emit: "store_emit ms u t sk (closing_event outcome) x w = (Inr envelope, w')"
  shows "\<exists>r. find_run (sk_run sk) (wd_db w') = Some r \<and> rn_status r = outcome_status outcome \<and> rn_actor_id r = sk_owner sk"
proof -
  let ?e = "mask_event ms (closing_event outcome)"
  have e: "mask_canonical_event ms (closing_event outcome) = Inr ?e"
    by (rule mask_canonical_event_eq [OF assms(1)]) (simp add: closing_event_facts)
  have finite: "event_finite ?e" by (cases outcome) simp_all
  show ?thesis
  proof (cases "answer_in_log sk ?e (wd_db w)")
    case (Inl err)
    with emit e show ?thesis by (simp add: store_emit_def)
  next
    case (Inr answer)
    show ?thesis
    proof (cases answer)
      case (Some existing)
      with Inr have "outcome_status outcome = Cancelled"
        by (auto simp: answer_in_log_def closing_event_facts split: if_splits)
      moreover from Some Inr this obtain r where "find_run (sk_run sk) (wd_db w) = Some r" "rn_actor_id r = sk_owner sk"
        "rn_status r = Cancelled"
        by (auto simp: answer_in_log_def closing_event_facts load_run_def run_snapshot_of_def res_simps ok_or_def
            split: if_splits option.splits)
      moreover have "w' = w" using emit e Inr Some by (simp add: store_emit_def)
      ultimately show ?thesis by simp
    next
      case None
      with emit e Inr obtain db where
        app: "append_event_auto ms (t (wd_draws w + 1)) (sk_owner sk) (sink_envelope u t sk ?e x (wd_draws w)) (wd_db w) =
          Inr (envelope, db)" and w': "wd_db w' = db"
        by (auto simp: store_emit_def split: sum.splits)
      have run: "ms (ee_run_id (sink_envelope u t sk ?e x (wd_draws w))) = ee_run_id (sink_envelope u t sk ?e x (wd_draws w))"
        by (simp add: sink_envelope_def assms(2))
      have st: "event_status (ee_event (sink_envelope u t sk ?e x (wd_draws w))) = Some (outcome_status outcome)"
        by (simp add: sink_envelope_def closing_event_facts)
      have fin: "event_finite (ee_event (sink_envelope u t sk ?e x (wd_draws w)))"
        using finite by (simp add: sink_envelope_def)
      from auto_appended_status [OF assms(1) fin app st run] show ?thesis
        unfolding w' by (simp add: sink_envelope_def)
    qed
  qed
qed

text \<open>Property C11. Whatever happens to the store between the calls of a run: when the run of a store
  sink returns an outcome, the row of the run in the store has the status of that outcome (completed,
  failed or cancelled) and belongs to the owner of the sink. The masker leaves the run id alone.\<close>

theorem run_outcome_is_durable:
  assumes "wire_fixed ms" "ms (sk_run sk) = sk_run sk"
    and "en_emit env = store_emit ms u t sk" "run env rq w = (Inr outcome, w')"
  shows "\<exists>r. find_run (sk_run sk) (wd_db w') = Some r \<and> rn_status r = outcome_status outcome \<and>
     rn_actor_id r = sk_owner sk"
proof -
  obtain w1 envelope where "store_emit ms u t sk (closing_event outcome) [] w1 = (Inr envelope, w')"
    using closes_lastD [OF run_closes assms(4)] by (auto simp: assms(3))
  then show ?thesis by (rule store_emit_closing [OF assms(1,2)])
qed

section \<open>A cancellation that arrives first\<close>

text \<open>When the owner of a run has cancelled it in the store, the cancellation with which
  the loop then closes the run is answered by the event in the log: nothing is appended, the database
  stays as it is, and the event that comes back is that cancellation.\<close>

theorem accepted_cancel_absorbs_closing:
  assumes "wire_fixed ms" "db_ok db" "log_masked ms db"
    and "accept_cancel ms u t (sk_owner sk) key fp (sk_run sk) reason by_actor source db = Inr (a, wd_db w)" "ca_created a"
  shows "\<exists>envelope. store_emit ms u' t' sk (RunCancelled p) x w = (Inr envelope, w) \<and>
     ee_event envelope = mask_event ms (RunCancelled \<lparr>rt_reason = reason, rt_error_code = None\<rparr>)"
proof -
  let ?i = "sk_run sk"
  have new: "lookup_idempotency d_cancelled_result (sk_owner sk) ''run.cancel'' key fp db = Inr None"
  proof (rule ccontr)
    assume "\<not> ?thesis"
    with assms(4,5) show False by (auto simp: accept_cancel_def res_simps split: option.splits)
  qed
  note ok' = accept_cancel_ok [OF assms(4) assms(1,2)]
  from accept_cancel_closes(1) [OF assms(4) new assms(1-3)] obtain r where
    r: "find_run ?i (wd_db w) = Some r" "rn_status r = Cancelled" by blast
  from accept_cancel_new [OF assms(4) new] obtain s db1 db2 evs db3 seq where
    s: "require_run ?i (sk_owner sk) db = Inr s"
    and 1: "insert_idempotency (sk_owner sk) ''run.cancel'' key fp
       (cancelled_result_json \<lparr>cr_run_id = ?i, cr_accepted = True\<rparr>) db = Inr db1"
    and 2: "insert_cancel \<lparr>ci_run_id = ?i, ci_actor_id = sk_owner sk, ci_reason = reason, ci_accepted_at = t 2\<rparr> db1 = Inr db2"
    and 3: "append_interrupted_tool_failures ms (\<lambda>i. u (i + 1)) (\<lambda>i. t (i + 3)) (sk_owner sk) (sp_session_id s) ?i
       ''run_cancelled'' db2 = Inr (evs, db3)"
    and 4: "append_event_tx ms (t 1) (sk_owner sk) (plain_envelope (u 0) (sp_session_id s) ?i seq
       (t 0) by_actor source (RunCancelled \<lparr>rt_reason = reason, rt_error_code = None\<rparr>)) db3 = Inr (wd_db w)"
    by metis
  let ?e = "plain_envelope (u 0) (sp_session_id s) ?i seq (t 0) by_actor source (RunCancelled \<lparr>rt_reason = reason, rt_error_code = None\<rparr>)"
  have ok3: "db_ok db3"
    using interruption_ok [OF 3 assms(1)] insert_others_db_ok(2) [OF 2 insert_others_db_ok(1) [OF 1 assms(2)]] by blast
  from 4 obtain r3 where r3: "find_run ?i db3 = Some r3" "rn_actor_id r3 = sk_owner sk"
    by (rule append_event_txE) simp
  from logged_total [OF ok3 r3(1)] obtain es where "logged ?i db3 es" by blast
  then have log: "logged ?i (wd_db w) (es @ [mask_envelope ms (written ?e)])"
    using append_logged [OF assms(1) 4, of es] by simp
  have actor: "rn_actor_id r = sk_owner sk"
    using appended_status [OF 4] r by simp
  have ok: "db_ok (wd_db w)" using ok' by blast
  have all: "all_events ?i (sk_owner sk) (wd_db w) = Inr (es @ [mask_envelope ms (written ?e)])"
    using all_events_eq [OF ok r(1) actor] log by (simp add: logged_def)
  have load: "load_run ?i (sk_owner sk) (wd_db w) = Inr (run_snapshot_of r)"
    using r actor by (simp add: load_run_def ok_or_def ensure_def)
  have stored: "ee_event (mask_envelope ms (written ?e)) = mask_event ms (RunCancelled \<lparr>rt_reason = reason, rt_error_code = None\<rparr>)"
    by (simp add: mask_envelope_def written_def plain_envelope_def)
  have "answer_in_log sk (mask_event ms (RunCancelled p)) (wd_db w) = Inr (Some (mask_envelope ms (written ?e)))"
    using r(2) by (simp add: answer_in_log_def is_cancelled_event_def load all last_cancellation_def stored run_snapshot_of_def)
  then show ?thesis
    using stored by (intro exI [of _ "mask_envelope ms (written ?e)"])
      (simp add: store_emit_def mask_canonical_event_eq [OF assms(1)])
qed

end
