(* ===== verification/Agent_Store_Claims.thy ===== *)
theory Agent_Store_Claims
  imports Agent_Store
begin

text \<open>
  What the store-backed sink can rely on: a live run in a good store with room can be written to
  and closed; the history that is read back from its log; and the witnesses of the claims on the
  durable outcome.
\<close>

section \<open>A sink that is ready\<close>

definition sink_names :: "(string \<Rightarrow> string) \<Rightarrow> (nat \<Rightarrow> string) \<Rightarrow> store_sink \<Rightarrow> bool" where
  "sink_names ms u sk \<longleftrightarrow> wire_fixed ms \<and> ms (sk_run sk) = sk_run sk \<and> ms (sk_session sk) = sk_session sk \<and>
     inj u \<and> (\<forall>n. ms (''event-'' @ u n) = ''event-'' @ u n)"

definition sink_ready :: "(nat \<Rightarrow> string) \<Rightarrow> store_sink \<Rightarrow> nat \<Rightarrow> 'x world_scheme \<Rightarrow> bool" where
  "sink_ready u sk room w \<longleftrightarrow> db_ok (wd_db w) \<and>
     (\<exists>r. find_run (sk_run sk) (wd_db w) = Some r \<and> rn_actor_id r = sk_owner sk \<and> rn_session_id r = sk_session sk \<and>
        rn_status r = Running \<and> rn_last_seq r + int room \<le> int i64_max) \<and>
     (\<forall>n \<ge> wd_draws w. ''event-'' @ u n \<notin> event_ids (wd_db w))"

lemma ready_append:
  assumes names: "sink_names ms u sk" and ready: "sink_ready u sk (Suc room) w"
    and e: "event_finite e"
    and trans: "transition_allowed Running (unwrap_or Running (event_status e))"
  shows "\<exists>envelope db r'. append_event_auto ms t (sk_owner sk) (sink_envelope u t' sk (mask_event ms e) x (wd_draws w)) (wd_db w)
       = Inr (envelope, db) \<and> db_ok db \<and> event_ids db = insert (''event-'' @ u (wd_draws w)) (event_ids (wd_db w)) \<and>
     find_run (sk_run sk) db = Some r' \<and> rn_status r' = unwrap_or Running (event_status e) \<and> rn_actor_id r' = sk_owner sk \<and>
     rn_session_id r' = sk_session sk \<and> rn_last_seq r' + int room \<le> int i64_max"
proof -
  let ?e = "sink_envelope u t' sk (mask_event ms e) x (wd_draws w)"
  from names have wf: "wire_fixed ms" and m: "ms (sk_run sk) = sk_run sk" "ms (sk_session sk) = sk_session sk"
    "ms (''event-'' @ u (wd_draws w)) = ''event-'' @ u (wd_draws w)" by (simp_all add: sink_names_def)
  from ready obtain r where ok: "db_ok (wd_db w)"
    and r: "find_run (sk_run sk) (wd_db w) = Some r" "rn_actor_id r = sk_owner sk" "rn_session_id r = sk_session sk"
    "rn_status r = Running" and room: "rn_last_seq r + int (Suc room) \<le> int i64_max"
    and fresh: "''event-'' @ u (wd_draws w) \<notin> event_ids (wd_db w)" by (auto simp: sink_ready_def)
  let ?m = "(mask_envelope ms ?e)\<lparr>ee_seq := as_u64 (rn_last_seq r) + 1\<rparr>"
  have fin: "event_finite (mask_event ms (mask_event ms e))" using e by simp
  have masked: "masked_envelope ms ?e = Inr (mask_envelope ms ?e)"
    using e by (simp add: masked_envelope_def d_mask_envelope [OF wf] sink_envelope_def ok_or_def)
  have f: "ee_run_id ?m = sk_run sk" "ee_session_id ?m = sk_session sk" "ee_event_id ?m = ''event-'' @ u (wd_draws w)"
    "ee_event ?m = mask_event ms (mask_event ms e)"
    using m by (simp_all add: mask_envelope_def sink_envelope_def)
  have wr: "writable (ee_event ?m)" unfolding f(4) using fin by (cases e) (simp_all add: budget_finite_def)
  have "\<exists>db'. append_event_tx ms t (sk_owner sk) ?m (wd_db w) = Inr db'"
  proof (rule append_event_tx_total [OF wf ok])
    show "transition_allowed (rn_status r) (unwrap_or (rn_status r) (event_status (ee_event ?m)))"
      using trans unfolding f r by simp
  qed (use r room fresh wr in \<open>simp_all only: f event_ids_def\<close>, simp_all add: is_terminal_def)
  then obtain db where app: "append_event_tx ms t (sk_owner sk) ?m (wd_db w) = Inr db" by blast
  have keys: "keys_ok (wd_db w)" using ok by (simp add: db_ok_def)
  have found: "find_run (ee_run_id ?m) (wd_db w) = Some r" unfolding f by (rule r(1))
  from append_event_tx_run [OF app keys found] obtain r' where
    r': "find_run (sk_run sk) db = Some r'" "rn_status r' = unwrap_or Running (event_status e)"
      "rn_last_seq r' = as_i64 (as_u64 (rn_last_seq r) + 1)" "rn_session_id r' = rn_session_id r" "rn_actor_id r' = rn_actor_id r"
    unfolding f r(4) by auto
  have "0 \<le> rn_last_seq r" using log_room [OF ok r(1)] by blast
  then have seq: "rn_last_seq r' = rn_last_seq r + 1"
    unfolding r' as_u64_Suc using room by (intro as_i64_u64) simp_all
  have auto: "append_event_auto ms t (sk_owner sk) ?e (wd_db w) = Inr (?m, db)"
  proof -
    have "require_run (ee_run_id (mask_envelope ms ?e)) (sk_owner sk) (wd_db w) = Inr (run_snapshot_of r)"
      using f(1) r by (simp add: require_run_Inr)
    then show ?thesis
      using app by (simp add: append_event_auto_def masked Let_def run_snapshot_of_def)
  qed
  have ids: "event_ids db = insert (''event-'' @ u (wd_draws w)) (event_ids (wd_db w))"
    using append_event_ids [OF app] unfolding f .
  have "rn_last_seq r' + int room \<le> int i64_max" using seq room by simp
  with auto ids append_db_ok [OF wf ok app] r' r show ?thesis by auto
qed

lemma ready_emit:
  assumes "sink_names ms u sk" "sink_ready u sk (Suc room) w"
    and "event_finite e" "\<not> is_cancelled_event e" "failed_call e = None"
    and "unwrap_or Running (event_status e) = Running"
  obtains envelope w' where "store_emit ms u t sk e x w = (Inr envelope, w')" "sink_ready u sk room w'"
proof -
  from ready_append [OF assms(1-3), of "t (wd_draws w + 1)" t x] assms(6) obtain envelope db r' where
    app: "append_event_auto ms (t (wd_draws w + 1)) (sk_owner sk) (sink_envelope u t sk (mask_event ms e) x (wd_draws w)) (wd_db w)
       = Inr (envelope, db)" and db: "db_ok db" "event_ids db = insert (''event-'' @ u (wd_draws w)) (event_ids (wd_db w))"
    and r': "find_run (sk_run sk) db = Some r'" "rn_status r' = Running" "rn_actor_id r' = sk_owner sk"
     "rn_session_id r' = sk_session sk" "rn_last_seq r' + int room \<le> int i64_max"
    by (auto simp: transition_allowed_def)
  let ?w = "w\<lparr>wd_db := db, wd_draws := wd_draws w + 2\<rparr>"
  have "store_emit ms u t sk e x w = (Inr envelope, ?w)"
    using assms app by (simp add: store_emit_def mask_canonical_event_eq sink_names_def answer_in_log_def)
  moreover have "sink_ready u sk room ?w"
    using db r' assms(1,2) by (auto simp: sink_ready_def sink_names_def dest: injD)
  ultimately show thesis by (rule that)
qed

lemma ready_close:
  assumes "sink_names ms u sk" "sink_ready u sk 1 w"
  shows "\<exists>envelope w' r. store_emit ms u t sk (closing_event outcome) x w = (Inr envelope, w') \<and>
     find_run (sk_run sk) (wd_db w') = Some r \<and> rn_status r = outcome_status outcome"
proof -
  have wf: "wire_fixed ms" using assms(1) by (simp add: sink_names_def)
  note fin = closing_event_facts(2) [of outcome]
  have "transition_allowed Running (unwrap_or Running (event_status (closing_event outcome)))"
    by (cases outcome) (simp_all add: transition_allowed_def unwrap_or_def)
  from ready_append [OF assms(1) assms(2) [unfolded One_nat_def] fin this] obtain envelope db where
    app: "append_event_auto ms (t (wd_draws w + 1)) (sk_owner sk)
       (sink_envelope u t sk (mask_event ms (closing_event outcome)) x (wd_draws w)) (wd_db w) = Inr (envelope, db)"
    by blast
  have "answer_in_log sk (mask_event ms (closing_event outcome)) (wd_db w) = Inr None"
    using assms(2) by (auto simp: answer_in_log_def closing_event_facts sink_ready_def load_run_def ok_or_def ensure_def run_snapshot_of_def)
  with app have emit: "store_emit ms u t sk (closing_event outcome) x w =
      (Inr envelope, w\<lparr>wd_db := db, wd_draws := wd_draws w + 2\<rparr>)"
    by (simp add: store_emit_def mask_canonical_event_eq [OF wf fin])
  moreover have "ms (sk_run sk) = sk_run sk" using assms(1) by (simp add: sink_names_def)
  ultimately show ?thesis using store_emit_closing [OF wf _ emit] by blast
qed

text \<open>A run that is live in a good store can always be closed by its sink: with a fresh id
  and a sequence number to spare, the closing event of every outcome is written.\<close>

theorem ready_sink_closes_run:
  assumes "sink_names ms u sk" "sink_ready u sk 1 w"
  shows "\<exists>envelope w' r. store_emit ms u t sk (closing_event outcome) x w = (Inr envelope, w') \<and>
     find_run (sk_run sk) (wd_db w') = Some r \<and> rn_status r = outcome_status outcome"
  by (rule ready_close [OF assms])

section \<open>A run on a store\<close>

definition sample_sink :: store_sink where
  "sample_sink = \<lparr>sk_owner = ''amy'', sk_session = ''s'', sk_run = ''run-1'', sk_window = None\<rparr>"

definition stored_env :: "(unit world_scheme, unit) agent_env" where
  "stored_env = \<lparr>en_mask = (\<lambda>t. t), en_json_text = (\<lambda>_. ''{}''), en_host = (\<lambda>_. None), en_glob = (\<lambda>_. None),
     en_emit = store_emit (\<lambda>x. x) (\<lambda>n. replicate n CHR ''x'') (\<lambda>n. ''t'') sample_sink,
     en_load_history = store_load_history (\<lambda>_. ''{}'') sample_sink,
     en_before_compaction = (\<lambda>h. act_ok ()), en_summarize = (\<lambda>h n. act_ok None),
     en_reserve_usage = store_reserve sample_sink, en_drain_steers = act_ok [],
     en_request_approval = (\<lambda>q. act_ok (gate_decided Denied)),
     en_stream = (\<lambda>mr s. (Inr [], s)), en_backoff = (\<lambda>n s. (None, s)), en_cancel_reason = (\<lambda>s. None),
     en_registry = (\<lambda>s. []), en_eager_limit = None, en_active_tools = (\<lambda>s. []),
     en_session_rules = (\<lambda>s. None), en_rule_source = (\<lambda>s. None), en_policy = new_policy None,
     en_instructions = (\<lambda>s. None), en_progress = (\<lambda>s. None), en_uuid = (\<lambda>s. (''u'', s)),
     en_snapshot = (\<lambda>c w s. (Inr None, s)), en_join = (\<lambda>h cs s. (TaskLost 0, s)),
     en_grace = (\<lambda>h cs s. (GraceTimeout None, s)), en_hash_picks = []\<rparr>"

lemma stored_fields:
  "en_emit stored_env e x w = store_emit (\<lambda>x. x) (\<lambda>n. replicate n CHR ''x'') (\<lambda>n. ''t'') sample_sink e x w"
  "en_registry stored_env s = []" "en_instructions stored_env s = None"
  by (simp_all add: stored_env_def)

definition short_request :: agent_request where
  "short_request = sample_request\<lparr>gr_history := [text_message UserRole ''hi''],
     gr_limits := (gr_limits sample_request)\<lparr>al_max_iterations := 0\<rparr>\<rparr>"

definition sample_world :: "unit world_scheme" where
  "sample_world = \<lparr>wd_db = sample_db, wd_draws = 0\<rparr>"

lemma sample_names: "sink_names (\<lambda>x. x) (\<lambda>n. replicate n CHR ''x'') sample_sink"
  by (auto simp: sink_names_def wire_fixed_def intro!: injI dest: arg_cong [where f = length])

lemma sample_ready: "room \<le> 10 \<Longrightarrow> sink_ready (\<lambda>n. replicate n CHR ''x'') sample_sink room sample_world"
  by (simp add: sink_ready_def sample_world_def sample_sink_def find_run_def new_run_def event_ids_def)

theorem ready_sink_closes_run_witness:
  "\<exists>envelope w' r. store_emit (\<lambda>x. x) (\<lambda>n. replicate n CHR ''x'') (\<lambda>n. ''t'') sample_sink
     (RunFailed \<lparr>rt_reason = ''e'', rt_error_code = Some ''e''\<rparr>) [] sample_world = (Inr envelope, w') \<and>
     find_run ''run-1'' (wd_db w') = Some r \<and> rn_status r = Failed"
  using ready_sink_closes_run [OF sample_names sample_ready, of "\<lambda>n. ''t''" "RunBroken [] ''e''" "[]"]
  by (simp add: sample_sink_def)

lemma short_run: "\<exists>outcome w'. run stored_env short_request sample_world = (Inr outcome, w') \<and> outcome_status outcome = Failed"
proof -
  let ?emit = "store_emit (\<lambda>x. x) (\<lambda>n. replicate n CHR ''x'') (\<lambda>n. ''t'') sample_sink"
  have ready: "sink_ready (\<lambda>n. replicate n CHR ''x'') sample_sink (Suc (Suc (Suc 0))) sample_world"
    by (rule sample_ready) simp
  obtain e1 w1 where 1: "?emit (RunStarted \<lparr>rs_model = Some ''m'', rs_mode = Some ''m7_rust_agent''\<rparr>) [] sample_world = (Inr e1, w1)"
    "sink_ready (\<lambda>n. replicate n CHR ''x'') sample_sink (Suc (Suc 0)) w1"
    by (rule ready_emit [OF sample_names ready, of "RunStarted \<lparr>rs_model = Some ''m'', rs_mode = Some ''m7_rust_agent''\<rparr>" "\<lambda>n. ''t''" "[]"])
       (simp_all add: is_cancelled_event_def failed_call_def unwrap_or_def)
  obtain e2 w2 where 2: "?emit (ItemCompleted \<lparr>ie_role = Some ''user'', ie_content = Some ''go'', ie_tool_calls = []\<rparr>) [] w1 = (Inr e2, w2)"
    "sink_ready (\<lambda>n. replicate n CHR ''x'') sample_sink (Suc 0) w2"
    by (rule ready_emit [OF sample_names 1(2), of "ItemCompleted \<lparr>ie_role = Some ''user'', ie_content = Some ''go'', ie_tool_calls = []\<rparr>" "\<lambda>n. ''t''" "[]"])
       (simp_all add: is_cancelled_event_def failed_call_def unwrap_or_def)
  obtain e3 w3 where 3: "?emit (RunFailed \<lparr>rt_reason = ''iteration_limit'', rt_error_code = Some ''iteration_limit''\<rparr>) [] w2 = (Inr e3, w3)"
    using ready_close [OF sample_names 2(2) [folded One_nat_def], of "\<lambda>n. ''t''" "RunBroken [] ''iteration_limit''" "[]"] by auto
  have started: "begin_run stored_env short_request sample_world = (Inr [text_message UserRole ''hi'', text_message UserRole ''go''], w2)"
    by (simp add: begin_run_def act_bind_def act_ok_def act_read_def emit_def stored_fields short_request_def sample_request_def
        prepare_history_def add_system_prompt_def add_optional_section_def has_deferred_tools_def Let_def 1 2
        message_with_parts_def text_message_def replay_extensions_def unwrap_or_def)
  have "run stored_env short_request sample_world = (Inr (RunBroken [text_message UserRole ''hi'', text_message UserRole ''go''] ''iteration_limit''), w3)"
    by (simp add: run_def act_bind_def started) (simp add: short_request_def finish_failed_def act_bind_def act_ok_def emit_def stored_fields 3)
  then show ?thesis by (metis outcome_status.simps(3))
qed

theorem run_outcome_is_durable_witness:
  "\<exists>outcome w' r. run stored_env short_request sample_world = (Inr outcome, w') \<and>
     find_run ''run-1'' (wd_db w') = Some r \<and> rn_status r = outcome_status outcome"
proof -
  obtain outcome w' where run: "run stored_env short_request sample_world = (Inr outcome, w')"
    using short_run by blast
  have "wire_fixed (\<lambda>x. x)" "en_emit stored_env = store_emit (\<lambda>x. x) (\<lambda>n. replicate n CHR ''x'') (\<lambda>n. ''t'') sample_sink"
    by (simp_all add: wire_fixed_def stored_env_def)
  from run_outcome_is_durable [OF this(1) refl this(2) run] run show ?thesis
    by (auto simp: sample_sink_def)
qed

theorem accepted_cancel_absorbs_closing_witness:
  "\<exists>a db envelope. accept_cancel star_out (\<lambda>i. ''1'') (\<lambda>i. ''t'') ''amy'' ''k'' ''f'' ''run-1'' ''stop'' core_actor ''x'' sample_db
       = Inr (a, db) \<and>
     store_emit star_out (\<lambda>n. ''z'') (\<lambda>n. ''t'') sample_sink (RunCancelled \<lparr>rt_reason = ''late'', rt_error_code = None\<rparr>) []
       \<lparr>wd_db = db, wd_draws = 0\<rparr> = (Inr envelope, \<lparr>wd_db = db, wd_draws = 0\<rparr>)"
proof -
  obtain a db where run: "accept_cancel star_out (\<lambda>i. ''1'') (\<lambda>i. ''t'') ''amy'' ''k'' ''f'' ''run-1'' ''stop'' core_actor ''x''
     sample_db = Inr (a, db)" "ca_created a"
    using sample_cancel by blast
  let ?w = "\<lparr>wd_db = db, wd_draws = 0\<rparr>"
  have "accept_cancel star_out (\<lambda>i. ''1'') (\<lambda>i. ''t'') (sk_owner sample_sink) ''k'' ''f'' (sk_run sample_sink) ''stop'' core_actor ''x''
     sample_db = Inr (a, wd_db ?w)"
    using run(1) by (simp add: sample_sink_def)
  from accepted_cancel_absorbs_closing [OF wire_fixed_star_out sample_db_ok sample_log_masked this run(2)] run(1)
  show ?thesis by blast
qed

section \<open>Reading the history back\<close>

lemma replayed_roles: "replayed_message ser e = Some m \<Longrightarrow> mg_role m \<noteq> SystemRole"
  by (cases e) (auto simp: tool_message_def split: if_splits)

lemma replayed_entry_roles: "(cursor, m) \<in> set (replayed_entries ser rows) \<Longrightarrow> mg_role m \<noteq> SystemRole"
  by (induction rows) (auto simp: replayed_entries_def List.map_filter_simps dest: replayed_roles split: option.splits)

lemma insert_summaries_at:
  "i \<le> length xs \<Longrightarrow> insert_summaries i ss xs =
     take i xs @ map (\<lambda>s. text_message SystemRole (''[Summary of earlier work]'' @ [CHR 0x0A] @ s)) ss @ drop i xs"
proof (induction ss arbitrary: i xs)
  case (Cons s ss)
  then show ?case by (simp add: insert_clamped_def min_def)
qed simp

text \<open>The history that is rebuilt from the rows of a session: first the summaries of the
  compaction markers that lie above everything the markers cover, in their order, then the messages of
  the rows above that point, in their order. The search for a leading system message in the code never
  finds one, because no row stands for a system message.\<close>

theorem rebuilt_history_is_summaries_then_messages:
  "history_from_event_rows ser rows =
     map (\<lambda>(_, s, _). text_message SystemRole (''[Summary of earlier work]'' @ [CHR 0x0A] @ s))
       (filter (\<lambda>(cursor, _, _). covered_through rows < cursor) (replayed_markers rows)) @
     map snd (filter (\<lambda>(cursor, _). covered_through rows < cursor) (replayed_entries ser rows))"
proof -
  let ?h = "map snd (filter (\<lambda>(cursor, _). covered_through rows < cursor) (replayed_entries ser rows))"
  have "\<not> list_ex (\<lambda>m. mg_role m = SystemRole) ?h"
    using replayed_entry_roles by (fastforce simp: list_ex_iff)
  then have "after_system ?h = 0" by (simp add: after_system_def)
  then show ?thesis
    by (simp add: history_from_event_rows_def Let_def insert_summaries_at split_def)
qed

end
