(* ===== verification/Calendar.thy ===== *)
theory Calendar
  imports Unicode_Text
begin

text \<open>
  The date arithmetic of the store, \<open>crates/cool-store/src/time.rs\<close>: civil dates from
  day numbers and back, the weekday, and the text form of a timestamp that SQLAlchemy writes
  (\<open>python_datetime\<close>) with its parser. Seconds, days and years are \<open>i64\<close> and
  modelled as integers; months and days of a month are \<open>u32\<close> and never negative.
  Against the algorithms of the code stand the calendar itself, \<open>leap\<close>,
  \<open>month_length\<close> and \<open>next_date\<close>, and the proof that day numbers count
  its dates one by one.
\<close>

section \<open>Day numbers\<close>

text \<open>Rust's \<open>/\<close> on integers cuts off towards zero; its divisors here are positive.\<close>

definition quot :: "int \<Rightarrow> int \<Rightarrow> int" where
  "quot a b = (if 0 \<le> a then a div b else - ((- a) div b))"

definition days_from_civil :: "int \<Rightarrow> int \<Rightarrow> int \<Rightarrow> int" where
  "days_from_civil year month day =
     (let year = (if month \<le> 2 then year - 1 else year);
          era = quot (if year \<ge> 0 then year else year - 399) 400;
          year_of_era = year - era * 400;
          shifted_month = (if month > 2 then month - 3 else month + 9);
          day_of_year = quot (153 * shifted_month + 2) 5 + day - 1;
          day_of_era = year_of_era * 365 + quot year_of_era 4 - quot year_of_era 100 + day_of_year
      in era * 146097 + day_of_era - 719468)"

definition civil_date :: "int \<Rightarrow> int \<times> int \<times> int" where
  "civil_date days_since_epoch =
     (let shifted = days_since_epoch + 719468;
          era = quot (if shifted \<ge> 0 then shifted else shifted - 146096) 146097;
          day_of_era = shifted - era * 146097;
          year_of_era = quot (day_of_era - quot day_of_era 1460 + quot day_of_era 36524 - quot day_of_era 146096) 365;
          year = year_of_era + era * 400;
          day_of_year = day_of_era - (365 * year_of_era + quot year_of_era 4 - quot year_of_era 100);
          month_prime = quot (5 * day_of_year + 2) 153;
          day = day_of_year - quot (153 * month_prime + 2) 5 + 1;
          month = month_prime + (if month_prime < 10 then 3 else - 9);
          year = (if month \<le> 2 then year + 1 else year)
      in (year, month, day))"

definition iso_weekday :: "int \<Rightarrow> int \<Rightarrow> int \<Rightarrow> int" where
  "iso_weekday year month day = (days_from_civil year month day mod 7 + 3) mod 7"

definition start_of_day :: "int \<Rightarrow> int" where
  "start_of_day timestamp = timestamp div 86400 * 86400"

section \<open>The calendar\<close>

definition leap :: "int \<Rightarrow> bool" where
  "leap y \<longleftrightarrow> y mod 4 = 0 \<and> (y mod 100 \<noteq> 0 \<or> y mod 400 = 0)"

definition month_length :: "int \<Rightarrow> int \<Rightarrow> int" where
  "month_length y m = (if m = 2 then (if leap y then 29 else 28) else if m = 4 \<or> m = 6 \<or> m = 9 \<or> m = 11 then 30 else 31)"

definition valid_date :: "int \<times> int \<times> int \<Rightarrow> bool" where
  "valid_date date = (case date of (y, m, d) \<Rightarrow> 1 \<le> m \<and> m \<le> 12 \<and> 1 \<le> d \<and> d \<le> month_length y m)"

definition next_date :: "int \<times> int \<times> int \<Rightarrow> int \<times> int \<times> int" where
  "next_date date =
     (case date of (y, m, d) \<Rightarrow>
        if d < month_length y m then (y, m, d + 1) else if m < 12 then (y, m + 1, 1) else (y + 1, 1, 1))"

section \<open>The algorithms without their case distinctions\<close>

lemma quot_nonneg [simp]: "0 \<le> a \<Longrightarrow> quot a b = a div b"
  by (simp add: quot_def)

lemma quot_floor:
  assumes "0 < b" "k = b - 1" shows "quot (if 0 \<le> a then a else a - k) b = a div b"
proof (cases "0 \<le> a")
  case True
  then show ?thesis by simp
next
  case False
  have "- ((b - 1 - a) div b) = a div b"
  proof -
    have "b - 1 - a = b * (- (a div b)) + (b - 1 - a mod b)"
      using mult_div_mod_eq [of b a] by (simp add: algebra_simps)
    then have "(b - 1 - a) div b = - (a div b) + (b - 1 - a mod b) div b"
      using assms by (metis div_mult_self4 order_less_irrefl add.commute)
    moreover have "(b - 1 - a mod b) div b = 0" using pos_mod_bound [OF assms(1), of a] pos_mod_sign [OF assms(1), of a]
      by (intro div_pos_pos_trivial) simp_all
    ultimately show ?thesis by simp
  qed
  with False assms show ?thesis by (simp add: quot_def)
qed

text \<open>Years counted from March: the leap day is the last day of its year.\<close>

definition march_days :: "int \<Rightarrow> int" where
  "march_days y = 365 * y + y div 4 - y div 100"

definition month_start :: "int \<Rightarrow> int" where
  "month_start k = (153 * k + 2) div 5"

lemma days_from_civil_eq:
  "1 \<le> month \<Longrightarrow> days_from_civil year month day =
     (let y = (if month \<le> 2 then year - 1 else year); k = (if month > 2 then month - 3 else month + 9)
      in y div 400 * 146097 + march_days (y mod 400) + month_start k + day - 1 - 719468)"
proof -
  assume month: "1 \<le> month"
  define y where "y = (if month \<le> 2 then year - 1 else year)"
  have era: "quot (if 0 \<le> y then y else y - 399) 400 = y div 400"
    by (rule quot_floor) simp_all
  have rest: "y - y div 400 * 400 = y mod 400" by (simp add: minus_div_mult_eq_mod)
  from month show ?thesis
    unfolding days_from_civil_def Let_def y_def [symmetric] era rest
    by (simp add: march_days_def month_start_def)
qed

definition march_year :: "int \<Rightarrow> int" where
  "march_year doe = (doe - doe div 1460 + doe div 36524 - doe div 146096) div 365"

lemma march_parts:
  assumes "0 \<le> c" "c \<le> 3" "0 \<le> q" "q \<le> 24" "0 \<le> r" "r \<le> 3" "0 \<le> d" "d \<le> 365"
    and last_day: "d = 365 \<Longrightarrow> r = 3 \<and> (q \<noteq> 24 \<or> c = 3)"
  defines "y \<equiv> 100 * c + 4 * q + r"
  shows "march_days y = 36524 * c + 1461 * q + 365 * r" (is ?days)
    and "march_year (march_days y + d) = y" (is ?year)
    and "march_days y + d < 146097" (is ?bound)
proof -
  have "y div 4 = 25 * c + q" "y div 100 = c" using assms by (simp_all add: y_def)
  then show days: ?days by (simp add: march_days_def y_def)
  define doe where "doe = march_days y + d"
  have doe: "doe = 36524 * c + 1461 * q + 365 * r + d" by (simp add: doe_def days)
  have last_day': "d < 365 \<or> r = 3 \<and> (q < 24 \<or> c = 3)" using last_day assms by (cases "d = 365") auto
  show ?bound using last_day' assms days by auto
  define b where "b = (if 1460 \<le> 24 * c + q + 365 * r + d then 1 else 0 :: int)"
  have 1: "doe div 1460 = 25 * c + q + b"
    by (rule int_div_pos_eq [where r = "24 * c + q + 365 * r + d - 1460 * b"])
      (use assms in \<open>auto simp: doe b_def\<close>)
  have 2: "doe div 36524 - doe div 146096 = c"
  proof (cases "d = 365 \<and> q = 24")
    case True
    with last_day' have "doe = 146096" by (simp add: doe)
    with True last_day' show ?thesis by simp
  next
    case False
    with last_day' assms have rem: "1461 * q + 365 * r + d < 36524" by auto
    have "doe div 36524 = c"
      by (rule int_div_pos_eq [where r = "1461 * q + 365 * r + d"]) (use assms rem in \<open>simp_all add: doe\<close>)
    moreover have "doe div 146096 = 0" using rem assms by (simp add: doe)
    ultimately show ?thesis by simp
  qed
  have "doe - doe div 1460 + (doe div 36524 - doe div 146096) = 365 * y + (d - b)"
    unfolding 1 2 by (simp add: doe y_def)
  then have "(doe - doe div 1460 + (doe div 36524 - doe div 146096)) div 365 = y"
    by (rule int_div_pos_eq) (use assms(1-8) last_day' in \<open>auto simp: b_def\<close>)
  then show ?year by (simp add: march_year_def doe_def algebra_simps)
qed

lemma march_split:
  assumes "0 \<le> doe" "doe < (146097 :: int)"
  obtains c q r d where "0 \<le> c" "c \<le> 3" "0 \<le> q" "q \<le> 24" "0 \<le> r" "r \<le> 3" "0 \<le> d" "d \<le> 365"
    "d = 365 \<longrightarrow> r = 3 \<and> (q \<noteq> 24 \<or> c = 3)" "doe = 36524 * c + 1461 * q + 365 * r + d"
proof -
  define c where "c = min 3 (doe div 36524)"
  define a where "a = doe - 36524 * c"
  define q where "q = a div 1461"
  define e where "e = a mod 1461"
  define r where "r = min 3 (e div 365)"
  have c: "0 \<le> c" "c \<le> 3" "0 \<le> a" "a \<le> 36524" "a = 36524 \<longrightarrow> c = 3"
    using assms by (auto simp: c_def a_def min_def split: if_splits)
  have q: "0 \<le> q" "q \<le> 24" "a = 1461 * q + e" "0 \<le> e" "e < 1461"
    using c by (auto simp: q_def e_def)
  have r: "0 \<le> r" "r \<le> 3" "0 \<le> e - 365 * r" "e - 365 * r \<le> 365" "e - 365 * r = 365 \<longrightarrow> r = 3"
    using q by (auto simp: r_def min_def split: if_splits)
  show thesis
  proof (rule that [of c q r "e - 365 * r"])
    show "e - 365 * r = 365 \<longrightarrow> r = 3 \<and> (q \<noteq> 24 \<or> c = 3)"
      using r(5) c(4,5) q(3) by auto
  qed (use c q r in \<open>auto simp: a_def\<close>)
qed

text \<open>Every day of an era of 400 years is a day of one of its years.\<close>

definition era_day :: "int \<Rightarrow> int \<Rightarrow> bool" where
  "era_day y d \<longleftrightarrow> 0 \<le> y \<and> y < 400 \<and> 0 \<le> d \<and> d \<le> 365 \<and> (d = 365 \<longrightarrow> leap (y + 1))"

lemma leap_parts:
  assumes "0 \<le> c" "c \<le> 3" "0 \<le> q" "q \<le> 24" "0 \<le> r" "r \<le> 3"
  shows "leap (100 * c + 4 * q + r + 1) \<longleftrightarrow> r = 3 \<and> (q \<noteq> 24 \<or> c = 3)"
proof (cases "r = 3")
  case True
  have "(100 * c + 4 * q + 4) mod 4 = (0 + (25 * c + q + 1) * 4) mod 4" by (simp add: algebra_simps)
  also have "\<dots> = 0" by (simp only: mod_mult_self1) simp
  finally have 4: "(100 * c + 4 * q + 4) mod 4 = 0" .
  have 100: "(100 * c + 4 * q + 4) mod 100 = (if q = 24 then 0 else 4 * q + 4)"
  proof -
    have "(100 * c + 4 * q + 4) mod 100 = (4 * q + 4 + c * 100) mod 100" by (simp add: algebra_simps)
    also have "\<dots> = (4 * q + 4) mod 100" by (rule mod_mult_self1)
    finally show ?thesis using assms(3,4) by simp
  qed
  have "c \<in> {0, 1, 2, 3}" using assms(1,2) by auto
  then have 400: "(100 * c + 100) mod 400 = 0 \<longleftrightarrow> c = 3" by auto
  have "leap (100 * c + 4 * q + 4) \<longleftrightarrow> (100 * c + 4 * q + 4) mod 100 \<noteq> 0 \<or> (100 * c + 4 * q + 4) mod 400 = 0"
    unfolding leap_def 4 by simp
  also have "\<dots> \<longleftrightarrow> q \<noteq> 24 \<or> c = 3"
  proof (cases "q = 24")
    case True
    then have "100 * c + 4 * q + 4 = 100 * c + 100" by simp
    with True 100 400 show ?thesis by (simp only: if_True) simp
  next
    case False
    with 100 assms(3) show ?thesis by (simp only: if_False) simp
  qed
  finally show ?thesis using True by (simp add: add.assoc)
next
  case False
  have "(100 * c + 4 * q + r + 1) mod 4 = (r + 1 + (25 * c + q) * 4) mod 4"
    by (simp add: algebra_simps)
  also have "\<dots> = (r + 1) mod 4" by (rule mod_mult_self1)
  also have "\<dots> = r + 1" using False assms(5,6) by simp
  finally show ?thesis using False assms(5) by (simp add: leap_def)
qed

lemma era_day_parts:
  assumes "era_day y d"
  obtains c q r where "0 \<le> c" "c \<le> 3" "0 \<le> q" "q \<le> 24" "0 \<le> r" "r \<le> 3" "0 \<le> d" "d \<le> 365"
    "d = 365 \<longrightarrow> r = 3 \<and> (q \<noteq> 24 \<or> c = 3)" "y = 100 * c + 4 * q + r"
proof -
  define c q r where "c = y div 100" and "q = y mod 100 div 4" and "r = y mod 4"
  have y: "0 \<le> y" "y < 400" and d: "0 \<le> d" "d \<le> 365" "d = 365 \<longrightarrow> leap (y + 1)"
    using assms by (auto simp: era_day_def)
  have parts: "0 \<le> c" "c \<le> 3" "0 \<le> q" "q \<le> 24" "0 \<le> r" "r \<le> 3"
  proof -
    have m: "0 \<le> y mod 100" "y mod 100 \<le> 99" by simp_all
    have "(y mod 100) div 4 \<le> 99 div 4" by (rule zdiv_mono1) (use m in simp_all)
    then show "q \<le> 24" by (simp add: q_def)
    show "0 \<le> q" using m by (simp add: q_def pos_imp_zdiv_nonneg_iff)
    have "y div 100 \<le> 399 div 100" by (rule zdiv_mono1) (use y in simp_all)
    then show "c \<le> 3" by (simp add: c_def)
    show "0 \<le> c" using y by (simp add: c_def pos_imp_zdiv_nonneg_iff)
    show "0 \<le> r" "r \<le> 3" by (simp_all add: r_def)
  qed
  have "y mod 100 mod 4 = r" unfolding r_def by (rule mod_mod_cancel) simp
  then have "y mod 100 = 4 * q + r" unfolding q_def using mult_div_mod_eq [of 4 "y mod 100"] by linarith
  then have eq: "y = 100 * c + 4 * q + r" unfolding c_def using mult_div_mod_eq [of 100 y] by linarith
  with d(3) leap_parts [OF parts] have "d = 365 \<longrightarrow> r = 3 \<and> (q \<noteq> 24 \<or> c = 3)" by (simp add: add.assoc)
  with parts d eq show thesis by (intro that)
qed

lemma era_day_split:
  assumes "0 \<le> doe" "doe < 146097"
  obtains y d where "era_day y d" "doe = march_days y + d" "march_year doe = y"
proof -
  obtain c q r d where p: "0 \<le> c" "c \<le> 3" "0 \<le> q" "q \<le> 24" "0 \<le> r" "r \<le> 3" "0 \<le> d" "d \<le> 365"
    "d = 365 \<longrightarrow> r = 3 \<and> (q \<noteq> 24 \<or> c = 3)" "doe = 36524 * c + 1461 * q + 365 * r + d"
    by (rule march_split [OF assms])
  have "era_day (100 * c + 4 * q + r) d"
    using p leap_parts [OF p(1-6)] by (auto simp: era_day_def)
  moreover have "march_days (100 * c + 4 * q + r) + d = doe"
    "march_year (march_days (100 * c + 4 * q + r) + d) = 100 * c + 4 * q + r"
    using march_parts [OF p(1-8)] p(9,10) by auto
  ultimately show thesis by (metis that)
qed

lemma era_day_year:
  assumes "era_day y d"
  shows "march_year (march_days y + d) = y" "march_days y + d < 146097"
proof -
  obtain c q r where p: "0 \<le> c" "c \<le> 3" "0 \<le> q" "q \<le> 24" "0 \<le> r" "r \<le> 3" "0 \<le> d" "d \<le> 365"
    "d = 365 \<longrightarrow> r = 3 \<and> (q \<noteq> 24 \<or> c = 3)" "y = 100 * c + 4 * q + r"
    by (rule era_day_parts [OF assms])
  show "march_year (march_days y + d) = y" "march_days y + d < 146097"
    unfolding p(10) using march_parts(2,3) [OF p(1-8)] p(9) by blast+
qed

section \<open>Months counted from March\<close>

lemma month_start_simps:
  "month_start 0 = 0" "month_start 1 = 31" "month_start 2 = 61" "month_start 3 = 92" "month_start 4 = 122"
  "month_start 5 = 153" "month_start 6 = 184" "month_start 7 = 214" "month_start 8 = 245" "month_start 9 = 275"
  "month_start 10 = 306" "month_start 11 = 337"
  by (simp_all add: month_start_def)

lemma march_months: "0 \<le> k \<Longrightarrow> k \<le> 11 \<Longrightarrow> k \<in> {0, 1, 2, 3, 4, 5, 6, 7, 8, 9, 10, 11 :: int}"
  by (simp only: insert_iff empty_iff) presburger

definition march_length :: "int \<Rightarrow> int" where
  "march_length k = (if k = 11 then 29 else if k = 1 \<or> k = 3 \<or> k = 6 \<or> k = 8 then 30 else 31)"

lemma march_month_of:
  assumes "0 \<le> k" "k \<le> 11" "month_start k \<le> d" "d < month_start k + march_length k"
  shows "(5 * d + 2) div 153 = k"
proof -
  have "153 * k \<le> 5 * d + 2" "5 * d + 2 < 153 * k + 153"
    using march_months [OF assms(1,2)] assms(3,4) by (auto simp: month_start_simps march_length_def)
  then show ?thesis by (intro int_div_pos_eq [where r = "5 * d + 2 - 153 * k"]) simp_all
qed

lemma march_month_exists:
  assumes "0 \<le> d" "d \<le> 365"
  obtains k where "0 \<le> k" "k \<le> 11" "month_start k \<le> d" "d < month_start k + march_length k"
proof (rule that [of "(5 * d + 2) div 153"])
  let ?k = "(5 * d + 2) div 153"
  have k: "153 * ?k \<le> 5 * d + 2" "5 * d + 2 < 153 * ?k + 153"
    using mult_div_mod_eq [of 153 "5 * d + 2"] pos_mod_sign [of 153 "5 * d + 2"] pos_mod_bound [of 153 "5 * d + 2"]
    by linarith+
  then show 1: "0 \<le> ?k" "?k \<le> 11" using assms by linarith+
  show "month_start ?k \<le> d" "d < month_start ?k + march_length ?k"
    using k march_months [OF 1] assms by (auto simp: month_start_simps march_length_def)
qed

section \<open>Day numbers and dates\<close>

text \<open>The date of the day \<open>d\<close> of the month \<open>k\<close>, counted from March, of a year that begins in March.\<close>

definition march_date :: "int \<Rightarrow> int \<Rightarrow> int \<Rightarrow> int \<times> int \<times> int" where
  "march_date y k d = (if k < 10 then (y, k + 3, d) else (y + 1, k - 9, d))"

lemma march_days_nonneg: "0 \<le> y \<Longrightarrow> 0 \<le> march_days y"
proof -
  assume "0 \<le> y"
  then have "y div 100 \<le> y" by (simp add: zdiv_mono2 [of y 1 100, simplified])
  with \<open>0 \<le> y\<close> show ?thesis by (simp add: march_days_def pos_imp_zdiv_nonneg_iff add_increasing2)
qed

lemma civil_date_march:
  assumes era: "era_day y d" and k: "0 \<le> k" "k \<le> 11" "month_start k \<le> d" "d < month_start k + march_length k"
  shows "civil_date (e * 146097 + march_days y + d - 719468) = march_date (y + e * 400) k (d - month_start k + 1)"
proof -
  define doe where "doe = march_days y + d"
  have y: "0 \<le> y" "0 \<le> d" using era by (simp_all add: era_day_def)
  have doe: "0 \<le> doe" "doe < 146097" "march_year doe = y"
    using era_day_year [OF era] march_days_nonneg [OF y(1)] y by (simp_all add: doe_def)
  have shifted: "e * 146097 + march_days y + d - 719468 + 719468 = doe + e * 146097" by (simp add: doe_def)
  have "quot (if 0 \<le> doe + e * 146097 then doe + e * 146097 else doe + e * 146097 - 146096) 146097 = (doe + e * 146097) div 146097"
    by (rule quot_floor) simp_all
  also have "\<dots> = e" using doe by simp
  finally have e: "quot (if 0 \<le> doe + e * 146097 then doe + e * 146097 else doe + e * 146097 - 146096) 146097 = e" .
  have "doe div 1460 \<le> doe" "doe div 146096 \<le> doe div 36524"
    using doe(1) zdiv_mono2 [of doe 1 1460] zdiv_mono2 [of doe 36524 146096] by simp_all
  then have "0 \<le> doe - doe div 1460 + doe div 36524 - doe div 146096" by simp
  then have year: "quot (doe - quot doe 1460 + quot doe 36524 - quot doe 146096) 365 = y"
    using doe by (simp add: march_year_def)
  have day: "doe - (365 * y + quot y 4 - quot y 100) = d" using y by (simp add: doe_def march_days_def)
  have month: "quot (5 * d + 2) 153 = k" using y march_month_of [OF k] by simp
  have start: "quot (153 * k + 2) 5 = month_start k" using k by (simp add: month_start_def)
  show ?thesis
    unfolding civil_date_def Let_def shifted e add_diff_cancel_right' year day month start
    using k by (auto simp: march_date_def)
qed

lemma leap_shift: "leap ((y - 1) mod 400 + 1) = leap y"
proof -
  have "((y - 1) mod 400 + 1) mod n = y mod n" if "n dvd 400" for n
  proof -
    have "((y - 1) mod 400 + 1) mod n = ((y - 1) mod 400 mod n + 1) mod n" by (simp add: mod_add_left_eq)
    also have "(y - 1) mod 400 mod n = (y - 1) mod n" by (rule mod_mod_cancel [OF that])
    finally show ?thesis by (simp add: mod_add_left_eq)
  qed
  then have "((y - 1) mod 400 + 1) mod 4 = y mod 4" "((y - 1) mod 400 + 1) mod 100 = y mod 100"
    "((y - 1) mod 400 + 1) mod 400 = y mod 400" by simp_all
  then show ?thesis by (simp only: leap_def)
qed

text \<open>A valid date is a day of a month of a year that begins in March, and the other way round.\<close>

lemma valid_date_march:
  assumes "valid_date (y, m, d)"
  defines "k \<equiv> if m > 2 then m - 3 else m + 9" and "y' \<equiv> if m \<le> 2 then y - 1 else y"
  shows "0 \<le> k" "k \<le> 11" "d \<le> march_length k" "march_date y' k d = (y, m, d)"
    "era_day (y' mod 400) (month_start k + d - 1)"
proof -
  have m: "1 \<le> m" "m \<le> 12" "1 \<le> d" "d \<le> month_length y m" using assms(1) by (simp_all add: valid_date_def)
  have feb: "month_length y 2 \<le> 29" by (simp add: month_length_def)
  from m have "m - 1 \<in> {0, 1, 2, 3, 4, 5, 6, 7, 8, 9, 10, 11}" by (intro march_months) simp_all
  then have "m \<in> {1, 2, 3, 4, 5, 6, 7, 8, 9, 10, 11, 12}" by auto
  then show 1: "0 \<le> k" "k \<le> 11" "march_date y' k d = (y, m, d)"
    by (auto simp: k_def y'_def march_date_def)
  show 2: "d \<le> march_length k"
  proof (cases "m = 2")
    case True
    with m feb show ?thesis by (simp add: k_def march_length_def)
  next
    case False
    with m \<open>m \<in> {1, 2, 3, 4, 5, 6, 7, 8, 9, 10, 11, 12}\<close> show ?thesis
      by (auto simp: k_def month_length_def march_length_def)
  qed
  have bound: "month_start k + march_length k \<le> 366" "0 \<le> month_start k"
    using march_months [OF 1(1,2)] by (auto simp: month_start_simps march_length_def)
  have "leap (y' mod 400 + 1)" if "month_start k + d - 1 = 365"
  proof -
    have "k = 11" "d = 29"
      using that 2 march_months [OF 1(1,2)] by (auto simp: month_start_simps march_length_def)
    then have "m = 2" using m by (auto simp: k_def split: if_splits)
    with m \<open>d = 29\<close> have "leap y" by (auto simp: month_length_def split: if_splits)
    with \<open>m = 2\<close> show ?thesis by (simp add: y'_def leap_shift)
  qed
  with bound 2 m(3) show "era_day (y' mod 400) (month_start k + d - 1)" by (auto simp: era_day_def)
qed

lemma civil_date_days_from_civil:
  assumes "valid_date (y, m, d)"
  shows "civil_date (days_from_civil y m d) = (y, m, d)"
proof -
  define k where "k = (if m > 2 then m - 3 else m + 9)"
  define y' where "y' = (if m \<le> 2 then y - 1 else y)"
  note v = valid_date_march [OF assms, folded k_def y'_def]
  have m: "1 \<le> m" "1 \<le> d" using assms by (simp_all add: valid_date_def)
  have "days_from_civil y m d = y' div 400 * 146097 + march_days (y' mod 400) + (month_start k + d - 1) - 719468"
    using days_from_civil_eq [OF m(1)] by (simp add: Let_def k_def y'_def)
  then have "civil_date (days_from_civil y m d) = march_date (y' mod 400 + y' div 400 * 400) k d"
    using civil_date_march [OF v(5,1,2), of "y' div 400"] m v(3) by simp
  then show ?thesis using v(4) by simp
qed

lemma civil_date_valid: "valid_date (civil_date n)"
  and days_from_civil_civil_date: "civil_date n = (y, m, d) \<Longrightarrow> days_from_civil y m d = n"
proof -
  define e where "e = (n + 719468) div 146097"
  have "0 \<le> (n + 719468) mod 146097" "(n + 719468) mod 146097 < 146097" by simp_all
  then obtain y1 d1 where era: "era_day y1 d1" "(n + 719468) mod 146097 = march_days y1 + d1"
    by (rule era_day_split) blast
  then have n: "n = e * 146097 + march_days y1 + d1 - 719468"
    using mult_div_mod_eq [of 146097 "n + 719468"] by (simp add: e_def)
  have d1: "0 \<le> d1" "d1 \<le> 365" using era by (simp_all add: era_day_def)
  obtain k where k: "0 \<le> k" "k \<le> 11" "month_start k \<le> d1" "d1 < month_start k + march_length k"
    by (rule march_month_exists [OF d1])
  let ?date = "march_date (y1 + e * 400) k (d1 - month_start k + 1)"
  have civil: "civil_date n = ?date" unfolding n by (rule civil_date_march [OF era(1) k])
  have y1: "0 \<le> y1" "y1 < 400" using era by (simp_all add: era_day_def)
  have "leap (y1 + e * 400 + 1)" if "d1 = 365"
    using era(1) that leap_shift [of "y1 + e * 400 + 1"] y1 by (simp add: era_day_def)
  with d1 have "d1 < 365 \<or> leap (y1 + e * 400 + 1)" by linarith
  then show "valid_date (civil_date n)"
    unfolding civil using k d1 march_months [OF k(1,2)]
    by (auto simp: march_date_def valid_date_def month_length_def month_start_simps march_length_def)
  assume date: "civil_date n = (y, m, d)"
  have "days_from_civil y m d = e * 146097 + march_days y1 + month_start k + d - 1 - 719468"
    using date k y1 unfolding civil
    by (auto simp: march_date_def days_from_civil_eq Let_def split: if_splits)
  moreover have "d = d1 - month_start k + 1" using date unfolding civil by (simp add: march_date_def split: if_splits)
  ultimately show "days_from_civil y m d = n" by (simp add: n)
qed

section \<open>Day numbers count the dates of the calendar\<close>

definition year_start :: "int \<Rightarrow> int" where
  "year_start y = 365 * y + y div 4 - y div 100 + y div 400"

lemma march_days_era: "y div 400 * 146097 + march_days (y mod 400) = year_start y"
proof -
  define e m where "e = y div 400" and "m = y mod 400"
  have y: "y = 400 * e + m" and m: "0 \<le> m" "m < 400" by (simp_all add: e_def m_def)
  have "(400 * e + m) div 4 = 100 * e + m div 4" "(400 * e + m) div 100 = 4 * e + m div 100" "(400 * e + m) div 400 = e"
  proof -
    show "(400 * e + m) div 4 = 100 * e + m div 4"
      using div_mult_self4 [of 4 "100 * e" m] by (simp only: mult.assoc [symmetric] numeral_times_numeral semiring_norm)
    show "(400 * e + m) div 100 = 4 * e + m div 100"
      using div_mult_self4 [of 100 "4 * e" m] by (simp only: mult.assoc [symmetric] numeral_times_numeral semiring_norm)
    show "(400 * e + m) div 400 = e" by (rule int_div_pos_eq) (use m in simp_all)
  qed
  note split = this
  have "365 * (400 * e + m) + (100 * e + a) - (4 * e + b) + e = e * 146097 + (365 * m + a - b)" for a b by simp
  then have "year_start y = e * 146097 + march_days m"
    unfolding y year_start_def march_days_def split .
  then show ?thesis by (simp add: e_def m_def)
qed

lemma days_from_civil_start:
  "1 \<le> month \<Longrightarrow> days_from_civil year month day =
     year_start (if month \<le> 2 then year - 1 else year) + month_start (if month > 2 then month - 3 else month + 9) + day - 719469"
  using days_from_civil_eq [of month year day] march_days_era [of "if month \<le> 2 then year - 1 else year"]
  by (simp add: Let_def)

lemma div_pred: "0 < n \<Longrightarrow> y div n = (y - 1) div n + (if n dvd y then 1 else 0)" for y n :: int
proof -
  assume n: "0 < n"
  show ?thesis
  proof (cases "n dvd y")
    case True
    then obtain k where "y = n * k" by (elim dvdE)
    moreover have "(n * k - 1) div n = k - 1"
      using n by (intro int_div_pos_eq [where r = "n - 1"]) (simp_all add: algebra_simps)
    ultimately show ?thesis using n by simp
  next
    case False
    then have "y mod n \<noteq> 0" by (simp add: dvd_eq_mod_eq_0)
    with pos_mod_sign [OF n, of y] pos_mod_bound [OF n, of y] have "(y - 1) div n = y div n"
      by (intro int_div_pos_eq [where r = "y mod n - 1"]) (simp_all add: algebra_simps)
    with False show ?thesis by simp
  qed
qed

lemma year_start_step: "year_start y = year_start (y - 1) + (if leap y then 366 else 365)"
proof -
  have dvd: "400 dvd y \<Longrightarrow> 100 dvd y" "100 dvd y \<Longrightarrow> 4 dvd y"
    using dvd_trans [of 100 400 y] dvd_trans [of 4 100 y] by simp_all
  have "leap y \<longleftrightarrow> 4 dvd y \<and> (\<not> 100 dvd y \<or> 400 dvd y)" by (simp add: leap_def dvd_eq_mod_eq_0)
  with dvd have leap: "(if leap y then 366 else 365) =
      365 + (if 4 dvd y then 1 else 0) - (if 100 dvd y then 1 else 0) + (if 400 dvd y then 1 else (0 :: int))"
    by (cases "4 dvd y"; cases "100 dvd y"; cases "400 dvd y") simp_all
  have pred: "y div 4 = (y - 1) div 4 + (if 4 dvd y then 1 else 0)" "y div 100 = (y - 1) div 100 + (if 100 dvd y then 1 else 0)"
    "y div 400 = (y - 1) div 400 + (if 400 dvd y then 1 else 0)"
    by (rule div_pred, simp)+
  show ?thesis unfolding year_start_def leap pred by (simp only: algebra_simps)
qed

lemma days_from_civil_next:
  assumes "valid_date (y, m, d)" "next_date (y, m, d) = (y', m', d')"
  shows "days_from_civil y' m' d' = days_from_civil y m d + 1 \<and> valid_date (y', m', d')"
proof -
  have m: "1 \<le> m" "m \<le> 12" "1 \<le> d" "d \<le> month_length y m" using assms(1) by (simp_all add: valid_date_def)
  from m have "m - 1 \<in> {0, 1, 2, 3, 4, 5, 6, 7, 8, 9, 10, 11}" by (intro march_months) simp_all
  then have months: "m \<in> {1, 2, 3, 4, 5, 6, 7, 8, 9, 10, 11, 12}" by auto
  consider "d < month_length y m" | "d = month_length y m" "m < 12" | "d = month_length y m" "m = 12"
    using m by linarith
  then show ?thesis
  proof cases
    case 1
    with assms(2) have "y' = y" "m' = m" "d' = d + 1" by (simp_all add: next_date_def)
    with 1 m show ?thesis by (simp add: days_from_civil_start valid_date_def)
  next
    case 2
    with assms(2) have new: "y' = y" "m' = m + 1" "d' = 1" by (simp_all add: next_date_def)
    have "days_from_civil y (m + 1) 1 = days_from_civil y m (month_length y m) + 1"
      using months 2 year_start_step [of y] m(1)
      by (elim insertE) (simp_all add: days_from_civil_start month_start_simps month_length_def)
    with 2 new m show ?thesis by (simp add: valid_date_def month_length_def)
  next
    case 3
    with assms(2) have "y' = y + 1" "m' = 1" "d' = 1" by (simp_all add: next_date_def)
    with 3 show ?thesis by (simp add: days_from_civil_start month_start_simps month_length_def valid_date_def)
  qed
qed

text \<open>The dates computed from day numbers are those of the Gregorian calendar: day 0 is the first of January 1970, and the date of every next day is the calendar's next date.\<close>

theorem civil_date_next: "civil_date 0 = (1970, 1, 1) \<and> civil_date (n + 1) = next_date (civil_date n)"
proof
  have "days_from_civil 1970 1 1 = 0" by (simp add: days_from_civil_def quot_def)
  moreover have "civil_date (days_from_civil 1970 1 1) = (1970, 1, 1)"
    by (rule civil_date_days_from_civil) (simp add: valid_date_def month_length_def)
  ultimately show "civil_date 0 = (1970, 1, 1)" by simp
next
  obtain y m d where date: "civil_date n = (y, m, d)" by (metis prod_cases3)
  obtain y' m' d' where succ: "next_date (y, m, d) = (y', m', d')" by (metis prod_cases3)
  have "valid_date (y, m, d)" using civil_date_valid [of n] date by simp
  from days_from_civil_next [OF this succ] days_from_civil_civil_date [OF date]
  have "days_from_civil y' m' d' = n + 1" "valid_date (y', m', d')" by simp_all
  then show "civil_date (n + 1) = next_date (civil_date n)"
    using civil_date_days_from_civil [of y' m' d'] date succ by simp
qed

lemma iso_weekday_civil_date:
  assumes "civil_date n = (y, m, d)" shows "iso_weekday y m d = (n + 3) mod 7"
  using days_from_civil_civil_date [OF assms] by (simp add: iso_weekday_def mod_add_left_eq)

end
