(* ===== verification/Timestamps.thy ===== *)
theory Timestamps
  imports Calendar
begin

text \<open>
  The text form of a UTC timestamp, \<open>crates/cool-store/src/time.rs\<close>:
  \<open>python_datetime\<close> writes \<open>YYYY-MM-DD HH:MM:SS.ffffff\<close>, the form
  SQLAlchemy stores, and \<open>parse_python_datetime\<close> reads it back, together with the
  RFC 3339 form. A timestamp of one of the years 1 to 9999 survives the round trip, and the
  texts of such timestamps are ordered as the timestamps are.
\<close>

section \<open>Writing\<close>

abbreviation u32_max :: nat where "u32_max \<equiv> 4294967295"

text \<open>\<open>{:0w}\<close>: the sign counts, and the zeros come after it.\<close>

definition zero_pad :: "nat \<Rightarrow> string \<Rightarrow> string" where
  "zero_pad w s = replicate (w - length s) (CHR ''0'') @ s"

definition pad_int :: "nat \<Rightarrow> int \<Rightarrow> string" where
  "pad_int w n = (if n < 0 then CHR ''-'' # zero_pad (w - 1) (dec (nat (- n))) else zero_pad w (dec (nat n)))"

definition python_datetime :: "int \<Rightarrow> int \<Rightarrow> string" where
  "python_datetime seconds micros =
     (let days = seconds div 86400;
          second_of_day = seconds mod 86400;
          (year, month, day) = civil_date days;
          hour = quot second_of_day 3600;
          minute = quot (second_of_day mod 3600) 60;
          second = second_of_day mod 60
      in pad_int 4 year @ ''-'' @ pad_int 2 month @ ''-'' @ pad_int 2 day @ '' '' @
         pad_int 2 hour @ '':'' @ pad_int 2 minute @ '':'' @ pad_int 2 second @ ''.'' @ pad_int 6 micros)"

section \<open>Reading\<close>

definition parse_u32 :: "string \<Rightarrow> int option" where
  "parse_u32 s = map_option int (parse_unsigned u32_max s)"

definition parse_date_part :: "string \<Rightarrow> (int \<times> int \<times> int) option" where
  "parse_date_part text =
     (case split_on (CHR ''-'') text of
        [y, m, d] \<Rightarrow>
          (case (parse_i64 y, parse_u32 m, parse_u32 d) of
             (Some year, Some month, Some day) \<Rightarrow>
               if 1 \<le> year \<and> year \<le> 9999 \<and> 1 \<le> month \<and> month \<le> 12 \<and> 1 \<le> day \<and> day \<le> 31
               then Some (year, month, day) else None
           | _ \<Rightarrow> None)
      | _ \<Rightarrow> None)"

definition parse_seconds :: "string \<Rightarrow> int option" where
  "parse_seconds text =
     (case split_once (CHR ''.'') text of
        None \<Rightarrow> parse_i64 text
      | Some (seconds, fraction) \<Rightarrow>
          if length fraction > 9 \<or> \<not> list_all is_digit fraction then None else parse_i64 seconds)"

definition parse_time_part :: "string \<Rightarrow> int option" where
  "parse_time_part text =
     (case split_on (CHR '':'') text of
        [h, m, s] \<Rightarrow>
          (case (parse_i64 h, parse_i64 m, parse_seconds s) of
             (Some hour, Some minute, Some second) \<Rightarrow>
               if 0 \<le> hour \<and> hour \<le> 23 \<and> 0 \<le> minute \<and> minute \<le> 59 \<and> 0 \<le> second \<and> second \<le> 60
               then Some (hour * 3600 + minute * 60 + second) else None
           | _ \<Rightarrow> None)
      | _ \<Rightarrow> None)"

definition normalized_text :: "string \<Rightarrow> string" where
  "normalized_text text =
     (let normalized = map (\<lambda>c. if c = CHR ''T'' then CHR '' '' else c) text
      in if ends_with ''Z'' normalized then butlast normalized else normalized)"

definition parse_python_datetime :: "string \<Rightarrow> int option" where
  "parse_python_datetime value =
     (let trimmed = trim_text value in
      if trimmed = [] then None
      else case split_once (CHR '' '') (normalized_text trimmed) of
             None \<Rightarrow> None
           | Some (date, rest) \<Rightarrow>
               (case (parse_date_part date, parse_time_part rest) of
                  (Some (year, month, day), Some second_of_day) \<Rightarrow>
                    Some (days_from_civil year month day * 86400 + second_of_day)
                | _ \<Rightarrow> None))"

section \<open>Padded numbers\<close>

lemma set_zero_pad: "set (zero_pad w s) \<subseteq> insert (CHR ''0'') (set s)"
  by (auto simp: zero_pad_def)

lemma zero_pad_digits: "c \<in> set (zero_pad w (dec n)) \<Longrightarrow> is_digit c"
  using set_zero_pad [of w "dec n"] by (auto simp: is_digit_def dest: dec_all_digits [unfolded is_digit_def])

lemma digits_value_zeros: "digits_value 0 (replicate k (CHR ''0'') @ s) = digits_value 0 s"
  by (induction k) (simp_all add: is_digit_def digit_val_def)

lemma zero_pad_not_Nil [simp]: "zero_pad w (dec n) \<noteq> []"
  by (simp add: zero_pad_def)

lemma zero_pad_value: "digits_value 0 (zero_pad w (dec n)) = Some n"
  by (simp add: zero_pad_def digits_value_zeros digits_value_dec)

lemma parse_unsigned_pad:
  assumes "n \<le> m" shows "parse_unsigned m (zero_pad w (dec n)) = Some n"
proof -
  obtain c r where cr: "zero_pad w (dec n) = c # r" by (cases "zero_pad w (dec n)") auto
  with zero_pad_digits [of c w n] have "c \<noteq> CHR ''+''" by auto
  with cr assms zero_pad_value [of w n] show ?thesis by (simp add: parse_unsigned_def)
qed

lemma parse_i64_pad:
  assumes "n \<le> i64_max" shows "parse_i64 (zero_pad w (dec n)) = Some (int n)"
proof -
  obtain c r where cr: "zero_pad w (dec n) = c # r" by (cases "zero_pad w (dec n)") auto
  with zero_pad_digits [of c w n] have "c \<noteq> CHR ''-''" by auto
  with cr parse_unsigned_pad [OF assms, of w] show ?thesis by (simp add: parse_i64_def)
qed

lemma pad_int_nonneg: "0 \<le> n \<Longrightarrow> pad_int w n = zero_pad w (dec (nat n))"
  by (simp add: pad_int_def)

lemma pad_int_parse_i64: "0 \<le> n \<Longrightarrow> n \<le> int i64_max \<Longrightarrow> parse_i64 (pad_int w n) = Some n"
  using parse_i64_pad [of "nat n" w] by (simp add: pad_int_nonneg)

lemma pad_int_parse_u32: "0 \<le> n \<Longrightarrow> n \<le> int u32_max \<Longrightarrow> parse_u32 (pad_int w n) = Some n"
  using parse_unsigned_pad [of "nat n" u32_max w] by (simp add: pad_int_nonneg parse_u32_def)

lemma pad_int_digits: "0 \<le> n \<Longrightarrow> c \<in> set (pad_int w n) \<Longrightarrow> is_digit c"
  by (auto simp: pad_int_nonneg dest: zero_pad_digits)

lemma pad_int_no: "0 \<le> n \<Longrightarrow> \<not> is_digit c \<Longrightarrow> c \<notin> set (pad_int w n)"
  using pad_int_digits by blast

lemma length_dec: "n < 10 ^ k \<Longrightarrow> 0 < k \<Longrightarrow> length (dec n) \<le> k"
proof (induction k arbitrary: n)
  case (Suc k)
  show ?case
  proof (cases "n < 10")
    case True
    then show ?thesis by (simp add: dec.simps [of n])
  next
    case False
    with Suc.prems(1) have k: "0 < k" by (cases k) auto
    moreover have "n div 10 < 10 ^ k" using Suc.prems(1) by (auto simp: less_mult_imp_div_less mult.commute)
    ultimately show ?thesis using False Suc.IH [of "n div 10"] by (simp add: dec.simps [of n])
  qed
qed simp

lemma length_pad_int: "0 \<le> n \<Longrightarrow> n < 10 ^ w \<Longrightarrow> 0 < w \<Longrightarrow> length (pad_int w n) = w"
  using length_dec [of "nat n" w] by (simp add: pad_int_nonneg zero_pad_def nat_less_iff)

section \<open>Cutting a text at a separator\<close>

lemma split_once_append: "c \<notin> set a \<Longrightarrow> split_once c (a @ c # b) = Some (a, b)"
  by (induction a) auto

lemma split_on_single: "c \<notin> set a \<Longrightarrow> split_on c a = [a]"
  by (induction a) auto

lemma split_on_append: "c \<notin> set a \<Longrightarrow> split_on c (a @ c # b) = a # split_on c b"
  by (induction a) auto

lemma split_on_three: "c \<notin> set x \<Longrightarrow> c \<notin> set y \<Longrightarrow> c \<notin> set z \<Longrightarrow> split_on c (x @ c # y @ c # z) = [x, y, z]"
  by (simp add: split_on_append split_on_single)

section \<open>The round trip\<close>

text \<open>The seconds of the years 1 to 9999.\<close>

definition printable_time :: "int \<Rightarrow> bool" where
  "printable_time seconds \<longleftrightarrow> - 62135596800 \<le> seconds \<and> seconds \<le> 253402300799"

lemma days_from_civil_mono_year:
  assumes "valid_date (y, m, d)" "valid_date (y', m', d')" "y < y'"
  shows "days_from_civil y m d < days_from_civil y' m' d'"
proof -
  have early: "year_start (y - 1) + 307 \<le> days_from_civil y m d + 719469 \<and> days_from_civil y m d + 719469 \<le> year_start y + 306"
    if "valid_date (y, m, d)" for y m d
  proof -
    have m: "1 \<le> m" "1 \<le> d" "d \<le> month_length y m" using that by (simp_all add: valid_date_def)
    have "m - 1 \<in> {0, 1, 2, 3, 4, 5, 6, 7, 8, 9, 10, 11}" using that by (intro march_months) (simp_all add: valid_date_def)
    then have "m \<in> {1, 2, 3, 4, 5, 6, 7, 8, 9, 10, 11, 12}" by auto
    then show ?thesis
      using m year_start_step [of y]
      by (elim insertE) (auto simp: days_from_civil_start month_start_simps month_length_def split: if_splits)
  qed
  have "year_start y \<le> year_start (y' - 1)"
  proof -
    have "year_start a \<le> year_start (a + int n)" for a n
      by (induction n) (use year_start_step [of "a + 1 + int n" for n] in \<open>auto simp: algebra_simps intro: order_trans\<close>)
    from this [of y "nat (y' - 1 - y)"] assms(3) show ?thesis by simp
  qed
  with early [OF assms(1)] early [OF assms(2)] show ?thesis by linarith
qed

lemma printable_year:
  assumes "printable_time s" "civil_date (s div 86400) = (y, m, d)"
  shows "1 \<le> y" "y \<le> 9999"
proof -
  have v: "valid_date (y, m, d)" and n: "days_from_civil y m d = s div 86400"
    using civil_date_valid [of "s div 86400"] days_from_civil_civil_date [OF assms(2)] assms(2) by simp_all
  have ends: "days_from_civil 1 1 1 = - 719162" "days_from_civil 9999 12 31 = 2932896"
    by (simp_all add: days_from_civil_def quot_def)
  have "- 719162 \<le> s div 86400" "s div 86400 \<le> 2932896"
    using assms(1) unfolding printable_time_def by linarith+
  with n ends have "\<not> days_from_civil y m d < days_from_civil 1 1 1"
    "\<not> days_from_civil 9999 12 31 < days_from_civil y m d" by simp_all
  moreover have "valid_date (1, 1, 1)" "valid_date (9999, 12, 31)" by (simp_all add: valid_date_def month_length_def)
  ultimately have "\<not> y < 1" "\<not> 9999 < y"
    using days_from_civil_mono_year [OF v] days_from_civil_mono_year [OF _ v] by blast+
  then show "1 \<le> y" "y \<le> 9999" by simp_all
qed

lemma date_text_plain:
  assumes "0 \<le> y" "0 \<le> m" "0 \<le> d"
  shows "c \<in> set (pad_int 4 y @ ''-'' @ pad_int 2 m @ ''-'' @ pad_int 2 d) \<Longrightarrow> is_digit c \<or> c = CHR ''-''"
  using pad_int_digits assms by auto

theorem parse_python_datetime_inverse:
  assumes time: "printable_time s" and micros: "0 \<le> us" "us < 1000000"
  shows "parse_python_datetime (python_datetime s us) = Some s"
proof -
  obtain y m d where date: "civil_date (s div 86400) = (y, m, d)" by (metis prod_cases3)
  define t where "t = s mod 86400"
  define h n c where "h = t div 3600" and "n = t mod 3600 div 60" and "c = t mod 60"
  have t: "0 \<le> t" "t < 86400" by (simp_all add: t_def)
  have parts: "0 \<le> h" "h \<le> 23" "0 \<le> n" "n \<le> 59" "0 \<le> c" "c \<le> 59" "h * 3600 + n * 60 + c = t"
  proof -
    define r where "r = t mod 3600"
    have r: "0 \<le> r" "r < 3600" and h: "h * 3600 + r = t" by (simp_all add: r_def h_def)
    have "t mod 60 = r mod 60" by (simp add: r_def mod_mod_cancel)
    then have n: "n * 60 + c = r" and c: "0 \<le> c" "c < 60" by (simp_all add: n_def c_def r_def [symmetric])
    show "0 \<le> h" "h \<le> 23" "h * 3600 + n * 60 + c = t" using r h n t by linarith+
    show "0 \<le> n" "n \<le> 59" "0 \<le> c" "c \<le> 59" using r n c by linarith+
  qed
  have y: "1 \<le> y" "y \<le> 9999" using printable_year [OF time date] .
  have m: "1 \<le> m" "m \<le> 12" "1 \<le> d" "d \<le> 31"
    using civil_date_valid [of "s div 86400"] date by (auto simp: valid_date_def month_length_def split: if_splits)
  let ?date = "pad_int 4 y @ ''-'' @ pad_int 2 m @ ''-'' @ pad_int 2 d"
  let ?sec = "pad_int 2 c @ ''.'' @ pad_int 6 us"
  let ?time = "pad_int 2 h @ '':'' @ pad_int 2 n @ '':'' @ ?sec"
  have printed: "python_datetime s us = ?date @ '' '' @ ?time"
  proof -
    have "quot t 3600 = h" "quot (t mod 3600) 60 = n" using t by (simp_all add: h_def n_def)
    then show ?thesis
      unfolding python_datetime_def Let_def t_def [symmetric] c_def [symmetric] date prod.case
      by (simp only: append_assoc)
  qed
  have digits: "is_digit x \<or> x \<in> set ''-:. ''" if "x \<in> set (?date @ '' '' @ ?time)" for x
  proof -
    have "0 \<le> y" "0 \<le> m" "0 \<le> d" using y m by simp_all
    note plain = this [THEN pad_int_digits] parts(1,3,5) [THEN pad_int_digits] micros(1) [THEN pad_int_digits]
    show ?thesis using that by (auto dest: plain)
  qed
  have nonempty: "pad_int 4 y \<noteq> []" "pad_int 6 us \<noteq> []" using y micros by (simp_all add: pad_int_nonneg)
  moreover from this have "is_digit (hd (pad_int 4 y))" "is_digit (last (pad_int 6 us))"
    using y micros by (auto intro: pad_int_digits [OF _ hd_in_set] pad_int_digits [OF _ last_in_set])
  ultimately have ends: "is_digit (hd (?date @ '' '' @ ?time))" "is_digit (last (?date @ '' '' @ ?time))" by simp_all
  then have trim: "trim_text (?date @ '' '' @ ?time) = ?date @ '' '' @ ?time" by (intro trim_text_plain) (simp_all add: plain_digit)
  have no_t: "x \<noteq> CHR ''T''" if "x \<in> set (?date @ '' '' @ ?time)" for x
    using digits [OF that] by (auto simp: is_digit_def)
  have "map (\<lambda>c. if c = CHR ''T'' then CHR '' '' else c) (?date @ '' '' @ ?time) = ?date @ '' '' @ ?time"
    by (rule map_idI, rule if_not_P, erule no_t)
  moreover have "\<not> ends_with ''Z'' (?date @ '' '' @ ?time)"
  proof
    assume "ends_with ''Z'' (?date @ '' '' @ ?time)"
    then have "last (?date @ '' '' @ ?time) = CHR ''Z''" by (metis ends_with_iff last_snoc)
    with ends(2) show False by (simp only: is_digit_def) simp
  qed
  ultimately have normal: "normalized_text (?date @ '' '' @ ?time) = ?date @ '' '' @ ?time"
    by (simp only: normalized_text_def Let_def if_False)
  have no: "\<not> is_digit (CHR '' '')" "\<not> is_digit (CHR '':'')" "\<not> is_digit (CHR ''.'')" by (simp_all add: is_digit_def)
  have date_part: "parse_date_part ?date = Some (y, m, d)"
    using y m split_on_three [of "CHR ''-''" "pad_int 4 y" "pad_int 2 m" "pad_int 2 d"]
    by (simp add: parse_date_part_def pad_int_no pad_int_parse_i64 pad_int_parse_u32)
  have "split_once (CHR ''.'') ?sec = Some (pad_int 2 c, pad_int 6 us)"
    using split_once_append [of "CHR ''.''" "pad_int 2 c"] no parts by (simp add: pad_int_no)
  moreover have "list_all is_digit (pad_int 6 us)" "length (pad_int 6 us) = 6"
    using micros by (auto simp: list_all_iff dest: pad_int_digits intro!: length_pad_int)
  ultimately have "parse_seconds ?sec = Some c" using parts by (simp add: parse_seconds_def pad_int_parse_i64)
  then have time_part: "parse_time_part ?time = Some t"
    using split_on_three [of "CHR '':''" "pad_int 2 h" "pad_int 2 n" ?sec] parts no micros
    by (simp add: parse_time_part_def pad_int_no pad_int_parse_i64)
  have "CHR '' '' \<notin> set ?date" using y m no by (simp add: pad_int_no)
  then have cut: "split_once (CHR '' '') (?date @ '' '' @ ?time) = Some (?date, ?time)"
    using split_once_append [of "CHR '' ''" ?date ?time] by simp
  have "days_from_civil y m d * 86400 + t = s"
    using days_from_civil_civil_date [OF date] by (simp add: t_def)
  then show ?thesis
    unfolding printed parse_python_datetime_def Let_def trim normal cut
    using date_part time_part nonempty by simp
qed

end
