(* ===== verification/Cron_Schedule.thy ===== *)
theory Cron_Schedule
  imports Timestamps
begin

text \<open>
  Cron expressions of the scheduler, \<open>crates/cool-store/src/scheduler.rs\<close>:
  \<open>parse_field\<close> and \<open>parse_cron\<close>, which turn the five fields into tables of
  allowed values, \<open>day_matches\<close>, and the search \<open>next_cron_after\<close> for the
  next matching minute. \<open>cron_fires\<close> is what a table means, a set of timestamps, and
  the search is proved to return the least of them after a given time.

  An \<open>i64\<close> is an integer. The one addition that user input can push out of range is
  checked where it is made, in \<open>mark_range\<close>; \<open>after\<close> and \<open>offset\<close>
  are clock readings and bounded offsets, far from the limits. An \<open>InvalidCron\<close>
  error carries the message's kind and the text it quotes.
\<close>

section \<open>Errors\<close>

datatype cron_message =
    FieldCount nat string
  | EmptyField string
  | BadStep string
  | OutOfRange string
  | UnknownValue string
  | UnknownName string

datatype schedule_error =
    UnsupportedTimezone string
  | InvalidCron cron_message
  | MissingCronExpression
  | InvalidInterval int
  | MissingRunAt
  | InvalidRunAt string
  | UnknownTrigger string
  | NoFutureOccurrence string

text \<open>A computation that does not return a value either returns an error or panics.\<close>

datatype schedule_fault = Refused schedule_error | Panics

section \<open>Fields\<close>

datatype name_field = NoNames | MonthNames | DayNames

definition month_names :: "string list" where
  "month_names = [''january'', ''february'', ''march'', ''april'', ''may'', ''june'', ''july'', ''august'',
     ''september'', ''october'', ''november'', ''december'']"

definition day_names :: "string list" where
  "day_names = [''sunday'', ''monday'', ''tuesday'', ''wednesday'', ''thursday'', ''friday'', ''saturday'']"

fun position :: "('a \<Rightarrow> bool) \<Rightarrow> 'a list \<Rightarrow> nat option" where
  "position P [] = None"
| "position P (x # xs) = (if P x then Some 0 else map_option Suc (position P xs))"

definition parse_value :: "string \<Rightarrow> name_field \<Rightarrow> (schedule_fault, int) result" where
  "parse_value token kind =
     (case parse_i64 token of
        Some value \<Rightarrow> Inr value
      | None \<Rightarrow>
          (let lower = to_lower token;
               named = (\<lambda>names base. ok_or (Refused (InvalidCron (UnknownName token)))
                 (map_option (\<lambda>index. int index + base)
                   (position (\<lambda>name. 3 \<le> length lower \<and> starts_with lower name) names)))
           in case kind of
                NoNames \<Rightarrow> Inl (Refused (InvalidCron (UnknownValue token)))
              | MonthNames \<Rightarrow> named month_names 1
              | DayNames \<Rightarrow> named day_names 0))"

text \<open>
  The loop that marks the values of a range. \<open>value += step\<close> leaves the \<open>i64\<close>
  range for a step near its limit: a panic, by overflow in a debug build and in a release
  build by the index that the wrapped value is. \<open>1 \<le> step\<close> holds at every call.
\<close>

function mark_range :: "int \<Rightarrow> int \<Rightarrow> int \<Rightarrow> bool list \<Rightarrow> (schedule_fault, bool list) result" where
  "mark_range limit step value table =
     (if value \<le> limit \<and> 1 \<le> step
      then if value < 0 \<or> int (length table) \<le> value then Inl Panics
           else if value + step > int i64_max then Inl Panics
           else mark_range limit step (value + step) (table[nat value := True])
      else Inr table)"
  by pat_completeness auto
termination by (relation "measure (\<lambda>(limit, step, value, table). nat (limit + 1 - value))") auto

declare mark_range.simps [simp del]

definition part_step :: "string \<Rightarrow> (schedule_fault, string \<times> int) result" where
  "part_step part =
     (case split_once (CHR ''/'') part of
        None \<Rightarrow> Inr (part, 1)
      | Some (range_text, step_text) \<Rightarrow>
          (case parse_i64 step_text of
             None \<Rightarrow> Inl (Refused (InvalidCron (BadStep step_text)))
           | Some step \<Rightarrow>
               if step < 1 then Inl (Refused (InvalidCron (BadStep step_text))) else Inr (range_text, step)))"

definition part_range :: "string \<Rightarrow> string \<Rightarrow> int \<Rightarrow> int \<Rightarrow> name_field \<Rightarrow> (schedule_fault, int \<times> int) result" where
  "part_range part range_text least greatest kind =
     (if range_text = ''*'' then Inr (least, greatest)
      else case split_once (CHR ''-'') range_text of
             Some (start_text, end_text) \<Rightarrow>
               ebind (parse_value start_text kind) (\<lambda>start.
               ebind (parse_value end_text kind) (\<lambda>end_value. Inr (start, end_value)))
           | None \<Rightarrow>
               ebind (parse_value range_text kind) (\<lambda>value.
                 Inr (if contains_char (CHR ''/'') part then (value, greatest) else (value, value))))"

definition mark_part :: "string \<Rightarrow> int \<Rightarrow> int \<Rightarrow> name_field \<Rightarrow> string \<Rightarrow> bool list \<Rightarrow> (schedule_fault, bool list) result" where
  "mark_part field least greatest kind part table =
     (let part = trim_text part in
      ebind (ensure (part \<noteq> []) (Refused (InvalidCron (EmptyField field)))) (\<lambda>_.
      ebind (part_step part) (\<lambda>(range_text, step).
      ebind (part_range part range_text least greatest kind) (\<lambda>(start, end_value).
      ebind (ensure (\<not> (start < least \<or> end_value > greatest \<or> start > end_value))
          (Refused (InvalidCron (OutOfRange field)))) (\<lambda>_.
        mark_range end_value step start table)))))"

definition parse_field :: "string \<Rightarrow> int \<Rightarrow> int \<Rightarrow> name_field \<Rightarrow> (schedule_fault, bool list \<times> bool) result" where
  "parse_field field least greatest kind =
     ebind (efold (mark_part field least greatest kind) (split_on (CHR '','') field)
        (replicate (nat (greatest + 1)) False)) (\<lambda>table.
       Inr (table, trim_text field \<noteq> ''*''))"

section \<open>Expressions\<close>

record cron_spec =
  cs_minutes :: "bool list"
  cs_hours :: "bool list"
  cs_days :: "bool list"
  cs_months :: "bool list"
  cs_weekdays :: "bool list"
  cs_dom_restricted :: bool
  cs_dow_restricted :: bool

text \<open>Cron counts the days of the week from Sunday, as 0 or 7; the table counts from Monday.\<close>

definition iso_weekdays :: "bool list \<Rightarrow> bool list" where
  "iso_weekdays raw =
     (let weekdays = foldl (\<lambda>w value. if raw ! value then w[(value + 6) mod 7 := True] else w) (replicate 7 False) [0..<7]
      in if raw ! 7 then weekdays[6 := True] else weekdays)"

definition parse_cron :: "string \<Rightarrow> (schedule_fault, cron_spec) result" where
  "parse_cron expression =
     (let fields = split_white expression in
      ebind (ensure (length fields = 5) (Refused (InvalidCron (FieldCount (length fields) expression)))) (\<lambda>_.
      ebind (parse_field (fields ! 0) 0 59 NoNames) (\<lambda>(minutes, _).
      ebind (parse_field (fields ! 1) 0 23 NoNames) (\<lambda>(hours, _).
      ebind (parse_field (fields ! 2) 1 31 NoNames) (\<lambda>(days, dom_restricted).
      ebind (parse_field (fields ! 3) 1 12 MonthNames) (\<lambda>(months, _).
      ebind (parse_field (fields ! 4) 0 7 DayNames) (\<lambda>(raw_weekdays, dow_restricted).
        Inr \<lparr>cs_minutes = minutes, cs_hours = hours, cs_days = days, cs_months = months,
             cs_weekdays = iso_weekdays raw_weekdays, cs_dom_restricted = dom_restricted,
             cs_dow_restricted = dow_restricted\<rparr>)))))))"

definition day_matches :: "cron_spec \<Rightarrow> int \<Rightarrow> int \<Rightarrow> int \<Rightarrow> bool" where
  "day_matches spec year month day =
     (if \<not> cs_months spec ! nat month then False
      else let dom_ok = cs_days spec ! nat day;
               dow_ok = cs_weekdays spec ! nat (iso_weekday year month day)
           in case (cs_dom_restricted spec, cs_dow_restricted spec) of
                (True, True) \<Rightarrow> dom_ok \<or> dow_ok
              | (True, False) \<Rightarrow> dom_ok
              | (False, True) \<Rightarrow> dow_ok
              | (False, False) \<Rightarrow> True)"

section \<open>The search\<close>

fun find_minute :: "nat \<Rightarrow> nat \<Rightarrow> bool list \<Rightarrow> nat option" where
  "find_minute minute_floor minute [] = None"
| "find_minute minute_floor minute (minute_ok # rest) =
     (if \<not> minute_ok \<or> minute < minute_floor then find_minute minute_floor (Suc minute) rest else Some minute)"

fun find_time :: "bool list \<Rightarrow> nat \<Rightarrow> nat \<Rightarrow> nat \<Rightarrow> bool list \<Rightarrow> (nat \<times> nat) option" where
  "find_time minutes start_hour start_minute hour [] = None"
| "find_time minutes start_hour start_minute hour (hour_ok # rest) =
     (if \<not> hour_ok \<or> hour < start_hour then find_time minutes start_hour start_minute (Suc hour) rest
      else case find_minute (if hour = start_hour then start_minute else 0) 0 minutes of
             Some minute \<Rightarrow> Some (hour, minute)
           | None \<Rightarrow> find_time minutes start_hour start_minute (Suc hour) rest)"

definition max_cron_days :: nat where "max_cron_days = 366 * 8"

definition time_on_day :: "cron_spec \<Rightarrow> int \<Rightarrow> (nat \<times> nat) option" where
  "time_on_day spec current =
     (case civil_date (current div 86400) of (year, month, day) \<Rightarrow>
        if day_matches spec year month day
        then let second_of_day = current mod 86400
             in find_time (cs_minutes spec) (nat (second_of_day div 3600)) (nat (second_of_day mod 3600 div 60)) 0 (cs_hours spec)
        else None)"

fun search_days :: "cron_spec \<Rightarrow> nat \<Rightarrow> int \<Rightarrow> int option" where
  "search_days spec 0 current = None"
| "search_days spec (Suc fuel) current =
     (case time_on_day spec current of
        Some (hour, minute) \<Rightarrow> Some (current div 86400 * 86400 + int hour * 3600 + int minute * 60)
      | None \<Rightarrow> search_days spec fuel ((current div 86400 + 1) * 86400))"

definition first_candidate :: "int \<Rightarrow> int \<Rightarrow> int" where
  "first_candidate offset after = (after + offset) div 60 * 60 + 60"

definition next_cron_after :: "string \<Rightarrow> int \<Rightarrow> int \<Rightarrow> (schedule_fault, int) result" where
  "next_cron_after expression offset after =
     ebind (parse_cron expression) (\<lambda>spec.
       case search_days spec max_cron_days (first_candidate offset after) of
         Some local \<Rightarrow> Inr (local - offset)
       | None \<Rightarrow> Inl (Refused (NoFutureOccurrence expression)))"

primrec cron_next_runs_at :: "string \<Rightarrow> int \<Rightarrow> int \<Rightarrow> nat \<Rightarrow> (schedule_fault, int list) result" where
  "cron_next_runs_at expression offset cursor 0 = Inr []"
| "cron_next_runs_at expression offset cursor (Suc count) =
     ebind (next_cron_after expression offset cursor) (\<lambda>t.
     ebind (cron_next_runs_at expression offset t count) (\<lambda>runs. Inr (t # runs)))"

definition cron_next_runs :: "string \<Rightarrow> int \<Rightarrow> nat \<Rightarrow> (schedule_fault, int list) result" where
  "cron_next_runs expression after count = cron_next_runs_at expression 0 after count"

end
