(* ===== verification/Schedule_Engine.thy ===== *)
theory Schedule_Engine
  imports Cron_Schedule Json_Values
begin

text \<open>
  The deterministic scheduler of \<open>crates/cool-store/src/scheduler.rs\<close>: the triggers of
  a task and its next run, time zones and quiet hours, and the engine \<open>Scheduler\<close> with
  its in-flight marks, \<open>plan\<close>, \<open>mark_running\<close> and \<open>complete\<close>. The
  record of a task is \<open>ScheduledTask\<close> of \<open>domains/tasks.rs\<close>; its JSON columns
  are documents and its \<open>f64\<close> columns bit patterns.
\<close>

section \<open>Tasks\<close>

record scheduled_task =
  tk_id :: int
  tk_user_id :: int
  tk_name :: string
  tk_description :: "string option"
  tk_trigger_type :: string
  tk_cron_expression :: "string option"
  tk_interval_seconds :: "int option"
  tk_run_at :: "string option"
  tk_timezone :: string
  tk_quiet_hours_start :: "string option"
  tk_quiet_hours_end :: "string option"
  tk_misfire_policy :: string
  tk_prompt :: string
  tk_workflow_type :: "string option"
  tk_profile_id :: "int option"
  tk_model :: "string option"
  tk_tools_whitelist :: "json option"
  tk_capability_policy :: "json option"
  tk_working_directory :: "string option"
  tk_approval_policy :: string
  tk_delivery_channels :: "json option"
  tk_delivery_config :: "json option"
  tk_last_delivery_hash :: "string option"
  tk_max_iterations :: int
  tk_max_cost_per_run :: "64 word option"
  tk_timeout_s :: "64 word option"
  tk_enabled :: bool
  tk_next_run_at :: "string option"
  tk_last_run_at :: "string option"
  tk_last_status :: "string option"
  tk_run_count :: int
  tk_failure_count :: int
  tk_created_at :: string
  tk_updated_at :: string

section \<open>Time zones and clock times\<close>

definition strip_prefix_ci :: "string \<Rightarrow> string \<Rightarrow> string option" where
  "strip_prefix_ci text prefix =
     (if length text < length prefix then None
      else if to_lower (take (length prefix) text) = to_lower prefix then Some (drop (length prefix) text) else None)"

definition is_ascii :: "string \<Rightarrow> bool" where
  "is_ascii s \<longleftrightarrow> list_all (\<lambda>c. (of_char c :: nat) < 128) s"

definition offset_parts :: "string \<Rightarrow> (string \<times> string) option" where
  "offset_parts rest =
     (case split_once (CHR '':'') rest of
        Some (hours, minutes) \<Rightarrow> if length hours \<noteq> 2 \<or> \<not> list_all is_digit hours then None else Some (hours, minutes)
      | None \<Rightarrow> if length rest = 4 \<and> is_ascii rest then Some (take 2 rest, drop 2 rest) else None)"

definition parse_offset :: "string \<Rightarrow> int option" where
  "parse_offset text =
     (let signed = (case text of
            [] \<Rightarrow> None
          | c # cs \<Rightarrow> if c = CHR ''+'' then Some (1, trim_text cs) else if c = CHR ''-'' then Some (- 1, trim_text cs) else None)
      in case signed of
           None \<Rightarrow> None
         | Some (sign, rest) \<Rightarrow>
             (case offset_parts rest of
                None \<Rightarrow> None
              | Some (hours_text, minutes_text) \<Rightarrow>
                  (case (parse_i64 hours_text, parse_i64 minutes_text) of
                     (Some hours, Some minutes) \<Rightarrow>
                       if \<not> (0 \<le> hours \<and> hours \<le> 23) \<or> \<not> (0 \<le> minutes \<and> minutes \<le> 59) then None
                       else Some (sign * (hours * 3600 + minutes * 60))
                   | _ \<Rightarrow> None)))"

definition timezone_offset :: "string \<Rightarrow> (schedule_error, int) result" where
  "timezone_offset name =
     (let trimmed = trim_text name in
      if trimmed = [] \<or> to_lower trimmed = ''utc'' \<or> to_lower trimmed = ''gmt'' then Inr 0
      else let rest = (case strip_prefix_ci trimmed ''utc'' of
                 Some r \<Rightarrow> r
               | None \<Rightarrow> (case strip_prefix_ci trimmed ''gmt'' of Some r \<Rightarrow> r | None \<Rightarrow> trimmed))
           in ok_or (UnsupportedTimezone name) (parse_offset rest))"

definition timezone_offset_seconds :: "string \<Rightarrow> int option" where
  "timezone_offset_seconds name = (case timezone_offset name of Inr offset \<Rightarrow> Some offset | Inl _ \<Rightarrow> None)"

definition parse_hhmm :: "string option \<Rightarrow> int option" where
  "parse_hhmm value =
     (case value of
        None \<Rightarrow> None
      | Some value \<Rightarrow>
          (let text = trim_text value;
               parts = (case split_once (CHR '':'') text of
                 Some (hours, minutes) \<Rightarrow> if length minutes \<noteq> 2 \<or> \<not> list_all is_digit minutes then None else Some (hours, minutes)
               | None \<Rightarrow> Some (text, ''0''))
           in case parts of
                None \<Rightarrow> None
              | Some (hours_text, minutes_text) \<Rightarrow>
                  if hours_text = [] \<or> length hours_text > 2 \<or> \<not> list_all is_digit hours_text then None
                  else (case (parse_i64 hours_text, parse_i64 minutes_text) of
                          (Some hours, Some minutes) \<Rightarrow>
                            if \<not> (0 \<le> hours \<and> hours \<le> 23) \<or> \<not> (0 \<le> minutes \<and> minutes \<le> 59) then None
                            else Some (hours * 60 + minutes)
                        | _ \<Rightarrow> None)))"

definition quiet_hours :: "scheduled_task \<Rightarrow> int \<Rightarrow> (schedule_error, bool) result" where
  "quiet_hours task moment =
     (case (parse_hhmm (tk_quiet_hours_start task), parse_hhmm (tk_quiet_hours_end task)) of
        (Some start, Some end_minute) \<Rightarrow>
          if start = end_minute then Inr False
          else ebind (timezone_offset (tk_timezone task)) (\<lambda>offset.
            let local_minutes = (moment + offset) mod 86400 div 60
            in Inr (if start < end_minute then start \<le> local_minutes \<and> local_minutes < end_minute
                    else local_minutes \<ge> start \<or> local_minutes < end_minute))
      | _ \<Rightarrow> Inr False)"

section \<open>Triggers\<close>

datatype trigger = CronTrigger string | IntervalTrigger int | DateTrigger int

definition trigger_from_task :: "scheduled_task \<Rightarrow> (schedule_error, trigger) result" where
  "trigger_from_task task =
     (if tk_trigger_type task = ''cron'' then
        ebind (ok_or MissingCronExpression (tk_cron_expression task)) (\<lambda>expression. Inr (CronTrigger expression))
      else if tk_trigger_type task = ''interval'' then
        ebind (ok_or (InvalidInterval 0) (tk_interval_seconds task)) (\<lambda>seconds.
          if seconds < 1 then Inl (InvalidInterval seconds) else Inr (IntervalTrigger seconds))
      else if tk_trigger_type task = ''date'' then
        ebind (ok_or MissingRunAt (tk_run_at task)) (\<lambda>text.
        ebind (ok_or (InvalidRunAt text) (parse_python_datetime text)) (\<lambda>run_at. Inr (DateTrigger run_at)))
      else Inl (UnknownTrigger (tk_trigger_type task)))"

text \<open>An error of the schedule as the result of a computation that may also panic.\<close>

definition refused :: "(schedule_error, 'a) result \<Rightarrow> (schedule_fault, 'a) result" where
  "refused r = (case r of Inl e \<Rightarrow> Inl (Refused e) | Inr x \<Rightarrow> Inr x)"

definition next_run :: "scheduled_task \<Rightarrow> int \<Rightarrow> (schedule_fault, int option) result" where
  "next_run task after =
     ebind (refused (timezone_offset (tk_timezone task))) (\<lambda>offset.
     ebind (refused (trigger_from_task task)) (\<lambda>trigger.
       case trigger of
         CronTrigger expression \<Rightarrow> ebind (next_cron_after expression offset after) (\<lambda>t. Inr (Some t))
       | IntervalTrigger seconds \<Rightarrow> if after + seconds > int i64_max then Inl Panics else Inr (Some (after + seconds))
       | DateTrigger run_at \<Rightarrow> Inr (if run_at > after then Some run_at else None)))"

section \<open>The engine\<close>

record scheduler_config =
  sg_misfire_grace_seconds :: int
  sg_max_consecutive_failures :: nat

definition default_scheduler_config :: scheduler_config where
  "default_scheduler_config = \<lparr>sg_misfire_grace_seconds = 300, sg_max_consecutive_failures = 5\<rparr>"

datatype schedule_decision = ExecuteTask int int | SkipTask int string

record scheduler =
  se_config :: scheduler_config
  se_running :: "int set"
  se_pending :: "int \<rightharpoonup> int"

definition new_scheduler :: "scheduler_config \<Rightarrow> scheduler" where
  "new_scheduler config = \<lparr>se_config = config, se_running = {}, se_pending = Map.empty\<rparr>"

definition due_time :: "scheduled_task \<Rightarrow> int option" where
  "due_time task = (case tk_next_run_at task of None \<Rightarrow> None | Some text \<Rightarrow> parse_python_datetime text)"

definition quiet_reason :: "scheduled_task \<Rightarrow> string" where
  "quiet_reason task = ''quiet hours '' @ (case tk_quiet_hours_start task of None \<Rightarrow> [] | Some s \<Rightarrow> s) @ '' - '' @
     (case tk_quiet_hours_end task of None \<Rightarrow> [] | Some s \<Rightarrow> s)"

type_synonym plan_state = "schedule_decision list \<times> (int \<times> int) list"

definition plan_task :: "scheduler \<Rightarrow> int \<Rightarrow> scheduled_task \<Rightarrow> plan_state \<Rightarrow> (schedule_error, plan_state) result" where
  "plan_task engine now task st =
     (case st of (decisions, reserved) \<Rightarrow>
        if \<not> tk_enabled task then Inr (decisions, reserved)
        else case due_time task of
               None \<Rightarrow> Inr (decisions, reserved)
             | Some due \<Rightarrow>
                 if due > now then Inr (decisions, reserved)
                 else ebind (quiet_hours task now) (\<lambda>quiet.
                   if quiet then Inr (decisions @ [SkipTask (tk_id task) (quiet_reason task)], reserved)
                   else if tk_id task \<in> se_running engine then Inr (decisions @ [SkipTask (tk_id task) ''overlap''], reserved)
                   else let late = now - due in
                        if tk_misfire_policy task \<noteq> ''run'' \<and> late > sg_misfire_grace_seconds (se_config engine)
                        then Inr (decisions @ [SkipTask (tk_id task) (''missed fire time '' @ python_datetime due 0 @
                               '' (late by '' @ pad_int 0 late @ ''s)'')], reserved)
                        else Inr (decisions @ [ExecuteTask (tk_id task) due], reserved @ [(tk_id task, due)])))"

definition reserve :: "scheduler \<Rightarrow> int \<times> int \<Rightarrow> scheduler" where
  "reserve engine r = engine\<lparr>se_running := insert (fst r) (se_running engine), se_pending := (se_pending engine)(fst r \<mapsto> snd r)\<rparr>"

definition plan :: "scheduled_task list \<Rightarrow> int \<Rightarrow> scheduler \<Rightarrow> (schedule_error, schedule_decision list) result \<times> scheduler" where
  "plan tasks now engine =
     (case efold (plan_task engine now) tasks ([], []) of
        Inl e \<Rightarrow> (Inl e, engine)
      | Inr (decisions, reserved) \<Rightarrow> (Inr decisions, foldl reserve engine reserved))"

definition mark_running :: "int \<Rightarrow> scheduler \<Rightarrow> scheduler" where
  "mark_running task_id engine = engine\<lparr>se_running := insert task_id (se_running engine)\<rparr>"

definition complete_task :: "int \<Rightarrow> scheduler \<Rightarrow> scheduler" where
  "complete_task task_id engine =
     engine\<lparr>se_running := se_running engine - {task_id}, se_pending := (se_pending engine)(task_id := None)\<rparr>"

section \<open>Offsets and windows\<close>

lemma timezone_offset_range:
  assumes "timezone_offset name = Inr offset"
  shows "\<bar>offset\<bar> \<le> 86340 \<and> offset mod 60 = 0"
proof -
  have "\<bar>o'\<bar> \<le> 86340 \<and> o' mod 60 = 0" if "parse_offset s = Some o'" for s o'
  proof -
    from that have "\<exists>h m. 0 \<le> h \<and> h \<le> 23 \<and> 0 \<le> m \<and> m \<le> 59 \<and> (o' = h * 3600 + m * 60 \<or> o' = - (h * 3600) - m * 60)"
      by (fastforce simp: parse_offset_def Let_def split: list.splits option.splits if_splits)
    then obtain h m where hm: "0 \<le> h" "h \<le> 23" "0 \<le> m" "m \<le> 59"
      and "o' = h * 3600 + m * 60 \<or> o' = - (h * 3600) - m * 60" by blast
    then have o: "o' = (h * 60 + m) * 60 \<or> o' = (- (h * 60) - m) * 60" by (simp add: algebra_simps)
    then have "o' mod 60 = 0" using mod_mult_self2_is_0 by metis
    with o hm show ?thesis by auto
  qed
  then show ?thesis using assms
    by (auto simp: timezone_offset_def Let_def res_simps split: if_splits)
qed

lemma parse_hhmm_range: "parse_hhmm value = Some m \<Longrightarrow> 0 \<le> m \<and> m < 1440"
  by (auto simp: parse_hhmm_def Let_def split: option.splits if_splits)

end
