(* ===== verification/Task_Store.thy ===== *)
theory Task_Store
  imports Schedule_Engine
begin

text \<open>
  The tables of scheduled tasks and their runs, \<open>crates/cool-store/src/domains/tasks.rs\<close>,
  and the operations of the store on them. Every operation runs its statements one by one, so
  an error leaves what was written before it: an operation returns its result and the
  tables. A table is its rows; a row's id is the greatest id so far plus one, as SQLite
  chooses it. \<open>timestamp\<close> is a reading of \<open>now_python\<close> and \<open>now\<close> one of
  \<open>now_seconds\<close>; an operation that reads the clock twice has two parameters.
  The actors are those of \<open>crates/cool-store/src/actors.rs\<close>. JSON columns hold
  documents, as \<open>serde_json\<close> writes and reads them; an \<open>InvalidInput\<close>
  error carries what its message is made from.
\<close>

section \<open>Tables\<close>

record task_run =
  tu_id :: int
  tu_task_id :: int
  tu_conversation_id :: "int option"
  tu_run_id :: "int option"
  tu_status :: string
  tu_trigger_source :: string
  tu_prompt :: string
  tu_output :: "string option"
  tu_error :: "string option"
  tu_skip_reason :: "string option"
  tu_approval_policy :: "string option"
  tu_approval_reason :: "string option"
  tu_usage :: "json option"
  tu_duration_ms :: "int option"
  tu_delivery_status :: "json option"
  tu_delivered_at :: "string option"
  tu_is_read :: bool
  tu_started_at :: string
  tu_finished_at :: "string option"
  tu_created_at :: string
  tu_updated_at :: string

record user_row =
  us_row_id :: int
  us_external_id :: "string option"
  us_username :: "string option"

record task_db =
  td_actors :: "(string \<times> int) list option"
  td_users :: "user_row list"
  td_tasks :: "scheduled_task list"
  td_runs :: "task_run list"

datatype invalid_input = BadSchedule schedule_error | UnknownMisfirePolicy string | UnknownApprovalPolicy string

datatype task_error = TaskNotFound string | InvalidInput invalid_input | ActorUnknown string | TaskPanic

type_synonym 'a task_result = "(task_error, 'a) result"

definition fault_error :: "schedule_fault \<Rightarrow> task_error" where
  "fault_error f = (case f of Refused e \<Rightarrow> InvalidInput (BadSchedule e) | Panics \<Rightarrow> TaskPanic)"

definition faulted :: "(schedule_fault, 'a) result \<Rightarrow> 'a task_result" where
  "faulted r = (case r of Inl f \<Rightarrow> Inl (fault_error f) | Inr x \<Rightarrow> Inr x)"

section \<open>Actors\<close>

definition resolve_user :: "task_db \<Rightarrow> string \<Rightarrow> int task_result" where
  "resolve_user db actor_id =
     (let mapped = (case td_actors db of None \<Rightarrow> None | Some actors \<Rightarrow> map_of actors actor_id);
          users = sort_key us_row_id (td_users db)
      in case mapped of
           Some user_id \<Rightarrow> Inr user_id
         | None \<Rightarrow>
             (case find (\<lambda>u. us_external_id u = Some actor_id \<or> us_username u = Some actor_id) users of
                Some u \<Rightarrow> Inr (us_row_id u)
              | None \<Rightarrow>
                  (case users of
                     u # _ \<Rightarrow> if actor_id = ''local-user'' then Inr (us_row_id u) else Inl (ActorUnknown actor_id)
                   | [] \<Rightarrow> Inl (ActorUnknown actor_id))))"

section \<open>Rows\<close>

definition fetch_task :: "task_db \<Rightarrow> int \<Rightarrow> scheduled_task task_result" where
  "fetch_task db task_id = ok_or (TaskNotFound ''scheduled task'') (find (\<lambda>t. tk_id t = task_id) (td_tasks db))"

definition require_task :: "task_db \<Rightarrow> string \<Rightarrow> int \<Rightarrow> scheduled_task task_result" where
  "require_task db actor_id task_id =
     ebind (fetch_task db task_id) (\<lambda>task.
     ebind (resolve_user db actor_id) (\<lambda>user_id.
       if tk_user_id task \<noteq> user_id then Inl (TaskNotFound ''scheduled task'') else Inr task))"

definition fetch_task_run :: "task_db \<Rightarrow> int \<Rightarrow> task_run task_result" where
  "fetch_task_run db run_id = ok_or (TaskNotFound ''task run'') (find (\<lambda>r. tu_id r = run_id) (td_runs db))"

definition require_task_run :: "task_db \<Rightarrow> string \<Rightarrow> int \<Rightarrow> task_run task_result" where
  "require_task_run db actor_id run_id =
     ebind (fetch_task_run db run_id) (\<lambda>run.
     ebind (require_task db actor_id (tu_task_id run)) (\<lambda>_. Inr run))"

definition set_task :: "int \<Rightarrow> (scheduled_task \<Rightarrow> scheduled_task) \<Rightarrow> task_db \<Rightarrow> task_db" where
  "set_task task_id f db = db\<lparr>td_tasks := map (\<lambda>t. if tk_id t = task_id then f t else t) (td_tasks db)\<rparr>"

definition set_task_run :: "int \<Rightarrow> (task_run \<Rightarrow> task_run) \<Rightarrow> task_db \<Rightarrow> task_db" where
  "set_task_run run_id f db = db\<lparr>td_runs := map (\<lambda>r. if tu_id r = run_id then f r else r) (td_runs db)\<rparr>"

definition next_row_id :: "int list \<Rightarrow> int" where
  "next_row_id ids = (if ids = [] then 1 else Max (set ids) + 1)"

definition set_next_run :: "int \<Rightarrow> string option \<Rightarrow> task_db \<Rightarrow> task_db" where
  "set_next_run task_id n db = set_task task_id (\<lambda>t. t\<lparr>tk_next_run_at := n\<rparr>) db"

section \<open>Schedules of rows\<close>

definition compute_next_run :: "scheduled_task \<Rightarrow> int \<Rightarrow> string option task_result" where
  "compute_next_run task after =
     ebind (faulted (next_run task after)) (\<lambda>t. Inr (map_option (\<lambda>timestamp. python_datetime timestamp 0) t))"

definition validate_policies :: "string \<Rightarrow> string \<Rightarrow> unit task_result" where
  "validate_policies misfire_policy approval_policy =
     (if misfire_policy \<noteq> ''run'' \<and> misfire_policy \<noteq> ''skip''
      then Inl (InvalidInput (UnknownMisfirePolicy misfire_policy))
      else if approval_policy \<noteq> ''deny_external'' \<and> approval_policy \<noteq> ''allow_all''
      then Inl (InvalidInput (UnknownApprovalPolicy approval_policy))
      else Inr ())"

definition schedule_probe :: "string \<Rightarrow> string option \<Rightarrow> int option \<Rightarrow> string option \<Rightarrow> string \<Rightarrow> scheduled_task" where
  "schedule_probe trigger_type cron_expression interval_seconds run_at timezone =
     \<lparr>tk_id = 0, tk_user_id = 0, tk_name = [], tk_description = None, tk_trigger_type = trigger_type,
     tk_cron_expression = cron_expression, tk_interval_seconds = interval_seconds, tk_run_at = run_at,
     tk_timezone = timezone, tk_quiet_hours_start = None, tk_quiet_hours_end = None,
     tk_misfire_policy = ''skip'', tk_prompt = [], tk_workflow_type = None, tk_profile_id = None,
     tk_model = None, tk_tools_whitelist = None, tk_capability_policy = None, tk_working_directory = None,
     tk_approval_policy = ''deny_external'', tk_delivery_channels = None, tk_delivery_config = None,
     tk_last_delivery_hash = None, tk_max_iterations = 10, tk_max_cost_per_run = None, tk_timeout_s = None,
     tk_enabled = True, tk_next_run_at = None, tk_last_run_at = None, tk_last_status = None,
     tk_run_count = 0, tk_failure_count = 0, tk_created_at = [], tk_updated_at = []\<rparr>"

section \<open>Creating\<close>

record new_scheduled_task =
  nt_name :: string
  nt_description :: "string option"
  nt_trigger_type :: string
  nt_cron_expression :: "string option"
  nt_interval_seconds :: "int option"
  nt_run_at :: "string option"
  nt_timezone :: string
  nt_quiet_hours_start :: "string option"
  nt_quiet_hours_end :: "string option"
  nt_misfire_policy :: string
  nt_prompt :: string
  nt_workflow_type :: "string option"
  nt_profile_id :: "int option"
  nt_model :: "string option"
  nt_tools_whitelist :: "json option"
  nt_capability_policy :: "json option"
  nt_working_directory :: "string option"
  nt_approval_policy :: string
  nt_delivery_channels :: "json option"
  nt_delivery_config :: "json option"
  nt_max_iterations :: int
  nt_max_cost_per_run :: "64 word option"
  nt_timeout_s :: "64 word option"
  nt_enabled :: bool

definition default_new_task :: new_scheduled_task where
  "default_new_task =
     \<lparr>nt_name = [], nt_description = None, nt_trigger_type = ''cron'', nt_cron_expression = None,
     nt_interval_seconds = None, nt_run_at = None, nt_timezone = ''UTC'', nt_quiet_hours_start = None,
     nt_quiet_hours_end = None, nt_misfire_policy = ''skip'', nt_prompt = [], nt_workflow_type = None,
     nt_profile_id = None, nt_model = None, nt_tools_whitelist = None, nt_capability_policy = None,
     nt_working_directory = None, nt_approval_policy = ''deny_external'', nt_delivery_channels = None,
     nt_delivery_config = None, nt_max_iterations = 10, nt_max_cost_per_run = None, nt_timeout_s = None,
     nt_enabled = True\<rparr>"

definition json_column :: "json option \<Rightarrow> json option" where
  "json_column v = (if v = Some JNull then None else v)"

definition task_row :: "int \<Rightarrow> int \<Rightarrow> string \<Rightarrow> new_scheduled_task \<Rightarrow> scheduled_task" where
  "task_row new_id user_id timestamp new =
     \<lparr>tk_id = new_id, tk_user_id = user_id, tk_name = nt_name new, tk_description = nt_description new,
     tk_trigger_type = nt_trigger_type new, tk_cron_expression = nt_cron_expression new,
     tk_interval_seconds = nt_interval_seconds new, tk_run_at = nt_run_at new,
     tk_timezone = nt_timezone new, tk_quiet_hours_start = nt_quiet_hours_start new,
     tk_quiet_hours_end = nt_quiet_hours_end new, tk_misfire_policy = nt_misfire_policy new,
     tk_prompt = nt_prompt new, tk_workflow_type = nt_workflow_type new, tk_profile_id = nt_profile_id new,
     tk_model = nt_model new, tk_tools_whitelist = json_column (nt_tools_whitelist new),
     tk_capability_policy = json_column (nt_capability_policy new),
     tk_working_directory = nt_working_directory new, tk_approval_policy = nt_approval_policy new,
     tk_delivery_channels = json_column (nt_delivery_channels new),
     tk_delivery_config = json_column (nt_delivery_config new), tk_last_delivery_hash = None,
     tk_max_iterations = nt_max_iterations new, tk_max_cost_per_run = nt_max_cost_per_run new,
     tk_timeout_s = nt_timeout_s new, tk_enabled = nt_enabled new, tk_next_run_at = None,
     tk_last_run_at = None, tk_last_status = None, tk_run_count = 0, tk_failure_count = 0,
     tk_created_at = timestamp, tk_updated_at = timestamp\<rparr>"

text \<open>The statement that ends every change of a schedule: the next run of an enabled task, or nothing.\<close>

definition reschedule :: "int \<Rightarrow> int \<Rightarrow> task_db \<Rightarrow> scheduled_task task_result \<times> task_db" where
  "reschedule task_id now db =
     (case fetch_task db task_id of
        Inl e \<Rightarrow> (Inl e, db)
      | Inr task \<Rightarrow>
          (case (if tk_enabled task then compute_next_run task now else Inr None) of
             Inl e \<Rightarrow> (Inl e, db)
           | Inr n \<Rightarrow> (Inr (task\<lparr>tk_next_run_at := n\<rparr>), set_next_run task_id n db)))"

definition create_checks :: "int \<Rightarrow> string \<Rightarrow> new_scheduled_task \<Rightarrow> task_db \<Rightarrow> int task_result" where
  "create_checks now actor_id new db =
     ebind (resolve_user db actor_id) (\<lambda>user_id.
     ebind (validate_policies (nt_misfire_policy new) (nt_approval_policy new)) (\<lambda>_.
     ebind (faulted (next_run (schedule_probe (nt_trigger_type new) (nt_cron_expression new) (nt_interval_seconds new)
        (nt_run_at new) (nt_timezone new)) now)) (\<lambda>_. Inr user_id)))"

definition create_task ::
    "string \<Rightarrow> int \<Rightarrow> int \<Rightarrow> string \<Rightarrow> new_scheduled_task \<Rightarrow> task_db \<Rightarrow> scheduled_task task_result \<times> task_db" where
  "create_task timestamp now now' actor_id new db =
     (case create_checks now actor_id new db of
        Inl e \<Rightarrow> (Inl e, db)
      | Inr user_id \<Rightarrow>
          (let new_id = next_row_id (map tk_id (td_tasks db));
               task = task_row new_id user_id timestamp new;
               db = db\<lparr>td_tasks := td_tasks db @ [task]\<rparr>
           in if tk_enabled task then reschedule new_id now' db else (Inr task, db)))"

section \<open>Changing\<close>

record scheduled_task_patch =
  tp_name :: "string option"
  tp_description :: "string option"
  tp_trigger_type :: "string option"
  tp_cron_expression :: "string option"
  tp_interval_seconds :: "int option"
  tp_run_at :: "string option"
  tp_timezone :: "string option"
  tp_quiet_hours_start :: "string option"
  tp_quiet_hours_end :: "string option"
  tp_misfire_policy :: "string option"
  tp_prompt :: "string option"
  tp_workflow_type :: "string option"
  tp_profile_id :: "int option"
  tp_model :: "string option"
  tp_tools_whitelist :: "json option"
  tp_capability_policy :: "json option"
  tp_working_directory :: "string option"
  tp_approval_policy :: "string option"
  tp_delivery_channels :: "json option"
  tp_delivery_config :: "json option"
  tp_max_iterations :: "int option"
  tp_max_cost_per_run :: "64 word option"
  tp_timeout_s :: "64 word option"
  tp_enabled :: "bool option"

definition patched :: "'a option \<Rightarrow> 'a \<Rightarrow> 'a" where
  "patched p old = (case p of None \<Rightarrow> old | Some v \<Rightarrow> v)"

definition patched_opt :: "'a option \<Rightarrow> 'a option \<Rightarrow> 'a option" where
  "patched_opt p old = (case p of None \<Rightarrow> old | Some v \<Rightarrow> Some v)"

definition schedule_touched :: "scheduled_task_patch \<Rightarrow> bool" where
  "schedule_touched patch \<longleftrightarrow> tp_trigger_type patch \<noteq> None \<or> tp_cron_expression patch \<noteq> None \<or>
     tp_interval_seconds patch \<noteq> None \<or> tp_run_at patch \<noteq> None \<or> tp_timezone patch \<noteq> None \<or> tp_enabled patch \<noteq> None"

definition apply_patch :: "string \<Rightarrow> scheduled_task_patch \<Rightarrow> scheduled_task \<Rightarrow> scheduled_task" where
  "apply_patch timestamp patch row =
     row\<lparr>tk_name := patched (tp_name patch) (tk_name row),
     tk_description := patched_opt (tp_description patch) (tk_description row),
     tk_trigger_type := patched (tp_trigger_type patch) (tk_trigger_type row),
     tk_cron_expression := patched_opt (tp_cron_expression patch) (tk_cron_expression row),
     tk_interval_seconds := patched_opt (tp_interval_seconds patch) (tk_interval_seconds row),
     tk_run_at := patched_opt (tp_run_at patch) (tk_run_at row),
     tk_timezone := patched (tp_timezone patch) (tk_timezone row),
     tk_quiet_hours_start := patched_opt (tp_quiet_hours_start patch) (tk_quiet_hours_start row),
     tk_quiet_hours_end := patched_opt (tp_quiet_hours_end patch) (tk_quiet_hours_end row),
     tk_misfire_policy := patched (tp_misfire_policy patch) (tk_misfire_policy row),
     tk_prompt := patched (tp_prompt patch) (tk_prompt row),
     tk_workflow_type := patched_opt (tp_workflow_type patch) (tk_workflow_type row),
     tk_profile_id := patched_opt (tp_profile_id patch) (tk_profile_id row),
     tk_model := patched_opt (tp_model patch) (tk_model row),
     tk_tools_whitelist := (if tp_tools_whitelist patch = None then tk_tools_whitelist row else json_column (tp_tools_whitelist patch)),
     tk_capability_policy := (if tp_capability_policy patch = None then tk_capability_policy row else json_column (tp_capability_policy patch)),
     tk_working_directory := patched_opt (tp_working_directory patch) (tk_working_directory row),
     tk_approval_policy := patched (tp_approval_policy patch) (tk_approval_policy row),
     tk_delivery_channels := (if tp_delivery_channels patch = None then tk_delivery_channels row else json_column (tp_delivery_channels patch)),
     tk_delivery_config := (if tp_delivery_config patch = None then tk_delivery_config row else json_column (tp_delivery_config patch)),
     tk_max_iterations := patched (tp_max_iterations patch) (tk_max_iterations row),
     tk_max_cost_per_run := patched_opt (tp_max_cost_per_run patch) (tk_max_cost_per_run row),
     tk_timeout_s := patched_opt (tp_timeout_s patch) (tk_timeout_s row),
     tk_enabled := patched (tp_enabled patch) (tk_enabled row), tk_updated_at := timestamp\<rparr>"

definition check_patch_policies :: "scheduled_task_patch \<Rightarrow> unit task_result" where
  "check_patch_policies patch =
     ebind (case tp_misfire_policy patch of
         None \<Rightarrow> Inr ()
       | Some policy \<Rightarrow> ensure (policy = ''run'' \<or> policy = ''skip'') (InvalidInput (UnknownMisfirePolicy policy))) (\<lambda>_.
       case tp_approval_policy patch of
         None \<Rightarrow> Inr ()
       | Some policy \<Rightarrow> ensure (policy = ''deny_external'' \<or> policy = ''allow_all'') (InvalidInput (UnknownApprovalPolicy policy)))"

definition update_checks :: "int \<Rightarrow> string \<Rightarrow> int \<Rightarrow> scheduled_task_patch \<Rightarrow> task_db \<Rightarrow> unit task_result" where
  "update_checks now actor_id task_id patch db =
     ebind (require_task db actor_id task_id) (\<lambda>existing.
     ebind (check_patch_policies patch) (\<lambda>_.
       if schedule_touched patch
       then ebind (faulted (next_run (schedule_probe
              (patched (tp_trigger_type patch) (tk_trigger_type existing))
              (patched_opt (tp_cron_expression patch) (tk_cron_expression existing))
              (patched_opt (tp_interval_seconds patch) (tk_interval_seconds existing))
              (patched_opt (tp_run_at patch) (tk_run_at existing))
              (patched (tp_timezone patch) (tk_timezone existing))) now)) (\<lambda>_. Inr ())
       else Inr ()))"

definition update_task ::
    "string \<Rightarrow> int \<Rightarrow> int \<Rightarrow> string \<Rightarrow> int \<Rightarrow> scheduled_task_patch \<Rightarrow> task_db \<Rightarrow> scheduled_task task_result \<times> task_db" where
  "update_task timestamp now now' actor_id task_id patch db =
     (case update_checks now actor_id task_id patch db of
        Inl e \<Rightarrow> (Inl e, db)
      | Inr _ \<Rightarrow>
          (let db = set_task task_id (apply_patch timestamp patch) db
           in if schedule_touched patch then reschedule task_id now' db else (fetch_task db task_id, db)))"

definition set_task_enabled ::
    "string \<Rightarrow> int \<Rightarrow> string \<Rightarrow> int \<Rightarrow> bool \<Rightarrow> task_db \<Rightarrow> scheduled_task task_result \<times> task_db" where
  "set_task_enabled timestamp now actor_id task_id enabled db =
     (case require_task db actor_id task_id of
        Inl e \<Rightarrow> (Inl e, db)
      | Inr _ \<Rightarrow> reschedule task_id now (set_task task_id (\<lambda>t. t\<lparr>tk_enabled := enabled, tk_updated_at := timestamp\<rparr>) db))"

text \<open>Both deletions are one transaction.\<close>

definition delete_task :: "string \<Rightarrow> int \<Rightarrow> task_db \<Rightarrow> unit task_result \<times> task_db" where
  "delete_task actor_id task_id db =
     (case require_task db actor_id task_id of
        Inl e \<Rightarrow> (Inl e, db)
      | Inr _ \<Rightarrow> (Inr (), db\<lparr>td_runs := filter (\<lambda>r. tu_task_id r \<noteq> task_id) (td_runs db),
          td_tasks := filter (\<lambda>t. tk_id t \<noteq> task_id) (td_tasks db)\<rparr>))"

section \<open>Reading\<close>

definition list_tasks :: "string \<Rightarrow> bool \<Rightarrow> task_db \<Rightarrow> scheduled_task list task_result" where
  "list_tasks actor_id enabled_only db =
     ebind (resolve_user db actor_id) (\<lambda>user_id.
       Inr (rev (sort_key tk_id (filter (\<lambda>t. tk_user_id t = user_id \<and> (enabled_only \<longrightarrow> tk_enabled t)) (td_tasks db)))))"

definition list_due_tasks :: "int \<Rightarrow> task_db \<Rightarrow> scheduled_task list" where
  "list_due_tasks now db =
     filter (\<lambda>t. case due_time t of None \<Rightarrow> False | Some due \<Rightarrow> due \<le> now)
       (sort_key (\<lambda>t. case tk_next_run_at t of None \<Rightarrow> [] | Some text \<Rightarrow> text)
         (sort_key tk_id (filter (\<lambda>t. tk_enabled t \<and> tk_next_run_at t \<noteq> None) (td_tasks db))))"

definition bounded_limit :: "nat option \<Rightarrow> nat \<Rightarrow> nat \<Rightarrow> nat" where
  "bounded_limit limit otherwise maximum = max 1 (min maximum (case limit of None \<Rightarrow> otherwise | Some n \<Rightarrow> n))"

definition list_task_runs :: "string \<Rightarrow> int \<Rightarrow> nat option \<Rightarrow> task_db \<Rightarrow> task_run list task_result" where
  "list_task_runs actor_id task_id limit db =
     ebind (require_task db actor_id task_id) (\<lambda>_.
       Inr (take (bounded_limit limit 50 500) (rev (sort_key tu_id (filter (\<lambda>r. tu_task_id r = task_id) (td_runs db))))))"

definition owned_runs :: "int \<Rightarrow> task_db \<Rightarrow> task_run list" where
  "owned_runs user_id db =
     filter (\<lambda>r. \<exists>t \<in> set (td_tasks db). tk_user_id t = user_id \<and> tk_id t = tu_task_id r) (td_runs db)"

definition list_task_inbox :: "string \<Rightarrow> bool \<Rightarrow> nat option \<Rightarrow> task_db \<Rightarrow> task_run list task_result" where
  "list_task_inbox actor_id unread_only limit db =
     ebind (resolve_user db actor_id) (\<lambda>user_id.
       Inr (take (bounded_limit limit 100 500) (rev (sort_key tu_created_at (sort_key tu_id
         (filter (\<lambda>r. unread_only \<longrightarrow> \<not> tu_is_read r) (owned_runs user_id db)))))))"

definition count_unread_task_runs :: "string \<Rightarrow> task_db \<Rightarrow> nat task_result" where
  "count_unread_task_runs actor_id db =
     ebind (resolve_user db actor_id) (\<lambda>user_id. Inr (length (filter (\<lambda>r. \<not> tu_is_read r) (owned_runs user_id db))))"

section \<open>Firing\<close>

definition record_task_fired :: "string \<Rightarrow> int \<Rightarrow> string option \<Rightarrow> task_db \<Rightarrow> task_db" where
  "record_task_fired timestamp task_id next_run_at db =
     set_task task_id (\<lambda>t. t\<lparr>tk_next_run_at := (case next_run_at of None \<Rightarrow> tk_next_run_at t | Some n \<Rightarrow> Some n),
       tk_last_run_at := Some timestamp, tk_last_status := Some ''running'', tk_run_count := tk_run_count t + 1,
       tk_updated_at := timestamp\<rparr>) db"

definition terminal_task_run :: "string \<Rightarrow> bool" where
  "terminal_task_run status \<longleftrightarrow> status \<in> {''completed'', ''failed'', ''cancelled'', ''skipped''}"

definition outcome_enabled :: "scheduled_task \<Rightarrow> string \<Rightarrow> bool \<Rightarrow> int \<Rightarrow> nat \<Rightarrow> bool" where
  "outcome_enabled task status success failure_count max_consecutive_failures =
     (let enabled = (if \<not> success \<and> 0 < max_consecutive_failures \<and> failure_count \<ge> int max_consecutive_failures
                     then False else tk_enabled task)
      in if tk_trigger_type task = ''date'' \<and> terminal_task_run status then False else enabled)"

definition record_task_outcome ::
    "string \<Rightarrow> int \<Rightarrow> int \<Rightarrow> string \<Rightarrow> bool \<Rightarrow> nat \<Rightarrow> task_db \<Rightarrow> scheduled_task task_result \<times> task_db" where
  "record_task_outcome timestamp now task_id status success max_consecutive_failures db =
     (case fetch_task db task_id of
        Inl e \<Rightarrow> (Inl e, db)
      | Inr task \<Rightarrow>
          (let failure_count = (if success then 0 else tk_failure_count task + 1);
               enabled = outcome_enabled task status success failure_count max_consecutive_failures
           in reschedule task_id now (set_task task_id (\<lambda>t. t\<lparr>tk_last_status := Some status,
                tk_last_run_at := Some timestamp, tk_failure_count := failure_count, tk_enabled := enabled,
                tk_updated_at := timestamp\<rparr>) db)))"

section \<open>Runs\<close>

record new_task_run =
  nr_trigger_source :: string
  nr_prompt :: string
  nr_status :: string
  nr_approval_policy :: "string option"
  nr_approval_reason :: "string option"
  nr_skip_reason :: "string option"

definition default_new_task_run :: new_task_run where
  "default_new_task_run = \<lparr>nr_trigger_source = ''schedule'', nr_prompt = [], nr_status = ''queued'',
     nr_approval_policy = None, nr_approval_reason = None, nr_skip_reason = None\<rparr>"

definition task_run_row :: "int \<Rightarrow> int \<Rightarrow> string \<Rightarrow> new_task_run \<Rightarrow> bool \<Rightarrow> string option \<Rightarrow> task_run" where
  "task_run_row new_id task_id timestamp new is_read finished =
     \<lparr>tu_id = new_id, tu_task_id = task_id, tu_conversation_id = None, tu_run_id = None, tu_status = nr_status new,
      tu_trigger_source = nr_trigger_source new, tu_prompt = nr_prompt new, tu_output = None, tu_error = None,
      tu_skip_reason = nr_skip_reason new, tu_approval_policy = nr_approval_policy new,
      tu_approval_reason = nr_approval_reason new, tu_usage = None, tu_duration_ms = None, tu_delivery_status = None,
      tu_delivered_at = None, tu_is_read = is_read, tu_started_at = timestamp, tu_finished_at = finished,
      tu_created_at = timestamp, tu_updated_at = timestamp\<rparr>"

definition create_task_run :: "string \<Rightarrow> string \<Rightarrow> int \<Rightarrow> new_task_run \<Rightarrow> task_db \<Rightarrow> task_run task_result \<times> task_db" where
  "create_task_run timestamp actor_id task_id new db =
     (case require_task db actor_id task_id of
        Inl e \<Rightarrow> (Inl e, db)
      | Inr _ \<Rightarrow>
          (let run = task_run_row (next_row_id (map tu_id (td_runs db))) task_id timestamp new False None
           in (Inr run, db\<lparr>td_runs := td_runs db @ [run]\<rparr>)))"

record run_finish =
  rf_status :: string
  rf_output :: "string option"
  rf_error :: "string option"
  rf_usage :: "json option"
  rf_duration_ms :: "int option"
  rf_conversation_id :: "int option"
  rf_agent_run_id :: "int option"

definition coalesce :: "'a option \<Rightarrow> 'a option \<Rightarrow> 'a option" where
  "coalesce a b = (case a of None \<Rightarrow> b | Some v \<Rightarrow> Some v)"

definition finish_task_run ::
    "string \<Rightarrow> string \<Rightarrow> int \<Rightarrow> run_finish \<Rightarrow> task_db \<Rightarrow> task_run task_result \<times> task_db" where
  "finish_task_run timestamp actor_id run_id fin db =
     (case require_task_run db actor_id run_id of
        Inl e \<Rightarrow> (Inl e, db)
      | Inr _ \<Rightarrow>
          (let db = set_task_run run_id (\<lambda>r. r\<lparr>tu_status := rf_status fin, tu_output := rf_output fin, tu_error := rf_error fin,
                 tu_usage := coalesce (rf_usage fin) (tu_usage r), tu_duration_ms := coalesce (rf_duration_ms fin) (tu_duration_ms r),
                 tu_conversation_id := coalesce (rf_conversation_id fin) (tu_conversation_id r),
                 tu_run_id := coalesce (rf_agent_run_id fin) (tu_run_id r),
                 tu_finished_at := Some timestamp, tu_updated_at := timestamp\<rparr>) db
           in (fetch_task_run db run_id, db)))"

text \<open>The row and the task change in one transaction, after the next run is computed.\<close>

definition record_skipped_run ::
    "string \<Rightarrow> int \<Rightarrow> string \<Rightarrow> int \<Rightarrow> string \<Rightarrow> task_db \<Rightarrow> task_run task_result \<times> task_db" where
  "record_skipped_run timestamp now actor_id task_id reason db =
     (case require_task db actor_id task_id of
        Inl e \<Rightarrow> (Inl e, db)
      | Inr task \<Rightarrow>
          (case (if tk_enabled task then compute_next_run task now else Inr None) of
             Inl e \<Rightarrow> (Inl e, db)
           | Inr n \<Rightarrow>
               (let run = task_run_row (next_row_id (map tu_id (td_runs db))) task_id timestamp
                      \<lparr>nr_trigger_source = ''schedule'', nr_prompt = tk_prompt task, nr_status = ''skipped'',
                       nr_approval_policy = None, nr_approval_reason = None, nr_skip_reason = Some reason\<rparr> True (Some timestamp)
                in (Inr run, set_task task_id (\<lambda>t. t\<lparr>tk_next_run_at := n, tk_last_run_at := Some timestamp,
                      tk_last_status := Some ''skipped'', tk_updated_at := timestamp\<rparr>) (db\<lparr>td_runs := td_runs db @ [run]\<rparr>)))))"

definition mark_task_run_read ::
    "string \<Rightarrow> string \<Rightarrow> int \<Rightarrow> bool \<Rightarrow> task_db \<Rightarrow> task_run task_result \<times> task_db" where
  "mark_task_run_read timestamp actor_id run_id read db =
     (case require_task_run db actor_id run_id of
        Inl e \<Rightarrow> (Inl e, db)
      | Inr _ \<Rightarrow>
          (let db = set_task_run run_id (\<lambda>r. r\<lparr>tu_is_read := read, tu_updated_at := timestamp\<rparr>) db
           in (fetch_task_run db run_id, db)))"

definition cancel_task_run :: "string \<Rightarrow> string \<Rightarrow> int \<Rightarrow> task_db \<Rightarrow> task_run task_result \<times> task_db" where
  "cancel_task_run timestamp actor_id run_id db =
     (case require_task_run db actor_id run_id of
        Inl e \<Rightarrow> (Inl e, db)
      | Inr run \<Rightarrow>
          (if terminal_task_run (tu_status run) then (Inr run, db)
           else let db = set_task_run run_id (\<lambda>r. r\<lparr>tu_status := ''cancelled'', tu_finished_at := Some timestamp,
                  tu_updated_at := timestamp\<rparr>) db
                in (fetch_task_run db run_id, db)))"

end
