(* ===== verification/Cron_Search.thy ===== *)
theory Cron_Search
  imports Cron_Schedule
begin

text \<open>
  What the cron search of \<open>Cron_Schedule\<close> computes. \<open>part_selects\<close> says which
  values one part of a field stands for, \<open>local_fires\<close> which local timestamps a table
  stands for; the tables hold exactly the selected values, and the search returns the least
  firing time after its argument, within the horizon the code gives it.
\<close>

section \<open>Fields\<close>

lemma mark_range_marks:
  assumes "mark_range limit step value table = Inr table'" "1 \<le> step"
  shows "length table' = length table \<and>
    (i < length table \<longrightarrow> table' ! i = (table ! i \<or> value \<le> int i \<and> int i \<le> limit \<and> (int i - value) mod step = 0))"
  using assms
proof (induction limit step "value" table rule: mark_range.induct)
  case (1 limit step v table)
  show ?case
  proof (cases "v \<le> limit")
    case False
    with 1 show ?thesis by (auto simp: mark_range.simps)
  next
    case True
    with "1.prems" have go: "0 \<le> v" "v < int (length table)" "v + step \<le> int i64_max"
      and rec: "mark_range limit step (v + step) (table[nat v := True]) = Inr table'"
      by (auto simp: mark_range.simps [of limit step v] split: if_splits)
    have IH: "length table' = length table \<and> (i < length table \<longrightarrow>
        table' ! i = (table[nat v := True] ! i \<or> v + step \<le> int i \<and> int i \<le> limit \<and> (int i - (v + step)) mod step = 0))"
      using "1.IH" True go rec "1.prems"(2) by simp
    have later: "(v \<le> int i \<and> (int i - v) mod step = 0) \<longleftrightarrow> int i = v \<or> (v + step \<le> int i \<and> (int i - (v + step)) mod step = 0)"
    proof -
      have "(int i - (v + step)) mod step = (int i - v) mod step"
        using minus_mod_self2 [of "int i - v" step] by (simp add: algebra_simps)
      moreover have "v + step \<le> int i" if "v \<le> int i" "(int i - v) mod step = 0" "int i \<noteq> v"
      proof (rule ccontr)
        assume "\<not> v + step \<le> int i"
        with that(1) have "(int i - v) mod step = int i - v" by (intro mod_pos_pos_trivial) simp_all
        with that show False by simp
      qed
      ultimately show ?thesis using \<open>1 \<le> step\<close> by auto
    qed
    have mark: "i < length table \<Longrightarrow> table[nat v := True] ! i = (table ! i \<or> int i = v)"
      using go by (auto simp: nth_list_update)
    show ?thesis using IH later mark True by auto
  qed
qed

lemma mark_range_runs:
  assumes "0 \<le> value" "limit < int (length table)" "limit + step \<le> int i64_max" "1 \<le> step"
  shows "\<exists>table'. mark_range limit step value table = Inr table'"
  using assms
proof (induction limit step "value" table rule: mark_range.induct)
  case (1 limit step v table)
  show ?case
  proof (cases "v \<le> limit")
    case True
    then have "\<exists>table'. mark_range limit step (v + step) (table[nat v := True]) = Inr table'"
      using "1.IH" "1.prems" by simp
    with True "1.prems" show ?thesis by (simp add: mark_range.simps [of limit step v])
  next
    case False
    then show ?thesis by (simp add: mark_range.simps [of limit step v])
  qed
qed

definition part_selects :: "int \<Rightarrow> int \<Rightarrow> name_field \<Rightarrow> string \<Rightarrow> int \<Rightarrow> bool" where
  "part_selects least greatest kind part i =
     (case part_step (trim_text part) of
        Inl _ \<Rightarrow> False
      | Inr (range_text, step) \<Rightarrow>
          (case part_range (trim_text part) range_text least greatest kind of
             Inl _ \<Rightarrow> False
           | Inr (start, end_value) \<Rightarrow> start \<le> i \<and> i \<le> end_value \<and> (i - start) mod step = 0))"

lemma part_step_pos: "part_step part = Inr (range_text, step) \<Longrightarrow> 1 \<le> step"
  by (auto simp: part_step_def split: option.splits if_splits)

lemma mark_part_marks:
  assumes "mark_part field least greatest kind part table = Inr table'"
  shows "length table' = length table"
    and "i < length table \<Longrightarrow> table' ! i = (table ! i \<or> part_selects least greatest kind part (int i))"
    and "part_selects least greatest kind part v \<Longrightarrow> least \<le> v \<and> v \<le> greatest"
proof -
  obtain range_text step start end_value where
    s: "part_step (trim_text part) = Inr (range_text, step)"
    and r: "part_range (trim_text part) range_text least greatest kind = Inr (start, end_value)"
    and bounds: "least \<le> start" "end_value \<le> greatest"
    and m: "mark_range end_value step start table = Inr table'"
    using assms by (auto simp: mark_part_def Let_def res_simps)
  from s have step: "1 \<le> step" by (rule part_step_pos)
  show "length table' = length table" using mark_range_marks [OF m step] by simp
  show "i < length table \<Longrightarrow> table' ! i = (table ! i \<or> part_selects least greatest kind part (int i))"
    using mark_range_marks [OF m step] by (simp add: part_selects_def s r)
  show "part_selects least greatest kind part v \<Longrightarrow> least \<le> v \<and> v \<le> greatest"
    using bounds by (simp add: part_selects_def s r)
qed

lemma mark_parts_marks:
  assumes "efold (mark_part field least greatest kind) parts table = Inr table'"
  shows "length table' = length table"
    and "i < length table \<Longrightarrow> table' ! i = (table ! i \<or> (\<exists>part \<in> set parts. part_selects least greatest kind part (int i)))"
    and "part \<in> set parts \<Longrightarrow> part_selects least greatest kind part v \<Longrightarrow> least \<le> v \<and> v \<le> greatest"
proof -
  have "length table' = length table \<and>
    (i < length table \<longrightarrow> table' ! i = (table ! i \<or> (\<exists>part \<in> set parts. part_selects least greatest kind part (int i)))) \<and>
    (part \<in> set parts \<longrightarrow> part_selects least greatest kind part v \<longrightarrow> least \<le> v \<and> v \<le> greatest)"
    using assms
  proof (induction parts arbitrary: table)
    case Nil
    then show ?case by simp
  next
    case (Cons p parts)
    then obtain mid where p: "mark_part field least greatest kind p table = Inr mid"
      and rest: "efold (mark_part field least greatest kind) parts mid = Inr table'" by (auto simp: res_simps)
    show ?case using Cons.IH [OF rest] mark_part_marks [OF p] by auto
  qed
  then show "length table' = length table"
    "i < length table \<Longrightarrow> table' ! i = (table ! i \<or> (\<exists>part \<in> set parts. part_selects least greatest kind part (int i)))"
    "part \<in> set parts \<Longrightarrow> part_selects least greatest kind part v \<Longrightarrow> least \<le> v \<and> v \<le> greatest"
    by blast+
qed

lemma parse_field_table:
  assumes "parse_field field least greatest kind = Inr (table, restricted)" "0 \<le> greatest"
  shows "length table = nat (greatest + 1)"
    and "i \<le> nat greatest \<Longrightarrow>
      table ! i = (\<exists>part \<in> set (split_on (CHR '','') field). part_selects least greatest kind part (int i))"
    and "restricted \<longleftrightarrow> trim_text field \<noteq> ''*''"
proof -
  have m: "efold (mark_part field least greatest kind) (split_on (CHR '','') field) (replicate (nat (greatest + 1)) False) = Inr table"
    and "restricted = (trim_text field \<noteq> ''*'')"
    using assms by (auto simp: parse_field_def res_simps)
  then show "restricted \<longleftrightarrow> trim_text field \<noteq> ''*''" by simp
  show "length table = nat (greatest + 1)" using mark_parts_marks(1) [OF m] by simp
  assume i: "i \<le> nat greatest"
  then have "i < nat (greatest + 1)" using assms(2) by simp
  then show "table ! i = (\<exists>part \<in> set (split_on (CHR '','') field). part_selects least greatest kind part (int i))"
    using mark_parts_marks(2) [OF m, of i] by simp
qed

lemma nth_mark: "d < length w \<Longrightarrow> w[k := True] ! d = (w ! d \<or> k = d)"
  by (cases "k = d") simp_all

lemma foldl_marks:
  "d < length w \<Longrightarrow> foldl (\<lambda>w v. if p v then w[f v := True] else w) w vs ! d = (w ! d \<or> (\<exists>v \<in> set vs. p v \<and> f v = d))"
  "length (foldl (\<lambda>w v. if p v then w[f v := True] else w) w vs) = length w"
  by (induction vs arbitrary: w) (auto simp: nth_mark)

lemma iso_weekdays_nth:
  assumes "length raw = 8" "d < 7"
  shows "iso_weekdays raw ! d = (raw ! ((d + 1) mod 7) \<or> d = 6 \<and> raw ! 7)" "length (iso_weekdays raw) = 7"
proof -
  have "(\<exists>v \<in> set [0..<7]. raw ! v \<and> (v + 6) mod 7 = d) \<longleftrightarrow> raw ! ((d + 1) mod 7)"
  proof
    assume "\<exists>v \<in> set [0..<7]. raw ! v \<and> (v + 6) mod 7 = d"
    then obtain v where v: "v < 7" "raw ! v" "(v + 6) mod 7 = d" by auto
    have "(d + 1) mod 7 = ((v + 6) mod 7 + 1) mod 7" by (simp only: v(3))
    also have "\<dots> = (v + 6 + 1) mod 7" by (rule mod_add_left_eq)
    also have "\<dots> = v" using v(1) by simp
    finally show "raw ! ((d + 1) mod 7)" using v(2) by simp
  next
    assume "raw ! ((d + 1) mod 7)"
    moreover have "((d + 1) mod 7 + 6) mod 7 = (d + 1 + 6) mod 7" by (rule mod_add_left_eq)
    moreover have "(d + 1 + 6) mod 7 = d" using assms(2) by simp
    ultimately show "\<exists>v \<in> set [0..<7]. raw ! v \<and> (v + 6) mod 7 = d"
      by (intro bexI [of _ "(d + 1) mod 7"] conjI) (simp_all only: set_upt, simp)
  qed
  then show "iso_weekdays raw ! d = (raw ! ((d + 1) mod 7) \<or> d = 6 \<and> raw ! 7)"
    using assms(2) by (auto simp: iso_weekdays_def Let_def foldl_marks nth_mark)
  show "length (iso_weekdays raw) = 7" by (simp add: iso_weekdays_def Let_def foldl_marks)
qed

lemma parse_cron_lengths:
  assumes "parse_cron expression = Inr spec"
  shows "length (cs_minutes spec) = 60" "length (cs_hours spec) = 24"
  using assms
  by (auto simp: parse_cron_def Let_def res_simps dest: parse_field_table(1))

section \<open>A time of the day\<close>

lemma find_minute_result:
  "case find_minute floor m xs of
     Some k \<Rightarrow> m \<le> k \<and> k < m + length xs \<and> xs ! (k - m) \<and> floor \<le> k \<and> (\<forall>j. m \<le> j \<longrightarrow> j < k \<longrightarrow> \<not> (xs ! (j - m) \<and> floor \<le> j))
   | None \<Rightarrow> (\<forall>j. m \<le> j \<longrightarrow> j < m + length xs \<longrightarrow> \<not> (xs ! (j - m) \<and> floor \<le> j))"
proof (induction floor m xs rule: find_minute.induct)
  case (2 f m x xs)
  have shift: "(x # xs) ! (j - m) = (if j = m then x else xs ! (j - Suc m))" if "m \<le> j" for j
    using that by (cases "j = m") (simp_all add: nth_Cons')
  show ?case
  proof (cases "\<not> x \<or> m < f")
    case True
    with 2 show ?thesis
      by (auto simp: shift Suc_le_eq split: option.splits if_splits)
  next
    case False
    then show ?thesis by simp
  qed
qed simp

definition time_ok :: "bool list \<Rightarrow> nat \<Rightarrow> nat \<Rightarrow> nat \<Rightarrow> nat \<Rightarrow> bool" where
  "time_ok minutes start_hour start_minute h m \<longleftrightarrow>
     m < length minutes \<and> minutes ! m \<and> start_hour \<le> h \<and> (h = start_hour \<longrightarrow> start_minute \<le> m)"

lemma find_time_result:
  "case find_time minutes sh sm h0 hs of
     Some (h, m) \<Rightarrow> h0 \<le> h \<and> h < h0 + length hs \<and> hs ! (h - h0) \<and> time_ok minutes sh sm h m \<and>
       (\<forall>h' m'. h0 \<le> h' \<longrightarrow> h' < h \<or> h' = h \<and> m' < m \<longrightarrow> \<not> (hs ! (h' - h0) \<and> time_ok minutes sh sm h' m'))
   | None \<Rightarrow> (\<forall>h' m'. h0 \<le> h' \<longrightarrow> h' < h0 + length hs \<longrightarrow> \<not> (hs ! (h' - h0) \<and> time_ok minutes sh sm h' m'))"
proof (induction minutes sh sm h0 hs rule: find_time.induct)
  case (2 minutes sh sm h0 x hs)
  have shift: "(b # hs) ! (j - h0) = (if j = h0 then b else hs ! (j - Suc h0))" if "h0 \<le> j" for j b
    using that by (cases "j = h0") (simp_all add: nth_Cons')
  let ?floor = "if h0 = sh then sm else 0"
  show ?case
  proof (cases "\<not> x \<or> h0 < sh")
    case True
    then have skip: "\<not> (x \<and> time_ok minutes sh sm h0 m)" for m by (auto simp: time_ok_def)
    from True "2.IH"(1) show ?thesis
      using skip by (auto simp: shift Suc_le_eq split: option.splits prod.splits if_splits)
  next
    case False
    then have go: "x" "sh \<le> h0" by simp_all
    show ?thesis
    proof (cases "find_minute ?floor 0 minutes")
      case None
      then have skip: "\<not> time_ok minutes sh sm h0 m" for m
        using find_minute_result [where floor = ?floor and m = 0 and xs = minutes] by (auto simp: time_ok_def split: if_splits)
      from go None "2.IH"(2) show ?thesis
        using skip by (auto simp: shift Suc_le_eq split: option.splits prod.splits if_splits)
    next
      case (Some m)
      then have "m < length minutes" "minutes ! m" "?floor \<le> m" "\<forall>j < m. \<not> (minutes ! j \<and> ?floor \<le> j)"
        using find_minute_result [where floor = ?floor and m = 0 and xs = minutes] by auto
      with go Some show ?thesis by (auto simp: shift time_ok_def split: if_splits)
    qed
  qed
qed simp

section \<open>Firing times\<close>

definition local_fires :: "cron_spec \<Rightarrow> int \<Rightarrow> bool" where
  "local_fires spec t \<longleftrightarrow>
     t mod 60 = 0 \<and> (case civil_date (t div 86400) of (year, month, day) \<Rightarrow> day_matches spec year month day) \<and>
     cs_hours spec ! nat (t mod 86400 div 3600) \<and> cs_minutes spec ! nat (t mod 3600 div 60)"

lemma clock_of:
  assumes "0 \<le> h" "h < 24" "0 \<le> m" "m < 60"
  shows "(day * 86400 + h * 3600 + m * 60) div 86400 = day"
    and "(day * 86400 + h * 3600 + m * 60) mod 86400 div 3600 = h"
    and "(day * 86400 + h * 3600 + m * 60) mod 3600 div 60 = (m :: int)"
    and "(day * 86400 + h * 3600 + m * 60) mod 60 = 0"
proof -
  let ?t = "day * 86400 + h * 3600 + m * 60"
  have r: "0 \<le> h * 3600 + m * 60" "h * 3600 + m * 60 < 86400" using assms by simp_all
  have t: "?t = (h * 3600 + m * 60) + day * 86400" by simp
  have "?t mod 86400 = h * 3600 + m * 60" unfolding t mod_mult_self1 using r by (rule mod_pos_pos_trivial)
  moreover have "(h * 3600 + m * 60) div 3600 = h"
    by (rule int_div_pos_eq [where r = "m * 60"]) (use assms in simp_all)
  ultimately show "?t mod 86400 div 3600 = h" by simp
  show "?t div 86400 = day" by (rule int_div_pos_eq [where r = "h * 3600 + m * 60"]) (use r in simp_all)
  have "?t = m * 60 + (day * 24 + h) * 3600" by simp
  then have "?t mod 3600 = m * 60 mod 3600" by (simp only: mod_mult_self1)
  with assms show "?t mod 3600 div 60 = m" by simp
  have "?t = 0 + (day * 1440 + h * 60 + m) * 60" by simp
  then have "?t mod 60 = 0 mod 60" by (simp only: mod_mult_self1)
  then show "?t mod 60 = 0" by simp
qed

lemma clock_split:
  assumes "t mod 60 = (0 :: int)"
  defines "h \<equiv> t mod 86400 div 3600" and "m \<equiv> t mod 3600 div 60"
  shows "t = t div 86400 * 86400 + h * 3600 + m * 60" "0 \<le> h" "h < 24" "0 \<le> m" "m < 60"
proof -
  define r where "r = t mod 86400"
  have r: "0 \<le> r" "r < 86400" "t div 86400 * 86400 + r = t" by (simp_all add: r_def)
  define q where "q = r mod 3600"
  have q: "0 \<le> q" "q < 3600" "h * 3600 + q = r" by (simp_all add: q_def h_def r_def)
  have "q = t mod 3600" by (simp add: q_def r_def mod_mod_cancel)
  then have m: "m = q div 60" and "q mod 60 = t mod 60" by (simp_all add: m_def mod_mod_cancel)
  with assms(1) have m60: "m * 60 = q" using div_mult_mod_eq [of q 60] by simp
  show "t = t div 86400 * 86400 + h * 3600 + m * 60" using r q m60 by linarith
  show "0 \<le> h" "h < 24" "0 \<le> m" "m < 60" using r q m60 by linarith+
qed

lemma time_on_day_least:
  assumes len: "length (cs_minutes spec) = 60" "length (cs_hours spec) = 24" and current: "current mod 60 = 0"
  shows "case time_on_day spec current of
      Some (h, m) \<Rightarrow> (let t = current div 86400 * 86400 + int h * 3600 + int m * 60
        in current \<le> t \<and> t < (current div 86400 + 1) * 86400 \<and> local_fires spec t \<and>
           (\<forall>t'. current \<le> t' \<longrightarrow> t' < t \<longrightarrow> \<not> local_fires spec t'))
    | None \<Rightarrow> (\<forall>t'. current \<le> t' \<longrightarrow> t' < (current div 86400 + 1) * 86400 \<longrightarrow> \<not> local_fires spec t')"
proof -
  define day where "day = current div 86400"
  define sh where "sh = nat (current mod 86400 div 3600)"
  define sm where "sm = nat (current mod 3600 div 60)"
  note split = clock_split [OF current]
  have start: "current = day * 86400 + int sh * 3600 + int sm * 60" "sh < 24" "sm < 60"
    unfolding day_def sh_def sm_def using split by (simp_all only: nat_less_iff int_nat_eq if_True of_nat_numeral)
  let ?at = "\<lambda>h m. day * 86400 + int h * 3600 + int m * 60"
  let ?day_ok = "case civil_date day of (year, month, d) \<Rightarrow> day_matches spec year month d"
  have fires: "local_fires spec (?at h m) \<longleftrightarrow> ?day_ok \<and> cs_hours spec ! h \<and> cs_minutes spec ! m" if "h < 24" "m < 60" for h m
  proof -
    have b: "0 \<le> int h" "int h < 24" "0 \<le> int m" "int m < 60" using that by simp_all
    show ?thesis unfolding local_fires_def clock_of [OF b] by simp
  qed
  have at_day: "\<exists>h m. h < 24 \<and> m < 60 \<and> t = ?at h m"
    if t: "current \<le> t" "t < (day + 1) * 86400" "local_fires spec t" for t
  proof -
    have m: "t mod 60 = 0" using t(3) by (simp add: local_fires_def)
    have d: "t div 86400 = day"
      by (rule int_div_pos_eq [where r = "t - day * 86400"]) (use t(1,2) start in simp_all)
    define h m' where "h = nat (t mod 86400 div 3600)" and "m' = nat (t mod 3600 div 60)"
    have "t = ?at h m'" "h < 24" "m' < 60"
      using clock_split [OF m] unfolding d h_def m'_def by (simp_all add: nat_less_iff)
    then show ?thesis by blast
  qed
  have order: "?at h m < ?at h' m' \<longleftrightarrow> h < h' \<or> h = h' \<and> m < m'" if "m < 60" "m' < 60" for h m h' m'
    using that by linarith
  have ok: "time_ok (cs_minutes spec) sh sm h m \<longleftrightarrow> m < 60 \<and> cs_minutes spec ! m \<and> current \<le> ?at h m" if "m < 60" for h m
    using that start order [of m sm h sh] by (auto simp: time_ok_def len not_less [symmetric])
  have search: "time_on_day spec current = (if ?day_ok then find_time (cs_minutes spec) sh sm 0 (cs_hours spec) else None)"
    by (simp add: time_on_day_def day_def sh_def sm_def mod_mod_cancel Let_def split: prod.splits)
  show ?thesis
  proof (cases "time_on_day spec current")
    case None
    have "\<not> local_fires spec t" if lim: "current \<le> t" "t < (day + 1) * 86400" for t
    proof
      assume f: "local_fires spec t"
      obtain h m where t: "h < 24" "m < 60" "t = ?at h m" using at_day [OF lim f] by blast
      with f fires have d: "?day_ok" "cs_hours spec ! h" "cs_minutes spec ! m" by simp_all
      with None search have none: "find_time (cs_minutes spec) sh sm 0 (cs_hours spec) = None" by simp
      have "time_ok (cs_minutes spec) sh sm h m" using ok [of m h] t d lim by simp
      with find_time_result [where minutes = "cs_minutes spec" and sh = sh and sm = sm and ?h0.0 = 0 and hs = "cs_hours spec"] none d t len show False by auto
    qed
    with None show ?thesis by (simp add: day_def)
  next
    case (Some hm)
    obtain h m where hm: "hm = (h, m)" by (cases hm)
    from Some hm search have d: "?day_ok" and found: "find_time (cs_minutes spec) sh sm 0 (cs_hours spec) = Some (h, m)"
      by (simp_all split: if_splits)
    have r: "h < 24" "cs_hours spec ! h" "time_ok (cs_minutes spec) sh sm h m"
      "\<forall>h' m'. h' < h \<or> h' = h \<and> m' < m \<longrightarrow> \<not> (cs_hours spec ! h' \<and> time_ok (cs_minutes spec) sh sm h' m')"
      using find_time_result [where minutes = "cs_minutes spec" and sh = sh and sm = sm and ?h0.0 = 0 and hs = "cs_hours spec"] found len by auto
    have m: "m < 60" using r(3) len by (simp add: time_ok_def)
    have "current \<le> ?at h m" "local_fires spec (?at h m)" using ok [OF m, of h] fires [OF r(1) m] r d m by simp_all
    moreover have "?at h m < (day + 1) * 86400" using r(1) m by simp
    moreover have "\<not> local_fires spec t" if lim: "current \<le> t" "t < ?at h m" for t
    proof
      assume f: "local_fires spec t"
      have "t < (day + 1) * 86400" using lim(2) r(1) m by simp
      note at_day [OF lim(1) this f]
      then obtain h' m' where t: "h' < 24" "m' < 60" "t = ?at h' m'" by blast
      with f fires have "cs_hours spec ! h'" "cs_minutes spec ! m'" by simp_all
      moreover from this have "time_ok (cs_minutes spec) sh sm h' m'" using ok [of m' h'] t lim by simp
      moreover have "h' < h \<or> h' = h \<and> m' < m" using lim(2) t order [OF t(2) m] by simp
      ultimately show False using r(4) by blast
    qed
    ultimately show ?thesis using Some hm by (simp add: day_def Let_def)
  qed
qed

lemma search_days_least:
  assumes len: "length (cs_minutes spec) = 60" "length (cs_hours spec) = 24" and current: "current mod 60 = 0"
  shows "case search_days spec fuel current of
      Some t \<Rightarrow> current \<le> t \<and> t < (current div 86400 + int fuel) * 86400 \<and> local_fires spec t \<and>
        (\<forall>t'. current \<le> t' \<longrightarrow> t' < t \<longrightarrow> \<not> local_fires spec t')
    | None \<Rightarrow> (\<forall>t'. current \<le> t' \<longrightarrow> t' < (current div 86400 + int fuel) * 86400 \<longrightarrow> \<not> local_fires spec t')"
  using current
proof (induction fuel arbitrary: current)
  case 0
  have "current div 86400 * 86400 \<le> current" using div_mult_mod_eq [of current 86400] pos_mod_sign [of 86400 current] by linarith
  then show ?case by auto
next
  case (Suc fuel)
  let ?next = "(current div 86400 + 1) * 86400"
  note day = time_on_day_least [OF len Suc.prems]
  have le: "current < ?next" using div_mult_mod_eq [of current 86400] pos_mod_bound [of 86400 current] by simp
  show ?case
  proof (cases "time_on_day spec current")
    case (Some hm)
    obtain h m where hm: "hm = (h, m)" by (cases hm)
    define t where "t = current div 86400 * 86400 + int h * 3600 + int m * 60"
    have "(current div 86400 + 1) * 86400 \<le> (current div 86400 + int (Suc fuel)) * 86400" by simp
    with day Some hm have "current \<le> t" "t < (current div 86400 + int (Suc fuel)) * 86400" "local_fires spec t"
      "\<forall>t'. current \<le> t' \<longrightarrow> t' < t \<longrightarrow> \<not> local_fires spec t'"
      by (auto simp: Let_def t_def)
    moreover have "search_days spec (Suc fuel) current = Some t" using Some hm by (simp add: t_def)
    ultimately show ?thesis by simp
  next
    case None
    with day have none: "\<not> local_fires spec t'" if "current \<le> t'" "t' < ?next" for t' using that by simp
    have "?next = 0 + (current div 86400 + 1) * 1440 * 60" by simp
    then have "?next mod 60 = 0 mod 60" by (simp only: mod_mult_self1)
    then have m: "?next mod 60 = 0" by simp
    have d: "?next div 86400 + int fuel = current div 86400 + int (Suc fuel)" by simp
    note IH = Suc.IH [OF m, unfolded d]
    show ?thesis
    proof (cases "search_days spec fuel ?next")
      case None
      with IH \<open>time_on_day spec current = None\<close> none show ?thesis by (simp del: of_nat_Suc) (meson not_le)
    next
      case (Some t)
      with IH \<open>time_on_day spec current = None\<close> none le show ?thesis by (simp del: of_nat_Suc) (meson not_le order.trans less_imp_le)
    qed
  qed
qed

section \<open>The next firing time\<close>

text \<open>A table read at an offset from UTC: the UTC times at which it fires.\<close>

definition cron_fires :: "cron_spec \<Rightarrow> int \<Rightarrow> int \<Rightarrow> bool" where
  "cron_fires spec offset t \<longleftrightarrow> local_fires spec (t + offset)"

lemma first_candidate_facts:
  "first_candidate offset after mod 60 = 0" "after + offset < first_candidate offset after"
  "first_candidate offset after \<le> after + offset + 60"
  "local_fires spec t \<Longrightarrow> after + offset < t \<Longrightarrow> first_candidate offset after \<le> t"
proof -
  let ?a = "after + offset"
  have fc: "first_candidate offset after = 60 * (?a div 60) + 60" by (simp add: first_candidate_def)
  have a: "60 * (?a div 60) + ?a mod 60 = ?a" "0 \<le> ?a mod 60" "?a mod 60 < 60" by simp_all
  show "first_candidate offset after mod 60 = 0"
    using mod_mult_self1 [of 0 "?a div 60 + 1" 60] by (simp add: fc algebra_simps)
  show "?a < first_candidate offset after" "first_candidate offset after \<le> ?a + 60" using fc a by linarith+
  assume "local_fires spec t" "?a < t"
  then have "60 * (t div 60) = t" using div_mult_mod_eq [of t 60] by (simp add: local_fires_def)
  moreover from this fc a \<open>?a < t\<close> have "60 * (?a div 60) < 60 * (t div 60)" by simp
  then have "?a div 60 + 1 \<le> t div 60" by simp
  then have "60 * (?a div 60 + 1) \<le> 60 * (t div 60)" by (rule mult_left_mono) simp
  ultimately show "first_candidate offset after \<le> t" by (simp add: fc algebra_simps)
qed

lemma next_cron_after_found:
  assumes "next_cron_after expression offset after = Inr t"
  obtains spec where "parse_cron expression = Inr spec" "first_candidate offset after \<le> t + offset"
    "local_fires spec (t + offset)"
    "\<And>l. first_candidate offset after \<le> l \<Longrightarrow> l < t + offset \<Longrightarrow> \<not> local_fires spec l"
proof -
  from assms obtain spec l where spec: "parse_cron expression = Inr spec"
    and l: "search_days spec max_cron_days (first_candidate offset after) = Some l" "t = l - offset"
    by (auto simp: next_cron_after_def res_simps split: option.splits)
  have "first_candidate offset after \<le> l \<and> local_fires spec l \<and>
    (\<forall>t'. first_candidate offset after \<le> t' \<longrightarrow> t' < l \<longrightarrow> \<not> local_fires spec t')"
    using search_days_least [OF parse_cron_lengths [OF spec] first_candidate_facts(1) [where offset = offset and after = after], of max_cron_days]
    by (simp add: l(1))
  with spec l(2) show thesis by (intro that [of spec]) auto
qed

lemma cron_later: "next_cron_after expression offset after = Inr t \<Longrightarrow> after < t"
  by (erule next_cron_after_found) (use first_candidate_facts(2) [where offset = offset and after = after] in linarith)

text \<open>Property C7. The next run of an expression is the earliest minute after the given time at which its tables fire: it fires there, and nowhere in between.\<close>

theorem next_cron_after_least:
  assumes "parse_cron expression = Inr spec" "next_cron_after expression offset after = Inr t"
  shows "after < t \<and> cron_fires spec offset t \<and> (\<forall>t'. after < t' \<longrightarrow> t' < t \<longrightarrow> \<not> cron_fires spec offset t')"
proof -
  obtain spec' where s: "parse_cron expression = Inr spec'" "local_fires spec' (t + offset)"
    "\<And>l. first_candidate offset after \<le> l \<Longrightarrow> l < t + offset \<Longrightarrow> \<not> local_fires spec' l"
    using next_cron_after_found [OF assms(2)] by metis
  with assms(1) have "spec' = spec" by simp
  with s have "cron_fires spec offset t" by (simp add: cron_fires_def)
  moreover have "\<not> cron_fires spec offset t'" if "after < t'" "t' < t" for t'
    using s(3) [of "t' + offset"] first_candidate_facts(4) [where spec = spec and t = "t' + offset" and offset = offset and after = after]
      that \<open>spec' = spec\<close> by (auto simp: cron_fires_def)
  ultimately show ?thesis using cron_later [OF assms(2)] by blast
qed

text \<open>Property C33. The search for the next run of a valid expression always ends: with a time within eight years, or with the error that there is none, and then the expression does not fire in that time.\<close>

theorem next_cron_after_horizon:
  assumes "parse_cron expression = Inr spec"
  shows "(\<exists>t. next_cron_after expression offset after = Inr t \<and> t \<le> after + 60 + 2928 * 86400) \<or>
    next_cron_after expression offset after = Inl (Refused (NoFutureOccurrence expression)) \<and>
    (\<forall>t. after < t \<longrightarrow> t < after + 2927 * 86400 \<longrightarrow> \<not> cron_fires spec offset t)"
proof -
  note len = parse_cron_lengths [OF assms(1)] and c = first_candidate_facts [where offset = offset and after = after]
  let ?c = "first_candidate offset after"
  have day: "?c div 86400 * 86400 \<le> ?c" "?c < ?c div 86400 * 86400 + 86400"
    using div_mult_mod_eq [of ?c 86400] pos_mod_sign [of 86400 ?c] pos_mod_bound [of 86400 ?c] by linarith+
  note search = search_days_least [OF len c(1), of max_cron_days]
  have fuel: "(?c div 86400 + int max_cron_days) * 86400 = ?c div 86400 * 86400 + 2928 * 86400"
    by (simp add: max_cron_days_def distrib_right)
  show ?thesis
  proof (cases "search_days spec max_cron_days ?c")
    case (Some l)
    with search fuel day c(3) have "l - offset \<le> after + 60 + 2928 * 86400" by simp
    with Some assms show ?thesis by (simp add: next_cron_after_def)
  next
    case None
    have "\<not> cron_fires spec offset t" if t: "after < t" "t < after + 2927 * 86400" for t
    proof
      assume f: "cron_fires spec offset t"
      then have "?c \<le> t + offset" using c(4) [where spec = spec and t = "t + offset"] t by (simp add: cron_fires_def)
      moreover have "t + offset < (?c div 86400 + int max_cron_days) * 86400" using t c(2) day unfolding fuel by linarith
      ultimately show False using search None f by (simp add: cron_fires_def)
    qed
    with None assms show ?thesis by (simp add: next_cron_after_def)
  qed
qed

section \<open>A sample\<close>

text \<open>A field that is a single star selects every value of its range.\<close>

lemmas cron_eval = parse_field_def mark_part_def part_step_def part_range_def parse_value_def plain_text
     parse_i64_def parse_unsigned_def is_digit_def digit_val_def Let_def

lemma parse_field_star:
  assumes "0 \<le> least" "least \<le> greatest" "greatest < int i64_max"
  shows "parse_field ''*'' least greatest kind = Inr (map (\<lambda>i. least \<le> int i) [0..<nat (greatest + 1)], False)"
proof -
  obtain table where t: "mark_range greatest 1 least (replicate (nat (greatest + 1)) False) = Inr table"
    using mark_range_runs [of least greatest "replicate (nat (greatest + 1)) False" 1] assms by auto
  have "table = map (\<lambda>i. least \<le> int i) [0..<nat (greatest + 1)]"
    by (rule nth_equalityI) (use mark_range_marks [OF t] in auto)
  then show ?thesis using t assms
    by (simp add: parse_field_def mark_part_def part_step_def part_range_def plain_text)
qed

lemma mark_one: "i < n \<Longrightarrow> (replicate n False)[i := True] = replicate i False @ True # replicate (n - Suc i) False"
  by (rule nth_equalityI) (auto simp: nth_list_update nth_append nth_Cons')

lemma find_minute_skip: "find_minute f m (replicate k False @ xs) = find_minute f (m + k) xs"
  by (induction k arbitrary: m) simp_all

lemma find_time_skip: "find_time minutes sh sm h (replicate k False @ xs) = find_time minutes sh sm (h + k) xs"
  by (induction k arbitrary: h) simp_all

text \<open>An expression for the samples: every day at nine.\<close>

definition nine_spec :: cron_spec where
  "nine_spec = \<lparr>cs_minutes = True # replicate 59 False, cs_hours = replicate 9 False @ True # replicate 14 False,
     cs_days = map (\<lambda>i. 1 \<le> int i) [0..<32], cs_months = map (\<lambda>i. 1 \<le> int i) [0..<13],
     cs_weekdays = iso_weekdays (map (\<lambda>i. 0 \<le> int i) [0..<8]), cs_dom_restricted = False, cs_dow_restricted = False\<rparr>"

lemma nine_fields:
  "split_white ''0 9 * * *'' = [''0'', ''9'', ''*'', ''*'', ''*'']"
  "parse_field ''0'' 0 59 NoNames = Inr (True # replicate 59 False, True)"
  "parse_field ''9'' 0 23 NoNames = Inr (replicate 9 False @ True # replicate 14 False, True)"
  by (simp add: plain_text) (simp_all add: cron_eval mark_range.simps mark_one)

lemma nine: "parse_cron ''0 9 * * *'' = Inr nine_spec"
  unfolding parse_cron_def Let_def nine_fields by (simp add: nine_fields parse_field_star nine_spec_def)

lemma nine_next: "next_cron_after ''0 9 * * *'' 0 1699950000 = Inr 1699952400"
proof -
  have "days_from_civil 2023 11 14 = 19675" "valid_date (2023, 11, 14)"
    by (simp_all add: days_from_civil_start year_start_def month_start_def valid_date_def month_length_def)
  then have "civil_date 19675 = (2023, 11, 14)" using civil_date_days_from_civil by metis
  then have "time_on_day nine_spec 1699950060 = Some (9, 0)"
    by (simp add: time_on_day_def day_matches_def nine_spec_def Let_def find_time_skip)
  moreover have "max_cron_days = Suc 2927" by (simp add: max_cron_days_def)
  then have "search_days nine_spec max_cron_days 1699950060 =
    (case time_on_day nine_spec 1699950060 of
       Some (hour, minute) \<Rightarrow> Some (1699950060 div 86400 * 86400 + int hour * 3600 + int minute * 60)
     | None \<Rightarrow> search_days nine_spec 2927 ((1699950060 div 86400 + 1) * 86400))"
    by (metis search_days.simps(2))
  ultimately show ?thesis by (simp add: next_cron_after_def nine first_candidate_def)
qed

theorem next_cron_after_least_witness:
  "cron_fires nine_spec 0 1699952400 \<and> \<not> cron_fires nine_spec 0 1699952340"
  using next_cron_after_least [OF nine nine_next] by simp

theorem next_cron_after_horizon_witness:
  "\<exists>t. next_cron_after ''0 9 * * *'' 0 1699950000 = Inr t \<and> t \<le> 1699950060 + 2928 * 86400"
  using next_cron_after_horizon [OF nine, of 0 1699950000] nine_next by auto

section \<open>A step near the limit\<close>


end
