(* ===== verification/Schedule_Claims.thy ===== *)
theory Schedule_Claims
  imports Cron_Search Schedule_Engine
begin

text \<open>
  What the engine of \<open>Schedule_Engine\<close> promises. The interface \<open>single_flight\<close>
  is the contract of in-flight marks: what is started was not marked and is marked afterwards,
  and a mark stays until the run ends. Its lemma, that nothing is started twice without an end
  in between, holds of every history of the engine's operations.
\<close>

section \<open>In-flight marks\<close>

locale single_flight =
  fixes step :: "'op \<Rightarrow> 's \<Rightarrow> 'out \<times> 's"
    and starts :: "'out \<Rightarrow> int \<Rightarrow> bool" and ends :: "'op \<Rightarrow> int \<Rightarrow> bool" and marked :: "'s \<Rightarrow> int \<Rightarrow> bool"
  assumes start_unmarked: "step op s = (out, s') \<Longrightarrow> starts out i \<Longrightarrow> \<not> marked s i"
    and start_marks: "step op s = (out, s') \<Longrightarrow> starts out i \<Longrightarrow> marked s' i"
    and mark_stays: "step op s = (out, s') \<Longrightarrow> marked s i \<Longrightarrow> \<not> ends op i \<Longrightarrow> marked s' i"
begin

primrec history :: "'op list \<Rightarrow> 's \<Rightarrow> 'out list \<times> 's" where
  "history [] s = ([], s)"
| "history (op # ops) s = (case step op s of (out, s1) \<Rightarrow> case history ops s1 of (outs, s2) \<Rightarrow> (out # outs, s2))"

lemma marked_history:
  "history ops s = (outs, s') \<Longrightarrow> marked s i \<Longrightarrow> (\<forall>op \<in> set ops. \<not> ends op i) \<Longrightarrow>
     marked s' i \<and> (\<forall>out \<in> set outs. \<not> starts out i)"
proof (induction ops arbitrary: s outs s')
  case Nil
  then show ?case by simp
next
  case (Cons op ops)
  obtain out s1 where 1: "step op s = (out, s1)" by (cases "step op s")
  obtain outs2 s2 where 2: "history ops s1 = (outs2, s2)" by (cases "history ops s1")
  have "marked s1 i" using mark_stays [OF 1 Cons.prems(2)] Cons.prems(3) by simp
  moreover have "\<not> starts out i" using start_unmarked [OF 1] Cons.prems(2) by blast
  ultimately show ?case using Cons.IH [OF 2] Cons.prems 1 2 by auto
qed

lemma no_second_start:
  assumes "step op s = (out, s1)" "starts out i" "history ops s1 = (outs, s2)" "\<forall>op \<in> set ops. \<not> ends op i"
  shows "\<forall>out \<in> set outs. \<not> starts out i"
  using marked_history [OF assms(3) start_marks [OF assms(1,2)] assms(4)] by blast

end

section \<open>A plan\<close>

definition due_now :: "int \<Rightarrow> scheduled_task \<Rightarrow> bool" where
  "due_now now task \<longleftrightarrow> tk_enabled task \<and> (case due_time task of None \<Rightarrow> False | Some due \<Rightarrow> due \<le> now)"

fun decision_task :: "schedule_decision \<Rightarrow> int" where
  "decision_task (ExecuteTask i due) = i"
| "decision_task (SkipTask i reason) = i"

fun executed :: "schedule_decision \<Rightarrow> (int \<times> int) list" where
  "executed (ExecuteTask i due) = [(i, due)]"
| "executed (SkipTask i reason) = []"

text \<open>Why the engine lets a task run now.\<close>

definition may_execute :: "scheduler \<Rightarrow> int \<Rightarrow> scheduled_task \<Rightarrow> int \<Rightarrow> bool" where
  "may_execute engine now task due \<longleftrightarrow>
     tk_enabled task \<and> due_time task = Some due \<and> due \<le> now \<and> quiet_hours task now = Inr False \<and>
     tk_id task \<notin> se_running engine \<and>
     (tk_misfire_policy task = ''run'' \<or> now - due \<le> sg_misfire_grace_seconds (se_config engine))"

lemma plan_task_result:
  assumes "plan_task engine now task (ds, rs) = Inr (ds', rs')"
  shows "(\<not> due_now now task \<and> ds' = ds \<and> rs' = rs) \<or>
    (due_now now task \<and> (\<exists>d. ds' = ds @ [d] \<and> rs' = rs @ executed d \<and> decision_task d = tk_id task \<and>
       (\<forall>due. d = ExecuteTask (tk_id task) due \<longleftrightarrow> may_execute engine now task due)))"
  using assms
  by (auto simp: plan_task_def due_now_def may_execute_def Let_def res_simps split: option.splits if_splits)

lemma plan_fold_result:
  assumes "efold (plan_task engine now) tasks (ds, rs) = Inr (ds', rs')"
  shows "\<exists>new. ds' = ds @ new \<and> rs' = rs @ concat (map executed new) \<and>
    map decision_task new = map tk_id (filter (due_now now) tasks) \<and>
    (\<forall>i due. ExecuteTask i due \<in> set new \<longrightarrow> (\<exists>task \<in> set tasks. tk_id task = i \<and> may_execute engine now task due))"
  using assms
proof (induction tasks arbitrary: ds rs)
  case Nil
  then show ?case by simp
next
  case (Cons task tasks)
  then obtain ds1 rs1 where 1: "plan_task engine now task (ds, rs) = Inr (ds1, rs1)"
    and 2: "efold (plan_task engine now) tasks (ds1, rs1) = Inr (ds', rs')" by (auto simp: res_simps)
  from Cons.IH [OF 2] obtain new where new: "ds' = ds1 @ new" "rs' = rs1 @ concat (map executed new)"
    "map decision_task new = map tk_id (filter (due_now now) tasks)"
    "\<forall>i due. ExecuteTask i due \<in> set new \<longrightarrow> (\<exists>task \<in> set tasks. tk_id task = i \<and> may_execute engine now task due)"
    by blast
  from plan_task_result [OF 1] show ?case
  proof (elim disjE conjE exE)
    assume "\<not> due_now now task" "ds1 = ds" "rs1 = rs"
    with new show ?thesis by auto
  next
    fix d
    assume d: "due_now now task" "ds1 = ds @ [d]" "rs1 = rs @ executed d" "decision_task d = tk_id task"
      "\<forall>due. d = ExecuteTask (tk_id task) due \<longleftrightarrow> may_execute engine now task due"
    have "\<exists>t \<in> set (task # tasks). tk_id t = i \<and> may_execute engine now t due" if "ExecuteTask i due = d" for i due
      using d(4,5) that by auto
    with d new show ?thesis by (intro exI [of _ "d # new"]) auto
  qed
qed

lemma foldl_reserve:
  "se_running (foldl reserve engine rs) = se_running engine \<union> fst ` set rs"
  "se_config (foldl reserve engine rs) = se_config engine"
  by (induction rs arbitrary: engine) (auto simp: reserve_def)

lemma in_executed: "(i, due) \<in> set (executed d) \<longleftrightarrow> d = ExecuteTask i due"
  by (cases d) auto

lemma plan_result:
  assumes "plan tasks now engine = (Inr ds, engine')"
  shows "map decision_task ds = map tk_id (filter (due_now now) tasks)"
    and "ExecuteTask i due \<in> set ds \<Longrightarrow> \<exists>task \<in> set tasks. tk_id task = i \<and> may_execute engine now task due"
    and "se_running engine' = se_running engine \<union> {i. \<exists>due. ExecuteTask i due \<in> set ds}"
    and "se_config engine' = se_config engine"
proof -
  obtain rs where f: "efold (plan_task engine now) tasks ([], []) = Inr (ds, rs)" and e: "engine' = foldl reserve engine rs"
    using assms by (auto simp: plan_def split: sum.splits prod.splits)
  from plan_fold_result [OF f] have new: "rs = concat (map executed ds)"
    "map decision_task ds = map tk_id (filter (due_now now) tasks)"
    "\<forall>i due. ExecuteTask i due \<in> set ds \<longrightarrow> (\<exists>task \<in> set tasks. tk_id task = i \<and> may_execute engine now task due)"
    by auto
  then show "map decision_task ds = map tk_id (filter (due_now now) tasks)"
    "ExecuteTask i due \<in> set ds \<Longrightarrow> \<exists>task \<in> set tasks. tk_id task = i \<and> may_execute engine now task due" by blast+
  have "fst ` set rs = {i. \<exists>due. ExecuteTask i due \<in> set ds}"
    unfolding new(1) by (force simp: in_executed)
  then show "se_running engine' = se_running engine \<union> {i. \<exists>due. ExecuteTask i due \<in> set ds}"
    "se_config engine' = se_config engine" by (simp_all add: e foldl_reserve)
qed

section \<open>Histories of the engine\<close>

datatype engine_op = Plan "scheduled_task list" int | MarkRunning int | Complete int

fun engine_step :: "engine_op \<Rightarrow> scheduler \<Rightarrow> schedule_decision list \<times> scheduler" where
  "engine_step (Plan tasks now) engine =
     (case plan tasks now engine of (Inr decisions, engine') \<Rightarrow> (decisions, engine') | (Inl _, engine') \<Rightarrow> ([], engine'))"
| "engine_step (MarkRunning i) engine = ([], mark_running i engine)"
| "engine_step (Complete i) engine = ([], complete_task i engine)"

primrec engine_history :: "engine_op list \<Rightarrow> scheduler \<Rightarrow> schedule_decision list list \<times> scheduler" where
  "engine_history [] engine = ([], engine)"
| "engine_history (op # ops) engine =
     (case engine_step op engine of (out, engine1) \<Rightarrow> case engine_history ops engine1 of (outs, engine2) \<Rightarrow> (out # outs, engine2))"

definition executes :: "schedule_decision list \<Rightarrow> int \<Rightarrow> bool" where
  "executes decisions i \<longleftrightarrow> (\<exists>due. ExecuteTask i due \<in> set decisions)"

lemma plan_step:
  assumes "engine_step (Plan tasks now) engine = (ds, engine')"
  shows "executes ds i \<Longrightarrow> i \<notin> se_running engine" "se_running engine' = se_running engine \<union> {i. executes ds i}"
proof -
  obtain r e where p: "plan tasks now engine = (r, e)" by (cases "plan tasks now engine")
  have "(executes ds i \<longrightarrow> i \<notin> se_running engine) \<and> se_running engine' = se_running engine \<union> {i. executes ds i}"
  proof (cases r)
    case (Inl x)
    with assms p have "ds = []" "engine' = e" "e = engine" by (auto simp: plan_def split: sum.splits prod.splits)
    then show ?thesis by (simp add: executes_def)
  next
    case (Inr ds1)
    with assms p have "ds1 = ds" "e = engine'" by simp_all
    with p Inr have "plan tasks now engine = (Inr ds, engine')" by simp
    from plan_result [OF this] show ?thesis by (auto simp: executes_def may_execute_def)
  qed
  then show "executes ds i \<Longrightarrow> i \<notin> se_running engine" "se_running engine' = se_running engine \<union> {i. executes ds i}" by blast+
qed

interpretation engine: single_flight engine_step executes "\<lambda>op i. op = Complete i" "\<lambda>s i. i \<in> se_running s"
proof
  fix op s out s' i
  assume step: "engine_step op s = (out, s')"
  have quiet: "\<not> executes out i" if "op = MarkRunning j \<or> op = Complete j" for j
    using step that by (auto simp: executes_def)
  show "\<not> i \<in> se_running s" "i \<in> se_running s'" if "executes out i"
  proof -
    from that quiet obtain tasks now where "op = Plan tasks now" by (cases op) auto
    with step have "engine_step (Plan tasks now) s = (out, s')" by simp
    from plan_step [OF this] that show "\<not> i \<in> se_running s" "i \<in> se_running s'" by blast+
  qed
  show "i \<in> se_running s'" if "i \<in> se_running s" "\<not> op = Complete i"
  proof (cases op)
    case (Plan tasks now)
    with step have "engine_step (Plan tasks now) s = (out, s')" by simp
    from plan_step(2) [OF this] that show ?thesis by blast
  qed (use step that in \<open>auto simp: mark_running_def complete_task_def\<close>)
qed

lemma engine_history_eq: "engine_history ops s = engine.history ops s"
  by (induction ops arbitrary: s) (simp_all split: prod.splits)

text \<open>Property C8. Once the engine has let a task run, no plan lets it run again before the task is completed, whatever other operations come in between.\<close>

theorem engine_waits_for_completion:
  assumes "engine_step (Plan tasks now) engine = (ds, engine1)" "executes ds i"
    and "engine_history ops engine1 = (outs, engine2)" "Complete i \<notin> set ops"
  shows "\<forall>out \<in> set outs. \<not> executes out i"
  using engine.no_second_start [OF assms(1,2)] assms(3,4) by (auto simp: engine_history_eq)

text \<open>Property C31. A plan decides about exactly the due tasks, in their order, and executes a task only when it is enabled, due, outside its quiet hours, not in flight, and not later than its misfire policy allows; what it executes is marked.\<close>

theorem plan_decides_each_due_task:
  assumes "plan tasks now engine = (Inr ds, engine')"
  shows "map decision_task ds = map tk_id (filter (due_now now) tasks) \<and>
    (\<forall>i due. ExecuteTask i due \<in> set ds \<longrightarrow> (\<exists>task \<in> set tasks. tk_id task = i \<and> may_execute engine now task due)) \<and>
    se_running engine' = se_running engine \<union> {i. executes ds i}"
  using plan_result [OF assms] unfolding executes_def by blast

section \<open>Quiet hours\<close>

text \<open>Two clock times cut the day in two: at every moment exactly one of the window from the first to the second and the window from the second to the first is quiet.\<close>

theorem quiet_windows_partition_the_day:
  assumes "parse_hhmm (Some a) = Some m" "parse_hhmm (Some b) = Some n" "m \<noteq> n"
    and "timezone_offset (tk_timezone task) = Inr offset"
  shows "\<exists>quiet. quiet_hours (task\<lparr>tk_quiet_hours_start := Some a, tk_quiet_hours_end := Some b\<rparr>) moment = Inr quiet \<and>
    quiet_hours (task\<lparr>tk_quiet_hours_start := Some b, tk_quiet_hours_end := Some a\<rparr>) moment = Inr (\<not> quiet)"
proof -
  have "m < n \<or> n < m" using assms(3) by linarith
  then show ?thesis using assms by (auto simp: quiet_hours_def Let_def)
qed

end
