(* ===== verification/Task_Executor.thy ===== *)
theory Task_Executor
  imports Task_Store Schedule_Claims Capability_Policy Agent_Actions
begin

text \<open>
  The background executor, \<open>crates/cool-app-server/src/scheduler.rs\<close>:
  \<open>TaskExecutor\<close> ties the engine of \<open>Schedule_Engine\<close> to the tables of
  \<open>Task_Store\<close> and to the agent. A tick plans the due tasks, records what is skipped and
  enqueues the rest; \<open>enqueue\<close> marks a task, advances its schedule and adds its run;
  \<open>finish_execution\<close> is what the spawned execution does when the agent is done. What an
  agent run returns is the argument of a step, so every order of the steps is covered; the
  statements of one tick are one step.

  \<open>ck_text ck n\<close> and \<open>ck_seconds ck n\<close> are the \<open>n\<close>-th readings of the
  clock, counted in the state. \<open>quoted\<close> is \<open>{:?}\<close> of a string. \<open>dollars\<close> is
  the floating-point division of a micro-dollar amount.
\<close>

section \<open>State\<close>

record clock =
  ck_text :: "nat \<Rightarrow> string"
  ck_seconds :: "nat \<Rightarrow> int"

record executor =
  xe_db :: task_db
  xe_engine :: scheduler
  xe_live :: "int set"
  xe_inflight :: "(scheduled_task \<times> int) list"
  xe_reads :: nat

definition new_executor :: "scheduler_config \<Rightarrow> task_db \<Rightarrow> executor" where
  "new_executor config db =
     \<lparr>xe_db = db, xe_engine = new_scheduler config, xe_live = {}, xe_inflight = [], xe_reads = 0\<rparr>"

definition local_actor :: string where "local_actor = ''local-user''"

section \<open>Messages of errors\<close>

definition cron_text :: "(string \<Rightarrow> string) \<Rightarrow> cron_message \<Rightarrow> string" where
  "cron_text quoted m =
     (case m of
        FieldCount n expression \<Rightarrow> ''expected 5 fields, got '' @ dec n @ '' in '' @ quoted expression
      | EmptyField field \<Rightarrow> ''empty field in '' @ quoted field
      | BadStep step \<Rightarrow> ''bad step '' @ quoted step
      | OutOfRange field \<Rightarrow> ''out-of-range field '' @ quoted field
      | UnknownValue token \<Rightarrow> ''unknown value '' @ quoted token
      | UnknownName token \<Rightarrow> ''unknown name '' @ quoted token)"

definition schedule_error_text :: "(string \<Rightarrow> string) \<Rightarrow> schedule_error \<Rightarrow> string" where
  "schedule_error_text quoted e =
     (case e of
        UnsupportedTimezone name \<Rightarrow> ''unsupported timezone '' @ quoted name @ '' (UTC or fixed offset required)''
      | InvalidCron message \<Rightarrow> ''invalid cron expression: '' @ cron_text quoted message
      | MissingCronExpression \<Rightarrow> ''cron trigger needs an expression''
      | InvalidInterval seconds \<Rightarrow> ''interval trigger needs a positive interval, got '' @ pad_int 0 seconds
      | MissingRunAt \<Rightarrow> ''date trigger needs a run_at''
      | InvalidRunAt v \<Rightarrow> ''invalid run_at '' @ quoted v
      | UnknownTrigger v \<Rightarrow> ''unknown trigger type '' @ quoted v
      | NoFutureOccurrence expression \<Rightarrow> ''no future occurrence for '' @ quoted expression)"

definition unsupported_reason :: "(string \<Rightarrow> string) \<Rightarrow> schedule_error \<Rightarrow> string" where
  "unsupported_reason quoted e = ''unsupported schedule: '' @ schedule_error_text quoted e"

definition approval_reason :: "string \<Rightarrow> string" where
  "approval_reason policy =
     (if policy = ''allow_all'' then ''Pre-approved by the user: this background task may use external tools.''
      else ''Background run without a human in the loop: tools with an external side effect (send_external) are denied. '' @
           ''Set the task''@ [CHR 0x27] @ ''s approval policy to allow_all to pre-approve them.'')"

section \<open>The policy of a task\<close>

definition decision_from_name :: "string \<Rightarrow> decision option" where
  "decision_from_name name =
     (let lower = to_lower (trim_text name) in
      if lower = ''allow'' then Some Allow else if lower = ''ask'' then Some Ask
      else if lower = ''deny'' then Some Deny else None)"

definition capability_from_name :: "string \<Rightarrow> capability option" where
  "capability_from_name name =
     (if name = ''read'' then Some Read else if name = ''write'' then Some Write
      else if name = ''execute'' then Some Execute else if name = ''network'' then Some Network
      else if name = ''git'' then Some Git else if name = ''send_external'' then Some SendExternal else None)"

definition policy_entry :: "string \<times> json \<Rightarrow> decision option \<times> (capability \<times> decision) list \<Rightarrow> decision option \<times> (capability \<times> decision) list" where
  "policy_entry entry acc =
     (case (entry, acc) of ((name, value), (wildcard, per_capability)) \<Rightarrow>
        (case (case value of JString text \<Rightarrow> decision_from_name text | _ \<Rightarrow> None) of
           None \<Rightarrow> acc
         | Some decision \<Rightarrow>
             (let name = to_lower (trim_text name) in
              if name = ''*'' then (Some decision, per_capability)
              else case capability_from_name name of
                     Some capability \<Rightarrow> (wildcard, per_capability @ [(capability, decision)])
                   | None \<Rightarrow> acc)))"

definition policy_from_json :: "json option \<Rightarrow> capability_policy" where
  "policy_from_json value =
     (case fold policy_entry (case value of Some (JObject entries) \<Rightarrow> entries | _ \<Rightarrow> []) (None, []) of
        (wildcard, per_capability) \<Rightarrow>
          foldl (\<lambda>policy (capability, decision). policy_set capability decision policy) (new_policy wildcard) per_capability)"

definition task_policy :: "capability_policy \<Rightarrow> scheduled_task \<Rightarrow> capability_policy" where
  "task_policy base task =
     (let child = policy_from_json (tk_capability_policy task);
          child = (if tk_approval_policy task \<noteq> ''allow_all'' then policy_set SendExternal Deny child else child)
      in narrow_with base child)"

section \<open>Enqueueing\<close>

definition skip_run :: "clock \<Rightarrow> int \<Rightarrow> string \<Rightarrow> executor \<Rightarrow> task_run task_result \<times> executor" where
  "skip_run ck task_id reason x =
     (case record_skipped_run (ck_text ck (xe_reads x)) (ck_seconds ck (xe_reads x)) local_actor task_id reason (xe_db x) of
        (r, db) \<Rightarrow> (r, x\<lparr>xe_db := db, xe_reads := xe_reads x + 1\<rparr>))"

definition enqueued_run :: "string \<Rightarrow> scheduled_task \<Rightarrow> new_task_run" where
  "enqueued_run trigger task =
     \<lparr>nr_trigger_source = trigger, nr_prompt = tk_prompt task, nr_status = ''running'',
      nr_approval_policy = Some (tk_approval_policy task),
      nr_approval_reason = Some (approval_reason (tk_approval_policy task)), nr_skip_reason = None\<rparr>"

definition next_run_text :: "(schedule_fault, int option) result \<Rightarrow> string option" where
  "next_run_text r = (case r of Inr (Some t) \<Rightarrow> Some (python_datetime t 0) | _ \<Rightarrow> None)"

definition enqueue_inner :: "clock \<Rightarrow> scheduled_task \<Rightarrow> string \<Rightarrow> executor \<Rightarrow> task_run task_result \<times> executor" where
  "enqueue_inner ck task trigger x =
     (let n = xe_reads x;
          upcoming = next_run task (ck_seconds ck n)
      in if upcoming = Inl Panics then (Inl TaskPanic, x)
         else let db = record_task_fired (ck_text ck n) (tk_id task) (next_run_text upcoming) (xe_db x)
              in case create_task_run (ck_text ck (n + 1)) local_actor (tk_id task) (enqueued_run trigger task) db of
                   (Inl e, db) \<Rightarrow> (Inl e, x\<lparr>xe_db := db, xe_reads := n + 2\<rparr>)
                 | (Inr run, db) \<Rightarrow> (Inr run, x\<lparr>xe_db := db, xe_reads := n + 2, xe_live := insert (tu_id run) (xe_live x),
                       xe_inflight := xe_inflight x @ [(task, tu_id run)]\<rparr>))"

text \<open>A panic unwinds past the clearing of the mark.\<close>

definition enqueue :: "clock \<Rightarrow> scheduled_task \<Rightarrow> string \<Rightarrow> executor \<Rightarrow> task_run task_result \<times> executor" where
  "enqueue ck task trigger x =
     (case enqueue_inner ck task trigger (x\<lparr>xe_engine := mark_running (tk_id task) (xe_engine x)\<rparr>) of
        (Inr run, x) \<Rightarrow> (Inr run, x)
      | (Inl e, x) \<Rightarrow> (Inl e, if e = TaskPanic then x else x\<lparr>xe_engine := complete_task (tk_id task) (xe_engine x)\<rparr>))"

section \<open>A tick\<close>

text \<open>Tasks whose quiet hours cannot be read are skipped at once; the error of that skip is dropped.\<close>

fun readable_tasks :: "clock \<Rightarrow> (string \<Rightarrow> string) \<Rightarrow> int \<Rightarrow> scheduled_task list \<Rightarrow> executor \<Rightarrow> scheduled_task list task_result \<times> executor" where
  "readable_tasks ck quoted now [] x = (Inr [], x)"
| "readable_tasks ck quoted now (task # due) x =
     (case quiet_hours task now of
        Inl e \<Rightarrow>
          (case skip_run ck (tk_id task) (unsupported_reason quoted e) x of
             (Inl TaskPanic, x) \<Rightarrow> (Inl TaskPanic, x)
           | (_, x) \<Rightarrow> readable_tasks ck quoted now due x)
      | Inr _ \<Rightarrow>
          (case readable_tasks ck quoted now due x of
             (Inl e, x) \<Rightarrow> (Inl e, x)
           | (Inr tasks, x) \<Rightarrow> (Inr (task # tasks), x)))"

fun run_decisions ::
    "clock \<Rightarrow> scheduled_task list \<Rightarrow> schedule_decision list \<Rightarrow> task_error option \<Rightarrow> executor \<Rightarrow> unit task_result \<times> executor" where
  "run_decisions ck tasks [] first_error x = (case first_error of Some e \<Rightarrow> Inl e | None \<Rightarrow> Inr (), x)"
| "run_decisions ck tasks (SkipTask task_id reason # ds) first_error x =
     (case skip_run ck task_id reason x of
        (Inl TaskPanic, x) \<Rightarrow> (Inl TaskPanic, x)
      | (Inl e, x) \<Rightarrow> run_decisions ck tasks ds (Some (case first_error of None \<Rightarrow> e | Some f \<Rightarrow> f)) x
      | (Inr _, x) \<Rightarrow> run_decisions ck tasks ds first_error x)"
| "run_decisions ck tasks (ExecuteTask task_id due # ds) first_error x =
     (case find (\<lambda>t. tk_id t = task_id) tasks of
        None \<Rightarrow> run_decisions ck tasks ds first_error (x\<lparr>xe_engine := complete_task task_id (xe_engine x)\<rparr>)
      | Some task \<Rightarrow>
          (case enqueue ck task ''schedule'' x of
             (Inl TaskPanic, x) \<Rightarrow> (Inl TaskPanic, x)
           | (Inl e, x) \<Rightarrow> run_decisions ck tasks ds (Some (case first_error of None \<Rightarrow> e | Some f \<Rightarrow> f)) x
           | (Inr _, x) \<Rightarrow> run_decisions ck tasks ds first_error x))"

definition tick :: "clock \<Rightarrow> (string \<Rightarrow> string) \<Rightarrow> int \<Rightarrow> executor \<Rightarrow> unit task_result \<times> executor" where
  "tick ck quoted now x =
     (case readable_tasks ck quoted now (list_due_tasks now (xe_db x)) x of
        (Inl e, x) \<Rightarrow> (Inl e, x)
      | (Inr tasks, x) \<Rightarrow>
          (case plan tasks now (xe_engine x) of
             (Inl e, engine) \<Rightarrow> (Inl (InvalidInput (BadSchedule e)), x\<lparr>xe_engine := engine\<rparr>)
           | (Inr decisions, engine) \<Rightarrow> run_decisions ck tasks decisions None (x\<lparr>xe_engine := engine\<rparr>)))"

section \<open>Other triggers\<close>

text \<open>The bodies of \<open>run_now\<close> and \<open>cancel\<close>, which run once for a new idempotency key.\<close>

definition run_now :: "clock \<Rightarrow> string \<Rightarrow> int \<Rightarrow> executor \<Rightarrow> task_run task_result \<times> executor" where
  "run_now ck actor_id task_id x =
     (case require_task (xe_db x) actor_id task_id of
        Inl e \<Rightarrow> (Inl e, x)
      | Inr task \<Rightarrow> enqueue ck task ''manual'' x)"

definition skip_for :: "clock \<Rightarrow> string \<Rightarrow> int \<Rightarrow> string \<Rightarrow> executor \<Rightarrow> task_run task_result \<times> executor" where
  "skip_for ck actor_id task_id reason x =
     (case record_skipped_run (ck_text ck (xe_reads x)) (ck_seconds ck (xe_reads x)) actor_id task_id reason (xe_db x) of
        (r, db) \<Rightarrow> (r, x\<lparr>xe_db := db, xe_reads := xe_reads x + 1\<rparr>))"

definition dispatch_task :: "clock \<Rightarrow> (string \<Rightarrow> string) \<Rightarrow> string \<Rightarrow> int \<Rightarrow> executor \<Rightarrow> task_run task_result \<times> executor" where
  "dispatch_task ck quoted actor_id task_id x =
     (case require_task (xe_db x) actor_id task_id of
        Inl e \<Rightarrow> (Inl e, x)
      | Inr task \<Rightarrow>
          (let now = ck_seconds ck (xe_reads x); x = x\<lparr>xe_reads := xe_reads x + 1\<rparr> in
           case quiet_hours task now of
             Inr True \<Rightarrow> skip_for ck actor_id task_id (quiet_reason task) x
           | Inr False \<Rightarrow> enqueue ck task ''manual'' x
           | Inl e \<Rightarrow> skip_for ck actor_id task_id (unsupported_reason quoted e) x))"

definition dispatch_adhoc :: "clock \<Rightarrow> string \<Rightarrow> string \<Rightarrow> string \<Rightarrow> executor \<Rightarrow> task_run task_result \<times> executor" where
  "dispatch_adhoc ck actor_id name prompt x =
     (let n = xe_reads x;
          new = default_new_task\<lparr>nt_name := name, nt_prompt := prompt, nt_trigger_type := ''date'',
            nt_run_at := Some (python_datetime (ck_seconds ck n) 0), nt_enabled := False\<rparr>
      in case create_task (ck_text ck (n + 2)) (ck_seconds ck (n + 1)) (ck_seconds ck (n + 3)) actor_id new (xe_db x) of
           (Inl e, db) \<Rightarrow> (Inl e, x\<lparr>xe_db := db, xe_reads := n + 4\<rparr>)
         | (Inr task, db) \<Rightarrow> enqueue ck task ''manual'' (x\<lparr>xe_db := db, xe_reads := n + 4\<rparr>))"

definition cancel :: "clock \<Rightarrow> string \<Rightarrow> int \<Rightarrow> executor \<Rightarrow> task_run task_result \<times> executor" where
  "cancel ck actor_id run_id x =
     (case cancel_task_run (ck_text ck (xe_reads x)) actor_id run_id (xe_db x) of
        (r, db) \<Rightarrow> (r, x\<lparr>xe_db := db, xe_live := xe_live x - {run_id}, xe_reads := xe_reads x + 1\<rparr>))"

section \<open>The end of an execution\<close>

definition last_assistant :: "message list \<Rightarrow> string option" where
  "last_assistant history =
     (case find (\<lambda>m. mg_role m = AssistantRole) (rev history) of
        None \<Rightarrow> None
      | Some m \<Rightarrow> (case mg_content m of None \<Rightarrow> None | Some text \<Rightarrow> if text = [] then None else Some text))"

definition legacy_usage_json :: "(64 word \<Rightarrow> 64 word) \<Rightarrow> usage \<Rightarrow> json" where
  "legacy_usage_json dollars u =
     JObject [(''completion_tokens'', JNumber (PosInt (us_completion_tokens u))),
       (''cost_usd'', JNumber (Float (case us_cost_micro_usd u of None \<Rightarrow> 0 | Some micros \<Rightarrow> dollars micros))),
       (''prompt_tokens'', JNumber (PosInt (us_prompt_tokens u))),
       (''total_tokens'', JNumber (PosInt (us_total_tokens u)))]"

text \<open>What the outcome of the agent run writes into the row of the run.\<close>

definition agent_finish ::
    "(string \<Rightarrow> string) \<Rightarrow> (64 word \<Rightarrow> 64 word) \<Rightarrow> (runtime_error \<Rightarrow> string) \<Rightarrow> (runtime_error, run_outcome) result \<Rightarrow> int \<Rightarrow> run_finish" where
  "agent_finish ms dollars error_text r duration =
     (let row = (\<lambda>status output error usage. \<lparr>rf_status = status, rf_output = output, rf_error = error,
            rf_usage = map_option (legacy_usage_json dollars) usage, rf_duration_ms = Some duration,
            rf_conversation_id = None, rf_agent_run_id = None\<rparr>)
      in case r of
           Inr (RunDone history u) \<Rightarrow> row ''completed'' (map_option ms (last_assistant history)) None (Some u)
         | Inr (RunStopped history reason) \<Rightarrow> row ''cancelled'' None None None
         | Inr (RunBroken history code) \<Rightarrow> row ''failed'' None (Some code) None
         | Inl e \<Rightarrow> row ''failed'' None (Some (error_text e)) None)"

definition fail_finish :: "string \<Rightarrow> int \<Rightarrow> run_finish" where
  "fail_finish error duration = \<lparr>rf_status = ''failed'', rf_output = None, rf_error = Some error, rf_usage = None,
     rf_duration_ms = Some duration, rf_conversation_id = None, rf_agent_run_id = None\<rparr>"

text \<open>
  The end of the spawned execution: both writes, whose errors are dropped, then the cancel
  channel and the mark go. A panic in the second write ends the execution before that.
\<close>

definition finish_writes :: "clock \<Rightarrow> scheduled_task \<Rightarrow> int \<Rightarrow> run_finish \<Rightarrow> executor \<Rightarrow> scheduled_task task_result \<times> executor" where
  "finish_writes ck task run_id fin x =
     (let n = xe_reads x;
          db = snd (finish_task_run (ck_text ck n) local_actor run_id fin (xe_db x))
      in case record_task_outcome (ck_text ck (n + 1)) (ck_seconds ck (n + 1)) (tk_id task) (rf_status fin)
            (rf_status fin \<noteq> ''failed'') (sg_max_consecutive_failures (se_config (xe_engine x))) db of
           (r, db) \<Rightarrow> (r, x\<lparr>xe_db := db, xe_reads := n + 2\<rparr>))"

definition finish_execution :: "clock \<Rightarrow> scheduled_task \<Rightarrow> int \<Rightarrow> run_finish \<Rightarrow> executor \<Rightarrow> executor" where
  "finish_execution ck task run_id fin x =
     (case finish_writes ck task run_id fin x of
        (r, x) \<Rightarrow>
          (let x = x\<lparr>xe_inflight := remove1 (task, run_id) (xe_inflight x)\<rparr>
           in if r = Inl TaskPanic then x
              else x\<lparr>xe_live := xe_live x - {run_id}, xe_engine := complete_task (tk_id task) (xe_engine x)\<rparr>))"

section \<open>Steps\<close>

inductive executor_step :: "clock \<Rightarrow> (string \<Rightarrow> string) \<Rightarrow> executor \<Rightarrow> executor \<Rightarrow> bool" for ck quoted where
  Tick: "tick ck quoted now x = (r, x') \<Longrightarrow> executor_step ck quoted x x'"
| RunNow: "run_now ck actor_id task_id x = (r, x') \<Longrightarrow> executor_step ck quoted x x'"
| Dispatch: "dispatch_task ck quoted actor_id task_id x = (r, x') \<Longrightarrow> executor_step ck quoted x x'"
| Adhoc: "dispatch_adhoc ck actor_id name prompt x = (r, x') \<Longrightarrow> executor_step ck quoted x x'"
| Cancel: "cancel ck actor_id run_id x = (r, x') \<Longrightarrow> executor_step ck quoted x x'"
| Ends: "(task, run_id) \<in> set (xe_inflight x) \<Longrightarrow> finish_execution ck task run_id fin x = x' \<Longrightarrow> executor_step ck quoted x x'"

inductive_cases executor_stepE: "executor_step ck quoted x x'"

end
