(* ===== verification/Task_Claims.thy ===== *)
theory Task_Claims
  imports Task_Executor
begin

text \<open>
  What the tables of tasks and the executor promise: how rows change, when a task is due
  again, how failures disable it, what its policy allows, and that the timer never runs a task
  twice at once.
\<close>

section \<open>Rows\<close>

lemma find_update:
  assumes "\<And>t. key (f t) = key t"
  shows "find (\<lambda>t. key t = i) (map (\<lambda>t. if key t = j then f t else t) xs) =
    (if i = j then map_option f (find (\<lambda>t. key t = i) xs) else find (\<lambda>t. key t = i) xs)"
  by (induction xs) (auto simp: assms)

lemma fetch_set_task:
  assumes "\<And>t. tk_id (f t) = tk_id t"
  shows "fetch_task (set_task j f db) i = (if i = j then map_sum id f (fetch_task db i) else fetch_task db i)"
  using find_update [of tk_id f i j "td_tasks db", OF assms]
  by (auto simp: fetch_task_def set_task_def ok_or_def split: option.splits)

lemma task_ids_set_task:
  assumes "\<And>t. tk_id (f t) = tk_id t"
  shows "map tk_id (td_tasks (set_task j f db)) = map tk_id (td_tasks db)"
  by (simp add: set_task_def assms)

lemma fetch_task_Inr: "fetch_task db i = Inr t \<Longrightarrow> t \<in> set (td_tasks db) \<and> tk_id t = i"
  by (auto simp: fetch_task_def ok_or_Inr_iff dest: find_Some_in)

lemma reschedule_result:
  assumes "reschedule i now db = (Inr task, db')"
  shows "fetch_task db' i = Inr task"
    and "\<exists>old n. fetch_task db i = Inr old \<and> task = old\<lparr>tk_next_run_at := n\<rparr> \<and>
      (if tk_enabled old then compute_next_run old now = Inr n else n = None)"
proof -
  obtain old where old: "fetch_task db i = Inr old"
    using assms by (auto simp: reschedule_def split: sum.splits)
  then obtain n where n: "(if tk_enabled old then compute_next_run old now else Inr None) = Inr n"
    using assms by (auto simp: reschedule_def split: sum.splits)
  with assms old have task: "task = old\<lparr>tk_next_run_at := n\<rparr>" "db' = set_next_run i n db"
    by (simp_all add: reschedule_def)
  show "fetch_task db' i = Inr task" using old by (simp add: task set_next_run_def fetch_set_task)
  have "if tk_enabled old then compute_next_run old now = Inr n else n = None" using n by (simp split: if_splits)
  with old task(1) show "\<exists>old n. fetch_task db i = Inr old \<and> task = old\<lparr>tk_next_run_at := n\<rparr> \<and>
      (if tk_enabled old then compute_next_run old now = Inr n else n = None)" by blast
qed

section \<open>When a task is due again\<close>

lemma next_run_later:
  assumes "next_run task now = Inr (Some t)" shows "now < t"
proof -
  obtain offset where offset: "timezone_offset (tk_timezone task) = Inr offset"
    using assms by (cases "timezone_offset (tk_timezone task)") (simp_all add: next_run_def refused_def)
  obtain trigger where trigger: "trigger_from_task task = Inr trigger"
    using assms offset by (cases "trigger_from_task task") (simp_all add: next_run_def refused_def)
  note run = assms [unfolded next_run_def offset trigger refused_def sum.case ebind.simps]
  show ?thesis
  proof (cases trigger)
    case (CronTrigger expression)
    with run have found: "next_cron_after expression offset now = Inr t" by (auto simp: res_simps)
    then show ?thesis by (rule cron_later)
  next
    case (IntervalTrigger seconds)
    with trigger have "1 \<le> seconds" by (auto simp: trigger_from_task_def res_simps split: if_splits)
    with run IntervalTrigger show ?thesis by (auto split: if_splits)
  next
    case (DateTrigger run_at)
    with run show ?thesis by (auto split: if_splits)
  qed
qed

lemma next_run_ignores_next_run_at [simp]: "next_run (t\<lparr>tk_next_run_at := v\<rparr>) = next_run t"
  by (rule ext) (simp add: next_run_def trigger_from_task_def)

lemma set_list_due_tasks: "set (list_due_tasks now db) = {t \<in> set (td_tasks db). due_now now t}"
  by (auto simp: list_due_tasks_def due_now_def due_time_def split: option.splits)

text \<open>Property C10. The text the store writes into \<open>next_run_at\<close> means the time it was made from: a rescheduled task is listed as due exactly from its next run on, and that lies in the future.\<close>

theorem rescheduled_task_is_due_at_next_run:
  assumes "reschedule i now db = (Inr task, db')" "tk_enabled task" "next_run task now = Inr (Some n)" "printable_time n"
  shows "now < n \<and> (task \<in> set (list_due_tasks now' db') \<longleftrightarrow> n \<le> now')"
proof -
  obtain old v where old: "task = old\<lparr>tk_next_run_at := v\<rparr>" "compute_next_run old now = Inr v"
    using reschedule_result(2) [OF assms(1)] assms(2) by (auto split: if_splits)
  with assms(3) have "v = Some (python_datetime n 0)" by (auto simp: compute_next_run_def faulted_def res_simps)
  with old have "due_time task = Some n"
    using parse_python_datetime_inverse [OF assms(4)] by (simp add: due_time_def)
  moreover have "task \<in> set (td_tasks db')" using fetch_task_Inr [OF reschedule_result(1) [OF assms(1)]] by blast
  ultimately show ?thesis
    using next_run_later [OF assms(3)] assms(2) by (simp add: set_list_due_tasks due_now_def)
qed

section \<open>Failures\<close>

lemma record_task_outcome_result:
  assumes "record_task_outcome ts now i status success ceiling db = (Inr task, db')"
  obtains old where "fetch_task db i = Inr old" "fetch_task db' i = Inr task"
    "tk_failure_count task = (if success then 0 else tk_failure_count old + 1)"
    "tk_enabled task = outcome_enabled old status success (tk_failure_count task) ceiling"
    "tk_trigger_type task = tk_trigger_type old" "\<not> tk_enabled task \<Longrightarrow> tk_next_run_at task = None"
proof -
  obtain old where old: "fetch_task db i = Inr old"
    using assms by (auto simp: record_task_outcome_def split: sum.splits)
  define f where "f = (\<lambda>t :: scheduled_task. t\<lparr>tk_last_status := Some status, tk_last_run_at := Some ts,
    tk_failure_count := (if success then 0 else tk_failure_count old + 1),
    tk_enabled := outcome_enabled old status success (if success then 0 else tk_failure_count old + 1) ceiling,
    tk_updated_at := ts\<rparr>)"
  have r: "reschedule i now (set_task i f db) = (Inr task, db')"
    using assms old by (simp add: record_task_outcome_def f_def Let_def)
  have "fetch_task (set_task i f db) i = Inr (f old)" using old by (simp add: fetch_set_task f_def)
  with reschedule_result(2) [OF r] obtain n where
    "task = (f old)\<lparr>tk_next_run_at := n\<rparr>" "if tk_enabled (f old) then compute_next_run (f old) now = Inr n else n = None" by auto
  then show thesis
    by (intro that [OF old reschedule_result(1) [OF r]]) (auto simp: f_def split: if_splits)
qed

text \<open>Failures in a row, each with its readings of the clock.\<close>

primrec record_failures :: "(string \<times> int) list \<Rightarrow> int \<Rightarrow> nat \<Rightarrow> task_db \<Rightarrow> scheduled_task task_result \<times> task_db" where
  "record_failures [] i ceiling db = (fetch_task db i, db)"
| "record_failures (reading # readings) i ceiling db =
     (case record_task_outcome (fst reading) (snd reading) i ''failed'' False ceiling db of
        (Inl e, db) \<Rightarrow> (Inl e, db)
      | (Inr _, db) \<Rightarrow> record_failures readings i ceiling db)"

lemma record_failures_result:
  assumes "record_failures readings i ceiling db = (Inr task, db')" "fetch_task db i = Inr old"
    "tk_trigger_type old \<noteq> ''date''" "0 < ceiling"
  shows "tk_failure_count task = tk_failure_count old + int (length readings) \<and>
    (tk_enabled task \<longleftrightarrow> tk_enabled old \<and> (readings = [] \<or> tk_failure_count task < int ceiling)) \<and>
    (readings \<noteq> [] \<longrightarrow> \<not> tk_enabled task \<longrightarrow> tk_next_run_at task = None)"
  using assms
proof (induction readings arbitrary: db old)
  case Nil
  then show ?case by simp
next
  case (Cons r rs)
  obtain mid db1 where 1: "record_task_outcome (fst r) (snd r) i ''failed'' False ceiling db = (Inr mid, db1)"
    and rest: "record_failures rs i ceiling db1 = (Inr task, db')"
    using Cons.prems(1) by (auto split: prod.splits sum.splits)
  from 1 obtain old' where o: "fetch_task db i = Inr old'" "fetch_task db1 i = Inr mid"
    "tk_failure_count mid = tk_failure_count old' + 1"
    "tk_enabled mid = outcome_enabled old' ''failed'' False (tk_failure_count mid) ceiling"
    "tk_trigger_type mid = tk_trigger_type old'" "\<not> tk_enabled mid \<Longrightarrow> tk_next_run_at mid = None"
    by (rule record_task_outcome_result) simp
  have "old' = old" using o(1) Cons.prems(2) by simp
  with Cons.IH [OF rest o(2)] o Cons.prems(3,4) rest show ?case
    by (cases rs) (auto simp: outcome_enabled_def Let_def)
qed

text \<open>Property C32. A recurring task that fails again and again counts every failure and is disabled, without a next run, exactly when the count reaches the ceiling.\<close>

theorem failures_disable_at_ceiling:
  assumes "record_failures readings i ceiling db = (Inr task, db')" "fetch_task db i = Inr old"
    and "tk_trigger_type old \<noteq> ''date''" "tk_enabled old" "tk_failure_count old = 0" "0 < ceiling"
  shows "tk_failure_count task = int (length readings) \<and>
    (tk_enabled task \<longleftrightarrow> length readings < ceiling) \<and>
    (ceiling \<le> length readings \<longrightarrow> tk_next_run_at task = None)"
  using record_failures_result [OF assms(1-3,6)] assms(4-6) by (cases "readings = []") auto

section \<open>The policy of a task\<close>

lemma task_policy_resolve:
  "resolve base k \<le> resolve (task_policy base task) k"
  "tk_approval_policy task \<noteq> ''allow_all'' \<Longrightarrow> resolve (task_policy base task) SendExternal = Deny"
  by (simp_all add: task_policy_def Let_def resolve_narrow_with resolve_decided policy_set_def)


end
