(* ===== verification/Executor_Claims.thy ===== *)
theory Executor_Claims
  imports Task_Claims
begin

text \<open>
  The executions in flight. Under the timer's own steps a task never has two: the marks of
  the engine cover the executions, and a plan starts nothing that is marked. A manual run does
  not look at the mark, and its end clears the mark of the other execution; a one-shot
  task whose run is longer than a tick is skipped as its own overlap. Both are shown on the
  model.
\<close>

section \<open>Executions and marks\<close>

definition flights :: "executor \<Rightarrow> int list" where
  "flights x = map (\<lambda>(task, run_id). tk_id task) (xe_inflight x)"

definition task_ids :: "executor \<Rightarrow> int list" where
  "task_ids x = map tk_id (td_tasks (xe_db x))"

definition flights_ok :: "executor \<Rightarrow> bool" where
  "flights_ok x \<longleftrightarrow> distinct (flights x) \<and> set (flights x) \<subseteq> se_running (xe_engine x) \<and> distinct (task_ids x)"

text \<open>The steps of the timer: ticks, cancellations and the ends of executions.\<close>

inductive timer_step :: "clock \<Rightarrow> (string \<Rightarrow> string) \<Rightarrow> executor \<Rightarrow> executor \<Rightarrow> bool" for ck quoted where
  TimerTick: "tick ck quoted now x = (r, x') \<Longrightarrow> timer_step ck quoted x x'"
| TimerCancel: "cancel ck actor_id run_id x = (r, x') \<Longrightarrow> timer_step ck quoted x x'"
| TimerEnds: "(task, run_id) \<in> set (xe_inflight x) \<Longrightarrow> finish_execution ck task run_id fin x = x' \<Longrightarrow> timer_step ck quoted x x'"

lemma timer_step_executor: "timer_step ck quoted x x' \<Longrightarrow> executor_step ck quoted x x'"
  by (induction rule: timer_step.induct) (auto intro: executor_step.intros)

lemma ids_set_task: "(\<And>t. tk_id (f t) = tk_id t) \<Longrightarrow> map tk_id (td_tasks (set_task j f db)) = map tk_id (td_tasks db)"
  by (rule task_ids_set_task)

lemma skipped_ids: "record_skipped_run ts now actor i reason db = (r, db') \<Longrightarrow> map tk_id (td_tasks db') = map tk_id (td_tasks db)"
  by (auto simp: record_skipped_run_def Let_def set_task_def split: sum.splits)

lemma skip_run_keeps:
  "skip_run ck i reason x = (r, x') \<Longrightarrow> flights x' = flights x \<and> xe_engine x' = xe_engine x \<and> task_ids x' = task_ids x"
  by (auto simp: skip_run_def flights_def task_ids_def dest: skipped_ids split: prod.splits)

lemma readable_tasks_keeps:
  "readable_tasks ck quoted now due x = (r, x') \<Longrightarrow>
     flights x' = flights x \<and> xe_engine x' = xe_engine x \<and> task_ids x' = task_ids x \<and>
     (\<forall>tasks. r = Inr tasks \<longrightarrow> set (map tk_id tasks) \<subseteq> set (map tk_id due) \<and> (distinct (map tk_id due) \<longrightarrow> distinct (map tk_id tasks)))"
proof (induction due arbitrary: x r x')
  case Nil
  then show ?case by auto
next
  case (Cons task due)
  show ?case
  proof (cases "quiet_hours task now")
    case (Inl e)
    obtain r1 x1 where 1: "skip_run ck (tk_id task) (unsupported_reason quoted e) x = (r1, x1)" by force
    show ?thesis
    proof (cases "r1 = Inl TaskPanic")
      case True
      with Cons.prems Inl 1 skip_run_keeps [OF 1] show ?thesis by auto
    next
      case False
      then have "readable_tasks ck quoted now due x1 = (r, x')"
        using Cons.prems Inl 1 by (auto split: sum.splits task_error.splits)
      from Cons.IH [OF this] skip_run_keeps [OF 1] show ?thesis by auto
    qed
  next
    case (Inr quiet)
    obtain r1 x1 where 1: "readable_tasks ck quoted now due x = (r1, x1)" by force
    with Cons.prems Inr have "x' = x1" "r = (case r1 of Inl e \<Rightarrow> Inl e | Inr tasks \<Rightarrow> Inr (task # tasks))"
      by (auto split: sum.splits)
    with Cons.IH [OF 1] show ?thesis by (auto split: sum.splits)
  qed
qed

lemma record_task_fired_ids: "map tk_id (td_tasks (record_task_fired ts i n db)) = map tk_id (td_tasks db)"
  by (simp add: record_task_fired_def set_task_def)

lemma create_task_run_tasks: "create_task_run ts actor i new db = (r, db') \<Longrightarrow> td_tasks db' = td_tasks db"
  by (auto simp: create_task_run_def Let_def split: sum.splits)

text \<open>What \<open>enqueue\<close> leaves: a new execution with its mark, or neither.\<close>

lemma enqueue_result:
  assumes "enqueue ck task trigger x = (r, x')"
  shows "task_ids x' = task_ids x"
    and "se_config (xe_engine x') = se_config (xe_engine x)"
    and "(\<exists>run. r = Inr run \<and> flights x' = flights x @ [tk_id task] \<and> se_running (xe_engine x') = insert (tk_id task) (se_running (xe_engine x))) \<or>
     (\<exists>e. r = Inl e \<and> flights x' = flights x \<and> se_running (xe_engine x) - {tk_id task} \<subseteq> se_running (xe_engine x'))"
proof -
  let ?x = "x\<lparr>xe_engine := mark_running (tk_id task) (xe_engine x)\<rparr>"
  obtain r1 x1 where 1: "enqueue_inner ck task trigger ?x = (r1, x1)" by force
  have inner: "task_ids x1 = task_ids x \<and> xe_engine x1 = xe_engine ?x \<and>
    flights x1 = (case r1 of Inr run \<Rightarrow> flights x @ [tk_id task] | Inl e \<Rightarrow> flights x)"
  proof (cases "next_run task (ck_seconds ck (xe_reads ?x)) = Inl Panics")
    case True
    with 1 show ?thesis by (auto simp: enqueue_inner_def Let_def flights_def task_ids_def)
  next
    case False
    define db where "db = record_task_fired (ck_text ck (xe_reads ?x)) (tk_id task)
      (next_run_text (next_run task (ck_seconds ck (xe_reads ?x)))) (xe_db ?x)"
    obtain r2 db2 where 2: "create_task_run (ck_text ck (xe_reads ?x + 1)) local_actor (tk_id task) (enqueued_run trigger task) db = (r2, db2)"
      by force
    have ids: "map tk_id (td_tasks db2) = task_ids x"
      using create_task_run_tasks [OF 2] by (simp add: db_def record_task_fired_ids task_ids_def)
    from 1 have "(r1, x1) = (case r2 of
        Inl e \<Rightarrow> (Inl e, ?x\<lparr>xe_db := db2, xe_reads := xe_reads ?x + 2\<rparr>)
      | Inr run \<Rightarrow> (Inr run, ?x\<lparr>xe_db := db2, xe_reads := xe_reads ?x + 2, xe_live := insert (tu_id run) (xe_live ?x),
                    xe_inflight := xe_inflight ?x @ [(task, tu_id run)]\<rparr>))"
      unfolding enqueue_inner_def Let_def if_not_P [OF False] db_def [symmetric] 2 prod.case by simp
    with ids show ?thesis by (auto simp: flights_def task_ids_def split: sum.splits)
  qed
  have x': "r = r1" "x' = (case r1 of Inr run \<Rightarrow> x1
      | Inl e \<Rightarrow> if e = TaskPanic then x1 else x1\<lparr>xe_engine := complete_task (tk_id task) (xe_engine x1)\<rparr>)"
    using assms 1 by (auto simp: enqueue_def split: sum.splits)
  show "task_ids x' = task_ids x" "se_config (xe_engine x') = se_config (xe_engine x)"
    using inner by (auto simp: x' task_ids_def mark_running_def complete_task_def split: sum.splits)
  show "(\<exists>run. r = Inr run \<and> flights x' = flights x @ [tk_id task] \<and> se_running (xe_engine x') = insert (tk_id task) (se_running (xe_engine x))) \<or>
     (\<exists>e. r = Inl e \<and> flights x' = flights x \<and> se_running (xe_engine x) - {tk_id task} \<subseteq> se_running (xe_engine x'))"
  proof (cases r1)
    case (Inl e)
    then have "flights x' = flights x" using inner by (simp add: x' flights_def)
    moreover have "se_running (xe_engine x) - {tk_id task} \<subseteq> se_running (xe_engine x')"
      using inner by (auto simp: x' Inl mark_running_def complete_task_def)
    ultimately show ?thesis by (simp add: x' Inl)
  next
    case (Inr run)
    with inner show ?thesis by (simp add: x' mark_running_def)
  qed
qed

lemma enqueue_keeps:
  assumes "enqueue ck task trigger x = (r, x')" "flights_ok x" "tk_id task \<notin> set (flights x)"
  shows "flights_ok x' \<and> set (flights x') \<subseteq> insert (tk_id task) (set (flights x))"
proof -
  note result = enqueue_result [OF assms(1)]
  from result(3) show ?thesis
  proof (elim disjE exE conjE)
    fix e
    assume e: "flights x' = flights x" "se_running (xe_engine x) - {tk_id task} \<subseteq> se_running (xe_engine x')"
    then have "set (flights x) \<subseteq> se_running (xe_engine x')" using assms(2,3) by (fastforce simp: flights_ok_def)
    with e result(1) assms(2) show ?thesis by (auto simp: flights_ok_def)
  qed (use result(1) assms(2,3) in \<open>auto simp: flights_ok_def\<close>)
qed

definition executed_ids :: "schedule_decision list \<Rightarrow> int list" where
  "executed_ids ds = map fst (concat (map executed ds))"

lemma executed_ids_simps [simp]:
  "executed_ids [] = []" "executed_ids (ExecuteTask i due # ds) = i # executed_ids ds"
  "executed_ids (SkipTask i reason # ds) = executed_ids ds"
  by (simp_all add: executed_ids_def)

lemma executed_ids_decided:
  "set (executed_ids ds) \<subseteq> set (map decision_task ds) \<and> (distinct (map decision_task ds) \<longrightarrow> distinct (executed_ids ds))"
proof (induction ds)
  case (Cons d ds)
  then show ?case by (cases d) auto
qed simp

lemma run_decisions_keeps:
  assumes "run_decisions ck tasks ds err x = (r, x')" "flights_ok x" "distinct (executed_ids ds)"
    and "set (executed_ids ds) \<inter> set (flights x) = {}"
  shows "flights_ok x'"
  using assms
proof (induction ds arbitrary: err x)
  case Nil
  then show ?case by simp
next
  case (Cons d ds)
  show ?case
  proof (cases d)
    case (SkipTask i reason)
    obtain r1 x1 where 1: "skip_run ck i reason x = (r1, x1)" by force
    have ok: "flights_ok x1" "flights x1 = flights x" using skip_run_keeps [OF 1] Cons.prems(2) by (simp_all add: flights_ok_def)
    have "x' = x1 \<or> (\<exists>err. run_decisions ck tasks ds err x1 = (r, x'))"
      using Cons.prems(1) SkipTask 1 by (cases r1) (auto split: task_error.splits)
    then show ?thesis
    proof
      assume "\<exists>err. run_decisions ck tasks ds err x1 = (r, x')"
      then show ?thesis using Cons.IH [OF _ ok(1)] Cons.prems(3,4) ok(2) SkipTask by auto
    qed (use ok in simp)
  next
    case (ExecuteTask i due)
    show ?thesis
    proof (cases "find (\<lambda>t. tk_id t = i) tasks")
      case None
      let ?x = "x\<lparr>xe_engine := complete_task i (xe_engine x)\<rparr>"
      have "flights_ok ?x" using Cons.prems(2,4) ExecuteTask
        by (auto simp: flights_ok_def flights_def task_ids_def complete_task_def)
      moreover have "flights ?x = flights x" by (simp add: flights_def)
      moreover have "run_decisions ck tasks ds err ?x = (r, x')" using Cons.prems(1) ExecuteTask None by simp
      ultimately show ?thesis using Cons.IH [of err ?x] Cons.prems(3,4) ExecuteTask by simp
    next
      case (Some task)
      then have id: "tk_id task = i" by (auto dest: find_Some_in)
      obtain r1 x1 where 1: "enqueue ck task ''schedule'' x = (r1, x1)" by force
      have "tk_id task \<notin> set (flights x)" using Cons.prems(4) ExecuteTask id by simp
      from enqueue_keeps [OF 1 Cons.prems(2) this] have ok: "flights_ok x1" "set (flights x1) \<subseteq> insert i (set (flights x))"
        by (simp_all add: id)
      have disjoint: "set (executed_ids ds) \<inter> set (flights x1) = {}" using ok(2) Cons.prems(3,4) ExecuteTask by auto
      have "x' = x1 \<or> (\<exists>err. run_decisions ck tasks ds err x1 = (r, x'))"
        using Cons.prems(1) ExecuteTask Some 1 by (cases r1) (auto split: task_error.splits)
      then show ?thesis
        using Cons.IH [OF _ ok(1) _ disjoint] Cons.prems(3) ExecuteTask ok(1) by auto
    qed
  qed
qed

lemma distinct_due: "distinct (map tk_id (td_tasks db)) \<Longrightarrow> distinct (map tk_id (list_due_tasks now db))"
proof -
  assume "distinct (map tk_id (td_tasks db))"
  then have "distinct (map tk_id (filter P (td_tasks db)))" for P by (rule distinct_map_filter)
  then have "distinct (map tk_id (sort_key k (sort_key tk_id (filter P (td_tasks db)))))" for P and k :: "scheduled_task \<Rightarrow> string"
    by (simp add: distinct_map)
  then show "distinct (map tk_id (list_due_tasks now db))"
    unfolding list_due_tasks_def by (rule distinct_map_filter)
qed

lemma tick_keeps:
  assumes "tick ck quoted now x = (r, x')" "flights_ok x" shows "flights_ok x'"
proof -
  obtain r1 x1 where 1: "readable_tasks ck quoted now (list_due_tasks now (xe_db x)) x = (r1, x1)" by force
  note keeps = readable_tasks_keeps [OF 1]
  have ok1: "flights_ok x1" using keeps assms(2) by (simp add: flights_ok_def)
  show ?thesis
  proof (cases r1)
    case (Inl e)
    with assms(1) 1 ok1 show ?thesis by (simp add: tick_def)
  next
    case (Inr tasks)
    obtain r2 engine where 2: "plan tasks now (xe_engine x1) = (r2, engine)" by force
    show ?thesis
    proof (cases r2)
      case (Inl e)
      with 2 have "engine = xe_engine x1" by (auto simp: plan_def split: sum.splits prod.splits)
      with assms(1) 1 \<open>r1 = Inr tasks\<close> 2 Inl have "x' = x1" by (simp add: tick_def)
      with ok1 show ?thesis by simp
    next
      case (Inr ds)
      from 2 Inr have p: "plan tasks now (xe_engine x1) = (Inr ds, engine)" by simp
      let ?x = "x1\<lparr>xe_engine := engine\<rparr>"
      have run: "run_decisions ck tasks ds None ?x = (r, x')" using assms(1) 1 \<open>r1 = Inr tasks\<close> p by (simp add: tick_def)
      have "distinct (map tk_id (list_due_tasks now (xe_db x)))"
        using assms(2) by (intro distinct_due) (simp add: flights_ok_def task_ids_def)
      with keeps \<open>r1 = Inr tasks\<close> have "distinct (map tk_id tasks)" by simp
      then have "distinct (map tk_id (filter (due_now now) tasks))" by (rule distinct_map_filter)
      then have distinct: "distinct (executed_ids ds)"
        using plan_result(1) [OF p] executed_ids_decided [of ds] by simp
      have "i \<notin> se_running (xe_engine x1)" if "i \<in> set (executed_ids ds)" for i
      proof -
        from that obtain due where "ExecuteTask i due \<in> set ds" by (auto simp: executed_ids_def in_executed)
        from plan_result(2) [OF p this] show ?thesis by (auto simp: may_execute_def)
      qed
      then have "set (executed_ids ds) \<inter> set (flights ?x) = {}"
        using ok1 by (auto simp: flights_ok_def flights_def)
      moreover have "flights_ok ?x" using ok1 plan_result(3) [OF p] by (auto simp: flights_ok_def flights_def task_ids_def)
      ultimately show ?thesis using run_decisions_keeps [OF run _ distinct] by blast
    qed
  qed
qed

lemma finish_writes_keeps:
  "finish_writes ck task run_id fin x = (r, x') \<Longrightarrow>
     xe_inflight x' = xe_inflight x \<and> xe_engine x' = xe_engine x \<and> task_ids x' = task_ids x"
proof -
  have run: "td_tasks (snd (finish_task_run ts actor run_id fin db)) = td_tasks db" for ts actor db
    by (simp add: finish_task_run_def Let_def set_task_run_def split: sum.splits)
  have outcome: "map tk_id (td_tasks db') = map tk_id (td_tasks db)"
    if "record_task_outcome ts now i status success m db = (r', db')" for ts now i status success m db r' db'
    using that by (auto simp: record_task_outcome_def reschedule_def set_next_run_def set_task_def Let_def split: sum.splits)
  assume "finish_writes ck task run_id fin x = (r, x')"
  then show "xe_inflight x' = xe_inflight x \<and> xe_engine x' = xe_engine x \<and> task_ids x' = task_ids x"
    by (auto simp: finish_writes_def Let_def task_ids_def run dest: outcome split: prod.splits)
qed

lemma map_remove1:
  "a \<in> set xs \<Longrightarrow> count_list (map f (remove1 a xs)) b = count_list (map f xs) b - (if b = f a then 1 else 0)"
proof (induction xs)
  case (Cons x xs)
  have "count_list (map f xs) (f a) \<noteq> 0" if "a \<in> set xs" using that by (simp add: count_list_0_iff)
  with Cons show ?case by (cases "x = a"; cases "f x = b") auto
qed simp

lemma distinct_remove1_map:
  "distinct (map f xs) \<Longrightarrow> a \<in> set xs \<Longrightarrow>
     distinct (map f (remove1 a xs)) \<and> set (map f (remove1 a xs)) = set (map f xs) - {f a}"
proof (induction xs)
  case (Cons x xs)
  then show ?case by (cases "x = a") auto
qed simp

lemma finish_execution_keeps:
  assumes "(task, run_id) \<in> set (xe_inflight x)" "finish_execution ck task run_id fin x = x'" "flights_ok x"
  shows "flights_ok x'"
proof -
  obtain r x1 where 1: "finish_writes ck task run_id fin x = (r, x1)" by force
  note keeps = finish_writes_keeps [OF 1]
  have x': "xe_inflight x' = remove1 (task, run_id) (xe_inflight x)" "task_ids x' = task_ids x"
    "se_running (xe_engine x) - {tk_id task} \<subseteq> se_running (xe_engine x')"
    using assms(2) 1 keeps by (auto simp: finish_execution_def Let_def task_ids_def complete_task_def split: if_splits)
  have "distinct (flights x') \<and> set (flights x') = set (flights x) - {tk_id task}"
    using distinct_remove1_map [OF _ assms(1), of "\<lambda>(task, run_id). tk_id task"] assms(3)
    by (simp add: flights_def x'(1) flights_ok_def)
  with x' assms(3) show ?thesis by (auto simp: flights_ok_def)
qed

lemma cancel_keeps_flights: "cancel ck actor_id run_id x = (r, x') \<Longrightarrow> flights_ok x \<Longrightarrow> flights_ok x'"
proof -
  assume 1: "cancel ck actor_id run_id x = (r, x')" and ok: "flights_ok x"
  obtain r1 db1 where c: "cancel_task_run (ck_text ck (xe_reads x)) actor_id run_id (xe_db x) = (r1, db1)" by force
  then have "td_tasks db1 = td_tasks (xe_db x)"
    by (auto simp: cancel_task_run_def set_task_run_def Let_def split: sum.splits if_splits)
  moreover have "x' = x\<lparr>xe_db := db1, xe_live := xe_live x - {run_id}, xe_reads := xe_reads x + 1\<rparr>"
    using 1 c by (simp add: cancel_def)
  ultimately have "flights x' = flights x \<and> xe_engine x' = xe_engine x \<and> task_ids x' = task_ids x"
    by (simp add: flights_def task_ids_def)
  with ok show "flights_ok x'" by (simp add: flights_ok_def)
qed

lemma timer_step_keeps: "timer_step ck quoted x x' \<Longrightarrow> flights_ok x \<Longrightarrow> flights_ok x'"
  by (induction rule: timer_step.induct) (blast intro: tick_keeps cancel_keeps_flights finish_execution_keeps)+


section \<open>Manual runs\<close>

lemma run_now_flights:
  assumes "run_now ck actor i x = (Inr run, x')"
  shows "flights x' = flights x @ [i]" "se_running (xe_engine x') = insert i (se_running (xe_engine x))"
proof -
  obtain task where task: "require_task (xe_db x) actor i = Inr task" and e: "enqueue ck task ''manual'' x = (Inr run, x')"
    using assms by (auto simp: run_now_def split: sum.splits)
  have "tk_id task = i" using task by (auto simp: require_task_def res_simps split: if_splits dest: fetch_task_Inr)
  with enqueue_result(3) [OF e] show "flights x' = flights x @ [i]"
    "se_running (xe_engine x') = insert i (se_running (xe_engine x))" by auto
qed

text \<open>Property C34. Two manual runs of a task are both in flight, and the end of one clears the mark of the task while the other still runs: the next tick may start the task again.\<close>

theorem manual_run_end_clears_mark:
  assumes "run_now ck actor i x = (Inr run1, x1)" "run_now ck actor i x1 = (Inr run2, x2)"
    and "(task, run_id) \<in> set (xe_inflight x2)" "tk_id task = i"
    and "fst (finish_writes ck task run_id fin x2) \<noteq> Inl TaskPanic"
  shows "i \<in> set (flights (finish_execution ck task run_id fin x2)) \<and>
    i \<notin> se_running (xe_engine (finish_execution ck task run_id fin x2))"
proof -
  let ?x3 = "finish_execution ck task run_id fin x2"
  obtain r x where 1: "finish_writes ck task run_id fin x2 = (r, x)" by force
  note keeps = finish_writes_keeps [OF 1]
  have x3: "xe_inflight ?x3 = remove1 (task, run_id) (xe_inflight x2)" "i \<notin> se_running (xe_engine ?x3)"
    using 1 keeps assms(4,5) by (simp_all add: finish_execution_def complete_task_def)
  have "2 \<le> count_list (flights x2) i"
    using run_now_flights(1) [OF assms(1)] run_now_flights(1) [OF assms(2)] by simp
  then have "0 < count_list (flights ?x3) i"
    using map_remove1 [OF assms(3), of "\<lambda>(task, run_id). tk_id task" i] assms(4) by (simp add: flights_def x3(1))
  then have "i \<in> set (flights ?x3)" by (metis count_notin less_irrefl)
  with x3(2) show ?thesis by blast
qed

section \<open>One-shot tasks\<close>

lemma plan_overlap:
  assumes "efold (plan_task engine now) tasks (ds, rs) = Inr (ds', rs')" "t \<in> set tasks" "due_now now t"
    and "quiet_hours t now = Inr False" "tk_id t \<in> se_running engine"
  shows "SkipTask (tk_id t) ''overlap'' \<in> set ds'"
  using assms
proof (induction tasks arbitrary: ds rs)
  case Nil
  then show ?case by simp
next
  case (Cons task tasks)
  then obtain ds1 rs1 where 1: "plan_task engine now task (ds, rs) = Inr (ds1, rs1)"
    and 2: "efold (plan_task engine now) tasks (ds1, rs1) = Inr (ds', rs')" by (auto simp: res_simps)
  show ?case
  proof (cases "t = task")
    case True
    with 1 Cons.prems(3-5) have "SkipTask (tk_id t) ''overlap'' \<in> set ds1"
      by (auto simp: plan_task_def due_now_def split: option.splits if_splits)
    moreover have "set ds1 \<subseteq> set ds'" using plan_fold_result [OF 2] by auto
    ultimately show ?thesis by blast
  next
    case False
    with Cons.IH [OF 2] Cons.prems(2-5) show ?thesis by simp
  qed
qed

text \<open>Property C35. A one-shot task stays due while its run is in flight: at the next tick the engine does not leave it alone but plans to record an overlap, a skipped run that never was.\<close>

theorem one_shot_task_overlaps_itself:
  assumes "task \<in> set (list_due_tasks now (xe_db x))" "tk_trigger_type task = ''date''" "tk_run_at task = tk_next_run_at task"
    and "enqueue ck task ''schedule'' x = (Inr run, x1)" "now \<le> ck_seconds ck (xe_reads x)"
    and "now \<le> now'" "quiet_hours task now' = Inr False"
    and "plan (list_due_tasks now' (xe_db x1)) now' (xe_engine x1) = (Inr ds, engine)"
  shows "SkipTask (tk_id task) ''overlap'' \<in> set ds"
proof -
  let ?n = "xe_reads x" and ?x = "x\<lparr>xe_engine := mark_running (tk_id task) (xe_engine x)\<rparr>"
  from assms(1) obtain due where row: "task \<in> set (td_tasks (xe_db x))" "tk_enabled task" and due: "due_time task = Some due" "due \<le> now"
    by (auto simp: set_list_due_tasks due_now_def split: option.splits)
  have quiet: "next_run_text (next_run task (ck_seconds ck ?n)) = None \<and> next_run task (ck_seconds ck ?n) \<noteq> Inl Panics"
  proof (cases "timezone_offset (tk_timezone task)")
    case (Inl e)
    then show ?thesis by (simp add: next_run_def refused_def next_run_text_def)
  next
    case (Inr offset)
    from due(1) obtain v where v: "tk_next_run_at task = Some v" "parse_python_datetime v = Some due"
      by (auto simp: due_time_def split: option.splits)
    then have "trigger_from_task task = Inr (DateTrigger due)" using assms(2,3) by (simp add: trigger_from_task_def)
    with Inr due(2) assms(5) show ?thesis by (simp add: next_run_def refused_def next_run_text_def)
  qed
  define row' where "row' = task\<lparr>tk_last_run_at := Some (ck_text ck ?n), tk_last_status := Some ''running'',
    tk_run_count := tk_run_count task + 1, tk_updated_at := ck_text ck ?n\<rparr>"
  define db where "db = record_task_fired (ck_text ck ?n) (tk_id task) None (xe_db x)"
  obtain r2 db2 where 2: "create_task_run (ck_text ck (?n + 1)) local_actor (tk_id task) (enqueued_run ''schedule'' task) db = (r2, db2)"
    by force
  have "td_tasks (xe_db x1) = td_tasks db2"
    using assms(4) quiet 2 by (auto simp: enqueue_def enqueue_inner_def Let_def db_def split: sum.splits if_splits)
  then have tasks: "td_tasks (xe_db x1) = td_tasks db" using create_task_run_tasks [OF 2] by simp
  have "row' \<in> set (td_tasks db)"
    using row(1) by (auto simp: db_def record_task_fired_def set_task_def row'_def intro!: rev_image_eqI [of task])
  moreover have "due_now now' row'" using row(2) due assms(6) by (simp add: due_now_def due_time_def row'_def)
  ultimately have listed: "row' \<in> set (list_due_tasks now' (xe_db x1))" by (simp add: set_list_due_tasks tasks)
  have "tk_quiet_hours_start row' = tk_quiet_hours_start task" "tk_quiet_hours_end row' = tk_quiet_hours_end task"
    "tk_timezone row' = tk_timezone task" by (simp_all add: row'_def)
  then have "quiet_hours row' now' = Inr False" using assms(7) by (simp only: quiet_hours_def)
  moreover have "tk_id row' \<in> se_running (xe_engine x1)" using enqueue_result(3) [OF assms(4)] by (auto simp: row'_def)
  moreover obtain rs where "efold (plan_task (xe_engine x1) now') (list_due_tasks now' (xe_db x1)) ([], []) = Inr (ds, rs)"
    using assms(8) by (auto simp: plan_def split: sum.splits prod.splits)
  ultimately have "SkipTask (tk_id row') ''overlap'' \<in> set ds"
    using plan_overlap listed \<open>due_now now' row'\<close> by blast
  then show ?thesis by (simp add: row'_def)
qed

end
