(* ===== verification/Executor_Samples.thy ===== *)
theory Executor_Samples
  imports Executor_Claims
begin

text \<open>
  Concrete tasks and tables on which the properties of the scheduler and the executor are
  applied: a task that runs every hour, a task that runs once, and the tables that hold them.
\<close>

section \<open>Samples\<close>

definition sample_clock :: clock where
  "sample_clock = \<lparr>ck_text = (\<lambda>_. ''2023-11-14 22:15:23.000000''), ck_seconds = (\<lambda>n. 1700000200)\<rparr>"

definition hourly_task :: scheduled_task where
  "hourly_task = (schedule_probe ''interval'' None (Some 3600) None ''UTC'')
     \<lparr>tk_id := 7, tk_user_id := 1, tk_next_run_at := Some (python_datetime 1700000123 0)\<rparr>"

definition once_task :: scheduled_task where
  "once_task = (schedule_probe ''date'' None None (Some (python_datetime 1700000123 0)) ''UTC'')
     \<lparr>tk_id := 7, tk_user_id := 1, tk_next_run_at := Some (python_datetime 1700000123 0)\<rparr>"

definition sample_user :: user_row where
  "sample_user = \<lparr>us_row_id = 1, us_external_id = Some ''local'', us_username = Some ''local''\<rparr>"

definition table_with :: "scheduled_task \<Rightarrow> task_db" where
  "table_with task = \<lparr>td_actors = None, td_users = [sample_user], td_tasks = [task], td_runs = []\<rparr>"

lemma sample_user_resolves: "td_users db = [sample_user] \<Longrightarrow> td_actors db = None \<Longrightarrow> resolve_user db local_actor = Inr 1"
  by (simp add: resolve_user_def sample_user_def local_actor_def Let_def)

lemma utc: "timezone_offset ''UTC'' = Inr 0"
proof -
  have "to_lower ''UTC'' = ''utc''" by code_simp
  then show ?thesis by (simp add: timezone_offset_def plain_text Let_def)
qed

lemma hourly_facts:
  "tk_id hourly_task = 7" "tk_user_id hourly_task = 1" "tk_enabled hourly_task" "tk_timezone hourly_task = ''UTC''"
  "tk_quiet_hours_start hourly_task = None" "tk_trigger_type hourly_task = ''interval''"
  "tk_failure_count hourly_task = 0" "tk_misfire_policy hourly_task = ''skip''"
  by (simp_all add: hourly_task_def schedule_probe_def)

lemma once_facts:
  "tk_id once_task = 7" "tk_user_id once_task = 1" "tk_enabled once_task" "tk_timezone once_task = ''UTC''"
  "tk_quiet_hours_start once_task = None" "tk_trigger_type once_task = ''date''"
  "tk_run_at once_task = tk_next_run_at once_task"
  by (simp_all add: once_task_def schedule_probe_def)

lemma sample_due: "due_time hourly_task = Some 1700000123" "due_time once_task = Some 1700000123"
  by (simp_all add: due_time_def hourly_task_def once_task_def parse_python_datetime_inverse printable_time_def)

text \<open>A row that differs from the hourly task only in its history is scheduled as it is.\<close>

lemma hourly_next_run:
  assumes "tk_trigger_type t = ''interval''" "tk_interval_seconds t = Some 3600" "tk_timezone t = ''UTC''"
  shows "next_run t 1700000200 = Inr (Some 1700003800)"
  using assms by (simp add: next_run_def refused_def utc trigger_from_task_def)

section \<open>The engine\<close>

definition sample_engine :: scheduler where "sample_engine = new_scheduler default_scheduler_config"

lemma hourly_plan:
  "plan [hourly_task] 1700000200 sample_engine = (Inr [ExecuteTask 7 1700000123], reserve sample_engine (7, 1700000123))"
  by (simp add: plan_def plan_task_def hourly_facts sample_due quiet_hours_def parse_hhmm_def sample_engine_def
      new_scheduler_def default_scheduler_config_def)

theorem engine_waits_for_completion_witness:
  "\<not> executes (fst (engine_step (Plan [hourly_task] 1700000260) (reserve sample_engine (7, 1700000123)))) 7"
proof -
  obtain out e where o: "engine_step (Plan [hourly_task] 1700000260) (reserve sample_engine (7, 1700000123)) = (out, e)"
    by force
  have 1: "engine_step (Plan [hourly_task] 1700000200) sample_engine = ([ExecuteTask 7 1700000123], reserve sample_engine (7, 1700000123))"
    by (simp add: hourly_plan)
  have 2: "engine_history [Plan [hourly_task] 1700000260] (reserve sample_engine (7, 1700000123)) = ([out], e)"
    by (simp add: o del: engine_step.simps)
  show ?thesis using engine_waits_for_completion [OF 1 _ 2, of 7] by (simp add: executes_def o del: engine_step.simps)
qed

theorem plan_decides_each_due_task_witness:
  "se_running (reserve sample_engine (7, 1700000123)) = se_running sample_engine \<union> {i. executes [ExecuteTask 7 1700000123] i}"
  using plan_decides_each_due_task [OF hourly_plan] by blast

lemma quiet_texts: "parse_hhmm (Some ''22:00'') = Some 1320" "parse_hhmm (Some ''07:30'') = Some 450"
  by (simp_all add: parse_hhmm_def plain_text parse_i64_def parse_unsigned_def is_digit_def digit_val_def Let_def)

theorem quiet_windows_partition_the_day_witness:
  "\<exists>quiet. quiet_hours (hourly_task\<lparr>tk_quiet_hours_start := Some ''22:00'', tk_quiet_hours_end := Some ''07:30''\<rparr>) 1700000200 = Inr quiet \<and>
     quiet_hours (hourly_task\<lparr>tk_quiet_hours_start := Some ''07:30'', tk_quiet_hours_end := Some ''22:00''\<rparr>) 1700000200 = Inr (\<not> quiet)"
  using quiet_windows_partition_the_day [OF quiet_texts, of hourly_task 0] by (simp add: hourly_facts utc)

section \<open>The tables\<close>

lemma table_facts:
  "tk_id t = 7 \<Longrightarrow> fetch_task (table_with t) 7 = Inr t"
  "tk_id t = 7 \<Longrightarrow> set_task 7 f (table_with t) = table_with (f t)"
  by (simp_all add: fetch_task_def table_with_def set_task_def)

lemma table_reschedule:
  assumes "tk_id t = 7" "tk_enabled t" "tk_trigger_type t = ''interval''" "tk_interval_seconds t = Some 3600" "tk_timezone t = ''UTC''"
  shows "reschedule 7 1700000200 (table_with t) =
     (Inr (t\<lparr>tk_next_run_at := Some (python_datetime 1700003800 0)\<rparr>),
      table_with (t\<lparr>tk_next_run_at := Some (python_datetime 1700003800 0)\<rparr>))"
proof -
  have "compute_next_run t 1700000200 = Inr (Some (python_datetime 1700003800 0))"
    by (simp add: compute_next_run_def faulted_def hourly_next_run [OF assms(3-5)])
  with assms(1,2) show ?thesis by (simp add: reschedule_def table_facts set_next_run_def)
qed

lemma hourly_fields: "tk_interval_seconds hourly_task = Some 3600"
  by (simp add: hourly_task_def schedule_probe_def)

lemma hourly_reschedule:
  "reschedule 7 1700000200 (table_with hourly_task) =
     (Inr (hourly_task\<lparr>tk_next_run_at := Some (python_datetime 1700003800 0)\<rparr>),
      table_with (hourly_task\<lparr>tk_next_run_at := Some (python_datetime 1700003800 0)\<rparr>))"
  by (rule table_reschedule) (simp_all add: hourly_facts hourly_fields)

theorem rescheduled_task_is_due_at_next_run_witness:
  "hourly_task\<lparr>tk_next_run_at := Some (python_datetime 1700003800 0)\<rparr> \<in>
     set (list_due_tasks 1700003800 (table_with (hourly_task\<lparr>tk_next_run_at := Some (python_datetime 1700003800 0)\<rparr>)))"
  using rescheduled_task_is_due_at_next_run [OF hourly_reschedule, of 1700003800 1700003800]
  by (simp add: hourly_facts hourly_next_run printable_time_def) (simp add: hourly_task_def schedule_probe_def hourly_next_run)

text \<open>Five failures of the hourly task, at one reading of the clock.\<close>

definition failing :: "nat \<Rightarrow> scheduled_task" where
  "failing n = hourly_task\<lparr>tk_last_status := Some ''failed'', tk_last_run_at := Some (ck_text sample_clock 0),
     tk_failure_count := int n, tk_enabled := True, tk_updated_at := ck_text sample_clock 0,
     tk_next_run_at := Some (python_datetime 1700003800 0)\<rparr>"

lemma first_failure:
  "record_task_outcome (ck_text sample_clock 0) 1700000200 7 ''failed'' False 2 (table_with hourly_task) =
     (Inr (failing 1), table_with (failing 1))"
  by (simp add: record_task_outcome_def table_facts hourly_facts Let_def outcome_enabled_def table_reschedule hourly_fields
      failing_def)

lemma second_failure:
  "\<exists>task. record_task_outcome (ck_text sample_clock 0) 1700000200 7 ''failed'' False 2 (table_with (failing 1)) =
     (Inr task, table_with task)"
  by (simp add: record_task_outcome_def table_facts failing_def hourly_facts Let_def outcome_enabled_def reschedule_def set_next_run_def)

theorem failures_disable_at_ceiling_witness:
  "\<exists>task db'. record_failures [(ck_text sample_clock 0, 1700000200), (ck_text sample_clock 0, 1700000200)] 7 2 (table_with hourly_task) =
     (Inr task, db') \<and> tk_failure_count task = 2 \<and> \<not> tk_enabled task \<and> tk_next_run_at task = None"
proof -
  obtain task where t: "record_task_outcome (ck_text sample_clock 0) 1700000200 7 ''failed'' False 2 (table_with (failing 1)) =
     (Inr task, table_with task)" using second_failure by blast
  from t have "fetch_task (table_with task) 7 = Inr task" by (rule record_task_outcome_result) simp
  then have r: "record_failures [(ck_text sample_clock 0, 1700000200), (ck_text sample_clock 0, 1700000200)] 7 2 (table_with hourly_task) =
     (Inr task, table_with task)" by (simp add: first_failure t del: One_nat_def)
  have "fetch_task (table_with hourly_task) 7 = Inr hourly_task" by (simp add: fetch_task_def table_with_def hourly_facts)
  from failures_disable_at_ceiling [OF r this] r show ?thesis by (simp add: hourly_facts)
qed


section \<open>The executor\<close>

definition sample_executor :: "scheduled_task \<Rightarrow> executor" where
  "sample_executor task = new_executor default_scheduler_config (table_with task)"


text \<open>The tables of an executor that hold one hourly row, whatever ran before.\<close>

definition hourly_row :: "scheduled_task \<Rightarrow> bool" where
  "hourly_row t \<longleftrightarrow> tk_id t = 7 \<and> tk_user_id t = 1 \<and> tk_trigger_type t = ''interval'' \<and>
     tk_interval_seconds t = Some 3600 \<and> tk_timezone t = ''UTC''"

definition hourly_tables :: "task_db \<Rightarrow> bool" where
  "hourly_tables db \<longleftrightarrow> td_actors db = None \<and> td_users db = [sample_user] \<and> (\<exists>t. hourly_row t \<and> td_tasks db = [t])"

lemma hourly_run_now:
  assumes "hourly_tables (xe_db x)"
  shows "\<exists>run task x'. run_now sample_clock local_actor 7 x = (Inr run, x') \<and> hourly_tables (xe_db x') \<and>
    (task, tu_id run) \<in> set (xe_inflight x') \<and> tk_id task = 7"
proof -
  from assms obtain t where db: "td_actors (xe_db x) = None" "td_users (xe_db x) = [sample_user]" "td_tasks (xe_db x) = [t]"
    and t: "tk_id t = 7" "tk_user_id t = 1" "tk_trigger_type t = ''interval''" "tk_interval_seconds t = Some 3600" "tk_timezone t = ''UTC''"
    by (auto simp: hourly_tables_def hourly_row_def)
  have run: "next_run t (ck_seconds sample_clock n) = Inr (Some 1700003800)" for n
    using hourly_next_run [OF t(3-5)] by (simp add: sample_clock_def)
  have req: "require_task (xe_db x) local_actor 7 = Inr t"
    by (simp add: require_task_def fetch_task_def db t sample_user_resolves)
  define row where "row = t\<lparr>tk_next_run_at := Some (python_datetime 1700003800 0), tk_last_run_at := Some (ck_text sample_clock (xe_reads x)),
    tk_last_status := Some ''running'', tk_run_count := tk_run_count t + 1, tk_updated_at := ck_text sample_clock (xe_reads x)\<rparr>"
  define db1 where "db1 = record_task_fired (ck_text sample_clock (xe_reads x)) 7 (Some (python_datetime 1700003800 0)) (xe_db x)"
  have db1: "td_actors db1 = None" "td_users db1 = [sample_user]" "td_tasks db1 = [row]" "tk_id row = 7" "tk_user_id row = 1"
    by (simp_all add: db1_def record_task_fired_def set_task_def db t row_def)
  have req1: "require_task db1 local_actor 7 = Inr row"
    by (simp add: require_task_def fetch_task_def db1 sample_user_resolves)
  have "hourly_row row" using t by (simp add: hourly_row_def row_def)
  then show ?thesis
    using t by (simp add: run_now_def req enqueue_def enqueue_inner_def Let_def run next_run_text_def db1_def [symmetric]
        create_task_run_def req1 hourly_tables_def db1) blast
qed

lemma hourly_finish_writes:
  assumes "hourly_tables (xe_db x)" "tk_id task = 7"
  shows "fst (finish_writes sample_clock task run_id fin x) \<noteq> Inl TaskPanic"
proof -
  have "td_tasks (snd (finish_task_run ts actor run_id fin db)) = td_tasks db" for ts actor db
    by (simp add: finish_task_run_def Let_def set_task_run_def split: sum.splits)
  moreover from assms(1) obtain t where t: "hourly_row t" and "td_tasks (xe_db x) = [t]" by (auto simp: hourly_tables_def)
  moreover define db where "db = snd (finish_task_run (ck_text sample_clock (xe_reads x)) local_actor run_id fin (xe_db x))"
  ultimately have db: "td_tasks db = [t]" by simp
  have w: "fst (finish_writes sample_clock task run_id fin x) = fst (record_task_outcome (ck_text sample_clock (xe_reads x + 1))
      (ck_seconds sample_clock (xe_reads x + 1)) 7 (rf_status fin) (rf_status fin \<noteq> ''failed'')
      (sg_max_consecutive_failures (se_config (xe_engine x))) db)"
    by (simp add: finish_writes_def Let_def case_prod_unfold db_def assms(2))
  have "compute_next_run t' (ck_seconds sample_clock n) = Inr (Some (python_datetime 1700003800 0))"
    if "tk_trigger_type t' = ''interval''" "tk_interval_seconds t' = Some 3600" "tk_timezone t' = ''UTC''" for t' n
    using hourly_next_run [OF that] by (simp add: compute_next_run_def faulted_def sample_clock_def)
  with t db show ?thesis
    by (auto simp: w record_task_outcome_def fetch_task_def set_task_def Let_def reschedule_def hourly_row_def split: sum.splits)
qed

theorem manual_run_end_clears_mark_witness:
  "\<exists>run1 x1 run2 x2 task run_id. run_now sample_clock local_actor 7 (sample_executor hourly_task) = (Inr run1, x1) \<and>
     run_now sample_clock local_actor 7 x1 = (Inr run2, x2) \<and>
     7 \<in> set (flights (finish_execution sample_clock task run_id (fail_finish ''boom'' 5) x2)) \<and>
     7 \<notin> se_running (xe_engine (finish_execution sample_clock task run_id (fail_finish ''boom'' 5) x2))"
proof -
  have "hourly_tables (xe_db (sample_executor hourly_task))"
    by (simp add: hourly_tables_def hourly_row_def sample_executor_def new_executor_def table_with_def hourly_facts hourly_fields)
  from hourly_run_now [OF this] obtain run1 x1 where 1: "run_now sample_clock local_actor 7 (sample_executor hourly_task) = (Inr run1, x1)"
    "hourly_tables (xe_db x1)" by blast
  from hourly_run_now [OF 1(2)] obtain run2 x2 task where 2: "run_now sample_clock local_actor 7 x1 = (Inr run2, x2)"
    "hourly_tables (xe_db x2)" "(task, tu_id run2) \<in> set (xe_inflight x2)" "tk_id task = 7" by blast
  from manual_run_end_clears_mark [OF 1(1) 2(1,3,4) hourly_finish_writes [OF 2(2,4)]] 1(1) 2(1) show ?thesis by blast
qed

section \<open>A task that runs once\<close>

lemma once_enqueue:
  "\<exists>run x1. enqueue sample_clock once_task ''schedule'' (sample_executor once_task) = (Inr run, x1) \<and>
     td_tasks (xe_db x1) = [once_task\<lparr>tk_last_run_at := Some (ck_text sample_clock 0), tk_last_status := Some ''running'',
       tk_run_count := 1, tk_updated_at := ck_text sample_clock 0\<rparr>] \<and> 7 \<in> se_running (xe_engine x1)"
proof -
  have run: "next_run once_task 1700000200 = Inr None"
    by (simp add: next_run_def refused_def utc once_facts trigger_from_task_def)
      (simp add: once_task_def schedule_probe_def parse_python_datetime_inverse printable_time_def)
  have n: "ck_seconds sample_clock n = 1700000200" for n by (simp add: sample_clock_def)
  have count: "tk_run_count once_task = 0" by (simp add: once_task_def schedule_probe_def)
  define row where "row = once_task\<lparr>tk_last_run_at := Some (ck_text sample_clock 0), tk_last_status := Some ''running'',
    tk_run_count := 1, tk_updated_at := ck_text sample_clock 0\<rparr>"
  have fired: "record_task_fired (ck_text sample_clock 0) 7 None (table_with once_task) = table_with row"
    by (simp add: record_task_fired_def table_facts once_facts row_def count)
  have "tk_id row = 7" "tk_user_id row = 1" by (simp_all add: row_def once_facts)
  then have req: "require_task (table_with row) local_actor 7 = Inr row"
    by (simp add: require_task_def table_facts) (simp add: table_with_def sample_user_resolves)
  show ?thesis unfolding row_def [symmetric]
    by (simp add: enqueue_def enqueue_inner_def sample_executor_def new_executor_def Let_def run n next_run_text_def
        once_facts fired create_task_run_def req mark_running_def) (simp add: table_with_def)
qed

theorem one_shot_task_overlaps_itself_witness:
  "\<exists>run x1 ds engine. enqueue sample_clock once_task ''schedule'' (sample_executor once_task) = (Inr run, x1) \<and>
     plan (list_due_tasks 1700000230 (xe_db x1)) 1700000230 (xe_engine x1) = (Inr ds, engine) \<and>
     SkipTask 7 ''overlap'' \<in> set ds"
proof -
  obtain run x1 row where e: "enqueue sample_clock once_task ''schedule'' (sample_executor once_task) = (Inr run, x1)"
    and tasks: "td_tasks (xe_db x1) = [row]" and marked: "7 \<in> se_running (xe_engine x1)"
    and row: "row = once_task\<lparr>tk_last_run_at := Some (ck_text sample_clock 0), tk_last_status := Some ''running'',
       tk_run_count := 1, tk_updated_at := ck_text sample_clock 0\<rparr>"
    using once_enqueue by blast
  have quiet: "quiet_hours once_task now = Inr False" "quiet_hours row now = Inr False" for now
    by (simp_all add: quiet_hours_def parse_hhmm_def once_facts row)
  have due: "due_time row = Some 1700000123" "tk_enabled row" "tk_id row = 7"
    using sample_due(2) by (simp_all add: due_time_def once_facts row)
  have step: "\<exists>acc'. plan_task (xe_engine x1) 1700000230 row acc = Inr acc'" for acc
    by (cases acc) (simp add: plan_task_def due quiet(2) marked)
  have only: "set (list_due_tasks 1700000230 (xe_db x1)) \<subseteq> {row}" by (auto simp: set_list_due_tasks tasks)
  have "\<exists>acc'. efold (plan_task (xe_engine x1) 1700000230) ts acc = Inr acc'" if "set ts \<subseteq> {row}" for ts acc
    using that
  proof (induction ts arbitrary: acc)
    case (Cons t ts)
    then have "t = row" by simp
    with step [of acc] Cons show ?case by auto
  qed simp
  from this [OF only] obtain ds rs where
    "efold (plan_task (xe_engine x1) 1700000230) (list_due_tasks 1700000230 (xe_db x1)) ([], []) = Inr (ds, rs)" by force
  then obtain engine where p: "plan (list_due_tasks 1700000230 (xe_db x1)) 1700000230 (xe_engine x1) = (Inr ds, engine)"
    by (simp add: plan_def)
  have "once_task \<in> set (list_due_tasks 1700000200 (xe_db (sample_executor once_task)))"
    by (simp add: set_list_due_tasks sample_executor_def new_executor_def table_with_def due_now_def once_facts sample_due)
  from one_shot_task_overlaps_itself [OF this once_facts(6,7) e _ _ quiet(1) p] e p show ?thesis
    by (auto simp: once_facts sample_clock_def)
qed

end
