(* ===== verification/Sse_Lines.thy ===== *)
theory Sse_Lines
  imports Agent_Messages
begin

text \<open>
  The byte side of a model stream, \<open>crates/cool-agent/src/provider.rs\<close>: lines of
  server-sent events are cut out of the chunks of a response body (\<open>decode_sse_lines\<close>),
  and the task that reads the body hands each line to the protocol of the vendor and sends what that
  yields. The same task stands in \<open>anthropic.rs\<close> and \<open>gemini.rs\<close>; it is written
  once here, with the protocol as an argument. \<open>String::from_utf8\<close> is that of the standard
  library, with the position its error reports.
\<close>

section \<open>UTF-8\<close>

definition char_width :: "nat \<Rightarrow> nat" where
  "char_width b = (if b < 128 then 1 else if 194 \<le> b \<and> b \<le> 223 then 2 else if 224 \<le> b \<and> b \<le> 239 then 3
     else if 240 \<le> b \<and> b \<le> 244 then 4 else 0)"

definition second_byte :: "nat \<Rightarrow> nat \<Rightarrow> bool" where
  "second_byte b c \<longleftrightarrow>
     (if b = 224 then 160 \<le> c \<and> c \<le> 191 else if b = 237 then 128 \<le> c \<and> c \<le> 159
      else if b = 240 then 144 \<le> c \<and> c \<le> 191 else if b = 244 then 128 \<le> c \<and> c \<le> 143
      else 128 \<le> c \<and> c \<le> 191)"

text \<open>
  What is wrong with the bytes after the first one of a sequence: the length of the invalid part, or
  \<open>None\<close> when the text ends inside the sequence.
\<close>

fun later_fault :: "nat \<Rightarrow> nat \<Rightarrow> nat list \<Rightarrow> nat option option" where
  "later_fault 0 seen bytes = None"
| "later_fault (Suc n) seen [] = Some None"
| "later_fault (Suc n) seen (c # cs) =
     (if 128 \<le> c \<and> c \<le> 191 then later_fault n (seen + 1) cs else Some (Some seen))"

definition sequence_fault :: "nat \<Rightarrow> nat list \<Rightarrow> nat option option" where
  "sequence_fault b bytes =
     (if char_width b = 0 then Some (Some 1)
      else if char_width b = 1 then None
      else case bytes of
        [] \<Rightarrow> Some None
      | c # cs \<Rightarrow> if second_byte b c then later_fault (char_width b - 2) 2 cs else Some (Some 1))"

function utf8_fault :: "nat \<Rightarrow> nat list \<Rightarrow> (nat \<times> nat option) option" where
  "utf8_fault i [] = None"
| "utf8_fault i (b # bytes) =
     (case sequence_fault b bytes of
        Some e \<Rightarrow> Some (i, e)
      | None \<Rightarrow> utf8_fault (i + char_width b) (drop (char_width b - 1) bytes))"
  by pat_completeness auto
termination by (relation "measure (\<lambda>(_, bytes). length bytes)") auto

definition utf8_error_text :: "nat \<times> nat option \<Rightarrow> string" where
  "utf8_error_text fault = (case fault of
      (i, Some n) \<Rightarrow> ''invalid utf-8 sequence of '' @ dec n @ '' bytes from index '' @ dec i
    | (i, None) \<Rightarrow> ''incomplete utf-8 byte sequence from index '' @ dec i)"

definition provider_failure :: "string \<Rightarrow> string \<Rightarrow> bool \<Rightarrow> provider_error" where
  "provider_failure code text retryable = \<lparr>pv_code = code, pv_message = text, pv_retryable = retryable\<rparr>"

definition line_of_bytes :: "string \<Rightarrow> (provider_error, string) result" where
  "line_of_bytes line = (case utf8_fault 0 (bytes_of line) of
      None \<Rightarrow> Inr line
    | Some fault \<Rightarrow> Inl (provider_failure ''provider_utf8'' (utf8_error_text fault) False))"

section \<open>Lines\<close>

definition newline :: char where "newline = CHR 0x0A"

definition drop_return :: "string \<Rightarrow> string" where
  "drop_return line = (if line \<noteq> [] \<and> last line = CHR 0x0D then butlast line else line)"

lemma split_once_shorter: "split_once c s = Some (a, b) \<Longrightarrow> length b < length s"
  by (induction s arbitrary: a) (auto split: if_splits)

text \<open>The buffer is what the result leaves in it.\<close>

function take_lines :: "string \<Rightarrow> (provider_error, string list) result \<times> string" where
  "take_lines buffer =
     (case split_once newline buffer of
        None \<Rightarrow> (Inr [], buffer)
      | Some (line, rest) \<Rightarrow>
          (case line_of_bytes (drop_return line) of
             Inl e \<Rightarrow> (Inl e, rest)
           | Inr text \<Rightarrow>
               (case take_lines rest of
                  (Inr lines, left) \<Rightarrow> (Inr (text # lines), left)
                | (Inl e, left) \<Rightarrow> (Inl e, left))))"
  by pat_completeness auto
termination by (relation "measure length") (auto dest: split_once_shorter)

declare take_lines.simps [simp del]

definition decode_sse_lines :: "string \<Rightarrow> string \<Rightarrow> (provider_error, string list) result \<times> string" where
  "decode_sse_lines buffer chunk = take_lines (buffer @ chunk)"

section \<open>The reading task\<close>

text \<open>
  An item of the channel, and what the protocol does with a line: the items it sends, its state after
  it, and \<open>Ok(true)\<close> when the stream is over. Sending to a channel nobody reads from is
  ignored by the code, so the items are those of a channel that is read.
\<close>

type_synonym model_item = "(provider_error, model_event) result"
type_synonym 's line_step = "string \<Rightarrow> 's \<Rightarrow> model_item list \<times> 's \<times> (provider_error, bool) result"

fun feed_lines :: "'s line_step \<Rightarrow> string list \<Rightarrow> 's \<Rightarrow> model_item list \<times> 's option" where
  "feed_lines step [] st = ([], Some st)"
| "feed_lines step (line # lines) st =
     (case step line st of
        (out, st1, Inr True) \<Rightarrow> (out, None)
      | (out, st1, Inr False) \<Rightarrow>
          (case feed_lines step lines st1 of (later, st2) \<Rightarrow> (out @ later, st2))
      | (out, st1, Inl e) \<Rightarrow> (out @ [Inl e], None))"

definition incomplete_stream :: provider_error where
  "incomplete_stream = provider_failure ''provider_stream_incomplete'' ''provider stream ended inside an SSE line'' True"

definition oversized_stream :: provider_error where
  "oversized_stream = provider_failure ''provider_response_too_large'' ''provider stream exceeded configured limit'' False"

text \<open>A chunk is the bytes that arrived or the text of a transport error; the list ends where the body does.\<close>

fun read_body :: "'s line_step \<Rightarrow> ('s \<Rightarrow> model_item list) \<Rightarrow> nat \<Rightarrow> (string, string) result list \<Rightarrow> nat \<Rightarrow> string \<Rightarrow> 's \<Rightarrow>
    model_item list" where
  "read_body step close max_bytes [] received buffer st =
     (if buffer \<noteq> [] then [Inl incomplete_stream] else close st)"
| "read_body step close max_bytes (Inl error # chunks) received buffer st =
     [Inl (provider_failure ''provider_stream'' error True)]"
| "read_body step close max_bytes (Inr chunk # chunks) received buffer st =
     (if max_bytes < received + length chunk then [Inl oversized_stream]
      else case decode_sse_lines buffer chunk of
        (Inl e, left) \<Rightarrow> [Inl e]
      | (Inr lines, left) \<Rightarrow>
          (case feed_lines step lines st of
             (out, None) \<Rightarrow> out
           | (out, Some st1) \<Rightarrow> out @ read_body step close max_bytes chunks (received + length chunk) left st1))"

section \<open>Chunks do not matter\<close>

lemma split_once_after:
  "split_once c (a @ b) = (case split_once c a of
      Some (line, rest) \<Rightarrow> Some (line, rest @ b)
    | None \<Rightarrow> map_option (\<lambda>(line, rest). (a @ line, rest)) (split_once c b))"
  by (induction a; cases "split_once c b") (auto split: option.splits)

lemma split_once_None: "split_once c s = None \<longleftrightarrow> c \<notin> set s"
  by (induction s) auto

lemma take_lines_rest: "take_lines a = (Inr lines, left) \<Longrightarrow> newline \<notin> set left"
proof (induction a arbitrary: lines rule: take_lines.induct)
  case (1 buffer)
  show ?case
  proof (cases "split_once newline buffer")
    case None
    with "1.prems" show ?thesis by (simp add: take_lines.simps [of buffer] split_once_None)
  next
    case (Some cut)
    with "1.prems" "1.IH" show ?thesis
      by (cases cut) (auto simp: take_lines.simps [of buffer] split: sum.splits prod.splits)
  qed
qed

lemma take_lines_newline_free: "newline \<notin> set a \<Longrightarrow> take_lines a = (Inr [], a)"
  by (simp add: take_lines.simps [of a] flip: split_once_None)

text \<open>Decoding a prefix first and its remainder with the rest later is decoding the whole.\<close>

lemma take_lines_append:
  assumes "take_lines a = (Inr lines, left)"
  shows "take_lines (a @ b) = (case take_lines (left @ b) of
      (Inr extra, left) \<Rightarrow> (Inr (lines @ extra), left) | (Inl e, left) \<Rightarrow> (Inl e, left))"
  using assms
proof (induction a arbitrary: lines rule: take_lines.induct)
  case (1 buffer)
  show ?case
  proof (cases "split_once newline buffer")
    case None
    with "1.prems" show ?thesis by (auto simp: take_lines.simps [of buffer] split: prod.splits sum.splits)
  next
    case (Some cut)
    obtain line rest where cut: "cut = (line, rest)" by (cases cut)
    with Some "1.prems" obtain decoded others where good: "line_of_bytes (drop_return line) = Inr decoded"
      and rest: "take_lines rest = (Inr others, left)" and lines: "lines = decoded # others"
      by (auto simp: take_lines.simps [of buffer] split: sum.splits prod.splits)
    from "1.IH" [OF Some cut [symmetric] good rest] Some good cut lines show ?thesis
      by (auto simp: take_lines.simps [of "buffer @ b"] split_once_after split: sum.splits prod.splits)
  qed
qed

lemma take_lines_prefix:
  assumes "take_lines (a @ b) = (Inr lines, left)"
  obtains front middle where "take_lines a = (Inr front, middle)"
proof -
  have "\<exists>front middle. take_lines a = (Inr front, middle)"
    using assms
  proof (induction a arbitrary: lines rule: take_lines.induct)
    case (1 buffer)
    show ?case
    proof (cases "split_once newline buffer")
      case None
      then show ?thesis by (simp add: take_lines.simps [of buffer])
    next
      case (Some cut)
      obtain line rest where cut: "cut = (line, rest)" by (cases cut)
      with Some "1.prems" obtain decoded others where good: "line_of_bytes (drop_return line) = Inr decoded"
        and rest: "take_lines (rest @ b) = (Inr others, left)"
        by (auto simp: take_lines.simps [of "buffer @ b"] split_once_after split: sum.splits prod.splits)
      from "1.IH" [OF Some cut [symmetric] good rest] Some good cut show ?thesis
        by (auto simp: take_lines.simps [of buffer])
    qed
  qed
  then show thesis using that by auto
qed

lemma feed_lines_append:
  "feed_lines step (xs @ ys) st = (case feed_lines step xs st of
      (out, None) \<Rightarrow> (out, None)
    | (out, Some st1) \<Rightarrow> (case feed_lines step ys st1 of (later, st2) \<Rightarrow> (out @ later, st2)))"
  by (induction xs arbitrary: st) (auto split: prod.splits sum.splits option.splits bool.splits)

text \<open>The reference: the whole body is one text, cut into lines once.\<close>

definition decode_whole :: "'s line_step \<Rightarrow> ('s \<Rightarrow> model_item list) \<Rightarrow> string list \<Rightarrow> string \<Rightarrow> 's \<Rightarrow> model_item list" where
  "decode_whole step close lines left st = (case feed_lines step lines st of
      (out, None) \<Rightarrow> out
    | (out, Some st1) \<Rightarrow> out @ (if left \<noteq> [] then [Inl incomplete_stream] else close st1))"

lemma read_body_whole:
  assumes "take_lines (buffer @ concat chunks) = (Inr lines, left)"
    and "received + length (concat chunks) \<le> max_bytes" and "newline \<notin> set buffer"
  shows "read_body step close max_bytes (map Inr chunks) received buffer st = decode_whole step close lines left st"
  using assms
proof (induction chunks arbitrary: buffer received st lines)
  case Nil
  then show ?case by (simp add: take_lines_newline_free decode_whole_def)
next
  case (Cons chunk chunks)
  from Cons.prems(1) obtain first middle where first: "take_lines (buffer @ chunk) = (Inr first, middle)"
    using take_lines_prefix [of "buffer @ chunk" "concat chunks"] by auto
  with Cons.prems(1) obtain extra where extra: "take_lines (middle @ concat chunks) = (Inr extra, left)"
    and lines: "lines = first @ extra"
    using take_lines_append [OF first, of "concat chunks"] by (auto split: prod.splits sum.splits)
  from Cons.IH [OF extra _ take_lines_rest [OF first]] Cons.prems(2) first show ?case
    by (auto simp: lines decode_sse_lines_def decode_whole_def feed_lines_append split: prod.splits option.splits)
qed

lemma read_body_ignores_chunks:
  assumes "concat chunks = concat chunks'" and "length (concat chunks) \<le> max_bytes"
    and "take_lines (concat chunks) = (Inr lines, left)"
  shows "read_body step close max_bytes (map Inr chunks) 0 [] st = read_body step close max_bytes (map Inr chunks') 0 [] st"
  using read_body_whole [of "[]" chunks lines left 0 max_bytes step close st]
    read_body_whole [of "[]" chunks' lines left 0 max_bytes step close st] assms by simp

end
