(* ===== verification/Model_Pricing.thy ===== *)
theory Model_Pricing
  imports Unicode_Text
begin

text \<open>
  \<open>crates/cool-agent/src/pricing.rs\<close>: the price table, the lookup of a model name, and
  the estimated cost of a completion in micro-dollars. \<open>lower\<close> is
  \<open>str::to_lowercase\<close>, whose tables are those of Unicode. The products are those of
  \<open>u128\<close>, in which they do not overflow; the last cast to \<open>u64\<close> drops the high
  bits.
\<close>

section \<open>The table\<close>

record model_pricing =
  mp_prompt :: nat
  mp_completion :: nat
  mp_cache_read :: nat
  mp_cache_write :: nat

definition plain_pricing :: "nat \<Rightarrow> nat \<Rightarrow> model_pricing" where
  "plain_pricing prompt completion =
     \<lparr>mp_prompt = prompt, mp_completion = completion, mp_cache_read = 0, mp_cache_write = 0\<rparr>"

definition pricing_cached :: "nat \<Rightarrow> nat \<Rightarrow> model_pricing" where
  "pricing_cached prompt completion =
     \<lparr>mp_prompt = prompt, mp_completion = completion, mp_cache_read = prompt div 10,
      mp_cache_write = prompt * 5 div 4\<rparr>"

definition price_table :: "(string \<times> model_pricing) list" where
  "price_table =
    [(''gpt-4o'', plain_pricing 2500 10000),
     (''gpt-4o-mini'', plain_pricing 150 600),
     (''gpt-4-turbo'', plain_pricing 10000 30000),
     (''gpt-4'', plain_pricing 30000 60000),
     (''gpt-3.5-turbo'', plain_pricing 500 1500),
     (''o1'', plain_pricing 15000 60000),
     (''o1-mini'', plain_pricing 3000 12000),
     (''o3-mini'', plain_pricing 1100 4400),
     (''gpt-5'', plain_pricing 1250 10000),
     (''gpt-5-mini'', plain_pricing 250 2000),
     (''gpt-5-nano'', plain_pricing 50 400),
     (''claude-3-5-sonnet'', pricing_cached 3000 15000),
     (''claude-3-5-haiku'', pricing_cached 800 4000),
     (''claude-3-opus'', pricing_cached 15000 75000),
     (''claude-3-sonnet'', pricing_cached 3000 15000),
     (''claude-3-haiku'', pricing_cached 250 1250),
     (''claude-sonnet-4'', pricing_cached 3000 15000),
     (''claude-opus-4'', pricing_cached 15000 75000),
     (''claude-haiku-4'', pricing_cached 1000 5000),
     (''gemini-2.5-pro'', plain_pricing 1250 10000),
     (''gemini-2.5-flash'', plain_pricing 300 2500),
     (''gemini-2.0-flash'', plain_pricing 100 400),
     (''deepseek-chat'', plain_pricing 270 1100),
     (''deepseek-reasoner'', plain_pricing 550 2190),
     (''llama-3.3-70b'', plain_pricing 590 790),
     (''llama-3.1-70b'', plain_pricing 590 790),
     (''llama-3.1-8b'', plain_pricing 50 80)]"

section \<open>Lookup\<close>

text \<open>The tail has the length of the stamp: \<open>-YYYY-MM-DD\<close> or \<open>-YYYYMMDD\<close>.\<close>

definition stamp_matches :: "nat \<Rightarrow> string \<Rightarrow> bool" where
  "stamp_matches suffix_len tail =
     (if suffix_len = 11
      then tail ! 0 = CHR ''-'' \<and> tail ! 5 = CHR ''-'' \<and> tail ! 8 = CHR ''-'' \<and>
        list_all is_digit (take 4 (drop 1 tail)) \<and> list_all is_digit (take 2 (drop 6 tail)) \<and>
        list_all is_digit (drop 9 tail)
      else tail ! 0 = CHR ''-'' \<and> list_all is_digit (drop 1 tail))"

definition strip_stamp :: "nat \<Rightarrow> string \<Rightarrow> string" where
  "strip_stamp suffix_len model =
     (if length model \<le> suffix_len then model
      else if stamp_matches suffix_len (drop (length model - suffix_len) model)
      then take (length model - suffix_len) model else model)"

definition normalize_model :: "(string \<Rightarrow> string) \<Rightarrow> string \<Rightarrow> string" where
  "normalize_model lower model = strip_stamp 9 (strip_stamp 11 (lower (trim_text model)))"

text \<open>\<open>Iterator::max_by_key\<close>: of several greatest elements, the last.\<close>

fun last_max_by :: "('a \<Rightarrow> nat) \<Rightarrow> 'a list \<Rightarrow> 'a option" where
  "last_max_by f [] = None"
| "last_max_by f (x # xs) =
     (case last_max_by f xs of None \<Rightarrow> Some x | Some y \<Rightarrow> if f x \<le> f y then Some y else Some x)"

definition price_key_matches :: "string \<Rightarrow> string \<Rightarrow> bool" where
  "price_key_matches normalized key \<longleftrightarrow> normalized = key \<or> starts_with (key @ ''-'') normalized \<or>
     starts_with (normalized @ ''-'') key"

definition lookup_pricing :: "(string \<Rightarrow> string) \<Rightarrow> string \<Rightarrow> model_pricing option" where
  "lookup_pricing lower model =
     (let normalized = normalize_model lower model in
      case map_of price_table normalized of
        Some entry \<Rightarrow> Some entry
      | None \<Rightarrow> map_option snd (last_max_by (\<lambda>(key, _). length key)
          (filter (\<lambda>(key, _). price_key_matches normalized key) price_table)))"

section \<open>Cost\<close>

definition exact_price :: "model_pricing \<Rightarrow> 64 word \<Rightarrow> 64 word \<Rightarrow> 64 word \<Rightarrow> 64 word \<Rightarrow> nat" where
  "exact_price prices prompt completion cache_read cache_write =
     unat prompt * mp_prompt prices + unat completion * mp_completion prices +
     unat cache_read * mp_cache_read prices + unat cache_write * mp_cache_write prices"

definition estimate_cost_micro_usd ::
    "(string \<Rightarrow> string) \<Rightarrow> string \<Rightarrow> 64 word \<Rightarrow> 64 word \<Rightarrow> 64 word \<Rightarrow> 64 word \<Rightarrow> 64 word option" where
  "estimate_cost_micro_usd lower model prompt completion cache_read cache_write =
     (case lookup_pricing lower model of
        None \<Rightarrow> None
      | Some prices \<Rightarrow>
          if (0 < cache_read \<or> 0 < cache_write) \<and> (mp_cache_read prices = 0 \<or> mp_cache_write prices = 0) then None
          else Some (of_nat ((exact_price prices prompt completion cache_read cache_write + 500) div 1000)))"

definition has_pricing :: "(string \<Rightarrow> string) \<Rightarrow> string \<Rightarrow> bool" where
  "has_pricing lower model \<longleftrightarrow> lookup_pricing lower model \<noteq> None"

definition model_pricing_of :: "(string \<Rightarrow> string) \<Rightarrow> string \<Rightarrow> (nat \<times> nat \<times> nat \<times> nat) option" where
  "model_pricing_of lower model = map_option (\<lambda>entry.
     (mp_prompt entry, mp_completion entry, mp_cache_read entry, mp_cache_write entry)) (lookup_pricing lower model)"

section \<open>What a lookup finds\<close>

lemma last_max_by_None: "last_max_by f xs = None \<longleftrightarrow> xs = []"
  by (cases xs) (auto split: option.splits)

lemma last_max_by_greatest:
  "last_max_by f xs = Some y \<Longrightarrow> y \<in> set xs \<and> (\<forall>x \<in> set xs. f x \<le> f y)"
  by (induction xs arbitrary: y) (auto simp: last_max_by_None split: option.splits if_splits)

lemma lookup_pricing_cases:
  assumes "lookup_pricing lower model = Some p"
  obtains key where "(key, p) \<in> set price_table" "price_key_matches (normalize_model lower model) key"
    "key = normalize_model lower model \<or>
     (\<forall>(other, q) \<in> set price_table. price_key_matches (normalize_model lower model) other \<longrightarrow> length other \<le> length key)"
proof (cases "map_of price_table (normalize_model lower model)")
  case (Some q)
  with assms have "(normalize_model lower model, p) \<in> set price_table"
    by (auto simp: lookup_pricing_def dest: map_of_SomeD)
  then show thesis using that by (auto simp: price_key_matches_def)
next
  case None
  with assms obtain key where "last_max_by (\<lambda>(key, _). length key)
      (filter (\<lambda>(key, _). price_key_matches (normalize_model lower model) key) price_table) = Some (key, p)"
    by (auto simp: lookup_pricing_def)
  from last_max_by_greatest [OF this] show thesis using that [of key] by fastforce
qed

lemma has_pricing_iff:
  "has_pricing lower model \<longleftrightarrow>
     (\<exists>(key, p) \<in> set price_table. price_key_matches (normalize_model lower model) key)"
proof
  assume "has_pricing lower model"
  then obtain p where "lookup_pricing lower model = Some p" by (auto simp: has_pricing_def)
  then show "\<exists>(key, p) \<in> set price_table. price_key_matches (normalize_model lower model) key"
    by (rule lookup_pricing_cases) auto
next
  assume "\<exists>(key, p) \<in> set price_table. price_key_matches (normalize_model lower model) key"
  then have "filter (\<lambda>(key, _). price_key_matches (normalize_model lower model) key) price_table \<noteq> []"
    by (auto simp: filter_empty_conv)
  then have "\<exists>found. last_max_by (\<lambda>(key, _). length key)
      (filter (\<lambda>(key, _). price_key_matches (normalize_model lower model) key) price_table) = Some found"
    by (metis last_max_by_None not_None_eq)
  then show "has_pricing lower model"
    by (elim exE) (simp add: has_pricing_def lookup_pricing_def Let_def split: option.split)
qed

section \<open>Dated names\<close>

definition date_stamp :: "string \<Rightarrow> bool" where
  "date_stamp stamp \<longleftrightarrow> length stamp = 11 \<and> stamp_matches 11 stamp \<or> length stamp = 9 \<and> stamp_matches 9 stamp"

lemma strip_stamp_append:
  "key \<noteq> [] \<Longrightarrow> length stamp = n \<Longrightarrow> stamp_matches n stamp \<Longrightarrow> strip_stamp n (key @ stamp) = key"
  by (cases key) (simp_all add: strip_stamp_def)

lemma short_stamp_kept:
  assumes "length stamp = 9" "stamp_matches 9 stamp"
  shows "strip_stamp 11 (key @ stamp) = key @ stamp"
proof -
  have "drop (length (key @ stamp) - 11) (key @ stamp) ! 5 = stamp ! 3" if "11 < length (key @ stamp)"
    using that assms(1) by (simp add: nth_append)
  moreover have "stamp ! 3 \<in> set (drop 1 stamp)"
    using assms(1) nth_mem [of 2 "drop 1 stamp"] by (simp add: numeral_3_eq_3 numeral_2_eq_2)
  then have "is_digit (stamp ! 3)" using assms(2) by (simp add: stamp_matches_def list_all_iff)
  ultimately show ?thesis
    unfolding strip_stamp_def stamp_matches_def [of 11] by (metis (no_types) minus_not_digit not_le)
qed

lemma price_table_bare:
  "list_all (\<lambda>(key, p). key \<noteq> [] \<and> strip_stamp 9 key = key) price_table" "distinct (map fst price_table)"
  by (simp_all add: price_table_def strip_stamp_def stamp_matches_def is_digit_def)

lemma table_keys_bare:
  assumes "(key, p) \<in> set price_table"
  shows "key \<noteq> []" "strip_stamp 9 key = key" "map_of price_table key = Some p"
  using price_table_bare assms by (auto simp: list_all_iff)

lemma normalize_dated:
  assumes "(key, p) \<in> set price_table" "date_stamp stamp"
  shows "strip_stamp 9 (strip_stamp 11 (key @ stamp)) = key"
  using assms(2) table_keys_bare [OF assms(1)] unfolding date_stamp_def
  by (auto simp: strip_stamp_append short_stamp_kept)

text \<open>A dated release of a priced model, with either form of the date and surrounded by any white space, is charged as the model itself.\<close>
theorem dated_release_is_priced_as_its_model:
  assumes "(key, p) \<in> set price_table" "date_stamp stamp" "lower (trim_text name) = key @ stamp"
  shows "lookup_pricing lower name = Some p"
  using normalize_dated [OF assms(1,2)] table_keys_bare(3) [OF assms(1)] assms(3)
  by (simp add: lookup_pricing_def normalize_model_def)

lemma dated_release_is_priced_as_its_model_witness:
  "lookup_pricing to_lower ''Claude-Opus-4-20250514'' = Some (pricing_cached 15000 75000)"
proof (rule dated_release_is_priced_as_its_model)
  show "(''claude-opus-4'', pricing_cached 15000 75000) \<in> set price_table" by (simp add: price_table_def)
  show "date_stamp ''-20250514''" by (simp add: date_stamp_def stamp_matches_def is_digit_def)
  have "trim_text ''Claude-Opus-4-20250514'' = ''Claude-Opus-4-20250514''"
    by (simp add: trim_text_plain is_plain_def)
  moreover have "to_lower ''Claude-Opus-4-20250514'' = ''claude-opus-4'' @ ''-20250514''" by code_simp
  ultimately show "to_lower (trim_text ''Claude-Opus-4-20250514'') = ''claude-opus-4'' @ ''-20250514''" by simp
qed

section \<open>The rounding of a cost\<close>

lemma price_table_bounded:
  "list_all (\<lambda>(key, p). mp_prompt p \<le> 75000 \<and> mp_completion p \<le> 75000 \<and> mp_cache_read p \<le> 75000 \<and>
     mp_cache_write p \<le> 75000) price_table"
  by (simp add: price_table_def plain_pricing_def pricing_cached_def)

lemma exact_price_bounded:
  assumes "lookup_pricing lower model = Some p"
  shows "exact_price p a b c d \<le> 75000 * (unat a + unat b + unat c + unat d)"
proof -
  from assms obtain key where "(key, p) \<in> set price_table" by (rule lookup_pricing_cases)
  then have le: "mp_prompt p \<le> 75000" "mp_completion p \<le> 75000" "mp_cache_read p \<le> 75000" "mp_cache_write p \<le> 75000"
    using price_table_bounded by (auto simp: list_all_iff)
  have "exact_price p a b c d \<le> unat a * 75000 + unat b * 75000 + unat c * 75000 + unat d * 75000"
    unfolding exact_price_def by (intro add_le_mono mult_le_mono2 le)
  then show ?thesis by (simp add: algebra_simps)
qed

text \<open>Property C17. The cost of a completion of up to 2 to the 57 tokens is its exact price rounded to the nearest micro-dollar: the last cast loses nothing.\<close>
theorem estimate_is_the_rounded_price:
  assumes "lookup_pricing lower model = Some p"
    and "unat a + unat b + unat c + unat d \<le> 2 ^ 57"
    and "estimate_cost_micro_usd lower model a b c d = Some cost"
  shows "\<bar>1000 * int (unat cost) - int (exact_price p a b c d)\<bar> \<le> 500"
proof -
  define units where "units = (exact_price p a b c d + 500) div 1000"
  have "exact_price p a b c d \<le> 75000 * 2 ^ 57"
    using exact_price_bounded [OF assms(1), of a b c d] assms(2) by simp
  then have "units < 2 ^ 64" unfolding units_def by simp
  moreover have "cost = of_nat units"
    using assms(1,3) by (simp add: estimate_cost_micro_usd_def units_def split: if_splits)
  ultimately have "unat cost = units" by (simp add: unat_of_nat)
  then show ?thesis unfolding units_def by linarith
qed

lemma estimate_is_the_rounded_price_witness:
  "\<bar>1000 * int (unat (5 :: 64 word)) - int (exact_price (plain_pricing 150 600) 10 5 0 0)\<bar> \<le> 500"
  by (rule estimate_is_the_rounded_price [of to_lower "''gpt-4o-mini''"])
    (simp_all add: estimate_cost_micro_usd_def lookup_pricing_def normalize_model_def strip_stamp_def stamp_matches_def
       price_table_def trim_text_plain is_plain_def to_lower_def ascii_lower_def exact_price_def plain_pricing_def)

end
