(* ===== verification/Model_Streams.thy ===== *)
theory Model_Streams
  imports Sse_Lines Model_Pricing Tool_Registry
begin

text \<open>
  What the lines of a model stream say: the protocols of \<open>crates/cool-agent/src/provider.rs\<close>
  (OpenAI-compatible), \<open>anthropic.rs\<close> and \<open>gemini.rs\<close>. A function of this theory
  takes a line and the state of the reading task, and returns the items it sends, the state after it,
  and whether the stream is over. \<open>wr_json\<close> and \<open>wr_map\<close> are
  \<open>serde_json::from_str\<close> at a value and at an object, with the text of the error;
  \<open>wr_lower\<close> is \<open>str::to_lowercase\<close>. An addition of \<open>u64\<close> wraps, as in a
  release build.
\<close>

record wire =
  wr_json :: "string \<Rightarrow> (string, json) result"
  wr_map :: "string \<Rightarrow> (string, json_map) result"
  wr_lower :: "string \<Rightarrow> string"

section \<open>Reading documents\<close>

text \<open>\<open>value[key]\<close> is null where there is nothing; \<open>as_u64\<close> reads no other number.\<close>

definition json_at :: "json \<Rightarrow> string \<Rightarrow> json" where
  "json_at j key = unwrap_or JNull (json_get j key)"

definition text_at :: "json \<Rightarrow> string \<Rightarrow> string option" where
  "text_at j key = json_text (json_get j key)"

definition u64_at :: "json \<Rightarrow> string \<Rightarrow> 64 word option" where
  "u64_at j key = d_u64 (json_at j key)"

definition nonempty :: "string option \<Rightarrow> string option" where
  "nonempty t = (case t of Some [] \<Rightarrow> None | _ \<Rightarrow> t)"

definition sent_text :: "(string \<Rightarrow> model_event) \<Rightarrow> string option \<Rightarrow> model_item list" where
  "sent_text event t = (case nonempty t of None \<Rightarrow> [] | Some s \<Rightarrow> [Inr (event s)])"

text \<open>\<open>line.strip_prefix("data:").map(str::trim)\<close>.\<close>

definition sse_data :: "string \<Rightarrow> string option" where
  "sse_data line = map_option trim_text (strip_prefix ''data:'' line)"

text \<open>A tool call whose arguments arrive in pieces.\<close>

record tool_pieces =
  tp_id :: string
  tp_name :: string
  tp_arguments :: string

definition finish_call :: "wire \<Rightarrow> tool_pieces \<Rightarrow> model_item" where
  "finish_call w p =
     (case (if tp_arguments p = [] then Inr [] else wr_map w (tp_arguments p)) of
        Inl error \<Rightarrow> Inl (provider_failure ''invalid_tool_arguments'' error False)
      | Inr arguments \<Rightarrow>
          Inr (ModelToolCall \<lparr>mc_call_id = tp_id p, mc_name = tp_name p, mc_arguments = arguments\<rparr>))"

definition flush_calls :: "wire \<Rightarrow> (64 word \<times> tool_pieces) list \<Rightarrow> model_item list" where
  "flush_calls w calls = map (\<lambda>(_, p). finish_call w p) calls"

definition uncached_usage :: "wire \<Rightarrow> string \<Rightarrow> 64 word \<Rightarrow> 64 word \<Rightarrow> 64 word \<Rightarrow> usage" where
  "uncached_usage w model prompt completion all =
     \<lparr>us_prompt_tokens = prompt, us_completion_tokens = completion, us_cache_read_tokens = 0,
      us_cache_write_tokens = 0, us_total_tokens = all,
      us_cost_micro_usd = estimate_cost_micro_usd (wr_lower w) model prompt completion 0 0\<rparr>"

section \<open>OpenAI-compatible streams\<close>

record openai_state =
  oa_calls :: "(64 word \<times> tool_pieces) list"
  oa_finish :: "string option"

definition no_pieces :: tool_pieces where
  "no_pieces = \<lparr>tp_id = [], tp_name = [], tp_arguments = []\<rparr>"

definition push_some :: "string \<Rightarrow> string option \<Rightarrow> string" where
  "push_some s t = s @ unwrap_or [] t"

definition add_piece :: "json \<Rightarrow> (64 word \<times> tool_pieces) list \<Rightarrow> (64 word \<times> tool_pieces) list" where
  "add_piece call calls =
     (let index = unwrap_or 0 (u64_at call ''index'');
          p = unwrap_or no_pieces (map_of calls index);
          func = json_at call ''function''
      in bt_insert index \<lparr>tp_id = push_some (tp_id p) (text_at call ''id''),
           tp_name = push_some (tp_name p) (text_at func ''name''),
           tp_arguments = push_some (tp_arguments p) (text_at func ''arguments'')\<rparr> calls)"

definition openai_usage :: "wire \<Rightarrow> string \<Rightarrow> json \<Rightarrow> model_item list" where
  "openai_usage w model value =
     (case json_get value ''usage'' of
        None \<Rightarrow> []
      | Some usage \<Rightarrow>
          if usage = JNull then []
          else [Inr (ModelUsage (uncached_usage w model (unwrap_or 0 (u64_at usage ''prompt_tokens''))
            (unwrap_or 0 (u64_at usage ''completion_tokens'')) (unwrap_or 0 (u64_at usage ''total_tokens''))))])"

definition openai_choice :: "wire \<Rightarrow> json \<Rightarrow> openai_state \<Rightarrow> model_item list \<times> openai_state" where
  "openai_choice w choice st =
     (let delta = json_at choice ''delta'';
          texts = sent_text ModelContent (text_at delta ''content'') @
            sent_text ModelReasoning (case text_at delta ''reasoning_content'' of
              None \<Rightarrow> text_at delta ''reasoning'' | t \<Rightarrow> t);
          calls = (case json_array (json_get delta ''tool_calls'') of
            None \<Rightarrow> oa_calls st | Some cs \<Rightarrow> fold add_piece cs (oa_calls st))
      in case text_at choice ''finish_reason'' of
           None \<Rightarrow> (texts, st\<lparr>oa_calls := calls\<rparr>)
         | Some reason \<Rightarrow> (texts @ flush_calls w calls, \<lparr>oa_calls = [], oa_finish = Some reason\<rparr>))"

definition openai_close :: "wire \<Rightarrow> openai_state \<Rightarrow> model_item list" where
  "openai_close w st = flush_calls w (oa_calls st) @ [Inr (ModelFinish (oa_finish st))]"

definition openai_line :: "wire \<Rightarrow> string \<Rightarrow> openai_state line_step" where
  "openai_line w model line st =
     (case sse_data line of
        None \<Rightarrow> ([], st, Inr False)
      | Some data \<Rightarrow>
          if data = ''[DONE]'' then (openai_close w st, \<lparr>oa_calls = [], oa_finish = None\<rparr>, Inr True)
          else case wr_json w data of
            Inl error \<Rightarrow> ([], st, Inl (provider_failure ''provider_json'' error False))
          | Inr value \<Rightarrow>
              (case json_array (json_get value ''choices'') of
                 Some (choice # _) \<Rightarrow>
                   (case openai_choice w choice st of (out, st1) \<Rightarrow> (openai_usage w model value @ out, st1, Inr False))
               | _ \<Rightarrow> (openai_usage w model value, st, Inr False)))"

definition openai_body :: "wire \<Rightarrow> string \<Rightarrow> nat \<Rightarrow> (string, string) result list \<Rightarrow> model_item list" where
  "openai_body w model max_bytes chunks =
     read_body (openai_line w model) (openai_close w) max_bytes chunks 0 [] \<lparr>oa_calls = [], oa_finish = None\<rparr>"

section \<open>Anthropic streams\<close>

record anthropic_state =
  an_blocks :: "(64 word \<times> tool_pieces) list"
  an_start_input :: "64 word"
  an_cache_read :: "64 word"
  an_cache_write :: "64 word"
  an_finish :: "string option"

definition new_anthropic_state :: anthropic_state where
  "new_anthropic_state = \<lparr>an_blocks = [], an_start_input = 0, an_cache_read = 0, an_cache_write = 0, an_finish = None\<rparr>"

definition track_cache :: "json \<Rightarrow> anthropic_state \<Rightarrow> anthropic_state" where
  "track_cache usage st = st\<lparr>
     an_cache_read := unwrap_or (an_cache_read st) (u64_at usage ''cache_read_input_tokens''),
     an_cache_write := unwrap_or (an_cache_write st) (u64_at usage ''cache_creation_input_tokens'')\<rparr>"

definition message_started :: "json \<Rightarrow> anthropic_state \<Rightarrow> anthropic_state" where
  "message_started event st =
     (let usage = json_at (json_at event ''message'') ''usage''
      in track_cache usage (st\<lparr>an_start_input := unwrap_or 0 (u64_at usage ''input_tokens'')\<rparr>))"

definition block_started :: "json \<Rightarrow> anthropic_state \<Rightarrow> anthropic_state" where
  "block_started event st =
     (let block = json_at event ''content_block'' in
      if text_at block ''type'' = Some ''tool_use''
      then st\<lparr>an_blocks := bt_insert (unwrap_or 0 (u64_at event ''index''))
        \<lparr>tp_id = unwrap_or [] (text_at block ''id''), tp_name = unwrap_or [] (text_at block ''name''),
         tp_arguments = []\<rparr> (an_blocks st)\<rparr>
      else st)"

definition push_input :: "json \<Rightarrow> json \<Rightarrow> anthropic_state \<Rightarrow> anthropic_state" where
  "push_input event delta st =
     (let index = unwrap_or 0 (u64_at event ''index'') in
      case (map_of (an_blocks st) index, text_at delta ''partial_json'') of
        (Some p, Some partial) \<Rightarrow>
          st\<lparr>an_blocks := bt_insert index (p\<lparr>tp_arguments := tp_arguments p @ partial\<rparr>) (an_blocks st)\<rparr>
      | _ \<Rightarrow> st)"

definition block_delta :: "json \<Rightarrow> anthropic_state \<Rightarrow> model_item list \<times> anthropic_state" where
  "block_delta event st =
     (let delta = json_at event ''delta''; kind = text_at delta ''type'' in
      if kind = Some ''text_delta'' then (sent_text ModelContent (text_at delta ''text''), st)
      else if kind = Some ''thinking_delta'' then (sent_text ModelReasoning (text_at delta ''thinking''), st)
      else if kind = Some ''input_json_delta'' then ([], push_input event delta st)
      else ([], st))"

definition block_stopped :: "wire \<Rightarrow> json \<Rightarrow> anthropic_state \<Rightarrow> model_item list \<times> anthropic_state" where
  "block_stopped w event st =
     (let index = unwrap_or 0 (u64_at event ''index'') in
      case map_of (an_blocks st) index of
        None \<Rightarrow> ([], st)
      | Some p \<Rightarrow> ([finish_call w p], st\<lparr>an_blocks := bt_remove index (an_blocks st)\<rparr>))"

definition anthropic_usage :: "wire \<Rightarrow> string \<Rightarrow> json \<Rightarrow> anthropic_state \<Rightarrow> usage" where
  "anthropic_usage w model usage st =
     (let prompt = unwrap_or (an_start_input st) (u64_at usage ''input_tokens'');
          completion = unwrap_or 0 (u64_at usage ''output_tokens'')
      in \<lparr>us_prompt_tokens = prompt, us_completion_tokens = completion,
          us_cache_read_tokens = an_cache_read st, us_cache_write_tokens = an_cache_write st,
          us_total_tokens = prompt + completion + an_cache_read st + an_cache_write st,
          us_cost_micro_usd = estimate_cost_micro_usd (wr_lower w) model prompt completion
            (an_cache_read st) (an_cache_write st)\<rparr>)"

definition message_delta :: "wire \<Rightarrow> string \<Rightarrow> json \<Rightarrow> anthropic_state \<Rightarrow> model_item list \<times> anthropic_state" where
  "message_delta w model event st =
     (let st1 = (case text_at (json_at event ''delta'') ''stop_reason'' of
            None \<Rightarrow> st | Some reason \<Rightarrow> st\<lparr>an_finish := Some reason\<rparr>);
          usage = json_at event ''usage''
      in if usage = JNull then ([], st1)
         else let st2 = track_cache usage st1 in ([Inr (ModelUsage (anthropic_usage w model usage st2))], st2))"

definition anthropic_error :: "json \<Rightarrow> provider_error" where
  "anthropic_error event =
     (let error = json_at event ''error''; code = unwrap_or ''provider_error'' (text_at error ''type'')
      in provider_failure (''provider_'' @ code) (unwrap_or ''anthropic stream error'' (text_at error ''message''))
           (code = ''overloaded_error'' \<or> code = ''rate_limit_error''))"

definition anthropic_close :: "wire \<Rightarrow> anthropic_state \<Rightarrow> model_item list" where
  "anthropic_close w st = flush_calls w (an_blocks st) @ [Inr (ModelFinish (an_finish st))]"

definition anthropic_event :: "wire \<Rightarrow> string \<Rightarrow> json \<Rightarrow> anthropic_state \<Rightarrow>
    model_item list \<times> anthropic_state \<times> (provider_error, bool) result" where
  "anthropic_event w model event st =
     (case text_at event ''type'' of
        None \<Rightarrow> ([], st, Inr False)
      | Some kind \<Rightarrow>
          if kind = ''message_start'' then ([], message_started event st, Inr False)
          else if kind = ''content_block_start'' then ([], block_started event st, Inr False)
          else if kind = ''content_block_delta'' then (case block_delta event st of (out, st1) \<Rightarrow> (out, st1, Inr False))
          else if kind = ''content_block_stop'' then (case block_stopped w event st of (out, st1) \<Rightarrow> (out, st1, Inr False))
          else if kind = ''message_delta'' then (case message_delta w model event st of (out, st1) \<Rightarrow> (out, st1, Inr False))
          else if kind = ''message_stop'' then (anthropic_close w st, st\<lparr>an_blocks := [], an_finish := None\<rparr>, Inr True)
          else if kind = ''error'' then ([], st, Inl (anthropic_error event))
          else ([], st, Inr False))"

definition anthropic_line :: "wire \<Rightarrow> string \<Rightarrow> anthropic_state line_step" where
  "anthropic_line w model line st =
     (case sse_data line of
        None \<Rightarrow> ([], st, Inr False)
      | Some data \<Rightarrow>
          if data = [] then ([], st, Inr False)
          else case wr_json w data of
            Inl error \<Rightarrow> ([], st, Inl (provider_failure ''provider_json'' error False))
          | Inr event \<Rightarrow> anthropic_event w model event st)"

definition anthropic_body :: "wire \<Rightarrow> string \<Rightarrow> nat \<Rightarrow> (string, string) result list \<Rightarrow> model_item list" where
  "anthropic_body w model max_bytes chunks =
     read_body (anthropic_line w model) (anthropic_close w) max_bytes chunks 0 [] new_anthropic_state"

section \<open>Gemini streams\<close>

definition gemini_error :: "wire \<Rightarrow> json \<Rightarrow> provider_error" where
  "gemini_error w error =
     (let code = wr_lower w (unwrap_or ''UNKNOWN'' (text_at error ''status''))
      in provider_failure (''provider_'' @ code) (unwrap_or ''provider stream error'' (text_at error ''message''))
           (code = ''unavailable'' \<or> code = ''resource_exhausted''))"

definition gemini_usage :: "wire \<Rightarrow> string \<Rightarrow> json \<Rightarrow> model_item list" where
  "gemini_usage w model value =
     (case json_get value ''usageMetadata'' of
        None \<Rightarrow> []
      | Some usage \<Rightarrow>
          let prompt = unwrap_or 0 (u64_at usage ''promptTokenCount'');
              completion = unwrap_or 0 (u64_at usage ''candidatesTokenCount'')
          in [Inr (ModelUsage (uncached_usage w model prompt completion
               (unwrap_or (prompt + completion) (u64_at usage ''totalTokenCount''))))])"

text \<open>A call has no identifier on the wire; it is numbered.\<close>

definition gemini_call :: "64 word \<Rightarrow> json \<Rightarrow> tool_call" where
  "gemini_call n call = \<lparr>mc_call_id = ''gemini-call-'' @ dec (unat n),
     mc_name = unwrap_or [] (text_at call ''name''),
     mc_arguments = (case json_get call ''args'' of Some (JObject m) \<Rightarrow> m | _ \<Rightarrow> [])\<rparr>"

fun gemini_parts :: "json list \<Rightarrow> 64 word \<Rightarrow> model_item list \<times> 64 word" where
  "gemini_parts [] calls = ([], calls)"
| "gemini_parts (part # parts) calls =
     (case text_at part ''text'' of
        Some t \<Rightarrow> (case gemini_parts parts calls of (out, n) \<Rightarrow> (Inr (ModelContent t) # out, n))
      | None \<Rightarrow>
          (case json_get part ''functionCall'' of
             Some call \<Rightarrow> (case gemini_parts parts (calls + 1) of (out, n) \<Rightarrow>
                 (Inr (ModelToolCall (gemini_call (calls + 1) call)) # out, n))
           | None \<Rightarrow> gemini_parts parts calls))"

definition gemini_reason :: "string \<Rightarrow> string" where
  "gemini_reason reason = (if reason = ''STOP'' then ''stop'' else if reason = ''MAX_TOKENS'' then ''max_tokens'' else reason)"

definition gemini_finish :: "json \<Rightarrow> model_item list" where
  "gemini_finish candidate = (case text_at candidate ''finishReason'' of
      None \<Rightarrow> []
    | Some reason \<Rightarrow> if reason = ''FINISH_REASON_UNSPECIFIED'' then []
        else [Inr (ModelFinish (Some (gemini_reason reason)))])"

definition gemini_candidate :: "json \<Rightarrow> 64 word \<Rightarrow> model_item list \<times> 64 word" where
  "gemini_candidate candidate calls =
     (case (case json_get candidate ''content'' of None \<Rightarrow> None | Some c \<Rightarrow> json_array (json_get c ''parts'')) of
        None \<Rightarrow> (gemini_finish candidate, calls)
      | Some parts \<Rightarrow> (case gemini_parts parts calls of (out, n) \<Rightarrow> (out @ gemini_finish candidate, n)))"

definition gemini_line :: "wire \<Rightarrow> string \<Rightarrow> (64 word) line_step" where
  "gemini_line w model line calls =
     (case sse_data line of
        None \<Rightarrow> ([], calls, Inr False)
      | Some data \<Rightarrow>
          if data = [] then ([], calls, Inr False)
          else case wr_json w data of
            Inl error \<Rightarrow> ([], calls, Inl (provider_failure ''provider_sse'' error False))
          | Inr value \<Rightarrow>
              (case json_get value ''error'' of
                 Some error \<Rightarrow> ([], calls, Inl (gemini_error w error))
               | None \<Rightarrow>
                   (case json_array (json_get value ''candidates'') of
                      Some (candidate # _) \<Rightarrow>
                        (case gemini_candidate candidate calls of (out, n) \<Rightarrow> (gemini_usage w model value @ out, n, Inr False))
                    | _ \<Rightarrow> (gemini_usage w model value, calls, Inr False))))"

definition gemini_body :: "wire \<Rightarrow> string \<Rightarrow> nat \<Rightarrow> (string, string) result list \<Rightarrow> model_item list" where
  "gemini_body w model max_bytes chunks =
     read_body (gemini_line w model) (\<lambda>_. []) max_bytes chunks 0 [] 0"

end
