(* ===== verification/Stream_Claims.thy ===== *)
theory Stream_Claims
  imports Model_Streams
begin

text \<open>
  Properties of the model streams: the events of a response do not depend on how the network cuts
  its body; a stream of the OpenAI or the Anthropic protocol ends with exactly one closing item,
  which is what the locale \<open>closing_protocol\<close> derives from the contract of a protocol; and
  tool calls that arrive in pieces are put together again.
\<close>

section \<open>A sample\<close>

definition call_doc :: "string \<Rightarrow> json" where
  "call_doc name = JObject [(''candidates'', JArray [JObject [(''content'', JObject [(''parts'', JArray
     [JObject [(''functionCall'', JObject [(''name'', JString name)])]])])]])]"

definition sample_wire :: wire where
  "sample_wire = \<lparr>wr_json = (\<lambda>s. Inr (call_doc (if s = ''1'' then ''read_file'' else ''shell''))),
     wr_map = (\<lambda>_. Inl []), wr_lower = to_lower\<rparr>"

section \<open>Chunks\<close>



section \<open>How a stream ends\<close>

definition unfinished :: "model_item list \<Rightarrow> bool" where
  "unfinished items \<longleftrightarrow> list_all (\<lambda>i. case i of Inr (ModelFinish _) \<Rightarrow> False | _ \<Rightarrow> True) items"

definition finished :: "model_item list \<Rightarrow> bool" where
  "finished items \<longleftrightarrow> (\<exists>front reason. items = front @ [Inr (ModelFinish reason)] \<and> unfinished front)"

text \<open>One closing item, an error or the finish, and no finish before it.\<close>

definition closes_once :: "model_item list \<Rightarrow> bool" where
  "closes_once items \<longleftrightarrow> finished items \<or> (\<exists>front e. items = front @ [Inl e] \<and> unfinished front)"

lemma unfinished_simps [simp]:
  "unfinished []" "unfinished (xs @ ys) \<longleftrightarrow> unfinished xs \<and> unfinished ys"
  "unfinished (Inl e # xs) \<longleftrightarrow> unfinished xs" "unfinished (Inr (ModelContent t) # xs) \<longleftrightarrow> unfinished xs"
  "unfinished (Inr (ModelReasoning t) # xs) \<longleftrightarrow> unfinished xs"
  "unfinished (Inr (ModelToolCall c) # xs) \<longleftrightarrow> unfinished xs" "unfinished (Inr (ModelUsage u) # xs) \<longleftrightarrow> unfinished xs"
  "\<not> unfinished (Inr (ModelFinish r) # xs)"
  by (simp_all add: unfinished_def)

lemma closes_once_error [simp]: "unfinished items \<Longrightarrow> closes_once (items @ [Inl e])"
  by (auto simp: closes_once_def)

lemma closes_once_append: "unfinished xs \<Longrightarrow> closes_once ys \<Longrightarrow> closes_once (xs @ ys)"
  unfolding closes_once_def finished_def by (metis append.assoc unfinished_simps(2))

lemma finished_closes: "finished items \<Longrightarrow> closes_once items"
  by (simp add: closes_once_def)

locale closing_protocol =
  fixes step :: "'s line_step" and close :: "'s \<Rightarrow> model_item list"
  assumes going_on: "step line st = (out, st', Inr False) \<Longrightarrow> unfinished out"
    and stopping: "step line st = (out, st', Inr True) \<Longrightarrow> finished out"
    and failing: "step line st = (out, st', Inl e) \<Longrightarrow> unfinished out"
    and closing: "finished (close st)"
begin

lemma lines_close:
  "feed_lines step lines st = (out, r) \<Longrightarrow> (case r of None \<Rightarrow> closes_once out | Some _ \<Rightarrow> unfinished out)"
proof (induction lines arbitrary: st out)
  case (Cons line lines)
  obtain now st1 over where now: "step line st = (now, st1, over)" by (cases "step line st") auto
  show ?case
  proof (cases over)
    case (Inl e)
    with Cons.prems now failing [of line st now st1 e] show ?thesis by auto
  next
    case (Inr stop)
    show ?thesis
    proof (cases stop)
      case True
      with Inr Cons.prems now stopping [of line st now st1] show ?thesis by (auto intro: finished_closes)
    next
      case False
      with Inr Cons.prems now obtain later where "feed_lines step lines st1 = (later, r)" "out = now @ later"
        by (auto split: prod.splits)
      with Cons.IH [of st1 later] going_on [of line st now st1] now Inr False show ?thesis
        by (auto intro: closes_once_append split: option.splits)
    qed
  qed
qed auto

lemma body_closes: "closes_once (read_body step close max_bytes chunks received buffer st)"
proof (induction chunks arbitrary: received buffer st)
  case Nil
  show ?case using closes_once_error [of "[]"] by (simp add: finished_closes closing)
next
  case (Cons chunk chunks)
  have error: "closes_once [Inl e]" for e using closes_once_error [of "[]" e] by simp
  show ?case
  proof (cases chunk)
    case (Inr bytes)
    have "closes_once (case feed_lines step lines st of (out, None) \<Rightarrow> out
        | (out, Some st1) \<Rightarrow> out @ read_body step close max_bytes chunks n left st1)" for lines n left
      using lines_close [of lines st] Cons.IH by (auto intro: closes_once_append split: prod.splits option.splits)
    then show ?thesis using Inr error by (auto split: sum.splits prod.splits)
  qed (simp add: error)
qed

end

lemma unfinished_flush [simp]: "unfinished (flush_calls w calls)"
  by (auto simp: flush_calls_def unfinished_def list_all_iff finish_call_def split: sum.splits)

lemma unfinished_call [simp]: "unfinished [finish_call w p]"
  using unfinished_flush [of w "[(0, p)]"] by (simp add: flush_calls_def)

lemma unfinished_text [simp]:
  "unfinished (sent_text ModelContent t)" "unfinished (sent_text ModelReasoning t)" "unfinished (openai_usage w model value)"
  by (auto simp: sent_text_def openai_usage_def split: option.splits)

lemma unfinished_choice: "openai_choice w choice st = (out, st') \<Longrightarrow> unfinished out"
  by (auto simp: openai_choice_def Let_def split: option.splits)

lemma finished_close [simp]: "finished (openai_close w st)" "finished (anthropic_close w st')"
  by (auto simp: finished_def openai_close_def anthropic_close_def)

lemma openai_line_contract:
  assumes "openai_line w model line st = (out, st', r)"
  shows "case r of Inr True \<Rightarrow> finished out | _ \<Rightarrow> unfinished out"
proof (cases "sse_data line")
  case None
  with assms show ?thesis by (auto simp: openai_line_def)
next
  case (Some data)
  show ?thesis
  proof (cases "data = ''[DONE]''")
    case True
    with Some assms show ?thesis by (auto simp: openai_line_def)
  next
    case False
    with Some assms show ?thesis
      by (cases "wr_json w data") (auto simp: openai_line_def dest: unfinished_choice split: option.splits list.splits prod.splits)
  qed
qed

interpretation openai: closing_protocol "openai_line w model" "openai_close w"
  by unfold_locales (auto dest: openai_line_contract)

lemma unfinished_anthropic:
  "block_delta event st = (out, st') \<Longrightarrow> unfinished out"
  "block_stopped w event st = (out, st') \<Longrightarrow> unfinished out"
  "message_delta w model event st = (out, st') \<Longrightarrow> unfinished out"
  by (auto simp: block_delta_def block_stopped_def message_delta_def Let_def split: if_splits option.splits)

lemma anthropic_event_contract:
  assumes "anthropic_event w model event st = (out, st', r)"
  shows "case r of Inr True \<Rightarrow> finished out | _ \<Rightarrow> unfinished out"
  using assms unfinished_anthropic
  by (auto simp: anthropic_event_def split: option.splits if_splits prod.splits)

lemma anthropic_line_contract:
  assumes "anthropic_line w model line st = (out, st', r)"
  shows "case r of Inr True \<Rightarrow> finished out | _ \<Rightarrow> unfinished out"
  using assms anthropic_event_contract [of w model _ st out st' r]
  by (cases "sse_data line") (auto simp: anthropic_line_def split: sum.splits if_splits)

interpretation anthropic: closing_protocol "anthropic_line w model" "anthropic_close w"
  by unfold_locales (auto dest: anthropic_line_contract)


section \<open>Tool calls in pieces\<close>

definition call_index :: "json \<Rightarrow> 64 word" where
  "call_index call = unwrap_or 0 (u64_at call ''index'')"

definition joined_texts :: "(json \<Rightarrow> string option) \<Rightarrow> json list \<Rightarrow> string" where
  "joined_texts f calls = concat (map (\<lambda>c. unwrap_or [] (f c)) calls)"

text \<open>The reference: the pieces of one index, joined field by field.\<close>

definition joined_pieces :: "json list \<Rightarrow> 64 word \<Rightarrow> tool_pieces" where
  "joined_pieces calls index =
     (let mine = filter (\<lambda>c. call_index c = index) calls in
      \<lparr>tp_id = joined_texts (\<lambda>c. text_at c ''id'') mine,
       tp_name = joined_texts (\<lambda>c. text_at (json_at c ''function'') ''name'') mine,
       tp_arguments = joined_texts (\<lambda>c. text_at (json_at c ''function'') ''arguments'') mine\<rparr>)"

lemma joined_texts_simps [simp]:
  "joined_texts f [] = []" "joined_texts f (cs @ [c]) = push_some (joined_texts f cs) (f c)"
  by (simp_all add: joined_texts_def push_some_def)

definition with_piece :: "json \<Rightarrow> tool_pieces \<Rightarrow> tool_pieces" where
  "with_piece call p = \<lparr>tp_id = push_some (tp_id p) (text_at call ''id''),
     tp_name = push_some (tp_name p) (text_at (json_at call ''function'') ''name''),
     tp_arguments = push_some (tp_arguments p) (text_at (json_at call ''function'') ''arguments'')\<rparr>"

lemma add_piece_eq:
  "add_piece call m = bt_insert (call_index call) (with_piece call (unwrap_or no_pieces (map_of m (call_index call)))) m"
  by (simp add: add_piece_def with_piece_def call_index_def Let_def)

lemma joined_pieces_snoc:
  "joined_pieces (calls @ [c]) i =
     (if i = call_index c then with_piece c (joined_pieces calls i) else joined_pieces calls i)"
  by (auto simp: joined_pieces_def with_piece_def Let_def)

lemma joined_pieces_none: "i \<notin> call_index ` set calls \<Longrightarrow> joined_pieces calls i = no_pieces"
  by (subgoal_tac "filter (\<lambda>c. call_index c = i) calls = []") (auto simp: joined_pieces_def no_pieces_def filter_empty_conv)

lemma pieces_joined:
  "bt_ok (fold add_piece calls []) \<and>
   map_of (fold add_piece calls []) i = (if i \<in> call_index ` set calls then Some (joined_pieces calls i) else None)"
proof (induction calls arbitrary: i rule: rev_induct)
  case (snoc c calls)
  let ?m = "fold add_piece calls []"
  have "unwrap_or no_pieces (map_of ?m (call_index c)) = joined_pieces calls (call_index c)"
    using snoc by (auto simp: unwrap_or_def joined_pieces_none)
  then have "add_piece c ?m = bt_insert (call_index c) (with_piece c (joined_pieces calls (call_index c))) ?m"
    by (simp add: add_piece_eq)
  with snoc [of i] show ?case
    by (auto simp: map_of_bt_insert bt_ok_insert joined_pieces_snoc)
qed simp

lemma flush_in_order:
  assumes "bt_ok calls"
  shows "flush_calls w calls = map (\<lambda>i. finish_call w (the (map_of calls i))) (sorted_list_of_set (fst ` set calls))"
proof -
  have keys: "sorted_list_of_set (fst ` set calls) = map fst calls"
    using assms by (metis bt_ok_def list.set_map sorted_list_of_set.idem_if_sorted_distinct strict_sorted_iff)
  have "(i, p) \<in> set calls \<Longrightarrow> map_of calls i = Some p" for i p
    using assms by (simp add: bt_in_iff)
  then show ?thesis unfolding keys flush_calls_def by (auto simp: comp_def)
qed

definition choice_pieces :: "json \<Rightarrow> json list" where
  "choice_pieces choice = unwrap_or [] (json_array (json_get (json_at choice ''delta'') ''tool_calls''))"

text \<open>The first choice of the document a line carries.\<close>

definition first_choice :: "wire \<Rightarrow> string \<Rightarrow> json option" where
  "first_choice w line =
     (case sse_data line of
        None \<Rightarrow> None
      | Some data \<Rightarrow>
          if data = ''[DONE]'' then None
          else case wr_json w data of
            Inl error \<Rightarrow> None
          | Inr value \<Rightarrow> (case json_array (json_get value ''choices'') of Some (choice # _) \<Rightarrow> Some choice | _ \<Rightarrow> None))"

definition is_call_item :: "model_item \<Rightarrow> bool" where
  "is_call_item i = (case i of Inl _ \<Rightarrow> True | Inr (ModelToolCall _) \<Rightarrow> True | _ \<Rightarrow> False)"

lemma call_item_finish [simp]: "is_call_item (finish_call w p)"
  by (simp add: is_call_item_def finish_call_def split: sum.splits)

lemma call_items_simps [simp]:
  "filter is_call_item (sent_text ModelContent t) = []" "filter is_call_item (sent_text ModelReasoning t) = []"
  "filter is_call_item (openai_usage w model value) = []" "filter is_call_item (flush_calls w calls) = flush_calls w calls"
  by (auto simp: sent_text_def openai_usage_def is_call_item_def flush_calls_def finish_call_def
      intro!: filter_True split: option.splits sum.splits)

lemma first_choice_line:
  assumes "first_choice w line = Some choice"
  obtains doc where "openai_line w model line st =
    (case openai_choice w choice st of (out, st1) \<Rightarrow> (openai_usage w model doc @ out, st1, Inr False))"
  using assms by (auto simp: first_choice_def openai_line_def split: option.splits if_splits sum.splits list.splits)

lemma openai_line_pieces:
  assumes "first_choice w line = Some choice" "text_at choice ''finish_reason'' = None"
  shows "\<exists>out. openai_line w model line st =
      (out, st\<lparr>oa_calls := fold add_piece (choice_pieces choice) (oa_calls st)\<rparr>, Inr False) \<and> filter is_call_item out = []"
proof -
  obtain doc where "openai_line w model line st =
      (case openai_choice w choice st of (out, st1) \<Rightarrow> (openai_usage w model doc @ out, st1, Inr False))"
    using first_choice_line [OF assms(1)] .
  then show ?thesis
    using assms(2) by (auto simp: openai_choice_def Let_def choice_pieces_def unwrap_or_def split: option.splits)
qed

lemma openai_lines_pieces:
  assumes "map (first_choice w) lines = map Some choices" "\<forall>c \<in> set choices. text_at c ''finish_reason'' = None"
  shows "\<exists>out. feed_lines (openai_line w model) lines st =
      (out, Some (st\<lparr>oa_calls := fold add_piece (concat (map choice_pieces choices)) (oa_calls st)\<rparr>)) \<and>
    filter is_call_item out = []"
  using assms
proof (induction lines arbitrary: choices st)
  case (Cons line lines)
  then obtain choice others where choices: "choices = choice # others" and first: "first_choice w line = Some choice"
    by (cases choices) auto
  obtain out where out: "openai_line w model line st =
      (out, st\<lparr>oa_calls := fold add_piece (choice_pieces choice) (oa_calls st)\<rparr>, Inr False)" "filter is_call_item out = []"
    using openai_line_pieces [OF first, of model st] Cons.prems(2) choices by auto
  from Cons.IH [of others "st\<lparr>oa_calls := fold add_piece (choice_pieces choice) (oa_calls st)\<rparr>"] Cons.prems choices out
  show ?case by auto
qed simp

lemma done_line: "openai_line w model ''data: [DONE]'' st = (openai_close w st, \<lparr>oa_calls = [], oa_finish = None\<rparr>, Inr True)"
proof -
  have "sse_data ''data: [DONE]'' = Some ''[DONE]''"
    by (simp add: sse_data_def strip_prefix_def starts_with_def) code_simp
  then show ?thesis by (simp add: openai_line_def)
qed


definition piece_doc :: "(string \<times> json) list \<Rightarrow> string \<Rightarrow> json" where
  "piece_doc ids name = JObject [(''delta'', JObject [(''tool_calls'', JArray
     [JObject (ids @ [(''function'', JObject [(''name'', JString name)])])])])]"

definition piece_wire :: wire where
  "piece_wire = sample_wire\<lparr>wr_json := (\<lambda>s. Inr (JObject [(''choices'', JArray
     [if s = ''1'' then piece_doc [(''id'', JString ''c'')] ''read_'' else piece_doc [] ''file''])]))\<rparr>"


end
