(* ===== verification/Approval_Gate.thy ===== *)
theory Approval_Gate
  imports Agent_Store Stream_Claims
begin

text \<open>
  The approval gate of the server, \<open>AppServerApprovalGate\<close> of
  \<open>crates/cool-app-server/src/lib.rs\<close>: \<open>request\<close> opens a ticket in the durable
  store and answers from it or waits, \<open>expire\<close> closes it at a timeout, and a committed
  decision wakes the waiter. The waiters are the keys of the map of channels. \<open>fits\<close> says
  that a frame is within the limit of the transport, and \<open>delivered\<close> that the owner's
  connection took it.
\<close>

section \<open>The gate\<close>

record gate_state =
  gs_db :: db
  gs_waiters :: "string set"

datatype gate_verdict =
    GateAnswers gate_outcome
  | GateWaits string
  | GateFails runtime_error
  | GatePanics

definition required_payload :: "approval_request \<Rightarrow> tool_approval_required" where
  "required_payload request = \<lparr>ta_call_id = mc_call_id (aq_call request), ta_name = mc_name (aq_call request),
     ta_arguments = mc_arguments (aq_call request), ta_reason = aq_reason request,
     ta_approval_id = aq_approval_id request, ta_revision = 1, ta_breakpoint_type = aq_breakpoint_type request,
     ta_result_preview = None, ta_current_content = None, ta_matched_rule = aq_matched_rule request,
     ta_suggested_rule = map_option policy_rule_record_of (aq_suggested_rule request)\<rparr>"

definition forget_waiter :: "string \<Rightarrow> gate_state \<Rightarrow> gate_state" where
  "forget_waiter i gs = gs\<lparr>gs_waiters := gs_waiters gs - {i}\<rparr>"

text \<open>The announcement of a new ticket, \<open>None\<close> when the request goes on.\<close>

definition announce_ticket ::
    "string \<Rightarrow> string \<Rightarrow> (event_envelope \<Rightarrow> bool) \<Rightarrow> approval_ticket \<Rightarrow> gate_state \<Rightarrow> (gate_verdict \<times> gate_state) option" where
  "announce_ticket owner run_id delivered ticket gs =
     (if \<not> at_created ticket then None
      else case all_events run_id owner (gs_db gs) of
        Inl e \<Rightarrow> Some (GateFails (StoreFailure e), gs)
      | Inr es \<Rightarrow>
          if es = [] then Some (GateFails (SinkFailure ''approval event is missing''), gs)
          else if delivered (last es) then None
          else Some (GateFails (SinkFailure ''client disconnected before approval delivery''),
                     forget_waiter (at_approval_id ticket) gs))"

definition answer_or_wait :: "string \<Rightarrow> approval_ticket \<Rightarrow> gate_state \<Rightarrow> gate_verdict \<times> gate_state" where
  "answer_or_wait owner ticket gs =
     (case approval_outcome_of owner (at_approval_id ticket) (gs_db gs) of
        Inl e \<Rightarrow> (GateFails (StoreFailure e), gs)
      | Inr (Some (outcome, answer)) \<Rightarrow>
          (GateAnswers \<lparr>go_decision = outcome, go_answer = answer\<rparr>, forget_waiter (at_approval_id ticket) gs)
      | Inr None \<Rightarrow> (GateWaits (at_approval_id ticket), gs))"

definition gate_request ::
    "(string \<Rightarrow> string) \<Rightarrow> (nat \<Rightarrow> string) \<Rightarrow> (nat \<Rightarrow> string) \<Rightarrow> string \<Rightarrow> string \<Rightarrow> string \<Rightarrow>
     (tool_approval_required \<Rightarrow> bool) \<Rightarrow> (event_envelope \<Rightarrow> bool) \<Rightarrow> approval_request \<Rightarrow> gate_state \<Rightarrow>
     gate_verdict \<times> gate_state" where
  "gate_request ms u t owner session run_id fits delivered request gs =
     (case mask_canonical_event ms (ToolApprovalRequired (required_payload request)) of
        Inl e \<Rightarrow> (GateFails e, gs)
      | Inr (ToolApprovalRequired masked) \<Rightarrow>
          if \<not> fits masked then
            (GateFails (SinkFailure ''approval event exceeds the negotiated transport frame limit''), gs)
          else
            (case create_approval_with_arguments ms u t owner session run_id (mc_call_id (aq_call request))
                    (mc_name (aq_call request)) (ta_arguments masked) (ta_reason masked) (ta_matched_rule masked)
                    (ta_suggested_rule masked) (ta_breakpoint_type masked) (gs_db gs) of
               Inl e \<Rightarrow> (GateFails (StoreFailure e), gs)
             | Inr (ticket, db) \<Rightarrow>
                 let gs1 = \<lparr>gs_db = db, gs_waiters = insert (at_approval_id ticket) (gs_waiters gs)\<rparr> in
                 (case announce_ticket owner run_id delivered ticket gs1 of
                    Some r \<Rightarrow> r
                  | None \<Rightarrow> answer_or_wait owner ticket gs1))
      | Inr _ \<Rightarrow> (GatePanics, gs))"

definition gate_expire ::
    "(string \<Rightarrow> string) \<Rightarrow> (nat \<Rightarrow> string) \<Rightarrow> (nat \<Rightarrow> string) \<Rightarrow> string \<Rightarrow> string \<Rightarrow> gate_state \<Rightarrow>
     (runtime_error, bool) result \<times> gate_state" where
  "gate_expire ms u t owner approval_id gs =
     (case expire_approval ms u t owner approval_id (gs_db gs) of
        Inl e \<Rightarrow> (Inl (StoreFailure e), gs)
      | Inr (expired, db) \<Rightarrow> (Inr expired, gs\<lparr>gs_db := db\<rparr>))"

section \<open>Numbered calls\<close>

definition model_calls :: "model_item list \<Rightarrow> tool_call list" where
  "model_calls items = List.map_filter (\<lambda>i. case i of Inr (ModelToolCall c) \<Rightarrow> Some c | _ \<Rightarrow> None) items"

lemma model_calls_simps [simp]:
  "model_calls [] = []" "model_calls (xs @ ys) = model_calls xs @ model_calls ys"
  "model_calls (Inl e # xs) = model_calls xs" "model_calls (Inr (ModelToolCall c) # xs) = c # model_calls xs"
  "model_calls (Inr (ModelContent s) # xs) = model_calls xs" "model_calls (Inr (ModelUsage v) # xs) = model_calls xs"
  "model_calls (Inr (ModelFinish r) # xs) = model_calls xs" "model_calls (Inr (ModelReasoning s) # xs) = model_calls xs"
  by (simp_all add: model_calls_def List.map_filter_def)

definition gemini_id :: "64 word \<Rightarrow> nat \<Rightarrow> string" where
  "gemini_id n i = ''gemini-call-'' @ dec (unat (n + of_nat i + 1))"

text \<open>The items of a part of a response number their calls from \<open>n\<close> up.\<close>

definition numbered :: "64 word \<Rightarrow> model_item list \<Rightarrow> bool" where
  "numbered n items \<longleftrightarrow> map mc_call_id (model_calls items) = map (gemini_id n) [0..<length (model_calls items)]"

lemma numbered_append:
  "numbered n xs \<Longrightarrow> numbered (n + of_nat (length (model_calls xs))) ys \<Longrightarrow> numbered n (xs @ ys)"
proof -
  have "map (gemini_id (n + of_nat k)) [0..<j] = map (gemini_id n) [k..<k + j]" for k j
    by (rule nth_equalityI) (simp_all add: gemini_id_def algebra_simps)
  then show "numbered n xs \<Longrightarrow> numbered (n + of_nat (length (model_calls xs))) ys \<Longrightarrow> numbered n (xs @ ys)"
    by (simp add: numbered_def upt_add_eq_append [of 0] del: upt_Suc)
qed

lemma numbered_none [simp]: "model_calls items = [] \<Longrightarrow> numbered n items"
  by (simp add: numbered_def)

lemma gemini_parts_numbered:
  "gemini_parts parts n = (out, m) \<Longrightarrow> numbered n out \<and> m = n + of_nat (length (model_calls out))"
proof (induction parts n arbitrary: out m rule: gemini_parts.induct)
  case (2 part parts n)
  show ?case
  proof (cases "text_at part ''text''")
    case (Some s)
    with 2 show ?thesis by (auto simp: numbered_def split: prod.splits)
  next
    case None
    show ?thesis
    proof (cases "json_get part ''functionCall''")
      case (Some call)
      obtain out' where rest: "gemini_parts parts (n + 1) = (out', m)"
        and out: "out = [Inr (ModelToolCall (gemini_call (n + 1) call))] @ out'"
        using "2.prems" None Some by (auto split: prod.splits)
      have "numbered n [Inr (ModelToolCall (gemini_call (n + 1) call))]"
        by (simp add: numbered_def gemini_id_def gemini_call_def)
      with "2.IH"(2) [OF None Some rest] show ?thesis
        unfolding out by (auto intro!: numbered_append simp del: append_Cons)
    next
      case None
      with \<open>text_at part ''text'' = None\<close> 2 show ?thesis by simp
    qed
  qed
qed simp

lemma no_calls [simp]:
  "model_calls (gemini_usage w model value) = []" "model_calls (gemini_finish candidate) = []"
  by (auto simp: gemini_usage_def gemini_finish_def Let_def split: option.splits)

lemma gemini_candidate_numbered:
  "gemini_candidate candidate n = (out, m) \<Longrightarrow> numbered n out \<and> m = n + of_nat (length (model_calls out))"
  by (auto simp: gemini_candidate_def intro!: numbered_append dest!: gemini_parts_numbered split: option.splits prod.splits)

lemma gemini_line_numbered:
  assumes "gemini_line w model line n = (out, m, r)"
  shows "numbered n out \<and> (\<forall>stop. r = Inr stop \<longrightarrow> \<not> stop \<and> m = n + of_nat (length (model_calls out)))"
proof -
  have candidate: "numbered n (gemini_usage w model doc @ out') \<and>
      m' = n + of_nat (length (model_calls (gemini_usage w model doc @ out')))"
    if "gemini_candidate candidate n = (out', m')" for doc candidate out' m'
    using gemini_candidate_numbered [OF that] by (auto intro!: numbered_append)
  show ?thesis
    using assms candidate
    by (auto simp: gemini_line_def split: option.splits if_splits sum.splits list.splits prod.splits)
qed

lemma gemini_lines_numbered:
  "feed_lines (gemini_line w model) lines n = (out, r) \<Longrightarrow>
     numbered n out \<and> (\<forall>m. r = Some m \<longrightarrow> m = n + of_nat (length (model_calls out)))"
proof (induction lines arbitrary: n out)
  case (Cons line lines)
  obtain now m over where now: "gemini_line w model line n = (now, m, over)" by (cases "gemini_line w model line n") auto
  note n = gemini_line_numbered [OF now]
  show ?case
  proof (cases over)
    case (Inl e)
    with Cons.prems now n show ?thesis by (auto intro!: numbered_append)
  next
    case (Inr stop)
    with n have m: "\<not> stop" "m = n + of_nat (length (model_calls now))" by auto
    then obtain later where later: "feed_lines (gemini_line w model) lines m = (later, r)" "out = now @ later"
      using Inr Cons.prems now by (auto split: prod.splits)
    with Cons.IH [OF later(1)] n m show ?thesis by (auto intro!: numbered_append)
  qed
qed auto

lemma gemini_read_numbered: "numbered n (read_body (gemini_line w model) (\<lambda>_. []) max_bytes chunks received buffer n)"
proof (induction chunks arbitrary: received buffer n)
  case (Cons chunk chunks)
  show ?case
  proof (cases chunk)
    case (Inr bytes)
    have "numbered n (case feed_lines (gemini_line w model) lines n of (out, None) \<Rightarrow> out
        | (out, Some m) \<Rightarrow> out @ read_body (gemini_line w model) (\<lambda>_. []) max_bytes chunks k left m)" for lines k left
      using gemini_lines_numbered [of w model lines n] Cons.IH by (auto intro!: numbered_append split: prod.splits option.splits)
    then show ?thesis using Inr by (auto split: sum.splits prod.splits)
  qed simp
qed simp

lemma gemini_calls_numbered:
  "map mc_call_id (model_calls (gemini_body w model max_bytes chunks)) =
     map (gemini_id 0) [0..<length (model_calls (gemini_body w model max_bytes chunks))]"
  using gemini_read_numbered [of 0 w model max_bytes chunks 0 "[]"] by (simp add: gemini_body_def numbered_def)

section \<open>A decision is reused for another call\<close>

lemma reused_ticket:
  assumes "find (\<lambda>a. ap_run_id a = run_id \<and> ap_call_id a = mc_call_id (aq_call request)) (db_approvals (gs_db gs)) = Some a"
    and "find_approval (ap_id a) (gs_db gs) = Some a" "ap_actor_id a = owner" "ap_state a = Resolved outcome"
    and "require_run run_id owner (gs_db gs) = Inr snapshot" "sp_session_id snapshot = session"
    and "wire_fixed ms" "event_finite (ToolApprovalRequired (required_payload request))" "\<And>p. fits p"
  shows "gate_request ms u t owner session run_id fits delivered request gs =
    (GateAnswers \<lparr>go_decision = outcome, go_answer = ap_answer a\<rparr>, forget_waiter (ap_id a) gs)"
proof -
  obtain m where masked: "mask_event ms (ToolApprovalRequired (required_payload request)) = ToolApprovalRequired m" by simp
  have "approval_outcome_of owner (ap_id a) (gs_db gs) = Inr (Some (outcome, ap_answer a))"
    using assms(2-4) by (simp add: approval_outcome_of_def owned_approval_def)
  with assms masked show ?thesis
    by (simp add: gate_request_def mask_canonical_event_eq create_approval_with_arguments_def announce_ticket_def
        answer_or_wait_def forget_waiter_def)
qed

text \<open>
  Property C13. A decision of the user is taken for another call. The calls of a Gemini response
  are numbered from one in every response of a run, and the gate looks a ticket up by the run
  and the number; so when the user has decided the k-th call of one response, the k-th call of
  any later response of the run, whatever its tool and arguments, is answered with that
  decision at once, with no event and no change of the store.
\<close>
theorem gemini_call_inherits_decision:
  assumes calls: "k < length (model_calls (gemini_body w model max_bytes chunks))"
      "k < length (model_calls (gemini_body w model max_bytes chunks'))"
    and request: "aq_call request = model_calls (gemini_body w model max_bytes chunks') ! k"
    and ticket: "find (\<lambda>a. ap_run_id a = run_id \<and>
        ap_call_id a = mc_call_id (model_calls (gemini_body w model max_bytes chunks) ! k)) (db_approvals (gs_db gs)) = Some a"
    and decided: "find_approval (ap_id a) (gs_db gs) = Some a" "ap_actor_id a = owner" "ap_state a = Resolved outcome"
    and live: "require_run run_id owner (gs_db gs) = Inr snapshot" "sp_session_id snapshot = session"
    and env: "wire_fixed ms" "event_finite (ToolApprovalRequired (required_payload request))" "\<And>p. fits p"
  shows "gate_request ms u t owner session run_id fits delivered request gs =
    (GateAnswers \<lparr>go_decision = outcome, go_answer = ap_answer a\<rparr>, forget_waiter (ap_id a) gs)"
proof -
  have "mc_call_id (model_calls (gemini_body w model max_bytes c) ! k) = gemini_id 0 k"
    if "k < length (model_calls (gemini_body w model max_bytes c))" for c
    using that arg_cong [OF gemini_calls_numbered [of w model max_bytes c], of "\<lambda>xs. xs ! k"] by simp
  with calls request ticket have "find (\<lambda>a. ap_run_id a = run_id \<and> ap_call_id a = mc_call_id (aq_call request))
      (db_approvals (gs_db gs)) = Some a" by simp
  then show ?thesis by (rule reused_ticket [OF _ decided live env])
qed

definition sample_response :: "string \<Rightarrow> (string, string) result list" where
  "sample_response s = [Inr (''data: '' @ s @ [newline])]"

definition sample_call :: "string \<Rightarrow> tool_call" where
  "sample_call name = \<lparr>mc_call_id = ''gemini-call-1'', mc_name = name, mc_arguments = []\<rparr>"

definition decided_ticket :: approval_row where
  "decided_ticket = sample_ticket\<lparr>ap_call_id := ''gemini-call-1'', ap_tool_name := ''read_file'', ap_state := Resolved Approved\<rparr>"

definition sample_gate :: gate_state where
  "sample_gate = \<lparr>gs_db = sample_db\<lparr>db_approvals := [decided_ticket]\<rparr>, gs_waiters = {}\<rparr>"

definition shell_request :: approval_request where
  "shell_request = \<lparr>aq_approval_id = ''x'', aq_call = sample_call ''shell'', aq_reason = ''ask'',
     aq_matched_rule = None, aq_suggested_rule = None, aq_breakpoint_type = None\<rparr>"

lemma sample_calls:
  "model_calls (gemini_body sample_wire ''m'' 100 (sample_response ''1'')) = [sample_call ''read_file'']"
  "model_calls (gemini_body sample_wire ''m'' 100 (sample_response ''2'')) = [sample_call ''shell'']"
  by code_simp+

theorem gemini_call_inherits_decision_witness:
  "gate_request star_out (\<lambda>i. ''1'') (\<lambda>i. ''t'') ''amy'' ''s'' ''run-1'' (\<lambda>_. True) (\<lambda>_. True) shell_request sample_gate =
    (GateAnswers \<lparr>go_decision = Approved, go_answer = None\<rparr>, forget_waiter ''approval-1'' sample_gate)"
proof -
  have db: "db_approvals (gs_db sample_gate) = [decided_ticket]" "find_approval ''approval-1'' (gs_db sample_gate) = Some decided_ticket"
    by (simp_all add: sample_gate_def find_approval_def decided_ticket_def)
  have live: "require_run ''run-1'' ''amy'' (gs_db sample_gate) = Inr (run_snapshot_of (new_run ''run-1'' ''s'' ''amy'' ''t'' None))"
    by (simp add: require_run_def find_run_def sample_gate_def new_run_def)
  have payload: "event_finite (ToolApprovalRequired (required_payload shell_request))"
    by (simp add: required_payload_def shell_request_def sample_call_def)
  show ?thesis
    using gemini_call_inherits_decision [of 0 sample_wire "''m''" 100 "sample_response ''1''" "sample_response ''2''" shell_request
        "''run-1''" sample_gate decided_ticket "''amy''" Approved _ "''s''" star_out "\<lambda>_. True", OF _ _ _ _ _ _ _ live _ wire_fixed_star_out payload]
    by (simp add: sample_calls db decided_ticket_def sample_call_def shell_request_def run_snapshot_of_def new_run_def)
qed

end
