(* ===== verification/Model_Payloads.thy ===== *)
theory Model_Payloads
  imports Model_Streams Agent_Actions
begin

text \<open>
  The request bodies of the model drivers: \<open>openai_payload\<close> of
  \<open>crates/cool-agent/src/provider.rs\<close>, \<open>anthropic_payload\<close> of
  \<open>anthropic.rs\<close> and \<open>gemini_payload\<close> of \<open>gemini.rs\<close>, and how a driver
  opens a stream: one refresh of the credential after a 401, and what a status line says. Objects are
  written with their keys ascending, as a \<open>BTreeMap\<close> keeps them. \<open>ser\<close> is
  \<open>to_string\<close> of a value.
\<close>

section \<open>Numbers and texts\<close>

text \<open>A temperature is an \<open>f32\<close>; its document is the \<open>f64\<close> of the same value, or null.\<close>

definition f64_of_f32 :: "32 word \<Rightarrow> nat" where
  "f64_of_f32 x =
     (let b = unat x; sign = b div 2 ^ 31; e = b div 2 ^ 23 mod 2 ^ 8; m = b mod 2 ^ 23
      in sign * 2 ^ 63 +
         (if e = 0 then
            if m = 0 then 0
            else let k = bit_length m - 1 in (k + 874) * 2 ^ 52 + (m * 2 ^ (52 - k) - 2 ^ 52)
          else (e + 896) * 2 ^ 52 + m * 2 ^ 29))"

definition f32_json :: "32 word \<Rightarrow> json" where
  "f32_json x = (if unat x div 2 ^ 23 mod 2 ^ 8 = 255 then JNull else JNumber (Float (of_nat (f64_of_f32 x))))"

definition set_key :: "string \<Rightarrow> json \<Rightarrow> json \<Rightarrow> json" where
  "set_key key value j = (case j of JObject m \<Rightarrow> JObject (bt_insert key value m) | _ \<Rightarrow> j)"

definition part_text :: "content_part \<Rightarrow> string" where
  "part_text p = (case p of TextPart s \<Rightarrow> s | ImagePart media_type data \<Rightarrow> ''[image: '' @ media_type @ '']'')"

definition parts_as_text :: "content_part list \<Rightarrow> string" where
  "parts_as_text parts = foldl (\<lambda>out p. (if out = [] then out else out @ [newline]) @ part_text p) [] parts"

definition nonempty_parts :: "message \<Rightarrow> content_part list" where
  "nonempty_parts m = unwrap_or [] (mg_parts m)"

definition text_block :: "string \<Rightarrow> json" where
  "text_block s = JObject [(''text'', JString s), (''type'', JString ''text'')]"

definition leading_text :: "(string \<Rightarrow> json) \<Rightarrow> message \<Rightarrow> json list" where
  "leading_text block m = (case nonempty (mg_content m) of None \<Rightarrow> [] | Some s \<Rightarrow> [block s])"

section \<open>OpenAI-compatible requests\<close>

definition openai_role :: "message_role \<Rightarrow> string" where
  "openai_role r = (case r of SystemRole \<Rightarrow> ''system'' | UserRole \<Rightarrow> ''user'' | AssistantRole \<Rightarrow> ''assistant''
     | ToolRole \<Rightarrow> ''tool'')"

definition openai_part :: "content_part \<Rightarrow> json" where
  "openai_part p = (case p of
      TextPart s \<Rightarrow> text_block s
    | ImagePart media_type data \<Rightarrow> JObject
        [(''image_url'', JObject [(''url'', JString (''data:'' @ media_type @ '';base64,'' @ data))]),
         (''type'', JString ''image_url'')])"

definition openai_content :: "message \<Rightarrow> json" where
  "openai_content m =
     (let parts = nonempty_parts m; plain = opt_json JString (mg_content m) in
      if parts = [] then plain
      else if mg_role m = UserRole \<or> mg_role m = AssistantRole
      then JArray (leading_text text_block m @ map openai_part parts)
      else let degraded = parts_as_text parts in
        if degraded = [] then plain
        else JString (case nonempty (mg_content m) of
          Some s \<Rightarrow> s @ [newline] @ degraded | None \<Rightarrow> degraded))"

definition openai_tool_call :: "(json \<Rightarrow> string) \<Rightarrow> tool_call \<Rightarrow> json" where
  "openai_tool_call ser c = JObject
     [(''function'', JObject [(''arguments'', JString (ser (JObject (mc_arguments c)))), (''name'', JString (mc_name c))]),
      (''id'', JString (mc_call_id c)), (''type'', JString ''function'')]"

definition openai_message :: "(json \<Rightarrow> string) \<Rightarrow> message \<Rightarrow> json" where
  "openai_message ser m =
     (let value = JObject [(''content'', openai_content m), (''role'', JString (openai_role (mg_role m)))];
          value = (if mg_tool_calls m = [] then value
            else set_key ''tool_calls'' (JArray (map (openai_tool_call ser) (mg_tool_calls m))) value)
      in case mg_tool_call_id m of
           None \<Rightarrow> value | Some i \<Rightarrow> set_key ''tool_call_id'' (JString i) value)"

definition openai_tool :: "tool_definition \<Rightarrow> json" where
  "openai_tool d = JObject
     [(''function'', JObject [(''description'', JString (df_description d)), (''name'', JString (df_name d)),
        (''parameters'', df_parameters d)]), (''type'', JString ''function'')]"

definition openai_payload :: "(json \<Rightarrow> string) \<Rightarrow> model_request \<Rightarrow> json" where
  "openai_payload ser rq = JObject
     [(''max_tokens'', opt_json u32_json (mr_max_tokens rq)),
      (''messages'', JArray (map (openai_message ser) (mr_messages rq))),
      (''model'', JString (mr_model rq)),
      (''stream'', JBool True),
      (''stream_options'', JObject [(''include_usage'', JBool True)]),
      (''temperature'', f32_json (mr_temperature rq)),
      (''tools'', JArray (map openai_tool (mr_tools rq)))]"

section \<open>Anthropic requests\<close>

definition anthropic_part_block :: "content_part \<Rightarrow> json" where
  "anthropic_part_block p = (case p of
      TextPart s \<Rightarrow> text_block s
    | ImagePart media_type data \<Rightarrow> JObject
        [(''source'', JObject [(''data'', JString data), (''media_type'', JString media_type), (''type'', JString ''base64'')]),
         (''type'', JString ''image'')])"

definition anthropic_tool_use :: "tool_call \<Rightarrow> json" where
  "anthropic_tool_use c = JObject
     [(''id'', JString (mc_call_id c)), (''input'', JObject (mc_arguments c)), (''name'', JString (mc_name c)),
      (''type'', JString ''tool_use'')]"

definition anthropic_tool_result :: "message \<Rightarrow> json" where
  "anthropic_tool_result m =
     (let content = (if nonempty_parts m = [] then opt_json JString (mg_content m)
            else JArray (leading_text text_block m @ map anthropic_part_block (nonempty_parts m)))
      in JObject
        [(''content'', JArray [JObject [(''content'', content), (''tool_use_id'', opt_json JString (mg_tool_call_id m)),
           (''type'', JString ''tool_result'')]]),
         (''role'', JString ''user'')])"

definition anthropic_blocks :: "message \<Rightarrow> json list" where
  "anthropic_blocks m =
     (let blocks = leading_text text_block m @ map anthropic_tool_use (mg_tool_calls m) @
            map anthropic_part_block (nonempty_parts m)
      in if blocks = [] then [text_block []] else blocks)"

definition anthropic_message :: "message \<Rightarrow> json" where
  "anthropic_message m =
     (if mg_role m = ToolRole then anthropic_tool_result m
      else JObject [(''content'', JArray (anthropic_blocks m)),
        (''role'', JString (if mg_role m = AssistantRole then ''assistant'' else ''user''))])"

definition default_max_tokens :: "32 word" where "default_max_tokens = 4096"

fun join_blank :: "string list \<Rightarrow> string" where
  "join_blank [] = []"
| "join_blank [s] = s"
| "join_blank (s # t # ts) = s @ [newline, newline] @ join_blank (t # ts)"

definition anthropic_tool :: "tool_definition \<Rightarrow> json" where
  "anthropic_tool d = JObject [(''description'', JString (df_description d)), (''input_schema'', df_parameters d),
     (''name'', JString (df_name d))]"

definition system_texts :: "message list \<Rightarrow> string list" where
  "system_texts ms = List.map_filter (\<lambda>m. nonempty (mg_content m)) (filter (\<lambda>m. mg_role m = SystemRole) ms)"

definition not_system :: "message list \<Rightarrow> message list" where
  "not_system ms = filter (\<lambda>m. mg_role m \<noteq> SystemRole) ms"

definition anthropic_payload :: "model_request \<Rightarrow> json" where
  "anthropic_payload rq =
     (let system_parts = system_texts (mr_messages rq);
          payload = JObject
            [(''max_tokens'', u32_json (unwrap_or default_max_tokens (mr_max_tokens rq))),
             (''messages'', JArray (map anthropic_message (not_system (mr_messages rq)))),
             (''model'', JString (mr_model rq)), (''stream'', JBool True),
             (''temperature'', f32_json (mr_temperature rq))];
          payload = (if system_parts = [] then payload else set_key ''system'' (JString (join_blank system_parts)) payload)
      in if mr_tools rq = [] then payload
         else set_key ''tools'' (JArray (map anthropic_tool (mr_tools rq))) payload)"

section \<open>Gemini requests\<close>

definition gemini_text :: "string \<Rightarrow> json" where
  "gemini_text s = JObject [(''text'', JString s)]"

definition gemini_part :: "content_part \<Rightarrow> json" where
  "gemini_part p = (case p of
      TextPart s \<Rightarrow> gemini_text s
    | ImagePart media_type data \<Rightarrow>
        JObject [(''inlineData'', JObject [(''data'', JString data), (''mimeType'', JString media_type)])])"

definition gemini_function_call :: "tool_call \<Rightarrow> json" where
  "gemini_function_call c =
     JObject [(''functionCall'', JObject [(''args'', JObject (mc_arguments c)), (''name'', JString (mc_name c))])]"

definition gemini_content :: "message \<Rightarrow> json" where
  "gemini_content m =
     (let parts = leading_text gemini_text m @ map gemini_function_call (mg_tool_calls m) @
            map gemini_part (nonempty_parts m)
      in JObject [(''parts'', JArray (if parts = [] then [gemini_text []] else parts)),
           (''role'', JString (if mg_role m = AssistantRole then ''model'' else ''user''))])"

definition gemini_response :: "wire \<Rightarrow> message \<Rightarrow> json" where
  "gemini_response w m =
     (case (case mg_content m of None \<Rightarrow> Inl [] | Some content \<Rightarrow> wr_json w content) of
        Inr (JObject entries) \<Rightarrow> JObject entries
      | Inr parsed \<Rightarrow> JObject [(''result'', parsed)]
      | Inl _ \<Rightarrow> JObject [(''result'', JString (unwrap_or [] (mg_content m)))])"

definition gemini_tool_content :: "wire \<Rightarrow> message \<Rightarrow> json" where
  "gemini_tool_content w m = JObject
     [(''parts'', JArray (JObject [(''functionResponse'', JObject
          [(''name'', JString (unwrap_or [] (mg_name m))), (''response'', gemini_response w m)])]
        # map gemini_part (nonempty_parts m))),
      (''role'', JString ''user'')]"

definition gemini_tool :: "tool_definition \<Rightarrow> json" where
  "gemini_tool d = JObject [(''description'', JString (df_description d)), (''name'', JString (df_name d)),
     (''parameters'', df_parameters d)]"

definition gemini_payload :: "wire \<Rightarrow> model_request \<Rightarrow> json" where
  "gemini_payload w rq =
     (let system_parts = map gemini_text (system_texts (mr_messages rq));
          contents = map (\<lambda>m. if mg_role m = ToolRole then gemini_tool_content w m else gemini_content m)
            (not_system (mr_messages rq));
          generation = [(''temperature'', f32_json (mr_temperature rq))];
          generation = (case mr_max_tokens rq of None \<Rightarrow> generation
            | Some n \<Rightarrow> bt_insert ''maxOutputTokens'' (u32_json n) generation);
          payload = JObject [(''contents'', JArray contents), (''generationConfig'', JObject generation)];
          payload = (if system_parts = [] then payload
            else set_key ''systemInstruction'' (JObject [(''parts'', JArray system_parts)]) payload)
      in if mr_tools rq = [] then payload
         else set_key ''tools'' (JArray [JObject [(''functionDeclarations'', JArray (map gemini_tool (mr_tools rq)))]]) payload)"

section \<open>Opening a stream\<close>

text \<open>
  What the status line of a response says; \<open>status_text\<close> is the display of the crate
  \<open>http\<close>, the number and its reason phrase.
\<close>

definition status_failure :: "(nat \<Rightarrow> string) \<Rightarrow> nat \<Rightarrow> provider_error option" where
  "status_failure status_text status =
     (if 300 \<le> status \<and> status < 400 then
        Some (provider_failure ''provider_redirect_denied'' ''provider redirects require explicit revalidation'' False)
      else if \<not> (200 \<le> status \<and> status < 300) then
        Some (provider_failure (if status = 401 then ''provider_unauthorized'' else ''provider_http'')
          (''provider returned '' @ status_text status) (status = 429 \<or> 500 \<le> status \<and> status < 600))
      else None)"

definition is_unauthorized :: "provider_error \<Rightarrow> bool" where
  "is_unauthorized e \<longleftrightarrow> pv_code e = ''provider_unauthorized''"

text \<open>\<open>once\<close> is one attempt with a credential; \<open>refresh\<close> exists when the driver has a token source.\<close>

definition driver_stream ::
    "('s \<Rightarrow> (provider_error, 'c) result \<times> 's) \<Rightarrow> ('c \<Rightarrow> 's \<Rightarrow> (provider_error, 'r) result \<times> 's) \<Rightarrow>
     ('s \<Rightarrow> (provider_error, 'c) result \<times> 's) option \<Rightarrow> 's \<Rightarrow> (provider_error, 'r) result \<times> 's" where
  "driver_stream credential once refresh s =
     (case credential s of
        (Inl e, s1) \<Rightarrow> (Inl e, s1)
      | (Inr c, s1) \<Rightarrow>
          (case (once c s1, refresh) of
             ((Inl e, s2), Some renew) \<Rightarrow>
               if is_unauthorized e then
                 (case renew s2 of (Inl e', s3) \<Rightarrow> (Inl e', s3) | (Inr c', s3) \<Rightarrow> once c' s3)
               else (Inl e, s2)
           | (r, _) \<Rightarrow> r))"

section \<open>What a request keeps\<close>

definition wire_ids :: "string \<Rightarrow> json list \<Rightarrow> string list" where
  "wire_ids key js = List.map_filter (\<lambda>j. text_at j key) js"

lemma set_key_get [simp]:
  "bt_ok m \<Longrightarrow> json_get (set_key key value (JObject m)) k = (if k = key then Some value else map_of m k)"
  by (simp add: set_key_def json_get_def map_of_bt_insert)

definition elements :: "json option \<Rightarrow> json list" where
  "elements j = unwrap_or [] (json_array j)"

lemma no_ids [simp]:
  "text_at (text_block s) ''id'' = None" "text_at (anthropic_part_block p) ''id'' = None"
  by (auto simp: text_at_def json_get_def text_block_def anthropic_part_block_def json_text_def split: content_part.splits)

text \<open>Every call of an assistant message stands in the request, under its identifier and in order.\<close>

lemma anthropic_message_calls:
  assumes "mg_role m \<noteq> ToolRole"
  shows "wire_ids ''id'' (elements (json_get (anthropic_message m) ''content'')) = map mc_call_id (mg_tool_calls m)"
proof -
  have "text_at (anthropic_tool_use c) ''id'' = Some (mc_call_id c)" for c
    by (simp add: anthropic_tool_use_def text_at_def json_get_def json_text_def)
  then have "wire_ids ''id'' (map anthropic_tool_use cs) = map mc_call_id cs" for cs
    by (simp add: wire_ids_def List.map_filter_def comp_def)
  moreover have "wire_ids ''id'' (leading_text text_block m) = []" "wire_ids ''id'' (map anthropic_part_block ps) = []" for ps
    by (auto simp: wire_ids_def leading_text_def List.map_filter_def comp_def split: option.splits)
  moreover have "wire_ids k (xs @ ys) = wire_ids k xs @ wire_ids k ys" for k xs ys
    by (simp add: wire_ids_def List.map_filter_def)
  ultimately have "wire_ids ''id'' (anthropic_blocks m) = map mc_call_id (mg_tool_calls m)"
    by (auto simp: anthropic_blocks_def Let_def wire_ids_def [of _ "[text_block []]"] List.map_filter_def)
  with assms show ?thesis by (simp add: anthropic_message_def json_get_def elements_def json_array_def unwrap_or_def)
qed

lemma openai_message_calls:
  "wire_ids ''id'' (elements (json_get (openai_message ser m) ''tool_calls'')) = map mc_call_id (mg_tool_calls m)"
proof -
  have call: "text_at (openai_tool_call ser c) ''id'' = Some (mc_call_id c)" for c
    by (simp add: openai_tool_call_def text_at_def json_get_def json_text_def)
  show ?thesis
    by (auto simp: openai_message_def Let_def set_key_def json_get_def elements_def json_array_def unwrap_or_def wire_ids_def
        List.map_filter_def comp_def call split: option.splits)
qed

text \<open>A driver makes at most two attempts, and the second one only after a refresh that followed a 401.\<close>

lemma driver_stream_attempts:
  assumes "driver_stream credential once refresh s = (r, s')"
  obtains e where "credential s = (Inl e, s')" "r = Inl e"
  | c s1 where "credential s = (Inr c, s1)" "once c s1 = (r, s')"
  | c s1 e s2 renew e' where "credential s = (Inr c, s1)" "once c s1 = (Inl e, s2)" "is_unauthorized e"
      "refresh = Some renew" "renew s2 = (Inl e', s')" "r = Inl e'"
  | c s1 e s2 renew c' s3 where "credential s = (Inr c, s1)" "once c s1 = (Inl e, s2)" "is_unauthorized e"
      "refresh = Some renew" "renew s2 = (Inr c', s3)" "once c' s3 = (r, s')"
  using assms unfolding driver_stream_def
  by (auto split: prod.splits sum.splits option.splits if_splits)

end
