(* ===== verification/Spec2Isabelle.thy ===== *)
theory Spec2Isabelle
  imports Rule_State Store_To_Client Agent_Store_Claims Executor_Samples Approval_Gate Model_Payloads
begin

text \<open>
  A verification development for the Rust core of the \<open>cool\<close> agent harness. The names of
  files are relative to \<open>src/\<close>.

  \<^bold>\<open>The program.\<close> A server runs language-model agents for several actors. A session is a
  conversation of one actor; a run is one prompt of a session. The agent loop
  (\<open>crates/cool-agent\<close>) reads the model stream of a turn, gates the tool calls it asks for
  by capability policies and policy rules (\<open>crates/cool-security\<close>), runs them concurrently,
  and says everything it does as canonical events (\<open>crates/cool-protocol\<close>). The sink of a
  run masks each event and appends it to the durable store (\<open>crates/cool-state\<close>, SQLite),
  which keeps sessions, runs, event logs, approval tickets, cancellations and budgets under
  idempotency keys, recovers after a crash, and forks and rewinds sessions. Every client folds the
  events of a run into its state with the reducer of \<open>crates/cool-protocol\<close>. Tasks run
  on their own: the scheduler (\<open>crates/cool-store\<close>) decides every few seconds which tasks
  are due, and the executor (\<open>crates/cool-app-server/src/scheduler.rs\<close>) runs them as
  background runs with a narrowed policy.

  \<^bold>\<open>Policies, \<open>crates/cool-security\<close> and \<open>crates/cool-extensions/src/lib.rs\<close>.\<close>
  \<open>Policy_Rules\<close>: rules, subjects, patterns and the precedence of \<open>match_rules\<close>
  (\<open>rules.rs\<close>). \<open>Rule_State\<close>: the live rule sets of a server, one definition per
  method of \<open>RuleState\<close>; the operation keyed by an id is the locale
  \<open>keyed_operation\<close>. \<open>Capability_Policy\<close>: \<open>CapabilityPolicy\<close>,
  narrowing (locale \<open>narrowing\<close>), the gate of a tool call, and the policy of a plugin.

  \<^bold>\<open>Documents, \<open>crates/cool-protocol/src/lib.rs\<close>.\<close> \<open>Ordered_Maps\<close>:
  a \<open>BTreeMap\<close> as the ascending list of its entries (locale \<open>finite_map\<close>).
  \<open>Json_Values\<close>: \<open>serde_json::Value\<close>, \<open>mask_json\<close>, and the reader
  combinators in which the derived serde readers are written. \<open>Protocol_Payloads\<close> and
  \<open>Protocol_Events\<close>: the payload of each event, \<open>CanonicalEvent\<close>,
  \<open>EventEnvelope\<close>, their writers and strict readers; each round trip is a lemma of the
  collection \<open>codec\<close>. \<open>Event_Masking\<close>: what masking does to the document of an
  envelope. \<open>Client_State\<close>: \<open>ClientState::try_apply\<close> and \<open>try_replay\<close>.

  \<^bold>\<open>The durable store, \<open>crates/cool-state/src/lib.rs\<close>.\<close> \<open>State_Tables\<close>:
  the tables as lists and maps in the record \<open>db\<close>, the statements, the status machine, and
  \<open>append_event_tx\<close>. \<open>Stored_Documents\<close>: what a stored document reads as.
  \<open>State_Runs\<close>, \<open>State_Approvals\<close>, \<open>State_History\<close>,
  \<open>State_Links\<close>, \<open>State_Budgets\<close>: one definition per method of
  \<open>DurableStore\<close>; a method is one transaction, so an error leaves the database as it was.
  \<open>State_Invariant\<close>, \<open>State_Growth\<close>, \<open>State_Frame\<close>: the invariant
  \<open>db_ok\<close>, what a later database keeps of an earlier one (\<open>db_grows\<close>), and the
  contracts of the operations, stated as the locales \<open>extension\<close>, \<open>store\<close>,
  \<open>quiet\<close>, \<open>climb\<close> and \<open>generations\<close> and interpreted on the operations
  that keep them. \<open>State_Machine\<close>: the store as an inductive step relation, one step per
  committed operation of any actor; its invariants hold in every reachable database.
  \<open>Run_Safety\<close>, \<open>Run_Properties\<close>, \<open>Masked_Log\<close>,
  \<open>Run_Recovery\<close>, \<open>Run_Claims\<close>, \<open>Approval_Claims\<close>,
  \<open>Seed_Runs\<close>, \<open>History_Claims\<close>: what prompts, appends, cancellation, recovery,
  replay, approvals, forks and rewinds promise. \<open>Store_To_Client\<close>: the log of a run, read
  back from the store, is accepted by the client reducer, and both agree on how the run ended.

  \<^bold>\<open>The agent loop, \<open>crates/cool-agent/src\<close>.\<close> \<open>Agent_Messages\<close>
  (\<open>context.rs\<close>, \<open>provider.rs\<close>, \<open>loop_runtime.rs\<close>): messages, usage,
  the subject a call is matched against, the suggested rule, and the wire form of rules.
  \<open>Context_Compaction\<close> (\<open>context.rs\<close>): token estimates, exchange groups, and
  \<open>compact_history\<close>. \<open>Tool_Registry\<close> (\<open>tools.rs\<close>): the registry and
  its visibility rules. \<open>Agent_Actions\<close>: the environment of a run, a record with one field
  for each call the loop makes on its traits, its clock and its shared cells; an action returns what
  the caller sees and the state after it, and a panic is an error that no \<open>?\<close> converts.
  \<open>Agent_Batch\<close>: \<open>execute_tool_batch\<close>, in the order of the code: announce and gate
  each call, snapshot and mark the admitted ones, collect results until all ended or the run is
  cancelled. \<open>Agent_Loop\<close>: \<open>AgentRuntime::run\<close> and \<open>run_subagent\<close>.
  \<open>Agent_Store\<close>: \<open>StoreEventSink\<close>, which ties the loop to the durable store, and
  \<open>history_from_event_rows\<close>.

  \<open>Agent_Traces\<close> holds a calculus of actions that append to a log, the locales
  \<open>agent_sink\<close> (what the loop relies on: only emissions touch the log) and
  \<open>language\<close> (a set of event sequences closed under concatenation), and the recording
  environment, on which \<open>agent_sink\<close> is interpreted for every environment.
  \<open>Agent_Runs\<close>: the locale \<open>agent_language\<close> extends both, and proves once that
  a run speaks its language up to one closing event. \<open>Agent_Batches\<close> and
  \<open>Agent_Answers\<close>: what a batch says. \<open>Agent_Erasure\<close>: recording changes neither
  the result nor the state of a run, so \<open>run_log\<close> is the log of the run itself.
  \<open>Agent_Samples\<close>: concrete environments and runs. \<open>Agent_Claims\<close> and
  \<open>Agent_Store_Claims\<close>: the properties; each language of events is an interpretation.

  \<^bold>\<open>The model providers, \<open>crates/cool-agent/src\<close>.\<close> \<open>Model_Pricing\<close>
  (\<open>pricing.rs\<close>): the price table, its lookup and the cost of a completion.
  \<open>Sse_Lines\<close> (\<open>provider.rs\<close>): UTF-8, \<open>decode_sse_lines\<close>, and the task
  that reads the body of a response, with the lemma that only the bytes of the body matter.
  \<open>Model_Streams\<close> (\<open>provider.rs\<close>, \<open>anthropic.rs\<close>, \<open>gemini.rs\<close>):
  the protocol of each vendor, one function per kind of line. \<open>Stream_Claims\<close>: their
  properties; the locale \<open>closing_protocol\<close> is the contract of a protocol whose streams
  end once. \<open>Model_Payloads\<close>: the request bodies, status lines, and the one refresh of a
  credential. \<open>Approval_Gate\<close>: \<open>AppServerApprovalGate\<close> of
  \<open>crates/cool-app-server/src/lib.rs\<close> on the durable store, and what becomes of the
  numbered calls of Gemini there.

  \<^bold>\<open>The scheduler, \<open>crates/cool-store/src\<close> and
  \<open>crates/cool-app-server/src/scheduler.rs\<close>.\<close> \<open>Unicode_Text\<close>: the string
  methods on UTF-8 bytes (\<open>trim\<close>, \<open>split_whitespace\<close>). \<open>Calendar\<close> and
  \<open>Timestamps\<close> (\<open>time.rs\<close>): the proleptic Gregorian calendar, and timestamps as
  Python writes and reads them. \<open>Cron_Schedule\<close> (\<open>scheduler.rs\<close>): the parser
  of cron expressions and the search for the next match; \<open>Cron_Search\<close>: the parsed table is
  the set of the values written, and the search finds the least match within its horizon.
  \<open>Schedule_Engine\<close> (\<open>scheduler.rs\<close>, \<open>actors.rs\<close>): offsets, quiet
  hours, \<open>next_run\<close>, \<open>Scheduler::plan\<close>, \<open>mark_running\<close> and
  \<open>complete\<close>; \<open>Schedule_Claims\<close>: its properties, and the locale
  \<open>single_flight\<close>, interpreted on the engine and used for the executor's set of running
  tasks. \<open>Task_Store\<close> (\<open>domains/tasks.rs\<close>, \<open>domains/common.rs\<close>): the
  task tables and every operation on tasks and their runs. \<open>Task_Executor\<close>: the executor,
  its timer tick, manual runs, cancellation, the writes at the end of a run, and the policy of a task,
  as functions and as a step relation. \<open>Task_Claims\<close>, \<open>Executor_Claims\<close>: their
  properties; \<open>Executor_Samples\<close>: concrete tasks and executors.

  \<^bold>\<open>Types.\<close> A Rust \<open>String\<close> is the HOL string of its UTF-8 bytes; \<open>u64\<close>
  is \<open>64 word\<close>, and a column of SQLite an \<open>int\<close> in the range of \<open>i64\<close>,
  with the casts \<open>as_u64\<close> and \<open>as_i64\<close> written out. Token estimates and the limits
  of a run are naturals: sums of lengths of texts in memory stay below \<open>u64\<close>. An
  \<open>f64\<close> is its 64-bit pattern. A \<open>Result\<close> is a sum. \<open>Cool_Prelude\<close> has
  the error monad, decimal numbers, and the collection \<open>res_simps\<close>.

  \<^bold>\<open>Parameters.\<close> Code that is not under \<open>src/\<close> is a parameter: \<open>ms\<close>,
  \<open>mask_secrets\<close> (regular expressions of the crate \<open>regex\<close>); \<open>glob\<close>, the
  matcher of the crate \<open>globset\<close>; \<open>host\<close>, the host of a URL of the crate
  \<open>url\<close>; \<open>ser\<close>, \<open>serde_json::to_string\<close>; the record \<open>wire\<close>,
  \<open>serde_json::from_str\<close> and \<open>str::to_lowercase\<close>; \<open>u\<close> and
  \<open>t\<close>, the UUIDs and clock readings an operation draws; and the fields of the environment of
  a run. Hypotheses on them: \<open>wire_fixed ms\<close>, the masker leaves the fixed words of the
  protocol alone; \<open>mask_idem ms\<close>, masking twice is masking once; \<open>tasks_return env\<close>,
  a started tool task ends with a value and the grace period of a cancellation does not expire within
  a publication. Each is met by a concrete instance in a witness; without the last one
  \<open>cut_publication_loses_result\<close> shows a result that is lost.

  \<^bold>\<open>Bounds and fuel.\<close> No definition takes fuel that the code has not: the loops are
  structural recursions or have a measure (retries left, steps of a stream left, tasks still running).
  The loop of a run recurses on the iterations left; \<open>iterations_never_run_out\<close> shows that
  it does not run out. The search of a cron expression looks at 2928 days, the bound of the code, and
  the day after the last is an error there too. Arithmetic on seconds is that of \<open>i64\<close>: an
  overflow panics, and a panic is a value (\<open>Panics\<close>, \<open>TaskPanic\<close>). The body of a
  response is the list of its chunks.

  \<^bold>\<open>Not modelled.\<close> In the modelled files: the ranking of \<open>search_tools\<close>, the file,
  process and web tools, the checkpoint of the workspace, the channel of \<open>CancelSignal\<close> (the
  environment says when it fires), reading project instructions from disk, the migration and the
  connection handling of the store, and the regular expressions of \<open>mask_secrets\<close>. Of the
  scheduler: \<open>parse_natural_schedule\<close> (phrases of a user interface), the research workflow
  of a task, and the agent request it builds; a tick of the executor is one
  step of the model, and so is a request of the approval gate. Of the providers: DNS pinning, the HTTP
  client and the token sources. The other
  crates are servers, transports, command-line front ends, user interfaces and domain tables that
  call this core; the manifest lists them with the reason.
\<close>

end
